(* ===== verification/BP_Prelude.thy ===== *)
theory BP_Prelude
  imports Main "HOL-Library.Word"
begin

text \<open>
  Shared vocabulary of the development: the C++ integer types as words of their width, the
  arithmetic facts about them that several components use, and the theorem collections that
  the component theories fill.

  \<^item> \<open>geometry\<close> collects facts that turn the overflow checks of address ranges into order facts;
  \<^item> \<open>byte_simps\<close> collects facts about reading and writing little-endian words in byte lists.
\<close>

named_theorems geometry "facts about base, size and high address of a range"
named_theorems byte_simps "facts about words stored in byte lists"

type_synonym u8 = "8 word"
type_synonym u16 = "16 word"
type_synonym u32 = "32 word"
type_synonym u64 = "64 word"

section \<open>common/safe_math.h\<close>

text \<open>
  The value pair is the truncated sum and whether the true sum does not fit: on unsigned types
  this is what the compiler's overflow builtin returns.
\<close>

definition AddWithOverflowCheck :: "'a::len word \<Rightarrow> 'a word \<Rightarrow> 'a word \<times> bool" where
  "AddWithOverflowCheck a b = (a + b, 2 ^ LENGTH('a) \<le> unat a + unat b)"

text \<open>The branch for Windows, on unsigned types: it compares the result with an operand.\<close>

definition AddWithOverflowCheck_win :: "'a::len word \<Rightarrow> 'a word \<Rightarrow> 'a word \<times> bool" where
  "AddWithOverflowCheck_win a b = (let result = a + b in (result, result < a))"

definition AddIgnoringOverflow :: "'a::len word \<Rightarrow> 'a word \<Rightarrow> 'a word" where
  "AddIgnoringOverflow a b = fst (AddWithOverflowCheck a b)"

lemma AddWithOverflowCheck_le [geometry]:
  "snd (AddWithOverflowCheck a b) \<longleftrightarrow> \<not> a \<le> a + b"
  by (metis AddWithOverflowCheck_def linorder_not_less no_olen_add_nat snd_conv)

lemma AddWithOverflowCheck_fst [simp]: "fst (AddWithOverflowCheck a b) = a + b"
  by (simp add: AddWithOverflowCheck_def)

lemma AddWithOverflowCheck_platforms:
  "AddWithOverflowCheck_win a b = AddWithOverflowCheck a b"
  by (simp add: AddWithOverflowCheck_win_def prod_eq_iff geometry linorder_not_le Let_def)

section \<open>Order facts about words\<close>

lemma word_minus_one_less [geometry]: "(0::'a::len word) < x \<Longrightarrow> x - 1 < x"
  by uint_arith

lemma word_less_imp_le_minus_one [geometry]: "(x::'a::len word) < y \<Longrightarrow> x \<le> y - 1"
  by uint_arith

lemma word_le_minus_one_imp_less: "(x::'a::len word) \<le> y - 1 \<Longrightarrow> 0 < y \<Longrightarrow> x < y"
  by uint_arith

lemma word_less_imp_plus_one_le [geometry]: "(x::'a::len word) < y \<Longrightarrow> x + 1 \<le> y"
  by uint_arith

lemma word_less_plus_one [geometry]: "(x::'a::len word) < y \<Longrightarrow> x < x + 1"
  by uint_arith

lemma word_plus_one_le_imp_less: "(x::'a::len word) < z \<Longrightarrow> x + 1 \<le> y \<Longrightarrow> x < y"
  by uint_arith

lemma unat_u8_less [simp]: "unat (b::u8) < 256"
  using unsigned_less [of b] by simp

lemma unat_u64_less [simp]: "unat (w::u64) < 18446744073709551616"
  using unsigned_less [of w] by simp

lemma ucast_u32_of_nat: "n < 2 ^ 32 \<Longrightarrow> (ucast (of_nat n :: u32) :: u64) = of_nat n"
  by (simp add: word_eq_iff_unsigned unsigned_ucast_eq unsigned_of_nat take_bit_nat_eq_self)

lemma image_exchange: "p \<in> S \<Longrightarrow> f q = f p \<Longrightarrow> f ` insert q (S - {p}) = f ` S"
  by auto

lemma unat_diff_le: "(a::'a::len word) \<le> b \<Longrightarrow> unat (b - a) = unat b - unat a"
  by (simp add: unat_sub)

end
