(* ===== verification/Ordered_Map.thy ===== *)
theory Ordered_Map
  imports BP_Prelude
begin

text \<open>
  The part of \<open>std::map\<close> the program uses, as an association list in strictly ascending key
  order. An iterator is the index of the element it points at, \<open>end()\<close> is the length of the list,
  \<open>begin()\<close> is 0, and \<open>--it\<close> is the index minus one. As in C++, \<open>insert\<close> leaves the map alone when
  the key is present and \<open>erase\<close> removes the element at an iterator.
\<close>

type_synonym ('k, 'v) omap = "('k \<times> 'v) list"

definition om_sorted :: "('k::linorder, 'v) omap \<Rightarrow> bool" where
  "om_sorted m = sorted_wrt (<) (map fst m)"

definition om_lower_bound :: "('k::linorder, 'v) omap \<Rightarrow> 'k \<Rightarrow> nat" where
  "om_lower_bound m k = length (takeWhile (\<lambda>p. fst p < k) m)"

definition om_upper_bound :: "('k::linorder, 'v) omap \<Rightarrow> 'k \<Rightarrow> nat" where
  "om_upper_bound m k = length (takeWhile (\<lambda>p. fst p \<le> k) m)"

definition om_find :: "('k::linorder, 'v) omap \<Rightarrow> 'k \<Rightarrow> nat" where
  "om_find m k = (let i = om_lower_bound m k in
     if i < length m \<and> fst (m ! i) = k then i else length m)"

fun om_insert :: "'k::linorder \<Rightarrow> 'v \<Rightarrow> ('k, 'v) omap \<Rightarrow> ('k, 'v) omap" where
  "om_insert k v [] = [(k, v)]"
| "om_insert k v ((k', v') # m) =
     (if k < k' then (k, v) # (k', v') # m
      else if k = k' then (k', v') # m
      else (k', v') # om_insert k v m)"

definition om_erase :: "('k, 'v) omap \<Rightarrow> nat \<Rightarrow> ('k, 'v) omap" where
  "om_erase m i = take i m @ drop (Suc i) m"

text \<open>\<open>operator[]\<close> followed by an assignment: insert or overwrite.\<close>

fun om_assign :: "'k::linorder \<Rightarrow> 'v \<Rightarrow> ('k, 'v) omap \<Rightarrow> ('k, 'v) omap" where
  "om_assign k v [] = [(k, v)]"
| "om_assign k v ((k', v') # m) =
     (if k < k' then (k, v) # (k', v') # m
      else if k = k' then (k, v) # m
      else (k', v') # om_assign k v m)"

section \<open>Sortedness\<close>

lemma om_sorted_Nil [simp]: "om_sorted []"
  by (simp add: om_sorted_def)

lemma om_sorted_Cons [simp]:
  "om_sorted (p # m) \<longleftrightarrow> (\<forall>q\<in>set m. fst p < fst q) \<and> om_sorted m"
  by (simp add: om_sorted_def)

lemma om_sorted_append:
  "om_sorted (m @ m') \<longleftrightarrow> om_sorted m \<and> om_sorted m' \<and> (\<forall>p\<in>set m. \<forall>q\<in>set m'. fst p < fst q)"
  by (induction m) auto

lemma om_sorted_inj: "om_sorted m \<Longrightarrow> p \<in> set m \<Longrightarrow> q \<in> set m \<Longrightarrow> fst p = fst q \<Longrightarrow> p = q"
  by (induction m) auto

lemma om_sorted_distinct: "om_sorted m \<Longrightarrow> distinct (map fst m)"
  by (induction m) auto

lemma om_sorted_nth_mono:
  assumes "om_sorted m" "i < j" "j < length m"
  shows "fst (m ! i) < fst (m ! j)"
  using assms sorted_wrt_nth_less [of "(<)" "map fst m" i j]
  by (simp add: om_sorted_def)

lemma om_sorted_map_of: "om_sorted m \<Longrightarrow> map_of m k = Some v \<longleftrightarrow> (k, v) \<in> set m"
  by (simp add: om_sorted_distinct)

section \<open>Bounds\<close>

lemma om_lower_bound_le [simp]: "om_lower_bound m k \<le> length m"
  by (simp add: om_lower_bound_def length_takeWhile_le)

lemma om_upper_bound_le [simp]: "om_upper_bound m k \<le> length m"
  by (simp add: om_upper_bound_def length_takeWhile_le)

lemma om_lower_bound_before: "i < om_lower_bound m k \<Longrightarrow> fst (m ! i) < k"
  unfolding om_lower_bound_def
  by (metis (mono_tags, lifting) nth_mem set_takeWhileD takeWhile_nth)

lemma om_upper_bound_before: "i < om_upper_bound m k \<Longrightarrow> fst (m ! i) \<le> k"
  unfolding om_upper_bound_def
  by (metis (mono_tags, lifting) nth_mem set_takeWhileD takeWhile_nth)

lemma om_lower_bound_at: "om_lower_bound m k < length m \<Longrightarrow> k \<le> fst (m ! om_lower_bound m k)"
  unfolding om_lower_bound_def
  using nth_length_takeWhile by (metis linorder_not_less)

lemma om_upper_bound_at: "om_upper_bound m k < length m \<Longrightarrow> k < fst (m ! om_upper_bound m k)"
  unfolding om_upper_bound_def
  using nth_length_takeWhile by (metis linorder_not_less)

lemma om_lower_bound_after:
  assumes "om_sorted m" "om_lower_bound m k \<le> i" "i < length m"
  shows "k \<le> fst (m ! i)"
  using assms om_sorted_nth_mono [of m "om_lower_bound m k" i]
    om_lower_bound_at [of m k]
  by (cases "om_lower_bound m k = i") fastforce+

lemma om_upper_bound_after:
  assumes "om_sorted m" "om_upper_bound m k \<le> i" "i < length m"
  shows "k < fst (m ! i)"
  using assms om_sorted_nth_mono [of m "om_upper_bound m k" i]
    om_upper_bound_at [of m k]
  by (cases "om_upper_bound m k = i") fastforce+

text \<open>
  The two cases of a \<open>lower_bound\<close> call: the end, with every key below, or the element with
  the least key that is not below.
\<close>

lemma om_lower_bound_end:
  "om_lower_bound m k = length m \<Longrightarrow> p \<in> set m \<Longrightarrow> fst p < k"
  by (metis in_set_conv_nth om_lower_bound_before)

lemma om_lower_bound_least:
  assumes "om_sorted m" "om_lower_bound m k < length m" "p \<in> set m"
  shows "fst p < k \<or> fst (m ! om_lower_bound m k) \<le> fst p"
proof -
  obtain i where i: "i < length m" "p = m ! i"
    using assms(3) by (metis in_set_conv_nth)
  show ?thesis
    using i assms(1,2) om_lower_bound_before [of i m k]
      om_sorted_nth_mono [of m "om_lower_bound m k" i]
    by (cases i "om_lower_bound m k" rule: linorder_cases) auto
qed

lemma om_lower_bound_neq:
  assumes s: "om_sorted m" and le: "a \<le> b"
  shows "om_lower_bound m a \<noteq> om_lower_bound m b \<longleftrightarrow>
    om_lower_bound m a < length m \<and> fst (m ! om_lower_bound m a) < b" (is "?l \<longleftrightarrow> ?r")
proof
  assume neq: ?l
  have mono: "om_lower_bound m a \<le> om_lower_bound m b"
  proof (rule ccontr)
    assume "\<not> ?thesis"
    then have less: "om_lower_bound m b < om_lower_bound m a" by simp
    then have "om_lower_bound m b < length m"
      using om_lower_bound_le [of m a] by linarith
    with less show False
      using om_lower_bound_before [OF less] om_lower_bound_at [of m b] le by fastforce
  qed
  with neq have less: "om_lower_bound m a < om_lower_bound m b" by simp
  then show ?r
    using om_lower_bound_before [OF less] om_lower_bound_le [of m b] by (auto simp del: om_lower_bound_le)
next
  assume r: ?r
  then show ?l
    using om_lower_bound_at [of m b] by fastforce
qed

text \<open>Membership seen from an \<open>upper_bound\<close> that is not \<open>begin()\<close>: the greatest key not above.\<close>

lemma om_upper_bound_pred:
  assumes "om_sorted m" "0 < om_upper_bound m k" "p \<in> set m" "fst p \<le> k"
  shows "fst p \<le> fst (m ! (om_upper_bound m k - 1))"
proof -
  obtain i where i: "i < length m" "p = m ! i"
    using assms(3) by (metis in_set_conv_nth)
  have "i < om_upper_bound m k"
    using om_upper_bound_after [OF assms(1), of k i] i assms(4) by fastforce
  moreover have "om_upper_bound m k - 1 < length m"
    using assms(2) om_upper_bound_le [of m k] by linarith
  ultimately show ?thesis
    using i om_sorted_nth_mono [OF assms(1), of i "om_upper_bound m k - 1"]
    by (cases "i = om_upper_bound m k - 1") (auto intro: less_imp_le)
qed

lemma om_upper_bound_begin:
  assumes "om_sorted m" "om_upper_bound m k = 0" "p \<in> set m"
  shows "k < fst p"
  using assms om_upper_bound_after [of m k] by (metis in_set_conv_nth zero_le)

lemma om_upper_bound_pred_mem:
  assumes "0 < om_upper_bound m k"
  shows "m ! (om_upper_bound m k - 1) \<in> set m" "fst (m ! (om_upper_bound m k - 1)) \<le> k"
  using assms om_upper_bound_le [of m k] om_upper_bound_before [of "om_upper_bound m k - 1" m k]
  by (auto simp del: om_upper_bound_le intro!: nth_mem)

lemma om_upper_bound_of_lower:
  assumes "om_sorted m"
  shows "om_upper_bound m k = (if om_lower_bound m k < length m \<and> fst (m ! om_lower_bound m k) = k
    then Suc (om_lower_bound m k) else om_lower_bound m k)"
  using assms
proof (induction m)
  case (Cons p m)
  have "om_lower_bound m k = 0" "om_upper_bound m k = 0" if "k \<le> fst p"
    using Cons.prems that
    by (cases m; force simp: om_lower_bound_def om_upper_bound_def)+
  then show ?case
    using Cons by (auto simp: om_lower_bound_def om_upper_bound_def)
qed (simp add: om_lower_bound_def om_upper_bound_def)

section \<open>Updates\<close>

lemma set_om_insert:
  "k \<notin> fst ` set m \<Longrightarrow> set (om_insert k v m) = insert (k, v) (set m)"
  by (induction k v m rule: om_insert.induct) auto

lemma om_insert_present: "om_sorted m \<Longrightarrow> k \<in> fst ` set m \<Longrightarrow> om_insert k v m = m"
  by (induction k v m rule: om_insert.induct) fastforce+

lemma om_insert_subset: "set (om_insert k v m) \<subseteq> insert (k, v) (set m)"
  by (induction k v m rule: om_insert.induct) auto

lemma om_sorted_insert: "om_sorted m \<Longrightarrow> om_sorted (om_insert k v m)"
  by (induction k v m rule: om_insert.induct) (auto dest!: subsetD [OF om_insert_subset] split: if_splits)

lemma om_erase_split:
  assumes "i < length m"
  obtains xs ys where "m = xs @ m ! i # ys" "om_erase m i = xs @ ys"
  using assms id_take_nth_drop [of i m] by (auto simp: om_erase_def)

lemma set_om_erase:
  assumes "om_sorted m" "i < length m"
  shows "set (om_erase m i) = set m - {m ! i}"
proof -
  obtain xs ys where m: "m = xs @ m ! i # ys" and e: "om_erase m i = xs @ ys"
    using om_erase_split [OF assms(2)] .
  have "om_sorted (xs @ m ! i # ys)"
    using assms(1) m by simp
  then have "m ! i \<notin> set xs \<union> set ys"
    by (auto simp: om_sorted_append)
  moreover have "set m = set xs \<union> {m ! i} \<union> set ys"
    using m by (metis Un_insert_left Un_insert_right list.simps(15) set_append sup_bot_left sup_bot_right)
  ultimately show ?thesis
    by (simp add: e)
qed

lemma om_sorted_erase:
  assumes "om_sorted m" "i < length m"
  shows "om_sorted (om_erase m i)"
proof -
  obtain xs ys where m: "m = xs @ m ! i # ys" and e: "om_erase m i = xs @ ys"
    using om_erase_split [OF assms(2)] .
  have "om_sorted (xs @ m ! i # ys)"
    using assms(1) m by simp
  then show ?thesis
    by (simp add: e om_sorted_append)
qed

lemma length_om_erase: "i < length m \<Longrightarrow> length (om_erase m i) = length m - 1"
  by (simp add: om_erase_def)

lemma set_om_assign:
  "om_sorted m \<Longrightarrow> set (om_assign k v m) = insert (k, v) {p \<in> set m. fst p \<noteq> k}"
  by (induction k v m rule: om_assign.induct) auto

lemma om_sorted_assign: "om_sorted m \<Longrightarrow> om_sorted (om_assign k v m)"
  by (induction k v m rule: om_assign.induct) (auto simp: set_om_assign)

lemma om_assign_map_of: "om_sorted m \<Longrightarrow> map_of (om_assign k v m) = (map_of m)(k \<mapsto> v)"
  by (induction m) (auto simp: fun_eq_iff map_of_eq_None_iff dest: order_less_imp_le)

lemma om_assign_all: "\<forall>p\<in>set m. P p \<Longrightarrow> P (k, v) \<Longrightarrow> \<forall>p\<in>set (om_assign k v m). P p"
  by (induction k v m rule: om_assign.induct) auto

lemma om_assign_last: "\<forall>q\<in>set m. fst q < k \<Longrightarrow> om_assign k v m = m @ [(k, v)]"
  by (induction m) auto

lemma map_of_om_assign: "om_sorted m \<Longrightarrow> map_of (om_assign k v m) = (map_of m)(k \<mapsto> v)"
  by (induction k v m rule: om_assign.induct) (auto simp: fun_eq_iff map_of_eq_None_iff)

lemma map_of_om_insert_new:
  "k \<notin> fst ` set m \<Longrightarrow> map_of (om_insert k v m) = (map_of m)(k \<mapsto> v)"
  by (induction k v m rule: om_insert.induct) (auto simp: fun_eq_iff)

lemma om_find_iff:
  assumes "om_sorted m"
  shows "om_find m k < length m \<longleftrightarrow> k \<in> fst ` set m"
proof
  assume "om_find m k < length m"
  then show "k \<in> fst ` set m"
    by (auto simp: om_find_def Let_def split: if_splits intro!: rev_image_eqI [OF nth_mem])
next
  assume "k \<in> fst ` set m"
  then obtain p where p: "p \<in> set m" "fst p = k" by auto
  then have lt: "om_lower_bound m k < length m"
    using om_lower_bound_end [of m k p]
    by (cases "om_lower_bound m k = length m") (auto intro!: le_neq_implies_less)
  then have "fst (m ! om_lower_bound m k) = k"
    using p om_lower_bound_least [OF assms lt p(1)] om_lower_bound_at [OF lt] by auto
  with lt show "om_find m k < length m"
    by (simp add: om_find_def)
qed

section \<open>Finding in a map\<close>

definition om_lookup :: "('k::linorder, 'v) omap \<Rightarrow> 'k \<Rightarrow> 'v option" where
  "om_lookup m k = (let i = om_find m k in if i = length m then None else Some (snd (m ! i)))"

lemma om_find_cases: "om_find m k = length m \<or> om_find m k < length m \<and> fst (m ! om_find m k) = k"
  by (simp add: om_find_def Let_def)

lemma om_lookup_eq:
  assumes "om_sorted m"
  shows "om_lookup m k = map_of m k"
proof (cases "om_find m k = length m")
  case True
  then have "k \<notin> fst ` set m"
    using om_find_iff [OF assms, of k] by simp
  then have "map_of m k = None"
    by (simp add: map_of_eq_None_iff)
  then show ?thesis
    using True by (simp add: om_lookup_def)
next
  case False
  then have i: "om_find m k < length m" "fst (m ! om_find m k) = k"
    using om_find_cases [of m k] by auto
  then have "(k, snd (m ! om_find m k)) \<in> set m"
    by (metis nth_mem prod.collapse)
  then have "map_of m k = Some (snd (m ! om_find m k))"
    by (simp add: om_sorted_map_of [OF assms])
  then show ?thesis
    using False by (simp add: om_lookup_def)
qed

end
