(* ===== verification/Disjoint_Ranges.thy ===== *)
theory Disjoint_Ranges
  imports Ordered_Map
begin

text \<open>
  Maps of disjoint closed ranges keyed by high address, for any value type that knows the base of
  its range. \<open>RangeMap\<close>, the children of a \<open>ContainedRangeMap\<close> node and the serialized forms of both
  are such maps; the facts about finding the range that covers an address are proved here once.
\<close>

definition disjoint_by :: "('v \<Rightarrow> 'a::linorder) \<Rightarrow> ('a, 'v) omap \<Rightarrow> bool" where
  "disjoint_by bs m \<longleftrightarrow> om_sorted m \<and> (\<forall>p\<in>set m. bs (snd p) \<le> fst p) \<and>
     (\<forall>p\<in>set m. \<forall>q\<in>set m. fst p < fst q \<longrightarrow> fst p < bs (snd q))"

definition covered_by :: "('v \<Rightarrow> 'a::linorder) \<Rightarrow> 'a \<times> 'v \<Rightarrow> 'a \<Rightarrow> bool" where
  "covered_by bs p a \<longleftrightarrow> bs (snd p) \<le> a \<and> a \<le> fst p"

text \<open>The search every \<open>RetrieveRange\<close> starts with.\<close>

definition find_covering :: "('v \<Rightarrow> 'a::linorder) \<Rightarrow> ('a, 'v) omap \<Rightarrow> 'a \<Rightarrow> ('a \<times> 'v) option" where
  "find_covering bs m a = (let i = om_lower_bound m a in
     if i = length m then None else if a < bs (snd (m ! i)) then None else Some (m ! i))"

lemma disjoint_by_Nil [simp]: "disjoint_by bs []"
  by (simp add: disjoint_by_def)

lemma disjoint_byD:
  assumes "disjoint_by bs m"
  shows "om_sorted m"
    and "p \<in> set m \<Longrightarrow> bs (snd p) \<le> fst p"
    and "p \<in> set m \<Longrightarrow> q \<in> set m \<Longrightarrow> fst p < fst q \<Longrightarrow> fst p < bs (snd q)"
  using assms by (auto simp: disjoint_by_def)

lemma disjoint_by_others:
  assumes ok: "disjoint_by bs m" and p: "p \<in> set m" and q: "q \<in> set m - {p}"
  shows "fst q < bs (snd p) \<or> fst p < bs (snd q)"
proof -
  have "fst q \<noteq> fst p"
    using om_sorted_inj [OF disjoint_byD(1) [OF ok]] p q by blast
  then show ?thesis
    using disjoint_byD(3) [OF ok] p q by (metis DiffD1 linorder_neqE)
qed

lemma covered_by_unique:
  assumes "disjoint_by bs m" "p \<in> set m" "q \<in> set m" "covered_by bs p a" "covered_by bs q a"
  shows "p = q"
  using disjoint_by_others [OF assms(1,2), of q] assms(3-5) by (force simp: covered_by_def)

lemma om_lower_bound_covered:
  assumes ok: "disjoint_by bs m" and p: "p \<in> set m" "covered_by bs p a"
  shows "om_lower_bound m a < length m" and "m ! om_lower_bound m a = p"
proof -
  let ?i = "om_lower_bound m a"
  show i: "?i < length m"
    using om_lower_bound_end [of m a p] p le_neq_implies_less [OF om_lower_bound_le [of m a]]
    by (force simp: covered_by_def)
  have le: "fst (m ! ?i) \<le> fst p"
    using om_lower_bound_least [OF disjoint_byD(1) [OF ok] i p(1)] p(2) by (auto simp: covered_by_def)
  show "m ! ?i = p"
  proof (rule ccontr)
    assume "m ! ?i \<noteq> p"
    then have "fst p < bs (snd (m ! ?i)) \<or> fst (m ! ?i) < bs (snd p)"
      using disjoint_by_others [OF ok nth_mem [OF i], of p] p(1) by auto
    then show False
      using om_lower_bound_at [OF i] le p(2) disjoint_byD(2) [OF ok nth_mem [OF i]]
      by (auto simp: covered_by_def)
  qed
qed

lemma find_covering_iff:
  assumes "disjoint_by bs m"
  shows "find_covering bs m a = Some p \<longleftrightarrow> p \<in> set m \<and> covered_by bs p a"
proof
  assume found: "find_covering bs m a = Some p"
  then have ne: "om_lower_bound m a \<noteq> length m"
    and p: "\<not> a < bs (snd p)" "p = m ! om_lower_bound m a"
    by (auto simp: find_covering_def Let_def split: if_splits)
  have i: "om_lower_bound m a < length m"
    using ne le_neq_implies_less [OF om_lower_bound_le] by blast
  then show "p \<in> set m \<and> covered_by bs p a"
    using p om_lower_bound_at [OF i] by (auto simp: covered_by_def)
next
  assume "p \<in> set m \<and> covered_by bs p a"
  then show "find_covering bs m a = Some p"
    using om_lower_bound_covered [OF assms, of p a]
    by (auto simp: find_covering_def Let_def covered_by_def)
qed

lemma find_covering_None:
  assumes "disjoint_by bs m"
  shows "find_covering bs m a = None \<longleftrightarrow> (\<forall>p\<in>set m. \<not> covered_by bs p a)"
  using find_covering_iff [OF assms, of a] by (cases "find_covering bs m a") auto

lemma disjoint_by_insert:
  assumes ok: "disjoint_by bs m" and le: "bs r \<le> k"
    and free: "\<And>p. p \<in> set m \<Longrightarrow> fst p < bs r \<or> k < bs (snd p)"
  shows "disjoint_by bs (om_insert k r m)" and "set (om_insert k r m) = insert (k, r) (set m)"
proof -
  have new: "k \<notin> fst ` set m"
    using free le disjoint_byD(2) [OF ok] by fastforce
  then show eq: "set (om_insert k r m) = insert (k, r) (set m)"
    by (rule set_om_insert)
  have above: "fst p < k \<Longrightarrow> fst p < bs r" and below: "k < fst p \<Longrightarrow> k < bs (snd p)"
    if "p \<in> set m" for p
    using free [OF that] disjoint_byD(2) [OF ok that] le by auto
  then show "disjoint_by bs (om_insert k r m)"
    using ok le om_sorted_insert [OF disjoint_byD(1) [OF ok], of k r]
    unfolding disjoint_by_def eq by auto
qed

lemma disjoint_by_subset:
  assumes "disjoint_by bs m" "om_sorted m'" "set m' \<subseteq> set m"
  shows "disjoint_by bs m'"
  using assms by (auto simp: disjoint_by_def)

text \<open>
  The two searches for the ends of a range: when they meet below the range at the second one, or
  that range starts above, nothing overlaps.
\<close>

lemma bounds_free_by:
  assumes ok: "disjoint_by bs m" and le: "base \<le> high"
    and eq: "om_lower_bound m base = om_lower_bound m high"
    and above: "om_lower_bound m high = length m \<or> \<not> bs (snd (m ! om_lower_bound m high)) \<le> high"
    and p: "p \<in> set m"
  shows "fst p < base \<or> high < bs (snd p)"
proof (cases "om_lower_bound m high = length m")
  case True
  then show ?thesis
    using om_lower_bound_end [OF _ p] eq by simp
next
  case False
  let ?q = "m ! om_lower_bound m high"
  have i: "om_lower_bound m high < length m"
    using False le_neq_implies_less [OF om_lower_bound_le] by blast
  note q = nth_mem [OF i]
  show ?thesis
  proof (cases "p = ?q")
    case True
    then show ?thesis using above False by auto
  next
    case other: False
    then have "fst p < base \<or> fst ?q \<le> fst p"
      using om_lower_bound_least [OF disjoint_byD(1) [OF ok] _ p, of base] i eq by simp
    moreover have "high < bs (snd p)" if "fst ?q \<le> fst p"
    proof -
      have "fst ?q < bs (snd p)"
        using disjoint_by_others [OF ok q, of p] other p that
          disjoint_byD(2) [OF ok q] by auto
      then show ?thesis
        using om_lower_bound_at [OF i] by simp
    qed
    ultimately show ?thesis by blast
  qed
qed

end
