(* ===== verification/Range_Map.thy ===== *)
theory Range_Map
  imports Disjoint_Ranges
begin

text \<open>
  processor/range_map.h and processor/range_map-inl.h: a map from disjoint closed address ranges to
  entries, kept in a \<open>std::map\<close> keyed by the high address of each range. The address type is any
  unsigned word, as the template parameter is. \<open>StoreRangeInternal\<close> calls itself after it has
  changed its arguments or the map, so it is a partial function; that it returns on every
  well-formed map is proved below, for each of the three merge strategies.
\<close>

section \<open>State\<close>

datatype MergeRangeStrategy = kExclusiveRanges | kTruncateLower | kTruncateUpper

record ('a, 'e) Range =
  r_base :: 'a
  r_delta :: 'a
  r_entry :: 'e

type_synonym ('w, 'e) range_omap = "('w word, ('w word, 'e) Range) omap"

record ('a, 'e) RangeMap =
  merge_strategy :: MergeRangeStrategy
  rm_map :: "('a, ('a, 'e) Range) omap"

definition RangeMap_new :: "('w::len word, 'e) RangeMap" where
  "RangeMap_new = \<lparr>merge_strategy = kExclusiveRanges, rm_map = []\<rparr>"

definition SetMergeStrategy :: "MergeRangeStrategy \<Rightarrow> ('w::len word, 'e) RangeMap \<Rightarrow> ('w word, 'e) RangeMap" where
  "SetMergeStrategy strat m = m\<lparr>merge_strategy := strat\<rparr>"

definition GetMergeStrategy :: "('w::len word, 'e) RangeMap \<Rightarrow> MergeRangeStrategy" where
  "GetMergeStrategy m = merge_strategy m"

section \<open>Operations\<close>

text \<open>
  A retrieval returns the entry, its base, its delta and its size, the outputs written from the
  element an iterator points at, or nothing where the code returns false.
\<close>

type_synonym ('w, 'e) retrieved = "'e \<times> 'w word \<times> 'w word \<times> 'w word"

definition range_result :: "('w::len word \<times> ('w word, 'e) Range) \<Rightarrow> ('w, 'e) retrieved" where
  "range_result p = (r_entry (snd p), r_base (snd p), r_delta (snd p), fst p - r_base (snd p) + 1)"

definition RetrieveRange :: "('w::len, 'e) range_omap \<Rightarrow> 'w word \<Rightarrow> ('w, 'e) retrieved option" where
  "RetrieveRange m address =
     (let iterator = om_lower_bound m address in
      if iterator = length m then None
      else if address < r_base (snd (m ! iterator)) then None
      else Some (range_result (m ! iterator)))"

definition RetrieveNearestRange :: "('w::len, 'e) range_omap \<Rightarrow> 'w word \<Rightarrow> ('w, 'e) retrieved option" where
  "RetrieveNearestRange m address =
     (case RetrieveRange m address of
        Some res \<Rightarrow> Some res
      | None \<Rightarrow>
          (let iterator = om_upper_bound m address in
           if iterator = 0 then None
           else Some (range_result (m ! (iterator - 1)))))"

definition GetCount :: "('w::len, 'e) range_omap \<Rightarrow> nat" where
  "GetCount m = length m"

text \<open>The index is an \<open>int64_t\<close>: a negative one passes the check and reads the first range.\<close>

definition RetrieveRangeAtIndex :: "('w::len, 'e) range_omap \<Rightarrow> int \<Rightarrow> ('w, 'e) retrieved option" where
  "RetrieveRangeAtIndex m index =
     (if int (GetCount m) \<le> index then None
      else Some (range_result (m ! nat index)))"

definition RangeMap_Clear :: "('w::len word, 'e) RangeMap \<Rightarrow> ('w word, 'e) RangeMap" where
  "RangeMap_Clear m = m\<lparr>rm_map := []\<rparr>"

text \<open>
  The two blocks of \<open>StoreRangeInternal\<close> that change an existing range, at an iterator. Both read the
  range back by its high address into uninitialised locals and ignore whether that succeeded, so
  the result is \<open>None\<close> if it would not.
\<close>

definition truncate_existing ::
  "('w::len, 'e) range_omap \<Rightarrow> nat \<Rightarrow> 'w word \<Rightarrow> ('w, 'e) range_omap option" where
  "truncate_existing m iterator base =
     (let other_high = fst (m ! iterator) in
      case RetrieveRange m other_high of
        None \<Rightarrow> None
      | Some (other_entry, other_base, other_delta, other_size) \<Rightarrow>
          Some (om_insert (base - 1)
            \<lparr>r_base = other_base, r_delta = other_delta, r_entry = other_entry\<rparr>
            (om_erase m iterator)))"

definition shrink_existing ::
  "('w::len, 'e) range_omap \<Rightarrow> nat \<Rightarrow> 'w word \<Rightarrow> ('w, 'e) range_omap option" where
  "shrink_existing m iterator high =
     (let other_high = fst (m ! iterator);
          additional_delta = high - r_base (snd (m ! iterator)) + 1
      in case RetrieveRange m other_high of
        None \<Rightarrow> None
      | Some (other_entry, other_base, other_delta, other_size) \<Rightarrow>
          Some (om_insert other_high
            \<lparr>r_base = other_base + additional_delta,
             r_delta = other_delta + additional_delta, r_entry = other_entry\<rparr>
            (om_erase m iterator)))"

text \<open>
  The result is the map after the call and the value returned; \<open>None\<close> is a call that does not
  return.
\<close>

partial_function (option) StoreRangeInternal ::
  "MergeRangeStrategy \<Rightarrow> ('w::len, 'e) range_omap \<Rightarrow> 'w word \<Rightarrow> 'w word \<Rightarrow> 'w word \<Rightarrow> 'e
   \<Rightarrow> (('w, 'e) range_omap \<times> bool) option" where
  "StoreRangeInternal strat m base delta sz entry =
    (if \<not> 0 < sz \<or> snd (AddWithOverflowCheck base (sz - 1)) then Some (m, False)
     else
      (let high = fst (AddWithOverflowCheck base (sz - 1));
           iterator_base = om_lower_bound m base;
           iterator_high = om_lower_bound m high
       in
       if iterator_base \<noteq> iterator_high then
         (if strat = kTruncateLower then
            (let other_base = r_base (snd (m ! iterator_base)) in
             if base < other_base then
               StoreRangeInternal strat m base delta (other_base - base) entry
             else if other_base < base then
               Option.bind (truncate_existing m iterator_base base)
                 (\<lambda>m'. StoreRangeInternal strat m' base delta sz entry)
             else Some (m, False))
          else if strat = kTruncateUpper then
            (let additional_delta = fst (m ! iterator_base) - base + 1 in
             StoreRangeInternal strat m (base + additional_delta) (delta + additional_delta)
               (sz - additional_delta) entry)
          else Some (m, False))
       else if iterator_high \<noteq> length m \<and> r_base (snd (m ! iterator_high)) \<le> high then
         (if strat = kTruncateLower then
            (let other_base = r_base (snd (m ! iterator_high)) in
             if base < other_base then
               StoreRangeInternal strat m base delta (other_base - base) entry
             else if other_base < base then
               Option.bind (truncate_existing m iterator_high base)
                 (\<lambda>m'. StoreRangeInternal strat m' base delta sz entry)
             else Some (m, False))
          else if strat = kTruncateUpper \<and> high < fst (m ! iterator_high) then
            Option.bind (shrink_existing m iterator_high high)
              (\<lambda>m'. StoreRangeInternal strat m' base delta sz entry)
          else Some (m, False))
       else Some (om_insert high \<lparr>r_base = base, r_delta = delta, r_entry = entry\<rparr> m, True)))"

declare StoreRangeInternal.simps [code]

definition StoreRange ::
  "('w::len word, 'e) RangeMap \<Rightarrow> 'w word \<Rightarrow> 'w word \<Rightarrow> 'e \<Rightarrow> (('w word, 'e) RangeMap \<times> bool) option" where
  "StoreRange m base sz entry =
     map_option (\<lambda>(m', ok). (m\<lparr>rm_map := m'\<rparr>, ok))
       (StoreRangeInternal (merge_strategy m) (rm_map m) base 0 sz entry)"

section \<open>Well-formed maps\<close>

text \<open>
  Keys ascend, no range is inverted, and a range lies wholly below every range with a higher key.
\<close>

abbreviation ranges_ok :: "('w::len, 'e) range_omap \<Rightarrow> bool" where
  "ranges_ok \<equiv> disjoint_by r_base"

abbreviation covers :: "'w::len word \<times> ('w word, 'e) Range \<Rightarrow> 'w word \<Rightarrow> bool" where
  "covers \<equiv> covered_by r_base"

lemmas covers_def = covered_by_def [of r_base]
  and ranges_okD = disjoint_byD [of r_base]
  and ranges_ok_others = disjoint_by_others [of r_base]
  and covers_unique = covered_by_unique [of r_base]
  and ranges_ok_insert = disjoint_by_insert [of r_base]
  and bounds_free = bounds_free_by [of r_base]

lemma RetrieveRange_eq: "RetrieveRange m a = map_option range_result (find_covering r_base m a)"
  by (simp add: RetrieveRange_def find_covering_def Let_def)

lemma RetrieveRange_mem: "RetrieveRange m a = Some res \<Longrightarrow> \<exists>p\<in>set m. res = range_result p"
  by (auto simp: RetrieveRange_def Let_def le_neq_implies_less split: if_splits
    intro!: bexI [of _ "m ! om_lower_bound m a"])

lemma RetrieveNearestRange_mem: "RetrieveNearestRange m a = Some res \<Longrightarrow> \<exists>p\<in>set m. res = range_result p"
  using om_upper_bound_pred_mem [of m a]
  by (cases "RetrieveRange m a") (auto simp: RetrieveNearestRange_def Let_def split: if_splits dest: RetrieveRange_mem)

lemma RetrieveRange_iff:
  assumes "ranges_ok m"
  shows "RetrieveRange m a = Some res \<longleftrightarrow> (\<exists>p\<in>set m. covers p a \<and> res = range_result p)"
  using find_covering_iff [of r_base m a] assms
  unfolding RetrieveRange_eq map_option_eq_Some by blast

lemma RetrieveRange_covers_Some:
  "ranges_ok m \<Longrightarrow> p \<in> set m \<Longrightarrow> covers p a \<Longrightarrow> RetrieveRange m a = Some (range_result p)"
  by (auto simp: RetrieveRange_iff)

lemma RetrieveRange_None_iff:
  "ranges_ok m \<Longrightarrow> RetrieveRange m a = None \<longleftrightarrow> (\<forall>p\<in>set m. \<not> covers p a)"
  by (simp add: RetrieveRange_eq find_covering_None)

lemma covers_high [simp]: "ranges_ok m \<Longrightarrow> p \<in> set m \<Longrightarrow> covers p (fst p)"
  by (simp add: covers_def ranges_okD)

section \<open>Changing one range\<close>

lemma ranges_ok_erase:
  assumes ok: "ranges_ok m" and i: "i < length m"
  shows "ranges_ok (om_erase m i)" and "set (om_erase m i) = set m - {m ! i}"
proof -
  show eq: "set (om_erase m i) = set m - {m ! i}"
    by (rule set_om_erase [OF ranges_okD(1) [OF ok] i])
  show "ranges_ok (om_erase m i)"
    using disjoint_by_subset [OF ok om_sorted_erase [OF ranges_okD(1) [OF ok] i]] eq
    by auto
qed

definition truncated :: "('w::len, 'e) range_omap \<Rightarrow> nat \<Rightarrow> 'w word \<Rightarrow> ('w, 'e) range_omap" where
  "truncated m i base = om_insert (base - 1) (snd (m ! i)) (om_erase m i)"

definition shrunk :: "('w::len, 'e) range_omap \<Rightarrow> nat \<Rightarrow> 'w word \<Rightarrow> ('w, 'e) range_omap" where
  "shrunk m i high = (let (k, r) = m ! i; d = high - r_base r + 1 in
     om_insert k (r\<lparr>r_base := high + 1, r_delta := r_delta r + d\<rparr>) (om_erase m i))"

lemma Range_collapse [simp]:
  "\<lparr>r_base = r_base r, r_delta = r_delta r, r_entry = r_entry r\<rparr> = r"
  by (cases r) simp

lemma Range_shift_eq:
  "\<lparr>r_base = b, r_delta = d, r_entry = r_entry r\<rparr> = r\<lparr>r_base := b, r_delta := d\<rparr>"
  by (cases r) simp

lemma truncate_existing_eq:
  assumes "ranges_ok m" "i < length m"
  shows "truncate_existing m i base = Some (truncated m i base)"
  using RetrieveRange_covers_Some [OF assms(1) nth_mem [OF assms(2)] covers_high [OF assms(1) nth_mem [OF assms(2)]]]
  by (simp add: truncate_existing_def truncated_def range_result_def)

lemma shrink_existing_eq:
  assumes "ranges_ok m" "i < length m"
  shows "shrink_existing m i high = Some (shrunk m i high)"
  using RetrieveRange_covers_Some [OF assms(1) nth_mem [OF assms(2)] covers_high [OF assms(1) nth_mem [OF assms(2)]]]
  by (cases "m ! i") (simp add: shrink_existing_def shrunk_def range_result_def Let_def Range_shift_eq)

lemma truncated_ok:
  assumes ok: "ranges_ok m" and i: "i < length m"
    and lt: "r_base (snd (m ! i)) < base" and le: "base \<le> fst (m ! i)"
  shows "ranges_ok (truncated m i base)"
    and "set (truncated m i base) = insert (base - 1, snd (m ! i)) (set m - {m ! i})"
proof -
  note e = ranges_ok_erase [OF ok i]
  have b: "r_base (snd (m ! i)) \<le> base - 1" "base - 1 < base"
    using lt word_minus_one_less [OF order.strict_trans1 [OF word_zero_le lt]]
    by (auto intro: word_less_imp_le_minus_one)
  have "fst q < r_base (snd (m ! i)) \<or> base - 1 < r_base (snd q)" if "q \<in> set (om_erase m i)" for q
    using ranges_ok_others [OF ok nth_mem [OF i], of q] that b(2) le unfolding e(2) by auto
  note ins = ranges_ok_insert [OF e(1) b(1) this]
  show "ranges_ok (truncated m i base)"
    "set (truncated m i base) = insert (base - 1, snd (m ! i)) (set m - {m ! i})"
    using ins by (auto simp: truncated_def e(2))
qed

lemma shrunk_ok:
  assumes ok: "ranges_ok m" and i: "i < length m"
    and le: "r_base (snd (m ! i)) \<le> high" and lt: "high < fst (m ! i)"
  shows "ranges_ok (shrunk m i high)"
    and "set (shrunk m i high) = insert (fst (m ! i), (snd (m ! i))\<lparr>r_base := high + 1,
      r_delta := r_delta (snd (m ! i)) + (high - r_base (snd (m ! i)) + 1)\<rparr>) (set m - {m ! i})"
proof -
  note e = ranges_ok_erase [OF ok i]
  define r where "r = (snd (m ! i))\<lparr>r_base := high + 1,
    r_delta := r_delta (snd (m ! i)) + (high - r_base (snd (m ! i)) + 1)\<rparr>"
  have s: "shrunk m i high = om_insert (fst (m ! i)) r (om_erase m i)"
    by (simp add: shrunk_def r_def Let_def case_prod_beta)
  have b: "r_base r \<le> fst (m ! i)" "high < r_base r"
    using lt by (auto simp: r_def intro: word_less_imp_plus_one_le word_less_plus_one)
  have "fst q < r_base r \<or> fst (m ! i) < r_base (snd q)" if "q \<in> set (om_erase m i)" for q
    using ranges_ok_others [OF ok nth_mem [OF i], of q] that b(2) le unfolding e(2) by auto
  note ins = ranges_ok_insert [OF e(1) b(1) this]
  show "ranges_ok (shrunk m i high)"
    "set (shrunk m i high) = insert (fst (m ! i), r) (set m - {m ! i})"
    using ins by (auto simp: s e(2))
qed


section \<open>StoreRangeInternal, one call at a time\<close>

definition valid_range :: "'w::len word \<Rightarrow> 'w word \<Rightarrow> 'w word \<Rightarrow> bool" where
  "valid_range base sz high \<longleftrightarrow> 0 < sz \<and> high = base + (sz - 1) \<and> base \<le> high"

definition overlaps :: "'w::len word \<times> ('w word, 'e) Range \<Rightarrow> 'w word \<Rightarrow> 'w word \<Rightarrow> bool" where
  "overlaps p base high \<longleftrightarrow> base \<le> fst p \<and> r_base (snd p) \<le> high"

lemma valid_range_between:
  assumes "base \<le> (high::'w::len word)" "high - base + 1 \<noteq> 0"
  shows "valid_range base (high - base + 1) high"
  using assms by (simp add: valid_range_def word_gt_0)

lemma valid_range_sz: "valid_range base sz high \<Longrightarrow> sz = high - base + 1"
  by (simp add: valid_range_def)

lemma valid_range_unat:
  assumes "valid_range base sz high"
  shows "unat sz = unat high - unat base + 1" and "base \<le> high"
proof -
  have *: "0 < sz" "high = base + (sz - 1)" "base \<le> high"
    using assms unfolding valid_range_def by blast+
  then have "high - base = sz - 1" "sz \<noteq> 0" "0 < unat sz"
    by (auto simp: unat_gt_0)
  then show "unat sz = unat high - unat base + 1"
    using unat_diff_le [OF *(3)] by (simp add: unat_minus_one)
  show "base \<le> high" by (rule *(3))
qed

lemma valid_range_sub:
  assumes "valid_range base sz (high::'w::len word)" "base \<le> b" "b < high'" "high' \<le> high"
  shows "valid_range b (high' - b) (high' - 1)" and "high' - b < sz"
proof -
  show "valid_range b (high' - b) (high' - 1)"
    using assms(3) word_less_imp_le_minus_one [OF assms(3)]
    by (auto simp: valid_range_def word_gt_0)
  have "unat (high' - b) = unat high' - unat b"
    using assms(3) by (simp add: unat_diff_le)
  then show "high' - b < sz"
    using assms(2-4) valid_range_unat [OF assms(1)]
    by (simp add: word_less_nat_alt word_le_nat_alt)
qed

lemma StoreRangeInternal_invalid:
  "\<not> (\<exists>high. valid_range base sz high) \<Longrightarrow> StoreRangeInternal strat m base delta sz entry = Some (m, False)"
  by (subst StoreRangeInternal.simps) (auto simp: valid_range_def geometry)

lemma StoreRangeInternal_valid:
  assumes "valid_range base sz high"
  shows "0 < sz" "\<not> snd (AddWithOverflowCheck base (sz - 1))"
    "fst (AddWithOverflowCheck base (sz - 1)) = high" "base \<le> high"
  using assms by (auto simp: valid_range_def geometry)

text \<open>
  The runs of \<open>StoreRangeInternal\<close> on well-formed maps as an inductive relation: a call with an
  invalid range, a call that inserts, a call that is refused, and the four ways to go on.
\<close>

type_synonym ('w, 'e) store_call = "('w, 'e) range_omap \<times> 'w word \<times> 'w word \<times> 'w word"

inductive store_run ::
  "MergeRangeStrategy \<Rightarrow> 'e \<Rightarrow> ('w::len, 'e) store_call \<Rightarrow> ('w, 'e) range_omap \<times> bool \<Rightarrow> bool"
  for strat entry where
  invalid: "ranges_ok m \<Longrightarrow> \<not> (\<exists>high. valid_range base sz high) \<Longrightarrow>
    store_run strat entry (m, base, delta, sz) (m, False)"
| free: "ranges_ok m \<Longrightarrow> valid_range base sz high \<Longrightarrow>
    \<forall>p\<in>set m. fst p < base \<or> high < r_base (snd p) \<Longrightarrow>
    store_run strat entry (m, base, delta, sz)
      (om_insert high \<lparr>r_base = base, r_delta = delta, r_entry = entry\<rparr> m, True)"
| refuse: "ranges_ok m \<Longrightarrow> valid_range base sz high \<Longrightarrow> p \<in> set m \<Longrightarrow> overlaps p base high \<Longrightarrow>
    strat = kTruncateLower \<longrightarrow> r_base (snd p) = base \<Longrightarrow>
    strat = kTruncateUpper \<longrightarrow> fst p = high \<Longrightarrow>
    store_run strat entry (m, base, delta, sz) (m, False)"
| cut_new: "ranges_ok m \<Longrightarrow> valid_range base sz high \<Longrightarrow> strat = kTruncateLower \<Longrightarrow> p \<in> set m \<Longrightarrow>
    base < r_base (snd p) \<Longrightarrow> r_base (snd p) \<le> high \<Longrightarrow>
    store_run strat entry (m, base, delta, r_base (snd p) - base) res \<Longrightarrow>
    store_run strat entry (m, base, delta, sz) res"
| cut_old: "ranges_ok m \<Longrightarrow> valid_range base sz high \<Longrightarrow> strat = kTruncateLower \<Longrightarrow> i < length m \<Longrightarrow>
    r_base (snd (m ! i)) < base \<Longrightarrow> base \<le> fst (m ! i) \<Longrightarrow>
    store_run strat entry (truncated m i base, base, delta, sz) res \<Longrightarrow>
    store_run strat entry (m, base, delta, sz) res"
| move_new: "ranges_ok m \<Longrightarrow> valid_range base sz high \<Longrightarrow> strat = kTruncateUpper \<Longrightarrow> p \<in> set m \<Longrightarrow>
    base \<le> fst p \<Longrightarrow> fst p < high \<Longrightarrow>
    store_run strat entry (m, fst p + 1, delta + (fst p - base + 1), high - fst p) res \<Longrightarrow>
    store_run strat entry (m, base, delta, sz) res"
| shrink_old: "ranges_ok m \<Longrightarrow> valid_range base sz high \<Longrightarrow> strat = kTruncateUpper \<Longrightarrow> i < length m \<Longrightarrow>
    r_base (snd (m ! i)) \<le> high \<Longrightarrow> high < fst (m ! i) \<Longrightarrow>
    \<forall>p\<in>set m. fst p < base \<or> fst (m ! i) \<le> fst p \<Longrightarrow>
    store_run strat entry (shrunk m i high, base, delta, sz) res \<Longrightarrow>
    store_run strat entry (m, base, delta, sz) res"

text \<open>The calls that go on have a smaller size, or the same size and fewer ranges in the way.\<close>

definition in_the_way :: "('w::len, 'e) range_omap \<Rightarrow> 'w word \<Rightarrow> 'w word \<Rightarrow> nat" where
  "in_the_way m base sz = card {p \<in> set m. overlaps p base (base + (sz - 1))}"

lemma in_the_way_less:
  assumes "p \<in> set m" "overlaps p base (base + (sz - 1))"
    "set m' = insert q (set m - {p})" "\<not> overlaps q base (base + (sz - 1))"
  shows "in_the_way m' base sz < in_the_way m base sz"
  unfolding in_the_way_def
  by (rule psubset_card_mono) (use assms in auto)

lemma in_the_way_truncated:
  assumes "ranges_ok m" "valid_range base sz high" "i < length m"
    "r_base (snd (m ! i)) < base" "base \<le> fst (m ! i)"
  shows "in_the_way (truncated m i base) base sz < in_the_way m base sz"
proof (rule in_the_way_less [OF nth_mem [OF assms(3)] _ truncated_ok(2) [OF assms(1,3-5)]])
  show "overlaps (m ! i) base (base + (sz - 1))"
    using assms by (auto simp: overlaps_def valid_range_def)
  show "\<not> overlaps (base - 1, snd (m ! i)) base (base + (sz - 1))"
    using word_minus_one_less [OF order.strict_trans1 [OF word_zero_le assms(4)]]
    by (simp add: overlaps_def linorder_not_le)
qed

lemma in_the_way_shrunk:
  assumes "ranges_ok m" "valid_range base sz high" "i < length m"
    "r_base (snd (m ! i)) \<le> high" "high < fst (m ! i)"
  shows "in_the_way (shrunk m i high) base sz < in_the_way m base sz"
proof (rule in_the_way_less [OF nth_mem [OF assms(3)] _ shrunk_ok(2) [OF assms(1,3-5)]])
  show "overlaps (m ! i) base (base + (sz - 1))"
    using assms by (auto simp: overlaps_def valid_range_def)
qed (use assms in \<open>auto simp: overlaps_def valid_range_def dest: word_less_plus_one\<close>)

text \<open>The equation of the definition, split at the first search.\<close>

lemma StoreRangeInternal_base:
  assumes "valid_range base sz high" "om_lower_bound m base \<noteq> om_lower_bound m high"
    "p = m ! om_lower_bound m base"
  shows "StoreRangeInternal strat m base delta sz entry =
      (if strat = kTruncateLower then
         (if base < r_base (snd p) then
            StoreRangeInternal strat m base delta (r_base (snd p) - base) entry
          else if r_base (snd p) < base then
            Option.bind (truncate_existing m (om_lower_bound m base) base)
              (\<lambda>m'. StoreRangeInternal strat m' base delta sz entry)
          else Some (m, False))
       else if strat = kTruncateUpper then
         StoreRangeInternal strat m (base + (fst p - base + 1)) (delta + (fst p - base + 1))
           (sz - (fst p - base + 1)) entry
       else Some (m, False))"
  using assms(2) StoreRangeInternal_valid [OF assms(1)] unfolding assms(3)
  by (subst StoreRangeInternal.simps) (simp only: Let_def if_True not_False_eq_True simp_thms if_False)

lemma StoreRangeInternal_high:
  assumes "valid_range base sz high" "om_lower_bound m base = om_lower_bound m high"
    "i = om_lower_bound m high"
  shows "StoreRangeInternal strat m base delta sz entry =
      (if i \<noteq> length m \<and> r_base (snd (m ! i)) \<le> high then
        (if strat = kTruncateLower then
           (if base < r_base (snd (m ! i)) then
              StoreRangeInternal strat m base delta (r_base (snd (m ! i)) - base) entry
            else if r_base (snd (m ! i)) < base then
              Option.bind (truncate_existing m i base)
                (\<lambda>m'. StoreRangeInternal strat m' base delta sz entry)
            else Some (m, False))
         else if strat = kTruncateUpper \<and> high < fst (m ! i) then
           Option.bind (shrink_existing m i high)
             (\<lambda>m'. StoreRangeInternal strat m' base delta sz entry)
         else Some (m, False))
       else Some (om_insert high \<lparr>r_base = base, r_delta = delta, r_entry = entry\<rparr> m, True))"
  using assms(2) StoreRangeInternal_valid [OF assms(1)] unfolding assms(3)
  by (subst StoreRangeInternal.simps) (simp only: Let_def if_True not_False_eq_True simp_thms if_False)

text \<open>
  One call: given that the calls it may make have runs, it has one. The size and the count of
  ranges in the way carry the induction.
\<close>

definition has_run :: "MergeRangeStrategy \<Rightarrow> 'e \<Rightarrow> ('w::len, 'e) store_call \<Rightarrow> bool" where
  "has_run strat entry c \<longleftrightarrow> (case c of (m, base, delta, sz) \<Rightarrow>
     \<exists>res. StoreRangeInternal strat m base delta sz entry = Some res \<and> store_run strat entry c res)"

lemma has_runI:
  "StoreRangeInternal strat m base delta sz entry = Some res \<Longrightarrow>
   store_run strat entry (m, base, delta, sz) res \<Longrightarrow> has_run strat entry (m, base, delta, sz)"
  unfolding has_run_def prod.case by blast

lemma has_run_via:
  assumes "has_run strat entry (m', base', delta', sz')"
    "StoreRangeInternal strat m base delta sz entry = StoreRangeInternal strat m' base' delta' sz' entry"
    "\<And>res. store_run strat entry (m', base', delta', sz') res \<Longrightarrow> store_run strat entry (m, base, delta, sz) res"
  shows "has_run strat entry (m, base, delta, sz)"
  using assms by (auto simp: has_run_def)

lemma valid_range_above:
  assumes "valid_range base sz high" "base \<le> x" "x < high"
  shows "high - x < sz" and "valid_range (x + 1) (high - x) high"
    and "base + (x - base + 1) = x + 1" and "sz - (x - base + 1) = high - x"
proof -
  show "base + (x - base + 1) = x + 1" "sz - (x - base + 1) = high - x"
    using valid_range_sz [OF assms(1)] by (simp_all add: algebra_simps)
  have x: "x < x + 1" "x + 1 \<le> high" "base \<le> high"
    using assms by (auto simp: valid_range_def intro: word_less_plus_one word_less_imp_plus_one_le)
  show "valid_range (x + 1) (high - x) high"
    using assms(3) x by (auto simp: valid_range_def word_gt_0)
  have "unat (high - x) = unat high - unat x"
    using assms(3) by (simp add: unat_diff_le)
  then show "high - x < sz"
    using assms(2,3) valid_range_unat [OF assms(1)]
    by (simp add: word_less_nat_alt word_le_nat_alt)
qed

lemma has_run_lower:
  assumes ok: "ranges_ok m" and v: "valid_range base sz high" and strat: "strat = kTruncateLower"
    and i: "i < length m" and ov: "overlaps (m ! i) base high"
    and eq: "StoreRangeInternal strat m base delta sz entry =
      (if base < r_base (snd (m ! i)) then
         StoreRangeInternal strat m base delta (r_base (snd (m ! i)) - base) entry
       else if r_base (snd (m ! i)) < base then
         Option.bind (truncate_existing m i base)
           (\<lambda>m'. StoreRangeInternal strat m' base delta sz entry)
       else Some (m, False))"
    and smaller: "\<And>base' delta' sz'. sz' < sz \<Longrightarrow> has_run strat entry (m, base', delta', sz')"
    and fewer: "\<And>m'. ranges_ok m' \<Longrightarrow> in_the_way m' base sz < in_the_way m base sz \<Longrightarrow>
      has_run strat entry (m', base, delta, sz)"
  shows "has_run strat entry (m, base, delta, sz)"
proof (cases "r_base (snd (m ! i))" base rule: linorder_cases)
  case less
  have le: "base \<le> fst (m ! i)" using ov by (simp add: overlaps_def)
  have "has_run strat entry (truncated m i base, base, delta, sz)"
    by (intro fewer truncated_ok in_the_way_truncated [OF ok v i] ok i less le)
  then show ?thesis
    by (rule has_run_via)
      (use less eq truncate_existing_eq [OF ok i] in auto, rule store_run.cut_old [OF ok v strat i less le])
next
  case equal
  then have "StoreRangeInternal strat m base delta sz entry = Some (m, False)"
    using eq by simp
  then show ?thesis
    by (rule has_runI) (rule store_run.refuse [OF ok v nth_mem [OF i] ov], use equal strat in simp_all)
next
  case greater
  have le: "r_base (snd (m ! i)) \<le> high" using ov by (simp add: overlaps_def)
  have "has_run strat entry (m, base, delta, r_base (snd (m ! i)) - base)"
    by (rule smaller [OF valid_range_sub(2) [OF v order.refl greater le]])
  then show ?thesis
    by (rule has_run_via)
      (use greater eq in auto, rule store_run.cut_new [OF ok v strat nth_mem [OF i] greater le])
qed

lemma has_run_base:
  assumes ok: "ranges_ok m" and v: "valid_range base sz high"
    and neq: "om_lower_bound m base \<noteq> om_lower_bound m high"
    and smaller: "\<And>base' delta' sz'. sz' < sz \<Longrightarrow> has_run strat entry (m, base', delta', sz')"
    and fewer: "\<And>m'. ranges_ok m' \<Longrightarrow> in_the_way m' base sz < in_the_way m base sz \<Longrightarrow>
      has_run strat entry (m', base, delta, sz)"
  shows "has_run strat entry (m, base, delta, sz)"
proof -
  let ?i = "om_lower_bound m base"
  have i: "?i < length m" and lt: "fst (m ! ?i) < high"
    using neq om_lower_bound_neq [OF ranges_okD(1) [OF ok] StoreRangeInternal_valid(4) [OF v]] by auto
  note p = nth_mem [OF i] and le = om_lower_bound_at [OF i]
  have ov: "overlaps (m ! ?i) base high"
    using le lt ranges_okD(2) [OF ok p] by (auto simp: overlaps_def)
  note eq = StoreRangeInternal_base [OF v neq refl]
  show ?thesis
  proof (cases strat)
    case kExclusiveRanges
    then have "StoreRangeInternal strat m base delta sz entry = Some (m, False)"
      using eq by simp
    then show ?thesis
      by (rule has_runI) (rule store_run.refuse [OF ok v p ov], use kExclusiveRanges in simp_all)
  next
    case kTruncateLower
    show ?thesis
      by (rule has_run_lower [OF ok v kTruncateLower i ov _ smaller fewer])
        (use eq kTruncateLower in simp_all)
  next
    case kTruncateUpper
    note va = valid_range_above [OF v le lt]
    have "StoreRangeInternal strat m base delta sz entry =
      StoreRangeInternal strat m (fst (m ! ?i) + 1) (delta + (fst (m ! ?i) - base + 1)) (high - fst (m ! ?i)) entry"
      unfolding va(3) [symmetric] va(4) [symmetric] using eq kTruncateUpper by simp
    then show ?thesis
      by (rule has_run_via [OF smaller [OF va(1)]])
        (rule store_run.move_new [OF ok v kTruncateUpper p le lt])
  qed
qed

lemma has_run_high:
  assumes ok: "ranges_ok m" and v: "valid_range base sz high"
    and eq_it: "om_lower_bound m base = om_lower_bound m high"
    and smaller: "\<And>base' delta' sz'. sz' < sz \<Longrightarrow> has_run strat entry (m, base', delta', sz')"
    and fewer: "\<And>m'. ranges_ok m' \<Longrightarrow> in_the_way m' base sz < in_the_way m base sz \<Longrightarrow>
      has_run strat entry (m', base, delta, sz)"
  shows "has_run strat entry (m, base, delta, sz)"
proof (cases "om_lower_bound m high \<noteq> length m \<and> r_base (snd (m ! om_lower_bound m high)) \<le> high")
  case False
  note g = StoreRangeInternal_valid [OF v]
  have "\<forall>p\<in>set m. fst p < base \<or> high < r_base (snd p)"
    using bounds_free [OF ok g(4) eq_it] False by blast
  then show ?thesis
    by (intro has_runI [OF _ store_run.free [OF ok v]])
      (use StoreRangeInternal_high [OF v eq_it refl] False in auto)
next
  case True
  let ?i = "om_lower_bound m high"
  note eq = StoreRangeInternal_high [OF v eq_it refl]
  have i: "?i < length m" and rb: "r_base (snd (m ! ?i)) \<le> high"
    using True le_neq_implies_less [OF om_lower_bound_le] by blast+
  note p = nth_mem [OF i] and le = om_lower_bound_at [OF i]
  have lb: "base \<le> fst (m ! ?i)"
    using le StoreRangeInternal_valid(4) [OF v] by simp
  have ov: "overlaps (m ! ?i) base high"
    using lb rb by (simp add: overlaps_def)
  consider (TL) "strat = kTruncateLower" | (TU) "strat = kTruncateUpper" "high < fst (m ! ?i)"
    | (R) "strat = kExclusiveRanges \<or> strat = kTruncateUpper \<and> fst (m ! ?i) = high"
    using le unfolding le_less by (cases strat) auto
  then show ?thesis
  proof cases
    case TL
    show ?thesis
      by (rule has_run_lower [OF ok v TL i ov _ smaller fewer]) (use eq TL True in simp_all)
  next
    case TU
    have least: "\<forall>p\<in>set m. fst p < base \<or> fst (m ! ?i) \<le> fst p"
      using om_lower_bound_least [OF ranges_okD(1) [OF ok], of base] i eq_it by simp
    show ?thesis
      by (rule has_run_via [OF fewer [OF shrunk_ok(1) [OF ok i rb TU(2)] in_the_way_shrunk [OF ok v i rb TU(2)]]])
        (use eq True TU shrink_existing_eq [OF ok i] in simp,
         rule store_run.shrink_old [OF ok v TU(1) i rb TU(2) least])
  next
    case R
    then have "StoreRangeInternal strat m base delta sz entry = Some (m, False)"
      using eq True by auto
    then show ?thesis
      by (rule has_runI) (rule store_run.refuse [OF ok v p ov], use R in auto)
  qed
qed

lemma StoreRangeInternal_run:
  "ranges_ok m \<Longrightarrow> has_run strat entry (m, base, delta, sz)"
proof (induction "(m, base, delta, sz)" arbitrary: m base delta sz
    rule: wf_induct_rule [OF wf_measures [of "[\<lambda>(m, base, delta, sz). unat sz,
      \<lambda>(m, base, delta, sz). in_the_way m base sz]"]])
  case (1 m base delta sz)
  note ok = \<open>ranges_ok m\<close>
  have smaller: "has_run strat entry (m, base', delta', sz')" if "sz' < sz" for base' delta' sz'
    by (rule 1(1)) (use that ok in \<open>simp_all add: word_less_nat_alt\<close>)
  have fewer: "has_run strat entry (m', base, delta, sz)"
    if "ranges_ok m'" "in_the_way m' base sz < in_the_way m base sz" for m'
    by (rule 1(1)) (use that in simp_all)
  show ?case
  proof (cases "\<exists>high. valid_range base sz high")
    case False
    show ?thesis
      by (rule has_runI [OF StoreRangeInternal_invalid [OF False] store_run.invalid [OF ok False]])
  next
    case True
    then obtain high where v: "valid_range base sz high" by blast
    show ?thesis
      using has_run_base [OF ok v _ smaller fewer] has_run_high [OF ok v _ smaller fewer] by blast
  qed
qed


lemma store_run_of:
  assumes "ranges_ok m" "StoreRangeInternal strat m base delta sz entry = Some res"
  shows "store_run strat entry (m, base, delta, sz) res"
  using StoreRangeInternal_run [OF assms(1), of strat entry base delta sz] assms(2)
  by (auto simp: has_run_def)

section \<open>What a store does\<close>

text \<open>
  The condition under which a range is accepted depends on the strategy: no overlap at all, no
  range with the same base, or no range with the same high address.
\<close>

definition acceptable ::
  "MergeRangeStrategy \<Rightarrow> ('w::len, 'e) range_omap \<Rightarrow> 'w word \<Rightarrow> 'w word \<Rightarrow> bool" where
  "acceptable strat m base high \<longleftrightarrow> (\<forall>p\<in>set m. case strat of
       kExclusiveRanges \<Rightarrow> \<not> overlaps p base high
     | kTruncateLower \<Rightarrow> r_base (snd p) \<noteq> base
     | kTruncateUpper \<Rightarrow> fst p \<noteq> high)"

lemma store_run_ok: "store_run strat entry c res \<Longrightarrow> ranges_ok (fst c) \<and> ranges_ok (fst res)"
proof (induction rule: store_run.induct)
  case (free m base sz high delta)
  then show ?case
    using ranges_ok_insert(1) [of m "\<lparr>r_base = base, r_delta = delta, r_entry = entry\<rparr>" high]
      valid_range_unat(2) by auto
qed auto

lemma valid_range_unique: "valid_range base sz high \<Longrightarrow> valid_range base sz high' \<Longrightarrow> high = high'"
  by (simp add: valid_range_def)

lemma acceptable_truncated:
  assumes "ranges_ok m" "i < length m" "r_base (snd (m ! i)) < base" "base \<le> fst (m ! i)"
  shows "acceptable kTruncateLower (truncated m i base) base high"
    and "acceptable kTruncateLower m base high"
proof -
  have "r_base (snd p) \<noteq> base" if "p \<in> set m" for p
  proof
    assume eq: "r_base (snd p) = base"
    then have "p = m ! i"
      using assms ranges_okD(2) [OF assms(1) that]
      by (intro covers_unique [OF assms(1) that nth_mem [OF assms(2)], of base]) (auto simp: covers_def)
    with eq assms(3) show False by simp
  qed
  then show "acceptable kTruncateLower (truncated m i base) base high"
    "acceptable kTruncateLower m base high"
    using assms(3) unfolding acceptable_def truncated_ok(2) [OF assms] by auto
qed

lemma acceptable_shrunk:
  assumes "ranges_ok m" "i < length m" "r_base (snd (m ! i)) \<le> high" "high < fst (m ! i)"
    "base \<le> high" "\<forall>p\<in>set m. fst p < base \<or> fst (m ! i) \<le> fst p"
  shows "acceptable kTruncateUpper (shrunk m i high) base high"
    and "acceptable kTruncateUpper m base high"
proof -
  have "fst p \<noteq> high" if "p \<in> set m" for p
    using assms(4-6) that by force
  then show "acceptable kTruncateUpper (shrunk m i high) base high"
    "acceptable kTruncateUpper m base high"
    using assms(4) unfolding acceptable_def shrunk_ok(2) [OF assms(1-4)] by auto
qed

lemma store_run_result:
  assumes "store_run strat entry c res"
  shows "case c of (m, base, delta, sz) \<Rightarrow>
    (snd res \<longleftrightarrow> (\<exists>high. valid_range base sz high \<and> acceptable strat m base high)) \<and>
    (\<not> snd res \<longrightarrow> fst res = m)"
  using assms
proof (induction rule: store_run.induct)
  case (invalid m base sz delta)
  then show ?case by auto
next
  case (free m base sz high delta)
  have "acceptable strat m base high"
    using free(2,3) valid_range_unat(2) [OF free(2)] ranges_okD(2) [OF free(1)]
    by (fastforce simp: acceptable_def overlaps_def split: MergeRangeStrategy.splits)
  then show ?case
    using free(2) by auto
next
  case (refuse m base sz high p delta)
  then have "\<not> acceptable strat m base high"
    by (cases strat) (auto simp: acceptable_def)
  then show ?case
    using valid_range_unique [OF refuse(2)] by auto
next
  case (cut_new m base sz high p delta res)
  have "valid_range base (r_base (snd p) - base) (r_base (snd p) - 1)"
    by (rule valid_range_sub [OF cut_new(2) order.refl cut_new(5,6)])
  moreover have "acceptable strat m base high = acceptable strat m base (r_base (snd p) - 1)"
    using cut_new(3) by (simp add: acceptable_def)
  ultimately show ?case
    using cut_new(2,8) by (auto dest: valid_range_unique)
next
  case (cut_old m base sz high i delta res)
  then show ?case
    using acceptable_truncated [OF cut_old(1,4-6), of high] by (auto dest: valid_range_unique)
next
  case (move_new m base sz high p delta res)
  have "acceptable strat m base high = acceptable strat m (fst p + 1) high"
    using move_new(3) by (simp add: acceptable_def)
  then show ?case
    using move_new(2,8) valid_range_above(2) [OF move_new(2,5,6)] by (auto dest: valid_range_unique)
next
  case (shrink_old m base sz high i delta res)
  then show ?case
    using acceptable_shrunk [OF shrink_old(1,4-6) _ shrink_old(7)] valid_range_unat(2) [OF shrink_old(2)]
    by (auto dest: valid_range_unique)
qed



text \<open>
  The exact contents of the map after an accepted store. \<open>kTruncateLower\<close> cuts the range that
  covers the new base and ends the new range below the first base above its own;
  \<open>kTruncateUpper\<close> starts the new range above the last range that ends inside it and raises the
  base of the range that covers its high address.
\<close>

definition cut_at :: "'w::len word \<Rightarrow> 'w word \<times> ('w word, 'e) Range \<Rightarrow> 'w word \<times> ('w word, 'e) Range" where
  "cut_at base p = (if r_base (snd p) < base \<and> base \<le> fst p then (base - 1, snd p) else p)"

definition raise_above :: "'w::len word \<Rightarrow> 'w word \<times> ('w word, 'e) Range \<Rightarrow> 'w word \<times> ('w word, 'e) Range" where
  "raise_above high p = (if r_base (snd p) \<le> high \<and> high < fst p
     then (fst p, (snd p)\<lparr>r_base := high + 1, r_delta := r_delta (snd p) + (high - r_base (snd p) + 1)\<rparr>)
     else p)"

definition new_high :: "('w::len, 'e) range_omap \<Rightarrow> 'w word \<Rightarrow> 'w word \<Rightarrow> 'w word \<Rightarrow> bool" where
  "new_high m base high h \<longleftrightarrow> base \<le> h \<and> h \<le> high \<and>
     (\<forall>p\<in>set m. base < r_base (snd p) \<longrightarrow> h < r_base (snd p)) \<and>
     (h = high \<or> (\<exists>p\<in>set m. r_base (snd p) = h + 1))"

definition new_base :: "('w::len, 'e) range_omap \<Rightarrow> 'w word \<Rightarrow> 'w word \<Rightarrow> 'w word \<Rightarrow> bool" where
  "new_base m base high b \<longleftrightarrow> base \<le> b \<and> b \<le> high \<and>
     (\<forall>p\<in>set m. fst p < high \<longrightarrow> fst p < b) \<and>
     (b = base \<or> (\<exists>p\<in>set m. fst p + 1 = b))"

lemma set_free_insert:
  assumes "ranges_ok m" "valid_range base sz high" "\<forall>p\<in>set m. fst p < base \<or> high < r_base (snd p)"
  shows "set (om_insert high \<lparr>r_base = base, r_delta = delta, r_entry = entry\<rparr> m) =
    insert (high, \<lparr>r_base = base, r_delta = delta, r_entry = entry\<rparr>) (set m)"
  using ranges_ok_insert(2) [of m "\<lparr>r_base = base, r_delta = delta, r_entry = entry\<rparr>" high]
    assms valid_range_unat(2) [OF assms(2)] by simp

lemma store_run_exclusive:
  assumes "store_run strat entry c res" "strat = kExclusiveRanges" "snd res"
  shows "case c of (m, base, delta, sz) \<Rightarrow> \<exists>high. valid_range base sz high \<and>
    set (fst res) = insert (high, \<lparr>r_base = base, r_delta = delta, r_entry = entry\<rparr>) (set m)"
  using assms
proof (induction rule: store_run.induct)
  case (free m base sz high delta)
  then show ?case
    using set_free_insert [OF free(1-3)] by auto
qed auto

lemma store_run_lower:
  assumes "store_run strat entry c res" "strat = kTruncateLower" "snd res"
  shows "case c of (m, base, delta, sz) \<Rightarrow> \<exists>high h. valid_range base sz high \<and> new_high m base high h \<and>
    set (fst res) = insert (h, \<lparr>r_base = base, r_delta = delta, r_entry = entry\<rparr>) (cut_at base ` set m)"
  using assms
proof (induction rule: store_run.induct)
  case (free m base sz high delta)
  have "cut_at base p = p" if "p \<in> set m" for p
    using free(3) that valid_range_unat(2) [OF free(2)] by (force simp: cut_at_def)
  then have "cut_at base ` set m = set m" by simp
  moreover have "new_high m base high high"
    using free(3) valid_range_unat(2) [OF free(2)] ranges_okD(2) [OF free(1)]
    by (fastforce simp: new_high_def)
  ultimately show ?case
    using free(2) set_free_insert [OF free(1-3), of delta entry] by auto
next
  case (cut_new m base sz high p delta res)
  then obtain h where h: "new_high m base (r_base (snd p) - 1) h"
    and eq: "set (fst res) = insert (h, \<lparr>r_base = base, r_delta = delta, r_entry = entry\<rparr>) (cut_at base ` set m)"
    using valid_range_unique [OF _ valid_range_sub(1) [OF cut_new(2) order.refl cut_new(5,6)]] by auto
  have "new_high m base high h"
    using h cut_new(4-6) word_minus_one_less [OF order.strict_trans1 [OF word_zero_le cut_new(5)]]
    by (fastforce simp: new_high_def)
  with cut_new(2) eq show ?case by auto
next
  case (cut_old m base sz high i delta res)
  note t = truncated_ok(2) [OF cut_old(1,4-6)]
  note p = nth_mem [OF cut_old(4)]
  have "cut_at base ` set (truncated m i base) = cut_at base ` set m"
  proof -
    have "cut_at base (base - 1, snd (m ! i)) = cut_at base (m ! i)"
      using cut_old(5,6) word_minus_one_less [OF order.strict_trans1 [OF word_zero_le cut_old(5)]]
      by (simp add: cut_at_def)
    then show ?thesis
      unfolding t by (rule image_exchange [OF p])
  qed
  moreover have "new_high (truncated m i base) base hi h = new_high m base hi h" for hi h
    unfolding new_high_def t using p cut_old(5) by auto
  ultimately show ?case
    using cut_old(8-) by simp
qed auto

lemma store_run_upper:
  assumes "store_run strat entry c res" "strat = kTruncateUpper" "snd res"
  shows "case c of (m, base, delta, sz) \<Rightarrow> \<exists>high b. valid_range base sz high \<and> new_base m base high b \<and>
    set (fst res) = insert (high, \<lparr>r_base = b, r_delta = delta + (b - base), r_entry = entry\<rparr>)
      (raise_above high ` set m)"
  using assms
proof (induction rule: store_run.induct)
  case (free m base sz high delta)
  have "raise_above high p = p" if "p \<in> set m" for p
    using free(3) that valid_range_unat(2) [OF free(2)] by (force simp: raise_above_def)
  then have "raise_above high ` set m = set m" by simp
  moreover have "new_base m base high base"
    using free(3) valid_range_unat(2) [OF free(2)] ranges_okD(2) [OF free(1)]
    by (fastforce simp: new_base_def)
  ultimately show ?case
    using free(2) set_free_insert [OF free(1-3), of delta entry]
    by (simp only: prod.case) (intro exI [of _ high] exI [of _ base], simp)
next
  case (move_new m base sz high p delta res)
  then obtain b where b: "new_base m (fst p + 1) high b"
    and eq: "set (fst res) = insert (high, \<lparr>r_base = b,
      r_delta = delta + (fst p - base + 1) + (b - (fst p + 1)), r_entry = entry\<rparr>) (raise_above high ` set m)"
    using valid_range_unique [OF _ valid_range_above(2) [OF move_new(2,5,6)]] by auto
  have "new_base m base high b"
    using b move_new(4-6) word_less_plus_one [OF move_new(6)]
    by (fastforce simp: new_base_def)
  moreover have "delta + (fst p - base + 1) + (b - (fst p + 1)) = delta + (b - base)"
    by (simp add: algebra_simps)
  ultimately show ?case
    using move_new(2) eq by auto
next
  case (shrink_old m base sz high i delta res)
  note t = shrunk_ok(2) [OF shrink_old(1,4-6)]
  note p = nth_mem [OF shrink_old(4)]
  have lt: "high < high + 1"
    by (rule word_less_plus_one [OF shrink_old(6)])
  have "raise_above high ` set (shrunk m i high) = raise_above high ` set m"
  proof -
    have "raise_above high (fst (m ! i), (snd (m ! i))\<lparr>r_base := high + 1,
        r_delta := r_delta (snd (m ! i)) + (high - r_base (snd (m ! i)) + 1)\<rparr>) = raise_above high (m ! i)"
      using shrink_old(5,6) lt by (simp add: raise_above_def)
    then show ?thesis
      unfolding t by (rule image_exchange [OF p])
  qed
  moreover have "new_base (shrunk m i high) base hi b = new_base m base hi b" for hi b
    unfolding new_base_def t using p by auto
  moreover obtain hi b where hi: "valid_range base sz hi"
    and "new_base (shrunk m i high) base hi b"
    and "set (fst res) = insert (hi, \<lparr>r_base = b, r_delta = delta + (b - base), r_entry = entry\<rparr>)
      (raise_above hi ` set (shrunk m i high))"
    using shrink_old(9-) by auto
  moreover have "hi = high"
    by (rule valid_range_unique [OF hi shrink_old(2)])
  ultimately show ?case
    using hi by auto
qed auto

section \<open>Lookups after a store\<close>

lemma option_eqI: "(\<And>x. a = Some x \<longleftrightarrow> b = Some x) \<Longrightarrow> a = b"
  by (cases a; cases b) auto

lemma covers_simps [simp]: "covers (h, r) a \<longleftrightarrow> r_base r \<le> a \<and> a \<le> h"
  by (simp add: covers_def)

lemma covers_cut_at:
  assumes "ranges_ok m" "p \<in> set m"
  shows "covers (cut_at base p) a \<longleftrightarrow> covers p a \<and> (covers p base \<and> r_base (snd p) \<noteq> base \<longrightarrow> a < base)"
proof (cases "r_base (snd p) < base \<and> base \<le> fst p")
  case True
  have "0 < base"
    using True by (auto intro: order.strict_trans1 [OF word_zero_le])
  then have "a \<le> base - 1 \<longleftrightarrow> a < base"
    by (metis word_le_minus_one_imp_less word_less_imp_le_minus_one)
  with True show ?thesis
    by (auto simp: cut_at_def covers_def)
next
  case False
  then show ?thesis
    by (auto simp: cut_at_def covers_def)
qed

lemma covers_raise_above:
  "covers (raise_above high p) a \<longleftrightarrow> covers p a \<and> (covers p high \<and> fst p \<noteq> high \<longrightarrow> high < a)"
proof (cases "r_base (snd p) \<le> high \<and> high < fst p")
  case True
  then have "high + 1 \<le> a \<longleftrightarrow> high < a"
    by (metis word_less_imp_plus_one_le word_plus_one_le_imp_less)
  with True show ?thesis
    by (auto simp: raise_above_def covers_def)
next
  case False
  then show ?thesis
    by (auto simp: raise_above_def covers_def)
qed

definition forget_size :: "('w::len, 'e) retrieved option \<Rightarrow> ('e \<times> 'w word \<times> 'w word) option" where
  "forget_size = map_option (\<lambda>(e, b, d, s). (e, b, d))"

lemma map_RetrieveRange_iff:
  assumes "ranges_ok m"
  shows "map_option g (RetrieveRange m a) = Some x \<longleftrightarrow> (\<exists>p\<in>set m. covers p a \<and> x = g (range_result p))"
  unfolding map_option_eq_Some RetrieveRange_iff [OF assms] by blast

lemma forget_size_iff:
  assumes "ranges_ok m"
  shows "forget_size (RetrieveRange m a) = Some x \<longleftrightarrow>
    (\<exists>p\<in>set m. covers p a \<and> x = (r_entry (snd p), r_base (snd p), r_delta (snd p)))"
  unfolding forget_size_def map_RetrieveRange_iff [OF assms] by (simp add: range_result_def)

text \<open>The range that was there, as \<open>kTruncateUpper\<close> leaves it: its base plus its old delta is kept.\<close>

definition origin :: "('w::len, 'e) retrieved option \<Rightarrow> ('e \<times> 'w word) option" where
  "origin = map_option (\<lambda>(e, b, d, s). (e, b - d))"

lemma origin_iff:
  assumes "ranges_ok m"
  shows "origin (RetrieveRange m a) = Some x \<longleftrightarrow>
    (\<exists>p\<in>set m. covers p a \<and> x = (r_entry (snd p), r_base (snd p) - r_delta (snd p)))"
  unfolding origin_def map_RetrieveRange_iff [OF assms] by (simp add: range_result_def)

lemma StoreRange_cases:
  assumes "ranges_ok (rm_map m)" "StoreRange m base sz entry = Some (m', ok)"
  shows "store_run (merge_strategy m) entry (rm_map m, base, 0, sz) (rm_map m', ok)"
    and "m' = m\<lparr>rm_map := rm_map m'\<rparr>"
  using assms(2) store_run_of [OF assms(1)] by (auto simp: StoreRange_def)

lemma raise_above_origin:
  "r_base (snd (raise_above high p)) - r_delta (snd (raise_above high p)) = r_base (snd p) - r_delta (snd p)"
  by (auto simp: raise_above_def algebra_simps)

lemma raise_above_entry [simp]: "r_entry (snd (raise_above high p)) = r_entry (snd p)"
  by (simp add: raise_above_def)

lemma snd_cut_at [simp]: "snd (cut_at base p) = snd p"
  by (simp add: cut_at_def)

lemma lookup_exclusive:
  assumes ok: "ranges_ok m" and run: "store_run kExclusiveRanges entry (m, base, delta, sz) (m', True)"
    and v: "valid_range base sz high"
  shows "RetrieveRange m' a = (if base \<le> a \<and> a \<le> high then Some (entry, base, delta, sz) else RetrieveRange m a)"
proof -
  have eq: "set m' = insert (high, \<lparr>r_base = base, r_delta = delta, r_entry = entry\<rparr>) (set m)"
    using store_run_exclusive [OF run refl] valid_range_unique [OF v] by auto
  have ok': "ranges_ok m'"
    using store_run_ok [OF run] by simp
  have "acceptable kExclusiveRanges m base high"
    using store_run_result [OF run] valid_range_unique [OF v] by auto
  then have none: "\<not> covers p a" if "p \<in> set m" "base \<le> a" "a \<le> high" for p
    using that by (auto simp: acceptable_def overlaps_def covers_def)
  show ?thesis
    by (rule option_eqI)
      (use none in \<open>auto simp: RetrieveRange_iff ok ok' eq range_result_def valid_range_sz [OF v]\<close>)
qed

lemma lookup_lower:
  assumes ok: "ranges_ok m" and run: "store_run kTruncateLower entry (m, base, delta, sz) (m', True)"
  shows "\<exists>high h. valid_range base sz high \<and> new_high m base high h \<and>
    (\<forall>a. base \<le> a \<and> a \<le> h \<longrightarrow> RetrieveRange m' a = Some (entry, base, delta, h - base + 1)) \<and>
    (\<forall>a. a < base \<longrightarrow> forget_size (RetrieveRange m' a) = forget_size (RetrieveRange m a)) \<and>
    (\<forall>a. h < a \<longrightarrow> RetrieveRange m' a = (if \<exists>p\<in>set m. covers p base \<and> covers p a then None else RetrieveRange m a))"
proof -
  obtain high h where v: "valid_range base sz high" and h: "new_high m base high h"
    and eq: "set m' = insert (h, \<lparr>r_base = base, r_delta = delta, r_entry = entry\<rparr>) (cut_at base ` set m)"
    using store_run_lower [OF run refl] by auto
  have ok': "ranges_ok m'"
    using store_run_ok [OF run] by simp
  have acc: "r_base (snd p) \<noteq> base" if "p \<in> set m" for p
    using store_run_result [OF run] that by (auto simp: acceptable_def)
  have new: "RetrieveRange m' a = Some (entry, base, delta, h - base + 1)" if "base \<le> a" "a \<le> h" for a
    unfolding RetrieveRange_iff [OF ok'] eq using that by (simp add: range_result_def)
  have below: "forget_size (RetrieveRange m' a) = forget_size (RetrieveRange m a)" if "a < base" for a
    by (rule option_eqI)
      (use that in \<open>auto simp: forget_size_iff ok ok' eq covers_cut_at [OF ok]\<close>)
  have above: "RetrieveRange m' a = (if \<exists>p\<in>set m. covers p base \<and> covers p a then None else RetrieveRange m a)"
    if "h < a" for a
  proof (rule option_eqI)
    fix x
    have ab: "base < a"
      using h that by (auto simp: new_high_def)
    have "RetrieveRange m' a = Some x \<longleftrightarrow>
        (\<exists>p\<in>set m. covers p a \<and> \<not> covers p base \<and> x = range_result (cut_at base p))"
      using that ab acc unfolding RetrieveRange_iff [OF ok'] eq
      by (auto simp: covers_cut_at [OF ok] not_less)
    also have "\<dots> \<longleftrightarrow> (\<exists>p\<in>set m. covers p a \<and> \<not> covers p base \<and> x = range_result p)"
      by (intro bex_cong refl conj_cong) (auto simp: cut_at_def covers_def)
    also have "\<dots> \<longleftrightarrow> (if \<exists>p\<in>set m. covers p base \<and> covers p a then None else RetrieveRange m a) = Some x"
      using covers_unique [OF ok] by (auto simp: RetrieveRange_iff [OF ok]) blast+
    finally show "RetrieveRange m' a = Some x \<longleftrightarrow>
        (if \<exists>p\<in>set m. covers p base \<and> covers p a then None else RetrieveRange m a) = Some x" .
  qed
  show ?thesis
    using v h new below above by blast
qed

lemma lookup_upper:
  assumes ok: "ranges_ok m" and run: "store_run kTruncateUpper entry (m, base, delta, sz) (m', True)"
  shows "\<exists>high b. valid_range base sz high \<and> new_base m base high b \<and>
    (\<forall>a. b \<le> a \<and> a \<le> high \<longrightarrow> RetrieveRange m' a = Some (entry, b, delta + (b - base), high - b + 1)) \<and>
    (\<forall>a. high < a \<longrightarrow> origin (RetrieveRange m' a) = origin (RetrieveRange m a)) \<and>
    (\<forall>a. a < b \<longrightarrow> RetrieveRange m' a = (if \<exists>p\<in>set m. covers p high \<and> covers p a then None else RetrieveRange m a))"
proof -
  obtain high b where v: "valid_range base sz high" and b: "new_base m base high b"
    and eq: "set m' = insert (high, \<lparr>r_base = b, r_delta = delta + (b - base), r_entry = entry\<rparr>)
      (raise_above high ` set m)"
    using store_run_upper [OF run refl] by auto
  have ok': "ranges_ok m'"
    using store_run_ok [OF run] by simp
  have acc: "fst p \<noteq> high" if "p \<in> set m" for p
    using store_run_result [OF run] that valid_range_unique [OF v] by (auto simp: acceptable_def)
  have new: "RetrieveRange m' a = Some (entry, b, delta + (b - base), high - b + 1)" if "b \<le> a" "a \<le> high" for a
    unfolding RetrieveRange_iff [OF ok'] eq using that by (simp add: range_result_def)
  have above: "origin (RetrieveRange m' a) = origin (RetrieveRange m a)" if "high < a" for a
    by (rule option_eqI)
      (use that in \<open>auto simp: origin_iff ok ok' eq covers_raise_above raise_above_origin\<close>)
  have below: "RetrieveRange m' a = (if \<exists>p\<in>set m. covers p high \<and> covers p a then None else RetrieveRange m a)"
    if "a < b" for a
  proof (rule option_eqI)
    fix x
    have ab: "a < high"
      using b that by (auto simp: new_base_def)
    have "RetrieveRange m' a = Some x \<longleftrightarrow>
        (\<exists>p\<in>set m. covers p a \<and> \<not> covers p high \<and> x = range_result (raise_above high p))"
      using that ab acc unfolding RetrieveRange_iff [OF ok'] eq
      by (auto simp: covers_raise_above not_less)
    also have "\<dots> \<longleftrightarrow> (\<exists>p\<in>set m. covers p a \<and> \<not> covers p high \<and> x = range_result p)"
      by (intro bex_cong refl conj_cong) (auto simp: raise_above_def covers_def)
    also have "\<dots> \<longleftrightarrow> (if \<exists>p\<in>set m. covers p high \<and> covers p a then None else RetrieveRange m a) = Some x"
      using covers_unique [OF ok] by (auto simp: RetrieveRange_iff [OF ok]) blast+
    finally show "RetrieveRange m' a = Some x \<longleftrightarrow>
        (if \<exists>p\<in>set m. covers p high \<and> covers p a then None else RetrieveRange m a) = Some x" .
  qed
  show ?thesis
    using v b new above below by blast
qed

section \<open>Nearest range and range at index\<close>

lemma RetrieveNearestRange_some:
  assumes ok: "ranges_ok m" and p: "p \<in> set m" and le: "r_base (snd p) \<le> a"
    and greatest: "\<forall>q\<in>set m. r_base (snd q) \<le> a \<longrightarrow> fst q \<le> fst p"
  shows "RetrieveNearestRange m a = Some (range_result p)"
proof (cases "a \<le> fst p")
  case True
  then show ?thesis
    using RetrieveRange_covers_Some [OF ok p] le by (simp add: RetrieveNearestRange_def covers_def)
next
  case False
  have "\<not> covers q a" if "q \<in> set m" for q
    using greatest that False by (auto simp: covers_def)
  then have none: "RetrieveRange m a = None"
    by (simp add: RetrieveRange_None_iff [OF ok])
  have pos: "0 < om_upper_bound m a"
    using om_upper_bound_begin [OF ranges_okD(1) [OF ok] _ p, of a] False
    by (cases "om_upper_bound m a = 0") auto
  let ?q = "m ! (om_upper_bound m a - 1)"
  note q = om_upper_bound_pred_mem [OF pos]
  have "fst p \<le> fst ?q"
    using om_upper_bound_pred [OF ranges_okD(1) [OF ok] pos p] False by auto
  moreover have "r_base (snd ?q) \<le> a"
    using ranges_okD(2) [OF ok q(1)] q(2) by simp
  then have "fst ?q \<le> fst p"
    using greatest q(1) by blast
  ultimately have "?q = p"
    using om_sorted_inj [OF ranges_okD(1) [OF ok] q(1) p] by auto
  with none pos show ?thesis
    by (simp add: RetrieveNearestRange_def)
qed

lemma RetrieveNearestRange_none:
  assumes ok: "ranges_ok m"
  shows "RetrieveNearestRange m a = None \<longleftrightarrow> (\<forall>p\<in>set m. a < r_base (snd p))"
proof
  assume none: "RetrieveNearestRange m a = None"
  then have r: "RetrieveRange m a = None" and u: "om_upper_bound m a = 0"
    by (auto simp: RetrieveNearestRange_def Let_def split: option.splits if_splits)
  show "\<forall>p\<in>set m. a < r_base (snd p)"
  proof
    fix p assume p: "p \<in> set m"
    then have "\<not> covers p a" "a < fst p"
      using r om_upper_bound_begin [OF ranges_okD(1) [OF ok] u p] by (auto simp: RetrieveRange_None_iff [OF ok])
    then show "a < r_base (snd p)"
      by (auto simp: covers_def)
  qed
next
  assume above: "\<forall>p\<in>set m. a < r_base (snd p)"
  then have "RetrieveRange m a = None"
    by (auto simp: RetrieveRange_None_iff [OF ok] covers_def)
  moreover have "om_upper_bound m a = 0"
  proof (rule ccontr)
    assume "om_upper_bound m a \<noteq> 0"
    then have "0 < om_upper_bound m a" by simp
    then show False
      using om_upper_bound_pred_mem [of m a] above ranges_okD(2) [OF ok] by (meson order.trans linorder_not_less)
  qed
  ultimately show "RetrieveNearestRange m a = None"
    by (simp add: RetrieveNearestRange_def)
qed

lemma RetrieveRangeAtIndex_ordered:
  assumes "ranges_ok m" "i < j" "j < length m"
  shows "fst (m ! i) < r_base (snd (m ! j))"
  using assms ranges_okD(3) [OF assms(1), of "m ! i" "m ! j"] om_sorted_nth_mono [OF ranges_okD(1) [OF assms(1)]]
  by simp

section \<open>Properties\<close>

text \<open>C1. Storing in a range map always returns, whatever the merge strategy, and keeps the ranges
  disjoint. It succeeds exactly when the range is non-empty, does not wrap around, and meets the
  condition of the strategy (no overlap, no equal base, no equal high address); a failed store
  leaves the map as it was.\<close>

theorem StoreRange_correct:
  assumes "ranges_ok (rm_map m)"
  shows "\<exists>m' ok. StoreRange m base sz entry = Some (m', ok) \<and> ranges_ok (rm_map m') \<and>
    merge_strategy m' = merge_strategy m \<and> (\<not> ok \<longrightarrow> m' = m) \<and>
    (ok \<longleftrightarrow> (\<exists>high. valid_range base sz high \<and> acceptable (merge_strategy m) (rm_map m) base high))"
proof -
  obtain m2 ok where res: "StoreRange m base sz entry = Some (m2, ok)"
    using StoreRangeInternal_run [OF assms, of "merge_strategy m" entry base 0 sz]
    by (auto simp: has_run_def StoreRange_def)
  note run = StoreRange_cases [OF assms res]
  have "merge_strategy m2 = merge_strategy m"
    by (subst run(2)) simp
  moreover have "\<not> ok \<longrightarrow> m2 = m"
    using run(2) store_run_result [OF run(1)] by auto
  ultimately show ?thesis
    using res store_run_ok [OF run(1)] store_run_result [OF run(1)] by auto
qed

lemma StoreRange_correct_witness:
  "\<exists>m' ok. StoreRange (RangeMap_new :: (64 word, nat) RangeMap) 16 8 3 = Some (m', ok) \<and> ranges_ok (rm_map m')"
  using StoreRange_correct [of "RangeMap_new :: (64 word, nat) RangeMap" 16 8 3]
  by (auto simp: RangeMap_new_def)

text \<open>With exclusive ranges, after a successful store a lookup inside the new range returns the new
  entry with the base and the size it was stored with, and every other lookup is unchanged.\<close>

lemma RetrieveRange_after_store_exclusive:
  assumes "ranges_ok (rm_map m)" "merge_strategy m = kExclusiveRanges"
    and "StoreRange m base sz entry = Some (m', True)"
  shows "RetrieveRange (rm_map m') a =
    (if base \<le> a \<and> a \<le> base + (sz - 1) then Some (entry, base, 0, sz) else RetrieveRange (rm_map m) a)"
proof -
  note run = StoreRange_cases(1) [OF assms(1,3), unfolded assms(2)]
  have "valid_range base sz (base + (sz - 1))"
    using store_run_result [OF run] by (auto simp: valid_range_def)
  then show ?thesis
    using lookup_exclusive [OF assms(1) run] by simp
qed

lemma StoreRange_new:
  "StoreRange (SetMergeStrategy strat RangeMap_new) base sz entry =
    (if 0 < sz \<and> base \<le> base + (sz - 1)
     then Some (\<lparr>merge_strategy = strat, rm_map = [(base + (sz - 1), \<lparr>r_base = base, r_delta = 0, r_entry = entry\<rparr>)]\<rparr>, True)
     else Some (SetMergeStrategy strat RangeMap_new, False))"
  by (subst StoreRange_def, subst StoreRangeInternal.simps)
    (auto simp: SetMergeStrategy_def RangeMap_new_def om_lower_bound_def geometry)

text \<open>With kTruncateLower, after a successful store the new entry is found from its base up to the
  first address that an older, higher range begins at or that the requested end allows. Below the base
  nothing changes but the sizes; above the new range only what a range cut at the new base covered is
  lost.\<close>

lemma RetrieveRange_after_store_truncate_lower:
  assumes "ranges_ok (rm_map m)" "merge_strategy m = kTruncateLower"
    and "StoreRange m base sz entry = Some (m', True)"
  shows "\<exists>h. new_high (rm_map m) base (base + (sz - 1)) h \<and>
    (\<forall>a. base \<le> a \<and> a \<le> h \<longrightarrow> RetrieveRange (rm_map m') a = Some (entry, base, 0, h - base + 1)) \<and>
    (\<forall>a. a < base \<longrightarrow> forget_size (RetrieveRange (rm_map m') a) = forget_size (RetrieveRange (rm_map m) a)) \<and>
    (\<forall>a. h < a \<longrightarrow> RetrieveRange (rm_map m') a =
       (if \<exists>p\<in>set (rm_map m). covers p base \<and> covers p a then None else RetrieveRange (rm_map m) a))"
  using lookup_lower [OF assms(1) StoreRange_cases(1) [OF assms(1,3), unfolded assms(2)]]
  by (auto simp: valid_range_def)

text \<open>With kTruncateUpper, after a successful store the new entry is found from a base that was moved
  up past the older ranges it overlaps, with the move as its delta; above its end every address still
  finds the same entry, at the same base less delta, and below its new base only what a range moved up
  covered is lost.\<close>

lemma RetrieveRange_after_store_truncate_upper:
  assumes "ranges_ok (rm_map m)" "merge_strategy m = kTruncateUpper"
    and "StoreRange m base sz entry = Some (m', True)"
  shows "\<exists>high b. high = base + (sz - 1) \<and> new_base (rm_map m) base high b \<and>
    (\<forall>a. b \<le> a \<and> a \<le> high \<longrightarrow> RetrieveRange (rm_map m') a = Some (entry, b, b - base, high - b + 1)) \<and>
    (\<forall>a. high < a \<longrightarrow> origin (RetrieveRange (rm_map m') a) = origin (RetrieveRange (rm_map m) a)) \<and>
    (\<forall>a. a < b \<longrightarrow> RetrieveRange (rm_map m') a =
       (if \<exists>p\<in>set (rm_map m). covers p high \<and> covers p a then None else RetrieveRange (rm_map m) a))"
proof -
  obtain high b where "valid_range base sz high \<and> new_base (rm_map m) base high b \<and>
    (\<forall>a. b \<le> a \<and> a \<le> high \<longrightarrow> RetrieveRange (rm_map m') a = Some (entry, b, 0 + (b - base), high - b + 1)) \<and>
    (\<forall>a. high < a \<longrightarrow> origin (RetrieveRange (rm_map m') a) = origin (RetrieveRange (rm_map m) a)) \<and>
    (\<forall>a. a < b \<longrightarrow> RetrieveRange (rm_map m') a =
       (if \<exists>p\<in>set (rm_map m). covers p high \<and> covers p a then None else RetrieveRange (rm_map m) a))"
    using lookup_upper [OF assms(1) StoreRange_cases(1) [OF assms(1,3), unfolded assms(2)]] by blast
  moreover from this have "high = base + (sz - 1)"
    by (simp add: valid_range_def)
  ultimately show ?thesis
    unfolding add_0 by blast
qed

text \<open>C2. What every lookup finds after a successful store, for each merge strategy. With exclusive ranges the
  new entry is found inside its range and all else is unchanged. With kTruncateLower it is found from
  its base up to the first address that an older, higher range begins at or that the requested end allows;
  below, nothing changes but the sizes, and above, only what a range cut at the new base covered is lost.
  With kTruncateUpper it is found from a base that was moved up past the older ranges it overlaps, with the
  move as its delta; above its end every address still finds the same entry, at the same base less delta,
  and below its new base only what a range moved up covered is lost.\<close>

theorem RetrieveRange_after_store:
  assumes "ranges_ok (rm_map m)" "StoreRange m base sz entry = Some (m', True)"
  shows "case merge_strategy m of
      kExclusiveRanges \<Rightarrow> \<forall>a. RetrieveRange (rm_map m') a =
        (if base \<le> a \<and> a \<le> base + (sz - 1) then Some (entry, base, 0, sz) else RetrieveRange (rm_map m) a)
    | kTruncateLower \<Rightarrow> \<exists>h. new_high (rm_map m) base (base + (sz - 1)) h \<and>
        (\<forall>a. base \<le> a \<and> a \<le> h \<longrightarrow> RetrieveRange (rm_map m') a = Some (entry, base, 0, h - base + 1)) \<and>
        (\<forall>a. a < base \<longrightarrow> forget_size (RetrieveRange (rm_map m') a) = forget_size (RetrieveRange (rm_map m) a)) \<and>
        (\<forall>a. h < a \<longrightarrow> RetrieveRange (rm_map m') a =
           (if \<exists>p\<in>set (rm_map m). covers p base \<and> covers p a then None else RetrieveRange (rm_map m) a))
    | kTruncateUpper \<Rightarrow> \<exists>high b. high = base + (sz - 1) \<and> new_base (rm_map m) base high b \<and>
        (\<forall>a. b \<le> a \<and> a \<le> high \<longrightarrow> RetrieveRange (rm_map m') a = Some (entry, b, b - base, high - b + 1)) \<and>
        (\<forall>a. high < a \<longrightarrow> origin (RetrieveRange (rm_map m') a) = origin (RetrieveRange (rm_map m) a)) \<and>
        (\<forall>a. a < b \<longrightarrow> RetrieveRange (rm_map m') a =
           (if \<exists>p\<in>set (rm_map m). covers p high \<and> covers p a then None else RetrieveRange (rm_map m) a))"
proof (cases "merge_strategy m")
  case kExclusiveRanges
  then show ?thesis
    using RetrieveRange_after_store_exclusive [OF assms(1) _ assms(2)] by simp
next
  case kTruncateLower
  then show ?thesis
    using RetrieveRange_after_store_truncate_lower [OF assms(1) _ assms(2)] by simp
next
  case kTruncateUpper
  then show ?thesis
    using RetrieveRange_after_store_truncate_upper [OF assms(1) _ assms(2)] by simp
qed

lemma RetrieveRange_after_store_witness:
  "RetrieveRange [(23, \<lparr>r_base = 16, r_delta = 0, r_entry = 3\<rparr>)] (17::64 word) = Some (3::nat, 16, 0, 8) \<and>
   (\<exists>h. new_high ([] :: (64, nat) range_omap) 16 23 h \<and>
     (\<forall>a. 16 \<le> a \<and> a \<le> h \<longrightarrow>
       RetrieveRange [(23, \<lparr>r_base = 16, r_delta = 0, r_entry = 3\<rparr>)] a = Some (3::nat, 16, 0, h - 16 + 1))) \<and>
   (\<exists>b. new_base ([] :: (64, nat) range_omap) 16 23 b \<and>
     (\<forall>a. b \<le> a \<and> a \<le> 23 \<longrightarrow>
       RetrieveRange [(23, \<lparr>r_base = 16, r_delta = 0, r_entry = 3\<rparr>)] a = Some (3::nat, b, b - 16, 23 - b + 1)))"
proof -
  note new = StoreRange_new [THEN trans, OF if_P]
  note simps = SetMergeStrategy_def RangeMap_new_def
  have "RetrieveRange [(23, \<lparr>r_base = 16, r_delta = 0, r_entry = 3\<rparr>)] (17::64 word) = Some (3::nat, 16, 0, 8)"
    using RetrieveRange_after_store [of "SetMergeStrategy kExclusiveRanges RangeMap_new" "16::64 word" 8 "3::nat", OF _ new] by (simp add: simps)
  moreover have "\<exists>h. new_high ([] :: (64, nat) range_omap) 16 23 h \<and>
     (\<forall>a. 16 \<le> a \<and> a \<le> h \<longrightarrow>
       RetrieveRange [(23, \<lparr>r_base = 16, r_delta = 0, r_entry = 3\<rparr>)] a = Some (3::nat, 16, 0, h - 16 + 1))"
    using RetrieveRange_after_store [of "SetMergeStrategy kTruncateLower RangeMap_new" "16::64 word" 8 "3::nat", OF _ new] by (auto simp: simps)
  moreover have "\<exists>b. new_base ([] :: (64, nat) range_omap) 16 23 b \<and>
     (\<forall>a. b \<le> a \<and> a \<le> 23 \<longrightarrow>
       RetrieveRange [(23, \<lparr>r_base = 16, r_delta = 0, r_entry = 3\<rparr>)] a = Some (3::nat, b, b - 16, 23 - b + 1))"
    using RetrieveRange_after_store [of "SetMergeStrategy kTruncateUpper RangeMap_new" "16::64 word" 8 "3::nat", OF _ new] by (auto simp: simps)
  ultimately show ?thesis
    by blast
qed

text \<open>The nearest range of an address is the range with the greatest high address among those whose
  base is not above the address, whether it covers the address or not; there is none exactly when
  every range begins above the address.\<close>

theorem RetrieveNearestRange_correct:
  assumes "ranges_ok m"
  shows "(\<forall>p\<in>set m. r_base (snd p) \<le> a \<and> (\<forall>q\<in>set m. r_base (snd q) \<le> a \<longrightarrow> fst q \<le> fst p) \<longrightarrow>
      RetrieveNearestRange m a = Some (range_result p)) \<and>
    (RetrieveNearestRange m a = None \<longleftrightarrow> (\<forall>p\<in>set m. a < r_base (snd p)))"
  using RetrieveNearestRange_some [OF assms] RetrieveNearestRange_none [OF assms] by blast

lemma RetrieveNearestRange_correct_witness:
  "RetrieveNearestRange [(23, \<lparr>r_base = 16, r_delta = 0, r_entry = 3\<rparr>)] (99::64 word) = Some (3::nat, 16, 0, 8)"
  using RetrieveNearestRange_correct [of "[(23, \<lparr>r_base = 16, r_delta = 0, r_entry = 3::nat\<rparr>)]" "99::64 word"]
  by (simp add: disjoint_by_def range_result_def)

end
