(* ===== verification/Contained_Range_Map.thy ===== *)
theory Contained_Range_Map
  imports Disjoint_Ranges "HOL-Library.Multiset"
begin

text \<open>
  processor/contained_range_map.h and contained_range_map-inl.h: a tree of nested address ranges.
  A node holds the base and the entry of its range and the \<open>std::map\<close> of its children, keyed by
  their high addresses; the root's own base and entry are meaningless. A \<open>NULL\<close> child map and an
  empty one are one value here: every operation of the class treats them alike.
  \<open>allow_equal_range_\<close> is the same in all nodes of a tree, so it is an argument.
\<close>

section \<open>State and operations\<close>

datatype ('a, 'e) ContainedRangeMap =
  CRM (crm_base: 'a) (crm_entry: 'e) (crm_map: "('a \<times> ('a, 'e) ContainedRangeMap) list")

lemma size_crm_child [termination_simp]:
  "i < length (crm_map t) \<Longrightarrow> size (snd (crm_map t ! i)) < size t"
proof (cases t)
  case (CRM b e m)
  assume i: "i < length (crm_map t)"
  then have "m ! i \<in> set m"
    using CRM by simp
  then have "size_prod (\<lambda>_. 0) size (m ! i) \<le> size_list (size_prod (\<lambda>_. 0) size) m"
    by (rule size_list_estimation') simp
  then show ?thesis
    using CRM by (cases "m ! i") simp
qed

definition CRM_new :: "('a::zero) \<Rightarrow> 'e \<Rightarrow> ('a, 'e) ContainedRangeMap" where
  "CRM_new base entry = CRM base entry []"

text \<open>The new node takes over the children between the two iterators.\<close>

definition crm_insert_node ::
  "('a::linorder, 'e) ContainedRangeMap \<Rightarrow> nat \<Rightarrow> nat \<Rightarrow> 'a \<Rightarrow> 'a \<Rightarrow> 'e \<Rightarrow> ('a, 'e) ContainedRangeMap" where
  "crm_insert_node t iterator_base iterator_high base high entry =
     (let m = crm_map t;
          child_map = drop iterator_base (take iterator_high m);
          rest = take iterator_base m @ drop iterator_high m
      in CRM (crm_base t) (crm_entry t) (om_insert high (CRM base entry child_map) rest))"

function CRM_StoreRange ::
  "bool \<Rightarrow> ('w::len word, 'e) ContainedRangeMap \<Rightarrow> 'w word \<Rightarrow> 'w word \<Rightarrow> 'e
   \<Rightarrow> ('w word, 'e) ContainedRangeMap \<times> bool" where
  "CRM_StoreRange allow_equal_range t base sz entry =
    (let high = base + sz - 1 in
     if sz \<le> 0 \<or> high < base then (t, False)
     else
       let m = crm_map t;
           iterator_base = om_lower_bound m base;
           iterator_high = om_lower_bound m high;
           iterator_end = length m
       in
       if iterator_base = iterator_high \<and> iterator_base \<noteq> iterator_end \<and>
          crm_base (snd (m ! iterator_base)) \<le> base then
         (if \<not> allow_equal_range \<and> crm_base (snd (m ! iterator_base)) = base \<and>
             fst (m ! iterator_base) = high then (t, False)
          else
            (let (child, ok) = CRM_StoreRange allow_equal_range (snd (m ! iterator_base)) base sz entry
             in (CRM (crm_base t) (crm_entry t) (m[iterator_base := (fst (m ! iterator_base), child)]), ok)))
       else
         let contains_high = iterator_high \<noteq> iterator_end \<and> crm_base (snd (m ! iterator_high)) \<le> high in
         if (iterator_base \<noteq> iterator_end \<and> crm_base (snd (m ! iterator_base)) < base) \<or>
            (contains_high \<and> high < fst (m ! iterator_high)) then (t, False)
         else
           let iterator_high' = (if contains_high then Suc iterator_high else iterator_high) in
           (crm_insert_node t iterator_base iterator_high' base high entry, True))"
  by pat_completeness auto
termination
  by (relation "measure (\<lambda>(a, t, b, s, e). size t)")
    (auto intro!: size_crm_child le_neq_implies_less)

declare CRM_StoreRange.simps [simp del]

text \<open>
  \<open>RetrieveRanges\<close> pushes the entries from the innermost range to the outermost one; its boolean is
  whether it pushed any.
\<close>

function CRM_RetrieveRange :: "('a::linorder, 'e) ContainedRangeMap \<Rightarrow> 'a \<Rightarrow> 'e option" where
  "CRM_RetrieveRange t address =
     (let m = crm_map t; iterator = om_lower_bound m address in
      if iterator = length m \<or> address < crm_base (snd (m ! iterator)) then None
      else case CRM_RetrieveRange (snd (m ! iterator)) address of
             Some entry \<Rightarrow> Some entry
           | None \<Rightarrow> Some (crm_entry (snd (m ! iterator))))"
  by pat_completeness auto
termination
  by (relation "measure (\<lambda>(t, a). size t)") (auto intro!: size_crm_child le_neq_implies_less)

declare CRM_RetrieveRange.simps [simp del]

function CRM_RetrieveRanges :: "('a::linorder, 'e) ContainedRangeMap \<Rightarrow> 'a \<Rightarrow> 'e list" where
  "CRM_RetrieveRanges t address =
     (let m = crm_map t; iterator = om_lower_bound m address in
      if iterator = length m \<or> address < crm_base (snd (m ! iterator)) then []
      else CRM_RetrieveRanges (snd (m ! iterator)) address @ [crm_entry (snd (m ! iterator))])"
  by pat_completeness auto
termination
  by (relation "measure (\<lambda>(t, a). size t)") (auto intro!: size_crm_child le_neq_implies_less)

declare CRM_RetrieveRanges.simps [simp del]

definition CRM_Clear :: "('a, 'e) ContainedRangeMap \<Rightarrow> ('a, 'e) ContainedRangeMap" where
  "CRM_Clear t = CRM (crm_base t) (crm_entry t) []"


section \<open>Abstraction and invariant\<close>

text \<open>
  All ranges of a tree below its root, a range before the ranges nested in it, and the invariant:
  the children of a node are disjoint, and what is below a child lies within it (and is not the
  same range again, unless equal ranges are allowed).
\<close>

lemma size_crm_mem [termination_simp]: "p \<in> set (crm_map t) \<Longrightarrow> size (snd p) < size t"
  using size_crm_child [of _ t] by (metis in_set_conv_nth)

function crm_ranges :: "('a, 'e) ContainedRangeMap \<Rightarrow> ('a \<times> 'a \<times> 'e) list" where
  "crm_ranges t = concat (map (\<lambda>p. (crm_base (snd p), fst p, crm_entry (snd p)) # crm_ranges (snd p)) (crm_map t))"
  by pat_completeness auto
termination
  by (relation "measure size") (auto simp: size_crm_mem)

declare crm_ranges.simps [simp del]

definition same_range :: "'a \<times> 'a \<times> 'e \<Rightarrow> 'a \<Rightarrow> 'a \<Rightarrow> bool" where
  "same_range r base high \<longleftrightarrow> fst r = base \<and> fst (snd r) = high"

definition range_within :: "'a::linorder \<times> 'a \<times> 'e \<Rightarrow> 'a \<Rightarrow> 'a \<Rightarrow> bool" where
  "range_within r base high \<longleftrightarrow> base \<le> fst r \<and> fst (snd r) \<le> high"

function crm_ok :: "bool \<Rightarrow> ('a::linorder, 'e) ContainedRangeMap \<Rightarrow> bool" where
  "crm_ok allow t \<longleftrightarrow> disjoint_by crm_base (crm_map t) \<and>
     (\<forall>p\<in>set (crm_map t). crm_ok allow (snd p) \<and>
       (\<forall>r\<in>set (crm_ranges (snd p)). range_within r (crm_base (snd p)) (fst p) \<and>
          (allow \<or> \<not> same_range r (crm_base (snd p)) (fst p))))"
  by pat_completeness auto
termination
  by (relation "measure (\<lambda>(a, t). size t)") (auto simp: size_crm_mem)

declare crm_ok.simps [simp del]

lemma set_crm_ranges:
  "set (crm_ranges t) = (\<Union>p\<in>set (crm_map t).
     insert (crm_base (snd p), fst p, crm_entry (snd p)) (set (crm_ranges (snd p))))"
  by (subst crm_ranges.simps) auto

lemma mset_crm_ranges:
  "mset (crm_ranges t) = (\<Sum>p\<in>#mset (crm_map t).
     add_mset (crm_base (snd p), fst p, crm_entry (snd p)) (mset (crm_ranges (snd p))))"
  by (subst crm_ranges.simps) (simp add: mset_concat comp_def flip: sum_mset_sum_list)

lemma crm_okD:
  assumes "crm_ok allow t"
  shows "disjoint_by crm_base (crm_map t)"
    and "p \<in> set (crm_map t) \<Longrightarrow> crm_ok allow (snd p)"
    and "p \<in> set (crm_map t) \<Longrightarrow> r \<in> set (crm_ranges (snd p)) \<Longrightarrow> range_within r (crm_base (snd p)) (fst p)"
    and "p \<in> set (crm_map t) \<Longrightarrow> r \<in> set (crm_ranges (snd p)) \<Longrightarrow> allow \<or> \<not> same_range r (crm_base (snd p)) (fst p)"
  using assms by (auto simp: crm_ok.simps [of allow t])

text \<open>A new range is compatible with an old one when they are disjoint or nested, and not equal.\<close>

definition compatible :: "bool \<Rightarrow> 'a::linorder \<Rightarrow> 'a \<Rightarrow> 'a \<times> 'a \<times> 'e \<Rightarrow> bool" where
  "compatible allow base high r \<longleftrightarrow>
     fst (snd r) < base \<or> high < fst r \<or>
     (range_within r base high \<or> fst r \<le> base \<and> high \<le> fst (snd r)) \<and>
       (allow \<or> \<not> same_range r base high)"

definition in_range :: "'a::linorder \<Rightarrow> 'a \<times> 'a \<times> 'e \<Rightarrow> bool" where
  "in_range a r \<longleftrightarrow> fst r \<le> a \<and> a \<le> fst (snd r)"

section \<open>Retrieval\<close>

lemma filter_concat_single:
  assumes "distinct m" "p \<in> set m" "\<And>q. q \<in> set m \<Longrightarrow> q \<noteq> p \<Longrightarrow> filter P (f q) = []"
  shows "filter P (concat (map f m)) = filter P (f p)"
  using assms
proof (induction m)
  case (Cons q m)
  have "filter P (concat (map f m)) = []" if "p \<notin> set m"
    using Cons.prems(3) that by (auto simp: filter_empty_conv)
  with Cons show ?case
    by (cases "q = p") auto
qed simp

lemma crm_filter_none:
  assumes "crm_ok allow t" "p \<in> set (crm_map t)" "\<not> covered_by crm_base p a"
  shows "filter (in_range a) ((crm_base (snd p), fst p, crm_entry (snd p)) # crm_ranges (snd p)) = []"
  using assms crm_okD(3) [OF assms(1,2)]
  by (auto simp: filter_empty_conv in_range_def covered_by_def range_within_def) (meson order.trans)+

lemma crm_filter_ranges:
  assumes ok: "crm_ok allow t"
  shows "filter (in_range a) (crm_ranges t) = (case find_covering crm_base (crm_map t) a of
      None \<Rightarrow> []
    | Some p \<Rightarrow> (crm_base (snd p), fst p, crm_entry (snd p)) # filter (in_range a) (crm_ranges (snd p)))"
proof (cases "find_covering crm_base (crm_map t) a")
  case None
  then have "filter (in_range a) ((crm_base (snd p), fst p, crm_entry (snd p)) # crm_ranges (snd p)) = []"
    if "p \<in> set (crm_map t)" for p
    using that crm_filter_none [OF ok that] by (simp only: find_covering_None [OF crm_okD(1) [OF ok]]) blast
  then show ?thesis
    using None by (subst crm_ranges.simps) (auto simp: filter_concat comp_def filter_empty_conv)
next
  case (Some p)
  then have p: "p \<in> set (crm_map t)" "covered_by crm_base p a"
    by (auto simp: find_covering_iff [OF crm_okD(1) [OF ok]])
  have "distinct (crm_map t)"
    using om_sorted_distinct [OF disjoint_byD(1) [OF crm_okD(1) [OF ok]]] by (simp add: distinct_map)
  moreover have "filter (in_range a) ((crm_base (snd q), fst q, crm_entry (snd q)) # crm_ranges (snd q)) = []"
    if "q \<in> set (crm_map t)" "q \<noteq> p" for q
    by (rule crm_filter_none [OF ok that(1)])
      (use covered_by_unique [OF crm_okD(1) [OF ok] that(1) p(1) _ p(2)] that(2) in blast)
  ultimately have "filter (in_range a) (crm_ranges t) =
      filter (in_range a) ((crm_base (snd p), fst p, crm_entry (snd p)) # crm_ranges (snd p))"
    by (subst crm_ranges.simps) (rule filter_concat_single [OF _ p(1)])
  also have "\<dots> = (crm_base (snd p), fst p, crm_entry (snd p)) # filter (in_range a) (crm_ranges (snd p))"
    using p(2) by (simp add: in_range_def covered_by_def)
  finally show ?thesis
    using Some by simp
qed

lemma CRM_RetrieveRanges_unfold:
  "CRM_RetrieveRanges t a = (case find_covering crm_base (crm_map t) a of
     None \<Rightarrow> [] | Some p \<Rightarrow> CRM_RetrieveRanges (snd p) a @ [crm_entry (snd p)])"
  by (subst CRM_RetrieveRanges.simps) (auto simp: find_covering_def Let_def)

lemma CRM_RetrieveRange_unfold:
  "CRM_RetrieveRange t a = (case find_covering crm_base (crm_map t) a of
     None \<Rightarrow> None
   | Some p \<Rightarrow> (case CRM_RetrieveRange (snd p) a of Some e \<Rightarrow> Some e | None \<Rightarrow> Some (crm_entry (snd p))))"
  by (subst CRM_RetrieveRange.simps) (auto simp: find_covering_def Let_def)

text \<open>Induction along the path of nodes that cover an address.\<close>

lemma crm_path_induct:
  assumes "crm_ok allow t"
    and "\<And>t. crm_ok allow t \<Longrightarrow> (\<And>p. find_covering crm_base (crm_map t) a = Some p \<Longrightarrow> P (snd p)) \<Longrightarrow> P t"
  shows "P t"
  using assms(1)
proof (induction "size t" arbitrary: t rule: less_induct)
  case less
  show ?case
  proof (rule assms(2) [OF less.prems])
    fix p assume "find_covering crm_base (crm_map t) a = Some p"
    then have p: "p \<in> set (crm_map t)"
      by (simp add: find_covering_iff [OF crm_okD(1) [OF less.prems]])
    show "P (snd p)"
      by (rule less.hyps [OF size_crm_mem [OF p] crm_okD(2) [OF less.prems p]])
  qed
qed

lemma RetrieveRanges_eq:
  assumes "crm_ok allow t"
  shows "CRM_RetrieveRanges t a = rev (map (snd \<circ> snd) (filter (in_range a) (crm_ranges t)))"
  using assms
proof (rule crm_path_induct)
  fix t assume ok: "crm_ok allow t"
    and IH: "\<And>p. find_covering crm_base (crm_map t) a = Some p \<Longrightarrow>
      CRM_RetrieveRanges (snd p) a = rev (map (snd \<circ> snd) (filter (in_range a) (crm_ranges (snd p))))"
  show "CRM_RetrieveRanges t a = rev (map (snd \<circ> snd) (filter (in_range a) (crm_ranges t)))"
    by (subst CRM_RetrieveRanges_unfold, subst crm_filter_ranges [OF ok])
      (auto simp: IH split: option.splits)
qed

lemma RetrieveRange_eq_first:
  assumes "crm_ok allow t"
  shows "CRM_RetrieveRange t a = (case CRM_RetrieveRanges t a of [] \<Rightarrow> None | e # es \<Rightarrow> Some e)"
  using assms
proof (rule crm_path_induct)
  fix t :: "('a, 'b) ContainedRangeMap"
  assume IH: "\<And>p. find_covering crm_base (crm_map t) a = Some p \<Longrightarrow>
      CRM_RetrieveRange (snd p) a = (case CRM_RetrieveRanges (snd p) a of [] \<Rightarrow> None | e # es \<Rightarrow> Some e)"
  show "CRM_RetrieveRange t a = (case CRM_RetrieveRanges t a of [] \<Rightarrow> None | e # es \<Rightarrow> Some e)"
    by (subst CRM_RetrieveRange_unfold, subst CRM_RetrieveRanges_unfold)
      (auto simp: IH split: option.splits list.splits)
qed

lemma covering_ranges_nested:
  assumes "crm_ok allow t"
  shows "sorted_wrt (\<lambda>outer inner. range_within inner (fst outer) (fst (snd outer)))
    (filter (in_range a) (crm_ranges t))"
  using assms
proof (rule crm_path_induct)
  fix t assume ok: "crm_ok allow t"
    and IH: "\<And>p. find_covering crm_base (crm_map t) a = Some p \<Longrightarrow>
      sorted_wrt (\<lambda>outer inner. range_within inner (fst outer) (fst (snd outer)))
        (filter (in_range a) (crm_ranges (snd p)))"
  show "sorted_wrt (\<lambda>outer inner. range_within inner (fst outer) (fst (snd outer)))
    (filter (in_range a) (crm_ranges t))"
  proof (cases "find_covering crm_base (crm_map t) a")
    case (Some p)
    then have "p \<in> set (crm_map t)"
      by (simp add: find_covering_iff [OF crm_okD(1) [OF ok]])
    then show ?thesis
      using IH [OF Some] crm_okD(3) [OF ok] by (simp add: crm_filter_ranges [OF ok] Some)
  qed (simp add: crm_filter_ranges [OF ok])
qed


section \<open>Storing\<close>

lemma mset_om_insert:
  "k \<notin> fst ` set m \<Longrightarrow> mset (om_insert k v m) = add_mset (k, v) (mset m)"
  by (induction k v m rule: om_insert.induct) auto

text \<open>
  Where the searches of an accepted range fall: the children before, within and after it. The
  premises are what the code has checked when it gets to the insertion.
\<close>

definition crm_fits :: "('a::linorder, 'e) ContainedRangeMap \<Rightarrow> 'a \<Rightarrow> 'a \<Rightarrow> nat \<Rightarrow> nat \<Rightarrow> bool" where
  "crm_fits t base high ib ih \<longleftrightarrow> (let m = crm_map t in
     ib \<le> ih \<and> ih \<le> length m \<and>
     (\<forall>p\<in>set (take ib m). fst p < base) \<and>
     (\<forall>p\<in>set (drop ib (take ih m)). base \<le> crm_base (snd p) \<and> fst p \<le> high \<and>
        \<not> (crm_base (snd p) = base \<and> fst p = high)) \<and>
     (\<forall>p\<in>set (drop ih m). high < crm_base (snd p)))"

lemma om_lower_bound_mono: "om_sorted m \<Longrightarrow> a \<le> b \<Longrightarrow> om_lower_bound m a \<le> om_lower_bound m b"
  using om_lower_bound_before [of "om_lower_bound m b" m a] om_lower_bound_at [of m b]
    om_lower_bound_le [of m a]
  by (rule_tac ccontr) (auto simp del: om_lower_bound_le)

lemma set_take_nth: "p \<in> set (take n xs) \<Longrightarrow> \<exists>i. i < n \<and> i < length xs \<and> p = xs ! i"
  by (auto simp: in_set_conv_nth)

lemma set_drop_nth: "p \<in> set (drop n xs) \<Longrightarrow> \<exists>i. n \<le> i \<and> i < length xs \<and> p = xs ! i"
  by (auto simp: in_set_conv_nth) (metis add.commute le_add2 less_diff_conv nth_drop)

lemma disjoint_by_nth:
  assumes "disjoint_by bs m" "i < j" "j < length m"
  shows "fst (m ! i) < bs (snd (m ! j))"
  using assms disjoint_byD(3) [OF assms(1), of "m ! i" "m ! j"]
    om_sorted_nth_mono [OF disjoint_byD(1) [OF assms(1)]] by simp

lemma crm_fits_bounds:
  assumes ok: "disjoint_by crm_base (crm_map t)" and le: "base \<le> high"
    and ib: "ib = om_lower_bound (crm_map t) base" and ih: "ih = om_lower_bound (crm_map t) high"
    and ch: "ch \<longleftrightarrow> ih \<noteq> length (crm_map t) \<and> crm_base (snd (crm_map t ! ih)) \<le> high"
    and low: "\<not> (ib \<noteq> length (crm_map t) \<and> crm_base (snd (crm_map t ! ib)) < base)"
    and up: "\<not> (ch \<and> high < fst (crm_map t ! ih))"
    and out: "\<not> (ib = ih \<and> ib \<noteq> length (crm_map t) \<and> crm_base (snd (crm_map t ! ib)) \<le> base)"
  shows "crm_fits t base high ib (if ch then Suc ih else ih)"
proof -
  let ?m = "crm_map t" and ?ih = "if ch then Suc ih else ih"
  have le_ih: "ib \<le> ih" "ih \<le> length ?m"
    using om_lower_bound_mono [OF disjoint_byD(1) [OF ok] le] ib ih by auto
  have ch_lt: "ch \<Longrightarrow> ih < length ?m"
    using le_ih ch by auto
  have A: "fst p < base" if "p \<in> set (take ib ?m)" for p
    using set_take_nth [OF that] om_lower_bound_before ib by auto
  have B: "base \<le> crm_base (snd p) \<and> fst p \<le> high \<and> \<not> (crm_base (snd p) = base \<and> fst p = high)"
    if mem: "p \<in> set (drop ib (take ?ih ?m))" for p
  proof -
    obtain j where j: "ib \<le> j" "j < ?ih" "j < length ?m" "p = ?m ! j"
      using set_drop_nth [OF mem] by auto
    have kb: "base \<le> fst (?m ! ib)"
      using om_lower_bound_at [of ?m base] j ib by simp
    have "base \<le> crm_base (snd p)"
      using low j kb disjoint_by_nth [OF ok, of ib j] by (cases "j = ib") auto
    moreover have "fst p \<le> high"
    proof (cases "j < ih")
      case True
      then show ?thesis
        using om_lower_bound_before [of j ?m high] ih j by simp
    next
      case False
      then show ?thesis
        using j up by (auto split: if_splits simp: less_Suc_eq)
    qed
    moreover have False if eq: "crm_base (snd p) = base" "fst p = high"
    proof -
      have "\<not> j < ih"
        using om_lower_bound_before [of j ?m high] ih j eq by auto
      then have "j = ih"
        using j by (auto split: if_splits)
      then show False
        using out j eq kb disjoint_by_nth [OF ok, of ib ih] by (cases "ib = ih") auto
    qed
    ultimately show ?thesis by blast
  qed
  have C: "high < crm_base (snd p)" if mem: "p \<in> set (drop ?ih ?m)" for p
  proof -
    obtain j where j: "?ih \<le> j" "j < length ?m" "p = ?m ! j"
      using set_drop_nth [OF mem] by auto
    have at: "high \<le> fst (?m ! ih)"
      using om_lower_bound_at [of ?m high] ih j by (auto split: if_splits)
    show ?thesis
    proof (cases "j = ih")
      case True
      then show ?thesis
        using j ch by (auto split: if_splits)
    next
      case False
      then have less: "ih < j" using j by (auto split: if_splits)
      then show ?thesis
        using disjoint_by_nth [OF ok less j(2)] at j by simp
    qed
  qed
  show ?thesis
    using A B C le_ih ch_lt by (simp add: crm_fits_def Let_def Suc_le_eq)
qed

lemma crm_child_within:
  assumes "crm_ok allow t" "p \<in> set (crm_map t)"
    and "r = (crm_base (snd p), fst p, crm_entry (snd p)) \<or> r \<in> set (crm_ranges (snd p))"
  shows "range_within r (crm_base (snd p)) (fst p)"
  using assms(3) by (elim disjE) (simp add: range_within_def, rule crm_okD(3) [OF assms(1,2)])

text \<open>What a store promises: with the new range when it succeeds, and no change when it fails.\<close>

definition store_spec ::
  "bool \<Rightarrow> ('a::linorder, 'e) ContainedRangeMap \<Rightarrow> 'a \<Rightarrow> 'a \<Rightarrow> 'e \<Rightarrow> ('a, 'e) ContainedRangeMap \<times> bool \<Rightarrow> bool" where
  "store_spec allow t base high entry res \<longleftrightarrow>
     crm_ok allow (fst res) \<and> crm_base (fst res) = crm_base t \<and> crm_entry (fst res) = crm_entry t \<and>
     (if snd res then
        mset (crm_ranges (fst res)) = add_mset (base, high, entry) (mset (crm_ranges t)) \<and>
        (\<forall>r\<in>set (crm_ranges t). compatible allow base high r)
      else fst res = t \<and> (\<exists>r\<in>set (crm_ranges t). \<not> compatible allow base high r))"

lemma crm_ranges_le: "crm_ok allow t \<Longrightarrow> r \<in> set (crm_ranges t) \<Longrightarrow> fst r \<le> fst (snd r)"
proof (induction "size t" arbitrary: t rule: less_induct)
  case less
  obtain p where p: "p \<in> set (crm_map t)"
    and r: "r = (crm_base (snd p), fst p, crm_entry (snd p)) \<or> r \<in> set (crm_ranges (snd p))"
    using less.prems(2) by (auto simp: set_crm_ranges [of t])
  then show ?case
    using less.hyps [OF size_crm_mem [OF p] crm_okD(2) [OF less.prems(1) p]]
      disjoint_byD(2) [OF crm_okD(1) [OF less.prems(1)] p] by auto
qed

lemma insert_node_ranges:
  assumes "crm_fits t base high ib ih" "base \<le> high" "crm_ok allow t"
  shows "mset (crm_ranges (crm_insert_node t ib ih base high entry)) =
    add_mset (base, high, entry) (mset (crm_ranges t))"
    and "disjoint_by crm_base (crm_map (crm_insert_node t ib ih base high entry))"
    and "set (crm_map (crm_insert_node t ib ih base high entry)) =
      insert (high, CRM base entry (drop ib (take ih (crm_map t)))) (set (take ib (crm_map t)) \<union> set (drop ih (crm_map t)))"
proof -
  let ?m = "crm_map t" and ?new = "CRM base entry (drop ib (take ih (crm_map t)))"
  let ?rest = "take ib ?m @ drop ih ?m"
  note f = assms(1) [unfolded crm_fits_def Let_def]
  have eq: "?m = take ib ?m @ drop ib (take ih ?m) @ drop ih ?m"
    using f by (metis append_assoc append_take_drop_id min.absorb1 take_take)
  have sub: "set ?rest \<subseteq> set ?m"
    by (auto dest: in_set_takeD in_set_dropD)
  have "om_sorted (take ib ?m @ drop ib (take ih ?m) @ drop ih ?m)"
    using eq disjoint_byD(1) [OF crm_okD(1) [OF assms(3)]] by simp
  then have "om_sorted ?rest"
    by (auto simp: om_sorted_append)
  then have rest: "disjoint_by crm_base ?rest"
    by (rule disjoint_by_subset [OF crm_okD(1) [OF assms(3)] _ sub])
  have free: "fst p < crm_base ?new \<or> high < crm_base (snd p)" if "p \<in> set ?rest" for p
    using f that by auto
  have bn: "crm_base ?new \<le> high"
    using assms(2) by simp
  note ins = disjoint_by_insert [OF rest bn free]
  have map_eq: "crm_map (crm_insert_node t ib ih base high entry) = om_insert high ?new ?rest"
    by (simp add: crm_insert_node_def Let_def)
  show "disjoint_by crm_base (crm_map (crm_insert_node t ib ih base high entry))"
    "set (crm_map (crm_insert_node t ib ih base high entry)) = insert (high, ?new) (set (take ib ?m) \<union> set (drop ih ?m))"
    using ins map_eq by auto
  have key: "high \<notin> fst ` set ?rest"
    using free bn disjoint_byD(2) [OF rest] by fastforce
  have "mset ?m = mset (take ib ?m) + mset (drop ib (take ih ?m)) + mset (drop ih ?m)"
    by (metis add.assoc eq mset_append)
  then show "mset (crm_ranges (crm_insert_node t ib ih base high entry)) =
      add_mset (base, high, entry) (mset (crm_ranges t))"
    unfolding mset_crm_ranges [of t] mset_crm_ranges [of "crm_insert_node t ib ih base high entry"]
      map_eq mset_om_insert [OF key]
    by (simp add: mset_crm_ranges [of ?new] ac_simps)
qed


lemma insert_node_spec:
  assumes fits: "crm_fits t base high ib ih" and le: "base \<le> high" and ok: "crm_ok allow t"
  shows "store_spec allow t base high entry (crm_insert_node t ib ih base high entry, True)"
proof -
  let ?m = "crm_map t" and ?new = "CRM base entry (drop ib (take ih (crm_map t)))"
    and ?t = "crm_insert_node t ib ih base high entry"
  note f = fits [unfolded crm_fits_def Let_def]
  note ins = insert_node_ranges [OF fits le ok, of entry]
  have sub: "set (drop ib (take ih ?m)) \<subseteq> set ?m"
    by (auto dest: in_set_takeD in_set_dropD)
  have inner: "range_within r base high \<and> \<not> same_range r base high"
    if "r \<in> set (crm_ranges ?new)" for r
  proof -
    obtain p where p: "p \<in> set (drop ib (take ih ?m))"
      and r: "r = (crm_base (snd p), fst p, crm_entry (snd p)) \<or> r \<in> set (crm_ranges (snd p))"
      using \<open>r \<in> set (crm_ranges ?new)\<close> by (auto simp: set_crm_ranges [of ?new])
    have "base \<le> crm_base (snd p)" "fst p \<le> high" "\<not> (crm_base (snd p) = base \<and> fst p = high)"
      using f p by auto
    moreover have "range_within r (crm_base (snd p)) (fst p)"
      using r crm_okD(3) [OF ok, of p r] p sub by (auto simp: range_within_def)
    ultimately show ?thesis
      by (auto simp: range_within_def same_range_def)
  qed
  have sorted_B: "om_sorted (drop ib (take ih ?m))"
    using disjoint_byD(1) [OF crm_okD(1) [OF ok]] by (metis append_take_drop_id om_sorted_append)
  have new_ok: "crm_ok allow ?new"
    using disjoint_by_subset [OF crm_okD(1) [OF ok] sorted_B sub] crm_okD(2-4) [OF ok] sub
    by (subst crm_ok.simps) auto
  have t_ok: "crm_ok allow ?t"
    using ins(2) new_ok inner crm_okD(2-4) [OF ok]
    by (subst crm_ok.simps) (auto simp: ins(3) dest: in_set_takeD in_set_dropD)
  have compat: "compatible allow base high r" if "r \<in> set (crm_ranges t)" for r
  proof -
    obtain p where p: "p \<in> set ?m"
      and r: "r = (crm_base (snd p), fst p, crm_entry (snd p)) \<or> r \<in> set (crm_ranges (snd p))"
      using \<open>r \<in> set (crm_ranges t)\<close> by (auto simp: set_crm_ranges [of t])
    note w = crm_child_within [OF ok p r]
    have "?m = take ib ?m @ drop ib (take ih ?m) @ drop ih ?m"
      using f by (metis append_assoc append_take_drop_id min.absorb1 take_take)
    then have "p \<in> set (take ib ?m) \<or> p \<in> set (drop ib (take ih ?m)) \<or> p \<in> set (drop ih ?m)"
      using p by (metis Un_iff set_append)
    then show ?thesis
    proof (elim disjE)
      assume B: "p \<in> set (drop ib (take ih ?m))"
      then have "r \<in> set (crm_ranges ?new)"
        using r by (auto simp: set_crm_ranges [of ?new])
      then show ?thesis
        using inner by (auto simp: compatible_def)
    next
      assume "p \<in> set (take ib ?m)"
      then have "fst p < base" using f by blast
      then show ?thesis
        using w by (auto simp: compatible_def range_within_def)
    next
      assume "p \<in> set (drop ih ?m)"
      then have "high < crm_base (snd p)" using f by blast
      then show ?thesis
        using w by (auto simp: compatible_def range_within_def)
    qed
  qed
  show ?thesis
    using t_ok ins(1) compat by (auto simp: store_spec_def crm_insert_node_def Let_def)
qed

text \<open>Storing in a child that contains the new range.\<close>

lemma store_child_spec:
  assumes ok: "crm_ok allow t" and i: "i < length (crm_map t)" and le: "base \<le> high"
    and p: "p = crm_map t ! i" "crm_base (snd p) \<le> base" "high \<le> fst p"
    and neq: "allow \<or> \<not> (crm_base (snd p) = base \<and> fst p = high)"
    and spec: "store_spec allow (snd p) base high entry (c, stored)"
  shows "store_spec allow t base high entry
    (CRM (crm_base t) (crm_entry t) ((crm_map t)[i := (fst p, c)]), stored)"
proof -
  let ?m = "crm_map t" and ?t = "CRM (crm_base t) (crm_entry t) ((crm_map t)[i := (fst p, c)])"
  let ?f = "\<lambda>p. add_mset (crm_base (snd p), fst p, crm_entry (snd p)) (mset (crm_ranges (snd p)))"
  note sp = spec [unfolded store_spec_def]
  have mem: "p \<in> set ?m" using i p(1) by simp
  have bs: "crm_base c = crm_base (snd p)" "crm_entry c = crm_entry (snd p)" "crm_ok allow c"
    using sp by auto
  have others: "fst q < base \<or> high < crm_base (snd q)" if "q \<in> set ?m - {p}" for q
    using disjoint_by_others [OF crm_okD(1) [OF ok] mem that] p(2,3) by auto
  have "distinct ?m"
    using om_sorted_distinct [OF disjoint_byD(1) [OF crm_okD(1) [OF ok]]] by (simp add: distinct_map)
  then have set_eq: "set (crm_map ?t) = insert (fst p, c) (set ?m - {p})"
    using set_update_distinct [OF _ i, of "(fst p, c)"] p(1) by simp
  have "map fst (crm_map ?t) = map fst ?m"
    using i p(1) by (simp add: map_update list_update_same_conv)
  then have dis: "disjoint_by crm_base (crm_map ?t)"
    using crm_okD(1) [OF ok] mem bs(1) unfolding disjoint_by_def set_eq
    by (auto simp: om_sorted_def)
  have rest: "mset (crm_ranges ?t) + mset (crm_ranges (snd p)) = mset (crm_ranges t) + mset (crm_ranges c)"
  proof -
    have t': "mset (crm_map ?t) = add_mset (fst p, c) (mset ?m - {#p#})"
      using i p(1) by (simp add: mset_update)
    have t: "mset ?m = add_mset p (mset ?m - {#p#})"
      using mem by simp
    let ?F = "\<Sum>p\<in>#mset ?m - {#p#}. ?f p"
    have "mset (crm_ranges ?t) = ?f (fst p, c) + ?F"
      by (simp only: mset_crm_ranges [of ?t] t' image_mset_add_mset sum_mset.add_mset)
    moreover have "mset (crm_ranges t) = ?f p + ?F"
      by (subst mset_crm_ranges, subst t) (simp only: image_mset_add_mset sum_mset.add_mset)
    ultimately show ?thesis
      using bs by simp
  qed
  have sub: "set (crm_ranges (snd p)) \<subseteq> set (crm_ranges t)"
    using mem by (auto simp: set_crm_ranges [of t])
  show ?thesis
  proof (cases stored)
    case True
    then have mset_c: "mset (crm_ranges c) = add_mset (base, high, entry) (mset (crm_ranges (snd p)))"
      and compat: "\<forall>r\<in>set (crm_ranges (snd p)). compatible allow base high r"
      using sp by auto
    have inner: "range_within r (crm_base (snd p)) (fst p) \<and> (allow \<or> \<not> same_range r (crm_base (snd p)) (fst p))"
      if "r \<in> set (crm_ranges c)" for r
    proof -
      have "r = (base, high, entry) \<or> r \<in> set (crm_ranges (snd p))"
        using that mset_c by (metis insertE set_mset_add_mset_insert set_mset_mset)
      then show ?thesis
        using p(2,3) neq crm_okD(3,4) [OF ok mem, of r] by (auto simp: range_within_def same_range_def)
    qed
    have "crm_ok allow ?t"
      unfolding crm_ok.simps [of allow ?t] set_eq
      using dis bs inner crm_okD(2-4) [OF ok] by simp
    moreover have "mset (crm_ranges ?t) = add_mset (base, high, entry) (mset (crm_ranges t))"
      using rest mset_c by simp
    moreover have "compatible allow base high r" if r_in: "r \<in> set (crm_ranges t)" for r
    proof -
      obtain q where q: "q \<in> set ?m"
        and r: "r = (crm_base (snd q), fst q, crm_entry (snd q)) \<or> r \<in> set (crm_ranges (snd q))"
        using r_in by (auto simp: set_crm_ranges [of t])
      show ?thesis
      proof (cases "q = p")
        case True
        then show ?thesis
          using r compat p(2,3) neq by (auto simp: compatible_def same_range_def)
      next
        case False
        then show ?thesis
          using others [of q] q crm_child_within [OF ok q r] by (auto simp: compatible_def range_within_def)
      qed
    qed
    ultimately show ?thesis
      using True by (simp add: store_spec_def)
  next
    case False
    then have c: "c = snd p" and r: "\<exists>r\<in>set (crm_ranges (snd p)). \<not> compatible allow base high r"
      using sp by auto
    have "?t = t"
      using c p(1) by (cases t) simp
    then show ?thesis
      using False r sub ok by (auto simp: store_spec_def)
  qed
qed


text \<open>Rejections other than by a child.\<close>

lemma crm_reject_partial:
  assumes ok: "crm_ok allow t" and le: "base \<le> high"
    and ib: "ib = om_lower_bound (crm_map t) base" and ih: "ih = om_lower_bound (crm_map t) high"
    and out: "\<not> (ib = ih \<and> ib \<noteq> length (crm_map t) \<and> crm_base (snd (crm_map t ! ib)) \<le> base)"
    and rej: "ib \<noteq> length (crm_map t) \<and> crm_base (snd (crm_map t ! ib)) < base \<or>
      ih \<noteq> length (crm_map t) \<and> crm_base (snd (crm_map t ! ih)) \<le> high \<and> high < fst (crm_map t ! ih)"
  shows "\<exists>r\<in>set (crm_ranges t). \<not> compatible allow base high r"
proof -
  let ?m = "crm_map t"
  note dis = crm_okD(1) [OF ok]
  have le_ih: "ib \<le> ih"
    using om_lower_bound_mono [OF disjoint_byD(1) [OF dis] le] ib ih by simp
  have "\<exists>i<length ?m. \<not> compatible allow base high (crm_base (snd (?m ! i)), fst (?m ! i), crm_entry (snd (?m ! i)))"
    using rej
  proof
    assume low: "ib \<noteq> length ?m \<and> crm_base (snd (?m ! ib)) < base"
    then have i: "ib < length ?m" "ib \<noteq> ih"
      using ib out le_neq_implies_less [OF om_lower_bound_le] by auto
    then have "base \<le> fst (?m ! ib)" "fst (?m ! ib) < high"
      using om_lower_bound_at [of ?m base] om_lower_bound_before [of ib ?m high] le_ih ib ih by auto
    then show ?thesis
      using i(1) low by (auto simp: compatible_def range_within_def intro!: exI [of _ ib])
  next
    assume up: "ih \<noteq> length ?m \<and> crm_base (snd (?m ! ih)) \<le> high \<and> high < fst (?m ! ih)"
    then have i: "ih < length ?m"
      using ih le_neq_implies_less [OF om_lower_bound_le] by auto
    have "base < crm_base (snd (?m ! ih))"
    proof (cases "ib = ih")
      case True
      then show ?thesis using out up by auto
    next
      case False
      then have less: "ib < ih" using le_ih by simp
      then show ?thesis
        using disjoint_by_nth [OF dis less i] om_lower_bound_at [of ?m base] ib i by simp
    qed
    then show ?thesis
      using i up le by (auto simp: compatible_def range_within_def intro!: exI [of _ ih])
  qed
  then show ?thesis
    by (auto simp: set_crm_ranges [of t])
qed

theorem CRM_StoreRange_spec:
  assumes "crm_ok allow t" "0 < sz" "base \<le> base + sz - 1"
  shows "store_spec allow t base (base + sz - 1) entry (CRM_StoreRange allow t base sz entry)"
  using assms
proof (induction allow t base sz entry rule: CRM_StoreRange.induct)
  case (1 allow t base sz entry)
  note ok = \<open>crm_ok allow t\<close>
  define high where "high = base + sz - 1"
  let ?m = "crm_map t"
  define ib where "ib = om_lower_bound ?m base"
  define ih where "ih = om_lower_bound ?m high"
  note defs = high_def [symmetric] ib_def [symmetric] ih_def [symmetric]
  have valid: "\<not> (sz \<le> 0 \<or> high < base)" and le: "base \<le> high"
    using "1.prems" by (auto simp: high_def)
  define inside where "inside \<longleftrightarrow> ib = ih \<and> ib \<noteq> length ?m \<and> crm_base (snd (?m ! ib)) \<le> base"
  have eq: "CRM_StoreRange allow t base sz entry =
    (if inside then
       (if \<not> allow \<and> crm_base (snd (?m ! ib)) = base \<and> fst (?m ! ib) = high then (t, False)
        else (let (child, ok) = CRM_StoreRange allow (snd (?m ! ib)) base sz entry
              in (CRM (crm_base t) (crm_entry t) (?m[ib := (fst (?m ! ib), child)]), ok)))
     else
       (if (ib \<noteq> length ?m \<and> crm_base (snd (?m ! ib)) < base) \<or>
           (ih \<noteq> length ?m \<and> crm_base (snd (?m ! ih)) \<le> high) \<and> high < fst (?m ! ih) then (t, False)
        else (crm_insert_node t ib
           (if ih \<noteq> length ?m \<and> crm_base (snd (?m ! ih)) \<le> high then Suc ih else ih) base high entry, True)))"
    using valid by (subst CRM_StoreRange.simps) (simp only: Let_def defs inside_def if_False)
  have goal: "store_spec allow t base high entry (CRM_StoreRange allow t base sz entry)"
  proof (cases inside)
    case True
    note ins = True [unfolded inside_def]
    have i: "ib < length ?m"
      using ins ib_def le_neq_implies_less [OF om_lower_bound_le] by auto
    have hi: "high \<le> fst (?m ! ib)"
      using ins om_lower_bound_at [of ?m high] i ih_def by simp
    show ?thesis
    proof (cases "\<not> allow \<and> crm_base (snd (?m ! ib)) = base \<and> fst (?m ! ib) = high")
      case True
      have "(base, high, crm_entry (snd (?m ! ib))) \<in> set (crm_ranges t)"
        using True i nth_mem [OF i] by (force simp: set_crm_ranges [of t])
      moreover have "\<not> compatible allow base high (base, high, crm_entry (snd (?m ! ib)))"
        using True le by (simp add: compatible_def same_range_def)
      ultimately show ?thesis
        using True ins ok eq inside_def by (auto simp: store_spec_def)
    next
      case False
      obtain c stored where c: "CRM_StoreRange allow (snd (?m ! ib)) base sz entry = (c, stored)"
        by fastforce
      have "store_spec allow (snd (?m ! ib)) base high entry (CRM_StoreRange allow (snd (?m ! ib)) base sz entry)"
        unfolding high_def
        by (rule "1.IH" [OF high_def valid refl ib_def ih_def refl])
          (use ins False crm_okD(2) [OF ok nth_mem [OF i]] "1.prems" in auto)
      then have "store_spec allow t base high entry
          (CRM (crm_base t) (crm_entry t) (?m[ib := (fst (?m ! ib), c)]), stored)"
        unfolding c using False ins by (intro store_child_spec [OF ok i le refl _ hi]) auto
      then show ?thesis
        by (simp only: eq if_P [OF True] if_not_P [OF False] c Let_def prod.case)
    qed
  next
    case False
    note out = False [unfolded inside_def]
    show ?thesis
    proof (cases "(ib \<noteq> length ?m \<and> crm_base (snd (?m ! ib)) < base) \<or>
        (ih \<noteq> length ?m \<and> crm_base (snd (?m ! ih)) \<le> high) \<and> high < fst (?m ! ih)")
      case True
      then show ?thesis
        using False eq ok crm_reject_partial [OF ok le ib_def ih_def out] by (auto simp: store_spec_def)
    next
      case fits: False
      show ?thesis
        unfolding eq if_not_P [OF False] if_not_P [OF fits]
        by (intro insert_node_spec [OF _ le ok] crm_fits_bounds [OF crm_okD(1) [OF ok] le ib_def ih_def refl _ _ out])
          (use fits in auto)
    qed
  qed
  then show ?case
    by (simp only: high_def)
qed

section \<open>Properties\<close>

lemmas crm_ok_CRM = crm_ok.simps [of _ "CRM b e m" for b e m, simplified]
  and crm_ranges_CRM = crm_ranges.simps [of "CRM b e m" for b e m, simplified]

text \<open>C3. A store of a valid range into a tree of nested ranges succeeds exactly when the range is
  disjoint from, inside or around every stored range (and equal to none, unless equal ranges are
  allowed). It then adds exactly that range, at any depth, and keeps the children of every node
  disjoint and everything nested within its parent; otherwise the tree does not change.\<close>

theorem CRM_StoreRange_correct:
  assumes "crm_ok allow t" "0 < sz" "base \<le> base + sz - 1"
  shows "store_spec allow t base (base + sz - 1) entry (CRM_StoreRange allow t base sz entry)"
  by (rule CRM_StoreRange_spec [OF assms])

lemma CRM_StoreRange_correct_witness:
  "store_spec False (CRM_new (0::64 word) ''root'') 16 23 ''f'' (CRM_StoreRange False (CRM_new 0 ''root'') 16 8 ''f'')"
  using CRM_StoreRange_correct [of False "CRM_new (0::64 word) ''root''" 8 16 "''f''"]
  by (simp add: CRM_new_def crm_ok_CRM)

text \<open>C4. The entries retrieved for an address are those of all stored ranges that contain it, from the
  innermost to the outermost, and the single retrieved entry is the innermost one.\<close>

theorem CRM_RetrieveRanges_correct:
  assumes "crm_ok allow t"
  shows "\<exists>rs. CRM_RetrieveRanges t a = map (snd \<circ> snd) rs \<and>
    mset rs = filter_mset (in_range a) (mset (crm_ranges t)) \<and>
    sorted_wrt (\<lambda>inner outer. range_within inner (fst outer) (fst (snd outer))) rs \<and>
    CRM_RetrieveRange t a = (if rs = [] then None else Some (snd (snd (hd rs))))"
proof (intro exI conjI)
  let ?rs = "rev (filter (in_range a) (crm_ranges t))"
  show eq: "CRM_RetrieveRanges t a = map (snd \<circ> snd) ?rs"
    by (simp add: RetrieveRanges_eq [OF assms] rev_map)
  show "mset ?rs = filter_mset (in_range a) (mset (crm_ranges t))"
    by (simp add: mset_filter)
  show "sorted_wrt (\<lambda>inner outer. range_within inner (fst outer) (fst (snd outer))) ?rs"
    using covering_ranges_nested [OF assms] by (simp add: sorted_wrt_rev)
  show "CRM_RetrieveRange t a = (if ?rs = [] then None else Some (snd (snd (hd ?rs))))"
    unfolding RetrieveRange_eq_first [OF assms] eq by (cases ?rs) (auto simp del: rev_is_Nil_conv)
qed

lemma CRM_RetrieveRanges_correct_witness:
  "\<exists>rs :: (int \<times> int \<times> string) list. CRM_RetrieveRanges (CRM 0 ''root'' [(23, CRM 16 ''f'' [(19, CRM 18 ''g'' [])])]) (18::int) = map (snd \<circ> snd) rs \<and>
    mset rs = {#(16, 23, ''f''), (18, 19, ''g'')#}"
  using CRM_RetrieveRanges_correct [of False "CRM 0 ''root'' [(23, CRM 16 ''f'' [(19, CRM 18 ''g'' [])])]" "18::int"]
  by (auto simp: crm_ok_CRM crm_ranges_CRM disjoint_by_def range_within_def same_range_def in_range_def)

end
