(* ===== verification/Address_Map.thy ===== *)
theory Address_Map
  imports Ordered_Map
begin

text \<open>
  processor/address_map.h and address_map-inl.h: single addresses with entries; a lookup finds the
  entry of the greatest stored address that is not above the given one.
\<close>

type_synonym ('a, 'e) AddressMap = "('a, 'e) omap"

definition AddressMap_Store :: "('a::linorder, 'e) AddressMap \<Rightarrow> 'a \<Rightarrow> 'e \<Rightarrow> ('a, 'e) AddressMap \<times> bool" where
  "AddressMap_Store m address entry =
     (if om_find m address \<noteq> length m then (m, False)
      else (om_insert address entry m, True))"

definition AddressMap_Retrieve :: "('a::linorder, 'e) AddressMap \<Rightarrow> 'a \<Rightarrow> ('e \<times> 'a) option" where
  "AddressMap_Retrieve m address =
     (let iterator = om_upper_bound m address in
      if iterator = 0 then None
      else Some (snd (m ! (iterator - 1)), fst (m ! (iterator - 1))))"

definition AddressMap_Clear :: "('a, 'e) AddressMap \<Rightarrow> ('a, 'e) AddressMap" where
  "AddressMap_Clear m = []"

lemma om_find_le: "om_find m k \<le> length m"
  by (simp add: om_find_def Let_def)

lemma AddressMap_Store_eq:
  assumes "om_sorted m"
  shows "AddressMap_Store m a e = (if a \<in> dom (map_of m) then (m, False) else (om_insert a e m, True))"
  using om_find_iff [OF assms, of a] om_find_le [of m a]
  by (auto simp: AddressMap_Store_def dom_map_of_conv_image_fst le_neq_implies_less)

lemma AddressMap_Retrieve_mem: "AddressMap_Retrieve m a = Some (e, b) \<Longrightarrow> (b, e) \<in> set m"
  using om_upper_bound_pred_mem [of m a]
  by (auto simp: AddressMap_Retrieve_def Let_def split: if_splits)

lemma AddressMap_Retrieve_Some:
  assumes s: "om_sorted m"
  shows "AddressMap_Retrieve m a = Some (e, b) \<longleftrightarrow>
    map_of m b = Some e \<and> b \<le> a \<and> (\<forall>b'\<in>dom (map_of m). b' \<le> a \<longrightarrow> b' \<le> b)"
    (is "_ \<longleftrightarrow> ?r")
proof
  assume "AddressMap_Retrieve m a = Some (e, b)"
  then have pos: "0 < om_upper_bound m a" and p: "(b, e) = m ! (om_upper_bound m a - 1)"
    by (auto simp: AddressMap_Retrieve_def Let_def prod_eq_iff split: if_splits)
  show ?r
    using om_upper_bound_pred_mem [OF pos] om_upper_bound_pred [OF s pos] p [symmetric]
    by (auto simp: om_sorted_map_of [OF s] dom_map_of_conv_image_fst)
next
  assume r: ?r
  then have mem: "(b, e) \<in> set m"
    by (simp add: om_sorted_map_of [OF s])
  have pos: "0 < om_upper_bound m a"
    using om_upper_bound_begin [OF s _ mem, of a] r by (cases "om_upper_bound m a = 0") auto
  let ?q = "m ! (om_upper_bound m a - 1)"
  note q = om_upper_bound_pred_mem [OF pos]
  have "fst ?q \<le> b"
    using r q by (auto simp: dom_map_of_conv_image_fst)
  moreover have "b \<le> fst ?q"
    using om_upper_bound_pred [OF s pos mem] r by simp
  ultimately have "?q = (b, e)"
    using om_sorted_inj [OF s q(1) mem] by simp
  then show "AddressMap_Retrieve m a = Some (e, b)"
    using pos by (simp add: AddressMap_Retrieve_def Let_def)
qed

lemma AddressMap_Retrieve_None:
  assumes s: "om_sorted m"
  shows "AddressMap_Retrieve m a = None \<longleftrightarrow> (\<forall>b\<in>dom (map_of m). a < b)"
proof
  assume "AddressMap_Retrieve m a = None"
  then show "\<forall>b\<in>dom (map_of m). a < b"
    using om_upper_bound_begin [OF s, of a]
    by (auto simp: AddressMap_Retrieve_def Let_def dom_map_of_conv_image_fst split: if_splits)
next
  assume above: "\<forall>b\<in>dom (map_of m). a < b"
  show "AddressMap_Retrieve m a = None"
  proof (rule ccontr)
    assume "AddressMap_Retrieve m a \<noteq> None"
    then have "0 < om_upper_bound m a"
      by (simp add: AddressMap_Retrieve_def Let_def split: if_splits)
    then show False
      using om_upper_bound_pred_mem [of m a] above by (auto simp: dom_map_of_conv_image_fst)
  qed
qed

text \<open>Storing an address that is new succeeds and changes the map only there, storing one that is
  present fails and changes nothing; retrieving gives the entry of the greatest stored address not
  above the given one, and fails exactly when all are above.\<close>

theorem AddressMap_correct:
  assumes "om_sorted m"
  shows "(let (m', ok) = AddressMap_Store m a e in om_sorted m' \<and> (ok \<longleftrightarrow> a \<notin> dom (map_of m)) \<and>
      map_of m' = (if ok then (map_of m)(a \<mapsto> e) else map_of m)) \<and>
    (AddressMap_Retrieve m a = Some (e', b) \<longleftrightarrow>
      map_of m b = Some e' \<and> b \<le> a \<and> (\<forall>b'\<in>dom (map_of m). b' \<le> a \<longrightarrow> b' \<le> b)) \<and>
    (AddressMap_Retrieve m a = None \<longleftrightarrow> (\<forall>b\<in>dom (map_of m). a < b))"
  using AddressMap_Retrieve_Some [OF assms, of a e' b] AddressMap_Retrieve_None [OF assms, of a]
  by (simp add: AddressMap_Store_eq [OF assms] assms om_sorted_insert map_of_om_insert_new dom_map_of_conv_image_fst)

lemma AddressMap_correct_witness:
  "AddressMap_Retrieve [(4::nat, ''main''), (9, ''exit'')] 7 = Some (''main'', 4)"
  using AddressMap_correct [of "[(4::nat, ''main''), (9, ''exit'')]" 7 "''x''" "''main''" 4] by simp

end
