(* ===== verification/Symbol_Types.thy ===== *)
theory Symbol_Types
  imports Range_Map Contained_Range_Map Address_Map
begin

text \<open>
  processor/source_line_resolver_base_types.h, basic_source_line_resolver_types.h,
  windows_frame_info.h and google_breakpad/processor/stack_frame.h: the records of a symbol file, the
  module that holds them, and the stack frame that a lookup fills in. \<open>linked_ptr\<close> values that are not
  changed after they are stored are options, \<open>None\<close> for the null pointer. \<open>int32_t\<close> and \<open>int\<close> fields
  are integers.
\<close>

section \<open>Records of a symbol file\<close>

record Line =
  l_address :: u64
  l_size :: u64
  l_source_file_id :: int
  l_line :: int

record InlineOrigin =
  o_has_file_id :: bool
  o_source_file_id :: int
  o_name :: string

record Inline =
  has_call_site_file_id :: bool
  inline_nest_level :: int
  call_site_line :: int
  call_site_file_id :: int
  origin_id :: int
  inline_ranges :: "(u64 \<times> u64) list"

record Function =
  f_name :: string
  f_address :: u64
  f_size :: u64
  f_parameter_size :: int
  f_is_multiple :: bool
  f_inlines :: "(u64, Inline option) ContainedRangeMap"
  f_lines :: "(u64, Line option) RangeMap"
  last_added_inline_nest_level :: int

definition Function_new :: "string \<Rightarrow> u64 \<Rightarrow> u64 \<Rightarrow> int \<Rightarrow> bool \<Rightarrow> Function" where
  "Function_new name address sz param_size multiple =
     \<lparr>f_name = name, f_address = address, f_size = sz, f_parameter_size = param_size,
      f_is_multiple = multiple, f_inlines = CRM_new 0 None, f_lines = RangeMap_new,
      last_added_inline_nest_level = 0\<rparr>"

record PublicSymbol =
  p_name :: string
  p_address :: u64
  p_parameter_size :: int
  p_is_multiple :: bool

section \<open>Windows frame data\<close>

datatype StackInfoTypes =
    STACK_INFO_FPO | STACK_INFO_TRAP | STACK_INFO_TSS | STACK_INFO_STANDARD | STACK_INFO_FRAME_DATA
  | STACK_INFO_UNKNOWN

fun stack_info_index :: "StackInfoTypes \<Rightarrow> int" where
  "stack_info_index STACK_INFO_FPO = 0"
| "stack_info_index STACK_INFO_TRAP = 1"
| "stack_info_index STACK_INFO_TSS = 2"
| "stack_info_index STACK_INFO_STANDARD = 3"
| "stack_info_index STACK_INFO_FRAME_DATA = 4"
| "stack_info_index STACK_INFO_UNKNOWN = -1"

definition STACK_INFO_LAST :: int where
  "STACK_INFO_LAST = 5"

text \<open>The cast from an integer to the enumeration, for the values it is used on.\<close>

definition stack_info_of :: "int \<Rightarrow> StackInfoTypes" where
  "stack_info_of i =
     (if i = 0 then STACK_INFO_FPO else if i = 1 then STACK_INFO_TRAP else if i = 2 then STACK_INFO_TSS
      else if i = 3 then STACK_INFO_STANDARD else if i = 4 then STACK_INFO_FRAME_DATA
      else STACK_INFO_UNKNOWN)"

definition VALID_NONE :: int where "VALID_NONE = 0"
definition VALID_PARAMETER_SIZE :: int where "VALID_PARAMETER_SIZE = 1"
definition VALID_ALL :: int where "VALID_ALL = -1"

record WindowsFrameInfo =
  w_type :: StackInfoTypes
  w_valid :: int
  prolog_size :: u32
  epilog_size :: u32
  w_parameter_size :: u32
  saved_register_size :: u32
  local_size :: u32
  max_stack_size :: u32
  allocates_base_pointer :: bool
  program_string :: string

definition WindowsFrameInfo_new :: WindowsFrameInfo where
  "WindowsFrameInfo_new = \<lparr>w_type = STACK_INFO_UNKNOWN, w_valid = VALID_NONE, prolog_size = 0,
     epilog_size = 0, w_parameter_size = 0, saved_register_size = 0, local_size = 0, max_stack_size = 0,
     allocates_base_pointer = False, program_string = []\<rparr>"

definition WindowsFrameInfo_of ::
  "StackInfoTypes \<Rightarrow> u32 \<Rightarrow> u32 \<Rightarrow> u32 \<Rightarrow> u32 \<Rightarrow> u32 \<Rightarrow> u32 \<Rightarrow> bool \<Rightarrow> string \<Rightarrow> WindowsFrameInfo" where
  "WindowsFrameInfo_of ty prolog epilog param saved loc max_stack allocates prog =
     \<lparr>w_type = ty, w_valid = VALID_ALL, prolog_size = prolog, epilog_size = epilog,
      w_parameter_size = param, saved_register_size = saved, local_size = loc,
      max_stack_size = max_stack, allocates_base_pointer = allocates, program_string = prog\<rparr>"

definition WindowsFrameInfo_CopyFrom :: "WindowsFrameInfo \<Rightarrow> WindowsFrameInfo \<Rightarrow> WindowsFrameInfo" where
  "WindowsFrameInfo_CopyFrom self that = self
     \<lparr>w_type := w_type that, w_valid := w_valid that, prolog_size := prolog_size that,
      epilog_size := epilog_size that, w_parameter_size := w_parameter_size that,
      saved_register_size := saved_register_size that, local_size := local_size that,
      max_stack_size := max_stack_size that,
      allocates_base_pointer := allocates_base_pointer that,
      program_string := program_string that\<rparr>"

definition WindowsFrameInfo_Clear :: "WindowsFrameInfo \<Rightarrow> WindowsFrameInfo" where
  "WindowsFrameInfo_Clear self =
     self\<lparr>w_type := STACK_INFO_UNKNOWN, w_valid := VALID_NONE, program_string := []\<rparr>"

lemma WindowsFrameInfo_CopyFrom_eq [simp]: "WindowsFrameInfo_CopyFrom self that = that"
  by (cases self; cases that) (simp add: WindowsFrameInfo_CopyFrom_def)

lemma stack_info_of_index [simp]: "stack_info_of (stack_info_index ty) = ty"
  by (cases ty) (simp_all add: stack_info_of_def)

section \<open>A module of the basic resolver\<close>

record Module =
  m_files :: "(int, string) omap"
  m_functions :: "(u64, Function option) RangeMap"
  m_public_symbols :: "(u64, PublicSymbol option) AddressMap"
  m_is_corrupt :: bool
  m_windows_frame_info :: "(u64, WindowsFrameInfo option) ContainedRangeMap list"
  m_cfi_initial_rules :: "(u64, string) RangeMap"
  m_cfi_delta_rules :: "(u64, string) omap"
  m_inline_origins :: "(int, InlineOrigin option) omap"

definition Module_new :: Module where
  "Module_new = \<lparr>m_files = [], m_functions = RangeMap_new, m_public_symbols = [], m_is_corrupt = False,
     m_windows_frame_info = replicate 5 (CRM_new 0 None), m_cfi_initial_rules = RangeMap_new,
     m_cfi_delta_rules = [], m_inline_origins = []\<rparr>"

section \<open>Stack frames\<close>

datatype FrameTrust =
    FRAME_TRUST_NONE | FRAME_TRUST_SCAN | FRAME_TRUST_CFI_SCAN | FRAME_TRUST_FP | FRAME_TRUST_CFI
  | FRAME_TRUST_PREWALKED | FRAME_TRUST_CONTEXT | FRAME_TRUST_INLINE | FRAME_TRUST_LEAF

text \<open>Of the module of a frame only its base address is used in a lookup.\<close>

record StackFrame =
  instruction :: u64
  module_base_address :: u64
  function_name :: string
  function_base :: u64
  source_file_name :: string
  source_line :: int
  source_line_base :: u64
  trust :: FrameTrust
  is_multiple :: bool

definition StackFrame_new :: "u64 \<Rightarrow> u64 \<Rightarrow> StackFrame" where
  "StackFrame_new instr base = \<lparr>instruction = instr, module_base_address = base, function_name = [],
     function_base = 0, source_file_name = [], source_line = 0, source_line_base = 0,
     trust = FRAME_TRUST_NONE, is_multiple = False\<rparr>"

definition trust_description :: "FrameTrust \<Rightarrow> string" where
  "trust_description t = (case t of
       FRAME_TRUST_CONTEXT \<Rightarrow> ''given as instruction pointer in context''
     | FRAME_TRUST_PREWALKED \<Rightarrow> ''recovered by external stack walker''
     | FRAME_TRUST_CFI \<Rightarrow> ''call frame info''
     | FRAME_TRUST_CFI_SCAN \<Rightarrow> ''call frame info with scanning''
     | FRAME_TRUST_FP \<Rightarrow> ''previous frame's frame pointer''
     | FRAME_TRUST_SCAN \<Rightarrow> ''stack scanning''
     | FRAME_TRUST_INLINE \<Rightarrow> ''inline record''
     | FRAME_TRUST_LEAF \<Rightarrow> ''simulating a return from leaf function''
     | FRAME_TRUST_NONE \<Rightarrow> ''unknown'')"

end
