(* ===== verification/C_Strings.thy ===== *)
theory C_Strings
  imports BP_Prelude "HOL-Library.List_Lexorder" "HOL-Library.Char_ord"
begin

text \<open>
  The part of the C string library the program parses with, on strings that end before the
  terminator: \<open>strtok_r\<close>, \<open>strtol\<close>, \<open>strtoull\<close>, character classes, and printing of numbers. A pointer
  into a string is the rest of the string from there on.
\<close>

section \<open>Character classes\<close>

definition isspace :: "char \<Rightarrow> bool" where
  "isspace c \<longleftrightarrow> (let n = (of_char c :: nat) in n = 32 \<or> 9 \<le> n \<and> n \<le> 13)"

definition isdigit :: "char \<Rightarrow> bool" where
  "isdigit c \<longleftrightarrow> (let n = (of_char c :: nat) in 48 \<le> n \<and> n \<le> 57)"

text \<open>The value of a digit in a base up to sixteen.\<close>

definition digit_val :: "nat \<Rightarrow> char \<Rightarrow> nat option" where
  "digit_val base c = (let n = (of_char c :: nat);
       d = (if 48 \<le> n \<and> n \<le> 57 then n - 48 else if 97 \<le> n \<and> n \<le> 102 then n - 87
            else if 65 \<le> n \<and> n \<le> 70 then n - 55 else base)
     in if d < base then Some d else None)"

definition is_digit_in :: "nat \<Rightarrow> char \<Rightarrow> bool" where
  "is_digit_in base c \<longleftrightarrow> digit_val base c \<noteq> None"

definition digits_val :: "nat \<Rightarrow> string \<Rightarrow> nat" where
  "digits_val base s = foldl (\<lambda>n c. n * base + the (digit_val base c)) 0 s"

section \<open>strtok_r\<close>

text \<open>
  The token, if there is one left, and where the next call goes on: behind the separator that ended
  the token.
\<close>

definition strtok_r :: "string \<Rightarrow> string \<Rightarrow> string option \<times> string" where
  "strtok_r seps s =
     (let s' = dropWhile (\<lambda>c. c \<in> set seps) s in
      if s' = [] then (None, [])
      else (Some (takeWhile (\<lambda>c. c \<notin> set seps) s'), tl (dropWhile (\<lambda>c. c \<notin> set seps) s')))"

lemma strtok_r_length:
  "strtok_r seps s = (Some t, rest) \<Longrightarrow> length rest < length s"
proof -
  assume a: "strtok_r seps s = (Some t, rest)"
  let ?s = "dropWhile (\<lambda>c. c \<in> set seps) s"
  have "?s \<noteq> []" "rest = tl (dropWhile (\<lambda>c. c \<notin> set seps) ?s)"
    using a by (auto simp: strtok_r_def Let_def split: if_splits)
  then show ?thesis
    using length_dropWhile_le [of "\<lambda>c. c \<notin> set seps" ?s] length_dropWhile_le [of "\<lambda>c. c \<in> set seps" s]
    by (cases ?s) auto
qed

text \<open>All tokens of a string, as the repeated call gives them.\<close>

function tokens :: "string \<Rightarrow> string \<Rightarrow> string list" where
  "tokens seps s = (case strtok_r seps s of (None, _) \<Rightarrow> [] | (Some t, rest) \<Rightarrow> t # tokens seps rest)"
  by pat_completeness auto
termination
  by (relation "measure (\<lambda>(seps, s). length s)") (auto dest: strtok_r_length [OF sym])

declare tokens.simps [simp del]

definition is_token :: "string \<Rightarrow> string \<Rightarrow> bool" where
  "is_token seps t \<longleftrightarrow> t \<noteq> [] \<and> (\<forall>c\<in>set t. c \<notin> set seps)"

lemma strtok_r_token: "strtok_r seps s = (Some t, rest) \<Longrightarrow> is_token seps t"
proof -
  assume a: "strtok_r seps s = (Some t, rest)"
  let ?s = "dropWhile (\<lambda>c. c \<in> set seps) s"
  have s: "?s \<noteq> []" and t: "t = takeWhile (\<lambda>c. c \<notin> set seps) ?s"
    using a by (auto simp: strtok_r_def Let_def split: if_splits)
  have "hd ?s \<notin> set seps"
    using hd_dropWhile [OF s] .
  then show ?thesis
    using s t by (cases ?s) (auto simp: is_token_def dest: set_takeWhileD)
qed

lemma tokens_are_tokens: "t \<in> set (tokens seps s) \<Longrightarrow> is_token seps t"
proof (induction seps s rule: tokens.induct)
  case (1 seps s)
  then show ?case
    by (subst (asm) (2) tokens.simps) (auto split: prod.splits option.splits dest: strtok_r_token strtok_r_token [OF sym])
qed

lemma tokens_Nil [simp]: "tokens seps [] = []"
  by (subst tokens.simps) (simp add: strtok_r_def)

lemma strtok_r_skip: "c \<in> set seps \<Longrightarrow> strtok_r seps (c # s) = strtok_r seps s"
  by (simp add: strtok_r_def)

lemma tokens_skip: "c \<in> set seps \<Longrightarrow> tokens seps (c # s) = tokens seps s"
  by (subst (1 2) tokens.simps) (simp add: strtok_r_skip)

lemma is_token_simps:
  assumes "is_token seps t"
  shows "t \<noteq> []" "dropWhile (\<lambda>c. c \<in> set seps) (t @ s) = t @ s"
    "takeWhile (\<lambda>c. c \<notin> set seps) t = t" "dropWhile (\<lambda>c. c \<notin> set seps) t = []"
  using assms by (cases t; auto simp: is_token_def takeWhile_eq_all_conv)+

lemma strtok_r_end: "is_token seps t \<Longrightarrow> strtok_r seps t = (Some t, [])"
  by (simp add: strtok_r_def is_token_simps(1,3,4) is_token_simps(2) [of seps t "[]", simplified])

lemma strtok_r_next:
  assumes "is_token seps t" "c \<in> set seps"
  shows "strtok_r seps (t @ c # s) = (Some t, s)"
proof -
  have "takeWhile (\<lambda>c. c \<notin> set seps) (t @ c # s) = t" "dropWhile (\<lambda>c. c \<notin> set seps) (t @ c # s) = c # s"
    using assms by (auto simp: is_token_def takeWhile_append dropWhile_append)
  then show ?thesis
    using is_token_simps(1) [OF assms(1)] is_token_simps(2) [OF assms(1)] by (simp add: strtok_r_def)
qed

text \<open>Tokens joined by separators come apart again.\<close>

primrec join :: "string \<Rightarrow> string list \<Rightarrow> string" where
  "join sep [] = []"
| "join sep (t # ts) = (if ts = [] then t else t @ sep @ join sep ts)"

lemma tokens_cons:
  assumes "is_token seps t"
  shows "tokens seps t = [t]" and "c \<in> set seps \<Longrightarrow> tokens seps (t @ c # s) = t # tokens seps s"
proof -
  show "tokens seps t = [t]"
    by (subst tokens.simps) (simp add: strtok_r_end [OF assms])
  show "tokens seps (t @ c # s) = t # tokens seps s" if "c \<in> set seps"
    by (subst tokens.simps) (simp add: strtok_r_next [OF assms that])
qed

lemma tokens_join:
  assumes "\<forall>t\<in>set ts. is_token seps t" "c \<in> set seps"
  shows "tokens seps (join [c] ts) = ts"
  using assms by (induction ts) (auto simp: tokens_cons)

text \<open>Around a separator a string is split independently.\<close>

lemma first_token:
  assumes "hd x \<notin> set seps" "x \<noteq> []"
  obtains t where "is_token seps t" "x = t" | t d r where "is_token seps t" "d \<in> set seps" "x = t @ d # r"
proof (cases "dropWhile (\<lambda>c. c \<notin> set seps) x")
  case Nil
  then have "is_token seps x"
    using assms(2) by (auto simp: is_token_def dropWhile_eq_Nil_conv)
  then show ?thesis
    using that(1) by blast
next
  case (Cons d r)
  have "is_token seps (takeWhile (\<lambda>c. c \<notin> set seps) x)"
    using assms by (cases x) (auto simp: is_token_def dest: set_takeWhileD)
  moreover have "d \<in> set seps"
    using hd_dropWhile [of "\<lambda>c. c \<notin> set seps" x] Cons by auto
  moreover have "x = takeWhile (\<lambda>c. c \<notin> set seps) x @ d # r"
    using takeWhile_dropWhile_id [of "\<lambda>c. c \<notin> set seps" x] Cons by simp
  ultimately show ?thesis
    by (rule that(2))
qed

lemma tokens_append:
  assumes "c \<in> set seps"
  shows "tokens seps (x @ c # y) = tokens seps x @ tokens seps y"
proof (induction "length x" arbitrary: x rule: less_induct)
  case less
  show ?case
  proof (cases "x = [] \<or> hd x \<in> set seps")
    case True
    then show ?thesis
      using less [of "tl x"] assms by (cases x) (auto simp: tokens_skip)
  next
    case False
    then have "hd x \<notin> set seps" "x \<noteq> []"
      by auto
    then show ?thesis
    proof (cases rule: first_token)
      case (1 t)
      then show ?thesis
        using tokens_cons [OF 1(1)] assms by simp
    next
      case (2 t d r)
      then show ?thesis
        using tokens_cons(2) [OF 2(1,2)] less [of r] by simp
    qed
  qed
qed

section \<open>Numbers\<close>

text \<open>
  What \<open>strtol\<close> and \<open>strtoull\<close> read: spaces, a sign, in base sixteen an optional prefix, digits. The
  result is the sign, the magnitude and the rest, or nothing if there is no digit.
\<close>

definition strto_scan :: "nat \<Rightarrow> string \<Rightarrow> (bool \<times> nat \<times> string) option" where
  "strto_scan base s =
     (let s1 = dropWhile isspace s;
          neg = (s1 \<noteq> [] \<and> hd s1 = CHR ''-'');
          s2 = (if s1 \<noteq> [] \<and> (hd s1 = CHR ''-'' \<or> hd s1 = CHR ''+'') then tl s1 else s1);
          s3 = (if base = 16 \<and> 2 < length s2 \<and> s2 ! 0 = CHR ''0'' \<and> (s2 ! 1 = CHR ''x'' \<or> s2 ! 1 = CHR ''X'') \<and>
                  is_digit_in 16 (s2 ! 2) then drop 2 s2 else s2);
          ds = takeWhile (is_digit_in base) s3
      in if ds = [] then None else Some (neg, digits_val base ds, dropWhile (is_digit_in base) s3))"

definition LONG_MAX :: int where "LONG_MAX = 2 ^ 63 - 1"

definition strtol :: "nat \<Rightarrow> string \<Rightarrow> int \<times> string" where
  "strtol base s = (case strto_scan base s of None \<Rightarrow> (0, s)
     | Some (neg, n, rest) \<Rightarrow> (if neg then max (- (2 ^ 63)) (- int n) else min LONG_MAX (int n), rest))"

definition ULLONG_MAX :: u64 where "ULLONG_MAX = - 1"

definition strtoull :: "nat \<Rightarrow> string \<Rightarrow> u64 \<times> string" where
  "strtoull base s = (case strto_scan base s of None \<Rightarrow> (0, s)
     | Some (neg, n, rest) \<Rightarrow>
         (if 2 ^ 64 \<le> n then ULLONG_MAX else if neg then - of_nat n else of_nat n, rest))"

section \<open>Printing decimal numbers\<close>

fun show_nat :: "nat \<Rightarrow> string" where
  "show_nat n = (if n < 10 then [char_of (48 + n)] else show_nat (n div 10) @ [char_of (48 + n mod 10)])"

declare show_nat.simps [simp del]

lemma digit_val_char: "d < 10 \<Longrightarrow> digit_val 10 (char_of (48 + d :: nat)) = Some d"
  by (simp add: digit_val_def Let_def)

lemma isdigit_char: "d < 10 \<Longrightarrow> isdigit (char_of (48 + d :: nat))"
  by (simp add: isdigit_def Let_def)

lemma digits_val_snoc: "digits_val base (s @ [c]) = digits_val base s * base + the (digit_val base c)"
  by (simp add: digits_val_def)

lemma digits_val_show_nat [simp]: "digits_val 10 (show_nat n) = n"
proof (induction n rule: show_nat.induct)
  case (1 n)
  show ?case
  proof (cases "n < 10")
    case True
    then show ?thesis
      by (subst show_nat.simps) (simp add: digits_val_def digit_val_char)
  next
    case False
    then show ?thesis
      using 1 by (subst show_nat.simps) (simp add: digits_val_snoc digit_val_char)
  qed
qed

lemma show_nat_digits: "list_all isdigit (show_nat n)"
proof (induction n rule: show_nat.induct)
  case (1 n)
  then show ?case
    by (subst show_nat.simps) (simp add: isdigit_char)
qed

lemma show_nat_not_Nil [simp]: "show_nat n \<noteq> []"
  by (subst show_nat.simps) simp

end
