(* ===== verification/Symbol_Records.thy ===== *)
theory Symbol_Records
  imports Symbol_Types C_Strings "HOL-Library.Monad_Syntax"
begin

text \<open>
  processor/tokenize.cc and the record parsers of processor/basic_source_line_resolver.cc and
  windows_frame_info.h: what one line of a symbol file says. A \<open>char*\<close> into a line is the rest of the
  line from there. A parser that returns false is \<open>None\<close>; \<open>junk\<close> is the value of a local variable
  that the parser leaves unset.
\<close>

section \<open>Tokens\<close>

definition newlines :: string where
  "newlines = [CHR 0x0D, CHR 0x0A]"

definition kWhitespace :: string where
  "kWhitespace = [CHR '' '', CHR 0x0D, CHR 0x0A]"

function tokenize_loop ::
  "string \<Rightarrow> int \<Rightarrow> string option \<Rightarrow> string \<Rightarrow> string list \<Rightarrow> string list \<times> int \<times> string" where
  "tokenize_loop separators remaining token save_ptr toks = (case token of
       None \<Rightarrow> (toks, remaining, save_ptr)
     | Some t \<Rightarrow>
         (let remaining = remaining - 1 in
          if 0 < remaining then
            (let (token, save_ptr) = (if 1 < remaining then strtok_r separators save_ptr else (token, save_ptr))
             in tokenize_loop separators remaining token save_ptr (toks @ [t]))
          else (toks, remaining, save_ptr)))"
  by pat_completeness auto
termination
  by (relation "measure (\<lambda>(separators, remaining, token, save_ptr, toks). nat remaining)") auto

declare tokenize_loop.simps [simp del]

definition Tokenize :: "string \<Rightarrow> string \<Rightarrow> int \<Rightarrow> string list \<times> bool" where
  "Tokenize line separators max_tokens =
     (let (token, save_ptr) = strtok_r separators line;
          (toks, remaining, save_ptr) = tokenize_loop separators max_tokens token save_ptr [];
          toks = (if remaining = 0 then
              (case fst (strtok_r newlines save_ptr) of Some t \<Rightarrow> toks @ [t] | None \<Rightarrow> toks)
            else toks)
      in (toks, int (length toks) = max_tokens))"

text \<open>\<open>front()\<close> and \<open>back()\<close> are reached only when there are as many toks as asked for, at least one.\<close>

definition TokenizeWithOptionalField :: "string \<Rightarrow> string \<Rightarrow> string \<Rightarrow> int \<Rightarrow> string list option" where
  "TokenizeWithOptionalField line optional_field separators max_tokens =
     (let (toks, ok) = Tokenize line separators (max_tokens - 1) in
      if \<not> ok then None
      else if hd toks = optional_field then
        (let (last_tokens, ok) = Tokenize (last toks) separators 2 in
         if \<not> ok then None
         else Some (butlast toks @ [last_tokens ! 0, last_tokens ! 1]))
      else Some toks)"

section \<open>Numbers\<close>

definition IsValidAfterNumber :: "string \<Rightarrow> bool" where
  "IsValidAfterNumber after_number \<longleftrightarrow> after_number = [] \<or> hd after_number \<in> set kWhitespace"

text \<open>A number that must be followed by space, be at least \<open>lowest\<close>, and not be the overflow value.\<close>

definition checked_long :: "nat \<Rightarrow> int \<Rightarrow> string \<Rightarrow> int option" where
  "checked_long base lowest token =
     (let (v, after_number) = strtol base token in
      if \<not> IsValidAfterNumber after_number \<or> v < lowest \<or> v = LONG_MAX then None else Some v)"

definition checked_address :: "string \<Rightarrow> u64 option" where
  "checked_address token =
     (let (v, after_number) = strtoull 16 token in
      if \<not> IsValidAfterNumber after_number \<or> v = ULLONG_MAX then None else Some v)"

text \<open>The conversion of a \<open>long\<close> to an \<open>int\<close>.\<close>

definition to_s32 :: "int \<Rightarrow> int" where
  "to_s32 k = sint (of_int k :: u32)"

section \<open>Records\<close>

definition SPH_ParseFile :: "string \<Rightarrow> (int \<times> string) option" where
  "SPH_ParseFile file_line =
     (let (toks, ok) = Tokenize (drop 5 file_line) kWhitespace 2 in
      if \<not> ok then None
      else do { index \<leftarrow> checked_long 10 0 (toks ! 0); Some (index, toks ! 1) })"

text \<open>Whether the field up to the first space looks like a number.\<close>

fun is_file_id :: "nat \<Rightarrow> string \<Rightarrow> bool" where
  "is_file_id i [] \<longleftrightarrow> True"
| "is_file_id i (c # cs) \<longleftrightarrow>
     (if c = CHR '' '' then True
      else if c = CHR ''-'' \<and> i = 0 then is_file_id (i + 1) cs
      else isdigit c \<and> is_file_id (i + 1) cs)"

definition SPH_ParseInlineOrigin :: "int \<Rightarrow> string \<Rightarrow> (bool \<times> int \<times> int \<times> string) option" where
  "SPH_ParseInlineOrigin junk inline_origin_line =
     (let (toks, ok) = Tokenize (drop 14 inline_origin_line) kWhitespace 2 in
      if \<not> ok then None
      else do {
        key \<leftarrow> checked_long 10 0 (toks ! 0);
        (if is_file_id 0 (toks ! 1) then
           (let (toks, ok) = Tokenize (toks ! 1) kWhitespace 2 in
            if \<not> ok then None
            else do {
              file_id \<leftarrow> checked_long 10 (-1) (toks ! 0);
              Some (True, key, file_id, toks ! 1)
            })
         else Some (False, key, junk, toks ! 1))
      })"

fun inline_pairs :: "string list \<Rightarrow> (u64 \<times> u64) list option" where
  "inline_pairs (a # s # toks) = do {
     address \<leftarrow> checked_address a;
     sz \<leftarrow> checked_address s;
     ranges \<leftarrow> inline_pairs toks;
     Some ((address, sz) # ranges)
   }"
| "inline_pairs _ = Some []"

text \<open>The parity of the number of toks tells the two versions of the record apart.\<close>

definition SPH_ParseInline :: "int \<Rightarrow> string \<Rightarrow> (bool \<times> int \<times> int \<times> int \<times> int \<times> (u64 \<times> u64) list) option" where
  "SPH_ParseInline junk inline_line =
     (let (toks, _) = Tokenize (drop 7 inline_line) kWhitespace 512;
          has_file = even (length toks)
      in if length toks < 5 then None
         else do {
           nest_level \<leftarrow> checked_long 10 0 (toks ! 0);
           call_line \<leftarrow> checked_long 10 0 (toks ! 1);
           file_id \<leftarrow> (if has_file then checked_long 10 (-1) (toks ! 2) else Some junk);
           key \<leftarrow> checked_long 10 0 (toks ! (if has_file then 3 else 2));
           ranges \<leftarrow> inline_pairs (drop (if has_file then 4 else 3) toks);
           Some (has_file, nest_level, call_line, file_id, key, ranges)
         })"

definition SPH_ParseFunction :: "string \<Rightarrow> (bool \<times> u64 \<times> u64 \<times> int \<times> string) option" where
  "SPH_ParseFunction function_line = do {
     toks \<leftarrow> TokenizeWithOptionalField (drop 5 function_line) ''m'' kWhitespace 5;
     let multiple = (toks ! 0 = ''m'');
     let next_token = (if multiple then 1 else 0);
     address \<leftarrow> checked_address (toks ! next_token);
     sz \<leftarrow> checked_address (toks ! (next_token + 1));
     param_size \<leftarrow> checked_long 16 0 (toks ! (next_token + 2));
     Some (multiple, address, sz, param_size, toks ! (next_token + 3))
   }"

definition SPH_ParseLine :: "string \<Rightarrow> (u64 \<times> u64 \<times> int \<times> int) option" where
  "SPH_ParseLine line_line =
     (let (toks, ok) = Tokenize line_line kWhitespace 4 in
      if \<not> ok then None
      else do {
        address \<leftarrow> checked_address (toks ! 0);
        sz \<leftarrow> checked_address (toks ! 1);
        line_number \<leftarrow> checked_long 10 (- (2 ^ 63)) (toks ! 2);
        source_file \<leftarrow> checked_long 10 0 (toks ! 3);
        (if line_number < 0 then None else Some (address, sz, line_number, source_file))
      })"

definition SPH_ParsePublicSymbol :: "string \<Rightarrow> (bool \<times> u64 \<times> int \<times> string) option" where
  "SPH_ParsePublicSymbol public_line = do {
     toks \<leftarrow> TokenizeWithOptionalField (drop 7 public_line) ''m'' kWhitespace 4;
     let multiple = (toks ! 0 = ''m'');
     let next_token = (if multiple then 1 else 0);
     address \<leftarrow> checked_address (toks ! next_token);
     param_size \<leftarrow> checked_long 16 0 (toks ! (next_token + 1));
     Some (multiple, address, param_size, toks ! (next_token + 2))
   }"

text \<open>\<open>strtoul\<close>, with an \<open>unsigned long\<close> of eight bytes, stored in four.\<close>

definition strtoul_u32 :: "string \<Rightarrow> u32" where
  "strtoul_u32 token = ucast (fst (strtoull 16 token))"

definition WFI_ParseFromString :: "string \<Rightarrow> (WindowsFrameInfo \<times> int \<times> u64 \<times> u64) option" where
  "WFI_ParseFromString s =
     (let (toks, ok) = Tokenize s kWhitespace 11 in
      if \<not> ok then None
      else
        let ty = to_s32 (fst (strtol 16 (toks ! 0))) in
        if ty < 0 \<or> STACK_INFO_LAST - 1 < ty then None
        else
          let rva = fst (strtoull 16 (toks ! 1));
              code_size = fst (strtoull 16 (toks ! 2));
              has_program_string = (strtoul_u32 (toks ! 9) \<noteq> 0);
              prog = (if has_program_string then toks ! 10 else []);
              allocates = (if has_program_string then False else strtoul_u32 (toks ! 10) \<noteq> 0)
          in Some (WindowsFrameInfo_of (stack_info_of ty) (strtoul_u32 (toks ! 3)) (strtoul_u32 (toks ! 4))
               (strtoul_u32 (toks ! 5)) (strtoul_u32 (toks ! 6)) (strtoul_u32 (toks ! 7))
               (strtoul_u32 (toks ! 8)) allocates prog, ty, rva, code_size))"

end
