(* ===== verification/Symbol_Loader.thy ===== *)
theory Symbol_Loader
  imports Symbol_Records
begin

text \<open>
  \<open>LoadMapFromMemory\<close> of processor/basic_source_line_resolver.cc: a symbol file, read line by line into
  the maps of a module. The current function is a shared pointer: the map of functions holds the same
  object that later lines are added to, so functions live in a heap while a file is read and the map
  holds their addresses. \<open>None\<close> is a run with undefined behaviour.
\<close>

section \<open>State\<close>

record LoadState =
  ls_module :: Module
  ls_heap :: "Function list"
  ls_functions :: "(u64, nat) RangeMap"
  cur_func :: "nat option"
  num_errors :: int

definition kMaxErrorsBeforeBailing :: int where
  "kMaxErrorsBeforeBailing = 100"

definition LoadState_new :: LoadState where
  "LoadState_new = \<lparr>ls_module = Module_new, ls_heap = [], ls_functions = RangeMap_new, cur_func = None, num_errors = 0\<rparr>"

text \<open>Of the logging only the count matters; errors of inline records have a count of their own.\<close>

definition LogParseError :: "LoadState \<Rightarrow> LoadState" where
  "LogParseError st = st\<lparr>num_errors := num_errors st + 1\<rparr>"

definition check_parse :: "LoadState \<times> bool \<Rightarrow> LoadState" where
  "check_parse r = (if snd r then fst r else LogParseError (fst r))"

section \<open>Records into maps\<close>

text \<open>The map of files has \<open>int\<close> keys.\<close>

definition Module_ParseFile :: "string \<Rightarrow> LoadState \<Rightarrow> LoadState \<times> bool" where
  "Module_ParseFile line st = (case SPH_ParseFile line of
       None \<Rightarrow> (st, False)
     | Some (index, filename) \<Rightarrow>
         (st\<lparr>ls_module := (ls_module st)\<lparr>m_files := om_insert (to_s32 index) filename (m_files (ls_module st))\<rparr>\<rparr>, True))"

definition Module_ParseInlineOrigin :: "int \<Rightarrow> string \<Rightarrow> LoadState \<Rightarrow> LoadState \<times> bool" where
  "Module_ParseInlineOrigin junk line st = (case SPH_ParseInlineOrigin junk line of
       None \<Rightarrow> (st, False)
     | Some (has_file, key, file_id, name) \<Rightarrow>
         (st\<lparr>ls_module := (ls_module st)\<lparr>m_inline_origins := om_insert (to_s32 key)
            (Some \<lparr>o_has_file_id = has_file, o_source_file_id = to_s32 file_id, o_name = name\<rparr>)
            (m_inline_origins (ls_module st))\<rparr>\<rparr>, True))"

definition Module_ParseInline :: "int \<Rightarrow> string \<Rightarrow> Inline option" where
  "Module_ParseInline junk line = map_option (\<lambda>(has_file, nest_level, call_line, file_id, key, ranges).
     \<lparr>has_call_site_file_id = has_file, inline_nest_level = to_s32 nest_level, call_site_line = to_s32 call_line,
      call_site_file_id = to_s32 file_id, origin_id = to_s32 key, inline_ranges = ranges\<rparr>)
     (SPH_ParseInline junk line)"

definition Module_ParseFunction :: "string \<Rightarrow> Function option" where
  "Module_ParseFunction line = map_option (\<lambda>(multiple, address, sz, param_size, name).
     Function_new name address sz (to_s32 param_size) multiple) (SPH_ParseFunction line)"

definition Module_ParseLine :: "string \<Rightarrow> Line option" where
  "Module_ParseLine line = map_option (\<lambda>(address, sz, line_number, source_file).
     \<lparr>l_address = address, l_size = sz, l_source_file_id = to_s32 source_file, l_line = to_s32 line_number\<rparr>)
     (SPH_ParseLine line)"

definition Module_ParsePublicSymbol :: "string \<Rightarrow> LoadState \<Rightarrow> LoadState \<times> bool" where
  "Module_ParsePublicSymbol line st = (case SPH_ParsePublicSymbol line of
       None \<Rightarrow> (st, False)
     | Some (multiple, address, param_size, name) \<Rightarrow>
         if address = 0 then (st, True)
         else
           let psym = \<lparr>p_name = name, p_address = address, p_parameter_size = to_s32 param_size, p_is_multiple = multiple\<rparr>;
               (m, ok) = AddressMap_Store (m_public_symbols (ls_module st)) address (Some psym)
           in (st\<lparr>ls_module := (ls_module st)\<lparr>m_public_symbols := m\<rparr>\<rparr>, ok))"

primrec store_inline_ranges ::
  "Inline \<Rightarrow> (u64 \<times> u64) list \<Rightarrow> (u64, Inline option) ContainedRangeMap \<Rightarrow> (u64, Inline option) ContainedRangeMap" where
  "store_inline_ranges x [] inlines = inlines"
| "store_inline_ranges x (rg # ranges) inlines =
     store_inline_ranges x ranges (fst (CRM_StoreRange True inlines (fst rg) (snd rg) (Some x)))"

definition AppendInline :: "Inline \<Rightarrow> Function \<Rightarrow> Function \<times> bool" where
  "AppendInline x f =
     (if last_added_inline_nest_level f + 1 < inline_nest_level x then (f, False)
      else (f\<lparr>last_added_inline_nest_level := inline_nest_level x,
              f_inlines := store_inline_ranges x (inline_ranges x) (f_inlines f)\<rparr>, True))"

section \<open>STACK records\<close>

text \<open>
  The record after its platform: the call frame rules of a range, or the change of rules at an address.
  The third result is the range map's, when \<open>StoreRange\<close> returns.
\<close>

definition Module_ParseCFIFrameInfo :: "string \<Rightarrow> LoadState \<Rightarrow> (LoadState \<times> bool) option" where
  "Module_ParseCFIFrameInfo stack_info_line st =
     (case strtok_r kWhitespace stack_info_line of
        (None, _) \<Rightarrow> Some (st, False)
      | (Some init_or_address, cursor) \<Rightarrow>
          if init_or_address = ''INIT'' then
            (case strtok_r kWhitespace cursor of
               (None, _) \<Rightarrow> Some (st, False)
             | (Some address_field, cursor) \<Rightarrow>
                 (case strtok_r kWhitespace cursor of
                    (None, _) \<Rightarrow> Some (st, False)
                  | (Some size_field, cursor) \<Rightarrow>
                      (case strtok_r newlines cursor of
                         (None, _) \<Rightarrow> Some (st, False)
                       | (Some initial_rules, _) \<Rightarrow>
                           map_option (\<lambda>(m, _).
                               (st\<lparr>ls_module := (ls_module st)\<lparr>m_cfi_initial_rules := m\<rparr>\<rparr>, True))
                             (StoreRange (m_cfi_initial_rules (ls_module st)) (fst (strtoull 16 address_field))
                               (fst (strtoull 16 size_field)) initial_rules))))
          else
            (case strtok_r newlines cursor of
               (None, _) \<Rightarrow> Some (st, False)
             | (Some delta_rules, _) \<Rightarrow>
                 Some (st\<lparr>ls_module := (ls_module st)\<lparr>m_cfi_delta_rules :=
                   om_assign (fst (strtoull 16 init_or_address)) delta_rules (m_cfi_delta_rules (ls_module st))\<rparr>\<rparr>, True)))"

definition store_wfi :: "nat \<Rightarrow> u64 \<Rightarrow> u64 \<Rightarrow> WindowsFrameInfo \<Rightarrow> LoadState \<Rightarrow> LoadState" where
  "store_wfi ty rva code_size info st =
     (let maps = m_windows_frame_info (ls_module st) in
      st\<lparr>ls_module := (ls_module st)\<lparr>m_windows_frame_info :=
        maps[ty := fst (CRM_StoreRange False (maps ! ty) rva code_size (Some info))]\<rparr>\<rparr>)"

text \<open>
  The scan for the end of the platform stops at the end of the line too, and then steps over the
  terminator: what follows is read as the rest of the record. \<open>behind\<close> is the text there, nothing
  when it is outside of the buffer. Tokenizing it in place also cuts it short for the reader of the
  lines, which goes on in the same text: the last result is what is left for it.
\<close>

definition cut_at_token :: "string \<Rightarrow> string" where
  "cut_at_token s =
     (let lead = takeWhile (\<lambda>c. c \<in> set kWhitespace) s;
          tok = takeWhile (\<lambda>c. c \<notin> set kWhitespace) (drop (length lead) s)
      in if tok = [] then s else lead @ tok)"

definition Module_ParseStackInfo ::
  "string \<Rightarrow> string option \<Rightarrow> string \<Rightarrow> LoadState \<Rightarrow> ((LoadState \<times> bool) \<times> string) option" where
  "Module_ParseStackInfo line behind left st =
     (let s = dropWhile (\<lambda>c. c = CHR '' '') (drop 6 line);
          platform = takeWhile (\<lambda>c. c \<notin> set kWhitespace) s;
          over = (dropWhile (\<lambda>c. c \<notin> set kWhitespace) s = []);
          rest = (if over then behind else Some (tl (dropWhile (\<lambda>c. c \<notin> set kWhitespace) s)))
      in if platform = ''WIN'' then
           do {
             text \<leftarrow> rest;
             (case WFI_ParseFromString text of
                None \<Rightarrow> Some ((st, False), left)
              | Some (info, ty, rva, code_size) \<Rightarrow> Some ((store_wfi (nat ty) rva code_size info st, True), left))
           }
         else if platform = ''CFI'' then
           do {
             text \<leftarrow> rest;
             r \<leftarrow> Module_ParseCFIFrameInfo text st;
             Some (r, if over then cut_at_token left else left)
           }
         else Some ((st, False), left))"

section \<open>The lines of a file\<close>

definition has_prefix :: "string \<Rightarrow> string \<Rightarrow> bool" where
  "has_prefix p s \<longleftrightarrow> take (length p) s = p"

definition update_heap :: "nat \<Rightarrow> Function \<Rightarrow> LoadState \<Rightarrow> LoadState" where
  "update_heap i f st = st\<lparr>ls_heap := (ls_heap st)[i := f]\<rparr>"

text \<open>A FUNC record: a new object, which becomes the current function whether or not it is stored.\<close>

definition add_function :: "Function \<Rightarrow> LoadState \<Rightarrow> LoadState option" where
  "add_function f st =
     (let i = length (ls_heap st);
          st = st\<lparr>ls_heap := ls_heap st @ [f], cur_func := Some i\<rparr>
      in map_option (\<lambda>(m, _). st\<lparr>ls_functions := m\<rparr>) (StoreRange (ls_functions st) (f_address f) (f_size f) i))"

definition add_line :: "nat \<Rightarrow> Line \<Rightarrow> LoadState \<Rightarrow> LoadState option" where
  "add_line i line st =
     (let f = ls_heap st ! i in
      map_option (\<lambda>(m, _). update_heap i (f\<lparr>f_lines := m\<rparr>) st)
        (StoreRange (f_lines f) (l_address line) (l_size line) (Some line)))"

definition with_left :: "string \<Rightarrow> LoadState option \<Rightarrow> (LoadState \<times> string) option" where
  "with_left left r = map_option (\<lambda>st. (st, left)) r"

definition load_line ::
  "int \<Rightarrow> string \<Rightarrow> string option \<Rightarrow> string \<Rightarrow> LoadState \<Rightarrow> (LoadState \<times> string) option" where
  "load_line junk buffer behind left st =
     (if has_prefix ''FILE '' buffer then with_left left (Some (check_parse (Module_ParseFile buffer st)))
      else if has_prefix ''STACK '' buffer then
        map_option (\<lambda>(r, left). (check_parse r, left)) (Module_ParseStackInfo buffer behind left st)
      else if has_prefix ''FUNC '' buffer then
        with_left left (case Module_ParseFunction buffer of
            None \<Rightarrow> Some (LogParseError (st\<lparr>cur_func := None\<rparr>))
          | Some f \<Rightarrow> add_function f st)
      else if has_prefix ''PUBLIC '' buffer then
        with_left left (Some (check_parse (Module_ParsePublicSymbol buffer (st\<lparr>cur_func := None\<rparr>))))
      else if has_prefix ''MODULE '' buffer then with_left left (Some st)
      else if has_prefix ''INFO '' buffer then with_left left (Some st)
      else if has_prefix ''INLINE '' buffer then
        with_left left (case Module_ParseInline junk buffer of
            None \<Rightarrow> Some st
          | Some x \<Rightarrow>
              (case cur_func st of
                 None \<Rightarrow> None
               | Some i \<Rightarrow> Some (update_heap i (fst (AppendInline x (ls_heap st ! i))) st)))
      else if has_prefix ''INLINE_ORIGIN '' buffer then
        with_left left (Some (fst (Module_ParseInlineOrigin junk buffer st)))
      else
        with_left left (case cur_func st of
            None \<Rightarrow> Some (LogParseError st)
          | Some i \<Rightarrow>
              (case Module_ParseLine buffer of
                 None \<Rightarrow> Some (LogParseError st)
               | Some line \<Rightarrow> add_line i line st)))"

text \<open>What is behind the next line: more text, or, at its end, a second terminator or nothing.\<close>

definition behind_line :: "bool \<Rightarrow> string \<Rightarrow> string option" where
  "behind_line extra s =
     (let r = dropWhile (\<lambda>c. c \<notin> set newlines) (dropWhile (\<lambda>c. c \<in> set newlines) s)
      in if r \<noteq> [] then Some (tl r) else if extra then Some [] else None)"

lemma length_cut_at_token: "length (cut_at_token s) \<le> length s"
proof -
  let ?l = "takeWhile (\<lambda>c. c \<in> set kWhitespace) s"
  have "length (takeWhile (\<lambda>c. c \<notin> set kWhitespace) (drop (length ?l) s)) \<le> length s - length ?l"
    using length_takeWhile_le [of "\<lambda>c. c \<notin> set kWhitespace" "drop (length ?l) s"] by simp
  moreover have "length ?l \<le> length s"
    by (rule length_takeWhile_le)
  ultimately have "length (?l @ takeWhile (\<lambda>c. c \<notin> set kWhitespace) (drop (length ?l) s)) \<le> length s"
    unfolding length_append by linarith
  then show ?thesis
    by (simp only: cut_at_token_def Let_def split: if_split) simp
qed

lemma load_line_rest:
  "load_line junk buffer behind left st = Some (st', left') \<Longrightarrow> left' = left \<or> left' = cut_at_token left"
  by (auto simp: load_line_def with_left_def Module_ParseStackInfo_def Let_def bind_eq_Some_conv
    split: if_splits option.splits prod.splits)

lemma load_line_left: "load_line junk buffer behind left st = Some (st', left') \<Longrightarrow> length left' \<le> length left"
  using length_cut_at_token [of left] load_line_rest by fastforce

function load_lines :: "int \<Rightarrow> bool \<Rightarrow> string \<Rightarrow> LoadState \<Rightarrow> LoadState option" where
  "load_lines junk extra text st =
     (case strtok_r newlines text of
        (None, _) \<Rightarrow> Some st
      | (Some buffer, left) \<Rightarrow>
          (case load_line junk buffer (behind_line extra text) left st of
             None \<Rightarrow> None
           | Some (st, left) \<Rightarrow>
               if kMaxErrorsBeforeBailing < num_errors st then Some st
               else load_lines junk extra left st))"
  by pat_completeness auto
termination
  by (relation "measure (\<lambda>(junk, extra, txt, st). length txt)")
    (auto dest!: strtok_r_length [OF sym] load_line_left)

declare load_lines.simps [simp del]

lemma load_lines_end: "strtok_r newlines s = (None, left) \<Longrightarrow> load_lines junk extra s st = Some st"
  by (subst load_lines.simps) simp

lemma load_lines_next:
  "strtok_r newlines s = (Some buffer, left) \<Longrightarrow> load_lines junk extra s st =
     (case load_line junk buffer (behind_line extra s) left st of
        None \<Rightarrow> None
      | Some (st, left) \<Rightarrow> if kMaxErrorsBeforeBailing < num_errors st then Some st else load_lines junk extra left st)"
  by (subst load_lines.simps) simp

text \<open>The map of functions, with the objects its entries point to.\<close>

definition resolve_functions :: "LoadState \<Rightarrow> (u64, Function option) RangeMap" where
  "resolve_functions st =
     \<lparr>merge_strategy = merge_strategy (ls_functions st),
      rm_map = map (\<lambda>p. (fst p, \<lparr>r_base = r_base (snd p), r_delta = r_delta (snd p),
        r_entry = Some (ls_heap st ! r_entry (snd p))\<rparr>)) (rm_map (ls_functions st))\<rparr>"

definition finish_load :: "LoadState \<Rightarrow> Module" where
  "finish_load st = (ls_module st)\<lparr>m_functions := resolve_functions st, m_is_corrupt := 0 < num_errors st\<rparr>"

text \<open>
  The buffer is as long as the size given. Its last character becomes a terminator; terminators in
  front of the last text are replaced by underscores and counted as one error. An empty buffer
  leaves the module as it was made.
\<close>

definition load_text :: "string \<Rightarrow> string" where
  "load_text buffer = rev (dropWhile (\<lambda>c. c = CHR 0x00) (rev (butlast buffer)))"

definition LoadMapFromMemory :: "int \<Rightarrow> string \<Rightarrow> Module option" where
  "LoadMapFromMemory junk memory_buffer =
     (if memory_buffer = [] then Some Module_new
      else
        let text = load_text memory_buffer;
            middle = (CHR 0x00 \<in> set text);
            text' = map (\<lambda>c. if c = CHR 0x00 then CHR ''_'' else c) text;
            extra = (length text + 1 < length memory_buffer);
            st = (if middle then LogParseError LoadState_new else LoadState_new)
        in map_option finish_load (load_lines junk extra text' st))"

text \<open>What a line does to the state, record by record.\<close>

lemma load_line_cases:
  assumes "load_line junk buffer behind left st = Some (st', left')"
  obtains (fil) "st' = check_parse (Module_ParseFile buffer st)"
  | (stack) r where "Module_ParseStackInfo buffer behind left st = Some (r, left')" "st' = check_parse r"
  | (not_function) "st' = LogParseError (st\<lparr>cur_func := None\<rparr>)"
  | (func) f where "Module_ParseFunction buffer = Some f" "add_function f st = Some st'"
  | (public) "st' = check_parse (Module_ParsePublicSymbol buffer (st\<lparr>cur_func := None\<rparr>))"
  | (same) "st' = st"
  | (inl) x i where "Module_ParseInline junk buffer = Some x" "cur_func st = Some i"
      "st' = update_heap i (fst (AppendInline x (ls_heap st ! i))) st"
  | (inline_origin) "st' = fst (Module_ParseInlineOrigin junk buffer st)"
  | (no_line) "st' = LogParseError st"
  | (line) l i where "Module_ParseLine buffer = Some l" "cur_func st = Some i" "add_line i l st = Some st'"
proof -
  let ?p = "\<lambda>s. has_prefix s buffer"
  note l = assms [unfolded load_line_def with_left_def]
  consider (1) "?p ''FILE ''"
    | (2) "\<not> ?p ''FILE ''" "?p ''STACK ''"
    | (3) "\<not> ?p ''FILE ''" "\<not> ?p ''STACK ''" "?p ''FUNC ''"
    | (4) "\<not> ?p ''FILE ''" "\<not> ?p ''STACK ''" "\<not> ?p ''FUNC ''" "?p ''PUBLIC ''"
    | (5) "\<not> ?p ''FILE ''" "\<not> ?p ''STACK ''" "\<not> ?p ''FUNC ''" "\<not> ?p ''PUBLIC ''" "?p ''MODULE '' \<or> ?p ''INFO ''"
    | (6) "\<not> ?p ''FILE ''" "\<not> ?p ''STACK ''" "\<not> ?p ''FUNC ''" "\<not> ?p ''PUBLIC ''" "\<not> ?p ''MODULE ''" "\<not> ?p ''INFO ''"
        "?p ''INLINE ''"
    | (7) "\<not> ?p ''FILE ''" "\<not> ?p ''STACK ''" "\<not> ?p ''FUNC ''" "\<not> ?p ''PUBLIC ''" "\<not> ?p ''MODULE ''" "\<not> ?p ''INFO ''"
        "\<not> ?p ''INLINE ''" "?p ''INLINE_ORIGIN ''"
    | (8) "\<not> ?p ''FILE ''" "\<not> ?p ''STACK ''" "\<not> ?p ''FUNC ''" "\<not> ?p ''PUBLIC ''" "\<not> ?p ''MODULE ''" "\<not> ?p ''INFO ''"
        "\<not> ?p ''INLINE ''" "\<not> ?p ''INLINE_ORIGIN ''"
    by fast
  then show ?thesis
  proof cases
    case 1
    then show ?thesis
      using l fil by simp
  next
    case 2
    then show ?thesis
      using l stack by auto
  next
    case 3
    then show ?thesis
      using l not_function func by (simp split: option.splits)
  next
    case 4
    then show ?thesis
      using l public by simp
  next
    case 5
    then show ?thesis
      using l same by (auto split: if_splits)
  next
    case 6
    then show ?thesis
      using l same inl by (simp split: option.splits)
  next
    case 7
    then show ?thesis
      using l inline_origin by simp
  next
    case 8
    then show ?thesis
      using l no_line line by (simp split: option.splits)
  qed
qed

end
