(* ===== verification/Token_Facts.thy ===== *)
theory Token_Facts
  imports Symbol_Records
begin

text \<open>
  Facts about \<open>Tokenize\<close> and the record parsers that hold for every input: tokens are parts of their
  text and there are no more of them than asked for.
\<close>

section \<open>Tokens are parts of their text\<close>

lemma strtok_r_subset:
  assumes "strtok_r seps s = (t, rest)"
  shows "set rest \<subseteq> set s" and "t = Some x \<Longrightarrow> set x \<subseteq> set s"
proof -
  let ?s = "dropWhile (\<lambda>c. c \<in> set seps) s"
  have s: "set ?s \<subseteq> set s"
    by (auto dest: set_dropWhileD)
  have "set (tl (dropWhile (\<lambda>c. c \<notin> set seps) ?s)) \<subseteq> set ?s"
    by (metis list.set_sel(2) list.sel(2) set_dropWhileD subsetI)
  then show "set rest \<subseteq> set s"
    using assms s by (auto simp: strtok_r_def Let_def split: if_splits)
  show "set x \<subseteq> set s" if "t = Some x"
    using assms s that by (auto simp: strtok_r_def Let_def split: if_splits dest: set_takeWhileD)
qed

lemma tokenize_loop_subset:
  assumes "tokenize_loop seps n token save toks = (toks', n', save')"
    "set save \<subseteq> A" "\<forall>t. token = Some t \<longrightarrow> set t \<subseteq> A" "\<forall>t\<in>set toks. set t \<subseteq> A"
  shows "(\<forall>t\<in>set toks'. set t \<subseteq> A) \<and> set save' \<subseteq> A"
  using assms
proof (induction seps n token save toks rule: tokenize_loop.induct)
  case (1 seps n token save toks)
  show ?case
  proof (cases token)
    case None
    then show ?thesis
      using 1(2-5) by (simp add: tokenize_loop.simps)
  next
    case (Some t)
    show ?thesis
    proof (cases "0 < n - 1")
      case False
      then show ?thesis
        using 1(2-5) Some by (simp add: tokenize_loop.simps)
    next
      case True
      obtain tk sv where tk: "(if 1 < n - 1 then strtok_r seps save else (token, save)) = (tk, sv)"
        by (meson surj_pair)
      have "set sv \<subseteq> A" "\<forall>u. tk = Some u \<longrightarrow> set u \<subseteq> A"
        using tk 1(3,4) strtok_r_subset [of seps save tk sv] by (simp_all split: if_splits) (blast+)
      moreover have "tokenize_loop seps (n - 1) tk sv (toks @ [t]) = (toks', n', save')"
        using 1(2) True Some tk by (subst (asm) tokenize_loop.simps) (simp add: Let_def)
      ultimately show ?thesis
        using 1(1) [OF Some refl True tk [symmetric] refl] 1(4,5) Some by simp
    qed
  qed
qed

lemma Tokenize_subset: "Tokenize line seps n = (toks, ok) \<Longrightarrow> \<forall>t\<in>set toks. set t \<subseteq> set line"
proof -
  assume t: "Tokenize line seps n = (toks, ok)"
  obtain token save where a: "strtok_r seps line = (token, save)"
    by (meson surj_pair)
  obtain toks1 n' save' where b: "tokenize_loop seps n token save [] = (toks1, n', save')"
    by (metis surj_pair)
  have c: "(\<forall>t\<in>set toks1. set t \<subseteq> set line) \<and> set save' \<subseteq> set line"
    by (rule tokenize_loop_subset [OF b]) (use strtok_r_subset [OF a] in auto)
  obtain tk sv where d: "strtok_r newlines save' = (tk, sv)"
    by (meson surj_pair)
  have "\<forall>u. tk = Some u \<longrightarrow> set u \<subseteq> set line"
    using strtok_r_subset(2) [OF d] c by blast
  moreover have "set toks \<subseteq> set toks1 \<union> {u. tk = Some u}"
    using t by (auto simp: Tokenize_def a b d Let_def split: if_splits option.splits)
  ultimately show ?thesis
    using c by blast
qed

lemma Tokenize_length: "Tokenize line seps n = (toks, True) \<Longrightarrow> int (length toks) = n"
  by (auto simp: Tokenize_def Let_def split: prod.splits)

lemma Tokenize_nth:
  assumes "Tokenize line seps n = (toks, True)" "int i < n"
  shows "set (toks ! i) \<subseteq> set line"
  using Tokenize_subset [OF assms(1)] Tokenize_length [OF assms(1)] assms(2) by auto

lemma TokenizeWithOptionalField_nth:
  assumes "TokenizeWithOptionalField line opt seps n = Some toks" "3 < n"
  shows "toks \<noteq> []" and "i < length toks \<Longrightarrow> set (toks ! i) \<subseteq> set line"
    and "int (length toks) = (if toks ! 0 = opt then n else n - 1)"
proof -
  obtain ts ok where ts: "Tokenize line seps (n - 1) = (ts, ok)"
    by (meson surj_pair)
  have ok: "ok"
    using assms(1) ts by (auto simp: TokenizeWithOptionalField_def split: if_splits)
  have l: "int (length ts) = n - 1" "\<forall>t\<in>set ts. set t \<subseteq> set line"
    using Tokenize_length ts ok Tokenize_subset [OF ts] by auto
  then have ne: "ts \<noteq> []" "2 < length ts"
    using assms(2) by auto
  have "toks \<noteq> [] \<and> (\<forall>t\<in>set toks. set t \<subseteq> set line) \<and> int (length toks) = (if toks ! 0 = opt then n else n - 1)"
  proof (cases "hd ts = opt")
    case False
    then have "toks = ts"
      using assms(1) ok by (simp add: TokenizeWithOptionalField_def ts)
    then show ?thesis
      using l ne False by (simp add: hd_conv_nth)
  next
    case True
    obtain us ok2 where us: "Tokenize (last ts) seps 2 = (us, ok2)"
      by (meson surj_pair)
    then have "ok2" "toks = butlast ts @ [us ! 0, us ! 1]"
      using assms(1) ok True by (auto simp: TokenizeWithOptionalField_def ts Let_def split: if_splits)
    moreover from this have "set (us ! 0) \<subseteq> set (last ts)" "set (us ! 1) \<subseteq> set (last ts)"
      using Tokenize_nth [of "last ts" seps 2 us] us by auto
    moreover have "set (last ts) \<subseteq> set line"
      using l(2) ne(1) by simp
    moreover from calculation have "set (us ! 0) \<subseteq> set line" "set (us ! 1) \<subseteq> set line"
      by blast+
    moreover have "(butlast ts @ [us ! 0, us ! 1]) ! 0 = opt"
      using True ne by (simp add: hd_conv_nth nth_append nth_butlast)
    ultimately show ?thesis
      using l ne by (auto dest: in_set_butlastD)
  qed
  then show "toks \<noteq> []" "i < length toks \<Longrightarrow> set (toks ! i) \<subseteq> set line"
    "int (length toks) = (if toks ! 0 = opt then n else n - 1)"
    by auto
qed

lemma tokenize_loop_length:
  "tokenize_loop seps n token save toks = (toks', n', save') \<Longrightarrow> 0 \<le> n \<Longrightarrow>
    int (length toks') + max 0 n' \<le> int (length toks) + max 1 n \<and> (0 < n' \<or> int (length toks') \<le> int (length toks) + max 0 (n - 1))"
proof (induction seps n token save toks rule: tokenize_loop.induct)
  case (1 seps n token save toks)
  show ?case
  proof (cases token)
    case None
    then show ?thesis
      using 1(2,3) by (auto simp: tokenize_loop.simps)
  next
    case (Some t)
    show ?thesis
    proof (cases "0 < n - 1")
      case False
      then show ?thesis
        using 1(2,3) Some by (auto simp: tokenize_loop.simps)
    next
      case True
      obtain tk sv where tk: "(if 1 < n - 1 then strtok_r seps save else (token, save)) = (tk, sv)"
        by (meson surj_pair)
      have "tokenize_loop seps (n - 1) tk sv (toks @ [t]) = (toks', n', save')"
        using 1(2) True Some tk by (subst (asm) tokenize_loop.simps) (simp add: Let_def)
      then show ?thesis
        using 1(1) [OF Some refl True tk [symmetric] refl] True by auto
    qed
  qed
qed

lemma Tokenize_le: "Tokenize line seps n = (toks, ok) \<Longrightarrow> 2 \<le> n \<Longrightarrow> int (length toks) \<le> n"
proof -
  assume t: "Tokenize line seps n = (toks, ok)" and n: "2 \<le> n"
  obtain token save where a: "strtok_r seps line = (token, save)"
    by (meson surj_pair)
  obtain toks1 n' save' where b: "tokenize_loop seps n token save [] = (toks1, n', save')"
    by (metis surj_pair)
  show ?thesis
    using t n tokenize_loop_length [OF b] by (auto simp: Tokenize_def a b Let_def split: if_splits option.splits)
qed

section \<open>Records of any line\<close>

lemma SPH_ParseFile_subset: "SPH_ParseFile s = Some (i, name) \<Longrightarrow> set name \<subseteq> set s"
  using Tokenize_nth [of "drop 5 s" kWhitespace 2 _ 1] set_drop_subset [of 5 s]
  by (auto simp: SPH_ParseFile_def bind_eq_Some_conv split: prod.splits if_splits)

lemma SPH_ParseInlineOrigin_subset:
  assumes "SPH_ParseInlineOrigin junk s = Some (has, key, file, name)"
  shows "set name \<subseteq> set s"
proof -
  obtain toks where t: "Tokenize (drop 14 s) kWhitespace 2 = (toks, True)"
    using assms by (auto simp: SPH_ParseInlineOrigin_def split: prod.splits if_splits)
  have 1: "set (toks ! 1) \<subseteq> set s"
    using Tokenize_nth [OF t, of 1] set_drop_subset [of 14 s] by auto
  show ?thesis
  proof (cases "is_file_id 0 (toks ! 1)")
    case True
    obtain us ok where us: "Tokenize (toks ! 1) kWhitespace 2 = (us, ok)"
      by (meson surj_pair)
    then have "Tokenize (toks ! 1) kWhitespace 2 = (us, True)" "name = us ! 1"
      using assms True by (auto simp: SPH_ParseInlineOrigin_def t bind_eq_Some_conv split: if_splits)
    then show ?thesis
      using Tokenize_nth [of "toks ! 1" kWhitespace 2 us 1] 1 by auto
  next
    case False
    then show ?thesis
      using assms 1 by (auto simp: SPH_ParseInlineOrigin_def t bind_eq_Some_conv split: prod.splits if_splits)
  qed
qed

lemma SPH_ParseFunction_subset:
  assumes "SPH_ParseFunction s = Some (multiple, address, sz, param_size, name)"
  shows "set name \<subseteq> set s"
proof -
  obtain toks where t: "TokenizeWithOptionalField (drop 5 s) ''m'' kWhitespace 5 = Some toks"
    and n: "name = toks ! ((if toks ! 0 = ''m'' then 1 else 0) + 3)"
    using assms by (auto simp: SPH_ParseFunction_def Let_def bind_eq_Some_conv)
  have "(if toks ! 0 = ''m'' then 1 else 0) + 3 < length toks"
    using TokenizeWithOptionalField_nth(3) [OF t] by (cases "toks ! 0 = ''m''") simp_all
  then show ?thesis
    using TokenizeWithOptionalField_nth(2) [OF t] n set_drop_subset [of 5 s] by fastforce
qed

lemma SPH_ParsePublicSymbol_subset:
  assumes "SPH_ParsePublicSymbol s = Some (multiple, address, param_size, name)"
  shows "set name \<subseteq> set s"
proof -
  obtain toks where t: "TokenizeWithOptionalField (drop 7 s) ''m'' kWhitespace 4 = Some toks"
    and n: "name = toks ! ((if toks ! 0 = ''m'' then 1 else 0) + 2)"
    using assms by (auto simp: SPH_ParsePublicSymbol_def Let_def bind_eq_Some_conv)
  have "(if toks ! 0 = ''m'' then 1 else 0) + 2 < length toks"
    using TokenizeWithOptionalField_nth(3) [OF t] by (cases "toks ! 0 = ''m''") simp_all
  then show ?thesis
    using TokenizeWithOptionalField_nth(2) [OF t] n set_drop_subset [of 7 s] by fastforce
qed

lemma inline_pairs_length: "inline_pairs toks = Some ranges \<Longrightarrow> 2 * length ranges \<le> length toks"
  by (induction toks arbitrary: ranges rule: inline_pairs.induct) (auto simp: bind_eq_Some_conv)

lemma SPH_ParseInline_ranges:
  assumes "SPH_ParseInline junk s = Some (has, level, ln, file, key, ranges)"
  shows "length ranges \<le> 254"
proof -
  obtain toks ok where t: "Tokenize (drop 7 s) kWhitespace 512 = (toks, ok)"
    by (meson surj_pair)
  obtain k where "inline_pairs (drop k toks) = Some ranges" "3 \<le> k"
    using assms t by (auto simp: SPH_ParseInline_def Let_def bind_eq_Some_conv split: if_splits)
  then show ?thesis
    using inline_pairs_length [of "drop k toks" ranges] Tokenize_le [OF t] by auto
qed

lemma WFI_ParseFromString_fields:
  assumes "WFI_ParseFromString s = Some (info, ty, rva, code_size)"
  shows "0 \<le> ty" "ty \<le> 4" "w_valid info = VALID_ALL" "set (program_string info) \<subseteq> set s"
proof -
  obtain toks where t: "Tokenize s kWhitespace 11 = (toks, True)"
    using assms by (auto simp: WFI_ParseFromString_def split: prod.splits if_splits)
  have "set (toks ! 10) \<subseteq> set s"
    using Tokenize_nth [OF t, of 10] by simp
  then show "0 \<le> ty" "ty \<le> 4" "w_valid info = VALID_ALL" "set (program_string info) \<subseteq> set s"
    using assms by (auto simp: WFI_ParseFromString_def t Let_def WindowsFrameInfo_of_def STACK_INFO_LAST_def split: if_splits)
qed

lemma to_s32_range [simp]: "- (2 ^ 31) \<le> to_s32 k" "to_s32 k < 2 ^ 31"
  using sint_greater_eq [of "of_int k :: u32"] sint_less [of "of_int k :: u32"] by (simp_all add: to_s32_def)

lemma to_s32_id: "- (2 ^ 31) \<le> k \<Longrightarrow> k < 2 ^ 31 \<Longrightarrow> to_s32 k = k"
  by (simp add: to_s32_def signed_of_int signed_take_bit_int_eq_self)

end
