(* ===== verification/Number_Text.thy ===== *)
theory Number_Text
  imports Token_Facts
begin

text \<open>
  Numbers as a stream prints them, in decimal with a sign and in hexadecimal with lower case letters,
  and what the record parsers read from that text.
\<close>

section \<open>Printing\<close>

definition hex_digit :: "nat \<Rightarrow> char" where
  "hex_digit d = char_of (if d < 10 then 48 + d else 87 + d)"

fun show_hex :: "nat \<Rightarrow> string" where
  "show_hex n = (if n < 16 then [hex_digit n] else show_hex (n div 16) @ [hex_digit (n mod 16)])"

declare show_hex.simps [simp del]

abbreviation hex_word :: "'w::len word \<Rightarrow> string" where
  "hex_word w \<equiv> show_hex (unat w)"

definition show_int :: "int \<Rightarrow> string" where
  "show_int k = (if k < 0 then CHR ''-'' # show_nat (nat (- k)) else show_nat (nat k))"

lemma show_hex_not_Nil [simp]: "show_hex n \<noteq> []"
  by (subst show_hex.simps) simp

lemma show_int_not_Nil [simp]: "show_int k \<noteq> []"
  by (simp add: show_int_def)

section \<open>Digits\<close>

lemma lt16_cases:
  assumes "d < (16::nat)"
  shows "d = 0 \<or> d = 1 \<or> d = 2 \<or> d = 3 \<or> d = 4 \<or> d = 5 \<or> d = 6 \<or> d = 7 \<or> d = 8 \<or> d = 9 \<or> d = 10 \<or> d = 11 \<or>
    d = 12 \<or> d = 13 \<or> d = 14 \<or> d = 15"
  using assms by presburger

lemma of_char_hex_digit: "d < 16 \<Longrightarrow> of_char (hex_digit d) = (if d < 10 then 48 + d else 87 + d :: nat)"
  by (simp add: hex_digit_def)

lemma digit_val_hex_digit [simp]: "d < 16 \<Longrightarrow> digit_val 16 (hex_digit d) = Some d"
  by (simp add: digit_val_def of_char_hex_digit Let_def)

text \<open>Characters of a number: no space, no sign, not the letter of a prefix.\<close>

definition number_char :: "char \<Rightarrow> bool" where
  "number_char c \<longleftrightarrow> (let n = (of_char c :: nat) in 48 \<le> n \<and> n \<le> 57 \<or> 97 \<le> n \<and> n \<le> 102)"

lemma number_char_hex: "d < 16 \<Longrightarrow> number_char (hex_digit d)"
  by (simp add: number_char_def of_char_hex_digit)

lemma number_char_digit: "isdigit c \<Longrightarrow> number_char c"
  by (simp add: number_char_def isdigit_def Let_def)

lemma number_char_props:
  assumes "number_char c"
  shows "\<not> isspace c" "c \<noteq> CHR ''-''" "c \<noteq> CHR ''+''" "c \<noteq> CHR ''x''" "c \<noteq> CHR ''X''" "c \<notin> set kWhitespace"
    "c \<notin> set newlines" "c \<noteq> CHR 0x00" "c \<noteq> CHR ''m''" "c \<noteq> CHR '' ''"
  using assms by (auto simp: number_char_def isspace_def kWhitespace_def newlines_def Let_def)

lemma isdigit_val:
  assumes "isdigit c"
  shows "\<exists>d<10. digit_val 10 c = Some d \<and> digit_val 16 c = Some d"
  using assms by (auto simp: isdigit_def digit_val_def Let_def)

lemma show_hex_chars: "list_all number_char (show_hex n)"
proof (induction n rule: show_hex.induct)
  case (1 n)
  then show ?case
    by (subst show_hex.simps) (simp add: number_char_hex)
qed

lemma is_digit_in_hex [simp]: "d < 16 \<Longrightarrow> is_digit_in 16 (hex_digit d)"
  by (simp add: is_digit_in_def)

lemma show_hex_digits: "list_all (is_digit_in 16) (show_hex n)"
proof (induction n rule: show_hex.induct)
  case (1 n)
  then show ?case
    by (subst show_hex.simps) simp
qed

lemma digits_val_show_hex [simp]: "digits_val 16 (show_hex n) = n"
proof (induction n rule: show_hex.induct)
  case (1 n)
  show ?case
  proof (cases "n < 16")
    case True
    then show ?thesis
      by (subst show_hex.simps) (simp add: digits_val_def)
  next
    case False
    then show ?thesis
      using 1 by (subst show_hex.simps) (simp add: digits_val_snoc)
  qed
qed

lemma show_nat_chars: "list_all number_char (show_nat n)"
  using show_nat_digits [of n] by (auto simp: list_all_iff number_char_digit)

lemma show_nat_is_digit: "list_all (is_digit_in 10) (show_nat n)"
  using show_nat_digits [of n] isdigit_val by (fastforce simp: list_all_iff is_digit_in_def)

section \<open>Scanning\<close>

lemma strto_scan_digits:
  assumes "s \<noteq> []" "list_all number_char s" "list_all (is_digit_in base) s"
    "rest = [] \<or> \<not> is_digit_in base (hd rest) \<and> hd rest \<noteq> CHR ''x'' \<and> hd rest \<noteq> CHR ''X''"
  shows "strto_scan base (s @ rest) = Some (False, digits_val base s, rest)"
proof -
  obtain c cs where s: "s = c # cs"
    using assms(1) by (cases s) auto
  have c: "number_char c"
    using assms(2) s by simp
  note p = number_char_props [OF c]
  have d1: "dropWhile isspace (s @ rest) = s @ rest"
    using p(1) by (simp add: s)
  have x: "(s @ rest) ! 1 \<noteq> CHR ''x'' \<and> (s @ rest) ! 1 \<noteq> CHR ''X''" if l: "2 < length (s @ rest)"
  proof (cases cs)
    case Nil
    then show ?thesis
      using assms(4) l s by (cases rest) auto
  next
    case (Cons d ds)
    then have "number_char d"
      using assms(2) s by simp
    then show ?thesis
      using number_char_props s Cons by simp
  qed
  have t: "takeWhile (is_digit_in base) (s @ rest) = s" "dropWhile (is_digit_in base) (s @ rest) = rest"
    using assms(3,4) by (auto simp: list_all_iff takeWhile_append dropWhile_append takeWhile_eq_Nil_iff dropWhile_eq_self_iff)
  let ?s = "s @ rest"
  have neg: "(?s \<noteq> [] \<and> hd ?s = CHR ''-'') = False" "(?s \<noteq> [] \<and> (hd ?s = CHR ''-'' \<or> hd ?s = CHR ''+'')) = False"
    using p(2,3) by (simp_all add: s)
  have prefix: "(base = 16 \<and> 2 < length ?s \<and> ?s ! 0 = CHR ''0'' \<and> (?s ! 1 = CHR ''x'' \<or> ?s ! 1 = CHR ''X'') \<and>
      is_digit_in 16 (?s ! 2)) = False"
    using x by blast
  show ?thesis
    unfolding strto_scan_def Let_def d1 neg if_False prefix t using assms(1) by simp
qed

lemma strto_scan_hex: "strto_scan 16 (show_hex n) = Some (False, n, [])"
  using strto_scan_digits [of "show_hex n" 16 "[]"] show_hex_chars show_hex_digits by simp

lemma strto_scan_nat: "strto_scan 10 (show_nat n) = Some (False, n, [])"
  using strto_scan_digits [of "show_nat n" 10 "[]"] show_nat_chars show_nat_is_digit by simp

lemma strto_scan_neg: "strto_scan 10 (CHR ''-'' # show_nat n) = Some (True, n, [])"
proof -
  have t: "takeWhile (is_digit_in 10) (show_nat n) = show_nat n" "dropWhile (is_digit_in 10) (show_nat n) = []"
    using show_nat_is_digit [of n] by (auto simp: list_all_iff takeWhile_eq_all_conv dropWhile_eq_Nil_conv)
  have "\<not> isspace CHR ''-''"
    by (simp add: isspace_def)
  then show ?thesis
    by (simp add: strto_scan_def Let_def t)
qed

section \<open>What the parsers read\<close>

lemma strtoull_hex [simp]: "strtoull 16 (hex_word (w::u64)) = (w, [])"
proof -
  have "\<not> 2 ^ 64 \<le> unat w"
    using unat_u64_less [of w] unfolding not_le by simp
  then show ?thesis
    by (simp only: strtoull_def strto_scan_hex option.case prod.case if_False) simp
qed

lemma strtoull_hex_u32 [simp]: "strtoul_u32 (hex_word (w::u32)) = w"
proof -
  have "unat w < 2 ^ 64"
    by (rule order_less_le_trans [OF unsigned_less]) simp
  moreover have "ucast (ucast w :: u64) = w"
    by (rule ucast_up_ucast_id) (simp add: is_up)
  ultimately show ?thesis
    by (simp add: strtoul_u32_def strtoull_def strto_scan_hex)
qed

lemma checked_address_hex [simp]: "w \<noteq> ULLONG_MAX \<Longrightarrow> checked_address (hex_word w) = Some w"
  by (simp add: checked_address_def IsValidAfterNumber_def)

lemma checked_long_hex:
  "int n < LONG_MAX \<Longrightarrow> lowest \<le> int n \<Longrightarrow> checked_long 16 lowest (show_hex n) = Some (int n)"
  by (simp add: checked_long_def strtol_def strto_scan_hex IsValidAfterNumber_def)

lemma checked_long_int:
  assumes "- (2 ^ 63) \<le> k" "k < LONG_MAX" "lowest \<le> k"
  shows "checked_long 10 lowest (show_int k) = Some k"
  using assms
  by (cases "k < 0") (simp_all add: checked_long_def strtol_def strto_scan_nat strto_scan_neg show_int_def IsValidAfterNumber_def)

section \<open>Numbers are tokens\<close>

lemma is_token_hex [simp]: "is_token kWhitespace (show_hex n)"
  using show_hex_chars [of n] number_char_props(6) by (auto simp: is_token_def list_all_iff)

lemma is_token_int [simp]: "is_token kWhitespace (show_int k)"
  using show_nat_chars number_char_props(6) by (auto simp: is_token_def list_all_iff show_int_def kWhitespace_def)

lemma show_hex_not_m [simp]: "show_hex n \<noteq> ''m''"
  using show_hex_chars [of n] number_char_props(9) [of "CHR ''m''"] by auto

lemma show_hex_nul_free [simp]: "CHR 0x00 \<notin> set (show_hex n)"
  using show_hex_chars [of n] number_char_props(8) by (auto simp: list_all_iff)

lemma newlines_whitespace: "c \<in> set newlines \<Longrightarrow> c \<in> set kWhitespace"
  by (auto simp: newlines_def kWhitespace_def)

end
