(* ===== verification/Postfix_Evaluator.thy ===== *)
theory Postfix_Evaluator
  imports C_Strings
begin

text \<open>
  processor/postfix_evaluator.h and postfix_evaluator-inl.h: the evaluator of the postfix programs in
  STACK records. Values are words of the template's width; memory is a parameter, the
  \<open>GetMemoryAtAddress\<close> of the memory region, or no region. The stack holds strings, its top first.
  A run that crashes the process (a division by zero, a store through a null pointer) is \<open>None\<close>.
\<close>

unbundle bit_operations_syntax

section \<open>State\<close>

record 'v Evaluator =
  dictionary :: "string \<Rightarrow> 'v option"
  assigned :: "(string \<Rightarrow> bool option) option"
  stack :: "string list"

type_synonym 'w memory_region = "u64 \<Rightarrow> 'w word option"

datatype BinaryOperation =
    BINARY_OP_ADD | BINARY_OP_SUBTRACT | BINARY_OP_MULTIPLY
  | BINARY_OP_DIVIDE_QUOTIENT | BINARY_OP_DIVIDE_MODULUS | BINARY_OP_ALIGN

datatype 'v PopResult = POP_RESULT_FAIL | POP_RESULT_VALUE 'v | POP_RESULT_IDENTIFIER string

section \<open>The stack\<close>

text \<open>
  \<open>operator>>\<close> of a stream into an unsigned value, when it consumes the whole string: an optional
  sign and decimal digits, no overflow.
\<close>

definition read_unsigned :: "string \<Rightarrow> 'w::len word option" where
  "read_unsigned s =
     (let neg = (s \<noteq> [] \<and> hd s = CHR ''-'');
          ds = (if s \<noteq> [] \<and> (hd s = CHR ''-'' \<or> hd s = CHR ''+'') then tl s else s)
      in if ds = [] \<or> \<not> list_all isdigit ds \<or> 2 ^ LENGTH('w) \<le> digits_val 10 ds then None
         else Some (if neg then - of_nat (digits_val 10 ds) else of_nat (digits_val 10 ds)))"

text \<open>
  The flag is whether the caller passes a pointer for the value: without one, a negative literal is
  negated through the null pointer.
\<close>

definition PopValueOrIdentifier ::
  "bool \<Rightarrow> 'w::len word Evaluator \<Rightarrow> ('w word Evaluator \<times> 'w word PopResult) option" where
  "PopValueOrIdentifier has_value st =
     (case stack st of
        [] \<Rightarrow> Some (st, POP_RESULT_FAIL)
      | token # rest \<Rightarrow>
          (let st = st\<lparr>stack := rest\<rparr>;
               negative = (token \<noteq> [] \<and> hd token = CHR ''-'')
           in case read_unsigned (if negative then tl token else token) of
                Some literal \<Rightarrow>
                  if negative then
                    (if has_value then Some (st, POP_RESULT_VALUE (- literal)) else None)
                  else Some (st, POP_RESULT_VALUE literal)
              | None \<Rightarrow> Some (st, POP_RESULT_IDENTIFIER token)))"

definition PopValue :: "'w::len word Evaluator \<Rightarrow> ('w word Evaluator \<times> 'w word option) option" where
  "PopValue st = Option.bind (PopValueOrIdentifier True st)
     (\<lambda>(st, result). case result of
        POP_RESULT_FAIL \<Rightarrow> Some (st, None)
      | POP_RESULT_VALUE literal \<Rightarrow> Some (st, Some literal)
      | POP_RESULT_IDENTIFIER token \<Rightarrow> Some (st, dictionary st token))"

definition PopValues :: "'w::len word Evaluator \<Rightarrow> ('w word Evaluator \<times> ('w word \<times> 'w word) option) option" where
  "PopValues st = Option.bind (PopValue st)
     (\<lambda>(st, value2). case value2 of
        None \<Rightarrow> Some (st, None)
      | Some v2 \<Rightarrow> Option.bind (PopValue st)
          (\<lambda>(st, value1). Some (st, map_option (\<lambda>v1. (v1, v2)) value1)))"

definition PushValue :: "'w::len word \<Rightarrow> 'w word Evaluator \<Rightarrow> 'w word Evaluator" where
  "PushValue v st = st\<lparr>stack := show_nat (unat v) # stack st\<rparr>"

section \<open>Evaluation\<close>

definition operation_of :: "string \<Rightarrow> BinaryOperation option" where
  "operation_of token =
     (if token = ''+'' then Some BINARY_OP_ADD
      else if token = ''-'' then Some BINARY_OP_SUBTRACT
      else if token = ''*'' then Some BINARY_OP_MULTIPLY
      else if token = ''/'' then Some BINARY_OP_DIVIDE_QUOTIENT
      else if token = ''%'' then Some BINARY_OP_DIVIDE_MODULUS
      else if token = ''@'' then Some BINARY_OP_ALIGN
      else None)"

definition binary_result :: "BinaryOperation \<Rightarrow> 'w::len word \<Rightarrow> 'w word \<Rightarrow> 'w word option" where
  "binary_result operation operand1 operand2 = (case operation of
       BINARY_OP_ADD \<Rightarrow> Some (operand1 + operand2)
     | BINARY_OP_SUBTRACT \<Rightarrow> Some (operand1 - operand2)
     | BINARY_OP_MULTIPLY \<Rightarrow> Some (operand1 * operand2)
     | BINARY_OP_DIVIDE_QUOTIENT \<Rightarrow> (if operand2 = 0 then None else Some (operand1 div operand2))
     | BINARY_OP_DIVIDE_MODULUS \<Rightarrow> (if operand2 = 0 then None else Some (operand1 mod operand2))
     | BINARY_OP_ALIGN \<Rightarrow> Some (operand1 AND (- 1 XOR (operand2 - 1))))"

definition EvaluateToken ::
  "'w::len memory_region option \<Rightarrow> string \<Rightarrow> 'w word Evaluator \<Rightarrow> ('w word Evaluator \<times> bool) option" where
  "EvaluateToken mem token st =
     (case operation_of token of
        Some operation \<Rightarrow>
          Option.bind (PopValues st) (\<lambda>(st, operands). case operands of
              None \<Rightarrow> Some (st, False)
            | Some (operand1, operand2) \<Rightarrow>
                Option.bind (binary_result operation operand1 operand2) (\<lambda>res. Some (PushValue res st, True)))
      | None \<Rightarrow>
          if token = ''^'' then
            (case mem of
               None \<Rightarrow> Some (st, False)
             | Some region \<Rightarrow>
                 Option.bind (PopValue st) (\<lambda>(st, address). case address of
                     None \<Rightarrow> Some (st, False)
                   | Some a \<Rightarrow>
                       (case region (ucast a) of
                          None \<Rightarrow> Some (st, False)
                        | Some v \<Rightarrow> Some (PushValue v st, True))))
          else if token = ''='' then
            Option.bind (PopValue st) (\<lambda>(st, value). case value of
                None \<Rightarrow> Some (st, False)
              | Some v \<Rightarrow>
                  Option.bind (PopValueOrIdentifier False st) (\<lambda>(st, result). case result of
                      POP_RESULT_IDENTIFIER identifier \<Rightarrow>
                        if identifier = [] \<or> hd identifier \<noteq> CHR ''$'' then Some (st, False)
                        else Some (st\<lparr>dictionary := (dictionary st)(identifier \<mapsto> v),
                          assigned := map_option (\<lambda>a. a(identifier \<mapsto> True)) (assigned st)\<rparr>, True)
                    | _ \<Rightarrow> Some (st, False)))
          else Some (st\<lparr>stack := token # stack st\<rparr>, True))"

text \<open>Running steps until one fails.\<close>

definition and_then ::
  "('s \<times> bool) option \<Rightarrow> ('s \<Rightarrow> ('s \<times> bool) option) \<Rightarrow> ('s \<times> bool) option" where
  "and_then r f = Option.bind r (\<lambda>(st, ok). if ok then f st else Some (st, False))"

primrec EvaluateTokens ::
  "'w::len memory_region option \<Rightarrow> string list \<Rightarrow> 'w word Evaluator \<Rightarrow> ('w word Evaluator \<times> bool) option" where
  "EvaluateTokens mem [] st = Some (st, True)"
| "EvaluateTokens mem (token # rest) st =
     and_then
       (if 1 < length token \<and> hd token = CHR ''='' then
          and_then (EvaluateToken mem ''='' st) (EvaluateToken mem (tl token))
        else EvaluateToken mem token st)
       (EvaluateTokens mem rest)"

definition stream_space :: string where
  "stream_space = [CHR '' '', CHR 0x09, CHR 0x0A, CHR 0x0B, CHR 0x0C, CHR 0x0D]"

definition EvaluateInternal ::
  "'w::len memory_region option \<Rightarrow> string \<Rightarrow> 'w word Evaluator \<Rightarrow> ('w word Evaluator \<times> bool) option" where
  "EvaluateInternal mem expression st = EvaluateTokens mem (tokens stream_space expression) st"

definition clear_stack :: "'v Evaluator \<Rightarrow> 'v Evaluator" where
  "clear_stack st = st\<lparr>stack := []\<rparr>"

text \<open>The stack is cleared whenever \<open>Evaluate\<close> or \<open>EvaluateForValue\<close> returns.\<close>

definition Evaluate ::
  "'w::len memory_region option \<Rightarrow> string \<Rightarrow> 'w word Evaluator \<Rightarrow> ('w word Evaluator \<times> bool) option" where
  "Evaluate mem expression st = Option.bind (EvaluateInternal mem expression st)
     (\<lambda>(st, ok). Some (clear_stack st, ok \<and> stack st = []))"

definition EvaluateForValue ::
  "'w::len memory_region option \<Rightarrow> string \<Rightarrow> 'w word Evaluator \<Rightarrow> ('w word Evaluator \<times> 'w word option) option" where
  "EvaluateForValue mem expression st =
     Option.bind (EvaluateInternal mem expression (st\<lparr>assigned := None\<rparr>))
     (\<lambda>(st', ok). let st' = st'\<lparr>assigned := assigned st\<rparr> in
        if \<not> ok then Some (clear_stack st', None)
        else if length (stack st') \<noteq> 1 then Some (clear_stack st', None)
        else Option.bind (PopValue st') (\<lambda>(st', res). Some (clear_stack st', res)))"

section \<open>Numbers on the stack\<close>

lemma isdigit_not_sign: "isdigit c \<Longrightarrow> c \<noteq> CHR ''-'' \<and> c \<noteq> CHR ''+''"
  by (auto simp: isdigit_def)

lemma show_nat_hd: "isdigit (hd (show_nat n))"
  using show_nat_digits [of n] by (cases "show_nat n") auto

lemma read_unsigned_show [simp]: "read_unsigned (show_nat (unat (v::'w::len word))) = Some v"
proof -
  have "unat v < 2 ^ LENGTH('w)"
    by (rule unsigned_less)
  then show ?thesis
    using isdigit_not_sign [OF show_nat_hd [of "unat v"]] show_nat_digits [of "unat v"]
    by (simp add: read_unsigned_def Let_def not_le unsigned_less)
qed

lemma pop_number:
  assumes "stack st = show_nat (unat v) # rest"
  shows "PopValueOrIdentifier b st = Some (st\<lparr>stack := rest\<rparr>, POP_RESULT_VALUE v)"
  using assms isdigit_not_sign [OF show_nat_hd [of "unat v"]] by (simp add: PopValueOrIdentifier_def)

lemma PopValue_PushValue: "PopValue (PushValue v st) = Some (st, Some v)"
  by (simp add: PopValue_def pop_number [of _ v "stack st"] PushValue_def)

section \<open>Programs compiled from expressions\<close>

text \<open>
  The expressions a postfix program stands for, with their value: none where a register is unknown,
  an address cannot be read or a division is by zero.
\<close>

datatype 'v pexpr =
    Const 'v | Reg string | Binary BinaryOperation "'v pexpr" "'v pexpr" | Deref "'v pexpr"

fun pvalue :: "(string \<Rightarrow> 'w::len word option) \<Rightarrow> 'w memory_region option \<Rightarrow> 'w word pexpr \<Rightarrow> 'w word option" where
  "pvalue d mem (Const v) = Some v"
| "pvalue d mem (Reg r) = d r"
| "pvalue d mem (Binary operation e1 e2) =
     Option.bind (pvalue d mem e1) (\<lambda>v1. Option.bind (pvalue d mem e2) (\<lambda>v2. binary_result operation v1 v2))"
| "pvalue d mem (Deref e) = Option.bind (pvalue d mem e) (\<lambda>a. Option.bind mem (\<lambda>region. region (ucast a)))"

fun operation_token :: "BinaryOperation \<Rightarrow> string" where
  "operation_token BINARY_OP_ADD = ''+''"
| "operation_token BINARY_OP_SUBTRACT = ''-''"
| "operation_token BINARY_OP_MULTIPLY = ''*''"
| "operation_token BINARY_OP_DIVIDE_QUOTIENT = ''/''"
| "operation_token BINARY_OP_DIVIDE_MODULUS = ''%''"
| "operation_token BINARY_OP_ALIGN = ''@''"

fun postfix :: "'w::len word pexpr \<Rightarrow> string list" where
  "postfix (Const v) = [show_nat (unat v)]"
| "postfix (Reg r) = [r]"
| "postfix (Binary operation e1 e2) = postfix e1 @ postfix e2 @ [operation_token operation]"
| "postfix (Deref e) = postfix e @ [''^'']"

text \<open>Names the evaluator reads as names: they begin with a dollar sign or a dot.\<close>

definition register_name :: "string \<Rightarrow> bool" where
  "register_name r \<longleftrightarrow> is_token stream_space r \<and> (hd r = CHR ''$'' \<or> hd r = CHR ''.'')"

fun registers_ok :: "'v pexpr \<Rightarrow> bool" where
  "registers_ok (Const v) \<longleftrightarrow> True"
| "registers_ok (Reg r) \<longleftrightarrow> register_name r"
| "registers_ok (Binary operation e1 e2) \<longleftrightarrow> registers_ok e1 \<and> registers_ok e2"
| "registers_ok (Deref e) \<longleftrightarrow> registers_ok e"

definition plain_token :: "string \<Rightarrow> bool" where
  "plain_token t \<longleftrightarrow> operation_of t = None \<and> t \<noteq> ''^'' \<and> hd t \<noteq> CHR ''=''"

lemma plain_token_hd: "t \<noteq> [] \<Longrightarrow> hd t \<notin> set ''+-*/%@^='' \<Longrightarrow> plain_token t"
  by (cases t) (auto simp: plain_token_def operation_of_def)

lemma plain_token_number: "plain_token (show_nat n)"
  using show_nat_hd [of n] by (intro plain_token_hd) (auto simp: isdigit_def)

lemma plain_token_register: "register_name r \<Longrightarrow> plain_token r"
  by (intro plain_token_hd) (auto simp: register_name_def is_token_def)

lemma pop_register:
  assumes "register_name r" "stack st = r # rest"
  shows "PopValueOrIdentifier b st = Some (st\<lparr>stack := rest\<rparr>, POP_RESULT_IDENTIFIER r)"
proof -
  obtain c cs where r: "r = c # cs" "c = CHR ''$'' \<or> c = CHR ''.''"
    using assms(1) by (cases r) (auto simp: register_name_def is_token_def)
  then have "read_unsigned r = (None :: 'a word option)"
    by (auto simp: read_unsigned_def isdigit_def Let_def)
  then show ?thesis
    using r assms(2) by (auto simp: PopValueOrIdentifier_def)
qed

lemma EvaluateTokens_append:
  "EvaluateTokens mem (ts @ us) st = and_then (EvaluateTokens mem ts st) (EvaluateTokens mem us)"
proof (induction ts arbitrary: st)
  case (Cons t ts)
  then show ?case
    by (auto simp: and_then_def Option.bind_assoc bind_eq_None_conv split: option.splits prod.splits if_splits
      intro!: Option.bind_cong)
qed (simp add: and_then_def)

text \<open>A token on the stack that stands for a value.\<close>

definition denotes :: "(string \<Rightarrow> 'w::len word option) \<Rightarrow> string \<Rightarrow> 'w word \<Rightarrow> bool" where
  "denotes d t v \<longleftrightarrow> t = show_nat (unat v) \<or> register_name t \<and> d t = Some v"

lemma PopValue_denotes:
  assumes "denotes (dictionary st) t v" "stack st = t # rest"
  shows "PopValue st = Some (st\<lparr>stack := rest\<rparr>, Some v)"
  using assms by (auto simp: denotes_def PopValue_def pop_number pop_register)

lemma operation_of_token [simp]: "operation_of (operation_token operation) = Some operation"
  by (cases operation) (simp_all add: operation_of_def)

lemma operation_token_short: "\<not> (1 < length (operation_token operation) \<and> b)"
  by (cases operation) simp_all

lemma and_then_finish: "and_then r (EvaluateTokens mem []) = r"
  by (cases r) (auto simp: and_then_def)

lemma EvaluateTokens_single [simp]:
  "\<not> (1 < length t \<and> hd t = CHR ''='') \<Longrightarrow> EvaluateTokens mem [t] st = EvaluateToken mem t st"
  by (auto simp: and_then_finish)

lemma EvaluateToken_plain: "plain_token t \<Longrightarrow> EvaluateToken mem t st = Some (st\<lparr>stack := t # stack st\<rparr>, True)"
  by (auto simp: EvaluateToken_def plain_token_def)

lemma EvaluateTokens_plain: "plain_token t \<Longrightarrow> EvaluateTokens mem [t] st = Some (st\<lparr>stack := t # stack st\<rparr>, True)"
  using EvaluateToken_plain [of t mem st] EvaluateTokens_single [of t mem st]
  by (simp add: plain_token_def del: EvaluateTokens.simps EvaluateTokens_single)

lemma and_then_Some [simp]: "and_then (Some (st, True)) f = f st"
  by (simp add: and_then_def)

text \<open>Running the postfix of an expression pushes one token that stands for its value.\<close>

lemma EvaluateTokens_postfix:
  assumes "registers_ok e" "pvalue (dictionary st) mem e = Some v"
  shows "\<exists>t. EvaluateTokens mem (postfix e) st = Some (st\<lparr>stack := t # stack st\<rparr>, True) \<and> denotes (dictionary st) t v"
  using assms
proof (induction e arbitrary: st v)
  case (Const c)
  then show ?case
    by (auto simp only: postfix.simps EvaluateTokens_plain [OF plain_token_number] denotes_def pvalue.simps)
next
  case (Reg r)
  then show ?case
    by (auto simp: EvaluateTokens_plain [OF plain_token_register] denotes_def simp del: EvaluateTokens.simps)
next
  case (Binary operation e1 e2)
  obtain v1 v2 where v: "pvalue (dictionary st) mem e1 = Some v1" "pvalue (dictionary st) mem e2 = Some v2"
      "binary_result operation v1 v2 = Some v"
    using Binary.prems(2) by (auto simp: bind_eq_Some_conv)
  obtain t1 where t1: "EvaluateTokens mem (postfix e1) st = Some (st\<lparr>stack := t1 # stack st\<rparr>, True)"
      "denotes (dictionary st) t1 v1"
    using Binary.IH(1) [OF _ v(1)] Binary.prems(1) by auto
  let ?st1 = "st\<lparr>stack := t1 # stack st\<rparr>"
  obtain t2 where t2: "EvaluateTokens mem (postfix e2) ?st1 = Some (?st1\<lparr>stack := t2 # stack ?st1\<rparr>, True)"
      "denotes (dictionary ?st1) t2 v2"
    using Binary.IH(2) [of ?st1 v2] v(2) Binary.prems(1) by auto
  have pop: "PopValues (st\<lparr>stack := t2 # t1 # stack st\<rparr>) = Some (st, Some (v1, v2))"
    using t1(2) t2(2)
      PopValue_denotes [of "st\<lparr>stack := t2 # t1 # stack st\<rparr>" t2 v2 "t1 # stack st"]
      PopValue_denotes [of "st\<lparr>stack := t1 # stack st\<rparr>" t1 v1 "stack st"]
    by (simp add: PopValues_def)
  have "EvaluateTokens mem (postfix (Binary operation e1 e2)) st =
      EvaluateToken mem (operation_token operation) (st\<lparr>stack := t2 # t1 # stack st\<rparr>)"
    using t1(1) t2(1) EvaluateTokens_single [of "operation_token operation" mem, OF operation_token_short]
    by (simp add: EvaluateTokens_append del: EvaluateTokens.simps EvaluateTokens_single)
  also have "\<dots> = Some (PushValue v st, True)"
    using pop v(3) by (simp add: EvaluateToken_def)
  finally show ?case
    by (auto simp: PushValue_def denotes_def)
next
  case (Deref e)
  obtain a region where v: "pvalue (dictionary st) mem e = Some a" "mem = Some region" "region (ucast a) = Some v"
    using Deref.prems(2) by (auto simp: bind_eq_Some_conv)
  obtain t where t: "EvaluateTokens mem (postfix e) st = Some (st\<lparr>stack := t # stack st\<rparr>, True)"
      "denotes (dictionary st) t a"
    using Deref.IH [OF _ v(1)] Deref.prems(1) by auto
  have "EvaluateTokens mem (postfix (Deref e)) st = EvaluateToken mem ''^'' (st\<lparr>stack := t # stack st\<rparr>)"
    using t(1) by (simp add: EvaluateTokens_append del: EvaluateTokens.simps)
  also have "\<dots> = Some (PushValue v st, True)"
    using v t(2) PopValue_denotes [of "st\<lparr>stack := t # stack st\<rparr>" t a "stack st"]
    by (simp add: EvaluateToken_def operation_of_def)
  finally show ?case
    by (auto simp: PushValue_def denotes_def)
qed

lemma postfix_tokens: "registers_ok e \<Longrightarrow> t \<in> set (postfix e) \<Longrightarrow> is_token stream_space t"
proof (induction e)
  case (Const v)
  have "c \<notin> set stream_space" if "isdigit c" for c
    using that by (auto simp: isdigit_def stream_space_def)
  with Const show ?case
    using show_nat_digits [of "unat v"] by (auto simp: is_token_def list_all_iff)
next
  case (Binary operation e1 e2)
  then show ?case
    by (cases operation) (auto simp: is_token_def stream_space_def)
qed (auto simp: register_name_def is_token_def stream_space_def)

lemma EvaluateForValue_expression:
  assumes "registers_ok e" "pvalue (dictionary st) mem e = Some v" "stack st = []"
  shows "EvaluateForValue mem (join '' '' (postfix e)) st = Some (st, Some v)"
proof -
  have tok: "tokens stream_space (join '' '' (postfix e)) = postfix e"
    using postfix_tokens [OF assms(1)] by (intro tokens_join) (auto simp: stream_space_def)
  let ?st = "st\<lparr>assigned := None\<rparr>"
  have "pvalue (dictionary ?st) mem e = Some v"
    using assms(2) by simp
  from EvaluateTokens_postfix [OF assms(1) this] obtain t where
    t: "EvaluateTokens mem (postfix e) ?st = Some (?st\<lparr>stack := [t]\<rparr>, True)" "denotes (dictionary st) t v"
    using assms(3) by auto
  have "PopValue (st\<lparr>stack := [t]\<rparr>) = Some (st\<lparr>stack := []\<rparr>, Some v)"
    using PopValue_denotes [of "st\<lparr>stack := [t]\<rparr>" t v "[]"] t(2) by simp
  moreover have "st\<lparr>stack := []\<rparr> = st"
    using assms(3) by simp
  ultimately show ?thesis
    using t(1) by (simp add: EvaluateForValue_def EvaluateInternal_def tok clear_stack_def)
qed

text \<open>C6. The evaluator computes expressions: the postfix form of an expression, written with spaces,
  evaluates to the value of the expression in the dictionary and memory given, whenever it has one, and
  leaves an empty stack and an unchanged dictionary.\<close>

theorem EvaluateForValue_postfix:
  assumes "registers_ok e" "pvalue (dictionary st) mem e = Some v" "stack st = []"
  shows "EvaluateForValue mem (join '' '' (postfix e)) st = Some (st, Some v)"
  by (rule EvaluateForValue_expression [OF assms])

lemma EvaluateForValue_postfix_witness:
  "EvaluateForValue (Some (\<lambda>a. if a = 108 then Some (7::64 word) else None))
     (join '' '' (postfix (Deref (Binary BINARY_OP_ADD (Reg ''$rsp'') (Const (8::64 word))))))
     \<lparr>dictionary = [''$rsp'' \<mapsto> 100], assigned = None, stack = []\<rparr> =
   Some (\<lparr>dictionary = [''$rsp'' \<mapsto> 100], assigned = None, stack = []\<rparr>, Some 7)"
  using EvaluateForValue_postfix [of "Deref (Binary BINARY_OP_ADD (Reg ''$rsp'') (Const (8::64 word)))"
    "\<lparr>dictionary = [''$rsp'' \<mapsto> 100], assigned = None, stack = []\<rparr>"
    "Some (\<lambda>a. if a = 108 then Some (7::64 word) else None)" 7]
  by (simp add: register_name_def is_token_def stream_space_def binary_result_def del: postfix.simps)

section \<open>Programs of assignments\<close>

text \<open>A program string assigns to registers, one after the other, and records which it assigned.\<close>

definition assign :: "string \<Rightarrow> 'w::len word \<Rightarrow> 'w word Evaluator \<Rightarrow> 'w word Evaluator" where
  "assign r v st = st\<lparr>dictionary := (dictionary st)(r \<mapsto> v),
     assigned := map_option (\<lambda>a. a(r \<mapsto> True)) (assigned st)\<rparr>"

fun program :: "(string \<times> 'w::len word pexpr) list \<Rightarrow> string list" where
  "program [] = []"
| "program ((r, e) # p) = [r] @ postfix e @ [''=''] @ program p"

text \<open>The meaning of a program: every expression is evaluated after the assignments before it.\<close>

fun run_program :: "'w::len memory_region option \<Rightarrow> (string \<times> 'w word pexpr) list \<Rightarrow> 'w word Evaluator \<Rightarrow> 'w word Evaluator option" where
  "run_program mem [] st = Some st"
| "run_program mem ((r, e) # p) st =
     Option.bind (pvalue (dictionary st) mem e) (\<lambda>v. run_program mem p (assign r v st))"

definition variable_name :: "string \<Rightarrow> bool" where
  "variable_name r \<longleftrightarrow> register_name r \<and> hd r = CHR ''$''"

lemma assign_stack [simp]: "stack (assign r v st) = stack st"
  by (simp add: assign_def)

lemma EvaluateTokens_assign:
  assumes "variable_name r" "registers_ok e" "pvalue (dictionary st) mem e = Some v"
  shows "EvaluateTokens mem ([r] @ postfix e @ [''='']) st = Some (assign r v st, True)"
proof -
  have r: "register_name r" "r \<noteq> []" "hd r = CHR ''$''"
    using assms(1) by (auto simp: variable_name_def register_name_def is_token_def)
  let ?st = "st\<lparr>stack := r # stack st\<rparr>"
  obtain t where t: "EvaluateTokens mem (postfix e) ?st = Some (st\<lparr>stack := t # r # stack st\<rparr>, True)"
      "denotes (dictionary st) t v"
    using EvaluateTokens_postfix [OF assms(2), of ?st mem v] assms(3) by auto
  have "EvaluateTokens mem ([r] @ postfix e @ [''='']) st = EvaluateToken mem ''='' (st\<lparr>stack := t # r # stack st\<rparr>)"
    using t(1) EvaluateTokens_single [of "''=''" mem]
    by (simp only: EvaluateTokens_append EvaluateTokens_plain [OF plain_token_register [OF r(1)]] and_then_Some)
      (simp del: EvaluateTokens.simps)
  also have "\<dots> = Some (assign r v st, True)"
    using PopValue_denotes [of "st\<lparr>stack := t # r # stack st\<rparr>" t v "r # stack st"] t(2)
      pop_register [OF r(1), of "st\<lparr>stack := r # stack st\<rparr>" "stack st" False] r
    by (simp add: EvaluateToken_def operation_of_def assign_def)
  finally show ?thesis .
qed

lemma EvaluateTokens_program:
  assumes "\<forall>(r, e)\<in>set p. variable_name r \<and> registers_ok e" "run_program mem p st = Some st'"
  shows "EvaluateTokens mem (program p) st = Some (st', True)"
  using assms
proof (induction p arbitrary: st)
  case (Cons re p)
  obtain r e where re: "re = (r, e)"
    by (cases re)
  obtain v where v: "pvalue (dictionary st) mem e = Some v" "run_program mem p (assign r v st) = Some st'"
    using Cons.prems(2) by (auto simp: re bind_eq_Some_conv)
  have "EvaluateTokens mem (program (re # p)) st =
      and_then (EvaluateTokens mem ([r] @ postfix e @ [''='']) st) (EvaluateTokens mem (program p))"
    using EvaluateTokens_append [of mem "[r] @ postfix e @ [''='']" "program p" st] by (simp add: re)
  also have "\<dots> = Some (st', True)"
    using EvaluateTokens_assign [of r e st mem v] Cons v by (simp add: re del: EvaluateTokens.simps)
  finally show ?case .
qed simp

lemma program_tokens:
  assumes "\<forall>(r, e)\<in>set p. variable_name r \<and> registers_ok e" "t \<in> set (program p)"
  shows "is_token stream_space t"
  using assms
proof (induction p)
  case (Cons re p)
  obtain r e where re: "re = (r, e)"
    by (cases re)
  then have ok: "is_token stream_space r" "registers_ok e"
    using Cons.prems(1) by (auto simp: variable_name_def register_name_def)
  have eq: "is_token stream_space ''=''"
    by (simp add: is_token_def stream_space_def)
  have "t = r \<or> t \<in> set (postfix e) \<or> t = ''='' \<or> t \<in> set (program p)"
    using Cons.prems(2) re by auto
  then show ?case
    using ok eq postfix_tokens [OF ok(2)] Cons.IH Cons.prems(1) by auto
qed simp

lemma run_program_stack: "run_program mem p st = Some st' \<Longrightarrow> stack st' = stack st"
  by (induction mem p st rule: run_program.induct) (auto simp: bind_eq_Some_conv)

text \<open>A program string, assignments in postfix form separated by spaces, runs as the sequence of its
  assignments: each expression sees the registers assigned before it, the evaluator succeeds, every
  assigned register is recorded, and the stack is empty at the end.\<close>

theorem Evaluate_program:
  assumes "\<forall>(r, e)\<in>set p. variable_name r \<and> registers_ok e" "run_program mem p st = Some st'" "stack st = []"
  shows "Evaluate mem (join '' '' (program p)) st = Some (st', True)"
proof -
  have "tokens stream_space (join '' '' (program p)) = program p"
    using program_tokens [OF assms(1)] by (intro tokens_join) (auto simp: stream_space_def)
  moreover have "stack st' = []"
    using run_program_stack [OF assms(2)] assms(3) by simp
  moreover from this have "st'\<lparr>stack := []\<rparr> = st'"
    by simp
  ultimately show ?thesis
    using EvaluateTokens_program [OF assms(1,2)]
    by (simp add: Evaluate_def EvaluateInternal_def clear_stack_def)
qed

lemma Evaluate_program_witness:
  "Evaluate (None :: 32 memory_region option)
     (join '' '' (program [(''$eip'', Binary BINARY_OP_ADD (Reg ''$ebp'') (Const (4::32 word))), (''$esp'', Reg ''$eip'')]))
     \<lparr>dictionary = [''$ebp'' \<mapsto> 96], assigned = None, stack = []\<rparr> =
   Some (\<lparr>dictionary = [''$ebp'' \<mapsto> 96, ''$eip'' \<mapsto> 100, ''$esp'' \<mapsto> 100], assigned = None, stack = []\<rparr>, True)"
  using Evaluate_program [of "[(''$eip'', Binary BINARY_OP_ADD (Reg ''$ebp'') (Const (4::32 word))), (''$esp'', Reg ''$eip'')]"
    "None :: 32 memory_region option" "\<lparr>dictionary = [''$ebp'' \<mapsto> 96], assigned = None, stack = []\<rparr>"
    "\<lparr>dictionary = [''$ebp'' \<mapsto> 96, ''$eip'' \<mapsto> 100, ''$esp'' \<mapsto> 100], assigned = None, stack = []\<rparr>"]
  by (simp add: variable_name_def register_name_def is_token_def stream_space_def binary_result_def assign_def
    del: program.simps)

section \<open>Programs that crash the evaluator\<close>

text \<open>
  Nothing checks the divisor, and an assignment to a negative literal negates it through the null
  pointer the caller passed.
\<close>

text \<open>A program string from a symbol file can crash the evaluator: dividing by zero, or assigning to a
  negative literal, does not fail but ends the process, whatever the registers and memory.\<close>

lemma Evaluate_crashes:
  "EvaluateTokens mem [''1'', ''0'', ''/''] (st :: 'w::len word Evaluator) = None \<and>
   EvaluateTokens mem [''-1'', ''1'', ''=''] st = None"
proof -
  have digits: "read_unsigned ''0'' = Some (0 :: 'w word)"
    by (simp add: read_unsigned_def isdigit_def digits_val_def digit_val_def Let_def)
  have "(1::nat) < 2 ^ LENGTH('w)"
    by (rule one_less_power) simp_all
  then have one: "read_unsigned ''1'' = Some (1 :: 'w word)"
    by (simp add: read_unsigned_def isdigit_def digits_val_def digit_val_def Let_def)
  have "EvaluateTokens mem [''1'', ''0'', ''/''] st = None"
    by (simp add: EvaluateToken_def operation_of_def PopValues_def PopValue_def PopValueOrIdentifier_def digits one
      binary_result_def and_then_def)
  moreover have "EvaluateTokens mem [''-1'', ''1'', ''=''] st = None"
    by (simp add: EvaluateToken_def operation_of_def PopValues_def PopValue_def PopValueOrIdentifier_def digits one
      binary_result_def and_then_def)
  ultimately show ?thesis ..
qed

end
