(* ===== verification/CFI_Frame_Info.thy ===== *)
theory CFI_Frame_Info
  imports Postfix_Evaluator Ordered_Map
begin

text \<open>
  processor/cfi_frame_info.h, .cc and cfi_frame_info-inl.h: a set of call frame rules, its text form
  and parser, the computation of the caller's registers, and the register table walk on top of it.
  \<open>None\<close> is again a run that crashes in the evaluator.
\<close>

section \<open>The rules\<close>

record CFIFrameInfo =
  cfa_rule :: string
  ra_rule :: string
  register_rules :: "(string, string) omap"

definition CFIFrameInfo_new :: CFIFrameInfo where
  "CFIFrameInfo_new = \<lparr>cfa_rule = [], ra_rule = [], register_rules = []\<rparr>"

definition SetCFARule :: "string \<Rightarrow> CFIFrameInfo \<Rightarrow> CFIFrameInfo" where
  "SetCFARule expression c = c\<lparr>cfa_rule := expression\<rparr>"

definition SetRARule :: "string \<Rightarrow> CFIFrameInfo \<Rightarrow> CFIFrameInfo" where
  "SetRARule expression c = c\<lparr>ra_rule := expression\<rparr>"

definition SetRegisterRule :: "string \<Rightarrow> string \<Rightarrow> CFIFrameInfo \<Rightarrow> CFIFrameInfo" where
  "SetRegisterRule name expression c =
     c\<lparr>register_rules := om_assign name expression (register_rules c)\<rparr>"

type_synonym 'v RegisterValueMap = "string \<Rightarrow> 'v option"

text \<open>Each rule is evaluated in its own copy of the registers.\<close>

definition rule_value ::
  "'w::len memory_region \<Rightarrow> 'w word RegisterValueMap \<Rightarrow> string \<Rightarrow> 'w word option option" where
  "rule_value mem working rule = map_option snd
     (EvaluateForValue (Some mem) rule \<lparr>dictionary = working, assigned = None, stack = []\<rparr>)"

primrec find_registers ::
  "'w::len memory_region \<Rightarrow> 'w word RegisterValueMap \<Rightarrow> (string, string) omap \<Rightarrow> 'w word RegisterValueMap \<Rightarrow>
   'w word RegisterValueMap option" where
  "find_registers mem working [] caller_registers = Some caller_registers"
| "find_registers mem working (it # rules) caller_registers =
     Option.bind (rule_value mem working (snd it)) (\<lambda>value. case value of
         None \<Rightarrow> find_registers mem working rules caller_registers
       | Some v \<Rightarrow> find_registers mem working rules (caller_registers(fst it \<mapsto> v)))"

definition FindCallerRegs ::
  "CFIFrameInfo \<Rightarrow> 'w::len word RegisterValueMap \<Rightarrow> 'w memory_region \<Rightarrow> 'w word RegisterValueMap \<Rightarrow>
   ('w word RegisterValueMap \<times> bool) option" where
  "FindCallerRegs c registers mem caller_registers =
     (if cfa_rule c = [] \<or> ra_rule c = [] then Some (caller_registers, False)
      else Option.bind (rule_value mem registers (cfa_rule c)) (\<lambda>cfa. case cfa of
          None \<Rightarrow> Some (Map.empty, False)
        | Some cfa \<Rightarrow>
            (let working = registers(''.cfa'' \<mapsto> cfa) in
             Option.bind (rule_value mem working (ra_rule c)) (\<lambda>ra. case ra of
                 None \<Rightarrow> Some (Map.empty, False)
               | Some ra \<Rightarrow>
                   Option.bind (find_registers mem working (register_rules c) Map.empty)
                     (\<lambda>caller_registers. Some (caller_registers(''.ra'' \<mapsto> ra, ''.cfa'' \<mapsto> cfa), True))))))"

section \<open>The text form\<close>

primrec serialize_rules :: "(string, string) omap \<Rightarrow> string \<Rightarrow> string" where
  "serialize_rules [] stream = stream"
| "serialize_rules (iter # rules) stream =
     serialize_rules rules
       ((if stream \<noteq> [] then stream @ '' '' else stream) @ fst iter @ '': '' @ snd iter)"

definition CFI_Serialize :: "CFIFrameInfo \<Rightarrow> string" where
  "CFI_Serialize c =
     (let stream = (if cfa_rule c \<noteq> [] then ''.cfa: '' @ cfa_rule c else []);
          stream = (if ra_rule c \<noteq> [] then (if stream \<noteq> [] then stream @ '' '' else stream) @ ''.ra: '' @ ra_rule c
                    else stream)
      in serialize_rules (register_rules c) stream)"

section \<open>The parser\<close>

definition token_breaks :: string where
  "token_breaks = [CHR '' '', CHR 0x09, CHR 0x0D, CHR 0x0A]"

text \<open>\<open>Report\<close> with the handler that fills a \<open>CFIFrameInfo\<close>.\<close>

definition Report :: "string \<Rightarrow> string \<Rightarrow> CFIFrameInfo \<Rightarrow> CFIFrameInfo \<times> bool" where
  "Report name expression c =
     (if name = [] \<or> expression = [] then (c, False)
      else if name = ''.cfa'' then (SetCFARule expression c, True)
      else if name = ''.ra'' then (SetRARule expression c, True)
      else (SetRegisterRule name expression c, True))"

primrec parse_rules :: "string list \<Rightarrow> string \<Rightarrow> string \<Rightarrow> CFIFrameInfo \<Rightarrow> CFIFrameInfo \<times> bool" where
  "parse_rules [] name expression c = Report name expression c"
| "parse_rules (token # rest) name expression c =
     (if 1 \<le> length token \<and> last token = CHR '':'' then
        if length token < 2 then (c, False)
        else if name \<noteq> [] \<or> expression \<noteq> [] then
          (let (c, ok) = Report name expression c in
           if \<not> ok then (c, False) else parse_rules rest (butlast token) [] c)
        else parse_rules rest (butlast token) [] c
      else parse_rules rest name
        ((if expression \<noteq> [] then expression @ '' '' else expression) @ token) c)"

definition CFI_Parse :: "string \<Rightarrow> CFIFrameInfo \<Rightarrow> CFIFrameInfo \<times> bool" where
  "CFI_Parse rule_set c = parse_rules (tokens token_breaks rule_set) [] [] c"

text \<open>source_line_resolver_base.cc: the same, from a module.\<close>

definition ParseCFIRuleSet :: "string \<Rightarrow> CFIFrameInfo \<Rightarrow> CFIFrameInfo \<times> bool" where
  "ParseCFIRuleSet rule_set frame_info = CFI_Parse rule_set frame_info"

section \<open>The register walk of \<open>SimpleCFIWalker\<close>\<close>

text \<open>
  A raw context is a map from its members to register values; the C++ memset leaves the byte 0xda in
  every member it does not fill.
\<close>

record 'm RegisterSet =
  reg_name :: string
  alternate_name :: "string option"
  callee_saves :: bool
  validity_flag :: u32
  context_member :: 'm

definition fill_0xda :: "'w::len word" where
  "fill_0xda = of_nat (0xda * ((2 ^ LENGTH('w) - 1) div 255))"

primrec populate_callee ::
  "'m RegisterSet list \<Rightarrow> ('m \<Rightarrow> 'v) \<Rightarrow> u32 \<Rightarrow> 'v RegisterValueMap \<Rightarrow> 'v RegisterValueMap" where
  "populate_callee [] callee_context callee_validity callee_registers = callee_registers"
| "populate_callee (r # rs) callee_context callee_validity callee_registers =
     populate_callee rs callee_context callee_validity
       (if callee_validity AND validity_flag r \<noteq> 0
        then callee_registers(reg_name r \<mapsto> callee_context (context_member r)) else callee_registers)"

primrec populate_caller ::
  "'m RegisterSet list \<Rightarrow> 'v RegisterValueMap \<Rightarrow> ('m \<Rightarrow> 'v) \<Rightarrow> u32 \<Rightarrow> ('m \<Rightarrow> 'v) \<times> u32 \<Rightarrow> ('m \<Rightarrow> 'v) \<times> u32" where
  "populate_caller [] caller_registers callee_context callee_validity caller = caller"
| "populate_caller (r # rs) caller_registers callee_context callee_validity caller =
     populate_caller rs caller_registers callee_context callee_validity
       (let (caller_context, caller_validity) = caller in
        case caller_registers (reg_name r) of
          Some v \<Rightarrow> (caller_context(context_member r := v), caller_validity OR validity_flag r)
        | None \<Rightarrow>
            (case Option.bind (alternate_name r) caller_registers of
               Some v \<Rightarrow> (caller_context(context_member r := v), caller_validity OR validity_flag r)
             | None \<Rightarrow>
                 if callee_saves r \<and> callee_validity AND validity_flag r \<noteq> 0 then
                   (caller_context(context_member r := callee_context (context_member r)),
                    caller_validity OR validity_flag r)
                 else (caller_context, caller_validity)))"

text \<open>The result is the caller's context and validity, if the rules apply.\<close>

definition FindCallerRegisters ::
  "'m RegisterSet list \<Rightarrow> 'w::len memory_region \<Rightarrow> CFIFrameInfo \<Rightarrow> ('m \<Rightarrow> 'w word) \<Rightarrow> u32 \<Rightarrow>
   (('m \<Rightarrow> 'w word) \<times> u32) option option" where
  "FindCallerRegisters register_map mem cfi_frame_info callee_context callee_validity =
     Option.bind (FindCallerRegs cfi_frame_info
         (populate_callee register_map callee_context callee_validity Map.empty) mem Map.empty)
       (\<lambda>(caller_registers, ok). Some (if \<not> ok then None
          else Some (populate_caller register_map caller_registers callee_context callee_validity
            (\<lambda>_. fill_0xda, 0))))"

section \<open>Round trip of the text form\<close>

text \<open>The rules in the order in which they are written.\<close>

definition cfi_rules :: "CFIFrameInfo \<Rightarrow> (string \<times> string) list" where
  "cfi_rules c = (if cfa_rule c \<noteq> [] then [(''.cfa'', cfa_rule c)] else []) @
     (if ra_rule c \<noteq> [] then [(''.ra'', ra_rule c)] else []) @ register_rules c"

text \<open>Expressions in the form the parser leaves them: components separated by single spaces.\<close>

definition is_component :: "string \<Rightarrow> bool" where
  "is_component t \<longleftrightarrow> is_token token_breaks t \<and> last t \<noteq> CHR '':''"

definition is_expression :: "string \<Rightarrow> bool" where
  "is_expression s \<longleftrightarrow> s \<noteq> [] \<and> list_all is_component (tokens token_breaks s) \<and>
     s = join '' '' (tokens token_breaks s)"

definition is_rule_name :: "string \<Rightarrow> bool" where
  "is_rule_name n \<longleftrightarrow> is_token token_breaks n"

definition cfi_ok :: "CFIFrameInfo \<Rightarrow> bool" where
  "cfi_ok c \<longleftrightarrow> om_sorted (register_rules c) \<and>
     list_all (\<lambda>(n, e). is_rule_name n \<and> is_expression e) (cfi_rules c) \<and>
     (\<forall>(n, e)\<in>set (register_rules c). n \<noteq> ''.cfa'' \<and> n \<noteq> ''.ra'')"

definition rule_text :: "string \<times> string \<Rightarrow> string" where
  "rule_text r = fst r @ '': '' @ snd r"

definition rule_tokens :: "string \<times> string \<Rightarrow> string list" where
  "rule_tokens r = (fst r @ '':'') # tokens token_breaks (snd r)"

lemma join_snoc: "join sep (xs @ [x]) = (if xs = [] then x else join sep xs @ sep @ x)"
  by (induction xs) auto

lemma join_Nil: "join sep ts = [] \<longleftrightarrow> ts = [] \<or> ts = [[]] \<or> (sep = [] \<and> set ts \<subseteq> {[]})"
  by (induction ts) auto

lemma join_texts_Nil: "join sep (map rule_text rs) = [] \<longleftrightarrow> rs = []"
  by (cases rs) (auto simp: rule_text_def)

lemma serialize_rules_join:
  "stream = join '' '' (map rule_text rs) \<Longrightarrow>
   serialize_rules rules stream = join '' '' (map rule_text (rs @ rules))"
proof (induction rules arbitrary: stream rs)
  case (Cons r rules)
  have "(if stream \<noteq> [] then stream @ '' '' else stream) @ rule_text r = join '' '' (map rule_text (rs @ [r]))"
    using Cons.prems by (auto simp: join_snoc join_texts_Nil)
  from Cons.IH [OF this] show ?case
    by (simp add: rule_text_def)
qed simp

lemma CFI_Serialize_join: "CFI_Serialize c = join '' '' (map rule_text (cfi_rules c))"
proof -
  let ?rs = "(if cfa_rule c \<noteq> [] then [(''.cfa'', cfa_rule c)] else []) @
     (if ra_rule c \<noteq> [] then [(''.ra'', ra_rule c)] else [])"
  have "CFI_Serialize c = serialize_rules (register_rules c) (join '' '' (map rule_text ?rs))"
    by (simp add: CFI_Serialize_def rule_text_def)
  then show ?thesis
    by (simp only: serialize_rules_join [OF refl] cfi_rules_def append_assoc)
qed

lemma tokens_rule_text:
  assumes "is_rule_name (fst r)"
  shows "tokens token_breaks (rule_text r) = rule_tokens r"
proof -
  have "is_token token_breaks (fst r @ '':'')"
    using assms by (auto simp: is_rule_name_def is_token_def token_breaks_def)
  from tokens_cons(2) [OF this, of "CHR '' ''" "snd r"] show ?thesis
    by (simp add: rule_text_def rule_tokens_def token_breaks_def)
qed

lemma tokens_rules:
  assumes "list_all (\<lambda>r. is_rule_name (fst r)) rs"
  shows "tokens token_breaks (join '' '' (map rule_text rs)) = concat (map rule_tokens rs)"
  using assms
proof (induction rs)
  case (Cons r rs)
  then show ?case
    using tokens_append [of "CHR '' ''" token_breaks "rule_text r" "join '' '' (map rule_text rs)"]
    by (simp add: tokens_rule_text) (simp add: token_breaks_def)
qed simp

lemma parse_components:
  "list_all is_component ts \<Longrightarrow> parse_rules (ts @ rest) name expression c =
   parse_rules rest name (if expression = [] \<or> ts = [] then expression @ join '' '' ts
     else expression @ '' '' @ join '' '' ts) c"
proof (induction ts arbitrary: expression)
  case (Cons t ts)
  then show ?case
    by (auto simp: is_component_def is_token_def)
qed simp

primrec apply_rules :: "(string \<times> string) list \<Rightarrow> CFIFrameInfo \<Rightarrow> CFIFrameInfo" where
  "apply_rules [] c = c"
| "apply_rules (r # rs) c = apply_rules rs (fst (Report (fst r) (snd r) c))"

lemma parse_rules_tokens:
  assumes "list_all (\<lambda>(n, e). is_rule_name n \<and> is_expression e) ((name, expression) # rs)"
  shows "parse_rules (concat (map rule_tokens rs)) name expression c = (apply_rules ((name, expression) # rs) c, True)"
  using assms
proof (induction rs arbitrary: name expression c)
  case Nil
  then show ?case
    by (simp add: is_rule_name_def is_expression_def is_token_def Report_def)
next
  case (Cons r rs)
  have ne: "name \<noteq> []" "expression \<noteq> []" "fst r \<noteq> []"
    and comps: "list_all is_component (tokens token_breaks (snd r))"
    and e: "join '' '' (tokens token_breaks (snd r)) = snd r"
    using Cons.prems by (auto simp: is_rule_name_def is_expression_def is_token_def split: prod.splits)
  have "parse_rules (concat (map rule_tokens (r # rs))) name expression c =
      parse_rules (concat (map rule_tokens rs)) (fst r) (snd r) (fst (Report name expression c))"
    using ne parse_components [OF comps, of "concat (map rule_tokens rs)" "fst r" "[]"]
    by (auto simp: rule_tokens_def e Report_def Let_def)
  also have "\<dots> = (apply_rules ((name, expression) # r # rs) c, True)"
    using Cons.IH [of "fst r" "snd r" "fst (Report name expression c)"] Cons.prems by (auto split: prod.splits)
  finally show ?case .
qed

lemma apply_register_rules:
  assumes "list_all (\<lambda>(n, e). is_rule_name n \<and> is_expression e) rs"
    "\<forall>(n, e)\<in>set rs. n \<noteq> ''.cfa'' \<and> n \<noteq> ''.ra''" "om_sorted (register_rules c @ rs)"
  shows "apply_rules rs c = c\<lparr>register_rules := register_rules c @ rs\<rparr>"
  using assms
proof (induction rs arbitrary: c)
  case (Cons r rs)
  have "om_assign (fst r) (snd r) (register_rules c) = register_rules c @ [r]"
    using Cons.prems(3) om_assign_last [of "register_rules c" "fst r" "snd r"] by (simp add: om_sorted_append)
  then have "fst (Report (fst r) (snd r) c) = c\<lparr>register_rules := register_rules c @ [r]\<rparr>"
    using Cons.prems(1,2)
    by (auto simp: Report_def SetRegisterRule_def is_rule_name_def is_expression_def is_token_def)
  then show ?case
    using Cons by simp
qed simp

text \<open>C7. The text form of a rule set parses back: for rules whose names are words and whose expressions
  are words separated by single spaces, none of them ending in a colon, parsing the output of
  \<open>Serialize\<close> succeeds and rebuilds the rule set, as long as it has a rule.\<close>

theorem CFI_Parse_Serialize:
  assumes "cfi_ok c" "cfi_rules c \<noteq> []"
  shows "CFI_Parse (CFI_Serialize c) CFIFrameInfo_new = (c, True)"
proof -
  have ok: "list_all (\<lambda>(n, e). is_rule_name n \<and> is_expression e) (cfi_rules c)"
    using assms(1) by (simp add: cfi_ok_def)
  have rule_names: "list_all (\<lambda>r. is_rule_name (fst r)) (cfi_rules c)"
    using ok by (auto simp: list_all_iff)
  obtain name expression rs where rules: "cfi_rules c = (name, expression) # rs"
    using assms(2) by (cases "cfi_rules c") auto
  have comps: "list_all is_component (tokens token_breaks expression)"
    and e: "join '' '' (tokens token_breaks expression) = expression" and n: "name \<noteq> []"
    using ok by (auto simp: rules is_expression_def is_rule_name_def is_token_def)
  have "CFI_Parse (CFI_Serialize c) CFIFrameInfo_new =
      parse_rules (concat (map rule_tokens rs)) name expression CFIFrameInfo_new"
    using n parse_components [OF comps, of "concat (map rule_tokens rs)" name "[]"]
    by (simp add: CFI_Parse_def CFI_Serialize_join tokens_rules [OF rule_names]) (simp add: rules rule_tokens_def e)
  also have "\<dots> = (apply_rules (cfi_rules c) CFIFrameInfo_new, True)"
    using parse_rules_tokens [of name expression rs] ok by (simp add: rules)
  also have "apply_rules (cfi_rules c) CFIFrameInfo_new = c"
  proof -
    have "list_all (\<lambda>(n, e). is_rule_name n \<and> is_expression e) (register_rules c)"
      using ok by (auto simp: cfi_rules_def)
    from apply_register_rules [OF this, of "\<lparr>cfa_rule = cfa_rule c, ra_rule = ra_rule c, register_rules = []\<rparr>"]
    show ?thesis
      using assms(1)
      by (auto simp: cfi_rules_def cfi_ok_def Report_def CFIFrameInfo_new_def SetCFARule_def SetRARule_def)
  qed
  finally show ?thesis .
qed

definition example_cfi :: CFIFrameInfo where
  "example_cfi = \<lparr>cfa_rule = ''$rsp 8 +'', ra_rule = ''.cfa 8 - ^'', register_rules = [(''$rbp'', ''.cfa 16 - ^'')]\<rparr>"

lemma CFI_Parse_Serialize_witness:
  "CFI_Parse (CFI_Serialize example_cfi) CFIFrameInfo_new = (example_cfi, True)"
  by (rule CFI_Parse_Serialize)
    (simp_all add: example_cfi_def cfi_ok_def cfi_rules_def is_rule_name_def is_expression_def is_component_def
      is_token_def token_breaks_def tokens.simps strtok_r_def)

section \<open>The caller's registers\<close>

lemma rule_value_postfix:
  assumes "registers_ok e" "pvalue d (Some mem) e = Some v"
  shows "rule_value mem d (join '' '' (postfix e)) = Some (Some v)"
  using assms EvaluateForValue_expression [of e "\<lparr>dictionary = d, assigned = None, stack = []\<rparr>" "Some mem" v]
  by (simp add: rule_value_def)

text \<open>A rule set whose rules are the postfix forms of expressions.\<close>

definition rule_of :: "string \<times> 'w::len word pexpr \<Rightarrow> string \<times> string" where
  "rule_of r = (fst r, join '' '' (postfix (snd r)))"

lemma find_registers_postfix:
  assumes "\<forall>(n, e)\<in>set rs. registers_ok e \<and> pvalue d (Some mem) e \<noteq> None" "distinct (map fst rs)"
  shows "find_registers mem d (map rule_of rs) acc =
    Some (\<lambda>n. case map_of rs n of None \<Rightarrow> acc n | Some e \<Rightarrow> pvalue d (Some mem) e)"
  using assms
proof (induction rs arbitrary: acc)
  case (Cons r rs)
  obtain v where v: "pvalue d (Some mem) (snd r) = Some v"
    using Cons.prems(1) by (auto split: prod.splits)
  have "map_of rs (fst r) = None"
    using Cons.prems(2) by (simp add: map_of_eq_None_iff)
  moreover have "rule_value mem d (snd (rule_of r)) = Some (Some v)"
    using rule_value_postfix [OF _ v] Cons.prems(1) by (auto simp: rule_of_def split: prod.splits)
  ultimately show ?case
    using Cons v by (auto simp: rule_of_def fun_eq_iff split: option.splits)
qed simp

lemma postfix_text [simp]: "registers_ok e \<Longrightarrow> join '' '' (postfix e) \<noteq> []"
  by (induction e) (auto simp: register_name_def is_token_def join_Nil)

text \<open>C8. Applying a rule set whose rules are postfix expressions gives the caller's registers: the call
  frame address comes from the callee's registers, every other rule from those extended by it, each
  register rule yields its register, and \<open>.ra\<close> and \<open>.cfa\<close> hold the return address and the frame
  address. Without both of these rules it fails and leaves the registers alone.\<close>

theorem FindCallerRegs_correct:
  fixes registers :: "'w::len word RegisterValueMap"
  assumes rules: "cfa_rule c = join '' '' (postfix ce)" "ra_rule c = join '' '' (postfix re)"
      "register_rules c = map rule_of rs" "om_sorted (register_rules c)"
    and names: "registers_ok ce" "registers_ok re" "\<forall>(n, e)\<in>set rs. registers_ok e"
    and cfa: "pvalue registers (Some mem) ce = Some cfa"
    and ra: "pvalue (registers(''.cfa'' \<mapsto> cfa)) (Some mem) re = Some ra"
    and vals: "\<forall>(n, e)\<in>set rs. pvalue (registers(''.cfa'' \<mapsto> cfa)) (Some mem) e \<noteq> None"
  shows "FindCallerRegs c registers mem old =
      Some ((\<lambda>n. Option.bind (map_of rs n) (pvalue (registers(''.cfa'' \<mapsto> cfa)) (Some mem)))
        (''.ra'' \<mapsto> ra, ''.cfa'' \<mapsto> cfa), True) \<and>
    FindCallerRegs (c\<lparr>cfa_rule := []\<rparr>) registers mem old = Some (old, False)"
proof -
  have "distinct (map fst rs)"
    using om_sorted_distinct [OF rules(4)] by (simp add: rules(3) rule_of_def comp_def)
  moreover have "\<forall>(n, e)\<in>set rs. registers_ok e \<and> pvalue (registers(''.cfa'' \<mapsto> cfa)) (Some mem) e \<noteq> None"
    using names(3) vals by blast
  moreover have "(\<lambda>n. case map_of rs n of None \<Rightarrow> None | Some e \<Rightarrow> pvalue (registers(''.cfa'' \<mapsto> cfa)) (Some mem) e) =
      (\<lambda>n. Option.bind (map_of rs n) (pvalue (registers(''.cfa'' \<mapsto> cfa)) (Some mem)))"
    by (simp add: fun_eq_iff Option.bind_def split: option.splits)
  ultimately have "find_registers mem (registers(''.cfa'' \<mapsto> cfa)) (map rule_of rs) Map.empty =
      Some (\<lambda>n. Option.bind (map_of rs n) (pvalue (registers(''.cfa'' \<mapsto> cfa)) (Some mem)))"
    using find_registers_postfix [of rs "registers(''.cfa'' \<mapsto> cfa)" mem Map.empty] by presburger
  then show ?thesis
    using rules(1-3) names(1,2) rule_value_postfix [OF names(1) cfa] rule_value_postfix [OF names(2) ra]
    by (simp add: FindCallerRegs_def Let_def)
qed

lemma FindCallerRegs_correct_witness:
  "FindCallerRegs
     \<lparr>cfa_rule = join '' '' (postfix (Binary BINARY_OP_ADD (Reg ''$rsp'') (Const (16::64 word)))),
      ra_rule = join '' '' (postfix (Deref (Binary BINARY_OP_SUBTRACT (Reg ''.cfa'') (Const (8::64 word))))),
      register_rules = [rule_of (''$rbp'', Deref (Reg ''$rsp'' :: 64 word pexpr))]\<rparr>
     [''$rsp'' \<mapsto> 100] (\<lambda>a. Some (a + 1)) Map.empty =
   Some ([''$rbp'' \<mapsto> 101, ''.ra'' \<mapsto> 109, ''.cfa'' \<mapsto> 116], True)"
proof -
  let ?c = "\<lparr>cfa_rule = join '' '' (postfix (Binary BINARY_OP_ADD (Reg ''$rsp'') (Const (16::64 word)))),
      ra_rule = join '' '' (postfix (Deref (Binary BINARY_OP_SUBTRACT (Reg ''.cfa'') (Const (8::64 word))))),
      register_rules = [rule_of (''$rbp'', Deref (Reg ''$rsp'' :: 64 word pexpr))]\<rparr>"
  have "FindCallerRegs ?c [''$rsp'' \<mapsto> 100] (\<lambda>a. Some (a + 1)) Map.empty =
      Some ((\<lambda>n. Option.bind (map_of [(''$rbp'', Deref (Reg ''$rsp'' :: 64 word pexpr))] n)
        (pvalue [''$rsp'' \<mapsto> 100, ''.cfa'' \<mapsto> 116] (Some (\<lambda>a. Some (a + 1)))))(''.ra'' \<mapsto> 109, ''.cfa'' \<mapsto> 116), True)"
    by (rule conjunct1 [OF FindCallerRegs_correct [where ce = "Binary BINARY_OP_ADD (Reg ''$rsp'') (Const (16::64 word))"
        and re = "Deref (Binary BINARY_OP_SUBTRACT (Reg ''.cfa'') (Const (8::64 word)))"]])
      (simp_all add: register_name_def is_token_def stream_space_def binary_result_def)
  also have "(\<lambda>n. Option.bind (map_of [(''$rbp'', Deref (Reg ''$rsp'' :: 64 word pexpr))] n)
      (pvalue [''$rsp'' \<mapsto> 100, ''.cfa'' \<mapsto> 116] (Some (\<lambda>a. Some (a + 1))))) = [''$rbp'' \<mapsto> 101]"
    by (simp add: fun_eq_iff)
  finally show ?thesis .
qed

section \<open>The register walk\<close>

text \<open>What the walk takes as the caller's value of a register.\<close>

definition caller_value ::
  "'v RegisterValueMap \<Rightarrow> ('m \<Rightarrow> 'v) \<Rightarrow> u32 \<Rightarrow> 'm RegisterSet \<Rightarrow> 'v option" where
  "caller_value caller_registers callee_context callee_validity r =
     (case caller_registers (reg_name r) of Some v \<Rightarrow> Some v
      | None \<Rightarrow> (case Option.bind (alternate_name r) caller_registers of Some v \<Rightarrow> Some v
         | None \<Rightarrow> if callee_saves r \<and> callee_validity AND validity_flag r \<noteq> 0
                   then Some (callee_context (context_member r)) else None))"

text \<open>A register table: every register has its own member and its own validity bits.\<close>

definition register_map_ok :: "'m RegisterSet list \<Rightarrow> bool" where
  "register_map_ok rs \<longleftrightarrow> distinct (map context_member rs) \<and> (\<forall>r\<in>set rs. validity_flag r \<noteq> 0) \<and>
     sorted_wrt (\<lambda>r s. validity_flag r AND validity_flag s = 0) rs"

lemma populate_caller_step:
  "populate_caller (r # rs) cr cc cv (ctx, val) =
     populate_caller rs cr cc cv (case caller_value cr cc cv r of
         Some v \<Rightarrow> (ctx(context_member r := v), val OR validity_flag r) | None \<Rightarrow> (ctx, val))"
  by (auto simp: caller_value_def split: option.splits)

lemma populate_caller_other:
  assumes "populate_caller rs cr cc cv (ctx, val) = (ctx', val')"
  shows "m \<notin> context_member ` set rs \<Longrightarrow> ctx' m = ctx m"
    and "(\<forall>r\<in>set rs. f AND validity_flag r = 0) \<Longrightarrow> val' AND f = val AND f"
proof -
  show "ctx' m = ctx m" if "m \<notin> context_member ` set rs"
    using assms that
    by (induction rs arbitrary: ctx val)
      (auto simp: populate_caller_step simp del: populate_caller.simps(2) split: option.splits)
  show "val' AND f = val AND f" if "\<forall>r\<in>set rs. f AND validity_flag r = 0"
    using assms that
    by (induction rs arbitrary: ctx val)
      (auto simp: populate_caller_step bit.conj_disj_distrib bit.conj_disj_distrib2 and.commute
        simp del: populate_caller.simps(2) split: option.splits)
qed

lemma populate_caller_values:
  assumes "populate_caller rs cr cc cv (ctx, val) = (ctx', val')" "register_map_ok rs" "r \<in> set rs"
    "\<forall>r\<in>set rs. val AND validity_flag r = 0"
  shows "(val' AND validity_flag r \<noteq> 0 \<longleftrightarrow> caller_value cr cc cv r \<noteq> None) \<and>
    (\<forall>v. caller_value cr cc cv r = Some v \<longrightarrow> ctx' (context_member r) = v)"
  using assms
proof (induction rs arbitrary: ctx val)
  case (Cons s rs)
  show ?case
  proof (cases "r = s")
    case True
    then show ?thesis
      using Cons.prems populate_caller_other(1) [of rs cr cc cv _ _ ctx' val' "context_member s"]
        populate_caller_other(2) [of rs cr cc cv _ _ ctx' val' "validity_flag s"]
      by (cases "caller_value cr cc cv s")
        (auto simp: populate_caller_step register_map_ok_def bit.conj_disj_distrib2 simp del: populate_caller.simps(2))
  next
    case False
    then have r: "r \<in> set rs" "register_map_ok rs"
      using Cons.prems by (auto simp: register_map_ok_def)
    have "\<forall>r\<in>set rs. (val OR validity_flag s) AND validity_flag r = 0"
      using Cons.prems by (auto simp: register_map_ok_def bit.conj_disj_distrib2)
    then show ?thesis
      using Cons.IH [OF _ r(2,1)] Cons.prems
      by (cases "caller_value cr cc cv s") (auto simp: populate_caller_step simp del: populate_caller.simps(2))
  qed
qed simp

text \<open>C9. The register walk recovers exactly the registers it can: when the rules apply, the validity bits
  say for each register of the table whether the rules give it a value under its name or its alternate
  name, or it is a preserved register that is valid in the callee, and the caller's context holds that
  value.\<close>

theorem FindCallerRegisters_correct:
  assumes "register_map_ok register_map" "r \<in> set register_map"
    "FindCallerRegs c (populate_callee register_map callee_context callee_validity Map.empty) mem Map.empty =
       Some (caller_registers, True)"
  shows "\<exists>caller_context caller_validity.
    FindCallerRegisters register_map mem c callee_context callee_validity =
      Some (Some (caller_context, caller_validity)) \<and>
    (caller_validity AND validity_flag r \<noteq> 0 \<longleftrightarrow>
       caller_value caller_registers callee_context callee_validity r \<noteq> None) \<and>
    (\<forall>v. caller_value caller_registers callee_context callee_validity r = Some v \<longrightarrow>
       caller_context (context_member r) = v)"
proof -
  obtain ctx val where res:
    "populate_caller register_map caller_registers callee_context callee_validity (\<lambda>_. fill_0xda, 0) = (ctx, val)"
    by fastforce
  then have "FindCallerRegisters register_map mem c callee_context callee_validity = Some (Some (ctx, val))"
    using assms(3) by (simp add: FindCallerRegisters_def)
  moreover note populate_caller_values [OF res assms(1,2)]
  ultimately show ?thesis
    by auto
qed

lemma FindCallerRegisters_correct_witness:
  "\<exists>caller_context caller_validity.
    FindCallerRegisters
      [\<lparr>reg_name = ''$rsp'', alternate_name = Some ''.cfa'', callee_saves = False, validity_flag = 1, context_member = False\<rparr>,
       \<lparr>reg_name = ''$rbx'', alternate_name = None, callee_saves = True, validity_flag = 2, context_member = True\<rparr>]
      (\<lambda>a. None) \<lparr>cfa_rule = ''8'', ra_rule = ''9'', register_rules = []\<rparr> (\<lambda>_. 5 :: 64 word) 3 =
        Some (Some (caller_context, caller_validity)) \<and>
    caller_validity AND 1 \<noteq> 0 \<and> caller_context False = 8"
proof -
  let ?map = "[\<lparr>reg_name = ''$rsp'', alternate_name = Some ''.cfa'', callee_saves = False, validity_flag = 1, context_member = False\<rparr>,
       \<lparr>reg_name = ''$rbx'', alternate_name = None, callee_saves = True, validity_flag = 2, context_member = True\<rparr>]"
  let ?c = "\<lparr>cfa_rule = ''8'', ra_rule = ''9'', register_rules = []\<rparr>"
  have "FindCallerRegs ?c (populate_callee ?map (\<lambda>_. 5 :: 64 word) 3 Map.empty) (\<lambda>a. None) Map.empty =
      Some ([''.ra'' \<mapsto> 9, ''.cfa'' \<mapsto> 8], True)"
    by (simp add: FindCallerRegs_def rule_value_def EvaluateForValue_def EvaluateInternal_def tokens.simps strtok_r_def
      stream_space_def EvaluateToken_def operation_of_def PopValue_def PopValueOrIdentifier_def read_unsigned_def
      isdigit_def digits_val_def digit_val_def Let_def and_then_def clear_stack_def del: populate_callee.simps)
  from FindCallerRegisters_correct [OF _ _ this, of "hd ?map"] show ?thesis
    by (simp add: register_map_ok_def caller_value_def)
qed

end
