(* ===== verification/Symbol_Writer.thy ===== *)
theory Symbol_Writer
  imports Number_Text Ordered_Map CFI_Frame_Info "HOL-Library.Product_Lexorder"
begin

text \<open>
  common/module.h and common/module.cc: the contents of a module that a dump tool collects, and the
  symbol file it writes. A \<open>File*\<close> is the file's name, the key of the only map that makes files; an
  \<open>InlineOrigin*\<close> is an index into a heap of origins, because an origin is renamed and numbered while
  inlined calls point to it. The stream is the text written to it; it does not fail.
\<close>

section \<open>Contents of a module\<close>

record ModRange =
  rg_address :: u64
  rg_size :: u64

record ModLine =
  ml_address :: u64
  ml_size :: u64
  ml_file :: string
  ml_number :: int

record ModInlineOrigin =
  io_id :: int
  io_name :: string

text \<open>The fields of an inlined call, and the call with its children.\<close>

record InlineData =
  in_origin :: nat
  in_ranges :: "ModRange list"
  in_call_site_line :: int
  in_call_site_file_id :: int
  in_call_site_file :: "string option"
  in_nest_level :: int

datatype ModInline = ModInline (inline_data: InlineData) (child_inlines: "ModInline list")

record ModFunction =
  mf_name :: string
  mf_address :: u64
  mf_ranges :: "ModRange list"
  mf_parameter_size :: u64
  mf_lines :: "ModLine list"
  mf_inlines :: "ModInline list"
  mf_is_multiple :: bool

record ModExtern =
  ext_address :: u64
  ext_name :: string
  ext_is_multiple :: bool

type_synonym RuleMap = "(string, string) omap"
type_synonym RuleChangeMap = "(u64, RuleMap) omap"

record StackFrameEntry =
  se_address :: u64
  se_size :: u64
  initial_rules :: RuleMap
  rule_changes :: RuleChangeMap

text \<open>
  The set of functions is keyed by address and name, the set of externs by address; the files map
  holds the source id of each file.
\<close>

record DumpModule =
  dm_name :: string
  dm_os :: string
  dm_architecture :: string
  dm_id :: string
  dm_code_id :: string
  load_address :: u64
  address_ranges :: "ModRange list"
  dm_files :: "(string, int) omap"
  dm_functions :: "(u64 \<times> string, ModFunction) omap"
  function_addresses :: "u64 list"
  stack_frame_entries :: "StackFrameEntry list"
  dm_externs :: "(u64, ModExtern) omap"
  dm_origins :: "ModInlineOrigin list"
  enable_multiple_field :: bool
  prefer_extern_name :: bool

definition DumpModule_new :: "string \<Rightarrow> string \<Rightarrow> string \<Rightarrow> string \<Rightarrow> string \<Rightarrow> bool \<Rightarrow> bool \<Rightarrow> DumpModule" where
  "DumpModule_new name os architecture id_string code_id multiple prefer =
     \<lparr>dm_name = name, dm_os = os, dm_architecture = architecture, dm_id = id_string, dm_code_id = code_id,
      load_address = 0, address_ranges = [], dm_files = [], dm_functions = [], function_addresses = [],
      stack_frame_entries = [], dm_externs = [], dm_origins = [],
      enable_multiple_field = multiple, prefer_extern_name = prefer\<rparr>"

definition SetLoadAddress :: "u64 \<Rightarrow> DumpModule \<Rightarrow> DumpModule" where
  "SetLoadAddress address m = m\<lparr>load_address := address\<rparr>"

definition SetAddressRanges :: "ModRange list \<Rightarrow> DumpModule \<Rightarrow> DumpModule" where
  "SetAddressRanges ranges m = m\<lparr>address_ranges := ranges\<rparr>"

section \<open>Adding to a module\<close>

definition AddressIsInModule :: "DumpModule \<Rightarrow> u64 \<Rightarrow> bool" where
  "AddressIsInModule m address \<longleftrightarrow> address_ranges m = [] \<or>
     list_ex (\<lambda>segment. rg_address segment \<le> address \<and> address < rg_address segment + rg_size segment)
       (address_ranges m)"

text \<open>\<open>string::find\<close>, as far as whether it finds anything.\<close>

definition contains :: "string \<Rightarrow> string \<Rightarrow> bool" where
  "contains s t \<longleftrightarrow> list_ex (\<lambda>i. take (length t) (drop i s) = t) [0..<Suc (length s)]"

text \<open>The extern that a function replaces: at its address, or for ARM with the Thumb bit set.\<close>

definition matching_extern :: "DumpModule \<Rightarrow> u64 \<Rightarrow> nat" where
  "matching_extern m address =
     (let it = om_find (dm_externs m) address in
      if it = length (dm_externs m) \<and> dm_architecture m = ''arm'' \<and> and address 1 = 0
      then om_find (dm_externs m) (or address 1) else it)"

definition merge_extern :: "DumpModule \<Rightarrow> ModExtern \<Rightarrow> ModFunction \<Rightarrow> ModFunction" where
  "merge_extern m found_ext function =
     (let name_mismatch = (ext_name found_ext \<noteq> mf_name function);
          function = (if enable_multiple_field m then
              (let is_multiple_based_on_name =
                 (if name_mismatch \<and> (mf_name function = ''<name omitted>'' \<or> contains (ext_name found_ext) (mf_name function))
                  then False else name_mismatch)
               in function\<lparr>mf_is_multiple := mf_is_multiple function \<or> is_multiple_based_on_name \<or> ext_is_multiple found_ext\<rparr>)
            else function)
      in if name_mismatch \<and> prefer_extern_name m then function\<lparr>mf_name := ext_name found_ext\<rparr> else function)"

text \<open>The first function at an address becomes a multiple symbol.\<close>

fun mark_multiple :: "u64 \<Rightarrow> (u64 \<times> string, ModFunction) omap \<Rightarrow> (u64 \<times> string, ModFunction) omap" where
  "mark_multiple address [] = []"
| "mark_multiple address ((k, f) # fs) =
     (if mf_address f = address then (k, f\<lparr>mf_is_multiple := True\<rparr>) # fs else (k, f) # mark_multiple address fs)"

text \<open>
  The block under \<open>#if _DEBUG\<close>: no public symbol that is left may lie between the address of the function
  and the end of one of its ranges. The search starts at the function's address for every range; the
  symbol that the code makes for the address of the range is not used.
\<close>

definition debug_check :: "ModFunction \<Rightarrow> u64 \<Rightarrow> DumpModule \<Rightarrow> bool" where
  "debug_check function address m \<longleftrightarrow>
     list_all (\<lambda>range. let it_debug = om_lower_bound (dm_externs m) address in
       it_debug = length (dm_externs m) \<or> rg_address range + rg_size range \<le> ext_address (snd (dm_externs m ! it_debug)))
       (mf_ranges function)"

text \<open>
  \<open>None\<close> is a failed assertion: an empty name, a symbol that the check of a debug build finds, or an
  address that is recorded without a function. \<open>debug\<close> says whether the build defines \<open>_DEBUG\<close>.
  The function is a new object, so a function that is already in the set is another one.
\<close>

definition AddFunction :: "bool \<Rightarrow> ModFunction \<Rightarrow> DumpModule \<Rightarrow> (DumpModule \<times> bool) option" where
  "AddFunction debug function m =
     (if mf_name function = [] then None
      else if \<not> AddressIsInModule m (mf_address function) then Some (m, False)
      else
        let it_ext = matching_extern m (mf_address function);
            (function, m) = (if it_ext < length (dm_externs m) then
                (merge_extern m (snd (dm_externs m ! it_ext)) function,
                 m\<lparr>dm_externs := om_erase (dm_externs m) it_ext\<rparr>)
              else (function, m));
            key = (mf_address function, mf_name function)
        in if debug \<and> \<not> debug_check function (mf_address function) m then None
           else if enable_multiple_field m \<and> mf_address function \<in> set (function_addresses m) then
             (if list_ex (\<lambda>p. mf_address (snd p) = mf_address function) (dm_functions m) then
                Some (m\<lparr>dm_functions := mark_multiple (mf_address function) (dm_functions m)\<rparr>, False)
              else None)
           else
             Some (m\<lparr>function_addresses := List.insert (mf_address function) (function_addresses m),
                 dm_functions := om_insert key function (dm_functions m)\<rparr>,
               om_find (dm_functions m) key = length (dm_functions m)))"

definition AddStackFrameEntry :: "StackFrameEntry \<Rightarrow> DumpModule \<Rightarrow> DumpModule" where
  "AddStackFrameEntry entry m =
     (if \<not> AddressIsInModule m (se_address entry) then m
      else m\<lparr>stack_frame_entries := stack_frame_entries m @ [entry]\<rparr>)"

definition AddExtern :: "ModExtern \<Rightarrow> DumpModule \<Rightarrow> DumpModule" where
  "AddExtern ext m =
     (if \<not> AddressIsInModule m (ext_address ext) then m
      else
        let it = om_find (dm_externs m) (ext_address ext) in
        if it < length (dm_externs m) then
          (if enable_multiple_field m then
             m\<lparr>dm_externs := (dm_externs m)[it := (fst (dm_externs m ! it), (snd (dm_externs m ! it))\<lparr>ext_is_multiple := True\<rparr>)]\<rparr>
           else m)
        else m\<lparr>dm_externs := om_insert (ext_address ext) ext (dm_externs m)\<rparr>)"

definition FindFile :: "string \<Rightarrow> DumpModule \<Rightarrow> DumpModule \<times> string" where
  "FindFile name m =
     (let destiny = om_lower_bound (dm_files m) name in
      if destiny = length (dm_files m) \<or> fst (dm_files m ! destiny) \<noteq> name
      then (m\<lparr>dm_files := om_insert name (-1) (dm_files m)\<rparr>, name)
      else (m, fst (dm_files m ! destiny)))"

definition FindExistingFile :: "string \<Rightarrow> DumpModule \<Rightarrow> string option" where
  "FindExistingFile name m =
     (let it = om_find (dm_files m) name in
      if it = length (dm_files m) then None else Some (fst (dm_files m ! it)))"

definition GetFunctions :: "DumpModule \<Rightarrow> ModFunction list \<Rightarrow> nat \<Rightarrow> ModFunction list" where
  "GetFunctions m vec i = take i vec @ map snd (dm_functions m) @ drop i vec"

definition GetExterns :: "DumpModule \<Rightarrow> ModExtern list \<Rightarrow> nat \<Rightarrow> ModExtern list" where
  "GetExterns m vec i = take i vec @ map snd (dm_externs m) @ drop i vec"

definition GetFiles :: "DumpModule \<Rightarrow> string list" where
  "GetFiles m = map fst (dm_files m)"

definition GetStackFrameEntries :: "DumpModule \<Rightarrow> StackFrameEntry list" where
  "GetStackFrameEntries m = stack_frame_entries m"

section \<open>Inline origins\<close>

record InlineOriginMap =
  iom_origins :: "(u64, nat) omap"
  iom_references :: "(u64, u64) omap"

definition InlineOriginMap_new :: InlineOriginMap where
  "InlineOriginMap_new = \<lparr>iom_origins = [], iom_references = []\<rparr>"

text \<open>The chain of references is followed until it leaves the map or an offset refers to itself.\<close>

partial_function (option) find_root :: "(u64, u64) omap \<Rightarrow> u64 \<Rightarrow> u64 option" where
  "find_root references specification_offset = (case om_lookup references specification_offset of
       None \<Rightarrow> Some specification_offset
     | Some r \<Rightarrow> if specification_offset \<noteq> r then find_root references r else Some specification_offset)"

text \<open>\<open>operator[]\<close> makes an entry with the value 0 when there is none.\<close>

definition subscript :: "u64 \<Rightarrow> (u64, u64) omap \<Rightarrow> (u64, u64) omap \<times> u64" where
  "subscript k m = (case om_lookup m k of Some v \<Rightarrow> (m, v) | None \<Rightarrow> (om_assign k 0 m, 0))"

definition GetOrCreateInlineOrigin ::
  "u64 \<Rightarrow> string \<Rightarrow> InlineOriginMap \<Rightarrow> ModInlineOrigin list \<Rightarrow> (InlineOriginMap \<times> ModInlineOrigin list \<times> nat) option" where
  "GetOrCreateInlineOrigin offset name iom origins =
     (let (references, specification_offset) = subscript offset (iom_references iom);
          iom = iom\<lparr>iom_references := references\<rparr>
      in Option.bind (find_root references specification_offset) (\<lambda>specification_offset.
        Some (case om_lookup (iom_origins iom) specification_offset of
            Some p \<Rightarrow>
              (iom, if io_name (origins ! p) = ''<name omitted>'' then origins[p := (origins ! p)\<lparr>io_name := name\<rparr>] else origins, p)
          | None \<Rightarrow>
              (iom\<lparr>iom_origins := om_assign specification_offset (length origins) (iom_origins iom)\<rparr>,
               origins @ [\<lparr>io_id = -1, io_name = name\<rparr>], length origins))))"

definition SetReference :: "u64 \<Rightarrow> u64 \<Rightarrow> InlineOriginMap \<Rightarrow> InlineOriginMap" where
  "SetReference offset specification_offset iom = (case om_lookup (iom_references iom) offset of
       None \<Rightarrow> iom\<lparr>iom_references := om_assign offset specification_offset (iom_references iom)\<rparr>
     | Some r \<Rightarrow>
         if offset = specification_offset \<or> specification_offset = r then iom
         else
           let origins = iom_origins iom;
               origins = (case om_lookup origins r of
                   None \<Rightarrow> origins
                 | Some p \<Rightarrow>
                     (let origins = om_assign specification_offset p origins in om_erase origins (om_find origins r)))
           in \<lparr>iom_origins = origins, iom_references = om_assign offset specification_offset (iom_references iom)\<rparr>)"

text \<open>\<open>InlineDFS\<close>: a call is handled, then its children, then the calls after it.\<close>

fun InlineDFS :: "(InlineData \<Rightarrow> 's \<Rightarrow> InlineData \<times> 's) \<Rightarrow> ModInline list \<Rightarrow> 's \<Rightarrow> ModInline list \<times> 's" where
  "InlineDFS for_each [] s = ([], s)"
| "InlineDFS for_each (ModInline d children # inlines) s =
     (let (d, s) = for_each d s;
          (children, s) = InlineDFS for_each children s;
          (inlines, s) = InlineDFS for_each inlines s
      in (ModInline d children # inlines, s))"

primrec functions_dfs ::
  "(InlineData \<Rightarrow> 's \<Rightarrow> InlineData \<times> 's) \<Rightarrow> (u64 \<times> string, ModFunction) omap \<Rightarrow> 's \<Rightarrow> (u64 \<times> string, ModFunction) omap \<times> 's" where
  "functions_dfs for_each [] s = ([], s)"
| "functions_dfs for_each (p # fs) s =
     (let (inlines, s) = InlineDFS for_each (mf_inlines (snd p)) s;
          (fs, s) = functions_dfs for_each fs s
      in ((fst p, (snd p)\<lparr>mf_inlines := inlines\<rparr>) # fs, s))"

text \<open>Origins of the same name become one, the first that is met; then they are numbered by name.\<close>

definition addInlineOrigins :: "ModInlineOrigin list \<Rightarrow> InlineData \<Rightarrow> (string, nat) omap \<Rightarrow> InlineData \<times> (string, nat) omap" where
  "addInlineOrigins origins d inline_origins =
     (let name = io_name (origins ! in_origin d) in
      case om_lookup inline_origins name of
        None \<Rightarrow> (d, om_assign name (in_origin d) inline_origins)
      | Some p \<Rightarrow> (d\<lparr>in_origin := p\<rparr>, inline_origins))"

primrec number_origins :: "int \<Rightarrow> (string, nat) omap \<Rightarrow> ModInlineOrigin list \<Rightarrow> ModInlineOrigin list" where
  "number_origins next_id [] origins = origins"
| "number_origins next_id (p # ps) origins =
     number_origins (next_id + 1) ps (origins[snd p := (origins ! snd p)\<lparr>io_id := next_id\<rparr>])"

definition CreateInlineOrigins :: "DumpModule \<Rightarrow> DumpModule \<times> (string, nat) omap" where
  "CreateInlineOrigins m =
     (let (functions, inline_origins) = functions_dfs (addInlineOrigins (dm_origins m)) (dm_functions m) []
      in (m\<lparr>dm_functions := functions, dm_origins := number_origins 0 inline_origins (dm_origins m)\<rparr>, inline_origins))"

section \<open>Source ids\<close>

definition mark_file :: "string \<Rightarrow> (string, int) omap \<Rightarrow> (string, int) omap" where
  "mark_file name files = map (\<lambda>p. if fst p = name then (name, 0) else p) files"

definition markInlineFiles :: "InlineData \<Rightarrow> (string, int) omap \<Rightarrow> InlineData \<times> (string, int) omap" where
  "markInlineFiles d files =
     (d, case in_call_site_file d of None \<Rightarrow> files | Some name \<Rightarrow> mark_file name files)"

primrec number_files :: "int \<Rightarrow> (string, int) omap \<Rightarrow> (string, int) omap" where
  "number_files next_source_id [] = []"
| "number_files next_source_id (p # files) =
     (if snd p = 0 then (fst p, next_source_id) # number_files (next_source_id + 1) files
      else p # number_files next_source_id files)"

definition AssignSourceIds :: "DumpModule \<Rightarrow> DumpModule" where
  "AssignSourceIds m =
     (let files = map (\<lambda>p. (fst p, -1)) (dm_files m);
          files = fold (\<lambda>p. fold (\<lambda>line. mark_file (ml_file line)) (mf_lines (snd p))) (dm_functions m) files;
          (functions, files) = functions_dfs markInlineFiles (dm_functions m) files
      in m\<lparr>dm_functions := functions, dm_files := number_files 0 files\<rparr>)"

section \<open>Writing a symbol file\<close>

definition endl :: string where
  "endl = [CHR 0x0A]"

definition SYMBOLS_AND_FILES :: int where "SYMBOLS_AND_FILES = 1"
definition CFI_DATA :: int where "CFI_DATA = 2"

text \<open>The source id behind a \<open>File*\<close>: the pointer is to a file of the module.\<close>

definition file_id :: "DumpModule \<Rightarrow> string \<Rightarrow> int" where
  "file_id m name = the (om_lookup (dm_files m) name)"

definition getCallSiteFileID :: "DumpModule \<Rightarrow> InlineData \<Rightarrow> int" where
  "getCallSiteFileID m d = (case in_call_site_file d of None \<Rightarrow> -1 | Some name \<Rightarrow> file_id m name)"

definition write_file :: "string \<times> int \<Rightarrow> string" where
  "write_file p = (if 0 \<le> snd p then ''FILE '' @ show_int (snd p) @ '' '' @ fst p @ endl else [])"

definition write_origin :: "DumpModule \<Rightarrow> nat \<Rightarrow> string" where
  "write_origin m p = ''INLINE_ORIGIN '' @ show_int (io_id (dm_origins m ! p)) @ '' '' @ io_name (dm_origins m ! p) @ endl"

definition write_function :: "DumpModule \<Rightarrow> ModFunction \<Rightarrow> ModRange \<Rightarrow> string" where
  "write_function m f rg = ''FUNC '' @ (if mf_is_multiple f then ''m '' else []) @
     hex_word (rg_address rg - load_address m) @ '' '' @ hex_word (rg_size rg) @ '' '' @
     hex_word (mf_parameter_size f) @ '' '' @ mf_name f @ endl"

definition write_inline :: "DumpModule \<Rightarrow> InlineData \<Rightarrow> string" where
  "write_inline m d = ''INLINE '' @ show_int (in_nest_level d) @ '' '' @ show_int (in_call_site_line d) @ '' '' @
     show_int (getCallSiteFileID m d) @ '' '' @ show_int (io_id (dm_origins m ! in_origin d)) @
     concat (map (\<lambda>r. '' '' @ hex_word (rg_address r - load_address m) @ '' '' @ hex_word (rg_size r)) (in_ranges d)) @ endl"

definition write_line :: "DumpModule \<Rightarrow> ModLine \<Rightarrow> string" where
  "write_line m line = hex_word (ml_address line - load_address m) @ '' '' @ hex_word (ml_size line) @ '' '' @
     show_int (ml_number line) @ '' '' @ show_int (file_id m (ml_file line)) @ endl"

definition in_mod_range :: "ModRange \<Rightarrow> u64 \<Rightarrow> bool" where
  "in_mod_range rg address \<longleftrightarrow> rg_address rg \<le> address \<and> address < rg_address rg + rg_size rg"

text \<open>The inlines are written again for every range; the lines go on where the last range stopped.\<close>

primrec write_ranges :: "DumpModule \<Rightarrow> ModFunction \<Rightarrow> ModRange list \<Rightarrow> ModLine list \<Rightarrow> string" where
  "write_ranges m f [] lines = []"
| "write_ranges m f (rg # ranges) lines =
     (let here = takeWhile (\<lambda>line. in_mod_range rg (ml_address line)) lines;
          lines = dropWhile (\<lambda>line. in_mod_range rg (ml_address line)) lines
      in write_function m f rg @ snd (InlineDFS (\<lambda>d out. (d, out @ write_inline m d)) (mf_inlines f) []) @
         concat (map (write_line m) here) @ write_ranges m f ranges lines)"

definition write_extern :: "DumpModule \<Rightarrow> ModExtern \<Rightarrow> string" where
  "write_extern m ext = ''PUBLIC '' @ (if ext_is_multiple ext then ''m '' else []) @
     hex_word (ext_address ext - load_address m) @ '' 0 '' @ ext_name ext @ endl"

primrec WriteRuleMap :: "RuleMap \<Rightarrow> string" where
  "WriteRuleMap [] = []"
| "WriteRuleMap (p # rules) = fst p @ '': '' @ snd p @ (if rules = [] then [] else '' '' @ WriteRuleMap rules)"

definition write_delta :: "DumpModule \<Rightarrow> u64 \<times> RuleMap \<Rightarrow> string" where
  "write_delta m p = ''STACK CFI '' @ hex_word (fst p - load_address m) @ '' '' @ WriteRuleMap (snd p) @ endl"

definition write_entry :: "DumpModule \<Rightarrow> StackFrameEntry \<Rightarrow> string" where
  "write_entry m entry = ''STACK CFI INIT '' @ hex_word (se_address entry - load_address m) @ '' '' @
     hex_word (se_size entry) @ '' '' @ WriteRuleMap (initial_rules entry) @ endl @
     concat (map (write_delta m) (rule_changes entry))"

definition write_symbols :: "DumpModule \<Rightarrow> (string, nat) omap \<Rightarrow> string" where
  "write_symbols m inline_origins =
     concat (map write_file (dm_files m)) @
     concat (map (\<lambda>p. write_origin m (snd p)) inline_origins) @
     concat (map (\<lambda>p. write_ranges m (snd p) (mf_ranges (snd p)) (mf_lines (snd p))) (dm_functions m)) @
     concat (map (\<lambda>p. write_extern m (snd p)) (dm_externs m))"

definition write_header :: "DumpModule \<Rightarrow> string" where
  "write_header m = ''MODULE '' @ dm_os m @ '' '' @ dm_architecture m @ '' '' @ dm_id m @ '' '' @ dm_name m @ endl @
     (if dm_code_id m = [] then [] else ''INFO CODE_ID '' @ dm_code_id m @ endl)"

definition Module_Write_symbols :: "DumpModule \<Rightarrow> int \<Rightarrow> DumpModule \<times> string" where
  "Module_Write_symbols m symbol_data =
     (let header = write_header m;
          (m, symbols) = (if and symbol_data SYMBOLS_AND_FILES \<noteq> 0 then
              (let (m, inline_origins) = CreateInlineOrigins m; m = AssignSourceIds m
               in (m, write_symbols m inline_origins))
            else (m, []));
          cfi = (if and symbol_data CFI_DATA \<noteq> 0 then concat (map (write_entry m) (stack_frame_entries m)) else [])
      in (m, header @ symbols @ cfi))"

end
