(* ===== verification/Symbol_Roundtrip.thy ===== *)
theory Symbol_Roundtrip
  imports Symbol_Loader Symbol_Writer
begin

text \<open>
  The text form of the records of a symbol file, as it is written, and what the loader does with a line
  of that form: it reads back exactly the spaced that were written.
\<close>

section \<open>Tokens of written text\<close>

text \<open>Fields in front of a last one, each followed by a space.\<close>

definition spaced :: "string list \<Rightarrow> string \<Rightarrow> string" where
  "spaced ts rest = concat (map (\<lambda>t. t @ '' '') ts) @ rest"

lemma spaced_simps [simp]: "spaced [] rest = rest" "spaced (t # ts) rest = t @ '' '' @ spaced ts rest"
  by (simp_all add: spaced_def)

abbreviation one_line :: "string \<Rightarrow> bool" where
  "one_line \<equiv> is_token newlines"

lemma space_whitespace [simp]: "CHR '' '' \<in> set kWhitespace" "CHR 0x0A \<in> set newlines" "CHR '' '' \<notin> set newlines"
  by (simp_all add: kWhitespace_def newlines_def)

lemma strtok_newlines_one_line: "one_line s \<Longrightarrow> strtok_r newlines s = (Some s, [])"
  by (rule strtok_r_end)

lemma strtok_space: "is_token kWhitespace t \<Longrightarrow> strtok_r kWhitespace (t @ CHR '' '' # s) = (Some t, s)"
  by (rule strtok_r_next) simp_all

lemma tokenize_loop_next:
  "1 < n \<Longrightarrow> tokenize_loop seps n (Some t) save toks =
     (let (token, save) = (if 2 < n then strtok_r seps save else (Some t, save))
      in tokenize_loop seps (n - 1) token save (toks @ [t]))"
  by (subst tokenize_loop.simps) (simp add: Let_def)

lemma tokenize_loop_last: "tokenize_loop seps 1 (Some t) save toks = (toks, 0, save)"
  by (subst tokenize_loop.simps) simp

lemma tokenize_loop_none: "tokenize_loop seps n None save toks = (toks, n, save)"
  by (subst tokenize_loop.simps) simp

lemma tokenize_loop_spaced:
  assumes "\<forall>t\<in>set ts. is_token kWhitespace t" "is_token kWhitespace t"
  shows "tokenize_loop kWhitespace (int (length ts) + 2) (Some t) (spaced ts rest) toks = (toks @ t # ts, 0, rest)"
  using assms
proof (induction ts arbitrary: t toks)
  case Nil
  then show ?case
    by (simp add: tokenize_loop_next tokenize_loop_last)
next
  case (Cons u ts)
  then have "strtok_r kWhitespace (spaced (u # ts) rest) = (Some u, spaced ts rest)"
    by (simp add: strtok_space)
  then have "tokenize_loop kWhitespace (int (length (u # ts)) + 2) (Some t) (spaced (u # ts) rest) toks =
      tokenize_loop kWhitespace (int (length ts) + 2) (Some u) (spaced ts rest) (toks @ [t])"
    by (subst tokenize_loop_next) (simp_all only: Let_def, simp_all add: add.commute)
  then show ?case
    using Cons by simp
qed

lemma Tokenize_spaced:
  assumes "ts \<noteq> []" "\<forall>t\<in>set ts. is_token kWhitespace t" "one_line rest" "n = int (length ts) + 1"
  shows "Tokenize (spaced ts rest) kWhitespace n = (ts @ [rest], True)"
proof -
  obtain t us where ts: "ts = t # us"
    using assms(1) by (cases ts) auto
  have "strtok_r kWhitespace (spaced ts rest) = (Some t, spaced us rest)"
    using assms(2) by (simp add: ts strtok_space)
  then show ?thesis
    using tokenize_loop_spaced [of us t rest "[]"] assms(2-4) ts
    by (simp add: Tokenize_def strtok_newlines_one_line algebra_simps)
qed

text \<open>With room to spare, all tokens of a line.\<close>

lemma tokenize_loop_all:
  assumes "\<forall>t\<in>set ts. is_token kWhitespace t" "is_token kWhitespace t" "is_token kWhitespace u"
    "int (length ts) + 3 < n"
  shows "\<exists>n' save. 0 < n' \<and> tokenize_loop kWhitespace n (Some t) (spaced ts u) toks = (toks @ t # ts @ [u], n', save)"
  using assms
proof (induction ts arbitrary: t toks n)
  case Nil
  have "strtok_r kWhitespace (spaced [] u) = (Some u, [])" "strtok_r kWhitespace [] = (None, [])"
    using Nil(3) strtok_r_end by (auto simp: strtok_r_def)
  then show ?case
    using Nil by (simp add: tokenize_loop_next tokenize_loop_none)
next
  case (Cons v ts)
  have "strtok_r kWhitespace (spaced (v # ts) u) = (Some v, spaced ts u)"
    using Cons(2) by (simp add: strtok_space)
  then show ?case
    using Cons(1) [of v "n - 1" "toks @ [t]"] Cons(2-5) by (simp add: tokenize_loop_next)
qed

lemma Tokenize_all:
  assumes "ts \<noteq> []" "\<forall>t\<in>set ts. is_token kWhitespace t" "is_token kWhitespace u" "int (length ts) + 2 < n"
  shows "fst (Tokenize (spaced ts u) kWhitespace n) = ts @ [u]"
proof -
  obtain t us where ts: "ts = t # us"
    using assms(1) by (cases ts) auto
  have s: "strtok_r kWhitespace (spaced ts u) = (Some t, spaced us u)"
    using assms(2) by (simp add: ts strtok_space)
  obtain n' save where "0 < n'" "tokenize_loop kWhitespace n (Some t) (spaced us u) [] = ([] @ t # us @ [u], n', save)"
    using tokenize_loop_all [of us t u n "[]"] assms(2-4) ts by auto
  then show ?thesis
    by (simp only: Tokenize_def s prod.case Let_def) (simp add: ts)
qed

lemma TokenizeWithOptionalField_without:
  assumes "is_token kWhitespace t" "\<forall>t\<in>set ts. is_token kWhitespace t" "one_line rest" "n = int (length ts) + 3" "t \<noteq> opt"
  shows "TokenizeWithOptionalField (spaced (t # ts) rest) opt kWhitespace n = Some (t # ts @ [rest])"
  using Tokenize_spaced [of "t # ts" rest "n - 1"] assms by (simp add: TokenizeWithOptionalField_def)

lemma one_line_token:
  assumes "is_token kWhitespace u" "one_line rest"
  shows "one_line (u @ '' '' @ rest)"
  using assms newlines_whitespace by (auto simp: is_token_def)

lemma TokenizeWithOptionalField_with:
  assumes "\<forall>t\<in>set (opt # ts). is_token kWhitespace t" "is_token kWhitespace u" "one_line rest" "n = int (length ts) + 3"
  shows "TokenizeWithOptionalField (spaced (opt # ts @ [u]) rest) opt kWhitespace n = Some (opt # ts @ [u, rest])"
proof -
  have l: "one_line (u @ '' '' @ rest)"
    using assms(2,3) by (rule one_line_token)
  have "spaced (opt # ts @ [u]) rest = spaced (opt # ts) (u @ '' '' @ rest)"
    by (simp add: spaced_def)
  then have "Tokenize (spaced (opt # ts @ [u]) rest) kWhitespace (n - 1) = ((opt # ts) @ [u @ '' '' @ rest], True)"
    using Tokenize_spaced [of "opt # ts" "u @ '' '' @ rest" "n - 1"] assms(1,4) l by simp
  moreover have "Tokenize (u @ '' '' @ rest) kWhitespace 2 = ([u, rest], True)"
    using Tokenize_spaced [of "[u]" rest 2] assms(2,3) by simp
  ultimately show ?thesis
    by (simp add: TokenizeWithOptionalField_def)
qed

section \<open>Records and their text\<close>

datatype SymRecord =
    RModule string
  | RInfo string
  | RFile int string
  | ROrigin int string
  | RFunction bool u64 u64 u64 string
  | RInline int int int int "(u64 \<times> u64) list"
  | RLine u64 u64 int int
  | RPublic bool u64 u64 string
  | RInit u64 u64 string
  | RDelta u64 string

text \<open>The lines of the file, without their ends.\<close>

fun pair_fields :: "(u64 \<times> u64) list \<Rightarrow> string list" where
  "pair_fields [] = []"
| "pair_fields ((a, s) # rs) = hex_word a # hex_word s # pair_fields rs"

definition multiple_field :: "bool \<Rightarrow> string list" where
  "multiple_field multiple = (if multiple then [''m''] else [])"

fun record_text :: "SymRecord \<Rightarrow> string" where
  "record_text (RModule s) = ''MODULE '' @ s"
| "record_text (RInfo s) = ''INFO '' @ s"
| "record_text (RFile i name) = ''FILE '' @ spaced [show_int i] name"
| "record_text (ROrigin i name) = ''INLINE_ORIGIN '' @ spaced [show_int i] name"
| "record_text (RFunction multiple a s ps name) =
     ''FUNC '' @ spaced (multiple_field multiple @ [hex_word a, hex_word s, hex_word ps]) name"
| "record_text (RInline level ln fid oid rs) =
     ''INLINE '' @ join '' '' ([show_int level, show_int ln, show_int fid, show_int oid] @ pair_fields rs)"
| "record_text (RLine a s ln fid) = spaced [hex_word a, hex_word s, show_int ln] (show_int fid)"
| "record_text (RPublic multiple a ps name) =
     ''PUBLIC '' @ spaced (multiple_field multiple @ [hex_word a, hex_word ps]) name"
| "record_text (RInit a s rules) = ''STACK CFI INIT '' @ spaced [hex_word a, hex_word s] rules"
| "record_text (RDelta a rules) = ''STACK CFI '' @ spaced [hex_word a] rules"

text \<open>
  The values a record can carry: numbers that are not the ones the parser takes for overflow, names of
  one line, an origin's name that does not look like a file number, not too many ranges.
\<close>

fun record_ok :: "SymRecord \<Rightarrow> bool" where
  "record_ok (RModule s) \<longleftrightarrow> one_line s"
| "record_ok (RInfo s) \<longleftrightarrow> one_line s"
| "record_ok (RFile i name) \<longleftrightarrow> 0 \<le> i \<and> i < LONG_MAX \<and> one_line name"
| "record_ok (ROrigin i name) \<longleftrightarrow> 0 \<le> i \<and> i < LONG_MAX \<and> one_line name \<and> \<not> is_file_id 0 name"
| "record_ok (RFunction multiple a s ps name) \<longleftrightarrow>
     a \<noteq> ULLONG_MAX \<and> s \<noteq> ULLONG_MAX \<and> int (unat ps) < LONG_MAX \<and> one_line name"
| "record_ok (RInline level ln fid oid rs) \<longleftrightarrow>
     0 \<le> level \<and> level < LONG_MAX \<and> 0 \<le> ln \<and> ln < LONG_MAX \<and> -1 \<le> fid \<and> fid < LONG_MAX \<and> 0 \<le> oid \<and> oid < LONG_MAX \<and>
     rs \<noteq> [] \<and> length rs \<le> 250 \<and> (\<forall>r\<in>set rs. fst r \<noteq> ULLONG_MAX \<and> snd r \<noteq> ULLONG_MAX)"
| "record_ok (RLine a s ln fid) \<longleftrightarrow>
     a \<noteq> ULLONG_MAX \<and> s \<noteq> ULLONG_MAX \<and> 0 \<le> ln \<and> ln < LONG_MAX \<and> 0 \<le> fid \<and> fid < LONG_MAX"
| "record_ok (RPublic multiple a ps name) \<longleftrightarrow> a \<noteq> ULLONG_MAX \<and> int (unat ps) < LONG_MAX \<and> one_line name"
| "record_ok (RInit a s rules) \<longleftrightarrow> one_line rules"
| "record_ok (RDelta a rules) \<longleftrightarrow> one_line rules"

text \<open>
  What a record does to the loader. The origin of an inlined call keeps, besides its name, a file id that
  was never set.
\<close>

fun replay :: "int \<Rightarrow> SymRecord \<Rightarrow> LoadState \<Rightarrow> LoadState option" where
  "replay junk (RModule s) st = Some st"
| "replay junk (RInfo s) st = Some st"
| "replay junk (RFile i name) st =
     Some (st\<lparr>ls_module := (ls_module st)\<lparr>m_files := om_insert (to_s32 i) name (m_files (ls_module st))\<rparr>\<rparr>)"
| "replay junk (ROrigin i name) st =
     Some (st\<lparr>ls_module := (ls_module st)\<lparr>m_inline_origins := om_insert (to_s32 i)
       (Some \<lparr>o_has_file_id = False, o_source_file_id = to_s32 junk, o_name = name\<rparr>) (m_inline_origins (ls_module st))\<rparr>\<rparr>)"
| "replay junk (RFunction multiple a s ps name) st =
     add_function (Function_new name a s (to_s32 (int (unat ps))) multiple) st"
| "replay junk (RInline level ln fid oid rs) st = (case cur_func st of
       None \<Rightarrow> None
     | Some i \<Rightarrow> Some (update_heap i (fst (AppendInline
         \<lparr>has_call_site_file_id = True, inline_nest_level = to_s32 level, call_site_line = to_s32 ln,
          call_site_file_id = to_s32 fid, origin_id = to_s32 oid, inline_ranges = rs\<rparr> (ls_heap st ! i))) st))"
| "replay junk (RLine a s ln fid) st = (case cur_func st of
       None \<Rightarrow> Some (LogParseError st)
     | Some i \<Rightarrow> add_line i \<lparr>l_address = a, l_size = s, l_source_file_id = to_s32 fid, l_line = to_s32 ln\<rparr> st)"
| "replay junk (RPublic multiple a ps name) st =
     (let st = st\<lparr>cur_func := None\<rparr> in
      if a = 0 then Some st
      else
        let x = \<lparr>p_name = name, p_address = a, p_parameter_size = to_s32 (int (unat ps)), p_is_multiple = multiple\<rparr>;
            (m, ok) = AddressMap_Store (m_public_symbols (ls_module st)) a (Some x)
        in Some (check_parse (st\<lparr>ls_module := (ls_module st)\<lparr>m_public_symbols := m\<rparr>\<rparr>, ok)))"
| "replay junk (RInit a s rules) st = map_option (\<lambda>(m, _). st\<lparr>ls_module := (ls_module st)\<lparr>m_cfi_initial_rules := m\<rparr>\<rparr>)
     (StoreRange (m_cfi_initial_rules (ls_module st)) a s rules)"
| "replay junk (RDelta a rules) st =
     Some (st\<lparr>ls_module := (ls_module st)\<lparr>m_cfi_delta_rules := om_assign a rules (m_cfi_delta_rules (ls_module st))\<rparr>\<rparr>)"

section \<open>Reading each record back\<close>

lemmas nth_simps = nth_Cons_0 nth_Cons_Suc nth_append

lemma SPH_ParseFile_text:
  assumes "record_ok (RFile i name)"
  shows "SPH_ParseFile (record_text (RFile i name)) = Some (i, name)"
proof -
  have "Tokenize (spaced [show_int i] name) kWhitespace 2 = ([show_int i, name], True)"
    using Tokenize_spaced [of "[show_int i]" name 2] assms by simp
  then show ?thesis
    using assms by (simp add: SPH_ParseFile_def checked_long_int LONG_MAX_def)
qed

lemma SPH_ParseInlineOrigin_text:
  assumes "record_ok (ROrigin i name)"
  shows "SPH_ParseInlineOrigin junk (record_text (ROrigin i name)) = Some (False, i, junk, name)"
proof -
  have "Tokenize (spaced [show_int i] name) kWhitespace 2 = ([show_int i, name], True)"
    using Tokenize_spaced [of "[show_int i]" name 2] assms by simp
  then show ?thesis
    using assms by (simp add: SPH_ParseInlineOrigin_def checked_long_int LONG_MAX_def)
qed

lemma m_token [simp]: "is_token kWhitespace ''m''"
  by (simp add: is_token_def kWhitespace_def)

lemma SPH_ParseFunction_text:
  assumes "record_ok (RFunction multiple a s ps name)"
  shows "SPH_ParseFunction (record_text (RFunction multiple a s ps name)) = Some (multiple, a, s, int (unat ps), name)"
proof -
  let ?ts = "[hex_word a, hex_word s, hex_word ps]"
  have "TokenizeWithOptionalField (spaced (multiple_field multiple @ ?ts) name) ''m'' kWhitespace 5 =
    Some (multiple_field multiple @ ?ts @ [name])"
    using TokenizeWithOptionalField_without [of "hex_word a" "[hex_word s, hex_word ps]" name 5 "''m''"]
      TokenizeWithOptionalField_with [of "''m''" "[hex_word a, hex_word s]" "hex_word ps" name 5] assms
    by (simp add: multiple_field_def)
  then show ?thesis
    using assms by (simp add: SPH_ParseFunction_def Let_def checked_long_hex multiple_field_def)
qed

lemma SPH_ParsePublicSymbol_text:
  assumes "record_ok (RPublic multiple a ps name)"
  shows "SPH_ParsePublicSymbol (record_text (RPublic multiple a ps name)) = Some (multiple, a, int (unat ps), name)"
proof -
  let ?ts = "[hex_word a, hex_word ps]"
  have "TokenizeWithOptionalField (spaced (multiple_field multiple @ ?ts) name) ''m'' kWhitespace 4 =
    Some (multiple_field multiple @ ?ts @ [name])"
    using TokenizeWithOptionalField_without [of "hex_word a" "[hex_word ps]" name 4 "''m''"]
      TokenizeWithOptionalField_with [of "''m''" "[hex_word a]" "hex_word ps" name 4] assms
    by (simp add: multiple_field_def)
  then show ?thesis
    using assms by (simp add: SPH_ParsePublicSymbol_def Let_def checked_long_hex multiple_field_def)
qed

lemma one_line_int [simp]: "one_line (show_int k)"
  using is_token_int [of k] newlines_whitespace by (auto simp: is_token_def)

lemma SPH_ParseLine_text:
  assumes "record_ok (RLine a s ln fid)"
  shows "SPH_ParseLine (record_text (RLine a s ln fid)) = Some (a, s, ln, fid)"
proof -
  have "Tokenize (spaced [hex_word a, hex_word s, show_int ln] (show_int fid)) kWhitespace 4 =
    ([hex_word a, hex_word s, show_int ln, show_int fid], True)"
    using Tokenize_spaced [of "[hex_word a, hex_word s, show_int ln]" "show_int fid" 4] by simp
  then show ?thesis
    using assms by (simp add: SPH_ParseLine_def checked_long_int LONG_MAX_def)
qed

lemma inline_pairs_fields:
  "\<forall>r\<in>set rs. fst r \<noteq> ULLONG_MAX \<and> snd r \<noteq> ULLONG_MAX \<Longrightarrow> inline_pairs (pair_fields rs) = Some rs"
  by (induction rs rule: pair_fields.induct) simp_all

lemma pair_fields_tokens: "t \<in> set (pair_fields rs) \<Longrightarrow> is_token kWhitespace t"
  by (induction rs rule: pair_fields.induct) auto

lemma length_pair_fields [simp]: "length (pair_fields rs) = 2 * length rs"
  by (induction rs rule: pair_fields.induct) simp_all

lemma join_spaced: "ts \<noteq> [] \<Longrightarrow> join '' '' ts = spaced (butlast ts) (last ts)"
  by (induction ts) auto

lemma SPH_ParseInline_text:
  assumes "record_ok (RInline level ln fid oid rs)"
  shows "SPH_ParseInline junk (record_text (RInline level ln fid oid rs)) = Some (True, level, ln, fid, oid, rs)"
proof -
  let ?ts = "[show_int level, show_int ln, show_int fid, show_int oid] @ pair_fields rs"
  have tok: "\<forall>t\<in>set ?ts. is_token kWhitespace t"
    using pair_fields_tokens by auto
  have ne: "?ts \<noteq> []"
    by simp
  have "fst (Tokenize (spaced (butlast ?ts) (last ?ts)) kWhitespace 512) = butlast ?ts @ [last ?ts]"
    by (rule Tokenize_all) (use tok assms in \<open>auto dest: in_set_butlastD\<close>)
  then have "fst (Tokenize (join '' '' ?ts) kWhitespace 512) = ?ts"
    by (simp only: join_spaced [OF ne] append_butlast_last_id [OF ne])
  then obtain ok where "Tokenize (join '' '' ?ts) kWhitespace 512 = (?ts, ok)"
    by (metis prod.collapse)
  then show ?thesis
    using assms by (simp add: SPH_ParseInline_def checked_long_int LONG_MAX_def inline_pairs_fields Let_def)
qed

section \<open>A line of a file\<close>

lemma hex_not_upper: "c \<in> {CHR ''F'', CHR ''S'', CHR ''P'', CHR ''M'', CHR ''I''} \<Longrightarrow> hd (show_hex n) \<noteq> c"
proof -
  have "number_char (hd (show_hex n))"
    using show_hex_chars [of n] by (cases "show_hex n") auto
  then show "c \<in> {CHR ''F'', CHR ''S'', CHR ''P'', CHR ''M'', CHR ''I''} \<Longrightarrow> hd (show_hex n) \<noteq> c"
    by (auto simp: number_char_def)
qed

lemma has_prefix_hd: "has_prefix (c # p) s \<Longrightarrow> s \<noteq> [] \<and> hd s = c"
  by (cases s) (auto simp: has_prefix_def)

lemma has_prefix_append [simp]: "has_prefix p (p @ s)"
  by (simp add: has_prefix_def)

lemma no_prefix_hex:
  assumes "c \<in> {CHR ''F'', CHR ''S'', CHR ''P'', CHR ''M'', CHR ''I''}"
  shows "\<not> has_prefix (c # p) (show_hex n @ s)"
proof
  assume "has_prefix (c # p) (show_hex n @ s)"
  then have "hd (show_hex n @ s) = c"
    by (rule has_prefix_hd [THEN conjunct2])
  then show False
    using hex_not_upper [OF assms, of n] by simp
qed

lemma hex_not_INIT [simp]: "show_hex n \<noteq> ''INIT''"
  using hex_not_upper [of "CHR ''I''" n] by auto

lemma strtok_INIT [simp]:
  "strtok_r kWhitespace (CHR ''I'' # CHR ''N'' # CHR ''I'' # CHR ''T'' # CHR '' '' # s) = (Some ''INIT'', s)"
  using strtok_space [of "''INIT''" s] by (simp add: is_token_def kWhitespace_def)

lemma ParseStackInfo_CFI:
  "Module_ParseStackInfo (''STACK CFI '' @ s) behind left st = map_option (\<lambda>r. (r, left)) (Module_ParseCFIFrameInfo s st)"
  by (cases "Module_ParseCFIFrameInfo s st") (simp_all add: Module_ParseStackInfo_def kWhitespace_def)

lemma load_line_CFI:
  assumes "Module_ParseCFIFrameInfo s st = map_option (\<lambda>st. (st, True)) r"
  shows "load_line junk (''STACK CFI '' @ s) behind left st = map_option (\<lambda>st. (st, left)) r"
proof -
  have "has_prefix ''STACK '' (''STACK CFI '' @ s)" "\<not> has_prefix ''FILE '' (''STACK CFI '' @ s)"
    by (simp_all add: has_prefix_def)
  then show ?thesis
    unfolding load_line_def ParseStackInfo_CFI assms
    by (simp add: option.map_comp comp_def check_parse_def)
qed

lemma load_line_text:
  assumes "record_ok r"
  shows "load_line junk (record_text r) behind left st = map_option (\<lambda>st. (st, left)) (replay junk r st)"
proof (cases r)
  case (RFile i name)
  then have "Module_ParseFile (record_text r) st = (the (replay junk r st), True)"
    using SPH_ParseFile_text [of i name] assms by (simp add: Module_ParseFile_def)
  then show ?thesis
    by (simp add: load_line_def RFile has_prefix_def with_left_def check_parse_def)
next
  case (RLine a s ln fid)
  have p: "SPH_ParseLine (record_text r) = Some (a, s, ln, fid)"
    using SPH_ParseLine_text [of a s ln fid] assms by (simp add: RLine)
  have "\<not> has_prefix (c # p) (record_text r)" if "c \<in> {CHR ''F'', CHR ''S'', CHR ''P'', CHR ''M'', CHR ''I''}" for c p
    using no_prefix_hex [OF that] by (simp add: RLine)
  then show ?thesis
    using p by (simp add: load_line_def with_left_def Module_ParseLine_def RLine split: option.splits)
next
  case (RFunction multiple a s ps name)
  have p: "SPH_ParseFunction (record_text r) = Some (multiple, a, s, int (unat ps), name)"
    using SPH_ParseFunction_text [of multiple a s ps name] assms by (simp add: RFunction)
  then show ?thesis
    by (simp add: load_line_def with_left_def Module_ParseFunction_def RFunction has_prefix_def)
next
  case (RPublic multiple a ps name)
  have p: "SPH_ParsePublicSymbol (record_text r) = Some (multiple, a, int (unat ps), name)"
    using SPH_ParsePublicSymbol_text [of multiple a ps name] assms by (simp add: RPublic)
  then show ?thesis
    by (simp add: load_line_def with_left_def Module_ParsePublicSymbol_def RPublic has_prefix_def
      check_parse_def Let_def split: prod.splits)
next
  case (RInline level ln fid oid rs)
  have p: "SPH_ParseInline junk (record_text r) = Some (True, level, ln, fid, oid, rs)"
    using SPH_ParseInline_text [of level ln fid oid rs] assms by (simp add: RInline)
  then show ?thesis
    by (simp add: load_line_def with_left_def Module_ParseInline_def RInline has_prefix_def split: option.splits)
next
  case (ROrigin i name)
  have p: "SPH_ParseInlineOrigin junk (record_text r) = Some (False, i, junk, name)"
    using SPH_ParseInlineOrigin_text [of i name] assms by (simp add: ROrigin)
  then show ?thesis
    by (simp add: load_line_def with_left_def Module_ParseInlineOrigin_def ROrigin has_prefix_def)
next
  case (RInit a s rules)
  have "Module_ParseCFIFrameInfo (''INIT '' @ spaced [hex_word a, hex_word s] rules) st =
      map_option (\<lambda>st. (st, True)) (replay junk r st)"
    using assms
    by (simp add: RInit Module_ParseCFIFrameInfo_def strtok_space strtok_newlines_one_line option.map_comp comp_def split_def)
  from load_line_CFI [OF this] show ?thesis
    by (simp add: RInit)
next
  case (RDelta a rules)
  have "Module_ParseCFIFrameInfo (spaced [hex_word a] rules) st = map_option (\<lambda>st. (st, True)) (replay junk r st)"
    using assms by (simp add: RDelta Module_ParseCFIFrameInfo_def strtok_space strtok_newlines_one_line)
  from load_line_CFI [OF this] show ?thesis
    by (simp add: RDelta)
qed (simp_all add: load_line_def has_prefix_def with_left_def)

section \<open>A file\<close>

lemma token_one_line: "is_token kWhitespace t \<Longrightarrow> one_line t"
  using newlines_whitespace by (auto simp: is_token_def)

lemma spaced_one_line: "\<forall>t\<in>set ts. is_token kWhitespace t \<Longrightarrow> one_line rest \<Longrightarrow> one_line (spaced ts rest)"
  by (induction ts) (simp_all add: one_line_token [simplified])

lemma one_line_append: "\<forall>c\<in>set p. c \<notin> set newlines \<Longrightarrow> one_line s \<Longrightarrow> one_line (p @ s)"
  by (auto simp: is_token_def)

lemma one_line_Cons: "one_line s \<Longrightarrow> one_line (c # s) \<longleftrightarrow> c \<noteq> CHR 0x0D \<and> c \<noteq> CHR 0x0A"
  by (auto simp: is_token_def newlines_def)

lemma record_text_one_line:
  assumes "record_ok r"
  shows "one_line (record_text r)"
proof (cases r)
  case (RInline level ln fid oid rs)
  let ?ts = "[show_int level, show_int ln, show_int fid, show_int oid] @ pair_fields rs"
  have ne: "?ts \<noteq> []"
    by simp
  have tok: "\<forall>t\<in>set ?ts. is_token kWhitespace t"
    using pair_fields_tokens by auto
  have "one_line (join '' '' ?ts)"
    unfolding join_spaced [OF ne]
    by (rule spaced_one_line) (use tok in \<open>auto intro!: token_one_line dest: in_set_butlastD split: if_splits\<close>)
  then show ?thesis
    unfolding RInline record_text.simps by (rule one_line_append [rotated]) (simp add: newlines_def)
qed (use assms in \<open>simp_all add: one_line_Cons spaced_one_line multiple_field_def del: spaced_simps\<close>)

text \<open>The records of a file one after the other, until there are too many errors.\<close>

primrec replay_all :: "int \<Rightarrow> SymRecord list \<Rightarrow> LoadState \<Rightarrow> LoadState option" where
  "replay_all junk [] st = Some st"
| "replay_all junk (r # rs) st = (case replay junk r st of
       None \<Rightarrow> None
     | Some st \<Rightarrow> if kMaxErrorsBeforeBailing < num_errors st then Some st else replay_all junk rs st)"

definition records_text :: "SymRecord list \<Rightarrow> string" where
  "records_text rs = concat (map (\<lambda>r. record_text r @ endl) rs)"

lemma load_lines_step:
  assumes "record_ok r" "strtok_r newlines s = (Some (record_text r), left)"
  shows "load_lines junk extra s st = (case replay junk r st of
       None \<Rightarrow> None
     | Some st \<Rightarrow> if kMaxErrorsBeforeBailing < num_errors st then Some st else load_lines junk extra left st)"
  unfolding load_lines_next [OF assms(2)] load_line_text [OF assms(1)]
  by (simp add: option.case_eq_if option.map_sel)

lemma load_lines_records:
  assumes "\<forall>r\<in>set rs. record_ok r" "record_ok r"
  shows "load_lines junk extra (records_text rs @ record_text r) st = replay_all junk (rs @ [r]) st"
  using assms(1)
proof (induction rs arbitrary: st)
  case Nil
  have "strtok_r newlines (record_text r) = (Some (record_text r), [])" "strtok_r newlines [] = (None, [])"
    using strtok_newlines_one_line [OF record_text_one_line [OF assms(2)]] by (simp_all add: strtok_r_def)
  then show ?case
    using load_lines_step [OF assms(2), of "record_text r" "[]"] load_lines_end [of "[]" "[]"]
    by (simp add: records_text_def split: option.split)
next
  case (Cons q rs)
  have "strtok_r newlines (records_text (q # rs) @ record_text r) = (Some (record_text q), records_text rs @ record_text r)"
    using strtok_r_next [of newlines "record_text q" "CHR 0x0A"] record_text_one_line Cons(2)
    by (simp add: records_text_def endl_def)
  from load_lines_step [OF _ this, of junk extra st] show ?case
    using Cons by (simp split: option.split)
qed

lemma nul_free_load_text:
  assumes "s \<noteq> []" "last s \<noteq> CHR 0x00"
  shows "load_text (s @ [c]) = s"
proof -
  have "load_text (s @ [c]) = rev (dropWhile (\<lambda>c. c = CHR 0x00) (rev s))"
    by (simp add: load_text_def)
  then show ?thesis
    using assms by (cases s rule: rev_cases) simp_all
qed

lemma map_underscore_id: "CHR 0x00 \<notin> set s \<Longrightarrow> map (\<lambda>c. if c = CHR 0x00 then CHR ''_'' else c) s = s"
  by (induction s) auto

lemma LoadMapFromMemory_records:
  assumes "\<forall>r\<in>set rs. record_ok r" "rs \<noteq> []" "CHR 0x00 \<notin> set (records_text rs)"
  shows "LoadMapFromMemory junk (records_text rs) = map_option finish_load (replay_all junk rs LoadState_new)"
proof -
  obtain qs r where rs: "rs = qs @ [r]"
    using assms(2) by (cases rs rule: rev_cases) auto
  let ?s = "records_text qs @ record_text r"
  have t: "records_text rs = ?s @ [CHR 0x0A]"
    by (simp add: rs records_text_def endl_def)
  have ne: "?s \<noteq> []"
    using record_text_one_line [of r] assms(1) rs by (auto simp: is_token_def)
  have nul: "CHR 0x00 \<notin> set ?s"
    using assms(3) t by simp
  have "last ?s \<noteq> CHR 0x00"
    using nul last_in_set [OF ne] by metis
  then have lt: "load_text (records_text rs) = ?s"
    unfolding t by (rule nul_free_load_text [OF ne])
  have l: "load_lines junk False ?s LoadState_new = replay_all junk rs LoadState_new"
    unfolding rs by (rule load_lines_records) (use assms(1) rs in simp_all)
  have "records_text rs \<noteq> []" "\<not> length ?s + 1 < length (records_text rs)"
    using t by simp_all
  then show ?thesis
    unfolding LoadMapFromMemory_def Let_def lt map_underscore_id [OF nul]
    by (simp only: nul if_False l)
qed

end
