(* ===== verification/Byte_Memory.thy ===== *)
theory Byte_Memory
  imports BP_Prelude
begin

text \<open>
  Memory as the program reads it through casts of raw pointers: a byte for every 64-bit address,
  multi-byte values little-endian as on the hosts this code is built for. \<open>holds\<close> says that a
  list of bytes lies at an address; pointer arithmetic is arithmetic on the 64-bit words.
\<close>

type_synonym memory = "u64 \<Rightarrow> u8"

fun le_bytes :: "nat \<Rightarrow> nat \<Rightarrow> u8 list" where
  "le_bytes 0 v = []"
| "le_bytes (Suc n) v = of_nat v # le_bytes n (v div 256)"

fun le_val :: "u8 list \<Rightarrow> nat" where
  "le_val [] = 0"
| "le_val (b # bs) = unat b + 256 * le_val bs"

definition be_val :: "u8 list \<Rightarrow> nat" where
  "be_val bs = le_val (rev bs)"

definition rd_bytes :: "memory \<Rightarrow> u64 \<Rightarrow> nat \<Rightarrow> u8 list" where
  "rd_bytes mem a n = map (\<lambda>i. mem (a + of_nat i)) [0..<n]"

definition rd_u64 :: "memory \<Rightarrow> u64 \<Rightarrow> u64" where
  "rd_u64 mem a = of_nat (le_val (rd_bytes mem a 8))"

definition wr_u64 :: "u64 \<Rightarrow> u8 list" where
  "wr_u64 w = le_bytes 8 (unat w)"

definition holds :: "memory \<Rightarrow> u64 \<Rightarrow> u8 list \<Rightarrow> bool" where
  "holds mem a bs \<longleftrightarrow> rd_bytes mem a (length bs) = bs"

lemma length_le_bytes [simp]: "length (le_bytes n v) = n"
  by (induction n arbitrary: v) auto

lemma length_rd_bytes [simp]: "length (rd_bytes mem a n) = n"
  by (simp add: rd_bytes_def)

lemma length_wr_u64 [simp]: "length (wr_u64 w) = 8"
  by (simp add: wr_u64_def)

lemma unat_of_nat_u8: "unat (of_nat v :: u8) = v mod 256"
  by (simp add: unat_of_nat)

lemma le_val_le_bytes [byte_simps]: "le_val (le_bytes n v) = v mod 256 ^ n"
proof (induction n arbitrary: v)
  case (Suc n)
  then show ?case
    by (simp add: unat_of_nat_u8 mod_mult2_eq)
qed simp

lemma le_bytes_0: "le_bytes n 0 = replicate n 0"
  by (induction n) simp_all

lemma le_bytes_add: "le_bytes (m + n) v = le_bytes m v @ le_bytes n (v div 256 ^ m)"
  by (induction m arbitrary: v) (simp_all add: div_mult2_eq)

lemma le_val_bound: "le_val bs < 256 ^ length bs"
proof (induction bs)
  case (Cons b bs)
  have "le_val (b # bs) < 256 + 256 * le_val bs"
    by simp
  also have "\<dots> = 256 * Suc (le_val bs)"
    by simp
  also have "\<dots> \<le> 256 * 256 ^ length bs"
    using Cons by (intro mult_le_mono2) simp
  finally show ?case by simp
qed simp

lemma le_bytes_le_val: "le_bytes (length bs) (le_val bs) = bs"
proof (induction bs)
  case (Cons b bs)
  have "unat b < 256"
    by simp
  then have "(unat b + 256 * le_val bs) div 256 = le_val bs"
    by simp
  moreover have "(of_nat (unat b + 256 * le_val bs) :: u8) = b"
    by (rule word_unat_eq_iff [THEN iffD2]) (simp add: unat_of_nat_u8 \<open>unat b < 256\<close> del: of_nat_add of_nat_mult)
  ultimately show ?case
    using Cons by simp
qed simp

lemma rd_bytes_add: "rd_bytes mem a (m + n) = rd_bytes mem a m @ rd_bytes mem (a + of_nat m) n"
proof (rule nth_equalityI)
  fix i assume i: "i < length (rd_bytes mem a (m + n))"
  show "rd_bytes mem a (m + n) ! i = (rd_bytes mem a m @ rd_bytes mem (a + of_nat m) n) ! i"
  proof (cases "i < m")
    case True
    then show ?thesis
      by (simp add: rd_bytes_def nth_append)
  next
    case False
    then have "(of_nat i :: u64) = of_nat m + of_nat (i - m)"
      by (metis le_add_diff_inverse linorder_not_less of_nat_add)
    then show ?thesis
      using False i by (simp add: rd_bytes_def nth_append add.assoc)
  qed
qed simp

lemma holds_Nil [simp]: "holds mem a []"
  by (simp add: holds_def rd_bytes_def)

lemma holds_append [byte_simps]:
  "holds mem a (xs @ ys) \<longleftrightarrow> holds mem a xs \<and> holds mem (a + of_nat (length xs)) ys"
  by (simp add: holds_def rd_bytes_add append_eq_append_conv)

lemma rd_u64_holds:
  assumes "holds mem a (wr_u64 w)"
  shows "rd_u64 mem a = w"
proof -
  have "unat w < 256 ^ 8"
    by simp
  then show ?thesis
    using assms by (simp add: rd_u64_def holds_def wr_u64_def le_val_le_bytes)
qed

lemma holds_concat_nth:
  assumes "holds mem a (concat (map f xs))" "i < length xs"
  shows "holds mem (a + of_nat (length (concat (map f (take i xs))))) (f (xs ! i))"
proof -
  have "concat (map f xs) = concat (map f (take i xs)) @ f (xs ! i) @ concat (map f (drop (Suc i) xs))"
    using assms(2) by (metis concat.simps(2) concat_append id_take_nth_drop list.simps(9) map_append)
  then show ?thesis
    using assms(1) by (simp add: byte_simps)
qed

lemma length_concat_const:
  assumes "\<And>x. x \<in> set xs \<Longrightarrow> length (f x) = n"
  shows "length (concat (map f xs)) = n * length xs"
  using assms by (induction xs) auto

lemma holds_array_nth:
  assumes "holds mem a (concat (map f xs))" "i < length xs" "\<And>x. length (f x) = n"
  shows "holds mem (a + of_nat (n * i)) (f (xs ! i))"
  using holds_concat_nth [OF assms(1,2)] assms(2,3)
  by (simp add: length_concat_const [where n = n] del: of_nat_mult)


section \<open>Writing\<close>

primrec store :: "memory \<Rightarrow> u64 \<Rightarrow> u8 list \<Rightarrow> memory" where
  "store mem a [] = mem"
| "store mem a (b # bs) = store (mem(a := b)) (a + 1) bs"

lemma store_append: "store mem a (xs @ ys) = store (store mem a xs) (a + of_nat (length xs)) ys"
  by (induction xs arbitrary: mem a) (auto simp: algebra_simps)

lemma unat_diff_less_iff:
  assumes "i + n \<le> 2 ^ 64"
  shows "unat ((x::u64) - of_nat i) < n \<longleftrightarrow> i \<le> unat x \<and> unat x < i + n"
    and "i \<le> unat x \<Longrightarrow> unat (x - of_nat i) = unat x - i"
proof -
  show *: "unat (x - of_nat i) = unat x - i" if "i \<le> unat x"
  proof -
    have "i < 2 ^ 64"
      by (rule order.strict_trans1 [OF that]) simp
    then have "unat (of_nat i :: u64) = i"
      by (simp add: unat_of_nat)
    then show ?thesis
      using that by (simp add: unat_diff_le word_le_nat_alt)
  qed
  show "unat (x - of_nat i) < n \<longleftrightarrow> i \<le> unat x \<and> unat x < i + n"
  proof (cases "i \<le> unat x")
    case True
    then show ?thesis
      using * by auto
  next
    case False
    show ?thesis
    proof (cases "n = 0")
      case n: False
      then have i: "unat (of_nat i :: u64) = i"
        using assms by (simp add: unat_of_nat)
      have "unat (x - of_nat i) = 2 ^ 64 + unat x - i"
        using False i by (simp add: unat_sub_if_size word_size)
      then show ?thesis
        using False assms by simp
    qed simp
  qed
qed

text \<open>The byte at an address after a write, for writes that do not go round the address space.\<close>

lemma store_at:
  assumes "length bs \<le> 2 ^ 64"
  shows "store mem a bs x = (if unat (x - a) < length bs then bs ! unat (x - a) else mem x)"
  using assms
proof (induction bs arbitrary: mem a)
  case (Cons b bs)
  have d: "unat (x - (a + 1)) = unat (x - a) - 1" if "x \<noteq> a"
    using that unat_minus_one [of "x - a"] by (simp add: algebra_simps)
  have pos: "0 < unat (x - a)" if "x \<noteq> a"
    using that by (simp add: unat_gt_0)
  show ?case
  proof (cases "x = a")
    case True
    have "unat (x - (a + 1)) = 2 ^ 64 - 1"
      using True by (simp add: unsigned_minus_1_eq_mask mask_eq_exp_minus_1)
    then have "\<not> unat (x - (a + 1)) < length bs"
      using Cons.prems by simp
    then show ?thesis
      using True Cons by simp
  next
    case False
    have "unat (x - (a + 1)) < length bs \<longleftrightarrow> unat (x - a) < Suc (length bs)"
      using d [OF False] pos [OF False] by arith
    then show ?thesis
      using False Cons pos [OF False] by (simp add: d nth_Cons')
  qed
qed simp

lemma store_at_offset:
  assumes "i + length bs \<le> 2 ^ 64"
  shows "store mem (a + of_nat i) bs x =
    (if i \<le> unat (x - a) \<and> unat (x - a) < i + length bs then bs ! (unat (x - a) - i) else mem x)"
proof -
  have "x - (a + of_nat i) = (x - a) - of_nat i"
    by simp
  then show ?thesis
    using unat_diff_less_iff [OF assms, of "x - a"] assms
    by (subst store_at) (auto simp del: of_nat_add diff_diff_add simp flip: diff_diff_add)
qed

lemma store_commute:
  assumes "i + length xs \<le> j" "j + length ys \<le> 2 ^ 64"
  shows "store (store mem (a + of_nat i) xs) (a + of_nat j) ys =
    store (store mem (a + of_nat j) ys) (a + of_nat i) xs"
proof -
  have "i + length xs \<le> 2 ^ 64"
    using assms by linarith
  then show ?thesis
    using assms by (auto simp: fun_eq_iff store_at_offset)
qed

lemma holds_store:
  assumes "length bs \<le> 2 ^ 64"
  shows "holds (store mem a bs) a bs"
  unfolding holds_def
proof (rule nth_equalityI)
  fix i assume "i < length (rd_bytes (store mem a bs) a (length bs))"
  then have "i < length bs" by simp
  moreover have "unat (of_nat i :: u64) = i"
    using assms \<open>i < length bs\<close> by (simp add: unat_of_nat)
  ultimately show "rd_bytes (store mem a bs) a (length bs) ! i = bs ! i"
    by (simp add: rd_bytes_def store_at [OF assms])
qed simp

section \<open>Other widths, and strings\<close>

definition rd_u32 :: "memory \<Rightarrow> u64 \<Rightarrow> u32" where
  "rd_u32 mem a = of_nat (le_val (rd_bytes mem a 4))"

definition wr_u32 :: "u32 \<Rightarrow> u8 list" where
  "wr_u32 w = le_bytes 4 (unat w)"

lemma length_wr_u32 [simp]: "length (wr_u32 w) = 4"
  by (simp add: wr_u32_def)

lemma rd_u32_holds:
  assumes "holds mem a (wr_u32 w)"
  shows "rd_u32 mem a = w"
proof -
  have "unat w < 256 ^ 4"
    using unsigned_less [of w] by simp
  then show ?thesis
    using assms by (simp add: rd_u32_def holds_def wr_u32_def le_val_le_bytes)
qed

text \<open>\<open>int32_t\<close> values are integers, written in two's complement.\<close>

definition is_s32 :: "int \<Rightarrow> bool" where
  "is_s32 k \<longleftrightarrow> - (2 ^ 31) \<le> k \<and> k < 2 ^ 31"

definition rd_s32 :: "memory \<Rightarrow> u64 \<Rightarrow> int" where
  "rd_s32 mem a = sint (rd_u32 mem a)"

definition wr_s32 :: "int \<Rightarrow> u8 list" where
  "wr_s32 k = wr_u32 (of_int k)"

lemma length_wr_s32 [simp]: "length (wr_s32 k) = 4"
  by (simp add: wr_s32_def)

lemma rd_s32_holds:
  assumes "holds mem a (wr_s32 k)" "is_s32 k"
  shows "rd_s32 mem a = k"
  using rd_u32_holds [of mem a "of_int k"] assms
  by (simp add: rd_s32_def wr_s32_def is_s32_def signed_of_int signed_take_bit_int_eq_self)

definition bytes_of :: "string \<Rightarrow> u8 list" where
  "bytes_of s = map (\<lambda>c. of_nat (of_char c)) s"

definition string_of :: "u8 list \<Rightarrow> string" where
  "string_of bs = map (\<lambda>b. char_of (unat b)) bs"

lemma string_of_bytes_of [simp]: "string_of (bytes_of s) = s"
proof -
  have "unat (of_nat (of_char c) :: u8) = of_char c" for c
    by (simp add: unat_of_nat of_char_mod_256 [where 'a = nat])
  then show ?thesis
    by (simp add: string_of_def bytes_of_def comp_def)
qed

lemma length_bytes_of [simp]: "length (bytes_of s) = length s"
  by (simp add: bytes_of_def)

text \<open>\<open>strlen\<close> on a memory; the search for the terminator may not end.\<close>

partial_function (option) strlen :: "memory \<Rightarrow> u64 \<Rightarrow> nat option" where
  "strlen mem a = (if mem a = 0 then Some 0 else Option.bind (strlen mem (a + 1)) (\<lambda>n. Some (Suc n)))"

definition rd_cstring :: "memory \<Rightarrow> u64 \<Rightarrow> string option" where
  "rd_cstring mem a = map_option (\<lambda>n. string_of (rd_bytes mem a n)) (strlen mem a)"

lemma holds_Cons: "holds mem a (b # bs) \<longleftrightarrow> mem a = b \<and> holds mem (a + 1) bs"
  using holds_append [of mem a "[b]" bs] by (simp add: holds_def [of _ _ "[b]"] rd_bytes_def)

lemma strlen_holds:
  assumes "holds mem a (bs @ [0])" "0 \<notin> set bs"
  shows "strlen mem a = Some (length bs)"
  using assms
proof (induction bs arbitrary: a)
  case Nil
  then show ?case
    by (subst strlen.simps) (simp add: holds_Cons)
next
  case (Cons b bs)
  then show ?case
    by (subst strlen.simps) (auto simp: holds_Cons)
qed

lemma rd_cstring_holds:
  assumes "holds mem a (bytes_of s @ [0])" "CHR 0x00 \<notin> set s"
  shows "strlen mem a = Some (length s)" and "rd_cstring mem a = Some s"
proof -
  have "of_nat (of_char c) \<noteq> (0::u8)" if "c \<in> set s" for c
  proof
    assume "of_nat (of_char c) = (0::u8)"
    then have "string_of (bytes_of [c]) = [char_of (0::nat)]"
      by (simp add: string_of_def bytes_of_def)
    then show False
      using that assms(2) by (simp add: char_of_def)
  qed
  then have n: "0 \<notin> set (bytes_of s)"
    by (force simp: bytes_of_def)
  show l: "strlen mem a = Some (length s)"
    using strlen_holds [OF assms(1) n] by simp
  have "rd_bytes mem a (length s) = bytes_of s"
    using assms(1) holds_append [of mem a "bytes_of s" "[0]"] by (simp add: holds_def)
  then show "rd_cstring mem a = Some s"
    by (simp add: rd_cstring_def l)
qed

section \<open>Regions\<close>

text \<open>
  A stretch of memory that is not at the null address, that ends, with the address behind its last
  byte, before the addresses go round, and whose size is not negative as an \<open>int64_t\<close>.
\<close>

definition region :: "u64 \<Rightarrow> nat \<Rightarrow> bool" where
  "region a n \<longleftrightarrow> a \<noteq> 0 \<and> unat a + n < 2 ^ 64 \<and> n < 2 ^ 63"

lemma region_sub:
  assumes "region a m" "i + n \<le> m"
  shows "region (a + of_nat i) n"
proof -
  have "unat (of_nat i :: u64) = i" "unat a + i < 2 ^ 64" "0 < unat a"
    using assms by (auto simp: region_def unat_of_nat unat_gt_0)
  moreover from this have "unat (a + of_nat i) = unat a + i"
    by (simp add: unat_add_lem [THEN iffD1])
  ultimately show ?thesis
    using assms by (auto simp: region_def simp flip: unat_gt_0)
qed

lemma region_nonnull [simp]: "region a n \<Longrightarrow> a \<noteq> 0"
  by (simp add: region_def)

lemma region_0 [simp]: "\<not> region 0 n"
  by (simp add: region_def)

text \<open>Bytes that lie in such a stretch.\<close>

definition lives :: "memory \<Rightarrow> u64 \<Rightarrow> u8 list \<Rightarrow> bool" where
  "lives mem a bs \<longleftrightarrow> region a (length bs) \<and> holds mem a bs"

lemma livesD: "lives mem a bs \<Longrightarrow> holds mem a bs" "lives mem a bs \<Longrightarrow> region a (length bs)"
  by (simp_all add: lives_def)

lemma lives_sub:
  assumes "region a m" "i + length bs \<le> m" "holds mem (a + of_nat i) bs"
  shows "lives mem (a + of_nat i) bs"
  using region_sub [OF assms(1,2)] assms(3) by (simp add: lives_def)

lemma lives_append:
  assumes "lives mem a (xs @ ys)"
  shows "lives mem a xs" "lives mem (a + of_nat (length xs)) ys"
proof -
  have r: "region a (length (xs @ ys))" and h: "holds mem a xs" "holds mem (a + of_nat (length xs)) ys"
    using assms by (simp_all add: lives_def byte_simps)
  show "lives mem a xs"
    using lives_sub [OF r, of 0 xs mem] h by simp
  show "lives mem (a + of_nat (length xs)) ys"
    by (rule lives_sub [OF r]) (simp_all add: h)
qed

end
