(* ===== verification/Static_Map.thy ===== *)
theory Static_Map
  imports Byte_Memory Ordered_Map
begin

text \<open>
  processor/static_map.h, static_map-inl.h and static_map_iterator-inl.h: a read-only map that
  lives in serialized bytes (a node count, an array of value offsets, an array of sorted keys,
  then the values) and is searched by bisection. The key type is a template parameter of the code
  and an argument here: its size, and how a key is written and read; the resolver uses 64-bit
  addresses and 32-bit ids. Node counts and indices are the \<open>int64_t\<close> of the code, read as integers.
\<close>

section \<open>Key types\<close>

record 'k keytype =
  ksize :: nat
  kwrite :: "'k \<Rightarrow> u8 list"
  kread :: "memory \<Rightarrow> u64 \<Rightarrow> 'k"
  kvalid :: "'k \<Rightarrow> bool"

locale key_type =
  fixes K :: "'k::{linorder,zero} keytype"
  assumes length_kwrite [simp]: "length (kwrite K k) = ksize K"
    and kread_holds: "holds mem a (kwrite K k) \<Longrightarrow> kvalid K k \<Longrightarrow> kread K mem a = k"

definition key_u64 :: "u64 keytype" where
  "key_u64 = \<lparr>ksize = 8, kwrite = wr_u64, kread = rd_u64, kvalid = (\<lambda>k. True)\<rparr>"

lemma key_u64_simps [simp]:
  "ksize key_u64 = 8" "kwrite key_u64 = wr_u64" "kread key_u64 = rd_u64" "kvalid key_u64 k"
  by (simp_all add: key_u64_def)

definition key_s32 :: "int keytype" where
  "key_s32 = \<lparr>ksize = 4, kwrite = wr_s32, kread = rd_s32, kvalid = is_s32\<rparr>"

lemma key_s32_simps [simp]:
  "ksize key_s32 = 4" "kwrite key_s32 = wr_s32" "kread key_s32 = rd_s32" "kvalid key_s32 = is_s32"
  by (simp_all add: key_s32_def)

section \<open>State\<close>

record StaticMap =
  raw_data :: u64
  num_nodes :: int

definition offsets_addr :: "u64 \<Rightarrow> u64" where
  "offsets_addr raw = raw + 8"

definition keys_addr :: "u64 \<Rightarrow> int \<Rightarrow> u64" where
  "keys_addr raw n = raw + of_int ((1 + n) * 8)"

definition StaticMap_at :: "memory \<Rightarrow> u64 \<Rightarrow> StaticMap" where
  "StaticMap_at mem raw = \<lparr>raw_data = raw, num_nodes = sint (rd_u64 mem raw)\<rparr>"

definition rd_index :: "memory \<Rightarrow> u64 \<Rightarrow> int \<Rightarrow> u64" where
  "rd_index mem arr i = rd_u64 mem (arr + of_int (8 * i))"

definition GetKeyAtIndex :: "'k::{linorder,zero} keytype \<Rightarrow> memory \<Rightarrow> StaticMap \<Rightarrow> int \<Rightarrow> 'k" where
  "GetKeyAtIndex K mem m index =
     (if index < 0 \<or> num_nodes m \<le> index then 0
      else kread K mem (keys_addr (raw_data m) (num_nodes m) + of_int (int (ksize K) * index)))"

text \<open>\<open>DefaultCompare\<close>: the sign says how the first key compares with the second.\<close>

definition DefaultCompare :: "'k::linorder \<Rightarrow> 'k \<Rightarrow> int" where
  "DefaultCompare k1 k2 = (if k1 < k2 then -1 else if k1 = k2 then 0 else 1)"

section \<open>Iterators\<close>

record StaticMapIterator =
  it_base :: u64
  it_index :: int
  it_num_nodes :: int

definition StaticMapIterator_new :: "memory \<Rightarrow> u64 \<Rightarrow> int \<Rightarrow> StaticMapIterator" where
  "StaticMapIterator_new mem base index =
     \<lparr>it_base = base, it_index = index, it_num_nodes = sint (rd_u64 mem base)\<rparr>"

definition it_IsValid :: "StaticMapIterator \<Rightarrow> bool" where
  "it_IsValid it \<longleftrightarrow> \<not> (it_base it = 0 \<or> it_index it < 0 \<or> it_num_nodes it < it_index it)"

definition it_inc :: "StaticMapIterator \<Rightarrow> StaticMapIterator" where
  "it_inc it = (if \<not> it_IsValid it then it
     else let i = it_index it + 1 in
       it\<lparr>it_index := (if it_num_nodes it < i then it_num_nodes it else i)\<rparr>)"

text \<open>The postfix form returns the iterator before the change, next to the changed one.\<close>

definition it_inc_post :: "StaticMapIterator \<Rightarrow> StaticMapIterator \<times> StaticMapIterator" where
  "it_inc_post it = (it, it_inc it)"

definition it_dec :: "StaticMapIterator \<Rightarrow> StaticMapIterator" where
  "it_dec it = (if \<not> it_IsValid it then it
     else let i = it_index it - 1 in it\<lparr>it_index := (if i < 0 then 0 else i)\<rparr>)"

definition it_dec_post :: "StaticMapIterator \<Rightarrow> StaticMapIterator \<times> StaticMapIterator" where
  "it_dec_post it = (it, it_dec it)"

text \<open>The pointers are addresses, 0 for \<open>NULL\<close>.\<close>

definition GetKeyPtr :: "'k keytype \<Rightarrow> StaticMapIterator \<Rightarrow> u64" where
  "GetKeyPtr K it = (if \<not> it_IsValid it then 0
     else keys_addr (it_base it) (it_num_nodes it) + of_int (int (ksize K) * it_index it))"

definition GetValueRawPtr :: "memory \<Rightarrow> StaticMapIterator \<Rightarrow> u64" where
  "GetValueRawPtr mem it = (if \<not> it_IsValid it then 0
     else it_base it + rd_index mem (offsets_addr (it_base it)) (it_index it))"

definition it_GetKey :: "'k keytype \<Rightarrow> memory \<Rightarrow> StaticMapIterator \<Rightarrow> 'k" where
  "it_GetKey K mem it = kread K mem (GetKeyPtr K it)"

definition it_eq :: "StaticMapIterator \<Rightarrow> StaticMapIterator \<Rightarrow> bool" where
  "it_eq x y \<longleftrightarrow> it_base x = it_base y \<and> it_index x = it_index y"

definition it_neq :: "StaticMapIterator \<Rightarrow> StaticMapIterator \<Rightarrow> bool" where
  "it_neq x y \<longleftrightarrow> it_base x \<noteq> it_base y \<or> it_index x \<noteq> it_index y"

definition IteratorAtIndex :: "memory \<Rightarrow> StaticMap \<Rightarrow> int \<Rightarrow> StaticMapIterator" where
  "IteratorAtIndex mem m index = StaticMapIterator_new mem (raw_data m) index"

definition sm_begin :: "memory \<Rightarrow> StaticMap \<Rightarrow> StaticMapIterator" where
  "sm_begin mem m = IteratorAtIndex mem m 0"

definition sm_end :: "memory \<Rightarrow> StaticMap \<Rightarrow> StaticMapIterator" where
  "sm_end mem m = IteratorAtIndex mem m (num_nodes m)"

section \<open>Searches\<close>

text \<open>
  The three searches are the same loop and differ in the index they return when they meet an equal
  key and when they do not.
\<close>

function bisect :: "'k::{linorder,zero} keytype \<Rightarrow> memory \<Rightarrow> StaticMap \<Rightarrow> 'k \<Rightarrow> (int \<Rightarrow> int) \<Rightarrow> (int \<Rightarrow> int) \<Rightarrow> int \<Rightarrow> int \<Rightarrow> int" where
  "bisect K mem m key hit miss b e =
     (if b < e then
        (let middle = b + (e - b) div 2;
             compare_result = DefaultCompare key (GetKeyAtIndex K mem m middle) in
         if compare_result = 0 then hit middle
         else if compare_result < 0 then bisect K mem m key hit miss b middle
         else bisect K mem m key hit miss (middle + 1) e)
      else miss b)"
  by pat_completeness auto
termination
  by (relation "measure (\<lambda>(K, mem, m, key, hit, miss, b, e). nat (e - b))") auto

declare bisect.simps [simp del]

definition sm_find :: "'k::{linorder,zero} keytype \<Rightarrow> memory \<Rightarrow> StaticMap \<Rightarrow> 'k \<Rightarrow> StaticMapIterator" where
  "sm_find K mem m key = IteratorAtIndex mem m
     (bisect K mem m key (\<lambda>middle. middle) (\<lambda>b. num_nodes m) 0 (num_nodes m))"

definition sm_lower_bound :: "'k::{linorder,zero} keytype \<Rightarrow> memory \<Rightarrow> StaticMap \<Rightarrow> 'k \<Rightarrow> StaticMapIterator" where
  "sm_lower_bound K mem m key = IteratorAtIndex mem m
     (bisect K mem m key (\<lambda>middle. middle) (\<lambda>b. b) 0 (num_nodes m))"

definition sm_upper_bound :: "'k::{linorder,zero} keytype \<Rightarrow> memory \<Rightarrow> StaticMap \<Rightarrow> 'k \<Rightarrow> StaticMapIterator" where
  "sm_upper_bound K mem m key = IteratorAtIndex mem m
     (bisect K mem m key (\<lambda>middle. middle + 1) (\<lambda>b. b) 0 (num_nodes m))"

definition ValidateInMemoryStructure :: "'k::{linorder,zero} keytype \<Rightarrow> memory \<Rightarrow> StaticMap \<Rightarrow> bool" where
  "ValidateInMemoryStructure K mem m =
     (if raw_data m = 0 then False
      else if sint (rd_u64 mem (raw_data m)) < 0 then False
      else
        let n = num_nodes m; offs = offsets_addr (raw_data m);
            first_offset = (of_int (8 * (n + 1)) + of_int (int (ksize K) * n) :: u64) in
        if n \<noteq> 0 \<and> 0xffffffff < first_offset then False
        else if n \<noteq> 0 \<and> rd_index mem offs 0 \<noteq> first_offset then False
        else list_all (\<lambda>i. \<not> rd_index mem offs i \<le> rd_index mem offs (i - 1) \<and>
               \<not> DefaultCompare (GetKeyAtIndex K mem m i) (GetKeyAtIndex K mem m (i - 1)) \<le> 0)
             [1..n - 1])"

section \<open>The map a memory represents\<close>

text \<open>
  A serialized map as its bytes: the count, the offsets of the values from the start, the keys and
  the values. \<open>static_holds\<close> says that a memory holds such bytes for the given keys and values.
\<close>

fun value_offsets :: "nat \<Rightarrow> u8 list list \<Rightarrow> nat list" where
  "value_offsets d [] = []"
| "value_offsets d (v # vs) = d # value_offsets (d + length v) vs"

definition header_bytes :: "'k keytype \<Rightarrow> nat \<Rightarrow> nat" where
  "header_bytes K n = (1 + n) * 8 + ksize K * n"

definition map_bytes :: "'k keytype \<Rightarrow> ('k \<times> u8 list) list \<Rightarrow> u8 list" where
  "map_bytes K kvs = wr_u64 (of_nat (length kvs)) @
     concat (map (\<lambda>d. wr_u64 (of_nat d)) (value_offsets (header_bytes K (length kvs)) (map snd kvs))) @
     concat (map (\<lambda>kv. kwrite K (fst kv)) kvs) @
     concat (map snd kvs)"

definition static_holds :: "'k::{linorder,zero} keytype \<Rightarrow> memory \<Rightarrow> u64 \<Rightarrow> ('k \<times> u8 list) list \<Rightarrow> bool" where
  "static_holds K mem raw kvs \<longleftrightarrow> region raw (length (map_bytes K kvs)) \<and> om_sorted kvs \<and> (\<forall>kv\<in>set kvs. kvalid K (fst kv)) \<and>
     length (map_bytes K kvs) < 2 ^ 63 \<and>
     holds mem raw (map_bytes K kvs)"

lemma length_value_offsets [simp]: "length (value_offsets d vs) = length vs"
  by (induction vs arbitrary: d) auto

lemma value_offsets_nth:
  "i < length vs \<Longrightarrow> value_offsets d vs ! i = d + length (concat (take i vs))"
  by (induction vs arbitrary: d i) (auto simp: nth_Cons split: nat.splits)

lemma int_chain_less:
  fixes f :: "int \<Rightarrow> 'a::order"
  assumes "\<And>i. a < i \<Longrightarrow> i < n \<Longrightarrow> f (i - 1) < f i" "a \<le> i" "i < j" "j < n"
  shows "f i < f j"
  using assms(3,4)
proof (induction j rule: int_gr_induct)
  case base
  then show ?case
    using assms(1) [of "i + 1"] assms(2) by simp
next
  case (step j)
  then show ?case
    using assms(1) [of "j + 1"] assms(2) by force
qed

context key_type
begin

lemma length_map_bytes: "length (map_bytes K kvs) = header_bytes K (length kvs) + length (concat (map snd kvs))"
proof -
  have "length (concat (map (\<lambda>d. wr_u64 (of_nat d)) xs)) = 8 * length xs" for xs :: "nat list"
    by (rule length_concat_const) simp
  moreover have "length (concat (map (\<lambda>kv. kwrite K (fst kv)) kvs)) = ksize K * length kvs"
    by (rule length_concat_const) simp
  ultimately show ?thesis
    by (simp add: map_bytes_def header_bytes_def)
qed

lemma static_holds_num_nodes:
  assumes "static_holds K mem raw kvs"
  shows "num_nodes (StaticMap_at mem raw) = int (length kvs)"
proof -
  have b: "length kvs < 2 ^ 63"
    using assms by (simp add: static_holds_def length_map_bytes header_bytes_def)
  have "rd_u64 mem raw = of_nat (length kvs)"
    using assms by (intro rd_u64_holds) (simp add: static_holds_def map_bytes_def byte_simps)
  moreover have "sint (of_nat (length kvs) :: u64) = int (length kvs)"
    using b by (simp add: signed_of_nat signed_take_bit_int_eq_self)
  ultimately show ?thesis
    by (simp add: StaticMap_at_def)
qed

section \<open>Reading a serialized map\<close>

lemma concat_map_snd_take:
  "concat (take i (map snd kvs)) = concat (map snd (take i kvs))"
  by (simp add: take_map)

lemma rd_index_holds:
  assumes "holds mem a (concat (map (\<lambda>x. wr_u64 (f x)) xs))" "0 \<le> i" "i < int (length xs)"
  shows "rd_index mem a i = f (xs ! nat i)"
proof -
  have "holds mem (a + of_nat (8 * nat i)) (wr_u64 (f (xs ! nat i)))"
    by (rule holds_array_nth [OF assms(1)]) (use assms(2,3) in auto)
  moreover have "of_nat (8 * nat i) = (of_int (8 * i) :: u64)"
    using assms(2) by simp
  ultimately show ?thesis
    by (simp only: rd_index_def rd_u64_holds)
qed

lemma static_holds_parts:
  assumes "static_holds K mem raw kvs"
  shows "holds mem (offsets_addr raw) (concat (map (\<lambda>d. wr_u64 (of_nat d))
      (value_offsets (header_bytes K (length kvs)) (map snd kvs))))"
    and "holds mem (keys_addr raw (int (length kvs))) (concat (map (\<lambda>kv. kwrite K (fst kv)) kvs))"
    and "holds mem (raw + of_nat (header_bytes K (length kvs))) (concat (map snd kvs))"
proof -
  have len: "length (concat (map (\<lambda>d. wr_u64 (of_nat d)) xs)) = 8 * length xs" for xs :: "nat list"
    by (rule length_concat_const) simp
  have len': "length (concat (map (\<lambda>kv. kwrite K (fst kv)) kvs)) = ksize K * length kvs"
    by (rule length_concat_const) simp
  have a: "raw + 8 + of_nat (8 * length kvs) = keys_addr raw (int (length kvs))"
    "keys_addr raw (int (length kvs)) + of_nat (ksize K * length kvs) = raw + of_nat (header_bytes K (length kvs))"
    by (simp_all add: keys_addr_def header_bytes_def algebra_simps)
  have h: "holds mem raw (map_bytes K kvs)"
    using assms by (simp add: static_holds_def)
  show "holds mem (offsets_addr raw) (concat (map (\<lambda>d. wr_u64 (of_nat d))
      (value_offsets (header_bytes K (length kvs)) (map snd kvs))))"
    "holds mem (keys_addr raw (int (length kvs))) (concat (map (\<lambda>kv. kwrite K (fst kv)) kvs))"
    "holds mem (raw + of_nat (header_bytes K (length kvs))) (concat (map snd kvs))"
    using h unfolding map_bytes_def holds_append len len' length_wr_u64 length_value_offsets length_map
    by (simp_all only: a offsets_addr_def of_nat_numeral)
qed

lemma static_holds_offset:
  assumes "static_holds K mem raw kvs" "0 \<le> i" "i < int (length kvs)"
  shows "rd_index mem (offsets_addr raw) i =
    of_nat (header_bytes K (length kvs) + length (concat (map snd (take (nat i) kvs))))"
  using rd_index_holds [OF static_holds_parts(1) [OF assms(1)] assms(2)] assms(2,3)
  by (simp add: value_offsets_nth concat_map_snd_take)

lemma kread_index_holds:
  assumes "static_holds K mem raw kvs" "0 \<le> i" "i < int (length kvs)"
  shows "kread K mem (keys_addr raw (int (length kvs)) + of_int (int (ksize K) * i)) = fst (kvs ! nat i)"
proof (rule kread_holds)
  have n: "nat i < length kvs"
    using assms(2,3) by linarith
  have "of_int (int (ksize K) * i) = (of_nat (ksize K * nat i) :: u64)"
    using assms(2) by simp
  then show "holds mem (keys_addr raw (int (length kvs)) + of_int (int (ksize K) * i)) (kwrite K (fst (kvs ! nat i)))"
    using holds_array_nth [OF static_holds_parts(2) [OF assms(1)] n, of "ksize K"] by simp
  show "kvalid K (fst (kvs ! nat i))"
    using assms(1) nth_mem [OF n] by (simp add: static_holds_def)
qed

lemma static_holds_key:
  assumes "static_holds K mem raw kvs" "0 \<le> i" "i < int (length kvs)"
  shows "GetKeyAtIndex K mem (StaticMap_at mem raw) i = fst (kvs ! nat i)"
  using kread_index_holds [OF assms] assms(2,3)
  by (simp add: GetKeyAtIndex_def static_holds_num_nodes [OF assms(1)]) (simp add: StaticMap_at_def)

lemma IteratorAtIndex_simps:
  assumes "static_holds K mem raw kvs"
  shows "it_base (IteratorAtIndex mem (StaticMap_at mem raw) i) = raw"
    and "it_index (IteratorAtIndex mem (StaticMap_at mem raw) i) = i"
    and "it_num_nodes (IteratorAtIndex mem (StaticMap_at mem raw) i) = int (length kvs)"
    and "it_IsValid (IteratorAtIndex mem (StaticMap_at mem raw) i) \<longleftrightarrow> 0 \<le> i \<and> i \<le> int (length kvs)"
  using static_holds_num_nodes [OF assms] assms
  by (auto simp: IteratorAtIndex_def StaticMapIterator_new_def StaticMap_at_def it_IsValid_def static_holds_def)

lemma static_holds_GetKey:
  assumes "static_holds K mem raw kvs" "0 \<le> i" "i < int (length kvs)"
  shows "it_GetKey K mem (IteratorAtIndex mem (StaticMap_at mem raw) i) = fst (kvs ! nat i)"
  using kread_index_holds [OF assms] assms(2,3)
  by (simp add: it_GetKey_def GetKeyPtr_def IteratorAtIndex_simps [OF assms(1)])

lemma static_holds_value:
  assumes "static_holds K mem raw kvs" "0 \<le> i" "i < int (length kvs)"
  shows "holds mem (GetValueRawPtr mem (IteratorAtIndex mem (StaticMap_at mem raw) i)) (snd (kvs ! nat i))"
  using holds_concat_nth [OF static_holds_parts(3) [OF assms(1)], of "nat i"] assms(2,3)
  by (simp add: GetValueRawPtr_def IteratorAtIndex_simps [OF assms(1)] static_holds_offset [OF assms] add.assoc)

lemma static_value_addr:
  assumes "static_holds K mem raw kvs" "i < length kvs"
  shows "\<exists>d. GetValueRawPtr mem (IteratorAtIndex mem (StaticMap_at mem raw) (int i)) = raw + of_nat d \<and>
    d + length (snd (kvs ! i)) \<le> length (map_bytes K kvs)"
proof (intro exI conjI)
  let ?d = "header_bytes K (length kvs) + length (concat (map snd (take i kvs)))"
  show "GetValueRawPtr mem (IteratorAtIndex mem (StaticMap_at mem raw) (int i)) = raw + of_nat ?d"
    using assms(2) static_holds_offset [OF assms(1), of "int i"]
    by (simp add: GetValueRawPtr_def IteratorAtIndex_simps [OF assms(1)])
  have "length (concat (map snd kvs)) =
      length (concat (map snd (take i kvs))) + length (snd (kvs ! i)) + length (concat (map snd (drop (Suc i) kvs)))"
    by (subst id_take_nth_drop [OF assms(2)]) simp
  then show "?d + length (snd (kvs ! i)) \<le> length (map_bytes K kvs)"
    by (simp add: length_map_bytes)
qed

lemma static_holds_lives:
  assumes "static_holds K mem raw kvs" "0 \<le> i" "i < int (length kvs)"
  shows "lives mem (GetValueRawPtr mem (IteratorAtIndex mem (StaticMap_at mem raw) i)) (snd (kvs ! nat i))"
proof -
  obtain d where d: "GetValueRawPtr mem (IteratorAtIndex mem (StaticMap_at mem raw) (int (nat i))) = raw + of_nat d"
      "d + length (snd (kvs ! nat i)) \<le> length (map_bytes K kvs)"
    using static_value_addr [OF assms(1), of "nat i"] assms(2,3) by (meson nat_less_iff)
  have "region raw (length (map_bytes K kvs))"
    using assms(1) by (simp add: static_holds_def)
  from lives_sub [OF this d(2)] show ?thesis
    using static_holds_value [OF assms] assms(2) d(1) by simp
qed

section \<open>Bisection\<close>

lemma DefaultCompare_sign [simp]:
  "DefaultCompare k1 k2 = 0 \<longleftrightarrow> k1 = k2" "DefaultCompare k1 k2 < 0 \<longleftrightarrow> k1 < k2"
  by (auto simp: DefaultCompare_def)


lemma bisect_eq:
  assumes h: "static_holds K mem raw kvs"
  shows "0 \<le> b \<Longrightarrow> b \<le> int (om_lower_bound kvs key) \<Longrightarrow> int (om_lower_bound kvs key) \<le> e \<Longrightarrow>
    e \<le> int (length kvs) \<Longrightarrow> e < int (length kvs) \<longrightarrow> key < fst (kvs ! nat e) \<Longrightarrow>
    bisect K mem (StaticMap_at mem raw) key hit miss b e =
    (if om_lower_bound kvs key < length kvs \<and> fst (kvs ! om_lower_bound kvs key) = key
     then hit (int (om_lower_bound kvs key)) else miss (int (om_lower_bound kvs key)))"
proof (induction "nat (e - b)" arbitrary: b e rule: less_induct)
  case (less b e)
  have s: "om_sorted kvs"
    using h by (simp add: static_holds_def)
  let ?l = "om_lower_bound kvs key"
  show ?case
  proof (cases "b < e")
    case False
    then have "b = int ?l" "e = int ?l"
      using less.prems by auto
    then show ?thesis
      using False less.prems(5) by (subst bisect.simps) auto
  next
    case True
    define mid where "mid = b + (e - b) div 2"
    have m: "b \<le> mid" "mid < e" "0 \<le> mid" "mid < int (length kvs)" and n: "nat mid < length kvs"
      using True less.prems(1,4) by (auto simp: mid_def)
    have key: "GetKeyAtIndex K mem (StaticMap_at mem raw) mid = fst (kvs ! nat mid)"
      by (rule static_holds_key [OF h m(3,4)])
    have unfold: "bisect K mem (StaticMap_at mem raw) key hit miss b e =
        (if key = fst (kvs ! nat mid) then hit mid
         else if key < fst (kvs ! nat mid) then bisect K mem (StaticMap_at mem raw) key hit miss b mid
         else bisect K mem (StaticMap_at mem raw) key hit miss (mid + 1) e)"
      using True by (subst bisect.simps) (simp add: mid_def [symmetric] key Let_def)
    have above: "?l \<le> nat mid" if "key \<le> fst (kvs ! nat mid)"
      using om_lower_bound_before [of "nat mid" kvs key] that by (meson leD not_le)
    have below: "nat mid < ?l" if "fst (kvs ! nat mid) < key"
      using om_lower_bound_after [OF s _ n, of key] that by (meson leD not_le)
    consider "key = fst (kvs ! nat mid)" | "key < fst (kvs ! nat mid)" | "fst (kvs ! nat mid) < key"
      by (rule linorder_cases)
    then show ?thesis
    proof cases
      case 1
      have "nat mid \<le> ?l"
      proof (rule ccontr)
        assume "\<not> ?thesis"
        then have "?l < nat mid" by simp
        then show False
          using om_sorted_nth_mono [OF s _ n] om_lower_bound_at [of kvs key] 1 n by fastforce
      qed
      then have "?l = nat mid"
        using above 1 by simp
      then show ?thesis
        using 1 n m(3) unfold by simp
    next
      case 2
      have "bisect K mem (StaticMap_at mem raw) key hit miss b mid = (if ?l < length kvs \<and> fst (kvs ! ?l) = key
          then hit (int ?l) else miss (int ?l))"
        by (rule less.hyps) (use m less.prems above [OF less_imp_le [OF 2]] 2 in auto)
      then show ?thesis
        using unfold 2 by (metis less_irrefl)
    next
      case 3
      have "bisect K mem (StaticMap_at mem raw) key hit miss (mid + 1) e = (if ?l < length kvs \<and> fst (kvs ! ?l) = key
          then hit (int ?l) else miss (int ?l))"
        by (rule less.hyps) (use m less.prems below 3 in auto)
      then show ?thesis
        using unfold 3 by (metis less_irrefl less_not_sym)
    qed
  qed
qed

lemma static_lookups:
  assumes h: "static_holds K mem raw kvs"
  shows "sm_lower_bound K mem (StaticMap_at mem raw) key =
      IteratorAtIndex mem (StaticMap_at mem raw) (int (om_lower_bound kvs key))"
    and "sm_upper_bound K mem (StaticMap_at mem raw) key =
      IteratorAtIndex mem (StaticMap_at mem raw) (int (om_upper_bound kvs key))"
    and "sm_find K mem (StaticMap_at mem raw) key =
      IteratorAtIndex mem (StaticMap_at mem raw) (int (om_find kvs key))"
proof -
  have s: "om_sorted kvs"
    using h by (simp add: static_holds_def)
  note n = static_holds_num_nodes [OF h]
  have b: "bisect K mem (StaticMap_at mem raw) key hit miss 0 (num_nodes (StaticMap_at mem raw)) =
    (if om_lower_bound kvs key < length kvs \<and> fst (kvs ! om_lower_bound kvs key) = key
     then hit (int (om_lower_bound kvs key)) else miss (int (om_lower_bound kvs key)))" for hit miss
    by (rule bisect_eq [OF h]) (auto simp: n)
  show "sm_lower_bound K mem (StaticMap_at mem raw) key =
      IteratorAtIndex mem (StaticMap_at mem raw) (int (om_lower_bound kvs key))"
    by (simp add: sm_lower_bound_def b)
  show "sm_find K mem (StaticMap_at mem raw) key =
      IteratorAtIndex mem (StaticMap_at mem raw) (int (om_find kvs key))"
    unfolding sm_find_def b om_find_def Let_def by (simp add: n)
  show "sm_upper_bound K mem (StaticMap_at mem raw) key =
      IteratorAtIndex mem (StaticMap_at mem raw) (int (om_upper_bound kvs key))"
    by (simp add: sm_upper_bound_def b om_upper_bound_of_lower [OF s] add.commute)
qed

section \<open>Validation\<close>

lemma ValidateInMemoryStructure_accepts:
  assumes h: "static_holds K mem raw kvs"
    and small: "header_bytes K (length kvs) < 2 ^ 32" and nonempty: "\<forall>kv\<in>set kvs. snd kv \<noteq> []"
  shows "ValidateInMemoryStructure K mem (StaticMap_at mem raw)"
proof -
  let ?n = "length kvs"
  let ?m = "StaticMap_at mem raw"
  note n = static_holds_num_nodes [OF h]
  have raw: "raw_data ?m = raw" "raw \<noteq> 0" and s: "om_sorted kvs"
    using h by (auto simp: StaticMap_at_def static_holds_def)
  have n': "sint (rd_u64 mem raw) = int ?n"
    using n by (simp add: StaticMap_at_def)
  have first: "of_int (8 * (int ?n + 1)) + of_int (int (ksize K) * int ?n) = (of_nat (header_bytes K ?n) :: u64)"
    by (simp add: header_bytes_def algebra_simps)
  have le: "\<not> 0xffffffff < (of_nat (header_bytes K ?n) :: u64)"
    using small by (simp add: word_less_nat_alt unat_of_nat)
  have offs0: "rd_index mem (offsets_addr raw) 0 = of_nat (header_bytes K ?n)" if "0 < ?n"
    using static_holds_offset [OF h, of 0] that by simp
  have step: "\<not> rd_index mem (offsets_addr raw) i \<le> rd_index mem (offsets_addr raw) (i - 1) \<and>
      \<not> DefaultCompare (GetKeyAtIndex K mem ?m i) (GetKeyAtIndex K mem ?m (i - 1)) \<le> 0"
    if i: "1 \<le> i" "i < int ?n" for i
  proof
    let ?j = "nat (i - 1)"
    have j: "nat i = Suc ?j" "Suc ?j < ?n" "?j < ?n"
      using i by auto
    have tk: "length (concat (map snd (take (Suc ?j) kvs))) = length (concat (map snd (take ?j kvs))) + length (snd (kvs ! ?j))"
      using j by (simp add: take_Suc_conv_app_nth)
    have "length (concat (map snd (take (Suc ?j) kvs))) \<le> length (concat (map snd kvs))"
      by (metis append_take_drop_id concat_append le_add1 length_append map_append)
    then have bound: "header_bytes K ?n + length (concat (map snd (take (Suc ?j) kvs))) < 2 ^ 63"
      using h by (simp add: static_holds_def length_map_bytes)
    have "snd (kvs ! ?j) \<noteq> []"
      using nonempty j by simp
    then have "length (concat (map snd (take ?j kvs))) < length (concat (map snd (take (Suc ?j) kvs)))"
      by (simp add: tk)
    then have "rd_index mem (offsets_addr raw) (i - 1) < rd_index mem (offsets_addr raw) i"
      using static_holds_offset [OF h, of i] static_holds_offset [OF h, of "i - 1"] i j(1) bound
      by (simp add: word_less_nat_alt unat_of_nat del: of_nat_add)
    then show "\<not> rd_index mem (offsets_addr raw) i \<le> rd_index mem (offsets_addr raw) (i - 1)"
      by simp
    have "fst (kvs ! ?j) < fst (kvs ! Suc ?j)"
      by (rule om_sorted_nth_mono [OF s _ j(2)]) simp
    then show "\<not> DefaultCompare (GetKeyAtIndex K mem ?m i) (GetKeyAtIndex K mem ?m (i - 1)) \<le> 0"
      using static_holds_key [OF h, of i] static_holds_key [OF h, of "i - 1"] i j(1)
      by (auto simp: DefaultCompare_def)
  qed
  have "list_all (\<lambda>i. \<not> rd_index mem (offsets_addr raw) i \<le> rd_index mem (offsets_addr raw) (i - 1) \<and>
      \<not> DefaultCompare (GetKeyAtIndex K mem ?m i) (GetKeyAtIndex K mem ?m (i - 1)) \<le> 0) [1..int ?n - 1]"
    unfolding list_all_iff using step by auto
  then show ?thesis
    unfolding ValidateInMemoryStructure_def Let_def n raw(1) n' first
    using raw(2) le offs0 by (cases "kvs = []") simp_all
qed

lemma ValidateInMemoryStructure_sorted:
  assumes "ValidateInMemoryStructure K mem m" "0 \<le> i" "i < j" "j < num_nodes m"
  shows "GetKeyAtIndex K mem m i < GetKeyAtIndex K mem m j"
    and "rd_index mem (offsets_addr (raw_data m)) i < rd_index mem (offsets_addr (raw_data m)) j"
proof -
  have step: "rd_index mem (offsets_addr (raw_data m)) (i - 1) < rd_index mem (offsets_addr (raw_data m)) i \<and>
      GetKeyAtIndex K mem m (i - 1) < GetKeyAtIndex K mem m i" if i: "0 < i" "i < num_nodes m" for i
  proof -
    have "i \<in> set [1..num_nodes m - 1]"
      using i by simp
    then have "\<not> rd_index mem (offsets_addr (raw_data m)) i \<le> rd_index mem (offsets_addr (raw_data m)) (i - 1) \<and>
        \<not> DefaultCompare (GetKeyAtIndex K mem m i) (GetKeyAtIndex K mem m (i - 1)) \<le> 0"
      using assms(1) unfolding ValidateInMemoryStructure_def Let_def list_all_iff by (meson)
    then show ?thesis
      by (auto simp: DefaultCompare_def not_le split: if_splits)
  qed
  show "GetKeyAtIndex K mem m i < GetKeyAtIndex K mem m j"
    by (rule int_chain_less [OF _ assms(2-4), of "GetKeyAtIndex K mem m"]) (use step in blast)
  show "rd_index mem (offsets_addr (raw_data m)) i < rd_index mem (offsets_addr (raw_data m)) j"
    by (rule int_chain_less [OF _ assms(2-4), of "rd_index mem (offsets_addr (raw_data m))"]) (use step in blast)
qed

end

interpretation key_u64: key_type key_u64
  by unfold_locales (simp_all add: rd_u64_holds)

interpretation key_s32: key_type key_s32
  by unfold_locales (simp_all add: rd_s32_holds)

end
