(* ===== verification/Static_Range_Map.thy ===== *)
theory Static_Range_Map
  imports Static_Map Range_Map Address_Map
begin

text \<open>
  processor/static_range_map.h, static_range_map-inl.h, static_address_map.h and
  static_address_map-inl.h: the read-only counterparts of range maps and address maps, over
  serialized bytes. A stored range is its base in eight bytes followed by the bytes of its entry; a
  lookup gives the address of those bytes. The refinement lemmas relate every lookup to the lookup
  of the map that was serialized.
\<close>

section \<open>StaticRangeMap\<close>

definition SRange_base :: "memory \<Rightarrow> u64 \<Rightarrow> u64" where
  "SRange_base mem rg = rd_u64 mem rg"

definition SRange_entryptr :: "u64 \<Rightarrow> u64" where
  "SRange_entryptr rg = rg + 8"

definition static_range_result :: "memory \<Rightarrow> StaticMapIterator \<Rightarrow> u64 \<times> u64 \<times> u64" where
  "static_range_result mem iterator =
     (let rg = GetValueRawPtr mem iterator in
      (SRange_entryptr rg, SRange_base mem rg,
       it_GetKey key_u64 mem iterator - SRange_base mem rg + 1))"

definition SRM_RetrieveRange :: "memory \<Rightarrow> StaticMap \<Rightarrow> u64 \<Rightarrow> (u64 \<times> u64 \<times> u64) option" where
  "SRM_RetrieveRange mem m address =
     (let iterator = sm_lower_bound key_u64 mem m address in
      if it_eq iterator (sm_end mem m) then None
      else if address < SRange_base mem (GetValueRawPtr mem iterator) then None
      else Some (static_range_result mem iterator))"

definition SRM_RetrieveNearestRange :: "memory \<Rightarrow> StaticMap \<Rightarrow> u64 \<Rightarrow> (u64 \<times> u64 \<times> u64) option" where
  "SRM_RetrieveNearestRange mem m address =
     (case SRM_RetrieveRange mem m address of
        Some res \<Rightarrow> Some res
      | None \<Rightarrow>
          (let iterator = sm_upper_bound key_u64 mem m address in
           if it_eq iterator (sm_begin mem m) then None
           else Some (static_range_result mem (it_dec iterator))))"

definition SRM_GetCount :: "StaticMap \<Rightarrow> int" where
  "SRM_GetCount m = num_nodes m"

text \<open>
  The outer \<open>None\<close> is a run without a result: the iterator at a negative index is not valid, and the null
  pointer that it gives for the range is dereferenced. \<open>Some None\<close> is \<open>false\<close>.
\<close>

definition SRM_RetrieveRangeAtIndex :: "memory \<Rightarrow> StaticMap \<Rightarrow> int \<Rightarrow> (u64 \<times> u64 \<times> u64) option option" where
  "SRM_RetrieveRangeAtIndex mem m index =
     (if SRM_GetCount m \<le> index then Some None
      else
        let iterator = IteratorAtIndex mem m index in
        if \<not> it_IsValid iterator then None else Some (Some (static_range_result mem iterator)))"

section \<open>StaticAddressMap\<close>

definition SAM_Retrieve :: "memory \<Rightarrow> StaticMap \<Rightarrow> u64 \<Rightarrow> (u64 \<times> u64) option" where
  "SAM_Retrieve mem m address =
     (let iterator = sm_upper_bound key_u64 mem m address in
      if it_eq iterator (sm_begin mem m) then None
      else let iterator = it_dec iterator in
        Some (GetValueRawPtr mem iterator, it_GetKey key_u64 mem iterator))"

section \<open>Refinement\<close>

definition range_bytes :: "('e \<Rightarrow> u8 list) \<Rightarrow> (64, 'e) range_omap \<Rightarrow> (u64 \<times> u8 list) list" where
  "range_bytes eb m = map (\<lambda>p. (fst p, wr_u64 (r_base (snd p)) @ eb (r_entry (snd p)))) m"

text \<open>A serialized lookup agrees with a lookup of the map: base, size, and the bytes of the entry.\<close>

definition same_lookup :: "memory \<Rightarrow> ('e \<Rightarrow> u8 list) \<Rightarrow> u64 \<times> u64 \<times> u64 \<Rightarrow> (64, 'e) retrieved \<Rightarrow> bool" where
  "same_lookup mem eb s r \<longleftrightarrow> (case (s, r) of ((p, b, sz), (e, b', d, sz')) \<Rightarrow>
     lives mem p (eb e) \<and> b = b' \<and> sz = sz')"

lemma om_bounds_map [simp]:
  assumes "\<And>p. fst (f p) = fst p"
  shows "om_lower_bound (map f m) k = om_lower_bound m k" "om_upper_bound (map f m) k = om_upper_bound m k"
  using assms by (simp_all add: om_lower_bound_def om_upper_bound_def takeWhile_map comp_def)

lemma om_sorted_map [simp]: "(\<And>p. fst (f p) = fst p) \<Longrightarrow> om_sorted (map f m) \<longleftrightarrow> om_sorted m"
  by (simp add: om_sorted_def comp_def)

lemma static_range_result_at:
  assumes h: "static_holds key_u64 mem raw (range_bytes eb m)" and i: "0 \<le> i" "i < int (length m)"
  shows "same_lookup mem eb (static_range_result mem (IteratorAtIndex mem (StaticMap_at mem raw) i)) (range_result (m ! nat i))"
    and "SRange_base mem (GetValueRawPtr mem (IteratorAtIndex mem (StaticMap_at mem raw) i)) = r_base (snd (m ! nat i))"
proof -
  have n: "i < int (length (range_bytes eb m))"
    using i by (simp add: range_bytes_def)
  have v: "lives mem (GetValueRawPtr mem (IteratorAtIndex mem (StaticMap_at mem raw) i))
      (wr_u64 (r_base (snd (m ! nat i))) @ eb (r_entry (snd (m ! nat i))))"
    using key_u64.static_holds_lives [OF h i(1) n] i by (simp add: range_bytes_def)
  have k: "it_GetKey key_u64 mem (IteratorAtIndex mem (StaticMap_at mem raw) i) = fst (m ! nat i)"
    using key_u64.static_holds_GetKey [OF h i(1) n] i by (simp add: range_bytes_def)
  show b: "SRange_base mem (GetValueRawPtr mem (IteratorAtIndex mem (StaticMap_at mem raw) i)) = r_base (snd (m ! nat i))"
    using livesD(1) [OF v] by (simp add: SRange_base_def rd_u64_holds byte_simps)
  show "same_lookup mem eb (static_range_result mem (IteratorAtIndex mem (StaticMap_at mem raw) i)) (range_result (m ! nat i))"
    using lives_append(2) [OF v] by (simp add: static_range_result_def same_lookup_def range_result_def SRange_entryptr_def b k)
qed

lemma it_dec_IteratorAtIndex:
  assumes "static_holds key_u64 mem raw kvs" "0 < i" "i \<le> int (length kvs)"
  shows "it_dec (IteratorAtIndex mem (StaticMap_at mem raw) i) = IteratorAtIndex mem (StaticMap_at mem raw) (i - 1)"
proof -
  have "it_IsValid (IteratorAtIndex mem (StaticMap_at mem raw) i)"
    using key_u64.IteratorAtIndex_simps(4) [OF assms(1), of i] assms(2,3) by simp
  then show ?thesis
    using assms(2) by (simp add: it_dec_def Let_def IteratorAtIndex_def StaticMapIterator_new_def)
qed

lemma it_eq_IteratorAtIndex:
  assumes "static_holds key_u64 mem raw kvs"
  shows "it_eq (IteratorAtIndex mem (StaticMap_at mem raw) i) (sm_begin mem (StaticMap_at mem raw)) \<longleftrightarrow> i = 0"
    and "it_eq (IteratorAtIndex mem (StaticMap_at mem raw) i) (sm_end mem (StaticMap_at mem raw)) \<longleftrightarrow> i = int (length kvs)"
  by (simp_all add: it_eq_def sm_begin_def sm_end_def key_u64.IteratorAtIndex_simps [OF assms]
    key_u64.static_holds_num_nodes [OF assms])

lemma SRM_RetrieveRange_refines:
  assumes h: "static_holds key_u64 mem raw (range_bytes eb m)"
  shows "rel_option (same_lookup mem eb) (SRM_RetrieveRange mem (StaticMap_at mem raw) a) (RetrieveRange m a)"
proof -
  have lb: "om_lower_bound (range_bytes eb m) a = om_lower_bound m a"
    by (simp add: range_bytes_def)
  have len: "length (range_bytes eb m) = length m"
    by (simp add: range_bytes_def)
  show ?thesis
  proof (cases "om_lower_bound m a = length m")
    case False
    then have i: "0 \<le> int (om_lower_bound m a)" "int (om_lower_bound m a) < int (length m)"
      by (simp_all add: le_neq_implies_less)
    show ?thesis
      using False static_range_result_at [OF h i]
      by (simp add: SRM_RetrieveRange_def RetrieveRange_def Let_def key_u64.static_lookups [OF h] lb
        it_eq_IteratorAtIndex [OF h] len)
  qed (simp add: SRM_RetrieveRange_def RetrieveRange_def Let_def key_u64.static_lookups [OF h] lb
        it_eq_IteratorAtIndex [OF h] len)
qed

lemma SRM_RetrieveNearestRange_refines:
  assumes h: "static_holds key_u64 mem raw (range_bytes eb m)"
  shows "rel_option (same_lookup mem eb) (SRM_RetrieveNearestRange mem (StaticMap_at mem raw) a) (RetrieveNearestRange m a)"
proof (cases "RetrieveRange m a")
  case (Some r)
  then show ?thesis
    using SRM_RetrieveRange_refines [OF h, of a]
    by (auto simp: SRM_RetrieveNearestRange_def RetrieveNearestRange_def option_rel_Some2)
next
  case None
  have s: "SRM_RetrieveRange mem (StaticMap_at mem raw) a = None"
    using SRM_RetrieveRange_refines [OF h, of a] None by simp
  have ub: "om_upper_bound (range_bytes eb m) a = om_upper_bound m a" and len: "length (range_bytes eb m) = length m"
    by (simp_all add: range_bytes_def)
  note defs = SRM_RetrieveNearestRange_def RetrieveNearestRange_def s None Let_def key_u64.static_lookups [OF h] ub
    it_eq_IteratorAtIndex [OF h]
  show ?thesis
  proof (cases "om_upper_bound m a = 0")
    case False
    have le: "om_upper_bound m a \<le> length m"
      by (rule om_upper_bound_le)
    have i: "0 < int (om_upper_bound m a)" "int (om_upper_bound m a) \<le> int (length (range_bytes eb m))"
      using False le len by simp_all
    have j: "0 \<le> int (om_upper_bound m a) - 1" "int (om_upper_bound m a) - 1 < int (length m)"
      using False le by (auto simp del: om_upper_bound_le)
    have "nat (int (om_upper_bound m a) - 1) = om_upper_bound m a - 1"
      by simp
    then show ?thesis
      using False static_range_result_at(1) [OF h j] by (simp add: defs it_dec_IteratorAtIndex [OF h i])
  qed (simp add: defs)
qed

lemma SRM_RetrieveRangeAtIndex_refines:
  assumes h: "static_holds key_u64 mem raw (range_bytes eb m)"
  shows "0 \<le> i \<Longrightarrow> \<exists>result. SRM_RetrieveRangeAtIndex mem (StaticMap_at mem raw) i = Some result \<and>
      rel_option (same_lookup mem eb) result (RetrieveRangeAtIndex m i)"
    and "i < 0 \<Longrightarrow> SRM_RetrieveRangeAtIndex mem (StaticMap_at mem raw) i = None"
  using static_range_result_at(1) [OF h, of i] key_u64.static_holds_num_nodes [OF h] key_u64.IteratorAtIndex_simps(4) [OF h, of i]
  by (auto simp: SRM_RetrieveRangeAtIndex_def RetrieveRangeAtIndex_def SRM_GetCount_def GetCount_def range_bytes_def)

lemma SAM_Retrieve_refines:
  assumes h: "static_holds key_u64 mem raw (map (\<lambda>p. (fst p, eb (snd p))) m)"
  shows "rel_option (\<lambda>(p, k) (e, k'). lives mem p (eb e) \<and> k = k')
    (SAM_Retrieve mem (StaticMap_at mem raw) a) (AddressMap_Retrieve m a)"
proof -
  note defs = SAM_Retrieve_def AddressMap_Retrieve_def Let_def key_u64.static_lookups [OF h] it_eq_IteratorAtIndex [OF h]
  show ?thesis
  proof (cases "om_upper_bound m a = 0")
    case False
    have le: "om_upper_bound m a \<le> length m"
      by (rule om_upper_bound_le)
    have i: "0 < int (om_upper_bound m a)" "int (om_upper_bound m a) \<le> int (length (map (\<lambda>p. (fst p, eb (snd p))) m))"
      using False le by simp_all
    have j: "0 \<le> int (om_upper_bound m a) - 1"
        "int (om_upper_bound m a) - 1 < int (length (map (\<lambda>p. (fst p, eb (snd p))) m))"
      using False le by (auto simp del: om_upper_bound_le)
    have n: "nat (int (om_upper_bound m a) - 1) = om_upper_bound m a - 1" "om_upper_bound m a - 1 < length m"
      using False le by (auto simp del: om_upper_bound_le)
    show ?thesis
      using False key_u64.static_holds_lives [OF h j] key_u64.static_holds_GetKey [OF h j] n
      by (simp add: defs it_dec_IteratorAtIndex [OF h i])
  qed (simp add: defs)
qed

end
