(* ===== verification/Static_Contained_Range_Map.thy ===== *)
theory Static_Contained_Range_Map
  imports Static_Range_Map Contained_Range_Map
begin

text \<open>
  processor/static_contained_range_map.h and static_contained_range_map-inl.h: the tree of nested
  ranges over serialized bytes. A node is its base, the size of its entry, the bytes of the entry
  and a serialized map of its children. The retrievals follow addresses found in memory, so nothing
  in the code bounds their recursion: they are partial functions, and the refinement lemma shows
  that on a serialized tree they return what the tree itself gives.
\<close>

section \<open>State and retrieval\<close>

record StaticContainedRangeMap =
  scrm_base :: u64
  entry_size :: u64
  entry_ptr :: u64
  scrm_map :: StaticMap

definition SCRM_at :: "memory \<Rightarrow> u64 \<Rightarrow> StaticContainedRangeMap" where
  "SCRM_at mem base =
     (let entry_size' = rd_u64 mem (base + 8) in
      \<lparr>scrm_base = rd_u64 mem base,
       entry_size = entry_size',
       entry_ptr = (if entry_size' = 0 then 0 else base + 8 + 8),
       scrm_map = StaticMap_at mem (base + 8 + 8 + entry_size')\<rparr>)"

text \<open>The inner option is the boolean with its output; \<open>None\<close> outside is a call that does not return.\<close>

partial_function (option) SCRM_RetrieveRange ::
  "memory \<Rightarrow> StaticContainedRangeMap \<Rightarrow> u64 \<Rightarrow> u64 option option" where
  "SCRM_RetrieveRange mem t address =
     (let iterator = sm_lower_bound key_u64 mem (scrm_map t) address in
      if it_eq iterator (sm_end mem (scrm_map t)) then Some None
      else
        let child_map = SCRM_at mem (GetValueRawPtr mem iterator) in
        if address < scrm_base child_map then Some None
        else Option.bind (SCRM_RetrieveRange mem child_map address)
          (\<lambda>found. case found of
             Some entry \<Rightarrow> Some (Some entry)
           | None \<Rightarrow> Some (Some (entry_ptr child_map))))"

text \<open>The list is what is pushed; the boolean of the code is that it is not empty.\<close>

partial_function (option) SCRM_RetrieveRanges ::
  "memory \<Rightarrow> StaticContainedRangeMap \<Rightarrow> u64 \<Rightarrow> u64 list option" where
  "SCRM_RetrieveRanges mem t address =
     (let iterator = sm_lower_bound key_u64 mem (scrm_map t) address in
      if it_eq iterator (sm_end mem (scrm_map t)) then Some []
      else
        let child_map = SCRM_at mem (GetValueRawPtr mem iterator) in
        if address < scrm_base child_map then Some []
        else Option.bind (SCRM_RetrieveRanges mem child_map address)
          (\<lambda>entries. Some (entries @ [entry_ptr child_map])))"

section \<open>Serialized trees\<close>

function crm_bytes :: "('e \<Rightarrow> u8 list) \<Rightarrow> (u64, 'e) ContainedRangeMap \<Rightarrow> u8 list" where
  "crm_bytes eb t = wr_u64 (crm_base t) @ wr_u64 (of_nat (length (eb (crm_entry t)))) @ eb (crm_entry t) @
     map_bytes key_u64 (map (\<lambda>p. (fst p, crm_bytes eb (snd p))) (crm_map t))"
  by pat_completeness auto
termination
  by (relation "measure (\<lambda>(eb, t). size t)") (auto simp: size_crm_mem)

declare crm_bytes.simps [simp del]

definition scrm_holds :: "memory \<Rightarrow> u64 \<Rightarrow> ('e \<Rightarrow> u8 list) \<Rightarrow> (u64, 'e) ContainedRangeMap \<Rightarrow> bool" where
  "scrm_holds mem a eb t \<longleftrightarrow> region a (length (crm_bytes eb t)) \<and> length (crm_bytes eb t) < 2 ^ 63 \<and>
     holds mem a (crm_bytes eb t)"

definition child_bytes :: "('e \<Rightarrow> u8 list) \<Rightarrow> (u64, 'e) ContainedRangeMap \<Rightarrow> (u64 \<times> u8 list) list" where
  "child_bytes eb t = map (\<lambda>p. (fst p, crm_bytes eb (snd p))) (crm_map t)"

lemma crm_bytes_unfold:
  "crm_bytes eb t = wr_u64 (crm_base t) @ wr_u64 (of_nat (length (eb (crm_entry t)))) @ eb (crm_entry t) @
     map_bytes key_u64 (child_bytes eb t)"
  by (subst crm_bytes.simps) (simp add: child_bytes_def)

text \<open>What a retrieval reports for an entry: its bytes, or the null pointer if it has none.\<close>

definition entry_at :: "memory \<Rightarrow> ('e \<Rightarrow> u8 list) \<Rightarrow> u64 \<Rightarrow> 'e \<Rightarrow> bool" where
  "entry_at mem eb p e \<longleftrightarrow> (if eb e = [] then p = 0 else lives mem p (eb e))"

lemma SCRM_at_holds:
  assumes h: "scrm_holds mem a eb t" and ok: "crm_ok allow t"
  shows "scrm_base (SCRM_at mem a) = crm_base t"
    and "entry_at mem eb (entry_ptr (SCRM_at mem a)) (crm_entry t)"
    and "\<exists>raw. scrm_map (SCRM_at mem a) = StaticMap_at mem raw \<and> static_holds key_u64 mem raw (child_bytes eb t) \<and>
      region raw (length (map_bytes key_u64 (child_bytes eb t)))"
proof -
  let ?n = "length (eb (crm_entry t))"
  have hb: "holds mem a (wr_u64 (crm_base t) @ wr_u64 (of_nat ?n) @ eb (crm_entry t) @ map_bytes key_u64 (child_bytes eb t))"
    and len: "16 + ?n + length (map_bytes key_u64 (child_bytes eb t)) < 2 ^ 63"
    and rg: "region a (16 + ?n + length (map_bytes key_u64 (child_bytes eb t)))"
    using h by (simp_all add: scrm_holds_def crm_bytes_unfold add.assoc)
  have e: "rd_u64 mem (a + 8) = of_nat ?n"
    using hb by (intro rd_u64_holds) (simp add: byte_simps)
  have z: "(of_nat ?n :: u64) = 0 \<longleftrightarrow> ?n = 0"
  proof -
    have "?n < 2 ^ 64"
      using len by simp
    then have "unat (of_nat ?n :: u64) = ?n"
      by (simp add: unat_of_nat)
    then have "?n = 0" if "(of_nat ?n :: u64) = 0"
      unfolding that by simp
    then show ?thesis
      by (rule iffI) simp_all
  qed
  show "scrm_base (SCRM_at mem a) = crm_base t"
    using hb by (simp add: SCRM_at_def Let_def byte_simps rd_u64_holds)
  show "entry_at mem eb (entry_ptr (SCRM_at mem a)) (crm_entry t)"
    using lives_append(1) [OF lives_append(2) [OF lives_append(2) [of mem a "wr_u64 (crm_base t)"]],
        of "wr_u64 (of_nat ?n)" "eb (crm_entry t)" "map_bytes key_u64 (child_bytes eb t)"] hb rg z
    by (simp add: SCRM_at_def Let_def entry_at_def e lives_def add.assoc)
  have "scrm_map (SCRM_at mem a) = StaticMap_at mem (a + of_nat (16 + ?n))"
    by (simp add: SCRM_at_def Let_def e add.assoc)
  moreover have r: "region (a + of_nat (16 + ?n)) (length (map_bytes key_u64 (child_bytes eb t)))"
    by (rule region_sub [OF rg]) (auto simp: key_u64.length_map_bytes header_bytes_def)
  moreover have "static_holds key_u64 mem (a + of_nat (16 + ?n)) (child_bytes eb t)"
    using r hb len crm_okD(1) [OF ok]
    by (auto simp: static_holds_def region_def byte_simps add.assoc child_bytes_def disjoint_by_def)
  ultimately show "\<exists>raw. scrm_map (SCRM_at mem a) = StaticMap_at mem raw \<and> static_holds key_u64 mem raw (child_bytes eb t) \<and>
      region raw (length (map_bytes key_u64 (child_bytes eb t)))"
    by blast
qed

lemma child_holds:
  assumes "static_holds key_u64 mem raw (child_bytes eb t)"
    and "region raw (length (map_bytes key_u64 (child_bytes eb t)))" and i: "i < length (crm_map t)"
  shows "scrm_holds mem (GetValueRawPtr mem (IteratorAtIndex mem (StaticMap_at mem raw) (int i))) eb (snd (crm_map t ! i))"
proof -
  have i': "i < length (child_bytes eb t)"
    using i by (simp add: child_bytes_def)
  have v: "snd (child_bytes eb t ! i) = crm_bytes eb (snd (crm_map t ! i))"
    using i by (simp add: child_bytes_def)
  obtain d where d: "GetValueRawPtr mem (IteratorAtIndex mem (StaticMap_at mem raw) (int i)) = raw + of_nat d"
      "d + length (crm_bytes eb (snd (crm_map t ! i))) \<le> length (map_bytes key_u64 (child_bytes eb t))"
    using key_u64.static_value_addr [OF assms(1) i'] v by auto
  have "region (raw + of_nat d) (length (crm_bytes eb (snd (crm_map t ! i))))"
    by (rule region_sub [OF assms(2) d(2)])
  moreover have "holds mem (raw + of_nat d) (crm_bytes eb (snd (crm_map t ! i)))"
    using key_u64.static_holds_value [OF assms(1), of "int i"] i' v d(1) by simp
  moreover have "length (map_bytes key_u64 (child_bytes eb t)) < 2 ^ 63"
    using assms(1) by (simp add: static_holds_def)
  ultimately show ?thesis
    using d by (simp add: scrm_holds_def)
qed

text \<open>The child a retrieval goes into, in memory and in the tree.\<close>

lemma static_child:
  fixes address :: u64
  assumes h: "scrm_holds mem a eb t" and ok: "crm_ok allow t"
  defines "m \<equiv> scrm_map (SCRM_at mem a)"
  defines "it \<equiv> sm_lower_bound key_u64 mem m address"
  shows "it_eq it (sm_end mem m) \<longleftrightarrow> om_lower_bound (crm_map t) address = length (crm_map t)"
    and "om_lower_bound (crm_map t) address < length (crm_map t) \<Longrightarrow>
      scrm_holds mem (GetValueRawPtr mem it) eb (snd (crm_map t ! om_lower_bound (crm_map t) address))"
proof -
  obtain raw where raw: "m = StaticMap_at mem raw" and sh: "static_holds key_u64 mem raw (child_bytes eb t)"
      and rg: "region raw (length (map_bytes key_u64 (child_bytes eb t)))"
    using SCRM_at_holds(3) [OF h ok] m_def by blast
  have lb: "om_lower_bound (child_bytes eb t) address = om_lower_bound (crm_map t) address"
    and len: "length (child_bytes eb t) = length (crm_map t)"
    by (simp_all add: child_bytes_def)
  have it: "it = IteratorAtIndex mem (StaticMap_at mem raw) (int (om_lower_bound (crm_map t) address))"
    by (simp add: it_def raw key_u64.static_lookups [OF sh] lb)
  show "it_eq it (sm_end mem m) \<longleftrightarrow> om_lower_bound (crm_map t) address = length (crm_map t)"
    by (simp add: it raw it_eq_IteratorAtIndex [OF sh] len)
  show "scrm_holds mem (GetValueRawPtr mem it) eb (snd (crm_map t ! om_lower_bound (crm_map t) address))"
    if "om_lower_bound (crm_map t) address < length (crm_map t)"
    unfolding it by (rule child_holds [OF sh rg that])
qed

lemma SCRM_RetrieveRanges_refines:
  assumes "scrm_holds mem a eb t" "crm_ok allow t"
  shows "\<exists>ptrs. SCRM_RetrieveRanges mem (SCRM_at mem a) address = Some ptrs \<and>
    list_all2 (entry_at mem eb) ptrs (CRM_RetrieveRanges t address)"
  using assms
proof (induction "size t" arbitrary: t a rule: less_induct)
  case less
  let ?i = "om_lower_bound (crm_map t) address"
  note child = static_child [OF less.prems, of address]
  show ?case
  proof (cases "?i = length (crm_map t)")
    case True
    then show ?thesis
      by (subst SCRM_RetrieveRanges.simps, subst CRM_RetrieveRanges.simps) (simp add: Let_def child(1))
  next
    case False
    then have i: "?i < length (crm_map t)"
      by (simp add: le_neq_implies_less)
    let ?c = "snd (crm_map t ! ?i)"
    note ch = child(2) [OF i]
    have ok: "crm_ok allow ?c"
      by (rule crm_okD(2) [OF less.prems(2) nth_mem [OF i]])
    note at = SCRM_at_holds [OF ch ok]
    obtain ptrs where ih: "SCRM_RetrieveRanges mem (SCRM_at mem (GetValueRawPtr mem
        (sm_lower_bound key_u64 mem (scrm_map (SCRM_at mem a)) address))) address = Some ptrs"
        "list_all2 (entry_at mem eb) ptrs (CRM_RetrieveRanges ?c address)"
      using less.hyps [OF size_crm_child [OF i] ch ok] by blast
    show ?thesis
      by (subst SCRM_RetrieveRanges.simps, subst CRM_RetrieveRanges.simps)
        (use False ih at(1,2) in \<open>simp add: Let_def child(1) list_all2_appendI\<close>)
  qed
qed

lemma SCRM_RetrieveRange_refines:
  assumes "scrm_holds mem a eb t" "crm_ok allow t"
  shows "\<exists>found. SCRM_RetrieveRange mem (SCRM_at mem a) address = Some found \<and>
    rel_option (entry_at mem eb) found (CRM_RetrieveRange t address)"
  using assms
proof (induction "size t" arbitrary: t a rule: less_induct)
  case less
  let ?i = "om_lower_bound (crm_map t) address"
  note child = static_child [OF less.prems, of address]
  show ?case
  proof (cases "?i = length (crm_map t)")
    case True
    then show ?thesis
      by (subst SCRM_RetrieveRange.simps, subst CRM_RetrieveRange.simps) (simp add: Let_def child(1))
  next
    case False
    then have i: "?i < length (crm_map t)"
      by (simp add: le_neq_implies_less)
    let ?c = "snd (crm_map t ! ?i)"
    note ch = child(2) [OF i]
    have ok: "crm_ok allow ?c"
      by (rule crm_okD(2) [OF less.prems(2) nth_mem [OF i]])
    note at = SCRM_at_holds [OF ch ok]
    obtain found where ih: "SCRM_RetrieveRange mem (SCRM_at mem (GetValueRawPtr mem
        (sm_lower_bound key_u64 mem (scrm_map (SCRM_at mem a)) address))) address = Some found"
        "rel_option (entry_at mem eb) found (CRM_RetrieveRange ?c address)"
      using less.hyps [OF size_crm_child [OF i] ch ok] by blast
    show ?thesis
      by (subst SCRM_RetrieveRange.simps, subst CRM_RetrieveRange.simps)
        (use False ih at(1,2) in \<open>auto simp: Let_def child(1) split: option.splits\<close>)
  qed
qed

end
