(* ===== verification/Map_Serializers.thy ===== *)
theory Map_Serializers
  imports Static_Contained_Range_Map
begin

text \<open>
  processor/simple_serializer.h, map_serializers.h and map_serializers-inl.h: writing maps into
  memory in the layout the static maps read. A serializer is a pair of functions, the size of a
  value and the write of a value at a destination pointer; the code selects them by type, here they
  are arguments. The maps are written in place, offsets, keys and values interleaved; the lemmas
  show that the result is the plain sequence of bytes that \<open>map_bytes\<close> describes, and that the
  size announced is the size written.
\<close>

section \<open>Serializers\<close>

type_synonym out = "memory \<times> u64"

record 'a serializer =
  SizeOf :: "'a \<Rightarrow> u64"
  Write :: "'a \<Rightarrow> out \<Rightarrow> out"

text \<open>
  What every serializer promises for the values it supports, as long as the data stays below 4 GiB
  and the destination is a proper stretch of memory.
\<close>

locale serializer =
  fixes S :: "'a serializer" and bytes :: "'a \<Rightarrow> u8 list" and ok :: "'a \<Rightarrow> bool"
  assumes SizeOf_law: "ok x \<Longrightarrow> length (bytes x) < 2 ^ 32 \<Longrightarrow> SizeOf S x = of_nat (length (bytes x))"
    and Write_law: "ok x \<Longrightarrow> length (bytes x) < 2 ^ 32 \<Longrightarrow> region dest (length (bytes x)) \<Longrightarrow>
      Write S x (mem, dest) = (store mem dest (bytes x), dest + of_nat (length (bytes x)))"

text \<open>The default template, for plain types: the object representation is copied.\<close>

definition ser_pod :: "'k keytype \<Rightarrow> 'k serializer" where
  "ser_pod K = \<lparr>SizeOf = (\<lambda>item. of_nat (ksize K)),
     Write = (\<lambda>item (mem, dest). (store mem dest (kwrite K item), dest + of_nat (ksize K)))\<rparr>"

context serializer
begin

text \<open>The bytes written are those at the destination afterwards, whatever was there before.\<close>

lemma holds_Write:
  assumes "ok x" "length (bytes x) < 2 ^ 32" "region dest (length (bytes x))"
  shows "holds (fst (Write S x (mem, dest))) dest (bytes x)"
  using assms by (simp add: Write_law holds_store)

end

section \<open>The loop over a map\<close>

text \<open>
  The three map serializers share this loop and differ in how they write a value. Each round sets
  the offset of the value, writes the key behind the previous key and the value behind the previous
  value.
\<close>

fun write_entries ::
  "'k serializer \<Rightarrow> ('v \<Rightarrow> out \<Rightarrow> out) \<Rightarrow> u64 \<Rightarrow> u64 \<Rightarrow> nat \<Rightarrow> u64 \<Rightarrow> ('k \<times> 'v) list \<Rightarrow> out \<Rightarrow> out" where
  "write_entries ks wv start_address offsets index key_address [] out = out"
| "write_entries ks wv start_address offsets index key_address ((k, v) # m) (mem, dest) =
     (let mem = store mem (offsets + of_nat (8 * index)) (wr_u64 (dest - start_address));
          (mem, key_address) = Write ks k (mem, key_address);
          out = wv v (mem, dest)
      in write_entries ks wv start_address offsets (Suc index) key_address m out)"

lemma write_entries_cong [fundef_cong]:
  assumes "m = m'" "\<And>p. p \<in> set m' \<Longrightarrow> wv (snd p) = wv' (snd p)"
  shows "write_entries ks wv s off i key m out = write_entries ks wv' s off i key m' out"
  using assms(2) unfolding assms(1)
proof (induction m' arbitrary: i key out)
  case (Cons p m)
  obtain k v mem dest where p: "p = (k, v)" "out = (mem, dest)"
    by (cases p; cases out) auto
  have "wv v = wv' v"
    using Cons.prems [of p] p by simp
  then show ?case
    using Cons.IH Cons.prems by (simp add: p Let_def case_prod_beta)
qed simp

definition write_map :: "'k keytype \<Rightarrow> ('v \<Rightarrow> out \<Rightarrow> out) \<Rightarrow> ('k \<times> 'v) list \<Rightarrow> out \<Rightarrow> out" where
  "write_map K wv m out =
     (let start_address = snd out;
          (mem, dest) = Write (ser_pod key_u64) (of_nat (length m)) out;
          offsets = dest;
          dest = dest + of_nat (8 * length m);
          key_address = dest;
          dest = dest + of_nat (ksize K * length m)
      in write_entries (ser_pod K) wv start_address offsets 0 key_address m (mem, dest))"

lemma write_map_cong [fundef_cong]:
  assumes "m = m'" "\<And>p. p \<in> set m' \<Longrightarrow> wv (snd p) = wv' (snd p)"
  shows "write_map K wv m out = write_map K wv' m' out"
proof -
  have "write_entries ks wv s off i key m out' = write_entries ks wv' s off i key m' out'" for ks s off i key out'
    by (rule write_entries_cong) (use assms in auto)
  then show ?thesis
    unfolding write_map_def by (simp add: assms(1) Let_def case_prod_beta)
qed

text \<open>One round moves past the other two areas, so the areas can be collected.\<close>

lemma store_round:
  assumes "i + (length u + length u') \<le> j" "j + (length v + length v') \<le> d" "d + (length w + length w') \<le> 2 ^ 64"
  shows "store (store (store
      (store (store (store mem (a + of_nat i) u) (a + of_nat j) v) (a + of_nat d) w)
        (a + of_nat (i + length u)) u') (a + of_nat (j + length v)) v') (a + of_nat (d + length w)) w' =
    store (store (store mem (a + of_nat i) (u @ u')) (a + of_nat j) (v @ v')) (a + of_nat d) (w @ w')"
proof -
  let ?O = "store mem (a + of_nat i) u"
  have 1: "store (store (store ?O (a + of_nat j) v) (a + of_nat d) w) (a + of_nat (i + length u)) u' =
      store (store (store ?O (a + of_nat j) v) (a + of_nat (i + length u)) u') (a + of_nat d) w"
    by (rule store_commute [symmetric]) (use assms in linarith)+
  have 2: "store (store ?O (a + of_nat j) v) (a + of_nat (i + length u)) u' =
      store (store ?O (a + of_nat (i + length u)) u') (a + of_nat j) v"
    by (rule store_commute [symmetric]) (use assms in linarith)+
  have 3: "store (store X (a + of_nat d) w) (a + of_nat (j + length v)) v' =
      store (store X (a + of_nat (j + length v)) v') (a + of_nat d) w" for X
    by (rule store_commute [symmetric]) (use assms in linarith)+
  show ?thesis
    unfolding 1 2 3 by (simp add: store_append add.assoc)
qed

context key_type
begin

lemma write_entries_eq:
  assumes wv: "\<And>p mem dest. p \<in> set m \<Longrightarrow> region dest (length (vb (snd p))) \<Longrightarrow>
      wv (snd p) (mem, dest) = (store mem dest (vb (snd p)), dest + of_nat (length (vb (snd p))))"
    and "o' + 8 * index + 8 * length m \<le> k" "k + ksize K * length m \<le> d"
    and "region a (d + length (concat (map (\<lambda>p. vb (snd p)) m)))"
  shows "write_entries (ser_pod K) wv a (a + of_nat o') index (a + of_nat k) m (mem, a + of_nat d) =
    (store (store (store mem (a + of_nat (o' + 8 * index))
        (concat (map (\<lambda>d. wr_u64 (of_nat d)) (value_offsets d (map (\<lambda>p. vb (snd p)) m)))))
        (a + of_nat k) (concat (map (\<lambda>p. kwrite K (fst p)) m)))
        (a + of_nat d) (concat (map (\<lambda>p. vb (snd p)) m)),
      a + of_nat (d + length (concat (map (\<lambda>p. vb (snd p)) m))))"
  using assms
proof (induction m arbitrary: index k d mem)
  case Nil
  then show ?case by simp
next
  case (Cons p m)
  let ?vs = "concat (map (\<lambda>p. vb (snd p)) m)"
  let ?v = "vb (snd p)"
  have rg: "region (a + of_nat d) (length ?v)"
    by (rule region_sub [OF Cons.prems(4)]) simp
  note w = Cons.prems(1) [OF _ rg, of mem for mem, simplified]
  have "write_entries (ser_pod K) wv a (a + of_nat o') index (a + of_nat k) (p # m) (mem, a + of_nat d) =
      write_entries (ser_pod K) wv a (a + of_nat o') (Suc index) (a + of_nat (k + ksize K)) m
        (store (store (store mem (a + of_nat (o' + 8 * index)) (wr_u64 (of_nat d))) (a + of_nat k) (kwrite K (fst p)))
          (a + of_nat d) ?v, a + of_nat (d + length ?v))"
    using w by (cases p) (simp add: ser_pod_def Let_def add.assoc)
  also have "\<dots> = (store (store (store
        (store (store (store mem (a + of_nat (o' + 8 * index)) (wr_u64 (of_nat d))) (a + of_nat k) (kwrite K (fst p)))
          (a + of_nat d) ?v)
        (a + of_nat (o' + 8 * Suc index))
        (concat (map (\<lambda>d. wr_u64 (of_nat d)) (value_offsets (d + length ?v) (map (\<lambda>p. vb (snd p)) m)))))
        (a + of_nat (k + ksize K)) (concat (map (\<lambda>p. kwrite K (fst p)) m)))
        (a + of_nat (d + length ?v)) ?vs,
      a + of_nat (d + length ?v + length ?vs))"
    by (rule Cons.IH) (use Cons.prems in \<open>simp_all add: add.assoc\<close>)
  also have "a + of_nat (o' + 8 * Suc index) = a + of_nat (o' + 8 * index + length (wr_u64 (of_nat d)))"
    by simp
  also have "a + of_nat (k + ksize K) = a + of_nat (k + length (kwrite K (fst p)))"
    by simp
  finally show ?case
    using Cons.prems(2-4) length_concat_const [of m "\<lambda>p. kwrite K (fst p)" "ksize K"]
      length_concat_const [of "value_offsets (d + length ?v) (map (\<lambda>p. vb (snd p)) m)" "\<lambda>d. wr_u64 (of_nat d)" 8]
    by (subst (asm) store_round) (simp_all add: region_def add.assoc)
qed

text \<open>The bytes \<open>write_map\<close> writes.\<close>

lemma write_map_eq:
  assumes wv: "\<And>p mem dest. p \<in> set m \<Longrightarrow> region dest (length (vb (snd p))) \<Longrightarrow>
      wv (snd p) (mem, dest) = (store mem dest (vb (snd p)), dest + of_nat (length (vb (snd p))))"
    and "region a (length (map_bytes K (map (\<lambda>p. (fst p, vb (snd p))) m)))"
  shows "write_map K wv m (mem, a) =
    (store mem a (map_bytes K (map (\<lambda>p. (fst p, vb (snd p))) m)),
     a + of_nat (length (map_bytes K (map (\<lambda>p. (fst p, vb (snd p))) m))))"
proof -
  let ?n = "length m"
  let ?h = "header_bytes K ?n"
  let ?bs = "map_bytes K (map (\<lambda>p. (fst p, vb (snd p))) m)"
  have len: "length ?bs = ?h + length (concat (map (\<lambda>p. vb (snd p)) m))"
    by (simp add: length_map_bytes comp_def)
  have k: "length (concat (map (\<lambda>p. kwrite K (fst p)) m)) = ksize K * ?n"
    by (rule length_concat_const) simp
  have o: "length (concat (map (\<lambda>d. wr_u64 (of_nat d)) ds)) = 8 * length ds" for ds :: "nat list"
    by (rule length_concat_const) simp
  have "write_map K wv m (mem, a) = write_entries (ser_pod K) wv a (a + of_nat 8) 0 (a + of_nat (8 + 8 * ?n)) m
      (store mem a (wr_u64 (of_nat ?n)), a + of_nat ?h)"
    by (simp add: write_map_def ser_pod_def Let_def header_bytes_def algebra_simps)
  also have "\<dots> = (store (store (store (store mem a (wr_u64 (of_nat ?n))) (a + of_nat (8 + 8 * 0))
        (concat (map (\<lambda>d. wr_u64 (of_nat d)) (value_offsets ?h (map (\<lambda>p. vb (snd p)) m)))))
        (a + of_nat (8 + 8 * ?n)) (concat (map (\<lambda>p. kwrite K (fst p)) m)))
        (a + of_nat ?h) (concat (map (\<lambda>p. vb (snd p)) m)),
      a + of_nat (?h + length (concat (map (\<lambda>p. vb (snd p)) m))))"
    by (rule write_entries_eq, erule (1) wv) (use assms(2) in \<open>simp_all add: header_bytes_def len\<close>)
  also have "\<dots> = (store mem a ?bs, a + of_nat (length ?bs))"
    by (simp add: map_bytes_def store_append comp_def k o header_bytes_def ac_simps)
  finally show ?thesis .
qed

end

section \<open>The map serializers\<close>

definition StdMap_SizeOf :: "'k keytype \<Rightarrow> 'v serializer \<Rightarrow> ('k \<times> 'v) list \<Rightarrow> u64" where
  "StdMap_SizeOf K vs m =
     of_nat ((1 + length m) * 8) + (\<Sum>p\<leftarrow>m. SizeOf (ser_pod K) (fst p) + SizeOf vs (snd p))"

definition StdMap_Write :: "'k keytype \<Rightarrow> 'v serializer \<Rightarrow> ('k \<times> 'v) list \<Rightarrow> out \<Rightarrow> out" where
  "StdMap_Write K vs m out = (if snd out = 0 then (fst out, 0) else write_map K (Write vs) m out)"

definition StdMapSerializer :: "'k keytype \<Rightarrow> 'v serializer \<Rightarrow> ('k \<times> 'v) list serializer" where
  "StdMapSerializer K vs = \<lparr>SizeOf = StdMap_SizeOf K vs, Write = StdMap_Write K vs\<rparr>"

text \<open>
  \<open>Serialize\<close> of each class: the allocation is the argument, 0 when it fails; the result is the memory,
  the pointer and the size reported.
\<close>

definition Serialize :: "'a serializer \<Rightarrow> 'a \<Rightarrow> u64 \<Rightarrow> memory \<Rightarrow> memory \<times> u64 \<times> u64" where
  "Serialize S m serialized_data mem =
     (let size_to_alloc = SizeOf S m in
      if serialized_data = 0 then (mem, 0, 0)
      else (fst (Write S m (mem, serialized_data)), serialized_data, size_to_alloc))"

definition AddressMapSerializer :: "'v serializer \<Rightarrow> (u64, 'v) AddressMap serializer" where
  "AddressMapSerializer vs = \<lparr>SizeOf = StdMap_SizeOf key_u64 vs, Write = StdMap_Write key_u64 vs\<rparr>"

definition RangeMap_SizeOf :: "'e serializer \<Rightarrow> (64, 'e) range_omap \<Rightarrow> u64" where
  "RangeMap_SizeOf es m = of_nat ((1 + length m) * 8) +
     (\<Sum>p\<leftarrow>m. SizeOf (ser_pod key_u64) (fst p) + SizeOf (ser_pod key_u64) (r_base (snd p)) +
        SizeOf es (r_entry (snd p)))"

definition RangeMap_Write :: "'e serializer \<Rightarrow> (64, 'e) range_omap \<Rightarrow> out \<Rightarrow> out" where
  "RangeMap_Write es m out = (if snd out = 0 then (fst out, 0)
     else write_map key_u64
       (\<lambda>r out. Write es (r_entry r) (Write (ser_pod key_u64) (r_base r) out)) m out)"

definition RangeMapSerializer :: "'e serializer \<Rightarrow> (64, 'e) range_omap serializer" where
  "RangeMapSerializer es = \<lparr>SizeOf = RangeMap_SizeOf es, Write = RangeMap_Write es\<rparr>"

function CRM_SizeOf :: "'e serializer \<Rightarrow> (u64, 'e) ContainedRangeMap \<Rightarrow> u64" where
  "CRM_SizeOf es t = SizeOf (ser_pod key_u64) (crm_base t) + SizeOf es (crm_entry t) + 8 + 8 +
     of_nat (length (crm_map t) * 8) +
     (\<Sum>p\<leftarrow>crm_map t. SizeOf (ser_pod key_u64) (fst p) + CRM_SizeOf es (snd p))"
  by pat_completeness auto
termination
  by (relation "measure (\<lambda>(es, t). size t)") (auto simp: size_crm_mem)

declare CRM_SizeOf.simps [simp del]

function CRM_Write :: "'e serializer \<Rightarrow> (u64, 'e) ContainedRangeMap \<Rightarrow> out \<Rightarrow> out" where
  "CRM_Write es t out = (if snd out = 0 then (fst out, 0)
     else
       let out = Write (ser_pod key_u64) (crm_base t) out;
           out = Write (ser_pod key_u64) (SizeOf es (crm_entry t)) out;
           out = Write es (crm_entry t) out
       in write_map key_u64 (\<lambda>c out. CRM_Write es c out) (crm_map t) out)"
  by pat_completeness auto
termination
  by (relation "measure (\<lambda>(es, t, out). size t)") (auto simp: size_crm_mem)

declare CRM_Write.simps [simp del]

definition ContainedRangeMapSerializer :: "'e serializer \<Rightarrow> (u64, 'e) ContainedRangeMap serializer" where
  "ContainedRangeMapSerializer es = \<lparr>SizeOf = CRM_SizeOf es, Write = CRM_Write es\<rparr>"

section \<open>The map serializers keep the serializer contract\<close>

definition kv_bytes :: "'k keytype \<Rightarrow> ('v \<Rightarrow> u8 list) \<Rightarrow> ('k \<times> 'v) list \<Rightarrow> u8 list" where
  "kv_bytes K vb m = map_bytes K (map (\<lambda>p. (fst p, vb (snd p))) m)"

lemma length_kv_bytes_mem:
  assumes "p \<in> set m"
  shows "length (vb (snd p)) \<le> length (kv_bytes K vb m)"
proof -
  have "length (vb (snd p)) \<le> length (concat (map snd (map (\<lambda>p. (fst p, vb (snd p))) m)))"
    using assms by (induction m) auto
  then show ?thesis
    by (simp add: kv_bytes_def map_bytes_def)
qed

locale map_serializer = key_type K + serializer S bytes ok
  for K :: "'k::{linorder,zero} keytype" and S :: "'v serializer" and bytes :: "'v \<Rightarrow> u8 list" and ok :: "'v \<Rightarrow> bool"
begin

lemma StdMap_Write_eq:
  assumes "\<forall>p\<in>set m. ok (snd p)" "length (kv_bytes K bytes m) < 2 ^ 32" "region dest (length (kv_bytes K bytes m))"
  shows "StdMap_Write K S m (mem, dest) =
    (store mem dest (kv_bytes K bytes m), dest + of_nat (length (kv_bytes K bytes m)))"
proof -
  have "Write S (snd p) (mem, dest) = (store mem dest (bytes (snd p)), dest + of_nat (length (bytes (snd p))))"
    if "p \<in> set m" "region dest (length (bytes (snd p)))" for p mem dest
    by (rule Write_law) (use assms that length_kv_bytes_mem [OF that(1), of bytes K] in auto)
  then show ?thesis
    using write_map_eq [of m bytes "Write S" dest mem] assms(3)
    by (simp add: StdMap_Write_def kv_bytes_def)
qed

lemma StdMap_SizeOf_eq:
  assumes "\<forall>p\<in>set m. ok (snd p)" "length (kv_bytes K bytes m) < 2 ^ 32"
  shows "StdMap_SizeOf K S m = of_nat (length (kv_bytes K bytes m))"
proof -
  have "length (bytes (snd p)) < 2 ^ 32" if "p \<in> set m" for p
    using assms(2) length_kv_bytes_mem [OF that, of bytes K] by simp
  then have "(\<Sum>p\<leftarrow>m. SizeOf (ser_pod K) (fst p) + SizeOf S (snd p)) =
      of_nat (ksize K * length m + length (concat (map (\<lambda>p. bytes (snd p)) m)))"
    using assms(1) by (induction m) (auto simp: SizeOf_law ser_pod_def algebra_simps)
  then show ?thesis
    by (simp add: StdMap_SizeOf_def kv_bytes_def length_map_bytes header_bytes_def comp_def algebra_simps)
qed

sublocale std: serializer "StdMapSerializer K S" "kv_bytes K bytes" "\<lambda>m. \<forall>p\<in>set m. ok (snd p)"
  by unfold_locales (simp_all add: StdMapSerializer_def StdMap_Write_eq StdMap_SizeOf_eq)

end

definition rng_bytes :: "('e \<Rightarrow> u8 list) \<Rightarrow> (64, 'e) range_omap \<Rightarrow> u8 list" where
  "rng_bytes eb m = map_bytes key_u64 (range_bytes eb m)"

lemma rng_bytes_kv: "rng_bytes eb m = kv_bytes key_u64 (\<lambda>r. wr_u64 (r_base r) @ eb (r_entry r)) m"
  by (simp add: rng_bytes_def range_bytes_def kv_bytes_def)

lemma crm_bytes_kv:
  "crm_bytes eb t = wr_u64 (crm_base t) @ wr_u64 (of_nat (length (eb (crm_entry t)))) @ eb (crm_entry t) @
     kv_bytes key_u64 (crm_bytes eb) (crm_map t)"
  by (subst crm_bytes_unfold) (simp add: child_bytes_def kv_bytes_def)

text \<open>Every entry of a tree, its own and those below.\<close>

function crm_all :: "('e \<Rightarrow> bool) \<Rightarrow> ('a, 'e) ContainedRangeMap \<Rightarrow> bool" where
  "crm_all P t \<longleftrightarrow> P (crm_entry t) \<and> (\<forall>p\<in>set (crm_map t). crm_all P (snd p))"
  by pat_completeness auto
termination
  by (relation "measure (\<lambda>(P, t). size t)") (auto simp: size_crm_mem)

declare crm_all.simps [simp del]

lemma crm_allD:
  assumes "crm_all P t"
  shows "P (crm_entry t)" and "p \<in> set (crm_map t) \<Longrightarrow> crm_all P (snd p)"
  using assms by (auto simp: crm_all.simps [of P t])

lemma sum_list_sizes:
  "(\<Sum>p\<leftarrow>m. 8 + of_nat (length (f p))) = (of_nat (8 * length m + length (concat (map f m))) :: u64)"
  by (induction m) simp_all

lemma Write_pod_u64 [simp]:
  "Write (ser_pod key_u64) w (mem, dest) = (store mem dest (wr_u64 w), dest + 8)"
  "SizeOf (ser_pod key_u64) w = 8"
  by (simp_all add: ser_pod_def)

locale entry_serializer = serializer S bytes ok
  for S :: "'e serializer" and bytes :: "'e \<Rightarrow> u8 list" and ok :: "'e \<Rightarrow> bool"
begin

lemma Write_law':
  assumes "ok x" "length (bytes x) < 2 ^ 32" "region a (n + length (bytes x))"
  shows "Write S x (mem, a + of_nat n) = (store mem (a + of_nat n) (bytes x), a + of_nat (n + length (bytes x)))"
  using Write_law [OF assms(1,2) region_sub [OF assms(3)]] by (simp add: add.assoc)

lemma RangeMap_Write_eq:
  assumes "\<forall>p\<in>set m. ok (r_entry (snd p))" "length (rng_bytes bytes m) < 2 ^ 32" "region dest (length (rng_bytes bytes m))"
  shows "RangeMap_Write S m (mem, dest) =
    (store mem dest (rng_bytes bytes m), dest + of_nat (length (rng_bytes bytes m)))"
proof -
  let ?vb = "\<lambda>r. wr_u64 (r_base r) @ bytes (r_entry r)"
  have "Write S (r_entry (snd p)) (Write (ser_pod key_u64) (r_base (snd p)) (mem, dest)) =
      (store mem dest (?vb (snd p)), dest + of_nat (length (?vb (snd p))))"
    if "p \<in> set m" "region dest (length (?vb (snd p)))" for p mem dest
  proof -
    have "ok (r_entry (snd p))" "length (bytes (r_entry (snd p))) < 2 ^ 32"
      using assms(1,2) that(1) length_kv_bytes_mem [OF that(1), of ?vb key_u64] by (auto simp: rng_bytes_kv)
    then show ?thesis
      using Write_law' [of "r_entry (snd p)" dest 8] that(2) by (simp add: store_append add.assoc)
  qed
  then show ?thesis
    using key_u64.write_map_eq [of m ?vb "\<lambda>r out. Write S (r_entry r) (Write (ser_pod key_u64) (r_base r) out)" dest mem] assms(3)
    by (simp add: RangeMap_Write_def rng_bytes_kv kv_bytes_def)
qed

lemma RangeMap_SizeOf_eq:
  assumes "\<forall>p\<in>set m. ok (r_entry (snd p))" "length (rng_bytes bytes m) < 2 ^ 32"
  shows "RangeMap_SizeOf S m = of_nat (length (rng_bytes bytes m))"
proof -
  let ?vb = "\<lambda>r. wr_u64 (r_base r) @ bytes (r_entry r)"
  have "length (bytes (r_entry (snd p))) < 2 ^ 32" if "p \<in> set m" for p
    using assms(2) length_kv_bytes_mem [OF that, of ?vb key_u64] by (simp add: rng_bytes_kv)
  then have "(\<Sum>p\<leftarrow>m. SizeOf (ser_pod key_u64) (fst p) + SizeOf (ser_pod key_u64) (r_base (snd p)) + SizeOf S (r_entry (snd p))) =
      of_nat (8 * length m + length (concat (map (\<lambda>p. ?vb (snd p)) m)))"
    using assms(1) by (induction m) (auto simp: SizeOf_law algebra_simps)
  then show ?thesis
    by (simp add: RangeMap_SizeOf_def rng_bytes_def range_bytes_def key_u64.length_map_bytes header_bytes_def comp_def
        algebra_simps)
qed

sublocale range: serializer "RangeMapSerializer S" "rng_bytes bytes" "\<lambda>m. \<forall>p\<in>set m. ok (r_entry (snd p))"
  by unfold_locales (simp_all add: RangeMapSerializer_def RangeMap_Write_eq RangeMap_SizeOf_eq)

lemma CRM_Write_eq:
  assumes "crm_all ok t" "length (crm_bytes bytes t) < 2 ^ 32" "region dest (length (crm_bytes bytes t))"
  shows "CRM_Write S t (mem, dest) =
    (store mem dest (crm_bytes bytes t), dest + of_nat (length (crm_bytes bytes t)))"
  using assms
proof (induction "size t" arbitrary: t mem dest rule: less_induct)
  case less
  let ?e = "bytes (crm_entry t)"
  let ?n = "8 + 8 + length ?e"
  let ?m = "kv_bytes key_u64 (crm_bytes bytes) (crm_map t)"
  have len: "length (crm_bytes bytes t) = ?n + length ?m"
    by (subst crm_bytes_kv) simp
  have e: "ok (crm_entry t)" "length ?e < 2 ^ 32"
    using less.prems(2) crm_allD(1) [OF less.prems(1)] len by simp_all
  have rm: "region (dest + of_nat ?n) (length ?m)"
    by (rule region_sub [OF less.prems(3)]) (simp add: len)
  have child: "CRM_Write S (snd p) (mem, dest) =
      (store mem dest (crm_bytes bytes (snd p)), dest + of_nat (length (crm_bytes bytes (snd p))))"
    if p: "p \<in> set (crm_map t)" and "region dest (length (crm_bytes bytes (snd p)))" for p mem dest
    by (rule less.hyps [OF size_crm_mem [OF p] crm_allD(2) [OF less.prems(1) p] _ that(2)])
      (use less.prems(2) len length_kv_bytes_mem [OF p, of "crm_bytes bytes" key_u64] in simp)
  have map: "write_map key_u64 (\<lambda>c out. CRM_Write S c out) (crm_map t) (mem', dest + of_nat ?n) =
      (store mem' (dest + of_nat ?n) ?m, dest + of_nat ?n + of_nat (length ?m))" for mem'
    unfolding kv_bytes_def
    by (rule key_u64.write_map_eq, erule (1) child) (use rm in \<open>simp add: kv_bytes_def\<close>)
  have entry: "Write S (crm_entry t) (mem', dest + of_nat 16) = (store mem' (dest + of_nat 16) ?e, dest + of_nat (16 + length ?e))" for mem'
    by (rule Write_law' [OF e]) (use less.prems(3) len in \<open>simp add: region_def\<close>)
  have "dest \<noteq> 0"
    using less.prems(3) by simp
  then show ?case
    using map entry e
    by (subst CRM_Write.simps, subst crm_bytes_kv) (simp add: store_append SizeOf_law len add.assoc)
qed

lemma CRM_SizeOf_eq:
  assumes "crm_all ok t" "length (crm_bytes bytes t) < 2 ^ 32"
  shows "CRM_SizeOf S t = of_nat (length (crm_bytes bytes t))"
  using assms
proof (induction "size t" arbitrary: t rule: less_induct)
  case less
  let ?m = "kv_bytes key_u64 (crm_bytes bytes) (crm_map t)"
  have len: "length (crm_bytes bytes t) = 8 + 8 + length (bytes (crm_entry t)) + length ?m"
    by (subst crm_bytes_kv) simp
  have e: "SizeOf S (crm_entry t) = of_nat (length (bytes (crm_entry t)))"
    using less.prems(2) crm_allD(1) [OF less.prems(1)] len by (simp add: SizeOf_law)
  have child: "CRM_SizeOf S (snd p) = of_nat (length (crm_bytes bytes (snd p)))" if p: "p \<in> set (crm_map t)" for p
    by (rule less.hyps [OF size_crm_mem [OF p] crm_allD(2) [OF less.prems(1) p]])
      (use less.prems(2) len length_kv_bytes_mem [OF p, of "crm_bytes bytes" key_u64] in simp)
  have "(\<Sum>p\<leftarrow>crm_map t. SizeOf (ser_pod key_u64) (fst p) + CRM_SizeOf S (snd p)) =
      (\<Sum>p\<leftarrow>crm_map t. 8 + of_nat (length (crm_bytes bytes (snd p))))"
    by (rule arg_cong [where f = sum_list], rule map_cong [OF refl]) (simp add: child)
  also have "\<dots> = of_nat (8 * length (crm_map t) + length (concat (map (\<lambda>p. crm_bytes bytes (snd p)) (crm_map t))))"
    by (rule sum_list_sizes)
  finally show ?case
    by (subst CRM_SizeOf.simps)
      (simp add: e len kv_bytes_def key_u64.length_map_bytes header_bytes_def comp_def algebra_simps)
qed

sublocale contained: serializer "ContainedRangeMapSerializer S" "crm_bytes bytes" "crm_all ok"
  by unfold_locales (simp_all add: ContainedRangeMapSerializer_def CRM_Write_eq CRM_SizeOf_eq)

end

end
