(* ===== verification/Simple_Serializers.thy ===== *)
theory Simple_Serializers
  imports Map_Serializers Symbol_Types
begin

text \<open>
  processor/simple_serializer-inl.h: how each record of a symbol file is written, and that every one
  of these serializers keeps the serializer contract. Each record has its byte layout as a plain
  list, which the reading side is compared with.
\<close>

section \<open>Writing in sequence\<close>

text \<open>A write step that puts the given bytes at the destination and moves past them.\<close>

definition writes :: "(out \<Rightarrow> out) \<Rightarrow> u8 list \<Rightarrow> bool" where
  "writes w bs \<longleftrightarrow> (\<forall>mem dest. region dest (length bs) \<longrightarrow>
     w (mem, dest) = (store mem dest bs, dest + of_nat (length bs)))"

lemma writesD: "writes w bs \<Longrightarrow> region dest (length bs) \<Longrightarrow> w (mem, dest) = (store mem dest bs, dest + of_nat (length bs))"
  by (simp add: writes_def)

lemma writes_seq:
  assumes "writes v bs" "writes w cs"
  shows "writes (\<lambda>out. w (v out)) (bs @ cs)"
  unfolding writes_def
proof (intro allI impI)
  fix mem dest assume r: "region dest (length (bs @ cs))"
  then have "region dest (length bs)" "region (dest + of_nat (length bs)) (length cs)"
    using region_sub [OF r, of "length bs" "length cs"] by (simp_all add: region_def)
  then show "w (v (mem, dest)) = (store mem dest (bs @ cs), dest + of_nat (length (bs @ cs)))"
    using assms by (simp add: writes_def store_append add.assoc)
qed

lemma writes_id: "writes (\<lambda>out. out) []"
  by (simp add: writes_def)

text \<open>The form in which a sequence of writes is taken apart, last write first.\<close>

lemma writes_step:
  assumes "writes v bs" "writes (Write S x) cs"
  shows "writes (\<lambda>out. Write S x (v out)) (bs @ cs)"
  by (rule writes_seq [OF assms])

lemma writes_cong: "writes w bs \<Longrightarrow> bs = cs \<Longrightarrow> writes w cs"
  by simp

lemma writes_pod: "key_type K \<Longrightarrow> writes (Write (ser_pod K) x) (kwrite K x)"
  by (simp add: writes_def ser_pod_def key_type.length_kwrite)

context serializer
begin

lemma writes_Write: "ok x \<Longrightarrow> length (bytes x) < 2 ^ 32 \<Longrightarrow> writes (Write S x) (bytes x)"
  by (simp add: writes_def Write_law)

end

definition key_u32 :: "u32 keytype" where
  "key_u32 = \<lparr>ksize = 4, kwrite = wr_u32, kread = rd_u32, kvalid = (\<lambda>k. True)\<rparr>"

interpretation key_u32: key_type key_u32
  by unfold_locales (simp_all add: key_u32_def rd_u32_holds)

lemma key_u32_simps [simp]: "ksize key_u32 = 4" "kwrite key_u32 = wr_u32"
  by (simp_all add: key_u32_def)

lemmas writes_u64 = writes_pod [OF key_u64.key_type_axioms, simplified]
  and writes_u32 = writes_pod [OF key_u32.key_type_axioms, simplified]
  and writes_s32 = writes_pod [OF key_s32.key_type_axioms, simplified]

lemma SizeOf_pod [simp]: "SizeOf (ser_pod K) x = of_nat (ksize K)"
  by (simp add: ser_pod_def)

section \<open>bool, string\<close>

definition bool_bytes :: "bool \<Rightarrow> u8 list" where
  "bool_bytes b = [if b then 255 else 0]"

definition ser_bool :: "bool serializer" where
  "ser_bool = \<lparr>SizeOf = (\<lambda>b. 1), Write = (\<lambda>b (mem, dest). (mem(dest := (if b then 255 else 0)), dest + 1))\<rparr>"

definition bool_Read :: "memory \<Rightarrow> u64 \<Rightarrow> bool \<times> u64" where
  "bool_Read mem source = (if mem source = 0 then False else True, source + 1)"

text \<open>\<open>strcpy\<close> stops at the first terminator, the pointer moves by the size of the string.\<close>

definition cstr_bytes :: "string \<Rightarrow> u8 list" where
  "cstr_bytes s = bytes_of s @ [0]"

definition ser_string :: "string serializer" where
  "ser_string = \<lparr>SizeOf = (\<lambda>s. of_nat (length s) + 1),
     Write = (\<lambda>s (mem, dest). (store mem dest (cstr_bytes (takeWhile (\<lambda>c. c \<noteq> CHR 0x00) s)),
       dest + (of_nat (length s) + 1)))\<rparr>"

definition nul_free :: "string \<Rightarrow> bool" where
  "nul_free s \<longleftrightarrow> CHR 0x00 \<notin> set s"

lemma length_cstr_bytes [simp]: "length (cstr_bytes s) = Suc (length s)"
  by (simp add: cstr_bytes_def)

lemma length_bool_bytes [simp]: "length (bool_bytes b) = 1"
  by (simp add: bool_bytes_def)

lemma takeWhile_nul_free [simp]: "nul_free s \<Longrightarrow> takeWhile (\<lambda>c. c \<noteq> CHR 0x00) s = s"
  by (auto simp: nul_free_def takeWhile_eq_all_conv)

interpretation ser_bool: entry_serializer ser_bool bool_bytes "\<lambda>b. True"
  by unfold_locales (simp_all add: ser_bool_def bool_bytes_def)

interpretation ser_string: entry_serializer ser_string cstr_bytes nul_free
  by unfold_locales (simp_all add: ser_string_def add.commute)

lemma writes_bool: "writes (Write ser_bool b) (bool_bytes b)"
  by (rule ser_bool.writes_Write) simp_all

lemma writes_string: "nul_free s \<Longrightarrow> writes (Write ser_string s) (cstr_bytes s)"
  by (simp add: writes_def ser_string_def add.commute)

lemma SizeOf_bool_string [simp]: "SizeOf ser_bool b = 1" "SizeOf ser_string s = of_nat (length s) + 1"
  by (simp_all add: ser_bool_def ser_string_def)

lemma bool_Read_holds: "holds mem a (bool_bytes b) \<Longrightarrow> bool_Read mem a = (b, a + 1)"
  by (auto simp: bool_Read_def bool_bytes_def holds_Cons split: if_splits)

section \<open>linked_ptr\<close>

definition ser_linked :: "'a serializer \<Rightarrow> 'a option serializer" where
  "ser_linked S = \<lparr>
     SizeOf = (\<lambda>p. case p of None \<Rightarrow> 0 | Some x \<Rightarrow> SizeOf S x),
     Write = (\<lambda>p out. case p of None \<Rightarrow> out | Some x \<Rightarrow> Write S x out)\<rparr>"

definition linked_bytes :: "('a \<Rightarrow> u8 list) \<Rightarrow> 'a option \<Rightarrow> u8 list" where
  "linked_bytes eb p = (case p of None \<Rightarrow> [] | Some x \<Rightarrow> eb x)"

definition linked_ok :: "('a \<Rightarrow> bool) \<Rightarrow> 'a option \<Rightarrow> bool" where
  "linked_ok P p = (case p of None \<Rightarrow> True | Some x \<Rightarrow> P x)"

lemma linked_simps [simp]:
  "linked_bytes eb None = []" "linked_bytes eb (Some x) = eb x"
  "linked_ok P None" "linked_ok P (Some x) \<longleftrightarrow> P x"
  by (simp_all add: linked_bytes_def linked_ok_def)

lemma entry_serializer_linked:
  assumes "entry_serializer S bytes ok"
  shows "entry_serializer (ser_linked S) (linked_bytes bytes) (linked_ok ok)"
  using assms
  by (auto simp: entry_serializer_def serializer_def ser_linked_def linked_bytes_def linked_ok_def split: option.splits)

section \<open>Line, InlineOrigin, PublicSymbol\<close>

definition Line_SizeOf :: "Line \<Rightarrow> u64" where
  "Line_SizeOf l = SizeOf (ser_pod key_u64) (l_address l) + SizeOf (ser_pod key_u64) (l_size l) +
     SizeOf (ser_pod key_s32) (l_source_file_id l) + SizeOf (ser_pod key_s32) (l_line l)"

definition Line_Write :: "Line \<Rightarrow> out \<Rightarrow> out" where
  "Line_Write l out =
     (let out = Write (ser_pod key_u64) (l_address l) out;
          out = Write (ser_pod key_u64) (l_size l) out;
          out = Write (ser_pod key_s32) (l_source_file_id l) out;
          out = Write (ser_pod key_s32) (l_line l) out
      in out)"

definition ser_Line :: "Line serializer" where
  "ser_Line = \<lparr>SizeOf = Line_SizeOf, Write = Line_Write\<rparr>"

definition line_bytes :: "Line \<Rightarrow> u8 list" where
  "line_bytes l = wr_u64 (l_address l) @ wr_u64 (l_size l) @ wr_s32 (l_source_file_id l) @ wr_s32 (l_line l)"

lemmas writes_rules = writes_u64 writes_u32 writes_s32 writes_bool writes_string writes_step

lemma writes_Line: "writes (Line_Write l) (line_bytes l)"
  unfolding Line_Write_def Let_def
  by (rule writes_cong, (rule writes_rules)+) (simp add: line_bytes_def)

interpretation ser_Line: entry_serializer ser_Line line_bytes "\<lambda>l. True"
  using writes_Line by unfold_locales (auto simp: ser_Line_def Line_SizeOf_def line_bytes_def writes_def)

definition InlineOrigin_SizeOf :: "InlineOrigin \<Rightarrow> u64" where
  "InlineOrigin_SizeOf x = SizeOf ser_bool (o_has_file_id x) +
     SizeOf (ser_pod key_s32) (o_source_file_id x) + SizeOf ser_string (o_name x)"

definition InlineOrigin_Write :: "InlineOrigin \<Rightarrow> out \<Rightarrow> out" where
  "InlineOrigin_Write x out =
     (let out = Write ser_bool (o_has_file_id x) out;
          out = Write (ser_pod key_s32) (o_source_file_id x) out;
          out = Write ser_string (o_name x) out
      in out)"

definition ser_InlineOrigin :: "InlineOrigin serializer" where
  "ser_InlineOrigin = \<lparr>SizeOf = InlineOrigin_SizeOf, Write = InlineOrigin_Write\<rparr>"

definition origin_bytes :: "InlineOrigin \<Rightarrow> u8 list" where
  "origin_bytes x = bool_bytes (o_has_file_id x) @ wr_s32 (o_source_file_id x) @ cstr_bytes (o_name x)"

lemma writes_InlineOrigin: "nul_free (o_name x) \<Longrightarrow> writes (InlineOrigin_Write x) (origin_bytes x)"
  unfolding InlineOrigin_Write_def Let_def
  by (rule writes_cong, (rule writes_rules | assumption)+) (simp add: origin_bytes_def)

interpretation ser_InlineOrigin: entry_serializer ser_InlineOrigin origin_bytes "\<lambda>x. nul_free (o_name x)"
  using writes_InlineOrigin
  by unfold_locales (auto simp: ser_InlineOrigin_def InlineOrigin_SizeOf_def origin_bytes_def writes_def)

definition PublicSymbol_SizeOf :: "PublicSymbol \<Rightarrow> u64" where
  "PublicSymbol_SizeOf x = SizeOf ser_string (p_name x) + SizeOf (ser_pod key_u64) (p_address x) +
     SizeOf (ser_pod key_s32) (p_parameter_size x) + SizeOf ser_bool (p_is_multiple x)"

definition PublicSymbol_Write :: "PublicSymbol \<Rightarrow> out \<Rightarrow> out" where
  "PublicSymbol_Write x out =
     (let out = Write ser_string (p_name x) out;
          out = Write (ser_pod key_u64) (p_address x) out;
          out = Write (ser_pod key_s32) (p_parameter_size x) out;
          out = Write ser_bool (p_is_multiple x) out
      in out)"

definition ser_PublicSymbol :: "PublicSymbol serializer" where
  "ser_PublicSymbol = \<lparr>SizeOf = PublicSymbol_SizeOf, Write = PublicSymbol_Write\<rparr>"

definition public_bytes :: "PublicSymbol \<Rightarrow> u8 list" where
  "public_bytes x = cstr_bytes (p_name x) @ wr_u64 (p_address x) @ wr_s32 (p_parameter_size x) @
     bool_bytes (p_is_multiple x)"

lemma writes_PublicSymbol: "nul_free (p_name x) \<Longrightarrow> writes (PublicSymbol_Write x) (public_bytes x)"
  unfolding PublicSymbol_Write_def Let_def
  by (rule writes_cong, (rule writes_rules | assumption)+) (simp add: public_bytes_def)

interpretation ser_PublicSymbol: entry_serializer ser_PublicSymbol public_bytes "\<lambda>x. nul_free (p_name x)"
  using writes_PublicSymbol
  by unfold_locales (auto simp: ser_PublicSymbol_def PublicSymbol_SizeOf_def public_bytes_def writes_def)

section \<open>WindowsFrameInfo\<close>

text \<open>The size is summed in an \<open>unsigned int\<close>.\<close>

definition WindowsFrameInfo_SizeOf :: "WindowsFrameInfo \<Rightarrow> u64" where
  "WindowsFrameInfo_SizeOf w = ucast ((4 :: u32) + ucast (SizeOf (ser_pod key_s32) (w_valid w)) +
     ucast (SizeOf (ser_pod key_u32) (prolog_size w)) + ucast (SizeOf (ser_pod key_u32) (epilog_size w)) +
     ucast (SizeOf (ser_pod key_u32) (w_parameter_size w)) +
     ucast (SizeOf (ser_pod key_u32) (saved_register_size w)) +
     ucast (SizeOf (ser_pod key_u32) (local_size w)) + ucast (SizeOf (ser_pod key_u32) (max_stack_size w)) +
     ucast (SizeOf ser_bool (allocates_base_pointer w)) + ucast (SizeOf ser_string (program_string w)))"

definition WindowsFrameInfo_Write :: "WindowsFrameInfo \<Rightarrow> out \<Rightarrow> out" where
  "WindowsFrameInfo_Write w out =
     (let out = Write (ser_pod key_s32) (stack_info_index (w_type w)) out;
          out = Write (ser_pod key_s32) (w_valid w) out;
          out = Write (ser_pod key_u32) (prolog_size w) out;
          out = Write (ser_pod key_u32) (epilog_size w) out;
          out = Write (ser_pod key_u32) (w_parameter_size w) out;
          out = Write (ser_pod key_u32) (saved_register_size w) out;
          out = Write (ser_pod key_u32) (local_size w) out;
          out = Write (ser_pod key_u32) (max_stack_size w) out;
          out = Write ser_bool (allocates_base_pointer w) out
      in Write ser_string (program_string w) out)"

definition ser_WindowsFrameInfo :: "WindowsFrameInfo serializer" where
  "ser_WindowsFrameInfo = \<lparr>SizeOf = WindowsFrameInfo_SizeOf, Write = WindowsFrameInfo_Write\<rparr>"

definition wfi_bytes :: "WindowsFrameInfo \<Rightarrow> u8 list" where
  "wfi_bytes w = wr_s32 (stack_info_index (w_type w)) @ wr_s32 (w_valid w) @ wr_u32 (prolog_size w) @
     wr_u32 (epilog_size w) @ wr_u32 (w_parameter_size w) @ wr_u32 (saved_register_size w) @
     wr_u32 (local_size w) @ wr_u32 (max_stack_size w) @ bool_bytes (allocates_base_pointer w) @
     cstr_bytes (program_string w)"

lemma writes_WindowsFrameInfo: "nul_free (program_string w) \<Longrightarrow> writes (WindowsFrameInfo_Write w) (wfi_bytes w)"
  unfolding WindowsFrameInfo_Write_def Let_def
  by (rule writes_cong, (rule writes_rules | assumption)+) (simp add: wfi_bytes_def)

lemma ucast_simps:
  "(ucast (of_nat n + 1 :: u64) :: u32) = of_nat n + 1"
  "(ucast (of_nat n :: u64) :: u32) = of_nat n"
  by (transfer, simp add: take_bit_take_bit)+

interpretation ser_WindowsFrameInfo:
  entry_serializer ser_WindowsFrameInfo wfi_bytes "\<lambda>w. nul_free (program_string w)"
proof unfold_locales
  fix w :: WindowsFrameInfo and dest mem
  assume n: "nul_free (program_string w)" and len: "length (wfi_bytes w) < 2 ^ 32"
  show "SizeOf ser_WindowsFrameInfo w = of_nat (length (wfi_bytes w))"
    using len ucast_u32_of_nat [of "length (wfi_bytes w)"]
    by (simp add: ser_WindowsFrameInfo_def WindowsFrameInfo_SizeOf_def wfi_bytes_def ucast_simps)
  assume "region dest (length (wfi_bytes w))"
  then show "Write ser_WindowsFrameInfo w (mem, dest) = (store mem dest (wfi_bytes w), dest + of_nat (length (wfi_bytes w)))"
    using writes_WindowsFrameInfo [OF n] by (simp add: ser_WindowsFrameInfo_def writes_def)
qed

section \<open>Inline\<close>

definition Inline_SizeOf :: "Inline \<Rightarrow> u64" where
  "Inline_SizeOf x = SizeOf ser_bool (has_call_site_file_id x) + SizeOf (ser_pod key_s32) (inline_nest_level x) +
     SizeOf (ser_pod key_s32) (call_site_line x) + SizeOf (ser_pod key_s32) (call_site_file_id x) +
     SizeOf (ser_pod key_s32) (origin_id x) + 4 + of_nat (length (inline_ranges x) * 8 * 2)"

primrec inline_ranges_Write :: "(u64 \<times> u64) list \<Rightarrow> out \<Rightarrow> out" where
  "inline_ranges_Write [] out = out"
| "inline_ranges_Write (r # rs) out =
     (let out = Write (ser_pod key_u64) (fst r) out;
          out = Write (ser_pod key_u64) (snd r) out
      in inline_ranges_Write rs out)"

definition Inline_Write :: "Inline \<Rightarrow> out \<Rightarrow> out" where
  "Inline_Write x out =
     (let out = Write ser_bool (has_call_site_file_id x) out;
          out = Write (ser_pod key_s32) (inline_nest_level x) out;
          out = Write (ser_pod key_s32) (call_site_line x) out;
          out = Write (ser_pod key_s32) (call_site_file_id x) out;
          out = Write (ser_pod key_s32) (origin_id x) out;
          out = Write (ser_pod key_s32) (int (length (inline_ranges x))) out
      in inline_ranges_Write (inline_ranges x) out)"

definition ser_Inline :: "Inline serializer" where
  "ser_Inline = \<lparr>SizeOf = Inline_SizeOf, Write = Inline_Write\<rparr>"

definition ranges_bytes :: "(u64 \<times> u64) list \<Rightarrow> u8 list" where
  "ranges_bytes rs = concat (map (\<lambda>r. wr_u64 (fst r) @ wr_u64 (snd r)) rs)"

definition inline_bytes :: "Inline \<Rightarrow> u8 list" where
  "inline_bytes x = bool_bytes (has_call_site_file_id x) @ wr_s32 (inline_nest_level x) @
     wr_s32 (call_site_line x) @ wr_s32 (call_site_file_id x) @ wr_s32 (origin_id x) @
     wr_s32 (int (length (inline_ranges x))) @ ranges_bytes (inline_ranges x)"

lemma writes_ranges: "writes (inline_ranges_Write rs) (ranges_bytes rs)"
proof (induction rs)
  case Nil
  then show ?case
    by (simp add: writes_def ranges_bytes_def)
next
  case (Cons r rs)
  have "writes (\<lambda>out. inline_ranges_Write rs (Write (ser_pod key_u64) (snd r) (Write (ser_pod key_u64) (fst r) out)))
      ((wr_u64 (fst r) @ wr_u64 (snd r)) @ ranges_bytes rs)"
    by (rule writes_seq [OF _ Cons.IH]) (rule writes_rules)+
  then show ?case
    by (simp add: ranges_bytes_def Let_def)
qed

lemma length_ranges_bytes [simp]: "length (ranges_bytes rs) = 16 * length rs"
  by (simp add: ranges_bytes_def length_concat_const [where n = 16])

lemma writes_Inline: "writes (Inline_Write x) (inline_bytes x)"
proof -
  have "writes (\<lambda>out. Write (ser_pod key_s32) (int (length (inline_ranges x)))
      (Write (ser_pod key_s32) (origin_id x) (Write (ser_pod key_s32) (call_site_file_id x)
      (Write (ser_pod key_s32) (call_site_line x) (Write (ser_pod key_s32) (inline_nest_level x)
      (Write ser_bool (has_call_site_file_id x) out))))))
    (bool_bytes (has_call_site_file_id x) @ wr_s32 (inline_nest_level x) @
     wr_s32 (call_site_line x) @ wr_s32 (call_site_file_id x) @ wr_s32 (origin_id x) @
     wr_s32 (int (length (inline_ranges x))))"
    by (rule writes_cong, (rule writes_rules)+) simp
  from writes_seq [OF this writes_ranges [of "inline_ranges x"]]
  have "writes (Inline_Write x) (bool_bytes (has_call_site_file_id x) @ wr_s32 (inline_nest_level x) @
     wr_s32 (call_site_line x) @ wr_s32 (call_site_file_id x) @ wr_s32 (origin_id x) @
     wr_s32 (int (length (inline_ranges x))) @ ranges_bytes (inline_ranges x))"
    by (simp add: Inline_Write_def [abs_def] Let_def)
  then show ?thesis
    by (simp add: inline_bytes_def)
qed

interpretation ser_Inline: entry_serializer ser_Inline inline_bytes "\<lambda>x. True"
  using writes_Inline by unfold_locales (auto simp: ser_Inline_def Inline_SizeOf_def inline_bytes_def writes_def)

section \<open>Function\<close>

text \<open>
  The size of the serialized inlines goes into a slot of four bytes in front of them, but it is
  written, after them, as a value of eight bytes: the upper half lands on the first bytes of the
  inlines, the base of the root.
\<close>

definition Function_SizeOf :: "Function \<Rightarrow> u64" where
  "Function_SizeOf f = ucast (ucast (SizeOf ser_string (f_name f)) + ucast (SizeOf (ser_pod key_u64) (f_address f)) +
     ucast (SizeOf (ser_pod key_u64) (f_size f)) + ucast (SizeOf (ser_pod key_s32) (f_parameter_size f)) +
     ucast (SizeOf ser_bool (f_is_multiple f)) + 4 +
     ucast (SizeOf (ContainedRangeMapSerializer (ser_linked ser_Inline)) (f_inlines f)) +
     ucast (SizeOf (RangeMapSerializer (ser_linked ser_Line)) (rm_map (f_lines f))) :: u32)"

definition Function_Write :: "Function \<Rightarrow> out \<Rightarrow> out" where
  "Function_Write f out =
     (let out = Write ser_string (f_name f) out;
          out = Write (ser_pod key_u64) (f_address f) out;
          out = Write (ser_pod key_u64) (f_size f) out;
          out = Write (ser_pod key_s32) (f_parameter_size f) out;
          out = Write ser_bool (f_is_multiple f) out;
          old_dest = snd out;
          (mem, dest) = Write (ContainedRangeMapSerializer (ser_linked ser_Inline)) (f_inlines f) (fst out, old_dest + 4);
          (mem, _) = Write (ser_pod key_u64) (dest - old_dest - 4) (mem, old_dest)
      in Write (RangeMapSerializer (ser_linked ser_Line)) (rm_map (f_lines f)) (mem, dest))"

definition ser_Function :: "Function serializer" where
  "ser_Function = \<lparr>SizeOf = Function_SizeOf, Write = Function_Write\<rparr>"

definition inlines_bytes :: "Function \<Rightarrow> u8 list" where
  "inlines_bytes f = crm_bytes (linked_bytes inline_bytes) (f_inlines f)"

definition function_bytes :: "Function \<Rightarrow> u8 list" where
  "function_bytes f = cstr_bytes (f_name f) @ wr_u64 (f_address f) @ wr_u64 (f_size f) @
     wr_s32 (f_parameter_size f) @ bool_bytes (f_is_multiple f) @
     wr_u32 (of_nat (length (inlines_bytes f))) @ inlines_bytes f @
     rng_bytes (linked_bytes line_bytes) (rm_map (f_lines f))"

text \<open>What makes the overlapping write harmless: the base of the root of the inlines is 0.\<close>

definition function_ok :: "Function \<Rightarrow> bool" where
  "function_ok f \<longleftrightarrow> nul_free (f_name f) \<and> crm_base (f_inlines f) = 0"

lemma crm_all_trivial [simp]: "crm_all (linked_ok (\<lambda>x. True)) t"
  by (induction "size t" arbitrary: t rule: less_induct)
    (subst crm_all.simps, auto simp: linked_ok_def size_crm_mem split: option.splits)

interpretation ser_linked_Inline: entry_serializer "ser_linked ser_Inline" "linked_bytes inline_bytes" "linked_ok (\<lambda>x. True)"
  by (rule entry_serializer_linked) (rule ser_Inline.entry_serializer_axioms)

interpretation ser_linked_Line: entry_serializer "ser_linked ser_Line" "linked_bytes line_bytes" "linked_ok (\<lambda>x. True)"
  by (rule entry_serializer_linked) (rule ser_Line.entry_serializer_axioms)

lemma store_overlap:
  assumes "length w + length z + length q \<le> 2 ^ 64"
  shows "store (store mem (a + of_nat (length w)) (z @ q)) a (w @ z) = store mem a (w @ z @ q)"
proof
  fix x
  have "store X a ys x = (if unat (x - a) < length ys then ys ! unat (x - a) else X x)"
    if "length ys \<le> 2 ^ 64" for X ys
    using store_at_offset [of 0 ys X a x] that by simp
  then show "store (store mem (a + of_nat (length w)) (z @ q)) a (w @ z) x = store mem a (w @ z @ q) x"
    using assms store_at_offset [of "length w" "z @ q" mem a x] by (auto simp: nth_append)
qed

lemma wr_u64_small: "n < 2 ^ 32 \<Longrightarrow> wr_u64 (of_nat n) = wr_u32 (of_nat n) @ replicate 4 0"
  using le_bytes_add [of 4 4 n] by (simp add: wr_u64_def wr_u32_def unat_of_nat le_bytes_0)

definition function_head :: "Function \<Rightarrow> u8 list" where
  "function_head f = cstr_bytes (f_name f) @ wr_u64 (f_address f) @ wr_u64 (f_size f) @
     wr_s32 (f_parameter_size f) @ bool_bytes (f_is_multiple f)"

lemma writes_function_head:
  assumes "nul_free (f_name f)"
  shows "writes (\<lambda>out. Write ser_bool (f_is_multiple f) (Write (ser_pod key_s32) (f_parameter_size f)
    (Write (ser_pod key_u64) (f_size f) (Write (ser_pod key_u64) (f_address f) (Write ser_string (f_name f) out)))))
    (function_head f)"
  by (rule writes_cong, (rule writes_rules assms)+) (simp add: function_head_def)

lemma Function_Write_eq:
  assumes ok: "function_ok f" and len: "length (function_bytes f) < 2 ^ 32" and rg: "region dest (length (function_bytes f))"
  shows "Function_Write f (mem, dest) = (store mem dest (function_bytes f), dest + of_nat (length (function_bytes f)))"
proof -
  let ?h = "function_head f"
  let ?b = "inlines_bytes f"
  let ?l = "rng_bytes (linked_bytes line_bytes) (rm_map (f_lines f))"
  have fb: "function_bytes f = ?h @ wr_u32 (of_nat (length ?b)) @ ?b @ ?l"
    by (simp add: function_bytes_def function_head_def)
  have lens: "length ?b < 2 ^ 32" "length ?l < 2 ^ 32" "length ?h + 4 + length ?b + length ?l = length (function_bytes f)"
    using len by (simp_all add: fb)
  obtain q where q: "?b = replicate 4 0 @ q"
  proof
    have z: "wr_u64 0 = replicate 4 0 @ replicate 4 0"
      using le_bytes_add [of 4 4 0] by (simp add: wr_u64_def le_bytes_0)
    show "?b = replicate 4 0 @ replicate 4 0 @ wr_u64 (of_nat (length (linked_bytes inline_bytes (crm_entry (f_inlines f))))) @
        linked_bytes inline_bytes (crm_entry (f_inlines f)) @
        kv_bytes key_u64 (crm_bytes (linked_bytes inline_bytes)) (crm_map (f_inlines f))"
      using ok by (simp add: inlines_bytes_def crm_bytes_kv [of _ "f_inlines f"] function_ok_def z)
  qed
  define d where "d = dest + of_nat (length ?h)"
  have r1: "region dest (length ?h)"
    using rg by (simp add: region_def fb)
  have r2: "region (d + of_nat 4) (length ?b)"
    unfolding d_def using region_sub [OF rg, of "length ?h + 4" "length ?b"] lens(3) by (simp add: add.assoc)
  have r3: "region (d + of_nat (4 + length ?b)) (length ?l)"
    unfolding d_def using region_sub [OF rg, of "length ?h + (4 + length ?b)" "length ?l"] lens(3) by (simp add: add.assoc)
  have head: "Write ser_bool (f_is_multiple f) (Write (ser_pod key_s32) (f_parameter_size f)
    (Write (ser_pod key_u64) (f_size f) (Write (ser_pod key_u64) (f_address f) (Write ser_string (f_name f) (mem, dest))))) =
    (store mem dest ?h, d)"
    using writesD [OF writes_function_head r1, of mem] ok by (simp add: function_ok_def d_def)
  have inl: "Write (ContainedRangeMapSerializer (ser_linked ser_Inline)) (f_inlines f) (m, d + 4) =
      (store m (d + 4) ?b, d + of_nat (4 + length ?b))" for m
    using ser_linked_Inline.contained.Write_law [of "f_inlines f" "d + 4" m] lens(1) r2
    by (simp add: inlines_bytes_def add.assoc)
  have slot: "store (store m (d + 4) ?b) d (wr_u64 (of_nat (length ?b))) = store m d (wr_u32 (of_nat (length ?b)) @ ?b)" for m
    using store_overlap [of "wr_u32 (of_nat (length ?b))" "replicate 4 0" q m d] lens(1) q wr_u64_small [of "length ?b"]
    by simp
  have lines: "Write (RangeMapSerializer (ser_linked ser_Line)) (rm_map (f_lines f)) (m, d + of_nat (4 + length ?b)) =
      (store m (d + of_nat (4 + length ?b)) ?l, d + of_nat (4 + length ?b + length ?l))" for m
    using ser_linked_Line.range.Write_law [of "rm_map (f_lines f)" "d + of_nat (4 + length ?b)" m] lens(2) r3
    by (simp add: linked_ok_def add.assoc split: option.splits)
  have "d + of_nat (4 + length ?b) - d - 4 = of_nat (length ?b)"
    by simp
  then have "Function_Write f (mem, dest) =
      (store (store (store mem dest ?h) d (wr_u32 (of_nat (length ?b)) @ ?b)) (d + of_nat (4 + length ?b)) ?l,
       d + of_nat (4 + length ?b + length ?l))"
    by (simp add: Function_Write_def head inl slot lines Let_def del: of_nat_add)
  also have "\<dots> = (store mem dest (function_bytes f), dest + of_nat (length (function_bytes f)))"
    by (simp add: fb store_append d_def add.assoc)
  finally show ?thesis .
qed

lemma Function_SizeOf_eq:
  assumes len: "length (function_bytes f) < 2 ^ 32"
  shows "Function_SizeOf f = of_nat (length (function_bytes f))"
proof -
  let ?b = "inlines_bytes f"
  let ?l = "rng_bytes (linked_bytes line_bytes) (rm_map (f_lines f))"
  have lens: "length ?b < 2 ^ 32" "length ?l < 2 ^ 32"
    using len by (simp_all add: function_bytes_def)
  have "SizeOf (ContainedRangeMapSerializer (ser_linked ser_Inline)) (f_inlines f) = of_nat (length ?b)"
    using ser_linked_Inline.contained.SizeOf_law [of "f_inlines f"] lens(1) by (simp add: inlines_bytes_def)
  moreover have "SizeOf (RangeMapSerializer (ser_linked ser_Line)) (rm_map (f_lines f)) = of_nat (length ?l)"
    using ser_linked_Line.range.SizeOf_law [of "rm_map (f_lines f)"] lens(2) by (simp add: linked_ok_def split: option.splits)
  ultimately have "Function_SizeOf f = ucast (of_nat (length (function_bytes f)) :: u32)"
    by (simp add: Function_SizeOf_def ucast_simps function_bytes_def add.assoc) (simp only: add.left_commute)
  then show ?thesis
    by (simp add: ucast_u32_of_nat [OF len])
qed

interpretation ser_Function: entry_serializer ser_Function function_bytes function_ok
  by unfold_locales (simp_all add: ser_Function_def Function_Write_eq Function_SizeOf_eq)

end
