(* ===== verification/Module_Serializer.thy ===== *)
theory Module_Serializer
  imports Simple_Serializers
begin

text \<open>
  processor/module_serializer.cc: a module of the basic resolver written into one block of memory,
  a flag, the sizes of its eleven maps, the maps one after the other and a terminator.
\<close>

definition kNumberMaps :: nat where
  "kNumberMaps = 6 + 5"

abbreviation "files_serializer \<equiv> StdMapSerializer key_s32 ser_string"
abbreviation "functions_serializer \<equiv> RangeMapSerializer (ser_linked ser_Function)"
abbreviation "pubsym_serializer \<equiv> AddressMapSerializer (ser_linked ser_PublicSymbol)"
abbreviation "wfi_serializer \<equiv> ContainedRangeMapSerializer (ser_linked ser_WindowsFrameInfo)"
abbreviation "cfi_init_rules_serializer \<equiv> RangeMapSerializer ser_string"
abbreviation "cfi_delta_rules_serializer \<equiv> StdMapSerializer key_u64 ser_string"
abbreviation "inline_origin_serializer \<equiv> StdMapSerializer key_s32 (ser_linked ser_InlineOrigin)"

text \<open>The member array \<open>map_sizes_\<close>, as \<open>SizeOf\<close> leaves it for \<open>Write\<close>.\<close>

definition map_sizes :: "Module \<Rightarrow> u64 list" where
  "map_sizes m = [SizeOf files_serializer (m_files m),
     SizeOf functions_serializer (rm_map (m_functions m)),
     SizeOf pubsym_serializer (m_public_symbols m)] @
     map (SizeOf wfi_serializer) (m_windows_frame_info m) @
     [SizeOf cfi_init_rules_serializer (rm_map (m_cfi_initial_rules m)),
      SizeOf cfi_delta_rules_serializer (m_cfi_delta_rules m),
      SizeOf inline_origin_serializer (m_inline_origins m)]"

definition Module_SizeOf :: "Module \<Rightarrow> u64" where
  "Module_SizeOf m = SizeOf ser_bool (m_is_corrupt m) + of_nat (kNumberMaps * 8) + sum_list (map_sizes m) + 1"

primrec write_each :: "'a serializer \<Rightarrow> 'a list \<Rightarrow> out \<Rightarrow> out" where
  "write_each S [] out = out"
| "write_each S (x # xs) out = write_each S xs (Write S x out)"

definition copy_sizes :: "u64 list \<Rightarrow> out \<Rightarrow> out" where
  "copy_sizes sizes out = (store (fst out) (snd out) (concat (map wr_u64 sizes)), snd out + of_nat (kNumberMaps * 8))"

definition write_terminator :: "out \<Rightarrow> out" where
  "write_terminator out = ((fst out)(snd out := 0), snd out + 1)"

definition Module_Write :: "u64 list \<Rightarrow> Module \<Rightarrow> out \<Rightarrow> out" where
  "Module_Write sizes m out =
     (let out = Write ser_bool (m_is_corrupt m) out;
          out = copy_sizes sizes out;
          out = Write files_serializer (m_files m) out;
          out = Write functions_serializer (rm_map (m_functions m)) out;
          out = Write pubsym_serializer (m_public_symbols m) out;
          out = write_each wfi_serializer (m_windows_frame_info m) out;
          out = Write cfi_init_rules_serializer (rm_map (m_cfi_initial_rules m)) out;
          out = Write cfi_delta_rules_serializer (m_cfi_delta_rules m) out;
          out = Write inline_origin_serializer (m_inline_origins m) out
      in write_terminator out)"

text \<open>
  The allocation is the argument \<open>serialized_data\<close>, 0 when it fails; a difference between the size
  allocated and the size written is only logged.
\<close>

definition Module_Serialize :: "Module \<Rightarrow> u64 \<Rightarrow> memory \<Rightarrow> memory \<times> u64 \<times> u64" where
  "Module_Serialize m serialized_data mem =
     (let size_to_alloc = Module_SizeOf m in
      if serialized_data = 0 then (mem, 0, 0)
      else (fst (Module_Write (map_sizes m) m (mem, serialized_data)), serialized_data, size_to_alloc))"

section \<open>The bytes of a module\<close>

definition module_maps :: "Module \<Rightarrow> u8 list list" where
  "module_maps m = [kv_bytes key_s32 cstr_bytes (m_files m),
     rng_bytes (linked_bytes function_bytes) (rm_map (m_functions m)),
     kv_bytes key_u64 (linked_bytes public_bytes) (m_public_symbols m)] @
     map (crm_bytes (linked_bytes wfi_bytes)) (m_windows_frame_info m) @
     [rng_bytes cstr_bytes (rm_map (m_cfi_initial_rules m)),
      kv_bytes key_u64 cstr_bytes (m_cfi_delta_rules m),
      kv_bytes key_s32 (linked_bytes origin_bytes) (m_inline_origins m)]"

definition module_bytes :: "Module \<Rightarrow> u8 list" where
  "module_bytes m = bool_bytes (m_is_corrupt m) @ concat (map (\<lambda>bs. wr_u64 (of_nat (length bs))) (module_maps m)) @
     concat (module_maps m) @ [0]"

text \<open>The modules that can be serialized: no terminator inside a string, five maps of frame data.\<close>

definition module_ok :: "Module \<Rightarrow> bool" where
  "module_ok m \<longleftrightarrow> length (m_windows_frame_info m) = 5 \<and>
     (\<forall>p\<in>set (m_files m). nul_free (snd p)) \<and>
     (\<forall>p\<in>set (rm_map (m_functions m)). linked_ok function_ok (r_entry (snd p))) \<and>
     (\<forall>p\<in>set (m_public_symbols m). linked_ok (\<lambda>x. nul_free (p_name x)) (snd p)) \<and>
     (\<forall>t\<in>set (m_windows_frame_info m). crm_all (linked_ok (\<lambda>w. nul_free (program_string w))) t) \<and>
     (\<forall>p\<in>set (rm_map (m_cfi_initial_rules m)). nul_free (r_entry (snd p))) \<and>
     (\<forall>p\<in>set (m_cfi_delta_rules m). nul_free (snd p)) \<and>
     (\<forall>p\<in>set (m_inline_origins m). linked_ok (\<lambda>x. nul_free (o_name x)) (snd p))"

interpretation ser_linked_Function: entry_serializer "ser_linked ser_Function" "linked_bytes function_bytes" "linked_ok function_ok"
  by (rule entry_serializer_linked) (rule ser_Function.entry_serializer_axioms)

interpretation ser_linked_PublicSymbol: entry_serializer "ser_linked ser_PublicSymbol" "linked_bytes public_bytes"
    "linked_ok (\<lambda>x. nul_free (p_name x))"
  by (rule entry_serializer_linked) (rule ser_PublicSymbol.entry_serializer_axioms)

interpretation ser_linked_WindowsFrameInfo: entry_serializer "ser_linked ser_WindowsFrameInfo" "linked_bytes wfi_bytes"
    "linked_ok (\<lambda>w. nul_free (program_string w))"
  by (rule entry_serializer_linked) (rule ser_WindowsFrameInfo.entry_serializer_axioms)

interpretation ser_linked_InlineOrigin: entry_serializer "ser_linked ser_InlineOrigin" "linked_bytes origin_bytes"
    "linked_ok (\<lambda>x. nul_free (o_name x))"
  by (rule entry_serializer_linked) (rule ser_InlineOrigin.entry_serializer_axioms)

interpretation files_map: map_serializer key_s32 ser_string cstr_bytes nul_free
  by unfold_locales

interpretation delta_map: map_serializer key_u64 ser_string cstr_bytes nul_free
  by unfold_locales

interpretation public_map: map_serializer key_u64 "ser_linked ser_PublicSymbol" "linked_bytes public_bytes"
    "linked_ok (\<lambda>x. nul_free (p_name x))"
  by unfold_locales

interpretation origins_map: map_serializer key_s32 "ser_linked ser_InlineOrigin" "linked_bytes origin_bytes"
    "linked_ok (\<lambda>x. nul_free (o_name x))"
  by unfold_locales

lemma AddressMapSerializer_eq: "AddressMapSerializer vs = StdMapSerializer key_u64 vs"
  by (simp add: AddressMapSerializer_def StdMapSerializer_def)

text \<open>The size and the write of each map of a module, under a bound on the whole.\<close>

lemma module_maps_bound:
  "bs \<in> set (module_maps m) \<Longrightarrow> length bs < length (module_bytes m)"
proof -
  assume "bs \<in> set (module_maps m)"
  then obtain xs ys where "module_maps m = xs @ bs # ys"
    by (rule split_list [THEN exE]) blast
  then have "length bs \<le> length (concat (module_maps m))"
    by simp
  then show ?thesis
    by (simp add: module_bytes_def)
qed

lemma map_sizes_eq:
  assumes ok: "module_ok m" and len: "length (module_bytes m) < 2 ^ 32"
  shows "map_sizes m = map (\<lambda>bs. of_nat (length bs)) (module_maps m)"
proof -
  have b: "length bs < 2 ^ 32" if "bs \<in> set (module_maps m)" for bs
    using module_maps_bound [OF that] len by simp
  have w: "SizeOf wfi_serializer t = of_nat (length (crm_bytes (linked_bytes wfi_bytes) t))"
    if "t \<in> set (m_windows_frame_info m)" for t
    by (rule ser_linked_WindowsFrameInfo.contained.SizeOf_law)
      (use ok that b [of "crm_bytes (linked_bytes wfi_bytes) t"] in \<open>auto simp: module_ok_def module_maps_def\<close>)
  show ?thesis
    unfolding map_sizes_def module_maps_def AddressMapSerializer_eq
    using ok w b unfolding module_ok_def module_maps_def
    by (simp add: files_map.std.SizeOf_law ser_linked_Function.range.SizeOf_law public_map.std.SizeOf_law
      ser_string.range.SizeOf_law delta_map.std.SizeOf_law origins_map.std.SizeOf_law)
qed

lemma writes_each:
  assumes "\<And>x. x \<in> set xs \<Longrightarrow> writes (Write S x) (bytes x)"
  shows "writes (write_each S xs) (concat (map bytes xs))"
  using assms
proof (induction xs)
  case Nil
  then show ?case
    by (simp add: writes_def)
next
  case (Cons x xs)
  then show ?case
    using writes_seq [of "Write S x" "bytes x" "write_each S xs" "concat (map bytes xs)"] by simp
qed

lemma length_module_maps: "module_ok m \<Longrightarrow> length (module_maps m) = kNumberMaps"
  by (simp add: module_ok_def module_maps_def kNumberMaps_def)

lemma writes_copy_sizes:
  "length sizes = kNumberMaps \<Longrightarrow> writes (copy_sizes sizes) (concat (map wr_u64 sizes))"
  by (simp add: writes_def copy_sizes_def length_concat_const [where n = 8] mult.commute)

lemma writes_terminator: "writes write_terminator [0]"
  by (simp add: writes_def write_terminator_def)

lemma Module_Write_eq:
  assumes ok: "module_ok m" and len: "length (module_bytes m) < 2 ^ 32"
  shows "writes (Module_Write (map_sizes m) m) (module_bytes m)"
proof -
  have b: "length bs < 2 ^ 32" if "bs \<in> set (module_maps m)" for bs
    using module_maps_bound [OF that] len by simp
  have wfi: "writes (Write wfi_serializer t) (crm_bytes (linked_bytes wfi_bytes) t)"
    if "t \<in> set (m_windows_frame_info m)" for t
    by (rule ser_linked_WindowsFrameInfo.contained.writes_Write)
      (use ok that b [of "crm_bytes (linked_bytes wfi_bytes) t"] in \<open>auto simp: module_ok_def module_maps_def\<close>)
  have w: "writes (Write files_serializer (m_files m)) (kv_bytes key_s32 cstr_bytes (m_files m))"
    "writes (Write functions_serializer (rm_map (m_functions m))) (rng_bytes (linked_bytes function_bytes) (rm_map (m_functions m)))"
    "writes (Write pubsym_serializer (m_public_symbols m)) (kv_bytes key_u64 (linked_bytes public_bytes) (m_public_symbols m))"
    "writes (Write cfi_init_rules_serializer (rm_map (m_cfi_initial_rules m))) (rng_bytes cstr_bytes (rm_map (m_cfi_initial_rules m)))"
    "writes (Write cfi_delta_rules_serializer (m_cfi_delta_rules m)) (kv_bytes key_u64 cstr_bytes (m_cfi_delta_rules m))"
    "writes (Write inline_origin_serializer (m_inline_origins m)) (kv_bytes key_s32 (linked_bytes origin_bytes) (m_inline_origins m))"
    unfolding AddressMapSerializer_eq
    by (intro files_map.std.writes_Write ser_linked_Function.range.writes_Write public_map.std.writes_Write
        ser_string.range.writes_Write delta_map.std.writes_Write origins_map.std.writes_Write b;
      use ok in \<open>simp add: module_ok_def module_maps_def\<close>)+
  have sizes: "writes (copy_sizes (map_sizes m)) (concat (map (\<lambda>bs. wr_u64 (of_nat (length bs))) (module_maps m)))"
    using writes_copy_sizes [of "map_sizes m"] length_module_maps [OF ok] map_sizes_eq [OF ok len] by (simp add: comp_def)
  have "writes (\<lambda>out. write_terminator (Write inline_origin_serializer (m_inline_origins m)
      (Write cfi_delta_rules_serializer (m_cfi_delta_rules m)
      (Write cfi_init_rules_serializer (rm_map (m_cfi_initial_rules m))
      (write_each wfi_serializer (m_windows_frame_info m)
      (Write pubsym_serializer (m_public_symbols m)
      (Write functions_serializer (rm_map (m_functions m))
      (Write files_serializer (m_files m)
      (copy_sizes (map_sizes m) (Write ser_bool (m_is_corrupt m) out))))))))))
    (((((((((bool_bytes (m_is_corrupt m) @ concat (map (\<lambda>bs. wr_u64 (of_nat (length bs))) (module_maps m))) @
      kv_bytes key_s32 cstr_bytes (m_files m)) @
      rng_bytes (linked_bytes function_bytes) (rm_map (m_functions m))) @
      kv_bytes key_u64 (linked_bytes public_bytes) (m_public_symbols m)) @
      concat (map (crm_bytes (linked_bytes wfi_bytes)) (m_windows_frame_info m))) @
      rng_bytes cstr_bytes (rm_map (m_cfi_initial_rules m))) @
      kv_bytes key_u64 cstr_bytes (m_cfi_delta_rules m)) @
      kv_bytes key_s32 (linked_bytes origin_bytes) (m_inline_origins m)) @ [0])"
    by (rule writes_seq [OF _ writes_terminator] writes_seq [OF _ w(1)] writes_seq [OF _ w(2)] writes_seq [OF _ w(3)]
        writes_seq [OF _ w(4)] writes_seq [OF _ w(5)] writes_seq [OF _ w(6)] writes_seq [OF _ writes_each [OF wfi]]
        writes_seq [OF _ sizes] writes_bool | assumption)+
  then show ?thesis
    by (simp add: Module_Write_def [abs_def] Let_def module_bytes_def module_maps_def)
qed

lemma Module_SizeOf_eq:
  assumes ok: "module_ok m" and len: "length (module_bytes m) < 2 ^ 32"
  shows "Module_SizeOf m = of_nat (length (module_bytes m))"
proof -
  have "sum_list (map (\<lambda>bs. of_nat (length bs)) xs) = (of_nat (length (concat xs)) :: u64)" for xs :: "u8 list list"
    by (induction xs) simp_all
  moreover have "length (concat (map (\<lambda>bs. wr_u64 (of_nat (length bs))) (module_maps m))) = 8 * kNumberMaps"
    using length_module_maps [OF ok] by (simp add: length_concat_const [where n = 8])
  ultimately show ?thesis
    by (simp add: Module_SizeOf_def map_sizes_eq [OF ok len] module_bytes_def algebra_simps)
qed

text \<open>\<open>Serialize\<close> leaves the bytes of the module at the pointer it returns and reports their number.\<close>

lemma Module_Serialize_eq:
  assumes ok: "module_ok m" and len: "length (module_bytes m) < 2 ^ 32" and rg: "region p (length (module_bytes m))"
  shows "Module_Serialize m p mem = (store mem p (module_bytes m), p, of_nat (length (module_bytes m)))"
  using writesD [OF Module_Write_eq [OF ok len] rg, of mem] rg
  by (simp add: Module_Serialize_def Module_SizeOf_eq [OF ok len])

end
