(* ===== verification/Basic_Lookup.thy ===== *)
theory Basic_Lookup
  imports Symbol_Types
begin

text \<open>
  The lookups of processor/basic_source_line_resolver.cc: the function, line and inlined frames of an
  address, and its frame data for Windows. Frames are values; a lookup returns the frame it filled in
  and the list of inlined frames it extended (\<open>None\<close> where the caller passes no list).
\<close>

section \<open>Inlined frames\<close>

text \<open>The first range that contains the address gives the base of an inlined function.\<close>

fun inline_base_offset :: "u64 \<Rightarrow> (u64 \<times> u64) list \<Rightarrow> u64" where
  "inline_base_offset address [] = 0"
| "inline_base_offset address (rg # ranges) =
     (if fst rg \<le> address \<and> address < fst rg + snd rg then fst rg
      else inline_base_offset address ranges)"

text \<open>One new frame, from the name of the origin and the call site file, if they were found.\<close>

definition inline_frame ::
  "StackFrame \<Rightarrow> u64 \<Rightarrow> string option \<Rightarrow> string option \<Rightarrow> Inline \<Rightarrow> StackFrame" where
  "inline_frame frame address origin_name file inl =
     (let new_frame = frame
          \<lparr>function_name := (case origin_name of Some name \<Rightarrow> name | None \<Rightarrow> ''<name omitted>''),
           source_line := call_site_line inl\<rparr>;
          new_frame = (case file of Some name \<Rightarrow> new_frame\<lparr>source_file_name := name\<rparr> | None \<Rightarrow> new_frame)
      in new_frame
          \<lparr>function_base := module_base_address frame + inline_base_offset address (inline_ranges inl),
           trust := FRAME_TRUST_INLINE\<rparr>)"

text \<open>
  Each inlined frame stored the place it was called from; the loop of swaps moves these places to
  the frames they belong to, one frame outwards.
\<close>

fun swap_sources :: "string \<Rightarrow> int \<Rightarrow> StackFrame list \<Rightarrow> StackFrame list" where
  "swap_sources name ln [] = []"
| "swap_sources name ln (fr # frames) =
     fr\<lparr>source_file_name := name, source_line := ln\<rparr> # swap_sources (source_file_name fr) (source_line fr) frames"

definition update_sources :: "StackFrame \<Rightarrow> StackFrame list \<Rightarrow> StackFrame \<times> StackFrame list" where
  "update_sources frame inlined_frames =
     (if inlined_frames = [] then (frame, inlined_frames)
      else (frame\<lparr>source_file_name := source_file_name (last inlined_frames),
                  source_line := source_line (last inlined_frames)\<rparr>,
            swap_sources (source_file_name frame) (source_line frame) inlined_frames))"

definition call_site_file :: "Module \<Rightarrow> Inline \<Rightarrow> string option" where
  "call_site_file m inl =
     (if has_call_site_file_id inl then om_lookup (m_files m) (call_site_file_id inl) else None)"

text \<open>The \<open>linked_ptr\<close> values stored in the maps are never null, and are used without a check.\<close>

definition ConstructInlineFrames ::
  "Module \<Rightarrow> StackFrame \<Rightarrow> u64 \<Rightarrow> (u64, Inline option) ContainedRangeMap \<Rightarrow> StackFrame list
   \<Rightarrow> StackFrame \<times> StackFrame list" where
  "ConstructInlineFrames m frame address inline_map inlined_frames =
     (let inlines = CRM_RetrieveRanges inline_map address in
      if inlines = [] then (frame, inlined_frames)
      else update_sources frame (inlined_frames @
        map (\<lambda>inl. inline_frame frame address
          (map_option (\<lambda>o'. o_name (the o')) (om_lookup (m_inline_origins m) (origin_id (the inl))))
          (call_site_file m (the inl)) (the inl)) inlines))"

section \<open>LookupAddress\<close>

definition relative_address :: "StackFrame \<Rightarrow> u64" where
  "relative_address frame = instruction frame - module_base_address frame"

text \<open>The line of an address, written into the frame.\<close>

definition fill_line :: "StackFrame \<Rightarrow> string option \<Rightarrow> int \<Rightarrow> u64 \<Rightarrow> StackFrame" where
  "fill_line frame file ln line_base =
     (let frame = (case file of Some name \<Rightarrow> frame\<lparr>source_file_name := name\<rparr> | None \<Rightarrow> frame)
      in frame\<lparr>source_line := ln, source_line_base := module_base_address frame + line_base\<rparr>)"

definition fill_symbol :: "StackFrame \<Rightarrow> string \<Rightarrow> u64 \<Rightarrow> bool \<Rightarrow> StackFrame" where
  "fill_symbol frame name base multiple =
     frame\<lparr>function_name := name, function_base := module_base_address frame + base, is_multiple := multiple\<rparr>"

text \<open>The test that an address is inside a range, in the form that does not overflow.\<close>

definition in_function :: "u64 \<Rightarrow> u64 \<Rightarrow> u64 \<Rightarrow> bool" where
  "in_function address base sz \<longleftrightarrow> base \<le> address \<and> address - base < sz"

definition LookupAddress ::
  "Module \<Rightarrow> StackFrame \<Rightarrow> StackFrame list option \<Rightarrow> StackFrame \<times> StackFrame list option" where
  "LookupAddress m frame inlined_frames =
     (let address = relative_address frame;
          nearest = RetrieveNearestRange (rm_map (m_functions m)) address
      in case nearest of
        Some (func, base, _, sz) \<Rightarrow>
          if in_function address base sz then
            let frame = fill_symbol frame (f_name (the func)) base (f_is_multiple (the func));
                frame = (case RetrieveRange (rm_map (f_lines (the func))) address of
                    None \<Rightarrow> frame
                  | Some (line, line_base, _, _) \<Rightarrow>
                      fill_line frame (om_lookup (m_files m) (l_source_file_id (the line))) (l_line (the line)) line_base)
            in case inlined_frames of
                None \<Rightarrow> (frame, None)
              | Some frames \<Rightarrow>
                  (let (frame, frames) = ConstructInlineFrames m frame address (f_inlines (the func)) frames
                   in (frame, Some frames))
          else
            (case AddressMap_Retrieve (m_public_symbols m) address of
               None \<Rightarrow> (frame, inlined_frames)
             | Some (psym, public_address) \<Rightarrow>
                 if func = None \<or> base < public_address then
                   (fill_symbol frame (p_name (the psym)) public_address (p_is_multiple (the psym)), inlined_frames)
                 else (frame, inlined_frames))
      | None \<Rightarrow>
          (case AddressMap_Retrieve (m_public_symbols m) address of
             None \<Rightarrow> (frame, inlined_frames)
           | Some (psym, public_address) \<Rightarrow>
               (fill_symbol frame (p_name (the psym)) public_address (p_is_multiple (the psym)), inlined_frames)))"

section \<open>FindWindowsFrameInfo\<close>

text \<open>
  At the end the code looks up a public symbol and stores its parameter size in the result, but
  returns the null pointer, so nothing of it is visible.
\<close>

definition FindWindowsFrameInfo :: "Module \<Rightarrow> StackFrame \<Rightarrow> WindowsFrameInfo option" where
  "FindWindowsFrameInfo m frame =
     (let address = relative_address frame in
      case CRM_RetrieveRange (m_windows_frame_info m ! nat (stack_info_index STACK_INFO_FRAME_DATA)) address of
        Some info \<Rightarrow> Some (WindowsFrameInfo_CopyFrom WindowsFrameInfo_new (the info))
      | None \<Rightarrow>
        (case CRM_RetrieveRange (m_windows_frame_info m ! nat (stack_info_index STACK_INFO_FPO)) address of
           Some info \<Rightarrow> Some (WindowsFrameInfo_CopyFrom WindowsFrameInfo_new (the info))
         | None \<Rightarrow>
           (case RetrieveNearestRange (rm_map (m_functions m)) address of
              Some (func, base, _, sz) \<Rightarrow>
                if in_function address base sz then
                  Some (WindowsFrameInfo_new\<lparr>w_parameter_size := of_int (f_parameter_size (the func)),
                     w_valid := or VALID_NONE VALID_PARAMETER_SIZE\<rparr>)
                else None
            | None \<Rightarrow> None)))"

section \<open>What a lookup gives\<close>

lemma length_swap_sources [simp]: "length (swap_sources name ln frames) = length frames"
  by (induction frames arbitrary: name ln) auto

lemma swap_sources_nth:
  "i < length frames \<Longrightarrow> swap_sources name ln frames ! i =
    (frames ! i)\<lparr>source_file_name := (if i = 0 then name else source_file_name (frames ! (i - 1))),
                source_line := (if i = 0 then ln else source_line (frames ! (i - 1)))\<rparr>"
  by (induction frames arbitrary: name ln i) (auto simp: nth_Cons split: nat.splits)

text \<open>
  The abstract view of a lookup: the function whose range covers the address if there is one;
  otherwise the nearest public symbol, unless a function begins at or after it.
\<close>

definition covering_function ::
  "Module \<Rightarrow> u64 \<Rightarrow> (u64 \<times> (u64, Function option) Range) option" where
  "covering_function m a = find_covering r_base (rm_map (m_functions m)) a"

definition visible_public :: "Module \<Rightarrow> u64 \<Rightarrow> (PublicSymbol option \<times> u64) option" where
  "visible_public m a = (case AddressMap_Retrieve (m_public_symbols m) a of
       Some (s, pa) \<Rightarrow>
         if \<forall>p\<in>set (rm_map (m_functions m)). r_base (snd p) \<le> a \<longrightarrow> r_base (snd p) < pa then Some (s, pa) else None
     | None \<Rightarrow> None)"

text \<open>No function covers the whole address space, so the size of every function is right.\<close>

definition functions_ok :: "Module \<Rightarrow> bool" where
  "functions_ok m \<longleftrightarrow> ranges_ok (rm_map (m_functions m)) \<and>
     (\<forall>p\<in>set (rm_map (m_functions m)). (r_base (snd p) \<noteq> 0 \<or> fst p \<noteq> - 1) \<and> r_entry (snd p) \<noteq> None)"

lemma in_function_covers:
  assumes "b \<le> (h::u64)" "b \<noteq> 0 \<or> h \<noteq> - 1"
  shows "in_function a b (h - b + 1) \<longleftrightarrow> b \<le> a \<and> a \<le> h"
proof -
  have "h - b + 1 \<noteq> 0"
  proof
    assume "h - b + 1 = 0"
    then have "b = h + 1"
      by (simp add: algebra_simps)
    then have "b = 0"
      using assms(1) by uint_arith
    with \<open>b = h + 1\<close> assms(2) show False
      by (simp add: eq_neg_iff_add_eq_0)
  qed
  then have "h - b < h - b + 1"
    by uint_arith
  then show ?thesis
    unfolding in_function_def using assms(1) by uint_arith
qed

lemma nearest_cases:
  assumes ok: "functions_ok m" and fs_def: "fs = rm_map (m_functions m)"
  obtains (covered) p where "RetrieveNearestRange fs a = Some (range_result p)" "covering_function m a = Some p"
      "p \<in> set fs" "in_function a (r_base (snd p)) (fst p - r_base (snd p) + 1)"
    | (below) p where "RetrieveNearestRange fs a = Some (range_result p)" "covering_function m a = None" "p \<in> set fs"
      "\<not> in_function a (r_base (snd p)) (fst p - r_base (snd p) + 1)" "r_base (snd p) \<le> a"
      "\<forall>q\<in>set fs. r_base (snd q) \<le> a \<longrightarrow> r_base (snd q) \<le> r_base (snd p)"
    | (none) "RetrieveNearestRange fs a = None" "covering_function m a = None" "\<forall>q\<in>set fs. a < r_base (snd q)"
proof -
  have rok: "ranges_ok fs"
    using ok by (simp add: functions_ok_def fs_def)
  have inf: "in_function a (r_base (snd p)) (fst p - r_base (snd p) + 1) \<longleftrightarrow> covers p a" if "p \<in> set fs" for p
    using in_function_covers [of "r_base (snd p)" "fst p" a] ranges_okD(2) [OF rok that] ok that
    by (auto simp: functions_ok_def fs_def covers_def)
  consider (1) "\<forall>q\<in>set fs. a < r_base (snd q)" | (2) "\<exists>q\<in>set fs. r_base (snd q) \<le> a"
    using not_less by blast
  then show thesis
  proof cases
    case 1
    then have "find_covering r_base fs a = None"
      by (auto simp: find_covering_None [OF rok] covers_def)
    then show thesis
      using none 1 RetrieveNearestRange_none [OF rok, of a] by (simp add: covering_function_def fs_def)
  next
    case 2
    let ?S = "{q \<in> set fs. r_base (snd q) \<le> a}"
    have "finite (fst ` ?S)" "fst ` ?S \<noteq> {}"
      using 2 by (simp, blast)
    then have "Max (fst ` ?S) \<in> fst ` ?S" and mx: "\<And>q. q \<in> ?S \<Longrightarrow> fst q \<le> Max (fst ` ?S)"
      by (rule Max_in, simp)
    then obtain p where p: "p \<in> set fs" "r_base (snd p) \<le> a" "\<And>q. q \<in> set fs \<Longrightarrow> r_base (snd q) \<le> a \<Longrightarrow> fst q \<le> fst p"
      by force
    have near: "RetrieveNearestRange fs a = Some (range_result p)"
      by (rule RetrieveNearestRange_some [OF rok p(1,2)]) (use p(3) in blast)
    show thesis
    proof (cases "covers p a")
      case True
      then have "find_covering r_base fs a = Some p"
        using p(1) by (simp add: find_covering_iff [OF rok])
      then show thesis
        using covered near p(1) True inf [OF p(1)] by (simp add: covering_function_def fs_def)
    next
      case False
      have hb: "fst p < a"
        using False p(2) by (simp add: covers_def)
      have "\<not> covers q a" if "q \<in> set fs" for q
        using p(3) [OF that] hb by (auto simp: covers_def)
      then have "find_covering r_base fs a = None"
        by (auto simp: find_covering_None [OF rok])
      moreover have "r_base (snd q) \<le> r_base (snd p)" if q: "q \<in> set fs" "r_base (snd q) \<le> a" for q
      proof (cases "q = p")
        case False
        then have "fst q \<noteq> fst p"
          using om_sorted_inj [OF ranges_okD(1) [OF rok] q(1) p(1)] by blast
        then have "fst q < r_base (snd p)"
          using p(3) [OF q] ranges_okD(3) [OF rok q(1) p(1)] by simp
        then show ?thesis
          using ranges_okD(2) [OF rok q(1)] by simp
      qed simp
      ultimately show thesis
        using below [OF near _ p(1) _ p(2)] inf [OF p(1)] False by (simp add: covering_function_def fs_def)
    qed
  qed
qed

lemma LookupAddress_at:
  assumes ok: "functions_ok m" and a_def: "a = relative_address frame"
  shows "LookupAddress m frame None =
    (case covering_function m a of
       Some p \<Rightarrow>
         (let func = the (r_entry (snd p));
              frame = fill_symbol frame (f_name func) (r_base (snd p)) (f_is_multiple func)
          in (case RetrieveRange (rm_map (f_lines func)) a of
                None \<Rightarrow> (frame, None)
              | Some (line, line_base, _, _) \<Rightarrow>
                  (fill_line frame (om_lookup (m_files m) (l_source_file_id (the line))) (l_line (the line)) line_base, None)))
     | None \<Rightarrow>
         (case visible_public m a of
            None \<Rightarrow> (frame, None)
          | Some (s, pa) \<Rightarrow> (fill_symbol frame (p_name (the s)) pa (p_is_multiple (the s)), None)))"
proof (cases rule: nearest_cases [OF ok refl, where a = a, case_names covered below none])
  case (covered p)
  then show ?thesis
    by (simp add: LookupAddress_def a_def [symmetric] range_result_def Let_def split: option.splits)
next
  case (below p)
  then have "r_entry (snd p) \<noteq> None"
    using ok by (simp add: functions_ok_def)
  moreover have "(\<forall>q\<in>set (rm_map (m_functions m)). r_base (snd q) \<le> a \<longrightarrow> r_base (snd q) < pa) \<longleftrightarrow> r_base (snd p) < pa" for pa
    using below(3,5,6) by force
  ultimately show ?thesis
    using below by (auto simp: LookupAddress_def a_def [symmetric] range_result_def visible_public_def split: option.splits)
next
  case none
  then have "(\<forall>q\<in>set (rm_map (m_functions m)). r_base (snd q) \<le> a \<longrightarrow> r_base (snd q) < pa)" for pa
    by auto
  with none show ?thesis
    by (simp add: LookupAddress_def a_def [symmetric] visible_public_def split: option.splits)
qed

text \<open>C5. Symbol lookup, where no inlined frames are asked for: an address inside a FUNC range gets the name and base of that function (and the
  line that covers it); any other address gets the nearest PUBLIC symbol below it, provided no function
  begins between that symbol and the address; otherwise the frame stays as it was.\<close>

theorem LookupAddress_correct:
  assumes ok: "functions_ok m"
  shows "LookupAddress m frame None =
    (let a = relative_address frame in case covering_function m a of
       Some p \<Rightarrow>
         (let func = the (r_entry (snd p));
              frame = fill_symbol frame (f_name func) (r_base (snd p)) (f_is_multiple func)
          in (case RetrieveRange (rm_map (f_lines func)) a of
                None \<Rightarrow> (frame, None)
              | Some (line, line_base, _, _) \<Rightarrow>
                  (fill_line frame (om_lookup (m_files m) (l_source_file_id (the line))) (l_line (the line)) line_base, None)))
     | None \<Rightarrow>
         (case visible_public m a of
            None \<Rightarrow> (frame, None)
          | Some (s, pa) \<Rightarrow> (fill_symbol frame (p_name (the s)) pa (p_is_multiple (the s)), None)))"
  unfolding Let_def [of "relative_address frame"] by (rule LookupAddress_at [OF ok refl])

lemma LookupAddress_correct_witness:
  "function_name (fst (LookupAddress (Module_new\<lparr>m_public_symbols := [(16, Some \<lparr>p_name = ''f'', p_address = 16,
     p_parameter_size = 0, p_is_multiple = False\<rparr>)]\<rparr>) (StackFrame_new 0x120 0x100) None)) = ''f''"
proof -
  let ?m = "Module_new\<lparr>m_public_symbols := [(16, Some \<lparr>p_name = ''f'', p_address = 16,
     p_parameter_size = 0, p_is_multiple = False\<rparr>)]\<rparr>"
  have "functions_ok ?m"
    by (simp add: functions_ok_def Module_new_def RangeMap_new_def)
  from LookupAddress_correct [OF this, of "StackFrame_new 0x120 0x100"] show ?thesis
    by (simp add: covering_function_def visible_public_def Module_new_def RangeMap_new_def find_covering_def
      om_lower_bound_def AddressMap_Retrieve_def om_upper_bound_def relative_address_def StackFrame_new_def fill_symbol_def)
qed

end
