(* ===== verification/CFI_Lookup.thy ===== *)
theory CFI_Lookup
  imports Basic_Lookup CFI_Frame_Info
begin

text \<open>
  \<open>FindCFIFrameInfo\<close> of processor/basic_source_line_resolver.cc: the rules in force at an address, from
  the initial rules of the range that covers it and the changes up to the address.
\<close>

primrec apply_deltas :: "u64 \<Rightarrow> (u64, string) omap \<Rightarrow> CFIFrameInfo \<Rightarrow> CFIFrameInfo" where
  "apply_deltas address [] rules = rules"
| "apply_deltas address (delta # deltas) rules =
     (if fst delta \<le> address then apply_deltas address deltas (fst (ParseCFIRuleSet (snd delta) rules)) else rules)"

definition FindCFIFrameInfo :: "Module \<Rightarrow> StackFrame \<Rightarrow> CFIFrameInfo option" where
  "FindCFIFrameInfo m frame =
     (let address = relative_address frame in
      case RetrieveRange (rm_map (m_cfi_initial_rules m)) address of
        None \<Rightarrow> None
      | Some (initial_rules, initial_base, _, _) \<Rightarrow>
          (let (rules, ok) = ParseCFIRuleSet initial_rules CFIFrameInfo_new in
           if \<not> ok then None
           else Some (apply_deltas address
             (drop (om_lower_bound (m_cfi_delta_rules m) initial_base) (m_cfi_delta_rules m)) rules)))"

section \<open>What it finds\<close>

text \<open>The changes that apply: those between the start of the range and the address, in order.\<close>

definition deltas_between :: "u64 \<Rightarrow> u64 \<Rightarrow> (u64, string) omap \<Rightarrow> string list" where
  "deltas_between base address ds = map snd (filter (\<lambda>d. base \<le> fst d \<and> fst d \<le> address) ds)"

lemma drop_lower_bound:
  assumes "om_sorted m"
  shows "drop (om_lower_bound m k) m = filter (\<lambda>p. k \<le> fst p) m"
  using assms
proof (induction m)
  case (Cons p m)
  show ?case
  proof (cases "fst p < k")
    case False
    then have "filter (\<lambda>q. k \<le> fst q) m = m"
      using Cons.prems by (auto simp: filter_id_conv)
    with False show ?thesis
      by (simp add: om_lower_bound_def)
  qed (use Cons in \<open>simp add: om_lower_bound_def\<close>)
qed (simp add: om_lower_bound_def)

lemma apply_deltas_eq:
  "om_sorted ds \<Longrightarrow> apply_deltas a ds rules =
    fold (\<lambda>s c. fst (ParseCFIRuleSet s c)) (map snd (filter (\<lambda>d. fst d \<le> a) ds)) rules"
proof (induction ds arbitrary: rules)
  case (Cons d ds)
  show ?case
  proof (cases "fst d \<le> a")
    case False
    then have "filter (\<lambda>d. fst d \<le> a) ds = []"
      using Cons.prems by (auto simp: filter_empty_conv)
    with False show ?thesis
      by simp
  qed (use Cons in simp)
qed simp

lemma om_sorted_filter: "om_sorted m \<Longrightarrow> om_sorted (filter P m)"
  by (induction m) auto

lemma FindCFIFrameInfo_at:
  assumes "ranges_ok (rm_map (m_cfi_initial_rules m))" "om_sorted (m_cfi_delta_rules m)"
    "p \<in> set (rm_map (m_cfi_initial_rules m))" "covers p (relative_address frame)"
  shows "FindCFIFrameInfo m frame =
    (let (rules, ok) = ParseCFIRuleSet (r_entry (snd p)) CFIFrameInfo_new in
     if ok then Some (fold (\<lambda>s c. fst (ParseCFIRuleSet s c))
       (deltas_between (r_base (snd p)) (relative_address frame) (m_cfi_delta_rules m)) rules) else None)"
  using RetrieveRange_covers_Some [OF assms(1,3,4)]
  by (simp add: FindCFIFrameInfo_def Let_def range_result_def drop_lower_bound [OF assms(2)]
    apply_deltas_eq [OF om_sorted_filter [OF assms(2)]] deltas_between_def conj_commute split: prod.splits)

text \<open>C10. The call frame rules in force at an address are those of the STACK CFI INIT range that covers it,
  changed by exactly the STACK CFI records from the start of that range up to the address, in address
  order; outside every such range there are none.\<close>

theorem FindCFIFrameInfo_correct:
  assumes "ranges_ok (rm_map (m_cfi_initial_rules m))" "om_sorted (m_cfi_delta_rules m)"
  shows "(\<forall>p\<in>set (rm_map (m_cfi_initial_rules m)). covers p (relative_address frame) \<longrightarrow>
      FindCFIFrameInfo m frame =
        (let (rules, ok) = ParseCFIRuleSet (r_entry (snd p)) CFIFrameInfo_new in
         if ok then Some (fold (\<lambda>s c. fst (ParseCFIRuleSet s c))
           (deltas_between (r_base (snd p)) (relative_address frame) (m_cfi_delta_rules m)) rules) else None)) \<and>
    ((\<forall>p\<in>set (rm_map (m_cfi_initial_rules m)). \<not> covers p (relative_address frame)) \<longrightarrow>
      FindCFIFrameInfo m frame = None)"
proof -
  have "FindCFIFrameInfo m frame = None"
    if "\<forall>p\<in>set (rm_map (m_cfi_initial_rules m)). \<not> covers p (relative_address frame)"
    using that RetrieveRange_None_iff [OF assms(1), of "relative_address frame"]
    by (simp add: FindCFIFrameInfo_def Let_def)
  then show ?thesis
    using FindCFIFrameInfo_at [OF assms] by blast
qed

lemma FindCFIFrameInfo_correct_witness:
  "FindCFIFrameInfo (Module_new\<lparr>
      m_cfi_initial_rules := RangeMap_new\<lparr>rm_map := [(0x1f, \<lparr>r_base = 0x10, r_delta = 0, r_entry = ''.cfa: 1 .ra: 2''\<rparr>)]\<rparr>,
      m_cfi_delta_rules := [(0x14, ''.cfa: 3''), (0x18, ''.cfa: 4'')]\<rparr>) (StackFrame_new 0x116 0x100) =
    Some \<lparr>cfa_rule = ''3'', ra_rule = ''2'', register_rules = []\<rparr>"
proof -
  let ?p = "(0x1f :: u64, \<lparr>r_base = 0x10, r_delta = 0, r_entry = ''.cfa: 1 .ra: 2''\<rparr>)"
  let ?m = "Module_new\<lparr>m_cfi_initial_rules := RangeMap_new\<lparr>rm_map := [?p]\<rparr>,
      m_cfi_delta_rules := [(0x14, ''.cfa: 3''), (0x18, ''.cfa: 4'')]\<rparr>"
  have "ranges_ok (rm_map (m_cfi_initial_rules ?m))" "om_sorted (m_cfi_delta_rules ?m)"
    by (simp_all add: disjoint_by_def)
  from FindCFIFrameInfo_correct [OF this, of "StackFrame_new 0x116 0x100"] show ?thesis
    by (simp add: covers_def covered_by_def relative_address_def StackFrame_new_def ParseCFIRuleSet_def CFI_Parse_def
      tokens.simps strtok_r_def token_breaks_def Report_def CFIFrameInfo_new_def SetCFARule_def SetRARule_def
      deltas_between_def Let_def)
qed

end
