(* ===== verification/Fast_Resolver.thy ===== *)
theory Fast_Resolver
  imports Module_Serializer Static_Contained_Range_Map CFI_Lookup
begin

text \<open>
  processor/fast_source_line_resolver.cc and fast_source_line_resolver_types.h: the resolver that
  answers lookups from the serialized bytes of a module. Everything is read through pointers into a
  memory; \<open>None\<close> is a call that does not return (an unterminated string, a cyclic tree).
\<close>

section \<open>Reading the records\<close>

text \<open>\<open>DESERIALIZE\<close> of each type: the value and the pointer behind it.\<close>

definition deser_u64 :: "memory \<Rightarrow> u64 \<Rightarrow> u64 \<times> u64" where
  "deser_u64 mem raw = (rd_u64 mem raw, raw + 8)"

definition deser_s32 :: "memory \<Rightarrow> u64 \<Rightarrow> int \<times> u64" where
  "deser_s32 mem raw = (rd_s32 mem raw, raw + 4)"

definition deser_u32 :: "memory \<Rightarrow> u64 \<Rightarrow> u32 \<times> u64" where
  "deser_u32 mem raw = (rd_u32 mem raw, raw + 4)"

text \<open>A terminated string: its characters and the pointer behind the terminator.\<close>

definition deser_string :: "memory \<Rightarrow> u64 \<Rightarrow> (string \<times> u64) option" where
  "deser_string mem raw =
     Option.bind (strlen mem raw) (\<lambda>n. Option.bind (rd_cstring mem raw) (\<lambda>s. Some (s, raw + (of_nat n + 1))))"

definition Line_CopyFrom :: "memory \<Rightarrow> u64 \<Rightarrow> Line" where
  "Line_CopyFrom mem raw =
     (let (address, raw) = deser_u64 mem raw;
          (sz, raw) = deser_u64 mem raw;
          (file_id, raw) = deser_s32 mem raw;
          (ln, raw) = deser_s32 mem raw
      in \<lparr>l_address = address, l_size = sz, l_source_file_id = file_id, l_line = ln\<rparr>)"

record FastFunction =
  ff_name :: string
  ff_address :: u64
  ff_size :: u64
  ff_parameter_size :: int
  ff_is_multiple :: bool
  ff_inlines :: StaticContainedRangeMap
  ff_lines :: StaticMap

definition Function_CopyFrom :: "memory \<Rightarrow> u64 \<Rightarrow> FastFunction option" where
  "Function_CopyFrom mem raw = Option.bind (deser_string mem raw) (\<lambda>(name, raw). Some
     (let (address, raw) = deser_u64 mem raw;
          (sz, raw) = deser_u64 mem raw;
          (parameter_size, raw) = deser_s32 mem raw;
          (multiple, raw) = bool_Read mem raw;
          (inline_size, raw) = deser_s32 mem raw
      in \<lparr>ff_name = name, ff_address = address, ff_size = sz, ff_parameter_size = parameter_size,
          ff_is_multiple = multiple, ff_inlines = SCRM_at mem raw,
          ff_lines = StaticMap_at mem (raw + of_int inline_size)\<rparr>))"

text \<open>The loop reads a pair in every round, but counts two for it.\<close>

function inline_ranges_Read :: "memory \<Rightarrow> u64 \<Rightarrow> nat \<Rightarrow> nat \<Rightarrow> (u64 \<times> u64) list" where
  "inline_ranges_Read mem raw i inline_range_size =
     (if i < inline_range_size then
        (let (range_first, raw) = deser_u64 mem raw;
             (range_second, raw) = deser_u64 mem raw
         in (range_first, range_second) # inline_ranges_Read mem raw (i + 2) inline_range_size)
      else [])"
  by pat_completeness auto
termination
  by (relation "measure (\<lambda>(mem, raw, i, n). n - i)") auto

declare inline_ranges_Read.simps [simp del]

definition Inline_CopyFrom :: "memory \<Rightarrow> u64 \<Rightarrow> Inline" where
  "Inline_CopyFrom mem raw =
     (let (has_file, raw) = bool_Read mem raw;
          (nest_level, raw) = deser_s32 mem raw;
          (call_line, raw) = deser_s32 mem raw;
          (call_file, raw) = deser_s32 mem raw;
          (origin_key, raw) = deser_s32 mem raw;
          (inline_range_size, raw) = deser_u32 mem raw
      in \<lparr>has_call_site_file_id = has_file, inline_nest_level = nest_level, call_site_line = call_line,
          call_site_file_id = call_file, origin_id = origin_key,
          inline_ranges = inline_ranges_Read mem raw 0 (unat inline_range_size)\<rparr>)"

text \<open>The flag is read as it lies in memory, a byte that is not 0.\<close>

definition InlineOrigin_CopyFrom :: "memory \<Rightarrow> u64 \<Rightarrow> InlineOrigin option" where
  "InlineOrigin_CopyFrom mem raw =
     (let has_file = (mem raw \<noteq> 0);
          (file_id, raw) = deser_s32 mem (raw + 1)
      in Option.bind (rd_cstring mem raw)
        (\<lambda>name. Some \<lparr>o_has_file_id = has_file, o_source_file_id = file_id, o_name = name\<rparr>))"

definition PublicSymbol_CopyFrom :: "memory \<Rightarrow> u64 \<Rightarrow> PublicSymbol option" where
  "PublicSymbol_CopyFrom mem raw = Option.bind (deser_string mem raw) (\<lambda>(name, raw). Some
     (let (address, raw) = deser_u64 mem raw;
          (parameter_size, raw) = deser_s32 mem raw;
          (multiple, raw) = bool_Read mem raw
      in \<lparr>p_name = name, p_address = address, p_parameter_size = parameter_size, p_is_multiple = multiple\<rparr>))"

text \<open>The second word, the validity, is not read: the constructor sets it.\<close>

definition CopyWFI :: "memory \<Rightarrow> u64 \<Rightarrow> WindowsFrameInfo option" where
  "CopyWFI mem raw =
     (let ty = stack_info_of (rd_s32 mem raw);
          para = (\<lambda>i. rd_u32 mem (raw + 8 + 4 * i));
          boolean = raw + 8 + 4 * 6
      in Option.bind (rd_cstring mem (boolean + 1))
        (\<lambda>prog. Some (WindowsFrameInfo_of ty (para 0) (para 1) (para 2) (para 3) (para 4) (para 5)
          (mem boolean \<noteq> 0) prog)))"

section \<open>The module\<close>

record FastModule =
  fm_files :: StaticMap
  fm_functions :: StaticMap
  fm_public_symbols :: StaticMap
  fm_is_corrupt :: bool
  fm_windows_frame_info :: "StaticContainedRangeMap list"
  fm_cfi_initial_rules :: StaticMap
  fm_cfi_delta_rules :: StaticMap
  fm_inline_origins :: StaticMap

definition module_size_at :: "memory \<Rightarrow> u64 \<Rightarrow> nat \<Rightarrow> u64" where
  "module_size_at mem mem_buffer i = rd_u64 mem (mem_buffer + of_nat (8 * i))"

primrec module_offset :: "memory \<Rightarrow> u64 \<Rightarrow> nat \<Rightarrow> u64" where
  "module_offset mem mem_buffer 0 = of_nat (kNumberMaps * 8)"
| "module_offset mem mem_buffer (Suc i) = module_offset mem mem_buffer i + module_size_at mem mem_buffer i"

text \<open>
  The maps are set only when the sizes add up to the size of the buffer, with or without one byte
  more; the flag is read before that check.
\<close>

definition Fast_LoadMapFromMemory :: "memory \<Rightarrow> u64 \<Rightarrow> u64 \<Rightarrow> FastModule \<Rightarrow> FastModule \<times> bool" where
  "Fast_LoadMapFromMemory mem memory_buffer memory_buffer_size fm =
     (if memory_buffer = 0 then (fm, False)
      else
        let (corrupt, mem_buffer) = bool_Read mem memory_buffer;
            fm = fm\<lparr>fm_is_corrupt := corrupt\<rparr>;
            expected_size = 1 + module_offset mem mem_buffer (kNumberMaps - 1) +
              module_size_at mem mem_buffer (kNumberMaps - 1) + 1;
            at = (\<lambda>map_id. mem_buffer + module_offset mem mem_buffer map_id)
        in if expected_size \<noteq> memory_buffer_size \<and> expected_size \<noteq> memory_buffer_size - 1 then (fm, False)
           else (fm\<lparr>fm_files := StaticMap_at mem (at 0), fm_functions := StaticMap_at mem (at 1),
              fm_public_symbols := StaticMap_at mem (at 2),
              fm_windows_frame_info := map (\<lambda>i. SCRM_at mem (at (3 + i))) [0..<5],
              fm_cfi_initial_rules := StaticMap_at mem (at 8), fm_cfi_delta_rules := StaticMap_at mem (at 9),
              fm_inline_origins := StaticMap_at mem (at 10)\<rparr>, True))"

section \<open>Lookups\<close>

text \<open>\<open>find\<close> followed by the comparison with \<open>end()\<close>: the pointer to the value.\<close>

definition fast_find :: "memory \<Rightarrow> StaticMap \<Rightarrow> int \<Rightarrow> u64 option" where
  "fast_find mem m key =
     (let it = sm_find key_s32 mem m key in
      if it_eq it (sm_end mem m) then None else Some (GetValueRawPtr mem it))"

definition fast_file :: "memory \<Rightarrow> FastModule \<Rightarrow> int \<Rightarrow> string option option" where
  "fast_file mem fm file_id = (case fast_find mem (fm_files fm) file_id of
       None \<Rightarrow> Some None
     | Some p \<Rightarrow> map_option Some (rd_cstring mem p))"

definition fast_origin_name :: "memory \<Rightarrow> FastModule \<Rightarrow> int \<Rightarrow> string option option" where
  "fast_origin_name mem fm key = (case fast_find mem (fm_inline_origins fm) key of
       None \<Rightarrow> Some None
     | Some p \<Rightarrow> map_option (\<lambda>x. Some (o_name x)) (InlineOrigin_CopyFrom mem p))"

definition fast_inline_frame :: "memory \<Rightarrow> FastModule \<Rightarrow> StackFrame \<Rightarrow> u64 \<Rightarrow> u64 \<Rightarrow> StackFrame option" where
  "fast_inline_frame mem fm frame address inline_ptr =
     (let inl = Inline_CopyFrom mem inline_ptr in
      Option.bind (fast_origin_name mem fm (origin_id inl)) (\<lambda>name.
      Option.bind (if has_call_site_file_id inl then fast_file mem fm (call_site_file_id inl) else Some None)
        (\<lambda>file. Some (inline_frame frame address name file inl))))"

primrec fast_inline_frames :: "memory \<Rightarrow> FastModule \<Rightarrow> StackFrame \<Rightarrow> u64 \<Rightarrow> u64 list \<Rightarrow> StackFrame list option" where
  "fast_inline_frames mem fm frame address [] = Some []"
| "fast_inline_frames mem fm frame address (p # ps) =
     Option.bind (fast_inline_frame mem fm frame address p) (\<lambda>new_frame.
     Option.bind (fast_inline_frames mem fm frame address ps) (\<lambda>frames. Some (new_frame # frames)))"

definition Fast_ConstructInlineFrames ::
  "memory \<Rightarrow> FastModule \<Rightarrow> StackFrame \<Rightarrow> u64 \<Rightarrow> StaticContainedRangeMap \<Rightarrow> StackFrame list
   \<Rightarrow> (StackFrame \<times> StackFrame list) option" where
  "Fast_ConstructInlineFrames mem fm frame address inline_map inlined_frames =
     Option.bind (SCRM_RetrieveRanges mem inline_map address) (\<lambda>inline_ptrs.
       if inline_ptrs = [] then Some (frame, inlined_frames)
       else Option.bind (fast_inline_frames mem fm frame address inline_ptrs)
         (\<lambda>frames. Some (update_sources frame (inlined_frames @ frames))))"

text \<open>The line of an address, written into the frame if there is one.\<close>

definition fast_line :: "memory \<Rightarrow> FastModule \<Rightarrow> StackFrame \<Rightarrow> u64 \<Rightarrow> StaticMap \<Rightarrow> StackFrame option" where
  "fast_line mem fm frame address lines = (case SRM_RetrieveRange mem lines address of
       None \<Rightarrow> Some frame
     | Some (line_ptr, line_base, _) \<Rightarrow>
         (let line = Line_CopyFrom mem line_ptr in
          Option.bind (fast_file mem fm (l_source_file_id line))
            (\<lambda>file. Some (fill_line frame file (l_line line) line_base))))"

text \<open>The public symbol of an address, unless the function found begins at or above it.\<close>

definition fast_public :: "memory \<Rightarrow> FastModule \<Rightarrow> StackFrame \<Rightarrow> u64 \<Rightarrow> (u64 \<times> u64) option \<Rightarrow> StackFrame option" where
  "fast_public mem fm frame address func = (case SAM_Retrieve mem (fm_public_symbols fm) address of
       None \<Rightarrow> Some frame
     | Some (public_symbol_ptr, public_address) \<Rightarrow>
         if (case func of None \<Rightarrow> True | Some (func_ptr, base) \<Rightarrow> func_ptr = 0 \<or> base < public_address) then
           map_option (\<lambda>psym. fill_symbol frame (p_name psym) public_address (p_is_multiple psym))
             (PublicSymbol_CopyFrom mem public_symbol_ptr)
         else Some frame)"

definition Fast_LookupAddress ::
  "memory \<Rightarrow> FastModule \<Rightarrow> StackFrame \<Rightarrow> StackFrame list option \<Rightarrow> (StackFrame \<times> StackFrame list option) option" where
  "Fast_LookupAddress mem fm frame inlined_frames =
     (let address = relative_address frame in
      case SRM_RetrieveNearestRange mem (fm_functions fm) address of
        Some (func_ptr, base, sz) \<Rightarrow>
          if in_function address base sz then
            Option.bind (Function_CopyFrom mem func_ptr) (\<lambda>func.
            Option.bind (fast_line mem fm (fill_symbol frame (ff_name func) base (ff_is_multiple func)) address (ff_lines func))
              (\<lambda>frame. case inlined_frames of
                  None \<Rightarrow> Some (frame, None)
                | Some frames \<Rightarrow> map_option (\<lambda>(frame, frames). (frame, Some frames))
                    (Fast_ConstructInlineFrames mem fm frame address (ff_inlines func) frames)))
          else map_option (\<lambda>frame. (frame, inlined_frames)) (fast_public mem fm frame address (Some (func_ptr, base)))
      | None \<Rightarrow> map_option (\<lambda>frame. (frame, inlined_frames)) (fast_public mem fm frame address None))"

text \<open>As in the basic resolver, the public symbol looked up at the end changes nothing that is returned.\<close>

definition Fast_FindWindowsFrameInfo :: "memory \<Rightarrow> FastModule \<Rightarrow> StackFrame \<Rightarrow> WindowsFrameInfo option option" where
  "Fast_FindWindowsFrameInfo mem fm frame =
     (let address = relative_address frame in
      Option.bind (SCRM_RetrieveRange mem (fm_windows_frame_info fm ! nat (stack_info_index STACK_INFO_FRAME_DATA)) address)
      (\<lambda>frame_data. Option.bind (case frame_data of Some p \<Rightarrow> Some (Some p) | None \<Rightarrow>
         SCRM_RetrieveRange mem (fm_windows_frame_info fm ! nat (stack_info_index STACK_INFO_FPO)) address)
      (\<lambda>info. case info of
         Some frame_info_ptr \<Rightarrow>
           map_option (\<lambda>w. Some (WindowsFrameInfo_CopyFrom WindowsFrameInfo_new w)) (CopyWFI mem frame_info_ptr)
       | None \<Rightarrow>
           (case SRM_RetrieveNearestRange mem (fm_functions fm) address of
              Some (function_ptr, base, sz) \<Rightarrow>
                if in_function address base sz then
                  map_option (\<lambda>func. Some (WindowsFrameInfo_new\<lparr>w_parameter_size := of_int (ff_parameter_size func),
                      w_valid := or VALID_NONE VALID_PARAMETER_SIZE\<rparr>))
                    (Function_CopyFrom mem function_ptr)
                else Some None
            | None \<Rightarrow> Some None))))"

partial_function (option) fast_deltas ::
  "memory \<Rightarrow> StaticMap \<Rightarrow> u64 \<Rightarrow> StaticMapIterator \<Rightarrow> CFIFrameInfo \<Rightarrow> CFIFrameInfo option" where
  "fast_deltas mem m address delta rules =
     (if \<not> it_eq delta (sm_end mem m) \<and> it_GetKey key_u64 mem delta \<le> address then
        Option.bind (rd_cstring mem (GetValueRawPtr mem delta)) (\<lambda>s.
          fast_deltas mem m address (snd (it_inc_post delta)) (fst (ParseCFIRuleSet s rules)))
      else Some rules)"

definition Fast_FindCFIFrameInfo :: "memory \<Rightarrow> FastModule \<Rightarrow> StackFrame \<Rightarrow> CFIFrameInfo option option" where
  "Fast_FindCFIFrameInfo mem fm frame =
     (let address = relative_address frame in
      case SRM_RetrieveRange mem (fm_cfi_initial_rules fm) address of
        None \<Rightarrow> Some None
      | Some (initial_rules, initial_base, _) \<Rightarrow>
          Option.bind (rd_cstring mem initial_rules) (\<lambda>s.
            let (rules, ok) = ParseCFIRuleSet s CFIFrameInfo_new in
            if \<not> ok then Some None
            else map_option Some (fast_deltas mem (fm_cfi_delta_rules fm) address
              (sm_lower_bound key_u64 mem (fm_cfi_delta_rules fm) initial_base) rules)))"

end
