(* ===== verification/Fast_Refinement.thy ===== *)
theory Fast_Refinement
  imports Fast_Resolver
begin

text \<open>
  The fast resolver on the serialized bytes of a module answers every lookup as the basic resolver
  does on the module. Each record read back is the record written; each lookup of a static map
  agrees with the lookup of the map it was made from; the lookups of the module follow.
\<close>

section \<open>Records read back\<close>

lemma Line_CopyFrom_holds:
  assumes "holds mem a (line_bytes l)" "is_s32 (l_source_file_id l)" "is_s32 (l_line l)"
  shows "Line_CopyFrom mem a = l"
  using assms
  by (simp add: Line_CopyFrom_def line_bytes_def deser_u64_def deser_s32_def byte_simps rd_u64_holds rd_s32_holds Let_def)

lemma deser_string_holds:
  assumes "holds mem a (cstr_bytes s)" "nul_free s"
  shows "deser_string mem a = Some (s, a + of_nat (length (cstr_bytes s)))" "rd_cstring mem a = Some s"
  using rd_cstring_holds [of mem a s] assms by (simp_all add: deser_string_def cstr_bytes_def nul_free_def add_ac)

lemma PublicSymbol_CopyFrom_holds:
  assumes "holds mem a (public_bytes x)" "nul_free (p_name x)" "is_s32 (p_parameter_size x)"
  shows "PublicSymbol_CopyFrom mem a = Some x"
proof -
  define q where "q = a + of_nat (length (cstr_bytes (p_name x)))"
  have h: "holds mem a (cstr_bytes (p_name x))" "holds mem q (wr_u64 (p_address x))"
    "holds mem (q + 8) (wr_s32 (p_parameter_size x))" "holds mem (q + 12) (bool_bytes (p_is_multiple x))"
    using assms(1) by (simp_all add: public_bytes_def holds_append q_def add.assoc)
  show ?thesis
    by (simp add: PublicSymbol_CopyFrom_def deser_string_holds(1) [OF h(1) assms(2), folded q_def] deser_u64_def
      deser_s32_def rd_u64_holds [OF h(2)] rd_s32_holds [OF h(3) assms(3)] bool_Read_holds [OF h(4)] Let_def add.assoc)
qed

lemma InlineOrigin_CopyFrom_holds:
  assumes "holds mem a (origin_bytes x)" "nul_free (o_name x)" "is_s32 (o_source_file_id x)"
  shows "InlineOrigin_CopyFrom mem a = Some x"
proof -
  have h: "holds mem a (bool_bytes (o_has_file_id x))" "holds mem (a + 1) (wr_s32 (o_source_file_id x))"
    "holds mem (a + 5) (cstr_bytes (o_name x))"
    using assms(1) by (simp_all add: origin_bytes_def holds_append add.assoc)
  have "mem a \<noteq> 0 \<longleftrightarrow> o_has_file_id x"
    using h(1) by (simp add: bool_bytes_def holds_Cons)
  then show ?thesis
    by (simp add: InlineOrigin_CopyFrom_def deser_s32_def rd_s32_holds [OF h(2) assms(3)]
      deser_string_holds(2) [OF h(3) assms(2)] Let_def add.assoc)
qed

lemma CopyWFI_holds:
  assumes "holds mem a (wfi_bytes w)" "nul_free (program_string w)" "w_valid w = VALID_ALL"
  shows "CopyWFI mem a = Some w"
proof -
  have ty: "is_s32 (stack_info_index (w_type w))"
    by (cases "w_type w") (simp_all add: is_s32_def)
  have h: "holds mem a (wr_s32 (stack_info_index (w_type w)))" "holds mem (a + 8) (wr_u32 (prolog_size w))"
    "holds mem (a + 12) (wr_u32 (epilog_size w))" "holds mem (a + 16) (wr_u32 (w_parameter_size w))"
    "holds mem (a + 20) (wr_u32 (saved_register_size w))" "holds mem (a + 24) (wr_u32 (local_size w))"
    "holds mem (a + 28) (wr_u32 (max_stack_size w))" "holds mem (a + 32) (bool_bytes (allocates_base_pointer w))"
    "holds mem (a + 33) (cstr_bytes (program_string w))"
    using assms(1) by (simp_all add: wfi_bytes_def holds_append add.assoc)
  have b: "mem (a + 32) \<noteq> 0 \<longleftrightarrow> allocates_base_pointer w"
    using h(8) by (simp add: bool_bytes_def holds_Cons)
  show ?thesis
    using assms(3) b
    by (simp add: CopyWFI_def WindowsFrameInfo_of_def rd_s32_holds [OF h(1) ty] rd_u32_holds [OF h(2)] rd_u32_holds [OF h(3)]
      rd_u32_holds [OF h(4)] rd_u32_holds [OF h(5)] rd_u32_holds [OF h(6)] rd_u32_holds [OF h(7)]
      deser_string_holds(2) [OF h(9) assms(2)] Let_def add.assoc)
qed

text \<open>Only every second range of an inline record comes back.\<close>

lemma inline_ranges_Read_holds:
  assumes "holds mem a (ranges_bytes rs)" "(n - i + 1) div 2 \<le> length rs"
  shows "inline_ranges_Read mem a i n = take ((n - i + 1) div 2) rs"
  using assms
proof (induction rs arbitrary: a i)
  case Nil
  then have "(n - i + 1) div 2 = 0"
    by simp
  then have "\<not> i < n"
    by presburger
  then show ?case
    by (subst inline_ranges_Read.simps) simp
next
  case (Cons r rs)
  have h: "holds mem a (wr_u64 (fst r))" "holds mem (a + 8) (wr_u64 (snd r))" "holds mem (a + 16) (ranges_bytes rs)"
    using Cons.prems(1) by (simp_all add: ranges_bytes_def holds_append add.assoc)
  show ?case
  proof (cases "i < n")
    case True
    then have n: "(n - i + 1) div 2 = Suc ((n - (i + 2) + 1) div 2)"
      by presburger
    have "inline_ranges_Read mem (a + 16) (i + 2) n = take ((n - (i + 2) + 1) div 2) rs"
      using Cons.IH [OF h(3), of "i + 2"] Cons.prems(2) n by simp
    then show ?thesis
      unfolding n using True
      by (subst inline_ranges_Read.simps)
        (simp add: deser_u64_def rd_u64_holds [OF h(1)] rd_u64_holds [OF h(2)] Let_def add.assoc)
  qed (subst inline_ranges_Read.simps, simp)
qed

definition inline_fits :: "Inline \<Rightarrow> bool" where
  "inline_fits x \<longleftrightarrow> is_s32 (inline_nest_level x) \<and> is_s32 (call_site_line x) \<and> is_s32 (call_site_file_id x) \<and>
     is_s32 (origin_id x) \<and> length (inline_ranges x) < 2 ^ 32"

lemma Inline_CopyFrom_holds:
  assumes "holds mem a (inline_bytes x)" "inline_fits x"
  shows "Inline_CopyFrom mem a = x\<lparr>inline_ranges := take ((length (inline_ranges x) + 1) div 2) (inline_ranges x)\<rparr>"
proof -
  let ?n = "length (inline_ranges x)"
  have h: "holds mem a (bool_bytes (has_call_site_file_id x))" "holds mem (a + 1) (wr_s32 (inline_nest_level x))"
    "holds mem (a + 5) (wr_s32 (call_site_line x))" "holds mem (a + 9) (wr_s32 (call_site_file_id x))"
    "holds mem (a + 13) (wr_s32 (origin_id x))" "holds mem (a + 17) (wr_s32 (int ?n))"
    "holds mem (a + 21) (ranges_bytes (inline_ranges x))"
    using assms(1) by (simp_all add: inline_bytes_def holds_append add.assoc)
  have n: "unat (rd_u32 mem (a + 17)) = ?n"
    using rd_u32_holds [of mem "a + 17" "of_nat ?n"] h(6) assms(2)
    by (simp add: wr_s32_def inline_fits_def unat_of_nat)
  show ?thesis
    using assms(2)
    by (simp add: Inline_CopyFrom_def bool_Read_holds [OF h(1)] deser_s32_def deser_u32_def add.assoc inline_fits_def
      rd_s32_holds [OF h(2)] rd_s32_holds [OF h(3)] rd_s32_holds [OF h(4)] rd_s32_holds [OF h(5)] n
      inline_ranges_Read_holds [OF h(7)] Let_def)
qed

section \<open>Structures in memory\<close>

text \<open>A static map, or a tree of nested ranges, that stands in memory for the given one.\<close>

definition stands :: "'k::{linorder,zero} keytype \<Rightarrow> memory \<Rightarrow> StaticMap \<Rightarrow> ('k \<times> u8 list) list \<Rightarrow> bool" where
  "stands K mem sm kvs \<longleftrightarrow> (\<exists>raw. sm = StaticMap_at mem raw \<and> static_holds K mem raw kvs)"

definition tree_stands ::
  "memory \<Rightarrow> StaticContainedRangeMap \<Rightarrow> ('e \<Rightarrow> u8 list) \<Rightarrow> (u64, 'e) ContainedRangeMap \<Rightarrow> bool" where
  "tree_stands mem t eb c \<longleftrightarrow> (\<exists>a. t = SCRM_at mem a \<and> scrm_holds mem a eb c)"

lemma lives_stands:
  "lives mem a (map_bytes K kvs) \<Longrightarrow> om_sorted kvs \<Longrightarrow> \<forall>kv\<in>set kvs. kvalid K (fst kv) \<Longrightarrow>
   stands K mem (StaticMap_at mem a) kvs"
  by (auto simp: stands_def static_holds_def lives_def region_def)

lemma stands_lookups:
  assumes "stands key_u64 mem sm (range_bytes eb m)"
  shows "rel_option (same_lookup mem eb) (SRM_RetrieveRange mem sm a) (RetrieveRange m a)"
    and "rel_option (same_lookup mem eb) (SRM_RetrieveNearestRange mem sm a) (RetrieveNearestRange m a)"
  using assms SRM_RetrieveRange_refines SRM_RetrieveNearestRange_refines by (auto simp: stands_def)

lemma tree_stands_lookups:
  assumes "tree_stands mem t eb c" "crm_ok allow c"
  shows "\<exists>ptrs. SCRM_RetrieveRanges mem t a = Some ptrs \<and> list_all2 (entry_at mem eb) ptrs (CRM_RetrieveRanges c a)"
    and "\<exists>found. SCRM_RetrieveRange mem t a = Some found \<and> rel_option (entry_at mem eb) found (CRM_RetrieveRange c a)"
  using assms SCRM_RetrieveRanges_refines SCRM_RetrieveRange_refines by (auto simp: tree_stands_def)

lemma fast_find_stands:
  assumes "stands key_s32 mem sm (map (\<lambda>p. (fst p, eb (snd p))) m)" "om_sorted m"
  shows "rel_option (\<lambda>p v. holds mem p (eb v)) (fast_find mem sm k) (om_lookup m k)"
proof -
  let ?kvs = "map (\<lambda>p. (fst p, eb (snd p))) m"
  obtain raw where raw: "sm = StaticMap_at mem raw" "static_holds key_s32 mem raw ?kvs"
    using assms(1) by (auto simp: stands_def)
  note simps = key_s32.IteratorAtIndex_simps [OF raw(2)] key_s32.static_holds_num_nodes [OF raw(2)]
  have find: "om_find ?kvs k = om_find m k"
    by (auto simp: om_find_def Let_def)
  have it: "sm_find key_s32 mem (StaticMap_at mem raw) k = IteratorAtIndex mem (StaticMap_at mem raw) (int (om_find m k))"
    by (simp add: raw(1) key_s32.static_lookups(3) [OF raw(2)] find)
  have "holds mem (GetValueRawPtr mem (IteratorAtIndex mem (StaticMap_at mem raw) (int (om_find m k)))) (eb (snd (m ! om_find m k)))"
    if "om_find m k < length m"
    using key_s32.static_holds_value [OF raw(2), of "int (om_find m k)"] that by simp
  then show ?thesis
    using om_find_cases [of m k]
    by (auto simp: fast_find_def it om_lookup_def it_eq_def sm_end_def raw(1) simps Let_def)
qed

section \<open>Functions\<close>

definition lines_fit :: "Function \<Rightarrow> bool" where
  "lines_fit f \<longleftrightarrow> om_sorted (rm_map (f_lines f)) \<and>
     (\<forall>p\<in>set (rm_map (f_lines f)). \<exists>l. r_entry (snd p) = Some l \<and> is_s32 (l_source_file_id l) \<and> is_s32 (l_line l))"

text \<open>Inline records with at most one range: more of them do not come back from memory.\<close>

definition inlines_fit :: "Function \<Rightarrow> bool" where
  "inlines_fit f \<longleftrightarrow> crm_ok True (f_inlines f) \<and> length (inlines_bytes f) < 2 ^ 31 \<and>
     (\<forall>r\<in>set (crm_ranges (f_inlines f)). \<exists>x. snd (snd r) = Some x \<and> inline_fits x \<and> length (inline_ranges x) \<le> 1)"

definition function_fits :: "Function \<Rightarrow> bool" where
  "function_fits f \<longleftrightarrow> nul_free (f_name f) \<and> is_s32 (f_parameter_size f) \<and> lines_fit f \<and> inlines_fit f"

lemma Function_CopyFrom_lives:
  assumes l: "lives mem a (function_bytes f)" and fits: "function_fits f"
  shows "\<exists>ff. Function_CopyFrom mem a = Some ff \<and> ff_name ff = f_name f \<and>
    ff_parameter_size ff = f_parameter_size f \<and> ff_is_multiple ff = f_is_multiple f \<and>
    tree_stands mem (ff_inlines ff) (linked_bytes inline_bytes) (f_inlines f) \<and>
    stands key_u64 mem (ff_lines ff) (range_bytes (linked_bytes line_bytes) (rm_map (f_lines f)))"
proof -
  let ?b = "inlines_bytes f"
  let ?l = "rng_bytes (linked_bytes line_bytes) (rm_map (f_lines f))"
  define q where "q = a + of_nat (length (cstr_bytes (f_name f)))"
  have h: "holds mem a (cstr_bytes (f_name f))" "holds mem q (wr_u64 (f_address f))" "holds mem (q + 8) (wr_u64 (f_size f))"
    "holds mem (q + 16) (wr_s32 (f_parameter_size f))" "holds mem (q + 20) (bool_bytes (f_is_multiple f))"
    "holds mem (q + 21) (wr_u32 (of_nat (length ?b)))"
    using livesD(1) [OF l] by (simp_all add: function_bytes_def holds_append q_def add.assoc)
  have len: "length (function_bytes f) = length (cstr_bytes (f_name f)) + 25 + length ?b + length ?l"
    by (simp add: function_bytes_def)
  have tail: "lives mem (q + 25) (?b @ ?l)"
    using lives_sub [OF livesD(2) [OF l], of "length (cstr_bytes (f_name f)) + 25" "?b @ ?l" mem] livesD(1) [OF l] len
    by (simp add: function_bytes_def holds_append q_def add.assoc)
  have size: "rd_s32 mem (q + 21) = int (length ?b)"
    using rd_u32_holds [OF h(6)] fits
    by (simp add: rd_s32_def function_fits_def inlines_fit_def signed_of_nat signed_take_bit_int_eq_self)
  have "scrm_holds mem (q + 25) (linked_bytes inline_bytes) (f_inlines f)"
    using lives_append(1) [OF tail] by (auto simp: scrm_holds_def lives_def inlines_bytes_def region_def)
  moreover have "static_holds key_u64 mem (q + 25 + of_nat (length ?b)) (range_bytes (linked_bytes line_bytes) (rm_map (f_lines f)))"
    using lives_append(2) [OF tail] fits
    by (auto simp: static_holds_def lives_def rng_bytes_def region_def function_fits_def lines_fit_def range_bytes_def)
  moreover have "is_s32 (f_parameter_size f)" "nul_free (f_name f)"
    using fits by (simp_all add: function_fits_def)
  ultimately show ?thesis
    unfolding stands_def tree_stands_def
    by (simp add: Function_CopyFrom_def deser_string_holds(1) [OF h(1), folded q_def] deser_u64_def deser_s32_def
      rd_s32_holds [OF h(4)] bool_Read_holds [OF h(5)] size Let_def add.assoc) blast
qed

section \<open>Modules\<close>

definition represents :: "memory \<Rightarrow> FastModule \<Rightarrow> Module \<Rightarrow> bool" where
  "represents mem fm m \<longleftrightarrow> fm_is_corrupt fm = m_is_corrupt m \<and>
     stands key_s32 mem (fm_files fm) (map (\<lambda>p. (fst p, cstr_bytes (snd p))) (m_files m)) \<and>
     stands key_u64 mem (fm_functions fm) (range_bytes (linked_bytes function_bytes) (rm_map (m_functions m))) \<and>
     stands key_u64 mem (fm_public_symbols fm) (map (\<lambda>p. (fst p, linked_bytes public_bytes (snd p))) (m_public_symbols m)) \<and>
     list_all2 (\<lambda>t. tree_stands mem t (linked_bytes wfi_bytes)) (fm_windows_frame_info fm) (m_windows_frame_info m) \<and>
     stands key_u64 mem (fm_cfi_initial_rules fm) (range_bytes cstr_bytes (rm_map (m_cfi_initial_rules m))) \<and>
     stands key_u64 mem (fm_cfi_delta_rules fm) (map (\<lambda>p. (fst p, cstr_bytes (snd p))) (m_cfi_delta_rules m)) \<and>
     stands key_s32 mem (fm_inline_origins fm) (map (\<lambda>p. (fst p, linked_bytes origin_bytes (snd p))) (m_inline_origins m))"

text \<open>The modules whose records survive the round through memory.\<close>

definition wfi_fits :: "(u64, WindowsFrameInfo option) ContainedRangeMap \<Rightarrow> bool" where
  "wfi_fits c \<longleftrightarrow> crm_ok False c \<and>
     (\<forall>r\<in>set (crm_ranges c). \<exists>w. snd (snd r) = Some w \<and> nul_free (program_string w) \<and> w_valid w = VALID_ALL)"

definition module_fits :: "Module \<Rightarrow> bool" where
  "module_fits m \<longleftrightarrow> om_sorted (m_files m) \<and> (\<forall>p\<in>set (m_files m). is_s32 (fst p) \<and> nul_free (snd p)) \<and>
     om_sorted (rm_map (m_functions m)) \<and>
     (\<forall>p\<in>set (rm_map (m_functions m)). \<exists>f. r_entry (snd p) = Some f \<and> function_fits f) \<and>
     om_sorted (m_public_symbols m) \<and>
     (\<forall>p\<in>set (m_public_symbols m). \<exists>x. snd p = Some x \<and> nul_free (p_name x) \<and> is_s32 (p_parameter_size x)) \<and>
     length (m_windows_frame_info m) = 5 \<and> (\<forall>c\<in>set (m_windows_frame_info m). wfi_fits c) \<and>
     om_sorted (rm_map (m_cfi_initial_rules m)) \<and> (\<forall>p\<in>set (rm_map (m_cfi_initial_rules m)). nul_free (r_entry (snd p))) \<and>
     om_sorted (m_cfi_delta_rules m) \<and> (\<forall>p\<in>set (m_cfi_delta_rules m). nul_free (snd p)) \<and>
     om_sorted (m_inline_origins m) \<and>
     (\<forall>p\<in>set (m_inline_origins m). is_s32 (fst p) \<and>
       (\<exists>x. snd p = Some x \<and> nul_free (o_name x) \<and> is_s32 (o_source_file_id x)))"

lemma om_lookup_mem: "om_lookup m k = Some v \<Longrightarrow> \<exists>p\<in>set m. fst p = k \<and> snd p = v"
  using om_find_cases [of m k] by (auto simp: om_lookup_def Let_def split: if_splits intro!: bexI [of _ "m ! om_find m k"])

lemma fast_file_eq:
  assumes rep: "represents mem fm m" and fits: "module_fits m"
  shows "fast_file mem fm k = Some (om_lookup (m_files m) k)"
proof -
  have "rel_option (\<lambda>p v. holds mem p (cstr_bytes v)) (fast_find mem (fm_files fm) k) (om_lookup (m_files m) k)"
    by (rule fast_find_stands) (use rep fits in \<open>simp_all add: represents_def module_fits_def\<close>)
  moreover have "nul_free v" if "om_lookup (m_files m) k = Some v" for v
    using om_lookup_mem [OF that] fits by (auto simp: module_fits_def)
  ultimately show ?thesis
    by (cases "om_lookup (m_files m) k") (auto simp: fast_file_def deser_string_holds(2) option_rel_Some2)
qed

lemma fast_origin_eq:
  assumes rep: "represents mem fm m" and fits: "module_fits m"
  shows "fast_origin_name mem fm k = Some (map_option (\<lambda>x. o_name (the x)) (om_lookup (m_inline_origins m) k))"
proof -
  have "rel_option (\<lambda>p v. holds mem p (linked_bytes origin_bytes v)) (fast_find mem (fm_inline_origins fm) k)
      (om_lookup (m_inline_origins m) k)"
    by (rule fast_find_stands) (use rep fits in \<open>simp_all add: represents_def module_fits_def\<close>)
  moreover have "\<exists>x. v = Some x \<and> nul_free (o_name x) \<and> is_s32 (o_source_file_id x)"
    if "om_lookup (m_inline_origins m) k = Some v" for v
    using om_lookup_mem [OF that] fits by (auto simp: module_fits_def)
  ultimately show ?thesis
    by (cases "om_lookup (m_inline_origins m) k")
      (auto simp: fast_origin_name_def option_rel_Some2 InlineOrigin_CopyFrom_holds)
qed

lemma fast_inline_frame_eq:
  assumes rep: "represents mem fm m" and fits: "module_fits m"
    and "entry_at mem (linked_bytes inline_bytes) p (Some x)" "inline_fits x" "length (inline_ranges x) \<le> 1"
  shows "fast_inline_frame mem fm frame address p = Some (inline_frame frame address
    (map_option (\<lambda>o'. o_name (the o')) (om_lookup (m_inline_origins m) (origin_id x))) (call_site_file m x) x)"
proof -
  have "inline_bytes x \<noteq> []"
    by (simp add: inline_bytes_def bool_bytes_def)
  then have "holds mem p (inline_bytes x)"
    using assms(3) by (simp add: entry_at_def lives_def)
  moreover have "take ((length (inline_ranges x) + 1) div 2) (inline_ranges x) = inline_ranges x"
    using assms(5) by (cases "inline_ranges x") auto
  ultimately have "Inline_CopyFrom mem p = x"
    using Inline_CopyFrom_holds [OF _ assms(4), of mem p] by simp
  then show ?thesis
    by (simp add: fast_inline_frame_def fast_origin_eq [OF rep fits] fast_file_eq [OF rep fits] call_site_file_def Let_def)
qed

lemma fast_inline_frames_eq:
  assumes rep: "represents mem fm m" and fits: "module_fits m"
    and "list_all2 (entry_at mem (linked_bytes inline_bytes)) ps es"
    "\<forall>e\<in>set es. \<exists>x. e = Some x \<and> inline_fits x \<and> length (inline_ranges x) \<le> 1"
  shows "fast_inline_frames mem fm frame address ps = Some (map (\<lambda>inl. inline_frame frame address
    (map_option (\<lambda>o'. o_name (the o')) (om_lookup (m_inline_origins m) (origin_id (the inl))))
    (call_site_file m (the inl)) (the inl)) es)"
  using assms(3,4) by (induction rule: list_all2_induct) (auto simp: fast_inline_frame_eq [OF rep fits])

lemma Fast_ConstructInlineFrames_eq:
  assumes rep: "represents mem fm m" and fits: "module_fits m"
    and "tree_stands mem t (linked_bytes inline_bytes) (f_inlines f)" "inlines_fit f"
  shows "Fast_ConstructInlineFrames mem fm frame address t frames =
    Some (ConstructInlineFrames m frame address (f_inlines f) frames)"
proof -
  have ok: "crm_ok True (f_inlines f)"
    using assms(4) by (simp add: inlines_fit_def)
  obtain ptrs where ptrs: "SCRM_RetrieveRanges mem t address = Some ptrs"
      "list_all2 (entry_at mem (linked_bytes inline_bytes)) ptrs (CRM_RetrieveRanges (f_inlines f) address)"
    using tree_stands_lookups(1) [OF assms(3) ok] by blast
  have "\<forall>e\<in>set (CRM_RetrieveRanges (f_inlines f) address). \<exists>x. e = Some x \<and> inline_fits x \<and> length (inline_ranges x) \<le> 1"
    using assms(4) by (auto simp: RetrieveRanges_eq [OF ok] inlines_fit_def)
  from fast_inline_frames_eq [OF rep fits ptrs(2) this, of frame address] show ?thesis
    using ptrs(1) list_all2_lengthD [OF ptrs(2)]
    by (auto simp: Fast_ConstructInlineFrames_def ConstructInlineFrames_def Let_def)
qed

lemma fast_line_eq:
  assumes rep: "represents mem fm m" and fits: "module_fits m"
    and st: "stands key_u64 mem sm (range_bytes (linked_bytes line_bytes) (rm_map (f_lines f)))" and fit: "lines_fit f"
  shows "fast_line mem fm frame address sm =
    Some (case RetrieveRange (rm_map (f_lines f)) address of None \<Rightarrow> frame
      | Some (line, line_base, _, _) \<Rightarrow>
          fill_line frame (om_lookup (m_files m) (l_source_file_id (the line))) (l_line (the line)) line_base)"
proof (cases "RetrieveRange (rm_map (f_lines f)) address")
  case None
  then show ?thesis
    using stands_lookups(1) [OF st, of address] by (simp add: fast_line_def)
next
  case (Some res)
  obtain line b d sz where res: "res = (line, b, d, sz)"
    by (cases res)
  obtain p where "p \<in> set (rm_map (f_lines f))" "line = r_entry (snd p)"
    using RetrieveRange_mem [OF Some] by (auto simp: res range_result_def)
  then obtain l where l: "line = Some l" "is_s32 (l_source_file_id l)" "is_s32 (l_line l)"
    using fit by (auto simp: lines_fit_def)
  obtain ptr where "SRM_RetrieveRange mem sm address = Some (ptr, b, sz)" "lives mem ptr (line_bytes l)"
    using stands_lookups(1) [OF st, of address] Some
    by (auto simp: res l(1) same_lookup_def option_rel_Some2)
  then show ?thesis
    using Some l(2,3) Line_CopyFrom_holds [OF livesD(1), of mem ptr l]
    by (simp add: fast_line_def res l(1) fast_file_eq [OF rep fits] Let_def)
qed


lemma fast_public_eq:
  assumes rep: "represents mem fm m" and fits: "module_fits m"
  shows "fast_public mem fm frame address func = Some (case AddressMap_Retrieve (m_public_symbols m) address of
      None \<Rightarrow> frame
    | Some (psym, public_address) \<Rightarrow>
        if (case func of None \<Rightarrow> True | Some (func_ptr, base) \<Rightarrow> func_ptr = 0 \<or> base < public_address) then
          fill_symbol frame (p_name (the psym)) public_address (p_is_multiple (the psym))
        else frame)"
proof -
  obtain raw where raw: "fm_public_symbols fm = StaticMap_at mem raw"
      "static_holds key_u64 mem raw (map (\<lambda>p. (fst p, linked_bytes public_bytes (snd p))) (m_public_symbols m))"
    using rep by (auto simp: represents_def stands_def)
  note ref = SAM_Retrieve_refines [OF raw(2), of address]
  show ?thesis
  proof (cases "AddressMap_Retrieve (m_public_symbols m) address")
    case None
    then show ?thesis
      using ref by (simp add: fast_public_def raw(1))
  next
    case (Some res)
    obtain psym pa where res: "res = (psym, pa)"
      by (cases res)
    obtain x where x: "psym = Some x" "nul_free (p_name x)" "is_s32 (p_parameter_size x)"
      using AddressMap_Retrieve_mem [OF Some [unfolded res]] fits by (force simp: module_fits_def)
    obtain ptr where "SAM_Retrieve mem (StaticMap_at mem raw) address = Some (ptr, pa)" "lives mem ptr (public_bytes x)"
      using ref Some by (auto simp: res x(1) option_rel_Some2)
    then show ?thesis
      using Some PublicSymbol_CopyFrom_holds [OF livesD(1) x(2,3)] by (auto simp: fast_public_def raw(1) res x(1))
  qed
qed

text \<open>The nearest function in memory and in the module.\<close>

lemma nearest_function:
  assumes rep: "represents mem fm m" and fits: "module_fits m"
  obtains (none) "SRM_RetrieveNearestRange mem (fm_functions fm) address = None"
      "RetrieveNearestRange (rm_map (m_functions m)) address = None"
    | (some) f d ptr b sz where "SRM_RetrieveNearestRange mem (fm_functions fm) address = Some (ptr, b, sz)"
      "RetrieveNearestRange (rm_map (m_functions m)) address = Some (Some f, b, d, sz)"
      "lives mem ptr (function_bytes f)" "function_fits f"
proof -
  have st: "stands key_u64 mem (fm_functions fm) (range_bytes (linked_bytes function_bytes) (rm_map (m_functions m)))"
    using rep by (simp add: represents_def)
  note ref = stands_lookups(2) [OF st, of address]
  show thesis
  proof (cases "RetrieveNearestRange (rm_map (m_functions m)) address")
    case None
    then show thesis
      using none ref by simp
  next
    case (Some res)
    obtain p where p: "p \<in> set (rm_map (m_functions m))" "res = range_result p"
      using RetrieveNearestRange_mem [OF Some] by blast
    obtain f where f: "r_entry (snd p) = Some f" "function_fits f"
      using fits p(1) by (auto simp: module_fits_def)
    show thesis
      using ref some [of _ _ _ f] Some f
      by (auto simp: p(2) range_result_def same_lookup_def option_rel_Some2)
  qed
qed

lemma Fast_LookupAddress_eq:
  assumes rep: "represents mem fm m" and fits: "module_fits m"
  shows "Fast_LookupAddress mem fm frame inlined_frames = Some (LookupAddress m frame inlined_frames)"
proof (cases rule: nearest_function [OF rep fits, of "relative_address frame", case_names none some])
  case none
  then show ?thesis
    by (simp add: Fast_LookupAddress_def LookupAddress_def Let_def fast_public_eq [OF rep fits] split: option.splits)
next
  case (some f d ptr b sz)
  let ?a = "relative_address frame"
  have nz: "ptr \<noteq> 0"
    using livesD(2) [OF some(3)] by auto
  obtain ff where ff: "Function_CopyFrom mem ptr = Some ff" "ff_name ff = f_name f" "ff_is_multiple ff = f_is_multiple f"
      "tree_stands mem (ff_inlines ff) (linked_bytes inline_bytes) (f_inlines f)"
      "stands key_u64 mem (ff_lines ff) (range_bytes (linked_bytes line_bytes) (rm_map (f_lines f)))"
    using Function_CopyFrom_lives [OF some(3,4)] by blast
  have fit: "lines_fit f" "inlines_fit f"
    using some(4) by (simp_all add: function_fits_def)
  show ?thesis
  proof (cases "in_function ?a b sz")
    case True
    then show ?thesis
      using some(1,2) ff(1-3)
      by (simp add: Fast_LookupAddress_def LookupAddress_def Let_def fast_line_eq [OF rep fits ff(5) fit(1)]
        Fast_ConstructInlineFrames_eq [OF rep fits ff(4) fit(2)] split: option.splits prod.splits)
  next
    case False
    then show ?thesis
      using some(1,2) nz
      by (simp add: Fast_LookupAddress_def LookupAddress_def Let_def fast_public_eq [OF rep fits] split: option.splits)
  qed
qed

lemma fast_wfi_lookup:
  assumes rep: "represents mem fm m" and fits: "module_fits m" and i: "i < 5"
  shows "\<exists>found. SCRM_RetrieveRange mem (fm_windows_frame_info fm ! i) a = Some found \<and>
    rel_option (\<lambda>p e. \<exists>w. e = Some w \<and> CopyWFI mem p = Some w) found (CRM_RetrieveRange (m_windows_frame_info m ! i) a)"
proof -
  let ?c = "m_windows_frame_info m ! i"
  have c: "?c \<in> set (m_windows_frame_info m)"
    using fits i by (simp add: module_fits_def)
  then have fit: "wfi_fits ?c" "crm_ok False ?c"
    using fits by (auto simp: module_fits_def wfi_fits_def)
  have "tree_stands mem (fm_windows_frame_info fm ! i) (linked_bytes wfi_bytes) ?c"
    using rep fits i by (auto simp: represents_def module_fits_def list_all2_conv_all_nth)
  then obtain found where found: "SCRM_RetrieveRange mem (fm_windows_frame_info fm ! i) a = Some found"
      "rel_option (entry_at mem (linked_bytes wfi_bytes)) found (CRM_RetrieveRange ?c a)"
    using tree_stands_lookups(2) [OF _ fit(2)] by blast
  have "\<exists>w. e = Some w \<and> CopyWFI mem p = Some w"
    if e: "CRM_RetrieveRange ?c a = Some e" "entry_at mem (linked_bytes wfi_bytes) p e" for p e
  proof -
    have "e \<in> set (CRM_RetrieveRanges ?c a)"
      using e(1) RetrieveRange_eq_first [OF fit(2), of a] by (cases "CRM_RetrieveRanges ?c a") auto
    then obtain w where w: "e = Some w" "nul_free (program_string w)" "w_valid w = VALID_ALL"
      using fit by (auto simp: RetrieveRanges_eq [OF fit(2)] wfi_fits_def)
    have "wfi_bytes w \<noteq> []"
      by (simp add: wfi_bytes_def bool_bytes_def)
    then show ?thesis
      using e(2) w CopyWFI_holds [OF _ w(2,3), of mem p] by (simp add: entry_at_def lives_def)
  qed
  then show ?thesis
    using found by (cases "CRM_RetrieveRange ?c a") (auto simp: option_rel_Some2)
qed

lemma Fast_FindWindowsFrameInfo_eq:
  assumes rep: "represents mem fm m" and fits: "module_fits m"
  shows "Fast_FindWindowsFrameInfo mem fm frame = Some (FindWindowsFrameInfo m frame)"
proof -
  let ?a = "relative_address frame"
  obtain r4 where r4: "SCRM_RetrieveRange mem (fm_windows_frame_info fm ! 4) ?a = Some r4"
      "rel_option (\<lambda>p e. \<exists>w. e = Some w \<and> CopyWFI mem p = Some w) r4 (CRM_RetrieveRange (m_windows_frame_info m ! 4) ?a)"
    using fast_wfi_lookup [OF rep fits, of 4 ?a] by auto
  obtain r0 where r0: "SCRM_RetrieveRange mem (fm_windows_frame_info fm ! 0) ?a = Some r0"
      "rel_option (\<lambda>p e. \<exists>w. e = Some w \<and> CopyWFI mem p = Some w) r0 (CRM_RetrieveRange (m_windows_frame_info m ! 0) ?a)"
    using fast_wfi_lookup [OF rep fits, of 0 ?a] by auto
  have nearest: "(case SRM_RetrieveNearestRange mem (fm_functions fm) ?a of
        Some (function_ptr, base, sz) \<Rightarrow>
          if in_function ?a base sz then
            map_option (\<lambda>func. Some (WindowsFrameInfo_new\<lparr>w_parameter_size := of_int (ff_parameter_size func),
                w_valid := or VALID_NONE VALID_PARAMETER_SIZE\<rparr>)) (Function_CopyFrom mem function_ptr)
          else Some None
      | None \<Rightarrow> Some None) =
    Some (case RetrieveNearestRange (rm_map (m_functions m)) ?a of
        Some (func, base, _, sz) \<Rightarrow>
          if in_function ?a base sz then
            Some (WindowsFrameInfo_new\<lparr>w_parameter_size := of_int (f_parameter_size (the func)),
               w_valid := or VALID_NONE VALID_PARAMETER_SIZE\<rparr>)
          else None
      | None \<Rightarrow> None)"
  proof (cases rule: nearest_function [OF rep fits, of ?a, case_names none some])
    case (some f d ptr b sz)
    then show ?thesis
      using Function_CopyFrom_lives [OF some(3,4)] by auto
  qed simp
  show ?thesis
    using r4 r0 nearest
    by (cases "CRM_RetrieveRange (m_windows_frame_info m ! 4) ?a"; cases "CRM_RetrieveRange (m_windows_frame_info m ! 0) ?a")
      (auto simp: Fast_FindWindowsFrameInfo_def FindWindowsFrameInfo_def Let_def option_rel_Some2)
qed

lemma fast_deltas_eq:
  assumes h: "static_holds key_u64 mem raw (map (\<lambda>p. (fst p, cstr_bytes (snd p))) ds)"
    and nul: "\<forall>p\<in>set ds. nul_free (snd p)" and i: "i \<le> length ds"
  shows "fast_deltas mem (StaticMap_at mem raw) a (IteratorAtIndex mem (StaticMap_at mem raw) (int i)) rules =
    Some (apply_deltas a (drop i ds) rules)"
  using i
proof (induction "length ds - i" arbitrary: i rules)
  case 0
  then show ?case
    by (subst fast_deltas.simps) (simp add: it_eq_IteratorAtIndex(2) [OF h])
next
  case (Suc n)
  then have i: "i < length ds" and n: "n = length ds - Suc i"
    by auto
  let ?it = "IteratorAtIndex mem (StaticMap_at mem raw) (int i)"
  have key: "it_GetKey key_u64 mem ?it = fst (ds ! i)"
    using key_u64.static_holds_GetKey [OF h, of "int i"] i by simp
  have val: "rd_cstring mem (GetValueRawPtr mem ?it) = Some (snd (ds ! i))"
    using key_u64.static_holds_value [OF h, of "int i"] i nul by (simp add: deser_string_holds(2))
  have inc: "it_inc ?it = IteratorAtIndex mem (StaticMap_at mem raw) (int (Suc i))"
    using key_u64.IteratorAtIndex_simps [OF h] i
    by (auto simp: it_inc_def Let_def IteratorAtIndex_def StaticMapIterator_new_def)
  have "drop i ds = ds ! i # drop (Suc i) ds"
    using i by (rule Cons_nth_drop_Suc [symmetric])
  then show ?case
    using i Suc.hyps(1) [OF n] key val inc
    by (subst fast_deltas.simps) (simp add: it_eq_IteratorAtIndex(2) [OF h] it_inc_post_def)
qed

lemma Fast_FindCFIFrameInfo_eq:
  assumes rep: "represents mem fm m" and fits: "module_fits m"
  shows "Fast_FindCFIFrameInfo mem fm frame = Some (FindCFIFrameInfo m frame)"
proof -
  let ?a = "relative_address frame"
  let ?ds = "m_cfi_delta_rules m"
  have st: "stands key_u64 mem (fm_cfi_initial_rules fm) (range_bytes cstr_bytes (rm_map (m_cfi_initial_rules m)))"
    using rep by (simp add: represents_def)
  obtain raw where raw: "fm_cfi_delta_rules fm = StaticMap_at mem raw"
      "static_holds key_u64 mem raw (map (\<lambda>p. (fst p, cstr_bytes (snd p))) ?ds)"
    using rep by (auto simp: represents_def stands_def)
  have nul: "\<forall>p\<in>set ?ds. nul_free (snd p)"
    using fits by (simp add: module_fits_def)
  show ?thesis
  proof (cases "RetrieveRange (rm_map (m_cfi_initial_rules m)) ?a")
    case None
    then show ?thesis
      using stands_lookups(1) [OF st, of ?a] by (simp add: Fast_FindCFIFrameInfo_def FindCFIFrameInfo_def)
  next
    case (Some res)
    obtain s b d sz where res: "res = (s, b, d, sz)"
      by (cases res)
    obtain ptr where ptr: "SRM_RetrieveRange mem (fm_cfi_initial_rules fm) ?a = Some (ptr, b, sz)" "lives mem ptr (cstr_bytes s)"
      using stands_lookups(1) [OF st, of ?a] Some by (auto simp: res same_lookup_def option_rel_Some2)
    have "nul_free s"
      using RetrieveRange_mem [OF Some] fits by (auto simp: res range_result_def module_fits_def)
    then have "rd_cstring mem ptr = Some s"
      using deser_string_holds(2) [OF livesD(1) [OF ptr(2)]] by simp
    then show ?thesis
      using Some ptr(1) fast_deltas_eq [OF raw(2) nul om_lower_bound_le]
      by (simp add: Fast_FindCFIFrameInfo_def FindCFIFrameInfo_def res raw(1) key_u64.static_lookups(1) [OF raw(2)] Let_def
        split: prod.splits)
  qed
qed

section \<open>Loading a serialized module\<close>

lemma module_bytes_lives:
  assumes l: "lives mem p (module_bytes m)" and ok: "module_ok m"
  shows "bool_Read mem p = (m_is_corrupt m, p + 1)"
    and "i < kNumberMaps \<Longrightarrow> module_size_at mem (p + 1) i = of_nat (length (module_maps m ! i))"
    and "i < kNumberMaps \<Longrightarrow> lives mem (p + 1 + of_nat (8 * kNumberMaps + length (concat (take i (module_maps m))))) (module_maps m ! i)"
proof -
  let ?sizes = "concat (map (\<lambda>bs. wr_u64 (of_nat (length bs))) (module_maps m))"
  have n: "length (module_maps m) = kNumberMaps"
    by (rule length_module_maps [OF ok])
  have len: "length ?sizes = 8 * kNumberMaps"
    by (simp add: length_concat_const [where n = 8] n)
  have h: "holds mem p (bool_bytes (m_is_corrupt m))" "holds mem (p + 1) ?sizes"
    "holds mem (p + 1 + of_nat (8 * kNumberMaps)) (concat (module_maps m))"
    using livesD(1) [OF l] by (simp_all add: module_bytes_def holds_append len)
  show "bool_Read mem p = (m_is_corrupt m, p + 1)"
    by (rule bool_Read_holds [OF h(1)])
  show "module_size_at mem (p + 1) i = of_nat (length (module_maps m ! i))" if "i < kNumberMaps"
    using holds_array_nth [OF h(2), of i 8] that n by (simp add: module_size_at_def rd_u64_holds)
  show "lives mem (p + 1 + of_nat (8 * kNumberMaps + length (concat (take i (module_maps m))))) (module_maps m ! i)"
    if i: "i < kNumberMaps"
  proof -
    let ?d = "1 + (8 * kNumberMaps + length (concat (take i (module_maps m))))"
    have "length (concat (module_maps m)) = length (concat (take i (module_maps m))) + length (module_maps m ! i) +
        length (concat (drop (Suc i) (module_maps m)))"
      using i n by (subst id_take_nth_drop [of i "module_maps m"]) simp_all
    then have "?d + length (module_maps m ! i) \<le> length (module_bytes m)"
      by (simp add: module_bytes_def len)
    moreover have "holds mem (p + of_nat ?d) (module_maps m ! i)"
      using holds_concat_nth [of mem "p + 1 + of_nat (8 * kNumberMaps)" "\<lambda>x. x" "module_maps m" i] h(3) i n
      by (simp add: add.assoc)
    ultimately have "lives mem (p + of_nat ?d) (module_maps m ! i)"
      by (rule lives_sub [OF livesD(2) [OF l]])
    then show ?thesis
      by (simp add: add.assoc)
  qed
qed

lemma module_offset_eq:
  assumes "lives mem p (module_bytes m)" "module_ok m" "i \<le> kNumberMaps"
  shows "module_offset mem (p + 1) i = of_nat (8 * kNumberMaps + length (concat (take i (module_maps m))))"
  using assms(3)
proof (induction i)
  case (Suc i)
  then show ?case
    using module_bytes_lives(2) [OF assms(1,2), of i] length_module_maps [OF assms(2)]
    by (simp add: take_Suc_conv_app_nth algebra_simps)
qed (simp add: mult.commute)

lemma Fast_Load_represents:
  assumes l: "lives mem p (module_bytes m)" and ok: "module_ok m" and fits: "module_fits m"
    and sz: "sz = of_nat (length (module_bytes m)) \<or> sz = of_nat (length (module_bytes m)) + 1"
  shows "\<exists>fm'. Fast_LoadMapFromMemory mem p sz fm = (fm', True) \<and> represents mem fm' m"
proof -
  note n = length_module_maps [OF ok]
  note off = module_offset_eq [OF l ok]
  have total: "1 + module_offset mem (p + 1) (kNumberMaps - 1) + module_size_at mem (p + 1) (kNumberMaps - 1) + 1 =
      of_nat (length (module_bytes m))"
  proof -
    have k: "kNumberMaps = Suc (kNumberMaps - 1)"
      by (simp add: kNumberMaps_def)
    have "module_offset mem (p + 1) kNumberMaps =
        module_offset mem (p + 1) (kNumberMaps - 1) + module_size_at mem (p + 1) (kNumberMaps - 1)"
      by (subst k) simp
    moreover have "module_offset mem (p + 1) kNumberMaps = of_nat (8 * kNumberMaps + length (concat (module_maps m)))"
      using off [of kNumberMaps] n by simp
    moreover have "length (module_bytes m) = 1 + 8 * kNumberMaps + length (concat (module_maps m)) + 1"
      by (simp add: module_bytes_def length_concat_const [where n = 8] n)
    ultimately show ?thesis
      by simp
  qed
  define at where "at i = p + 1 + module_offset mem (p + 1) i" for i
  have live: "lives mem (at i) (module_maps m ! i)" if "i < kNumberMaps" for i
    using module_bytes_lives(3) [OF l ok that] off [of i] that by (simp add: at_def)
  have nz: "p \<noteq> 0"
    using livesD(2) [OF l] by auto
  have m5: "length (m_windows_frame_info m) = 5"
    using fits by (simp add: module_fits_def)
  have maps: "module_maps m ! 0 = kv_bytes key_s32 cstr_bytes (m_files m)"
    "module_maps m ! 1 = rng_bytes (linked_bytes function_bytes) (rm_map (m_functions m))"
    "module_maps m ! 2 = kv_bytes key_u64 (linked_bytes public_bytes) (m_public_symbols m)"
    "\<And>i. i < 5 \<Longrightarrow> module_maps m ! (3 + i) = crm_bytes (linked_bytes wfi_bytes) (m_windows_frame_info m ! i)"
    "module_maps m ! 8 = rng_bytes cstr_bytes (rm_map (m_cfi_initial_rules m))"
    "module_maps m ! 9 = kv_bytes key_u64 cstr_bytes (m_cfi_delta_rules m)"
    "module_maps m ! 10 = kv_bytes key_s32 (linked_bytes origin_bytes) (m_inline_origins m)"
    using m5 by (simp_all add: module_maps_def nth_append)
  have live': "lives mem (at 0) (module_maps m ! 0)" "lives mem (at 1) (module_maps m ! 1)" "lives mem (at 2) (module_maps m ! 2)"
    "lives mem (at 8) (module_maps m ! 8)" "lives mem (at 9) (module_maps m ! 9)" "lives mem (at 10) (module_maps m ! 10)"
    by (rule live, simp add: kNumberMaps_def)+
  have tree: "tree_stands mem (SCRM_at mem (at (3 + i))) (linked_bytes wfi_bytes) (m_windows_frame_info m ! i)" if "i < 5" for i
  proof -
    have "lives mem (at (3 + i)) (crm_bytes (linked_bytes wfi_bytes) (m_windows_frame_info m ! i))"
      using live [of "3 + i"] maps(4) [OF that] that by (simp add: kNumberMaps_def)
    then show ?thesis
      by (auto simp: tree_stands_def scrm_holds_def lives_def region_def)
  qed
  let ?fm = "fm\<lparr>fm_is_corrupt := m_is_corrupt m, fm_files := StaticMap_at mem (at 0), fm_functions := StaticMap_at mem (at 1),
              fm_public_symbols := StaticMap_at mem (at 2),
              fm_windows_frame_info := map (\<lambda>i. SCRM_at mem (at (3 + i))) [0..<5],
              fm_cfi_initial_rules := StaticMap_at mem (at 8), fm_cfi_delta_rules := StaticMap_at mem (at 9),
              fm_inline_origins := StaticMap_at mem (at 10)\<rparr>"
  have "Fast_LoadMapFromMemory mem p sz fm = (?fm, True)"
    using sz nz by (auto simp: Fast_LoadMapFromMemory_def module_bytes_lives(1) [OF l ok] total [simplified] at_def Let_def)
  moreover have "represents mem ?fm m"
  proof -
    have "stands key_s32 mem (StaticMap_at mem (at 0)) (map (\<lambda>p. (fst p, cstr_bytes (snd p))) (m_files m))"
      by (rule lives_stands) (use live'(1) maps(1) fits in \<open>auto simp: kv_bytes_def module_fits_def\<close>)
    moreover have "stands key_u64 mem (StaticMap_at mem (at 1)) (range_bytes (linked_bytes function_bytes) (rm_map (m_functions m)))"
      by (rule lives_stands) (use live'(2) maps(2) fits in \<open>auto simp: rng_bytes_def module_fits_def range_bytes_def\<close>)
    moreover have "stands key_u64 mem (StaticMap_at mem (at 2)) (map (\<lambda>p. (fst p, linked_bytes public_bytes (snd p))) (m_public_symbols m))"
      by (rule lives_stands) (use live'(3) maps(3) fits in \<open>auto simp: kv_bytes_def module_fits_def\<close>)
    moreover have "stands key_u64 mem (StaticMap_at mem (at 8)) (range_bytes cstr_bytes (rm_map (m_cfi_initial_rules m)))"
      by (rule lives_stands) (use live'(4) maps(5) fits in \<open>auto simp: rng_bytes_def module_fits_def range_bytes_def\<close>)
    moreover have "stands key_u64 mem (StaticMap_at mem (at 9)) (map (\<lambda>p. (fst p, cstr_bytes (snd p))) (m_cfi_delta_rules m))"
      by (rule lives_stands) (use live'(5) maps(6) fits in \<open>auto simp: kv_bytes_def module_fits_def\<close>)
    moreover have "stands key_s32 mem (StaticMap_at mem (at 10)) (map (\<lambda>p. (fst p, linked_bytes origin_bytes (snd p))) (m_inline_origins m))"
      by (rule lives_stands) (use live'(6) maps(7) fits in \<open>auto simp: kv_bytes_def module_fits_def\<close>)
    moreover have "list_all2 (\<lambda>t. tree_stands mem t (linked_bytes wfi_bytes)) (map (\<lambda>i. SCRM_at mem (at (3 + i))) [0..<5]) (m_windows_frame_info m)"
      using tree m5 by (simp add: list_all2_conv_all_nth)
    ultimately show ?thesis
      by (simp add: represents_def)
  qed
  ultimately show ?thesis
    by blast
qed

lemma fast_agrees:
  assumes "module_ok m" "module_fits m" "length (module_bytes m) < 2 ^ 32" "region p (length (module_bytes m))"
    "Module_Serialize m p mem = (mem', data, sz)"
  shows "\<exists>fm'. Fast_LoadMapFromMemory mem' data sz fm = (fm', True) \<and>
    (\<forall>frame inlined_frames. Fast_LookupAddress mem' fm' frame inlined_frames = Some (LookupAddress m frame inlined_frames)) \<and>
    (\<forall>frame. Fast_FindWindowsFrameInfo mem' fm' frame = Some (FindWindowsFrameInfo m frame)) \<and>
    (\<forall>frame. Fast_FindCFIFrameInfo mem' fm' frame = Some (FindCFIFrameInfo m frame))"
proof -
  have eq: "mem' = store mem p (module_bytes m)" "data = p" "sz = of_nat (length (module_bytes m))"
    using Module_Serialize_eq [OF assms(1,3,4), of mem] assms(5) by simp_all
  have "lives mem' p (module_bytes m)"
    using assms(4) by (simp add: lives_def eq(1) holds_store region_def)
  from Fast_Load_represents [OF this assms(1,2), of sz fm] obtain fm' where
    "Fast_LoadMapFromMemory mem' data sz fm = (fm', True)" "represents mem' fm' m"
    by (auto simp: eq)
  then show ?thesis
    using Fast_LookupAddress_eq Fast_FindWindowsFrameInfo_eq Fast_FindCFIFrameInfo_eq assms(2) by blast
qed

text \<open>C11. The fast resolver agrees with the basic resolver on modules whose inline records have at most one
  range each, whose strings have no terminator inside, and which are smaller than four gigabytes. Such a
  module, serialized into memory, loads again, and every lookup of functions, lines, inlined frames, Windows
  frame data and call frame rules on the bytes returns, for every frame, what the lookup on the module
  returns. With two ranges in an inline record it does not hold, because only one is read back
  (\<open>Inline_CopyFrom_holds\<close>).\<close>

theorem fast_resolver_agrees:
  assumes "module_ok m" "module_fits m" "length (module_bytes m) < 2 ^ 32" "region p (length (module_bytes m))"
    "Module_Serialize m p mem = (mem', data, sz)"
  shows "\<exists>fm'. Fast_LoadMapFromMemory mem' data sz fm = (fm', True) \<and>
    (\<forall>frame inlined_frames. Fast_LookupAddress mem' fm' frame inlined_frames = Some (LookupAddress m frame inlined_frames)) \<and>
    (\<forall>frame. Fast_FindWindowsFrameInfo mem' fm' frame = Some (FindWindowsFrameInfo m frame)) \<and>
    (\<forall>frame. Fast_FindCFIFrameInfo mem' fm' frame = Some (FindCFIFrameInfo m frame))"
  by (rule fast_agrees [OF assms])

definition example_function :: Function where
  "example_function = (Function_new ''main'' 16 8 4 False)\<lparr>
     f_lines := RangeMap_new\<lparr>rm_map := [(19, \<lparr>r_base = 16, r_delta = 0,
       r_entry = Some \<lparr>l_address = 16, l_size = 4, l_source_file_id = 1, l_line = 7\<rparr>\<rparr>)]\<rparr>,
     f_inlines := CRM 0 None [(17, CRM 16 (Some \<lparr>has_call_site_file_id = True, inline_nest_level = 0, call_site_line = 9,
       call_site_file_id = 1, origin_id = 3, inline_ranges = [(16, 2)]\<rparr>) [])]\<rparr>"

definition example_module :: Module where
  "example_module = Module_new\<lparr>
     m_files := [(1, ''a.c'')],
     m_functions := RangeMap_new\<lparr>rm_map := [(23, \<lparr>r_base = 16, r_delta = 0, r_entry = Some example_function\<rparr>)]\<rparr>,
     m_public_symbols := [(64, Some \<lparr>p_name = ''f'', p_address = 64, p_parameter_size = 0, p_is_multiple = False\<rparr>)],
     m_cfi_initial_rules := RangeMap_new\<lparr>rm_map := [(31, \<lparr>r_base = 16, r_delta = 0, r_entry = ''.cfa: 1''\<rparr>)]\<rparr>,
     m_cfi_delta_rules := [(20, ''.cfa: 2'')],
     m_inline_origins := [(3, Some \<lparr>o_has_file_id = False, o_source_file_id = 0, o_name = ''g''\<rparr>)]\<rparr>"

lemmas crm_all_CRM = crm_all.simps [of _ "CRM b e m" for b e m, simplified]
  and crm_bytes_CRM = crm_bytes.simps [of _ "CRM b e m" for b e m, simplified]

lemma example_module_ok: "module_ok example_module" "module_fits example_module" "length (module_bytes example_module) < 2 ^ 32"
proof -
  note defs = example_module_def example_function_def Module_new_def RangeMap_new_def CRM_new_def Function_new_def
  note lengths = key_u64.length_map_bytes key_s32.length_map_bytes header_bytes_def kv_bytes_def rng_bytes_def range_bytes_def
    crm_bytes_CRM inline_bytes_def line_bytes_def public_bytes_def origin_bytes_def
  show "module_ok example_module"
    by (simp add: module_ok_def defs function_ok_def nul_free_def crm_all_CRM)
  show "module_fits example_module"
    by (simp add: module_fits_def defs function_fits_def lines_fit_def inlines_fit_def inline_fits_def wfi_fits_def nul_free_def
      is_s32_def crm_ok_CRM crm_ranges_CRM inlines_bytes_def lengths disjoint_by_def)
  show "length (module_bytes example_module) < 2 ^ 32"
    by (simp add: module_bytes_def module_maps_def defs function_bytes_def inlines_bytes_def lengths
      length_concat sum_list_replicate)
qed

lemma fast_resolver_agrees_witness:
  "\<exists>mem data sz fm. Module_Serialize example_module 4096 (\<lambda>_. 0) = (mem, data, sz) \<and>
     Fast_LoadMapFromMemory mem data sz fm = (fm, True) \<and>
     Fast_LookupAddress mem fm (StackFrame_new 0x1010 0x1000) (Some []) =
       Some (LookupAddress example_module (StackFrame_new 0x1010 0x1000) (Some []))"
proof -
  obtain mem data sz where s: "Module_Serialize example_module 4096 (\<lambda>_. 0) = (mem, data, sz)"
    by (cases "Module_Serialize example_module 4096 (\<lambda>_. 0)")
  have "region 4096 (length (module_bytes example_module))"
    using example_module_ok(3) by (simp add: region_def)
  from fast_resolver_agrees [OF example_module_ok this s, of undefined]
  obtain fm where fm: "Fast_LoadMapFromMemory mem data sz undefined = (fm, True)"
      "Fast_LookupAddress mem fm (StackFrame_new 0x1010 0x1000) (Some []) =
       Some (LookupAddress example_module (StackFrame_new 0x1010 0x1000) (Some []))"
    by blast
  have "Fast_LoadMapFromMemory mem data sz fm = (fm, True)"
    using fm(1) by (auto simp: Fast_LoadMapFromMemory_def Let_def split: if_splits prod.splits)
  then show ?thesis
    using s fm(2) by blast
qed

text \<open>C12. Reading an inline record back from memory keeps only the first half of its address ranges, rounded
  up, and loses the others: the loop counts two for every pair it reads.\<close>

theorem Inline_CopyFrom_loses_ranges:
  assumes "holds mem a (inline_bytes x)" "inline_fits x"
  shows "Inline_CopyFrom mem a = x\<lparr>inline_ranges := take ((length (inline_ranges x) + 1) div 2) (inline_ranges x)\<rparr>"
  by (rule Inline_CopyFrom_holds [OF assms])

lemma Inline_CopyFrom_loses_ranges_witness:
  "inline_ranges (Inline_CopyFrom (store (\<lambda>_. 0) 64 (inline_bytes
      \<lparr>has_call_site_file_id = True, inline_nest_level = 0, call_site_line = 1, call_site_file_id = 2, origin_id = 3,
       inline_ranges = [(16, 4), (32, 4)]\<rparr>)) 64) = [(16, 4)]"
proof -
  let ?x = "\<lparr>has_call_site_file_id = True, inline_nest_level = 0, call_site_line = 1, call_site_file_id = 2, origin_id = 3,
       inline_ranges = [(16, 4), (32, 4)]\<rparr>"
  have "holds (store (\<lambda>_. 0) 64 (inline_bytes ?x)) 64 (inline_bytes ?x)"
    by (rule holds_store) (simp add: inline_bytes_def)
  from Inline_CopyFrom_loses_ranges [OF this] show ?thesis
    by (simp add: inline_fits_def is_s32_def)
qed

text \<open>C26. \<open>ModuleSerializer::Serialize\<close> allocates as much as \<open>SizeOf\<close> computes, writes the bytes of the
  module there, exactly that many, and changes no other byte of the memory.\<close>

theorem Module_Serialize_writes:
  assumes "module_ok m" "length (module_bytes m) < 2 ^ 32" "region p (length (module_bytes m))"
    "Module_Serialize m p mem = (mem', data, sz)"
  shows "data = p \<and> sz = Module_SizeOf m \<and> unat (Module_SizeOf m) = length (module_bytes m) \<and>
    holds mem' p (module_bytes m) \<and> (\<forall>x. length (module_bytes m) \<le> unat (x - p) \<longrightarrow> mem' x = mem x)"
proof -
  have len: "length (module_bytes m) \<le> 2 ^ 64"
    using assms(2) by simp
  show ?thesis
    using Module_Serialize_eq [OF assms(1-3), of mem] Module_SizeOf_eq [OF assms(1,2)] assms(2,4)
    by (auto simp: holds_store [OF len] store_at [OF len] unat_of_nat)
qed

lemma Module_Serialize_writes_witness:
  "\<exists>mem sz. Module_Serialize example_module 4096 (\<lambda>_. 0) = (mem, 4096, sz) \<and>
     holds mem 4096 (module_bytes example_module) \<and> mem 4095 = 0"
proof -
  obtain mem data sz where s: "Module_Serialize example_module 4096 (\<lambda>_. 0) = (mem, data, sz)"
    by (cases "Module_Serialize example_module 4096 (\<lambda>_. 0)")
  have "region 4096 (length (module_bytes example_module))"
    using example_module_ok(3) by (simp add: region_def)
  moreover have "length (module_bytes example_module) \<le> unat ((4095 :: u64) - 4096)"
    using example_module_ok(3) by (simp add: unsigned_minus_1_eq_mask mask_eq_exp_minus_1)
  ultimately show ?thesis
    using Module_Serialize_writes [OF example_module_ok(1,3) _ s] s by blast
qed

end
