(* ===== verification/Loader_Invariant.thy ===== *)
theory Loader_Invariant
  imports Symbol_Loader Fast_Refinement Token_Facts
begin

text \<open>
  What holds of every module that is loaded from a symbol file: its maps are sorted, its ranges are
  disjoint or nested, its entries are not null and its integers fit. These are the hypotheses under
  which the lookups are correct and the fast resolver agrees with the basic one.
\<close>

section \<open>Stores\<close>

lemma StoreRange_exclusive:
  assumes "ranges_ok (rm_map m)" "merge_strategy m = kExclusiveRanges" "StoreRange m base sz entry = Some (m', ok)"
  shows "ranges_ok (rm_map m')" "merge_strategy m' = kExclusiveRanges"
    and "p \<in> set (rm_map m') \<Longrightarrow>
      p \<in> set (rm_map m) \<or> r_entry (snd p) = entry \<and> r_base (snd p) = base \<and> valid_range base sz (fst p)"
proof -
  note run = StoreRange_cases [OF assms(1,3)]
  show "ranges_ok (rm_map m')"
    using store_run_ok [OF run(1)] by simp
  show "merge_strategy m' = kExclusiveRanges"
    by (subst run(2)) (simp add: assms(2))
  show "p \<in> set (rm_map m) \<or> r_entry (snd p) = entry \<and> r_base (snd p) = base \<and> valid_range base sz (fst p)"
    if "p \<in> set (rm_map m')"
  proof (cases ok)
    case True
    then show ?thesis
      using store_run_exclusive [OF run(1) assms(2)] that by auto
  next
    case False
    then have "m' = m"
      by (subst run(2)) (use store_run_result [OF run(1)] in simp)
    then show ?thesis
      using that by simp
  qed
qed

lemma valid_range_not_all:
  assumes "valid_range base sz (high::'w::len word)"
  shows "base \<noteq> 0 \<or> high \<noteq> - 1"
proof (rule ccontr)
  assume "\<not> (base \<noteq> 0 \<or> high \<noteq> - 1)"
  then have "base = 0" "high = - 1"
    by auto
  then have "sz = 0"
    using valid_range_sz [OF assms] by simp
  then show False
    using assms by (simp add: valid_range_def)
qed

lemma CRM_StoreRange_ok:
  assumes "crm_ok allow t"
  shows "crm_ok allow (fst (CRM_StoreRange allow t base sz entry))"
    and "crm_base (fst (CRM_StoreRange allow t base sz entry)) = crm_base t"
    and "crm_entry (fst (CRM_StoreRange allow t base sz entry)) = crm_entry t"
    and "r \<in> set (crm_ranges (fst (CRM_StoreRange allow t base sz entry))) \<Longrightarrow>
      r \<in> set (crm_ranges t) \<or> snd (snd r) = entry"
proof -
  let ?t = "fst (CRM_StoreRange allow t base sz entry)"
  have "crm_ok allow ?t \<and> crm_base ?t = crm_base t \<and> crm_entry ?t = crm_entry t \<and>
    (\<forall>r\<in>set (crm_ranges ?t). r \<in> set (crm_ranges t) \<or> snd (snd r) = entry)"
  proof (cases "0 < sz \<and> base \<le> base + sz - 1")
    case True
    then have spec: "store_spec allow t base (base + sz - 1) entry (CRM_StoreRange allow t base sz entry)"
      using CRM_StoreRange_spec [OF assms] by blast
    have "mset (crm_ranges ?t) = add_mset (base, base + sz - 1, entry) (mset (crm_ranges t)) \<or> ?t = t"
      using spec by (simp add: store_spec_def split: if_splits)
    then have "set (crm_ranges ?t) \<subseteq> insert (base, base + sz - 1, entry) (set (crm_ranges t))"
      by (metis set_eq_subset set_mset_add_mset_insert set_mset_mset subset_insertI)
    then show ?thesis
      using spec by (auto simp: store_spec_def)
  next
    case False
    then have "CRM_StoreRange allow t base sz entry = (t, False)"
      by (subst CRM_StoreRange.simps) (auto simp: Let_def not_le not_less)
    then show ?thesis
      using assms by simp
  qed
  then show "crm_ok allow ?t" "crm_base ?t = crm_base t" "crm_entry ?t = crm_entry t"
    "r \<in> set (crm_ranges ?t) \<Longrightarrow> r \<in> set (crm_ranges t) \<or> snd (snd r) = entry"
    by blast+
qed

lemma crm_all_ranges: "crm_all P t \<longleftrightarrow> P (crm_entry t) \<and> (\<forall>r\<in>set (crm_ranges t). P (snd (snd r)))"
proof (induction "size t" arbitrary: t rule: less_induct)
  case less
  then have "crm_all P (snd p) \<longleftrightarrow> P (crm_entry (snd p)) \<and> (\<forall>r\<in>set (crm_ranges (snd p)). P (snd (snd r)))"
    if "p \<in> set (crm_map t)" for p
    using that size_crm_mem by blast
  then show ?case
    by (subst crm_all.simps, subst set_crm_ranges) auto
qed

lemma AddressMap_Store_mem:
  assumes "om_sorted m" "AddressMap_Store m a e = (m', ok)"
  shows "om_sorted m'" "p \<in> set m' \<Longrightarrow> p \<in> set m \<or> snd p = e"
  using assms om_insert_subset [of a e m]
  by (auto simp: AddressMap_Store_eq om_sorted_insert split: if_splits)

section \<open>The invariant\<close>

text \<open>A function as it is built, while its lines and its inlined calls are added.\<close>

definition function_loaded :: "Function \<Rightarrow> bool" where
  "function_loaded f \<longleftrightarrow> nul_free (f_name f) \<and> is_s32 (f_parameter_size f) \<and>
     ranges_ok (rm_map (f_lines f)) \<and> merge_strategy (f_lines f) = kExclusiveRanges \<and>
     (\<forall>p\<in>set (rm_map (f_lines f)). \<exists>l. r_entry (snd p) = Some l \<and> is_s32 (l_source_file_id l) \<and> is_s32 (l_line l)) \<and>
     crm_ok True (f_inlines f) \<and> crm_base (f_inlines f) = 0 \<and>
     (\<forall>r\<in>set (crm_ranges (f_inlines f)). \<exists>x. snd (snd r) = Some x \<and> inline_fits x)"

text \<open>The maps of a module other than that of its functions.\<close>

definition wfi_loaded :: "(u64, WindowsFrameInfo option) ContainedRangeMap \<Rightarrow> bool" where
  "wfi_loaded c \<longleftrightarrow> wfi_fits c \<and> crm_entry c = None"

definition maps_loaded :: "Module \<Rightarrow> bool" where
  "maps_loaded m \<longleftrightarrow> om_sorted (m_files m) \<and> (\<forall>p\<in>set (m_files m). is_s32 (fst p) \<and> nul_free (snd p)) \<and>
     om_sorted (m_public_symbols m) \<and>
     (\<forall>p\<in>set (m_public_symbols m). \<exists>x. snd p = Some x \<and> nul_free (p_name x) \<and> is_s32 (p_parameter_size x)) \<and>
     length (m_windows_frame_info m) = 5 \<and> (\<forall>c\<in>set (m_windows_frame_info m). wfi_loaded c) \<and>
     ranges_ok (rm_map (m_cfi_initial_rules m)) \<and> merge_strategy (m_cfi_initial_rules m) = kExclusiveRanges \<and>
     (\<forall>p\<in>set (rm_map (m_cfi_initial_rules m)). nul_free (r_entry (snd p))) \<and>
     om_sorted (m_cfi_delta_rules m) \<and> (\<forall>p\<in>set (m_cfi_delta_rules m). nul_free (snd p)) \<and>
     om_sorted (m_inline_origins m) \<and>
     (\<forall>p\<in>set (m_inline_origins m). is_s32 (fst p) \<and>
       (\<exists>x. snd p = Some x \<and> nul_free (o_name x) \<and> is_s32 (o_source_file_id x)))"

definition state_loaded :: "LoadState \<Rightarrow> bool" where
  "state_loaded st \<longleftrightarrow> maps_loaded (ls_module st) \<and> (\<forall>f\<in>set (ls_heap st). function_loaded f) \<and>
     ranges_ok (rm_map (ls_functions st)) \<and> merge_strategy (ls_functions st) = kExclusiveRanges \<and>
     (\<forall>p\<in>set (rm_map (ls_functions st)).
       r_entry (snd p) < length (ls_heap st) \<and> (r_base (snd p) \<noteq> 0 \<or> fst p \<noteq> - 1)) \<and>
     (\<forall>i. cur_func st = Some i \<longrightarrow> i < length (ls_heap st))"

lemma is_s32_to_s32 [simp]: "is_s32 (to_s32 k)"
  using to_s32_range [of k] by (simp add: is_s32_def)

lemma nul_free_subset: "set t \<subseteq> set s \<Longrightarrow> nul_free s \<Longrightarrow> nul_free t"
  by (auto simp: nul_free_def)

lemma LoadState_new_loaded: "state_loaded LoadState_new"
proof -
  have "wfi_loaded (CRM_new 0 None)"
    by (simp add: wfi_loaded_def wfi_fits_def CRM_new_def crm_ok_CRM crm_ranges_CRM)
  then show ?thesis
    by (simp add: state_loaded_def LoadState_new_def maps_loaded_def Module_new_def RangeMap_new_def)
qed

lemma LogParseError_loaded [simp]: "state_loaded (LogParseError st) \<longleftrightarrow> state_loaded st"
  by (simp add: state_loaded_def LogParseError_def)

lemma check_parse_loaded [simp]: "state_loaded (check_parse r) \<longleftrightarrow> state_loaded (fst r)"
  by (simp add: check_parse_def)

lemma no_cur_func_loaded: "state_loaded st \<Longrightarrow> state_loaded (st\<lparr>cur_func := None\<rparr>)"
  by (simp add: state_loaded_def)

lemma set_maps_loaded: "state_loaded st \<Longrightarrow> maps_loaded m \<Longrightarrow> state_loaded (st\<lparr>ls_module := m\<rparr>)"
  by (simp add: state_loaded_def)

lemma state_loaded_maps: "state_loaded st \<Longrightarrow> maps_loaded (ls_module st)"
  by (simp add: state_loaded_def)

section \<open>Every record keeps it\<close>

lemma Module_ParseFile_loaded:
  assumes "state_loaded st" "nul_free line"
  shows "state_loaded (fst (Module_ParseFile line st))"
proof (cases "SPH_ParseFile line")
  case (Some r)
  obtain i name where r: "r = (i, name)"
    by (cases r)
  have n: "nul_free name"
    using SPH_ParseFile_subset Some r nul_free_subset assms(2) by blast
  let ?m = "(ls_module st)\<lparr>m_files := om_insert (to_s32 i) name (m_files (ls_module st))\<rparr>"
  have "maps_loaded ?m"
    using state_loaded_maps [OF assms(1)] n om_insert_subset [of "to_s32 i" name "m_files (ls_module st)"]
    by (auto simp: maps_loaded_def om_sorted_insert)
  then show ?thesis
    using set_maps_loaded [OF assms(1)] by (simp add: Module_ParseFile_def Some r)
qed (use assms in \<open>simp add: Module_ParseFile_def\<close>)

lemma Module_ParseInlineOrigin_loaded:
  assumes "state_loaded st" "nul_free line"
  shows "state_loaded (fst (Module_ParseInlineOrigin junk line st))"
proof (cases "SPH_ParseInlineOrigin junk line")
  case (Some r)
  obtain has key fid name where r: "r = (has, key, fid, name)"
    by (cases r)
  have n: "nul_free name"
    using SPH_ParseInlineOrigin_subset Some r nul_free_subset assms(2) by blast
  let ?x = "Some \<lparr>o_has_file_id = has, o_source_file_id = to_s32 fid, o_name = name\<rparr>"
  let ?m = "(ls_module st)\<lparr>m_inline_origins := om_insert (to_s32 key) ?x (m_inline_origins (ls_module st))\<rparr>"
  have "maps_loaded ?m"
    using state_loaded_maps [OF assms(1)] n om_insert_subset [of "to_s32 key" ?x "m_inline_origins (ls_module st)"]
    by (auto simp: maps_loaded_def om_sorted_insert)
  then show ?thesis
    using set_maps_loaded [OF assms(1)] by (simp add: Module_ParseInlineOrigin_def Some r)
qed (use assms in \<open>simp add: Module_ParseInlineOrigin_def\<close>)

lemma Module_ParsePublicSymbol_loaded:
  assumes "state_loaded st" "nul_free line"
  shows "state_loaded (fst (Module_ParsePublicSymbol line st))"
proof (cases "SPH_ParsePublicSymbol line")
  case (Some r)
  obtain multiple address param name where r: "r = (multiple, address, param, name)"
    by (cases r)
  have n: "nul_free name"
    using SPH_ParsePublicSymbol_subset Some r nul_free_subset assms(2) by blast
  let ?x = "Some \<lparr>p_name = name, p_address = address, p_parameter_size = to_s32 param, p_is_multiple = multiple\<rparr>"
  obtain m ok where m: "AddressMap_Store (m_public_symbols (ls_module st)) address ?x = (m, ok)"
    by (meson surj_pair)
  have "om_sorted (m_public_symbols (ls_module st))"
    using state_loaded_maps [OF assms(1)] by (simp add: maps_loaded_def)
  note store = AddressMap_Store_mem [OF this m]
  have "maps_loaded ((ls_module st)\<lparr>m_public_symbols := m\<rparr>)"
    using state_loaded_maps [OF assms(1)] n store by (fastforce simp: maps_loaded_def)
  then show ?thesis
    using set_maps_loaded [OF assms(1)] assms(1) by (simp add: Module_ParsePublicSymbol_def Some r m)
qed (use assms in \<open>simp add: Module_ParsePublicSymbol_def\<close>)

lemma Module_ParseFunction_loaded:
  assumes "Module_ParseFunction line = Some f" "nul_free line"
  shows "function_loaded f"
proof -
  obtain multiple address sz param name where
    "SPH_ParseFunction line = Some (multiple, address, sz, param, name)"
    and f: "f = Function_new name address sz (to_s32 param) multiple"
    using assms(1) by (auto simp: Module_ParseFunction_def)
  then have "nul_free name"
    using SPH_ParseFunction_subset nul_free_subset assms(2) by blast
  then show ?thesis
    by (simp add: f function_loaded_def Function_new_def RangeMap_new_def CRM_new_def crm_ok_CRM crm_ranges_CRM)
qed

lemma store_inline_ranges_loaded:
  assumes "crm_ok True t" "crm_base t = 0" "\<forall>r\<in>set (crm_ranges t). \<exists>x. snd (snd r) = Some x \<and> inline_fits x" "inline_fits x"
  shows "let t' = store_inline_ranges x ranges t in crm_ok True t' \<and> crm_base t' = 0 \<and>
    (\<forall>r\<in>set (crm_ranges t'). \<exists>x. snd (snd r) = Some x \<and> inline_fits x)"
  using assms
proof (induction ranges arbitrary: t)
  case (Cons rg ranges)
  let ?t = "fst (CRM_StoreRange True t (fst rg) (snd rg) (Some x))"
  note ok = CRM_StoreRange_ok [OF Cons(2), where base = "fst rg" and sz = "snd rg" and entry = "Some x"]
  have "\<forall>r\<in>set (crm_ranges ?t). \<exists>x. snd (snd r) = Some x \<and> inline_fits x"
    using ok(4) Cons(4,5) by blast
  then show ?case
    using Cons(1) [OF ok(1)] Cons(3,5) ok(2) by simp
qed (simp add: Let_def)

lemma AppendInline_loaded:
  assumes "function_loaded f" "inline_fits x"
  shows "function_loaded (fst (AppendInline x f))"
  using assms store_inline_ranges_loaded [of "f_inlines f" x "inline_ranges x"]
  by (simp add: AppendInline_def function_loaded_def Let_def)

lemma Module_ParseInline_fits:
  assumes "Module_ParseInline junk line = Some x"
  shows "inline_fits x"
  using assms SPH_ParseInline_ranges by (fastforce simp: Module_ParseInline_def inline_fits_def)

lemma update_heap_loaded:
  "state_loaded st \<Longrightarrow> function_loaded f \<Longrightarrow> state_loaded (update_heap i f st)"
  by (auto simp: state_loaded_def update_heap_def dest!: subsetD [OF set_update_subset_insert])

lemma add_function_loaded:
  assumes "state_loaded st" "function_loaded f" "add_function f st = Some st'"
  shows "state_loaded st'"
proof -
  obtain m ok where m: "StoreRange (ls_functions st) (f_address f) (f_size f) (length (ls_heap st)) = Some (m, ok)"
    and st': "st' = st\<lparr>ls_heap := ls_heap st @ [f], cur_func := Some (length (ls_heap st)), ls_functions := m\<rparr>"
    using assms(3) by (auto simp: add_function_def Let_def)
  have "ranges_ok (rm_map (ls_functions st))" "merge_strategy (ls_functions st) = kExclusiveRanges"
    using assms(1) by (auto simp: state_loaded_def)
  note store = StoreRange_exclusive [OF this m]
  have "\<forall>p\<in>set (rm_map m). r_entry (snd p) < Suc (length (ls_heap st)) \<and> (r_base (snd p) \<noteq> 0 \<or> fst p \<noteq> - 1)"
    using store(3) valid_range_not_all assms(1) by (fastforce simp: state_loaded_def)
  then show ?thesis
    using assms(1,2) store(1,2) by (auto simp: st' state_loaded_def)
qed

lemma add_line_loaded:
  assumes "state_loaded st" "i < length (ls_heap st)" "is_s32 (l_source_file_id line)" "is_s32 (l_line line)"
    "add_line i line st = Some st'"
  shows "state_loaded st'"
proof -
  let ?f = "ls_heap st ! i"
  have f: "function_loaded ?f"
    using assms(1,2) by (auto simp: state_loaded_def)
  obtain m ok where m: "StoreRange (f_lines ?f) (l_address line) (l_size line) (Some line) = Some (m, ok)"
    and st': "st' = update_heap i (?f\<lparr>f_lines := m\<rparr>) st"
    using assms(5) by (auto simp: add_line_def Let_def)
  have "ranges_ok (rm_map (f_lines ?f))" "merge_strategy (f_lines ?f) = kExclusiveRanges"
    using f by (auto simp: function_loaded_def)
  note store = StoreRange_exclusive [OF this m]
  have "function_loaded (?f\<lparr>f_lines := m\<rparr>)"
    using f store assms(3,4) by (fastforce simp: function_loaded_def)
  then show ?thesis
    unfolding st' by (rule update_heap_loaded [OF assms(1)])
qed

section \<open>STACK records\<close>

lemma Module_ParseCFIFrameInfo_loaded:
  assumes "state_loaded st" "nul_free line" "Module_ParseCFIFrameInfo line st = Some r"
  shows "state_loaded (fst r)"
proof -
  obtain t1 c1 where 1: "strtok_r kWhitespace line = (t1, c1)"
    by (meson surj_pair)
  obtain t2 c2 where 2: "strtok_r kWhitespace c1 = (t2, c2)"
    by (meson surj_pair)
  obtain t3 c3 where 3: "strtok_r kWhitespace c2 = (t3, c3)"
    by (meson surj_pair)
  obtain t4 c4 where 4: "strtok_r newlines c3 = (t4, c4)"
    by (meson surj_pair)
  obtain t5 c5 where 5: "strtok_r newlines c1 = (t5, c5)"
    by (meson surj_pair)
  have n4: "nul_free x" if "t4 = Some x" for x
  proof (rule nul_free_subset [OF _ assms(2)])
    show "set x \<subseteq> set line"
      using strtok_r_subset(2) [OF 4 that] strtok_r_subset(1) [OF 3] strtok_r_subset(1) [OF 2] strtok_r_subset(1) [OF 1]
      by blast
  qed
  have n5: "nul_free x" if "t5 = Some x" for x
  proof (rule nul_free_subset [OF _ assms(2)])
    show "set x \<subseteq> set line"
      using strtok_r_subset(2) [OF 5 that] strtok_r_subset(1) [OF 1] by blast
  qed
  note maps = state_loaded_maps [OF assms(1)]
  have init: "maps_loaded ((ls_module st)\<lparr>m_cfi_initial_rules := m\<rparr>)"
    if "StoreRange (m_cfi_initial_rules (ls_module st)) a s x = Some (m, ok)" "nul_free x" for a s x m ok
  proof -
    have "ranges_ok (rm_map (m_cfi_initial_rules (ls_module st)))"
      "merge_strategy (m_cfi_initial_rules (ls_module st)) = kExclusiveRanges"
      using maps by (auto simp: maps_loaded_def)
    note store = StoreRange_exclusive [OF this that(1)]
    then show ?thesis
      using maps that(2) by (fastforce simp: maps_loaded_def)
  qed
  have delta: "maps_loaded ((ls_module st)\<lparr>m_cfi_delta_rules := om_assign a x (m_cfi_delta_rules (ls_module st))\<rparr>)"
    if "nul_free x" for a x
    using maps that by (auto simp: maps_loaded_def om_sorted_assign set_om_assign)
  show ?thesis
    using assms(3,1) n4 n5 init delta set_maps_loaded [OF assms(1)]
    by (auto simp: Module_ParseCFIFrameInfo_def 1 2 3 4 5 split: option.splits if_splits)
qed

lemma store_wfi_loaded:
  assumes "state_loaded st" "ty \<le> 4" "w_valid info = VALID_ALL" "nul_free (program_string info)"
  shows "state_loaded (store_wfi ty rva code_size info st)"
proof -
  let ?maps = "m_windows_frame_info (ls_module st)"
  let ?c = "fst (CRM_StoreRange False (?maps ! ty) rva code_size (Some info))"
  have "wfi_loaded (?maps ! ty)"
    using state_loaded_maps [OF assms(1)] assms(2) by (auto simp: maps_loaded_def)
  then have c: "crm_ok False (?maps ! ty)" "crm_entry (?maps ! ty) = None"
    "\<forall>r\<in>set (crm_ranges (?maps ! ty)). \<exists>w. snd (snd r) = Some w \<and> nul_free (program_string w) \<and> w_valid w = VALID_ALL"
    by (auto simp: wfi_loaded_def wfi_fits_def)
  note ok = CRM_StoreRange_ok [OF c(1), where base = rva and sz = code_size and entry = "Some info"]
  have "wfi_loaded ?c"
    unfolding wfi_loaded_def wfi_fits_def
  proof (intro conjI ballI)
    show "\<exists>w. snd (snd r) = Some w \<and> nul_free (program_string w) \<and> w_valid w = VALID_ALL" if "r \<in> set (crm_ranges ?c)" for r
      using ok(4) [OF that] c(3) assms(3,4) by auto
  qed (use ok(1,3) c(2) in simp_all)
  then have "maps_loaded ((ls_module st)\<lparr>m_windows_frame_info := ?maps[ty := ?c]\<rparr>)"
    using state_loaded_maps [OF assms(1)] by (auto simp: maps_loaded_def dest!: subsetD [OF set_update_subset_insert])
  then show ?thesis
    using set_maps_loaded [OF assms(1)] by (simp add: store_wfi_def Let_def)
qed

lemma Module_ParseStackInfo_loaded:
  assumes "state_loaded st" "nul_free line" "\<forall>t. behind = Some t \<longrightarrow> nul_free t"
    "Module_ParseStackInfo line behind left st = Some ((st', ok), left')"
  shows "state_loaded st'"
proof -
  let ?s = "dropWhile (\<lambda>c. c = CHR '' '') (drop 6 line)"
  let ?q = "dropWhile (\<lambda>c. c \<notin> set kWhitespace) ?s"
  let ?rest = "if ?q = [] then behind else Some (tl ?q)"
  have "set ?s \<subseteq> set line"
    by (auto dest!: set_dropWhileD dest: in_set_dropD)
  moreover have "set ?q \<subseteq> set ?s"
    by (auto dest!: set_dropWhileD)
  moreover have "?q \<noteq> [] \<Longrightarrow> set (tl ?q) \<subseteq> set ?q"
    by (simp add: list.set_sel(2) subsetI)
  ultimately have rest: "\<forall>t. ?rest = Some t \<longrightarrow> nul_free t"
    using assms(2,3) by (auto simp: nul_free_def)
  have wfi: "state_loaded (store_wfi (nat ty) rva code_size info st)"
    if "WFI_ParseFromString t = Some (info, ty, rva, code_size)" "?rest = Some t" for t info ty rva code_size
  proof (rule store_wfi_loaded [OF assms(1)])
    show "nat ty \<le> 4" "w_valid info = VALID_ALL"
      using WFI_ParseFromString_fields [OF that(1)] by simp_all
    show "nul_free (program_string info)"
      using WFI_ParseFromString_fields(4) [OF that(1)] rest that(2) nul_free_subset by blast
  qed
  have cfi: "state_loaded (fst r)" if "Module_ParseCFIFrameInfo t st = Some r" "?rest = Some t" for t r
    using Module_ParseCFIFrameInfo_loaded [OF assms(1) _ that(1)] rest that(2) by blast
  obtain rest where r: "rest = ?rest"
    by blast
  show ?thesis
    using assms(4,1) wfi cfi
    unfolding Module_ParseStackInfo_def Let_def bind_eq_Some_conv r [symmetric]
    by (fastforce simp: bind_eq_Some_conv split: if_splits option.splits prod.splits)
qed

section \<open>The whole file\<close>

lemma load_line_loaded:
  assumes "state_loaded st" "nul_free buffer" "\<forall>t. behind = Some t \<longrightarrow> nul_free t"
    "load_line junk buffer behind left st = Some (st', left')"
  shows "state_loaded st'"
  using assms(4)
proof (cases rule: load_line_cases)
  case fil
  then show ?thesis
    using Module_ParseFile_loaded [OF assms(1,2)] by simp
next
  case (stack r)
  then show ?thesis
    using Module_ParseStackInfo_loaded [OF assms(1-3), of left "fst r" "snd r" left'] by simp
next
  case not_function
  then show ?thesis
    using no_cur_func_loaded [OF assms(1)] by simp
next
  case (func f)
  then show ?thesis
    using add_function_loaded [OF assms(1)] Module_ParseFunction_loaded assms(2) by blast
next
  case public
  then show ?thesis
    using Module_ParsePublicSymbol_loaded [OF no_cur_func_loaded [OF assms(1)] assms(2)] by simp
next
  case (inl x i)
  then have "function_loaded (ls_heap st ! i)"
    using assms(1) by (auto simp: state_loaded_def)
  then show ?thesis
    using inl update_heap_loaded [OF assms(1)] AppendInline_loaded Module_ParseInline_fits by blast
next
  case inline_origin
  then show ?thesis
    using Module_ParseInlineOrigin_loaded [OF assms(1,2)] by simp
next
  case (line l i)
  show ?thesis
    by (rule add_line_loaded [OF assms(1) _ _ _ line(3)])
      (use line(1,2) assms(1) in \<open>auto simp: Module_ParseLine_def state_loaded_def\<close>)
qed (use assms(1) in simp_all)

lemma set_dropWhile_subset: "set (dropWhile P s) \<subseteq> set s"
  by (rule subsetI) (rule set_dropWhileD)

lemma set_takeWhile_subset: "set (takeWhile P s) \<subseteq> set s"
  by (rule subsetI) (drule set_takeWhileD, erule conjunct1)

lemma set_tl_subset: "set (tl s) \<subseteq> set s"
  by (cases s) auto

lemma behind_line_subset:
  assumes "behind_line extra s = Some t"
  shows "set t \<subseteq> set s"
proof -
  let ?r = "dropWhile (\<lambda>c. c \<notin> set newlines) (dropWhile (\<lambda>c. c \<in> set newlines) s)"
  have "set (tl ?r) \<subseteq> set s"
    using set_tl_subset set_dropWhile_subset by (rule subset_trans [OF subset_trans]) (rule set_dropWhile_subset)
  moreover have "t = [] \<or> t = tl ?r"
    using assms unfolding behind_line_def Let_def by (simp only: split: if_split_asm) simp_all
  ultimately show ?thesis
    by (elim disjE) simp_all
qed

lemma set_cut_at_token: "set (cut_at_token s) \<subseteq> set s"
proof -
  let ?l = "takeWhile (\<lambda>c. c \<in> set kWhitespace) s"
  let ?t = "takeWhile (\<lambda>c. c \<notin> set kWhitespace) (drop (length ?l) s)"
  have "set ?t \<subseteq> set s"
    using set_takeWhile_subset set_drop_subset by (rule subset_trans)
  then have "set (?l @ ?t) \<subseteq> set s"
    unfolding set_append using set_takeWhile_subset by (rule Un_least [rotated])
  then show ?thesis
    unfolding cut_at_token_def Let_def by (simp only: split: if_split) simp
qed

lemma load_line_left_subset:
  "load_line junk buffer behind left st = Some (st', left') \<Longrightarrow> set left' \<subseteq> set left"
  using set_cut_at_token [of left] load_line_rest by blast

lemma load_lines_loaded:
  assumes "load_lines junk extra s st = Some st'" "state_loaded st" "nul_free s"
  shows "state_loaded st'"
  using assms
proof (induction junk extra s st rule: load_lines.induct)
  case (1 junk extra s st)
  obtain tk left where t: "strtok_r newlines s = (tk, left)"
    by (meson surj_pair)
  show ?case
  proof (cases tk)
    case None
    then show ?thesis
      using 1(2,3) load_lines_end [of s left] t by simp
  next
    case (Some buffer)
    note step = load_lines_next [OF t [unfolded Some], of junk extra st]
    obtain st2 left2 where l: "load_line junk buffer (behind_line extra s) left st = Some (st2, left2)"
      using 1(2) unfolding step by (cases "load_line junk buffer (behind_line extra s) left st") auto
    have free: "nul_free buffer" "nul_free left" "\<forall>t. behind_line extra s = Some t \<longrightarrow> nul_free t"
    proof -
      show "nul_free buffer"
        by (rule nul_free_subset [OF strtok_r_subset(2) [OF t Some] 1(4)])
      show "nul_free left"
        by (rule nul_free_subset [OF strtok_r_subset(1) [OF t] 1(4)])
      show "\<forall>t. behind_line extra s = Some t \<longrightarrow> nul_free t"
        by (intro allI impI) (rule nul_free_subset [OF behind_line_subset 1(4)])
    qed
    have st2: "state_loaded st2"
      by (rule load_line_loaded [OF 1(3) free(1,3) l])
    have left2: "nul_free left2"
      by (rule nul_free_subset [OF load_line_left_subset [OF l] free(2)])
    show ?thesis
    proof (cases "kMaxErrorsBeforeBailing < num_errors st2")
      case True
      then show ?thesis
        using 1(2) st2 unfolding step l by simp
    next
      case False
      then have "load_lines junk extra left2 st2 = Some st'"
        using 1(2) unfolding step l by simp
      then show ?thesis
        using 1(1) [OF t [symmetric] Some l refl False _ st2 left2] by simp
    qed
  qed
qed

section \<open>Loaded modules\<close>

definition module_loaded :: "Module \<Rightarrow> bool" where
  "module_loaded m \<longleftrightarrow> maps_loaded m \<and> functions_ok m \<and> merge_strategy (m_functions m) = kExclusiveRanges \<and>
     (\<forall>p\<in>set (rm_map (m_functions m)). \<exists>f. r_entry (snd p) = Some f \<and> function_loaded f)"

lemma disjoint_by_map:
  assumes "disjoint_by bs m" "\<And>v. bs' (g v) = bs v"
  shows "disjoint_by bs' (map (\<lambda>p. (fst p, g (snd p))) m)"
  using assms unfolding disjoint_by_def om_sorted_def by (auto simp: comp_def)

lemma finish_load_loaded:
  assumes "state_loaded st"
  shows "module_loaded (finish_load st)"
proof -
  let ?m = "finish_load st"
  let ?g = "\<lambda>r. \<lparr>r_base = r_base r, r_delta = r_delta r, r_entry = Some (ls_heap st ! r_entry r)\<rparr>"
  have m: "rm_map (m_functions ?m) = map (\<lambda>p. (fst p, ?g (snd p))) (rm_map (ls_functions st))"
    "merge_strategy (m_functions ?m) = merge_strategy (ls_functions st)"
    by (simp_all add: finish_load_def resolve_functions_def)
  have "ranges_ok (rm_map (m_functions ?m))"
    unfolding m by (rule disjoint_by_map) (use assms in \<open>simp_all add: state_loaded_def\<close>)
  moreover have "maps_loaded ?m"
    using state_loaded_maps [OF assms] by (simp add: maps_loaded_def finish_load_def)
  moreover have "\<forall>p\<in>set (rm_map (m_functions ?m)). \<exists>f. r_entry (snd p) = Some f \<and> function_loaded f"
    using assms by (auto simp: m state_loaded_def)
  ultimately show ?thesis
    using assms by (auto simp: module_loaded_def functions_ok_def m state_loaded_def)
qed

lemma nul_free_underscored: "nul_free (map (\<lambda>c. if c = CHR 0x00 then CHR ''_'' else c) s)"
  by (auto simp: nul_free_def)

lemma LoadMapFromMemory_loaded:
  assumes "LoadMapFromMemory junk buffer = Some m"
  shows "module_loaded m"
proof (cases "buffer = []")
  case True
  have "finish_load LoadState_new = Module_new"
    by (simp add: finish_load_def LoadState_new_def resolve_functions_def Module_new_def RangeMap_new_def)
  then show ?thesis
    using assms True finish_load_loaded [OF LoadState_new_loaded] by (simp add: LoadMapFromMemory_def)
next
  case False
  obtain extra st0 st where "load_lines junk extra (map (\<lambda>c. if c = CHR 0x00 then CHR ''_'' else c) (load_text buffer)) st0 = Some st"
    "st0 = LogParseError LoadState_new \<or> st0 = LoadState_new" "m = finish_load st"
    using assms False by (auto simp: LoadMapFromMemory_def Let_def split: if_splits)
  then show ?thesis
    using load_lines_loaded [of junk extra _ st0 st] nul_free_underscored LoadState_new_loaded finish_load_loaded by auto
qed

text \<open>What the other components need of a module.\<close>

lemma function_loaded_ok: "function_loaded f \<Longrightarrow> function_ok f"
  by (simp add: function_loaded_def function_ok_def)

lemma disjoint_by_sorted: "disjoint_by bs m \<Longrightarrow> om_sorted m"
  by (simp add: disjoint_by_def)

lemma module_loaded_ok:
  assumes "module_loaded m"
  shows "module_ok m"
proof -
  have w: "crm_all (linked_ok (\<lambda>w. nul_free (program_string w))) t" if "wfi_loaded t" for t
    using that by (auto simp: crm_all_ranges wfi_loaded_def wfi_fits_def)
  have "maps_loaded m" "\<forall>p\<in>set (rm_map (m_functions m)). linked_ok function_ok (r_entry (snd p))"
    using assms function_loaded_ok by (auto simp: module_loaded_def)
  then show ?thesis
    unfolding module_ok_def maps_loaded_def using w by auto
qed

text \<open>What is left to assume for the fast resolver: inlined calls of one range and trees that are not too large.\<close>

definition inlines_small :: "Module \<Rightarrow> bool" where
  "inlines_small m \<longleftrightarrow> (\<forall>p\<in>set (rm_map (m_functions m)). \<forall>f. r_entry (snd p) = Some f \<longrightarrow>
     length (inlines_bytes f) < 2 ^ 31 \<and>
     (\<forall>r\<in>set (crm_ranges (f_inlines f)). \<forall>x. snd (snd r) = Some x \<longrightarrow> length (inline_ranges x) \<le> 1))"

lemma function_loaded_fits:
  assumes "function_loaded f" "length (inlines_bytes f) < 2 ^ 31"
    "\<forall>r\<in>set (crm_ranges (f_inlines f)). \<forall>x. snd (snd r) = Some x \<longrightarrow> length (inline_ranges x) \<le> 1"
  shows "function_fits f"
proof -
  have "lines_fit f"
    using assms(1) disjoint_by_sorted by (auto simp: function_loaded_def lines_fit_def)
  moreover have "inlines_fit f"
    unfolding inlines_fit_def using assms by (fastforce simp: function_loaded_def)
  ultimately show ?thesis
    using assms(1) by (simp add: function_fits_def function_loaded_def)
qed

lemma module_loaded_fits:
  assumes "module_loaded m" "inlines_small m"
  shows "module_fits m"
proof -
  have f: "\<exists>f. r_entry (snd p) = Some f \<and> function_fits f" if "p \<in> set (rm_map (m_functions m))" for p
    using assms that function_loaded_fits unfolding module_loaded_def inlines_small_def by metis
  have s: "om_sorted (rm_map (m_functions m))" "om_sorted (rm_map (m_cfi_initial_rules m))"
    using assms(1) disjoint_by_sorted by (auto simp: module_loaded_def functions_ok_def maps_loaded_def)
  have "maps_loaded m"
    using assms(1) by (simp add: module_loaded_def)
  then show ?thesis
    unfolding module_fits_def maps_loaded_def wfi_loaded_def using f s by blast
qed

end
