(* ===== verification/Dump_Load.thy ===== *)
theory Dump_Load
  imports Symbol_Roundtrip Loader_Invariant
begin

text \<open>
  The symbol file that \<open>Module::Write\<close> produces, seen as a sequence of records, and what a resolver
  that loads it knows: every function of the dumped module is found again at its addresses.
\<close>

section \<open>The file as records\<close>

fun inline_list :: "ModInline list \<Rightarrow> InlineData list" where
  "inline_list [] = []"
| "inline_list (ModInline d children # inlines) = d # inline_list children @ inline_list inlines"

definition inline_record :: "DumpModule \<Rightarrow> InlineData \<Rightarrow> SymRecord" where
  "inline_record m d = RInline (in_nest_level d) (in_call_site_line d) (getCallSiteFileID m d)
     (io_id (dm_origins m ! in_origin d)) (map (\<lambda>r. (rg_address r - load_address m, rg_size r)) (in_ranges d))"

definition line_record :: "DumpModule \<Rightarrow> ModLine \<Rightarrow> SymRecord" where
  "line_record m line = RLine (ml_address line - load_address m) (ml_size line) (ml_number line) (file_id m (ml_file line))"

definition function_record :: "DumpModule \<Rightarrow> ModFunction \<Rightarrow> ModRange \<Rightarrow> SymRecord" where
  "function_record m f rg = RFunction (mf_is_multiple f) (rg_address rg - load_address m) (rg_size rg)
     (mf_parameter_size f) (mf_name f)"

primrec range_records :: "DumpModule \<Rightarrow> ModFunction \<Rightarrow> ModRange list \<Rightarrow> ModLine list \<Rightarrow> SymRecord list" where
  "range_records m f [] lines = []"
| "range_records m f (rg # ranges) lines =
     function_record m f rg # map (inline_record m) (inline_list (mf_inlines f)) @
     map (line_record m) (takeWhile (\<lambda>line. in_mod_range rg (ml_address line)) lines) @
     range_records m f ranges (dropWhile (\<lambda>line. in_mod_range rg (ml_address line)) lines)"

definition extern_record :: "DumpModule \<Rightarrow> ModExtern \<Rightarrow> SymRecord" where
  "extern_record m ext = RPublic (ext_is_multiple ext) (ext_address ext - load_address m) 0 (ext_name ext)"

definition entry_records :: "DumpModule \<Rightarrow> StackFrameEntry \<Rightarrow> SymRecord list" where
  "entry_records m entry =
     RInit (se_address entry - load_address m) (se_size entry) (WriteRuleMap (initial_rules entry)) #
     map (\<lambda>p. RDelta (fst p - load_address m) (WriteRuleMap (snd p))) (rule_changes entry)"

definition symbol_records :: "DumpModule \<Rightarrow> (string, nat) omap \<Rightarrow> SymRecord list" where
  "symbol_records m inline_origins =
     map (\<lambda>p. RFile (snd p) (fst p)) (filter (\<lambda>p. 0 \<le> snd p) (dm_files m)) @
     map (\<lambda>p. ROrigin (io_id (dm_origins m ! snd p)) (io_name (dm_origins m ! snd p))) inline_origins @
     concat (map (\<lambda>p. range_records m (snd p) (mf_ranges (snd p)) (mf_lines (snd p))) (dm_functions m)) @
     map (\<lambda>p. extern_record m (snd p)) (dm_externs m)"

definition header_records :: "DumpModule \<Rightarrow> SymRecord list" where
  "header_records m = RModule (dm_os m @ '' '' @ dm_architecture m @ '' '' @ dm_id m @ '' '' @ dm_name m) #
     (if dm_code_id m = [] then [] else [RInfo (''CODE_ID '' @ dm_code_id m)])"

text \<open>The module as it is numbered for writing, and the records written.\<close>

definition numbered :: "DumpModule \<Rightarrow> DumpModule" where
  "numbered m = AssignSourceIds (fst (CreateInlineOrigins m))"

definition dump_records :: "DumpModule \<Rightarrow> int \<Rightarrow> SymRecord list" where
  "dump_records m symbol_data =
     header_records m @
     (if and symbol_data SYMBOLS_AND_FILES \<noteq> 0 then symbol_records (numbered m) (snd (CreateInlineOrigins m)) else []) @
     (if and symbol_data CFI_DATA \<noteq> 0 then concat (map (entry_records m) (stack_frame_entries m)) else [])"

lemma records_text_simps [simp]:
  "records_text [] = []" "records_text (r # rs) = record_text r @ endl @ records_text rs"
  "records_text (rs @ rs') = records_text rs @ records_text rs'"
  by (simp_all add: records_text_def)

lemma records_text_concat: "records_text (concat (map f xs)) = concat (map (\<lambda>x. records_text (f x)) xs)"
  by (induction xs) simp_all

lemma records_text_map: "records_text (map f xs) = concat (map (\<lambda>x. record_text (f x) @ endl) xs)"
  by (induction xs) simp_all

lemma InlineDFS_output:
  "snd (InlineDFS (\<lambda>d out. (d, out @ w d)) inlines out) = out @ concat (map w (inline_list inlines))"
proof (induction inlines arbitrary: out rule: inline_list.induct)
  case (2 d children inlines)
  show ?case
    using 2(1) [of "out @ w d"] 2(2) by (simp add: split_def)
qed simp

lemma write_inline_record: "write_inline m d = record_text (inline_record m d) @ endl"
proof -
  have j: "join '' '' (x # pair_fields rs) = x @ concat (map (\<lambda>r. '' '' @ hex_word (fst r) @ '' '' @ hex_word (snd r)) rs)"
    for x and rs :: "(u64 \<times> u64) list"
    by (induction rs arbitrary: x rule: pair_fields.induct) simp_all
  show ?thesis
    using j [of "show_int (io_id (dm_origins m ! in_origin d))"]
    by (simp add: write_inline_def inline_record_def comp_def)
qed

lemma write_line_record: "write_line m = (\<lambda>line. record_text (line_record m line) @ endl)"
  by (simp add: write_line_def line_record_def fun_eq_iff)

lemma write_function_record: "write_function m f rg = record_text (function_record m f rg) @ endl"
  by (simp add: write_function_def function_record_def multiple_field_def)

lemma write_ranges_records: "write_ranges m f ranges lines = records_text (range_records m f ranges lines)"
proof (induction ranges arbitrary: lines)
  case (Cons rg ranges)
  then show ?case
    by (simp add: InlineDFS_output write_function_record write_inline_record write_line_record records_text_map Let_def comp_def)
qed simp

lemma show_hex_zero [simp]: "show_hex 0 = ''0''"
proof -
  have "hex_digit 0 = CHR ''0''"
    unfolding hex_digit_def by code_simp
  then show ?thesis
    by (subst show_hex.simps) simp
qed

lemma write_extern_record: "write_extern m ext = record_text (extern_record m ext) @ endl"
  by (simp add: write_extern_def extern_record_def multiple_field_def)

lemma write_file_records:
  "concat (map write_file files) = records_text (map (\<lambda>p. RFile (snd p) (fst p)) (filter (\<lambda>p. 0 \<le> snd p) files))"
  by (induction files) (simp_all add: write_file_def)

lemma write_delta_record:
  "write_delta m = (\<lambda>p. record_text (RDelta (fst p - load_address m) (WriteRuleMap (snd p))) @ endl)"
  by (simp add: write_delta_def fun_eq_iff)

lemma write_entry_records: "write_entry m = (\<lambda>entry. records_text (entry_records m entry))"
  by (simp add: write_entry_def entry_records_def write_delta_record records_text_map fun_eq_iff)

lemma write_symbols_records: "write_symbols m inline_origins = records_text (symbol_records m inline_origins)"
  by (simp add: write_symbols_def symbol_records_def write_file_records write_ranges_records write_extern_record
    records_text_concat records_text_map write_origin_def)

lemma write_header_records: "write_header m = records_text (header_records m)"
  by (simp add: write_header_def header_records_def)

lemma numbered_entries [simp]:
  "stack_frame_entries (numbered m) = stack_frame_entries m" "load_address (numbered m) = load_address m"
  by (simp_all add: numbered_def AssignSourceIds_def CreateInlineOrigins_def split_def Let_def)

lemma entry_records_cong: "load_address m = load_address m' \<Longrightarrow> entry_records m e = entry_records m' e"
  by (simp add: entry_records_def)

lemma Module_Write_records: "snd (Module_Write_symbols m symbol_data) = records_text (dump_records m symbol_data)"
proof -
  have e: "entry_records (numbered m) = entry_records m"
    using entry_records_cong [of "numbered m" m] by (simp add: fun_eq_iff)
  show ?thesis
    by (simp add: e Module_Write_symbols_def dump_records_def write_header_records write_symbols_records
      write_entry_records records_text_concat split_def Let_def flip: numbered_def)
qed

section \<open>Replaying without errors\<close>

text \<open>Inlined calls and lines follow a function, public symbols end it.\<close>

primrec well_ordered :: "bool \<Rightarrow> SymRecord list \<Rightarrow> bool" where
  "well_ordered has_func [] \<longleftrightarrow> True"
| "well_ordered has_func (r # rs) \<longleftrightarrow> (case r of
       RFunction _ _ _ _ _ \<Rightarrow> well_ordered True rs
     | RPublic _ _ _ _ \<Rightarrow> well_ordered False rs
     | RInline _ _ _ _ _ \<Rightarrow> has_func \<and> well_ordered True rs
     | RLine _ _ _ _ \<Rightarrow> has_func \<and> well_ordered True rs
     | _ \<Rightarrow> well_ordered has_func rs)"

fun public_addresses :: "SymRecord list \<Rightarrow> u64 list" where
  "public_addresses [] = []"
| "public_addresses (RPublic _ a _ _ # rs) = a # public_addresses rs"
| "public_addresses (r # rs) = public_addresses rs"

lemma StoreRange_returns: "ranges_ok (rm_map m) \<Longrightarrow> \<exists>m' ok. StoreRange m base sz entry = Some (m', ok)"
  using StoreRangeInternal_run [of "rm_map m" "merge_strategy m" entry base 0 sz]
  by (auto simp: has_run_def StoreRange_def)

lemma replay_loaded:
  assumes "record_ok r" "nul_free (record_text r)" "state_loaded st" "replay junk r st = Some st'"
  shows "state_loaded st'"
proof -
  have l: "load_line junk (record_text r) (Some []) [] st = Some (st', [])"
    using load_line_text [OF assms(1)] assms(4) by simp
  show ?thesis
    by (rule load_line_loaded [OF assms(3,2) _ l]) (simp add: nul_free_def)
qed

text \<open>One record that is in its place: no crash, no error, and the addresses of public symbols.\<close>

lemma AddressMap_Store_new:
  assumes "om_sorted m" "a \<notin> fst ` set m"
  shows "AddressMap_Store m a e = (om_insert a e m, True)" "fst ` set (om_insert a e m) = insert a (fst ` set m)"
  using assms by (auto simp: AddressMap_Store_eq dom_map_of_conv_image_fst set_om_insert)

lemma replay_step:
  assumes "state_loaded st" "well_ordered (cur_func st \<noteq> None) (r # rs)"
    "\<forall>a\<in>set (public_addresses [r]). a \<notin> fst ` set (m_public_symbols (ls_module st))"
  shows "\<exists>st'. replay junk r st = Some st' \<and> num_errors st' = num_errors st \<and> well_ordered (cur_func st' \<noteq> None) rs \<and>
    fst ` set (m_public_symbols (ls_module st')) \<subseteq> fst ` set (m_public_symbols (ls_module st)) \<union> set (public_addresses [r])"
proof (cases r)
  case (RFunction multiple a s ps name)
  have "ranges_ok (rm_map (ls_functions st))"
    using assms(1) by (simp add: state_loaded_def)
  from StoreRange_returns [OF this] obtain m ok where
    "StoreRange (ls_functions st) a s (length (ls_heap st)) = Some (m, ok)"
    by blast
  then show ?thesis
    using assms(2) by (simp add: RFunction add_function_def Function_new_def)
next
  case (RInline level ln fid oid rs')
  then show ?thesis
    using assms(2) by (auto simp: update_heap_def)
next
  case (RLine a s ln fid)
  then obtain i where i: "cur_func st = Some i"
    using assms(2) by auto
  then have "ranges_ok (rm_map (f_lines (ls_heap st ! i)))"
    using assms(1) by (auto simp: state_loaded_def function_loaded_def)
  from StoreRange_returns [OF this] obtain m ok where
    "StoreRange (f_lines (ls_heap st ! i)) a s (Some \<lparr>l_address = a, l_size = s, l_source_file_id = to_s32 fid, l_line = to_s32 ln\<rparr>) = Some (m, ok)"
    by blast
  then show ?thesis
    using assms(2) i by (simp add: RLine add_line_def update_heap_def)
next
  case (RPublic multiple a ps name)
  have s: "om_sorted (m_public_symbols (ls_module st))"
    using state_loaded_maps [OF assms(1)] by (simp add: maps_loaded_def)
  have a: "a \<notin> fst ` set (m_public_symbols (ls_module st))"
    using assms(3) RPublic by simp
  show ?thesis
    using assms(2) AddressMap_Store_new [OF s a] by (cases "a = 0") (auto simp: RPublic check_parse_def Let_def)
next
  case (RInit a s rules)
  have "ranges_ok (rm_map (m_cfi_initial_rules (ls_module st)))"
    using state_loaded_maps [OF assms(1)] by (simp add: maps_loaded_def)
  from StoreRange_returns [OF this] obtain m ok where
    "StoreRange (m_cfi_initial_rules (ls_module st)) a s rules = Some (m, ok)"
    by blast
  then show ?thesis
    using assms(2) by (simp add: RInit)
qed (use assms(2) in simp_all)

lemma public_addresses_Cons: "public_addresses (r # rs) = public_addresses [r] @ public_addresses rs"
  by (cases r) simp_all

text \<open>The functions known in a state: base, high address, name and the multiple flag.\<close>

definition known_functions :: "LoadState \<Rightarrow> (u64 \<times> u64 \<times> string \<times> bool) set" where
  "known_functions st = (\<lambda>p. (r_base (snd p), fst p, f_name (ls_heap st ! r_entry (snd p)),
     f_is_multiple (ls_heap st ! r_entry (snd p)))) ` set (rm_map (ls_functions st))"

fun function_ranges :: "SymRecord list \<Rightarrow> (u64 \<times> u64 \<times> string \<times> bool) list" where
  "function_ranges [] = []"
| "function_ranges (RFunction multiple a s ps name # rs) = (a, a + (s - 1), name, multiple) # function_ranges rs"
| "function_ranges (r # rs) = function_ranges rs"

definition apart :: "u64 \<times> u64 \<times> string \<times> bool \<Rightarrow> u64 \<times> u64 \<times> string \<times> bool \<Rightarrow> bool" where
  "apart x y \<longleftrightarrow> fst (snd x) < fst y \<or> fst (snd y) < fst x"

definition range_valid :: "SymRecord \<Rightarrow> bool" where
  "range_valid r \<longleftrightarrow> (case r of RFunction _ a s _ _ \<Rightarrow> 0 < s \<and> a \<le> a + (s - 1) | _ \<Rightarrow> True)"

lemma function_ranges_Cons: "function_ranges (r # rs) = function_ranges [r] @ function_ranges rs"
  by (cases r) simp_all

lemma add_function_known:
  assumes st: "state_loaded st" and v: "valid_range (f_address f) (f_size f) high"
    and apart: "\<forall>x\<in>known_functions st. apart x (f_address f, high, f_name f, f_is_multiple f)"
    and add: "add_function f st = Some st'"
  shows "known_functions st' = insert (f_address f, high, f_name f, f_is_multiple f) (known_functions st)"
proof -
  let ?fs = "ls_functions st" and ?n = "length (ls_heap st)"
  have ok: "ranges_ok (rm_map ?fs)" "merge_strategy ?fs = kExclusiveRanges"
    and heap: "\<forall>p\<in>set (rm_map ?fs). r_entry (snd p) < ?n"
    using st by (auto simp: state_loaded_def)
  obtain m stored where m: "StoreRange ?fs (f_address f) (f_size f) ?n = Some (m, stored)"
    and st': "st' = st\<lparr>ls_heap := ls_heap st @ [f], cur_func := Some ?n, ls_functions := m\<rparr>"
    using add by (auto simp: add_function_def Let_def)
  note run = StoreRange_cases [OF ok(1) m]
  have "acceptable kExclusiveRanges (rm_map ?fs) (f_address f) high"
    unfolding acceptable_def
  proof (intro ballI)
    fix p
    assume "p \<in> set (rm_map ?fs)"
    then have "(r_base (snd p), fst p, f_name (ls_heap st ! r_entry (snd p)), f_is_multiple (ls_heap st ! r_entry (snd p)))
        \<in> known_functions st"
      unfolding known_functions_def by (rule imageI)
    then show "case kExclusiveRanges of kExclusiveRanges \<Rightarrow> \<not> overlaps p (f_address f) high
        | kTruncateLower \<Rightarrow> r_base (snd p) \<noteq> f_address f | kTruncateUpper \<Rightarrow> fst p \<noteq> high"
      using apart by (fastforce simp: apart_def overlaps_def)
  qed
  then have "stored"
    using store_run_result [OF run(1)] v ok(2) by auto
  then have "set (rm_map m) = insert (high, \<lparr>r_base = f_address f, r_delta = 0, r_entry = ?n\<rparr>) (set (rm_map ?fs))"
    using store_run_exclusive [OF run(1) ok(2)] valid_range_unique [OF v] by auto
  moreover have "(\<lambda>p. (r_base (snd p), fst p, f_name ((ls_heap st @ [f]) ! r_entry (snd p)),
      f_is_multiple ((ls_heap st @ [f]) ! r_entry (snd p)))) ` set (rm_map ?fs) = known_functions st"
    unfolding known_functions_def by (rule image_cong) (use heap in \<open>auto simp: nth_append\<close>)
  ultimately show ?thesis
    by (simp add: known_functions_def st')
qed

lemma known_functions_cong:
  assumes "ls_functions st' = ls_functions st" "map f_name (ls_heap st') = map f_name (ls_heap st)"
    "map f_is_multiple (ls_heap st') = map f_is_multiple (ls_heap st)"
    "\<forall>p\<in>set (rm_map (ls_functions st)). r_entry (snd p) < length (ls_heap st)"
  shows "known_functions st' = known_functions st"
proof -
  have "length (ls_heap st') = length (ls_heap st)"
    using assms(2) map_eq_imp_length_eq by blast
  then have "f_name (ls_heap st' ! i) = f_name (ls_heap st ! i) \<and> f_is_multiple (ls_heap st' ! i) = f_is_multiple (ls_heap st ! i)"
    if "i < length (ls_heap st)" for i
    using assms(2,3) that by (metis nth_map)
  then show ?thesis
    unfolding known_functions_def assms(1) by (intro image_cong) (use assms(4) in auto)
qed

lemma map_update_same: "i < length xs \<Longrightarrow> g y = g (xs ! i) \<Longrightarrow> map g (xs[i := y]) = map g xs"
  by (simp add: map_update list_update_same_conv)

lemma replay_known:
  assumes st: "state_loaded st" and rep: "replay junk r st = Some st'" and v: "range_valid r"
    and apart: "\<forall>x\<in>known_functions st. \<forall>y\<in>set (function_ranges [r]). apart x y"
  shows "known_functions st' = known_functions st \<union> set (function_ranges [r])"
proof (cases r)
  case (RFunction multiple a s ps name)
  have "valid_range a s (a + (s - 1))"
    using v by (simp add: RFunction range_valid_def valid_range_def)
  then show ?thesis
    using add_function_known [OF st, of "Function_new name a s (to_s32 (int (unat ps))) multiple" "a + (s - 1)" st'] rep apart
    by (simp add: RFunction Function_new_def)
next
  case (RInline level ln fid oid rs)
  then obtain i where i: "cur_func st = Some i" "i < length (ls_heap st)"
    using rep st by (auto simp: state_loaded_def split: option.splits)
  have "known_functions st' = known_functions st"
    by (rule known_functions_cong)
      (use rep st i RInline in \<open>auto simp: update_heap_def AppendInline_def map_update_same state_loaded_def\<close>)
  then show ?thesis
    by (simp add: RInline)
next
  case (RLine a s ln fid)
  have "known_functions st' = known_functions st"
  proof (cases "cur_func st")
    case None
    then show ?thesis
      using rep by (auto simp: RLine LogParseError_def known_functions_def)
  next
    case (Some i)
    then have i: "i < length (ls_heap st)"
      using st by (auto simp: state_loaded_def)
    show ?thesis
      by (rule known_functions_cong)
        (use rep st i RLine Some in \<open>auto simp: update_heap_def add_line_def map_update_same state_loaded_def Let_def\<close>)
  qed
  then show ?thesis
    by (simp add: RLine)
next
  case (RPublic multiple a ps name)
  then show ?thesis
    using rep by (auto simp: known_functions_def check_parse_def LogParseError_def Let_def split: prod.splits if_splits)
next
  case (RInit a s rules)
  then show ?thesis
    using rep by (auto simp: known_functions_def)
qed (use rep in \<open>auto simp: known_functions_def\<close>)

text \<open>A whole file whose functions lie apart from each other.\<close>

definition records_fit :: "SymRecord list \<Rightarrow> bool" where
  "records_fit rs \<longleftrightarrow> (\<forall>r\<in>set rs. record_ok r \<and> nul_free (record_text r) \<and> range_valid r) \<and>
     distinct (public_addresses rs) \<and> sorted_wrt apart (function_ranges rs)"

lemma records_fit_Cons:
  assumes "records_fit (r # rs)"
  shows "records_fit rs" "record_ok r" "nul_free (record_text r)" "range_valid r"
    "set (public_addresses [r]) \<inter> set (public_addresses rs) = {}"
    "\<forall>x\<in>set (function_ranges [r]). \<forall>y\<in>set (function_ranges rs). apart x y"
  using assms public_addresses_Cons [of r rs] function_ranges_Cons [of r rs]
  by (auto simp: records_fit_def sorted_wrt_append)

lemma replay_all_known:
  assumes "state_loaded st" "num_errors st = 0" "well_ordered (cur_func st \<noteq> None) rs" "records_fit rs"
    "set (public_addresses rs) \<inter> fst ` set (m_public_symbols (ls_module st)) = {}"
    "\<forall>x\<in>known_functions st. \<forall>y\<in>set (function_ranges rs). apart x y"
  shows "\<exists>st'. replay_all junk rs st = Some st' \<and> state_loaded st' \<and> num_errors st' = 0 \<and>
    known_functions st' = known_functions st \<union> set (function_ranges rs)"
  using assms
proof (induction rs arbitrary: st)
  case (Cons r rs)
  note fit = records_fit_Cons [OF Cons.prems(4)]
  have new: "\<forall>a\<in>set (public_addresses [r]). a \<notin> fst ` set (m_public_symbols (ls_module st))"
    using Cons.prems(5) public_addresses_Cons [of r rs] by auto
  obtain st2 where st2: "replay junk r st = Some st2" "num_errors st2 = num_errors st"
    "well_ordered (cur_func st2 \<noteq> None) rs"
    "fst ` set (m_public_symbols (ls_module st2)) \<subseteq> fst ` set (m_public_symbols (ls_module st)) \<union> set (public_addresses [r])"
    using replay_step [OF Cons.prems(1,3) new, of junk] by blast
  have apart: "\<forall>x\<in>known_functions st. \<forall>y\<in>set (function_ranges [r]). apart x y"
    using Cons.prems(6) function_ranges_Cons [of r rs] by simp
  have known: "known_functions st2 = known_functions st \<union> set (function_ranges [r])"
    by (rule replay_known [OF Cons.prems(1) st2(1) fit(4) apart])
  have l: "state_loaded st2"
    by (rule replay_loaded [OF fit(2,3) Cons.prems(1) st2(1)])
  have p2: "set (public_addresses rs) \<inter> fst ` set (m_public_symbols (ls_module st2)) = {}"
    using st2(4) fit(5) Cons.prems(5) public_addresses_Cons [of r rs] by auto
  have a2: "\<forall>x\<in>known_functions st2. \<forall>y\<in>set (function_ranges rs). apart x y"
    using known fit(6) Cons.prems(6) function_ranges_Cons [of r rs] by auto
  obtain st' where "replay_all junk rs st2 = Some st'" "state_loaded st'" "num_errors st' = 0"
    "known_functions st' = known_functions st2 \<union> set (function_ranges rs)"
    using Cons.IH [OF l _ st2(3) fit(1) p2 a2] st2(2) Cons.prems(2) by auto
  moreover have "\<not> kMaxErrorsBeforeBailing < num_errors st2"
    using st2(2) Cons.prems(2) by (simp add: kMaxErrorsBeforeBailing_def)
  moreover have "set (function_ranges (r # rs)) = set (function_ranges [r]) \<union> set (function_ranges rs)"
    by (subst function_ranges_Cons) (rule set_append)
  ultimately show ?case
    using st2(1) known by (simp add: Un_assoc)
qed simp

lemma record_texts_nul_free:
  "\<forall>r\<in>set rs. nul_free (record_text r) \<Longrightarrow> CHR 0x00 \<notin> set (records_text rs)"
  by (induction rs) (auto simp: nul_free_def endl_def)

lemma load_known:
  assumes "records_fit rs" "well_ordered False rs" "rs \<noteq> []"
  shows "\<exists>st. LoadMapFromMemory junk (records_text rs) = Some (finish_load st) \<and> state_loaded st \<and> num_errors st = 0 \<and>
    known_functions st = set (function_ranges rs)"
proof -
  have "LoadMapFromMemory junk (records_text rs) = map_option finish_load (replay_all junk rs LoadState_new)"
    by (rule LoadMapFromMemory_records) (use assms record_texts_nul_free in \<open>auto simp: records_fit_def\<close>)
  moreover have "known_functions LoadState_new = {}"
    by (simp add: known_functions_def LoadState_new_def RangeMap_new_def)
  ultimately show ?thesis
    using replay_all_known [OF LoadState_new_loaded, of rs junk] assms(1,2)
    by (auto simp: LoadState_new_def Module_new_def)
qed

lemma lookup_known:
  assumes st: "state_loaded st" and f: "(base, high, name, multiple) \<in> known_functions st"
    and a: "base \<le> relative_address frame" "relative_address frame \<le> high"
  shows "\<exists>frame'. LookupAddress (finish_load st) frame None = (frame', None) \<and> function_name frame' = name \<and>
    function_base frame' = module_base_address frame + base \<and> is_multiple frame' = multiple"
proof -
  let ?m = "finish_load st"
  have ok: "functions_ok ?m"
    using finish_load_loaded [OF st] by (simp add: module_loaded_def)
  obtain p where p: "p \<in> set (rm_map (ls_functions st))" "base = r_base (snd p)" "high = fst p"
    "name = f_name (ls_heap st ! r_entry (snd p))" "multiple = f_is_multiple (ls_heap st ! r_entry (snd p))"
    using f by (auto simp: known_functions_def)
  let ?q = "(fst p, \<lparr>r_base = r_base (snd p), r_delta = r_delta (snd p), r_entry = Some (ls_heap st ! r_entry (snd p))\<rparr>)"
  have "?q \<in> set (rm_map (m_functions ?m))"
    using p(1) by (force simp: finish_load_def resolve_functions_def)
  moreover have "covers ?q (relative_address frame)"
    using a p(2,3) by (simp add: covers_def)
  ultimately have "covering_function ?m (relative_address frame) = Some ?q"
    using ok by (simp add: covering_function_def find_covering_iff functions_ok_def)
  then show ?thesis
    unfolding LookupAddress_at [OF ok refl]
    by (simp add: p fill_symbol_def fill_line_def Let_def split: option.splits prod.splits)
qed

section \<open>The records of a module are in order\<close>

lemma well_ordered_append:
  "(\<And>b. well_ordered b ys) \<Longrightarrow> well_ordered b xs \<Longrightarrow> well_ordered b (xs @ ys)"
  by (induction xs arbitrary: b) (auto split: SymRecord.splits)

lemma well_ordered_followers:
  "\<forall>r\<in>set xs. case r of RInline _ _ _ _ _ \<Rightarrow> True | RLine _ _ _ _ \<Rightarrow> True | _ \<Rightarrow> False \<Longrightarrow> well_ordered True xs"
  by (induction xs) (auto split: SymRecord.splits)

lemma well_ordered_neutral:
  "\<forall>r\<in>set xs. case r of RInline _ _ _ _ _ \<Rightarrow> False | RLine _ _ _ _ \<Rightarrow> False | _ \<Rightarrow> True \<Longrightarrow> well_ordered b xs"
  by (induction xs arbitrary: b) (auto split: SymRecord.splits)

lemma well_ordered_range_records: "well_ordered b (range_records m f ranges lines)"
proof (induction ranges arbitrary: b lines)
  case (Cons rg ranges)
  show ?case
    unfolding range_records.simps
    by (subst well_ordered.simps, simp add: function_record_def del: well_ordered.simps, unfold append_assoc [symmetric],
        rule well_ordered_append [OF Cons], rule well_ordered_followers)
      (auto simp: inline_record_def line_record_def)
qed simp

lemma well_ordered_concat: "(\<And>x b. x \<in> set xs \<Longrightarrow> well_ordered b (g x)) \<Longrightarrow> well_ordered b (concat (map g xs))"
proof (induction xs arbitrary: b)
  case (Cons x xs)
  then show ?case
    by (simp add: well_ordered_append)
qed simp

lemma well_ordered_symbols: "well_ordered b (symbol_records m inline_origins)"
  unfolding symbol_records_def
  by (intro well_ordered_append well_ordered_concat well_ordered_range_records; rule well_ordered_neutral)
    (auto simp: extern_record_def)

lemma well_ordered_dump: "well_ordered False (dump_records m symbol_data)"
proof -
  have "well_ordered b (concat (map (entry_records m) es))" for b es
    by (rule well_ordered_concat) (rule well_ordered_neutral, auto simp: entry_records_def)
  moreover have "well_ordered b (header_records m)" for b
    by (rule well_ordered_neutral) (simp add: header_records_def)
  ultimately show ?thesis
    unfolding dump_records_def by (intro well_ordered_append) (auto intro: well_ordered_symbols)
qed

section \<open>Public symbols and functions of the file\<close>

lemma public_addresses_append: "public_addresses (xs @ ys) = public_addresses xs @ public_addresses ys"
  by (induction xs rule: public_addresses.induct) simp_all

lemma function_ranges_append: "function_ranges (xs @ ys) = function_ranges xs @ function_ranges ys"
  by (induction xs rule: function_ranges.induct) simp_all

lemma public_addresses_none:
  "\<forall>r\<in>set xs. case r of RPublic _ _ _ _ \<Rightarrow> False | _ \<Rightarrow> True \<Longrightarrow> public_addresses xs = []"
  by (induction xs rule: public_addresses.induct) simp_all

lemma function_ranges_none:
  "\<forall>r\<in>set xs. case r of RFunction _ _ _ _ _ \<Rightarrow> False | _ \<Rightarrow> True \<Longrightarrow> function_ranges xs = []"
  by (induction xs rule: function_ranges.induct) simp_all

definition extent :: "DumpModule \<Rightarrow> ModFunction \<Rightarrow> ModRange \<Rightarrow> u64 \<times> u64 \<times> string \<times> bool" where
  "extent m f rg = (rg_address rg - load_address m, rg_address rg - load_address m + (rg_size rg - 1), mf_name f, mf_is_multiple f)"

lemma range_records_no_public: "r \<in> set (range_records m f ranges lines) \<Longrightarrow> case r of RPublic _ _ _ _ \<Rightarrow> False | _ \<Rightarrow> True"
  by (induction ranges arbitrary: lines) (auto simp: function_record_def inline_record_def line_record_def)

lemma function_ranges_range_records: "function_ranges (range_records m f ranges lines) = map (extent m f) ranges"
proof (induction ranges arbitrary: lines)
  case (Cons rg ranges)
  have "function_ranges (map (inline_record m) ds) = []" "function_ranges (map (line_record m) ls) = []" for ds ls
    by (rule function_ranges_none; simp add: inline_record_def line_record_def)+
  then show ?case
    using Cons by (simp add: function_record_def function_ranges_append extent_def)
qed simp

lemma function_ranges_concat: "function_ranges (concat (map g xs)) = concat (map (\<lambda>x. function_ranges (g x)) xs)"
  by (induction xs) (simp_all add: function_ranges_append)

lemma public_addresses_externs:
  "public_addresses (map (\<lambda>p. extern_record m (snd p)) es) = map (\<lambda>p. ext_address (snd p) - load_address m) es"
  by (induction es) (simp_all add: extern_record_def)

lemma symbol_records_contents:
  "function_ranges (symbol_records m inline_origins) =
     concat (map (\<lambda>p. map (extent m (snd p)) (mf_ranges (snd p))) (dm_functions m))"
  "public_addresses (symbol_records m inline_origins) = map (\<lambda>p. ext_address (snd p) - load_address m) (dm_externs m)"
proof -
  let ?files = "map (\<lambda>p. RFile (snd p) (fst p)) (filter (\<lambda>p. 0 \<le> snd p) (dm_files m))"
  let ?origins = "map (\<lambda>p. ROrigin (io_id (dm_origins m ! snd p)) (io_name (dm_origins m ! snd p))) inline_origins"
  let ?externs = "map (\<lambda>p. extern_record m (snd p)) (dm_externs m)"
  let ?functions = "concat (map (\<lambda>p. range_records m (snd p) (mf_ranges (snd p)) (mf_lines (snd p))) (dm_functions m))"
  have "function_ranges ?files = []" "function_ranges ?origins = []" "function_ranges ?externs = []"
    by (rule function_ranges_none; simp add: extern_record_def)+
  then show "function_ranges (symbol_records m inline_origins) =
     concat (map (\<lambda>p. map (extent m (snd p)) (mf_ranges (snd p))) (dm_functions m))"
    by (simp add: symbol_records_def function_ranges_append function_ranges_concat function_ranges_range_records)
  have "public_addresses ?files = []" "public_addresses ?origins = []" "public_addresses ?functions = []"
    by (rule public_addresses_none; auto dest: range_records_no_public)+
  then show "public_addresses (symbol_records m inline_origins) = map (\<lambda>p. ext_address (snd p) - load_address m) (dm_externs m)"
    by (simp add: symbol_records_def public_addresses_append public_addresses_externs)
qed

text \<open>Numbering changes nothing of a function but its inlined calls.\<close>

lemma functions_dfs_same:
  "map (\<lambda>p. (snd p)\<lparr>mf_inlines := []\<rparr>) (fst (functions_dfs g fs s)) = map (\<lambda>p. (snd p)\<lparr>mf_inlines := []\<rparr>) fs"
  by (induction fs arbitrary: s) (simp_all add: split_def Let_def)

lemma extents_same:
  fixes fs fs' :: "(u64 \<times> string, ModFunction) omap"
  assumes "map (\<lambda>p. (snd p)\<lparr>mf_inlines := []\<rparr>) fs = map (\<lambda>p. (snd p)\<lparr>mf_inlines := []\<rparr>) fs'"
  shows "map (\<lambda>p. map (extent m (snd p)) (mf_ranges (snd p))) fs = map (\<lambda>p. map (extent m (snd p)) (mf_ranges (snd p))) fs'"
proof -
  have "extent m (f\<lparr>mf_inlines := x\<rparr>) = extent m f" for f x
    by (simp add: extent_def fun_eq_iff)
  then have a: "map (\<lambda>p. map (extent m (snd p)) (mf_ranges (snd p))) qs =
      map (\<lambda>f. map (extent m f) (mf_ranges f)) (map (\<lambda>p. (snd p)\<lparr>mf_inlines := []\<rparr>) qs)" for qs :: "(u64 \<times> string, ModFunction) omap"
    by (simp add: comp_def)
  show ?thesis
    unfolding a [of fs] a [of fs'] assms ..
qed

lemma numbered_contents:
  "map (\<lambda>p. map (extent (numbered m) (snd p)) (mf_ranges (snd p))) (dm_functions (numbered m)) =
     map (\<lambda>p. map (extent m (snd p)) (mf_ranges (snd p))) (dm_functions m)"
  "dm_externs (numbered m) = dm_externs m"
proof -
  have "map (\<lambda>p. (snd p)\<lparr>mf_inlines := []\<rparr>) (dm_functions (numbered m)) = map (\<lambda>p. (snd p)\<lparr>mf_inlines := []\<rparr>) (dm_functions m)"
    by (simp add: numbered_def AssignSourceIds_def CreateInlineOrigins_def split_def Let_def functions_dfs_same)
  from extents_same [OF this, of m]
  show "map (\<lambda>p. map (extent (numbered m) (snd p)) (mf_ranges (snd p))) (dm_functions (numbered m)) =
     map (\<lambda>p. map (extent m (snd p)) (mf_ranges (snd p))) (dm_functions m)"
    by (simp add: extent_def [abs_def])
  show "dm_externs (numbered m) = dm_externs m"
    by (simp add: numbered_def AssignSourceIds_def CreateInlineOrigins_def split_def Let_def)
qed

lemma dump_contents:
  assumes "and symbol_data SYMBOLS_AND_FILES \<noteq> 0"
  shows "function_ranges (dump_records m symbol_data) = concat (map (\<lambda>p. map (extent m (snd p)) (mf_ranges (snd p))) (dm_functions m))"
    and "public_addresses (dump_records m symbol_data) = map (\<lambda>p. ext_address (snd p) - load_address m) (dm_externs m)"
proof -
  have "function_ranges (header_records m) = []" "public_addresses (header_records m) = []"
    by (simp_all add: header_records_def)
  moreover have "function_ranges (concat (map (entry_records m) es)) = []" "public_addresses (concat (map (entry_records m) es)) = []" for es
    by (rule function_ranges_none public_addresses_none; auto simp: entry_records_def)+
  ultimately show "function_ranges (dump_records m symbol_data) = concat (map (\<lambda>p. map (extent m (snd p)) (mf_ranges (snd p))) (dm_functions m))"
    "public_addresses (dump_records m symbol_data) = map (\<lambda>p. ext_address (snd p) - load_address m) (dm_externs m)"
    using assms by (simp_all add: dump_records_def function_ranges_append public_addresses_append symbol_records_contents numbered_contents)
qed

section \<open>From a dumped module to a lookup\<close>

text \<open>The set of externs is ordered by their addresses.\<close>

definition externs_ok :: "DumpModule \<Rightarrow> bool" where
  "externs_ok m \<longleftrightarrow> om_sorted (dm_externs m) \<and> (\<forall>p\<in>set (dm_externs m). fst p = ext_address (snd p))"

definition records_valid :: "SymRecord list \<Rightarrow> bool" where
  "records_valid rs \<longleftrightarrow> (\<forall>r\<in>set rs. record_ok r \<and> nul_free (record_text r) \<and> range_valid r)"

text \<open>The ranges of all functions, relative to the load address.\<close>

definition extents :: "DumpModule \<Rightarrow> (u64 \<times> u64 \<times> string \<times> bool) list" where
  "extents m = concat (map (\<lambda>p. map (extent m (snd p)) (mf_ranges (snd p))) (dm_functions m))"

lemma dump_fits:
  assumes "and symbol_data SYMBOLS_AND_FILES \<noteq> 0" "externs_ok m" "records_valid (dump_records m symbol_data)"
    "sorted_wrt apart (extents m)"
  shows "records_fit (dump_records m symbol_data)"
proof -
  have eq: "map (\<lambda>p. ext_address (snd p)) (dm_externs m) = map fst (dm_externs m)"
    using assms(2) by (simp add: externs_ok_def)
  have "distinct (map (\<lambda>p. ext_address (snd p)) (dm_externs m))"
    unfolding eq by (rule om_sorted_distinct) (use assms(2) in \<open>simp add: externs_ok_def\<close>)
  then have "distinct (map (\<lambda>a. a - load_address m) (map (\<lambda>p. ext_address (snd p)) (dm_externs m)))"
    by (subst distinct_map) (simp add: inj_on_def)
  then show ?thesis
    using assms(3,4) by (simp add: records_fit_def records_valid_def dump_contents [OF assms(1)] comp_def extents_def)
qed

lemma dump_not_Nil: "dump_records m symbol_data \<noteq> []"
  by (simp add: dump_records_def header_records_def)

lemma dumped_functions:
  assumes "and symbol_data SYMBOLS_AND_FILES \<noteq> 0" "externs_ok m" "records_valid (dump_records m symbol_data)"
    "sorted_wrt apart (extents m)"
  shows "\<exists>m'. LoadMapFromMemory junk (snd (Module_Write_symbols m symbol_data)) = Some m' \<and> \<not> m_is_corrupt m' \<and>
    (\<forall>p\<in>set (dm_functions m). \<forall>rg\<in>set (mf_ranges (snd p)). \<forall>frame.
       rg_address rg - load_address m \<le> relative_address frame \<and>
       relative_address frame \<le> rg_address rg - load_address m + (rg_size rg - 1) \<longrightarrow>
       (\<exists>frame'. LookupAddress m' frame None = (frame', None) \<and> function_name frame' = mf_name (snd p) \<and>
          function_base frame' = module_base_address frame + (rg_address rg - load_address m) \<and>
          is_multiple frame' = mf_is_multiple (snd p)))"
proof -
  obtain st where st: "LoadMapFromMemory junk (records_text (dump_records m symbol_data)) = Some (finish_load st)"
    "state_loaded st" "num_errors st = 0" "known_functions st = set (function_ranges (dump_records m symbol_data))"
    using load_known [OF dump_fits [OF assms] well_ordered_dump dump_not_Nil] by blast
  have known: "extent m (snd p) rg \<in> known_functions st" if "p \<in> set (dm_functions m)" "rg \<in> set (mf_ranges (snd p))" for p rg
    using that by (auto simp: st(4) dump_contents [OF assms(1)])
  show ?thesis
  proof (rule exI [of _ "finish_load st"], intro conjI ballI allI impI)
    show "LoadMapFromMemory junk (snd (Module_Write_symbols m symbol_data)) = Some (finish_load st)"
      by (simp add: Module_Write_records st(1))
    show "\<not> m_is_corrupt (finish_load st)"
      by (simp add: finish_load_def st(3))
    show "\<exists>frame'. LookupAddress (finish_load st) frame None = (frame', None) \<and> function_name frame' = mf_name (snd p) \<and>
        function_base frame' = module_base_address frame + (rg_address rg - load_address m) \<and>
        is_multiple frame' = mf_is_multiple (snd p)"
      if "p \<in> set (dm_functions m)" "rg \<in> set (mf_ranges (snd p))"
        "rg_address rg - load_address m \<le> relative_address frame \<and>
         relative_address frame \<le> rg_address rg - load_address m + (rg_size rg - 1)" for p rg frame
      using lookup_known [OF st(2) known [OF that(1,2), unfolded extent_def]] that(3) by blast
  qed
qed

end
