(* ===== verification/Symbol_Properties.thy ===== *)
theory Symbol_Properties
  imports Dump_Load
begin

text \<open>
  The properties of the symbol file loader and of the writer: what is read back, what every loaded module
  satisfies, which lines are fatal, and that lookups find what was dumped.
\<close>

section \<open>Fatal lines\<close>

definition ends_at_platform :: "string \<Rightarrow> bool" where
  "ends_at_platform line \<longleftrightarrow>
     (let s = dropWhile (\<lambda>c. c = CHR '' '') (drop 6 line) in
      takeWhile (\<lambda>c. c \<notin> set kWhitespace) s \<in> {''WIN'', ''CFI''} \<and> dropWhile (\<lambda>c. c \<notin> set kWhitespace) s = [])"

lemma Module_ParseCFIFrameInfo_returns:
  assumes "state_loaded st"
  shows "Module_ParseCFIFrameInfo s st \<noteq> None"
proof -
  have "ranges_ok (rm_map (m_cfi_initial_rules (ls_module st)))"
    using state_loaded_maps [OF assms] by (simp add: maps_loaded_def)
  then show ?thesis
    using StoreRange_returns [of "m_cfi_initial_rules (ls_module st)"]
    by (fastforce simp: Module_ParseCFIFrameInfo_def split: prod.split option.split)
qed

lemma Module_ParseStackInfo_None:
  assumes "state_loaded st"
  shows "Module_ParseStackInfo line behind left st = None \<longleftrightarrow> ends_at_platform line \<and> behind = None"
proof -
  define s where "s = dropWhile (\<lambda>c. c = CHR '' '') (drop 6 line)"
  define platform where "platform = takeWhile (\<lambda>c. c \<notin> set kWhitespace) s"
  define over where "over \<longleftrightarrow> dropWhile (\<lambda>c. c \<notin> set kWhitespace) s = []"
  define rest where "rest = (if over then behind else Some (tl (dropWhile (\<lambda>c. c \<notin> set kWhitespace) s)))"
  define F where "F = (\<lambda>s. the (Module_ParseCFIFrameInfo s st))"
  have F: "Module_ParseCFIFrameInfo s st = Some (F s)" for s
    using Module_ParseCFIFrameInfo_returns [OF assms, of s] by (simp add: F_def)
  have "Module_ParseStackInfo line behind left st = None \<longleftrightarrow> platform \<in> {''WIN'', ''CFI''} \<and> rest = None"
    unfolding Module_ParseStackInfo_def Let_def s_def [symmetric] platform_def [symmetric] over_def [symmetric] rest_def [symmetric]
    by (cases rest) (auto simp: F split: option.splits)
  also have "rest = None \<longleftrightarrow> over \<and> behind = None"
    by (simp add: rest_def)
  finally show ?thesis
    unfolding ends_at_platform_def Let_def s_def [symmetric] platform_def [symmetric] over_def [symmetric]
    by (simp only: conj_assoc)
qed

lemma load_line_None:
  assumes "state_loaded st"
  shows "load_line junk buffer behind left st = None \<longleftrightarrow>
    has_prefix ''STACK '' buffer \<and> ends_at_platform buffer \<and> behind = None \<or>
    has_prefix ''INLINE '' buffer \<and> Module_ParseInline junk buffer \<noteq> None \<and> cur_func st = None"
proof -
  have fs: "ranges_ok (rm_map (ls_functions st))"
    using assms by (simp add: state_loaded_def)
  have func: "add_function f st \<noteq> None" for f
    using StoreRange_returns [OF fs] by (fastforce simp: add_function_def Let_def)
  have line: "add_line i l st \<noteq> None" if "cur_func st = Some i" for i l
  proof -
    have "ranges_ok (rm_map (f_lines (ls_heap st ! i)))"
      using assms that by (auto simp: state_loaded_def function_loaded_def)
    then show ?thesis
      using StoreRange_returns by (fastforce simp: add_line_def Let_def)
  qed
  consider (stack) s where "buffer = ''STACK '' @ s" | (inl) s where "buffer = ''INLINE '' @ s"
    | (other) "\<not> has_prefix ''STACK '' buffer" "\<not> has_prefix ''INLINE '' buffer"
    by (metis append_take_drop_id has_prefix_def)
  then show ?thesis
  proof cases
    case stack
    then show ?thesis
      using Module_ParseStackInfo_None [OF assms] by (simp add: load_line_def has_prefix_def)
  next
    case inl
    then show ?thesis
      by (simp add: load_line_def has_prefix_def with_left_def split: option.split)
  next
    case other
    then show ?thesis
      using func line by (simp add: load_line_def with_left_def split: option.split)
  qed
qed

section \<open>Records and files\<close>

definition example_records :: "SymRecord list" where
  "example_records = [RModule ''Linux x86_64 0 a.out'', RFile 1 ''a.c'', RFunction False 16 8 0 ''main(int, char**)'',
     RInline 0 9 1 3 [(16, 4)], RLine 16 4 7 1, RPublic True 64 0 ''f'', RInit 16 8 ''.cfa: $rsp 8 + .ra: .cfa 8 - ^'']"

lemma example_records_ok: "\<forall>r\<in>set example_records. record_ok r"
  by (simp add: example_records_def is_token_def newlines_def ULLONG_MAX_def LONG_MAX_def)

lemma show_int_one [simp]: "show_int 1 = ''1''"
proof -
  have "char_of (48 + 1 :: nat) = CHR ''1''"
    by code_simp
  then show ?thesis
    by (simp add: show_int_def show_nat.simps)
qed

text \<open>C13. Round trip of a record: the line that is written for a record, whatever follows it in the file,
  makes the loader do to its state what the record says, with every field read back as it was written.\<close>

theorem load_line_reads_record:
  assumes "record_ok r"
  shows "load_line junk (record_text r) behind left st = map_option (\<lambda>st. (st, left)) (replay junk r st)"
  by (rule load_line_text [OF assms])

lemma load_line_reads_record_witness:
  "load_line 0 ''FILE 1 a.c'' None [] LoadState_new =
     Some (LoadState_new\<lparr>ls_module := Module_new\<lparr>m_files := [(1, ''a.c'')]\<rparr>\<rparr>, [])"
proof -
  have "record_text (RFile 1 ''a.c'') = ''FILE 1 a.c''"
    by simp
  moreover have "record_ok (RFile 1 ''a.c'')"
    using example_records_ok by (simp add: example_records_def)
  ultimately show ?thesis
    using load_line_reads_record [of "RFile 1 ''a.c''" 0 None "[]" LoadState_new]
    by (simp add: LoadState_new_def Module_new_def to_s32_id)
qed

text \<open>C14. Round trip of a file: a symbol file that holds one line for each of a list of records is loaded
  as the sequence of these records, up to the one that makes the errors too many.\<close>

theorem LoadMapFromMemory_reads_records:
  assumes "\<forall>r\<in>set rs. record_ok r" "rs \<noteq> []" "CHR 0x00 \<notin> set (records_text rs)"
  shows "LoadMapFromMemory junk (records_text rs) = map_option finish_load (replay_all junk rs LoadState_new)"
  by (rule LoadMapFromMemory_records [OF assms])

definition file_record :: SymRecord where
  "file_record = RFile 1 ''a.c''"

definition file_module :: Module where
  "file_module = Module_new\<lparr>m_files := [(1, ''a.c'')]\<rparr>"

lemma file_record_ok: "record_ok file_record" "CHR 0x00 \<notin> set (records_text [file_record])"
  by (simp_all add: file_record_def is_token_def newlines_def LONG_MAX_def endl_def)

lemma replay_file_record: "replay_all 0 [file_record] LoadState_new = Some (LoadState_new\<lparr>ls_module := file_module\<rparr>)"
  by (simp add: file_record_def file_module_def LoadState_new_def Module_new_def to_s32_id kMaxErrorsBeforeBailing_def)

lemma finish_file_module: "finish_load (LoadState_new\<lparr>ls_module := file_module\<rparr>) = file_module"
  by (simp add: finish_load_def LoadState_new_def file_module_def Module_new_def resolve_functions_def RangeMap_new_def)

lemma LoadMapFromMemory_reads_records_witness:
  "LoadMapFromMemory 0 (records_text [file_record]) = Some file_module"
  using LoadMapFromMemory_reads_records [of "[file_record]" 0] file_record_ok
  by (simp add: replay_file_record finish_file_module del: replay_all.simps)

lemma load_file_module: "LoadMapFromMemory 0 (records_text [file_record]) = Some file_module"
  using LoadMapFromMemory_records [of "[file_record]" 0] file_record_ok
  by (simp add: replay_file_record finish_file_module del: replay_all.simps)

section \<open>Loaded modules\<close>

text \<open>C15. Whatever the bytes of a symbol file are, a module that is loaded from it is well formed: its maps
  are sorted, its functions and call frame ranges are disjoint, inlined calls and Windows frame data are
  nested, no entry is null, no string holds a terminator, and every integer fits its field. So it meets
  the hypotheses of the lookups and of the serializer.\<close>

theorem LoadMapFromMemory_well_formed:
  assumes "LoadMapFromMemory junk buffer = Some m"
  shows "module_loaded m \<and> functions_ok m \<and> module_ok m"
  using LoadMapFromMemory_loaded [OF assms] module_loaded_ok module_loaded_def by blast

lemma LoadMapFromMemory_well_formed_witness: "module_loaded file_module \<and> functions_ok file_module \<and> module_ok file_module"
  by (rule LoadMapFromMemory_well_formed [OF load_file_module])

text \<open>C16. The whole path of symbol data, for a symbol file whose INLINE records have at most one range each
  and whose module takes less than four gigabytes: loaded by the basic resolver, serialized, and loaded by
  the fast resolver, it answers every lookup as the basic resolver does. With two ranges in an INLINE record
  it does not hold (\<open>Inline_CopyFrom_holds\<close>).\<close>

theorem loaded_module_fast_agrees:
  assumes "LoadMapFromMemory junk buffer = Some m" "inlines_small m" "length (module_bytes m) < 2 ^ 32"
    "region p (length (module_bytes m))" "Module_Serialize m p mem = (mem', data, sz)"
  shows "\<exists>fm'. Fast_LoadMapFromMemory mem' data sz fm = (fm', True) \<and>
    (\<forall>frame inlined_frames. Fast_LookupAddress mem' fm' frame inlined_frames = Some (LookupAddress m frame inlined_frames)) \<and>
    (\<forall>frame. Fast_FindWindowsFrameInfo mem' fm' frame = Some (FindWindowsFrameInfo m frame)) \<and>
    (\<forall>frame. Fast_FindCFIFrameInfo mem' fm' frame = Some (FindCFIFrameInfo m frame))"
  using fast_agrees [OF module_loaded_ok module_loaded_fits assms(3-5)] LoadMapFromMemory_loaded [OF assms(1)] assms(2)
  by blast

lemma file_module_small: "inlines_small file_module" "length (module_bytes file_module) < 2 ^ 32"
proof -
  note defs = file_module_def Module_new_def RangeMap_new_def CRM_new_def
  note lengths = key_u64.length_map_bytes key_s32.length_map_bytes header_bytes_def kv_bytes_def rng_bytes_def range_bytes_def
    crm_bytes_CRM inline_bytes_def line_bytes_def public_bytes_def origin_bytes_def
  show "inlines_small file_module"
    by (simp add: inlines_small_def defs)
  show "length (module_bytes file_module) < 2 ^ 32"
    by (simp add: module_bytes_def module_maps_def defs lengths length_concat sum_list_replicate)
qed

lemma loaded_module_fast_agrees_witness:
  "\<exists>mem data sz fm. Module_Serialize file_module 4096 (\<lambda>_. 0) = (mem, data, sz) \<and>
     Fast_FindCFIFrameInfo mem fm (StackFrame_new 0x1010 0x1000) =
       Some (FindCFIFrameInfo file_module (StackFrame_new 0x1010 0x1000))"
proof -
  obtain mem data sz where s: "Module_Serialize file_module 4096 (\<lambda>_. 0) = (mem, data, sz)"
    by (cases "Module_Serialize file_module 4096 (\<lambda>_. 0)")
  have "region 4096 (length (module_bytes file_module))"
    using file_module_small(2) by (simp add: region_def)
  from loaded_module_fast_agrees [OF load_file_module file_module_small this s, of undefined] show ?thesis
    using s by blast
qed

text \<open>C17. The lines that are fatal to the loader: an INLINE record that can be parsed while there is no
  current function, which is dereferenced, and a STACK record that ends with its platform, WIN or CFI,
  at the very end of the buffer, behind which the parser goes on reading. No other line is.\<close>

theorem load_line_crashes:
  assumes "state_loaded st"
  shows "load_line junk buffer behind left st = None \<longleftrightarrow>
    has_prefix ''STACK '' buffer \<and> ends_at_platform buffer \<and> behind = None \<or>
    has_prefix ''INLINE '' buffer \<and> Module_ParseInline junk buffer \<noteq> None \<and> cur_func st = None"
  by (rule load_line_None [OF assms])

lemma load_line_crashes_witness: "load_line 0 (record_text (RInline 0 9 1 3 [(16, 4)])) None [] LoadState_new = None"
proof -
  have "record_ok (RInline 0 9 1 3 [(16, 4)])"
    using example_records_ok by (simp add: example_records_def)
  then have "Module_ParseInline 0 (record_text (RInline 0 9 1 3 [(16, 4)])) \<noteq> None"
    using SPH_ParseInline_text by (simp add: Module_ParseInline_def del: record_text.simps)
  moreover have "cur_func LoadState_new = None"
    by (simp add: LoadState_new_def)
  moreover have "has_prefix ''INLINE '' (record_text (RInline 0 9 1 3 [(16, 4)]))"
    by (simp add: has_prefix_def)
  ultimately show ?thesis
    using load_line_crashes [OF LoadState_new_loaded] by blast
qed

end
