(* ===== verification/Dump_Properties.thy ===== *)
theory Dump_Properties
  imports Symbol_Properties
begin

text \<open>
  The properties of a module that a dump tool builds: its invariant, what adding a function does, how
  references between inline origins are followed, and that the file it writes leads back to its functions.
\<close>

section \<open>The invariant of a module\<close>

text \<open>
  The sets are ordered by the keys of their elements, and the addresses of functions are recorded.
\<close>

definition dump_inv :: "DumpModule \<Rightarrow> bool" where
  "dump_inv m \<longleftrightarrow> om_sorted (dm_files m) \<and> om_sorted (dm_functions m) \<and>
     (\<forall>p\<in>set (dm_functions m). fst p = (mf_address (snd p), mf_name (snd p))) \<and> externs_ok m \<and>
     set (function_addresses m) = (\<lambda>p. mf_address (snd p)) ` set (dm_functions m)"



lemma om_sorted_keys: "om_sorted m \<Longrightarrow> map fst m' = map fst m \<Longrightarrow> om_sorted m'"
  by (simp add: om_sorted_def)



lemma merge_extern_fields [simp]:
  "mf_address (merge_extern m e f) = mf_address f" "mf_ranges (merge_extern m e f) = mf_ranges f"
  "mf_lines (merge_extern m e f) = mf_lines f" "mf_inlines (merge_extern m e f) = mf_inlines f"
  by (simp_all add: merge_extern_def Let_def)

text \<open>The module without the extern that the function replaces.\<close>

definition without_extern :: "u64 \<Rightarrow> DumpModule \<Rightarrow> DumpModule" where
  "without_extern address m =
     (let it = matching_extern m address in
      if it < length (dm_externs m) then m\<lparr>dm_externs := om_erase (dm_externs m) it\<rparr> else m)"

definition with_extern :: "ModFunction \<Rightarrow> DumpModule \<Rightarrow> ModFunction" where
  "with_extern f m =
     (let it = matching_extern m (mf_address f) in
      if it < length (dm_externs m) then merge_extern m (snd (dm_externs m ! it)) f else f)"

lemma with_extern_fields [simp]:
  "mf_address (with_extern f m) = mf_address f" "mf_ranges (with_extern f m) = mf_ranges f"
  "mf_lines (with_extern f m) = mf_lines f" "mf_inlines (with_extern f m) = mf_inlines f"
  by (simp_all add: with_extern_def Let_def)

lemma without_extern_fields [simp]:
  "enable_multiple_field (without_extern a m) = enable_multiple_field m"
  "function_addresses (without_extern a m) = function_addresses m" "dm_functions (without_extern a m) = dm_functions m"
  by (simp_all add: without_extern_def Let_def)









lemma AddExtern_inv:
  assumes "dump_inv m"
  shows "dump_inv (AddExtern ext m)"
proof -
  let ?it = "om_find (dm_externs m) (ext_address ext)"
  have s: "om_sorted (dm_externs m)" and k: "\<forall>p\<in>set (dm_externs m). fst p = ext_address (snd p)"
    using assms by (auto simp: dump_inv_def externs_ok_def)
  have "externs_ok (m\<lparr>dm_externs := om_insert (ext_address ext) ext (dm_externs m)\<rparr>)"
    using om_sorted_insert [OF s] om_insert_subset [of "ext_address ext" ext "dm_externs m"] k
    by (auto simp: externs_ok_def)
  moreover have "externs_ok (m\<lparr>dm_externs := (dm_externs m)[?it := (fst (dm_externs m ! ?it), (snd (dm_externs m ! ?it))\<lparr>ext_is_multiple := True\<rparr>)]\<rparr>)"
    if "?it < length (dm_externs m)"
  proof -
    let ?es = "(dm_externs m)[?it := (fst (dm_externs m ! ?it), (snd (dm_externs m ! ?it))\<lparr>ext_is_multiple := True\<rparr>)]"
    have "map fst ?es = map fst (dm_externs m)"
      by (rule nth_equalityI) (use that in \<open>auto simp: nth_list_update\<close>)
    moreover have "fst p = ext_address (snd p)" if "p \<in> set ?es" for p
      using subsetD [OF set_update_subset_insert that] k \<open>?it < length (dm_externs m)\<close> by auto
    ultimately show ?thesis
      using om_sorted_keys [OF s] by (simp add: externs_ok_def)
  qed
  ultimately show ?thesis
    using assms by (simp add: AddExtern_def Let_def dump_inv_def)
qed

lemma FindFile_inv: "dump_inv m \<Longrightarrow> dump_inv (fst (FindFile name m))"
  by (auto simp: FindFile_def Let_def dump_inv_def externs_ok_def om_sorted_insert)

lemma AddStackFrameEntry_inv: "dump_inv m \<Longrightarrow> dump_inv (AddStackFrameEntry entry m)"
  by (simp add: AddStackFrameEntry_def dump_inv_def externs_ok_def)

lemma functions_dfs_keys: "map (\<lambda>p. (fst p, mf_address (snd p), mf_name (snd p))) (fst (functions_dfs g fs s)) =
    map (\<lambda>p. (fst p, mf_address (snd p), mf_name (snd p))) fs"
  by (induction fs arbitrary: s) (simp_all add: split_def Let_def)

lemma mark_file_keys [simp]: "map fst (mark_file name files) = map fst files"
  by (auto simp: mark_file_def)

lemma mark_lines_keys: "map fst (fold (\<lambda>line. mark_file (ml_file line)) ls files) = map fst files"
  by (induction ls arbitrary: files) simp_all

lemma mark_functions_keys:
  "map fst (fold (\<lambda>p. fold (\<lambda>line. mark_file (ml_file line)) (mf_lines (snd p))) fs files) = map fst files"
  by (induction fs arbitrary: files) (simp_all add: mark_lines_keys)

lemma InlineDFS_files_keys: "map fst (snd (InlineDFS markInlineFiles inlines files)) = map fst files"
proof (induction inlines arbitrary: files rule: inline_list.induct)
  case (2 d children inlines)
  have "map fst (snd (markInlineFiles d files)) = map fst files"
    by (simp add: markInlineFiles_def split: option.split)
  then show ?case
    using 2 by (simp add: split_def Let_def)
qed simp

lemma functions_dfs_files_keys: "map fst (snd (functions_dfs markInlineFiles fs files)) = map fst files"
  by (induction fs arbitrary: files) (simp_all add: split_def Let_def InlineDFS_files_keys)

lemma number_files_keys: "map fst (number_files n files) = map fst files"
  by (induction files arbitrary: n) simp_all

lemma functions_inv_cong:
  assumes "dump_inv m" "map (\<lambda>p. (fst p, mf_address (snd p), mf_name (snd p))) fs =
      map (\<lambda>p. (fst p, mf_address (snd p), mf_name (snd p))) (dm_functions m)" "map fst files = map fst (dm_files m)"
  shows "dump_inv (m\<lparr>dm_functions := fs, dm_files := files\<rparr>)"
proof -
  let ?g = "\<lambda>p::(u64 \<times> string) \<times> ModFunction. (fst p, mf_address (snd p), mf_name (snd p))"
  have eq: "?g ` set fs = ?g ` set (dm_functions m)"
    using arg_cong [OF assms(2), of set] by (simp only: set_map)
  have "fst p = (mf_address (snd p), mf_name (snd p))" if "p \<in> set fs" for p
  proof -
    have "?g p \<in> ?g ` set (dm_functions m)"
      using that eq by blast
    then show ?thesis
      using assms(1) by (auto simp: dump_inv_def)
  qed
  moreover have "(\<lambda>p. mf_address (snd p)) ` set fs = (\<lambda>p. mf_address (snd p)) ` set (dm_functions m)"
    using arg_cong [OF eq, of "image (\<lambda>x. fst (snd x))"] by (simp only: image_image fst_conv snd_conv)
  moreover have "map fst fs = map fst (dm_functions m)"
    using arg_cong [OF assms(2), of "map fst"] by (simp add: comp_def)
  ultimately show ?thesis
    using assms(1) om_sorted_keys [of "dm_functions m" fs] om_sorted_keys [of "dm_files m" files] assms(3)
    by (simp add: dump_inv_def externs_ok_def)
qed

lemma numbered_inv:
  assumes "dump_inv m"
  shows "dump_inv (numbered m)"
proof -
  let ?m = "fst (CreateInlineOrigins m)"
  let ?r = "functions_dfs (addInlineOrigins (dm_origins m)) (dm_functions m) []"
  have "dump_inv (m\<lparr>dm_functions := fst ?r, dm_files := dm_files m\<rparr>)"
    by (rule functions_inv_cong [OF assms functions_dfs_keys]) simp
  then have 1: "dump_inv ?m"
    by (simp add: CreateInlineOrigins_def split_def Let_def dump_inv_def externs_ok_def)
  let ?files = "fold (\<lambda>p. fold (\<lambda>line. mark_file (ml_file line)) (mf_lines (snd p))) (dm_functions ?m)
    (map (\<lambda>p. (fst p, -1)) (dm_files ?m))"
  let ?s = "functions_dfs markInlineFiles (dm_functions ?m) ?files"
  have "map fst (number_files 0 (snd ?s)) = map fst (dm_files ?m)"
    by (simp add: number_files_keys functions_dfs_files_keys mark_functions_keys comp_def)
  from functions_inv_cong [OF 1 functions_dfs_keys this] show ?thesis
    by (simp add: numbered_def AssignSourceIds_def split_def Let_def)
qed

section \<open>References between inline origins\<close>

text \<open>The offset that a chain of references has reached after some links.\<close>

primrec follow :: "(u64, u64) omap \<Rightarrow> nat \<Rightarrow> u64 \<Rightarrow> u64" where
  "follow references 0 offset = offset"
| "follow references (Suc n) offset =
     follow references n (case om_lookup references offset of None \<Rightarrow> offset | Some r \<Rightarrow> r)"

definition is_root :: "(u64, u64) omap \<Rightarrow> u64 \<Rightarrow> bool" where
  "is_root references offset \<longleftrightarrow> om_lookup references offset = None \<or> om_lookup references offset = Some offset"

lemma find_root_follow: "is_root references (follow references n offset) \<Longrightarrow>
    find_root references offset = Some (follow references n offset)"
proof (induction n arbitrary: offset)
  case 0
  then show ?case
    by (subst find_root.simps) (auto simp: is_root_def)
next
  case (Suc n)
  show ?case
  proof (cases "is_root references offset")
    case True
    then have "(case om_lookup references offset of None \<Rightarrow> offset | Some r \<Rightarrow> r) = offset"
      by (auto simp: is_root_def)
    then show ?thesis
      using Suc by simp
  next
    case False
    then obtain r where "om_lookup references offset = Some r" "offset \<noteq> r"
      by (auto simp: is_root_def)
    then show ?thesis
      using Suc by (subst find_root.simps) simp
  qed
qed

lemma find_root_reached:
  assumes "find_root references offset = Some root"
  shows "\<exists>n. root = follow references n offset \<and> is_root references root"
  using assms
proof (induction rule: find_root.raw_induct [rotated, consumes 1, case_names step])
  case (step find_root references offset root)
  show ?case
  proof (cases "is_root references offset")
    case True
    then have "root = follow references 0 offset"
      using step(2) by (auto simp: is_root_def split: if_splits)
    then show ?thesis
      using True by (intro exI [of _ 0]) simp
  next
    case False
    then obtain r where r: "om_lookup references offset = Some r" "offset \<noteq> r"
      by (auto simp: is_root_def)
    then obtain n where "root = follow references n r" "is_root references root"
      using step by force
    then show ?thesis
      using r by (intro exI [of _ "Suc n"]) simp
  qed
qed

lemma GetOrCreateInlineOrigin_root:
  "(\<exists>r. GetOrCreateInlineOrigin offset name iom origins = Some r) \<longleftrightarrow>
     (\<exists>n. is_root (fst (subscript offset (iom_references iom)))
       (follow (fst (subscript offset (iom_references iom))) n (snd (subscript offset (iom_references iom)))))"
proof -
  obtain references start where s: "subscript offset (iom_references iom) = (references, start)"
    by (meson surj_pair)
  have "(\<exists>r. GetOrCreateInlineOrigin offset name iom origins = Some r) \<longleftrightarrow> (\<exists>root. find_root references start = Some root)"
    by (cases "find_root references start") (simp_all add: GetOrCreateInlineOrigin_def s Let_def split: option.split)
  also have "\<dots> \<longleftrightarrow> (\<exists>n. is_root references (follow references n start))"
    using find_root_follow find_root_reached by blast
  finally show ?thesis
    by (simp add: s)
qed

section \<open>Properties\<close>


definition example_mod_function :: ModFunction where
  "example_mod_function = \<lparr>mf_name = ''main'', mf_address = 0x1010, mf_ranges = [\<lparr>rg_address = 0x1010, rg_size = 8\<rparr>],
     mf_parameter_size = 0, mf_lines = [], mf_inlines = [], mf_is_multiple = False\<rparr>"




text \<open>Every other operation on a module keeps it well formed: adding a public symbol, a file or a call
  frame entry, and the renumbering of files and inline origins that a write does.\<close>

lemma dump_operations_keep_inv:
  assumes "dump_inv m"
  shows "dump_inv (AddExtern ext m) \<and> dump_inv (fst (FindFile name m)) \<and> dump_inv (AddStackFrameEntry entry m) \<and>
    dump_inv (fst (Module_Write_symbols m symbol_data))"
proof (intro conjI)
  show "dump_inv (fst (Module_Write_symbols m symbol_data))"
    using assms numbered_inv [OF assms] by (simp add: Module_Write_symbols_def split_def Let_def numbered_def)
qed (rule AddExtern_inv FindFile_inv AddStackFrameEntry_inv, rule assms)+

text \<open>C21. Looking up an inline origin returns exactly if the chain of references that starts at its offset
  ends: some number of links leads to an offset without a reference or with one to itself. On a cycle of
  references the loop never stops.\<close>

theorem GetOrCreateInlineOrigin_returns:
  "(\<exists>r. GetOrCreateInlineOrigin offset name iom origins = Some r) \<longleftrightarrow>
     (\<exists>n. is_root (fst (subscript offset (iom_references iom)))
       (follow (fst (subscript offset (iom_references iom))) n (snd (subscript offset (iom_references iom)))))"
  by (rule GetOrCreateInlineOrigin_root)

text \<open>C18. From a dumped module to a symbolized address: the symbol file that is written for a module whose
  function ranges do not overlap is loaded without errors, and a frame anywhere in a range of one of its
  functions is given the name, the base address and the multiple flag of that function.\<close>

theorem dumped_functions_are_found:
  assumes "and symbol_data SYMBOLS_AND_FILES \<noteq> 0" "dump_inv m" "records_valid (dump_records m symbol_data)"
    "sorted_wrt apart (extents m)"
  shows "\<exists>m'. LoadMapFromMemory junk (snd (Module_Write_symbols m symbol_data)) = Some m' \<and> \<not> m_is_corrupt m' \<and>
    (\<forall>p\<in>set (dm_functions m). \<forall>rg\<in>set (mf_ranges (snd p)). \<forall>frame.
       rg_address rg - load_address m \<le> relative_address frame \<and>
       relative_address frame \<le> rg_address rg - load_address m + (rg_size rg - 1) \<longrightarrow>
       (\<exists>frame'. LookupAddress m' frame None = (frame', None) \<and> function_name frame' = mf_name (snd p) \<and>
          function_base frame' = module_base_address frame + (rg_address rg - load_address m) \<and>
          is_multiple frame' = mf_is_multiple (snd p)))"
  by (rule dumped_functions [OF assms(1) _ assms(3,4)]) (use assms(2) in \<open>simp add: dump_inv_def\<close>)

definition main_dump :: DumpModule where
  "main_dump = SetLoadAddress 0x1000 (fst (the (AddFunction False example_mod_function
     (DumpModule_new ''a.out'' ''Linux'' ''x86_64'' ''0'' [] False False))))"

lemma main_dump_eq: "main_dump = (DumpModule_new ''a.out'' ''Linux'' ''x86_64'' ''0'' [] False False)
    \<lparr>load_address := 0x1000, dm_functions := [((0x1010, ''main''), example_mod_function)], function_addresses := [0x1010]\<rparr>"
  by (simp add: main_dump_def AddFunction_def AddressIsInModule_def DumpModule_new_def example_mod_function_def
    matching_extern_def om_find_def Let_def SetLoadAddress_def)

lemma main_dump_records: "dump_records main_dump 3 =
    [RModule ''Linux x86_64 0 a.out'', RFunction False 16 8 0 ''main'']"
  by (simp add: main_dump_eq dump_records_def header_records_def symbol_records_def numbered_def AssignSourceIds_def
    CreateInlineOrigins_def DumpModule_new_def SYMBOLS_AND_FILES_def CFI_DATA_def example_mod_function_def function_record_def)

lemma dumped_functions_are_found_witness:
  "\<exists>m'. LoadMapFromMemory 0 (snd (Module_Write_symbols main_dump 3)) = Some m' \<and>
     function_name (fst (LookupAddress m' (StackFrame_new 0x5012 0x5000) None)) = ''main''"
proof -
  have "records_valid (dump_records main_dump 3)"
    by (simp add: records_valid_def main_dump_records range_valid_def is_token_def newlines_def ULLONG_MAX_def
      LONG_MAX_def nul_free_def multiple_field_def)
  moreover have "dump_inv main_dump"
    by (simp add: main_dump_eq dump_inv_def DumpModule_new_def externs_ok_def example_mod_function_def)
  moreover have "sorted_wrt apart (extents main_dump)"
    by (simp add: main_dump_eq extents_def example_mod_function_def)
  moreover have "and 3 SYMBOLS_AND_FILES \<noteq> 0"
    by (simp add: SYMBOLS_AND_FILES_def)
  ultimately obtain m' where m': "LoadMapFromMemory 0 (snd (Module_Write_symbols main_dump 3)) = Some m'"
    "\<forall>p\<in>set (dm_functions main_dump). \<forall>rg\<in>set (mf_ranges (snd p)). \<forall>frame.
       rg_address rg - load_address main_dump \<le> relative_address frame \<and>
       relative_address frame \<le> rg_address rg - load_address main_dump + (rg_size rg - 1) \<longrightarrow>
       (\<exists>frame'. LookupAddress m' frame None = (frame', None) \<and> function_name frame' = mf_name (snd p) \<and>
          function_base frame' = module_base_address frame + (rg_address rg - load_address main_dump) \<and>
          is_multiple frame' = mf_is_multiple (snd p))"
    using dumped_functions_are_found [of 3 main_dump 0] by blast
  have "\<forall>frame. 16 \<le> relative_address frame \<and> relative_address frame \<le> 23 \<longrightarrow>
      (\<exists>frame'. LookupAddress m' frame None = (frame', None) \<and> function_name frame' = ''main'')"
    using m'(2) by (auto simp: main_dump_eq example_mod_function_def)
  from spec [OF this, of "StackFrame_new 0x5012 0x5000"]
  have "\<exists>frame'. LookupAddress m' (StackFrame_new 0x5012 0x5000) None = (frame', None) \<and> function_name frame' = ''main''"
    by (simp add: relative_address_def StackFrame_new_def)
  then show ?thesis
    using m'(1) by auto
qed

end
