(* ===== verification/Dwarf_Reader.thy ===== *)
theory Dwarf_Reader
  imports Byte_Memory
begin

unbundle bit_operations_syntax

text \<open>
  common/dwarf/bytereader.h, bytereader-inl.h and bytereader.cc: reading numbers of several widths
  in either byte order, LEB128 numbers, initial lengths and the encoded pointers of exception
  handling data. A buffer pointer is an address of the memory. \<open>None\<close> is a run without a result:
  a failed assertion, \<open>abort\<close>, or a shift by the width of the number or more, which the
  loops over LEB128 bytes reach on an encoding of more than ten bytes. Lengths are \<open>size_t\<close> words.
\<close>

section \<open>State\<close>

datatype Endianness = ENDIANNESS_BIG | ENDIANNESS_LITTLE

text \<open>The member function that a reader pointer names; \<open>NoReader\<close> is the null pointer.\<close>

datatype AddressReader = NoReader | FourBytes | EightBytes

record ByteReader =
  offset_reader :: AddressReader
  address_reader :: AddressReader
  endian :: Endianness
  address_size :: u64
  offset_size :: u64
  have_section_base :: bool
  have_text_base :: bool
  have_data_base :: bool
  have_function_base :: bool
  section_base :: u64
  text_base :: u64
  data_base :: u64
  function_base :: u64
  buffer_base :: u64

text \<open>The bases are not initialised by the code; they are read only behind their flags.\<close>

definition ByteReader_new :: "Endianness \<Rightarrow> ByteReader" where
  "ByteReader_new e = \<lparr>offset_reader = NoReader, address_reader = NoReader, endian = e, address_size = 0, offset_size = 0,
     have_section_base = False, have_text_base = False, have_data_base = False, have_function_base = False,
     section_base = 0, text_base = 0, data_base = 0, function_base = 0, buffer_base = 0\<rparr>"

section \<open>Numbers of fixed width\<close>

definition ReadOneByte :: "memory \<Rightarrow> u64 \<Rightarrow> u8" where
  "ReadOneByte mem buffer = mem buffer"

definition ReadTwoBytes :: "ByteReader \<Rightarrow> memory \<Rightarrow> u64 \<Rightarrow> u16" where
  "ReadTwoBytes r mem buffer =
     (let buffer0 = ucast (mem buffer); buffer1 = ucast (mem (buffer + 1)) in
      if endian r = ENDIANNESS_LITTLE then buffer0 OR push_bit 8 buffer1
      else buffer1 OR push_bit 8 buffer0)"

definition ReadThreeBytes :: "ByteReader \<Rightarrow> memory \<Rightarrow> u64 \<Rightarrow> u64" where
  "ReadThreeBytes r mem buffer =
     (let buffer0 = ucast (mem buffer) :: u32; buffer1 = ucast (mem (buffer + 1)); buffer2 = ucast (mem (buffer + 2)) in
      ucast (if endian r = ENDIANNESS_LITTLE then buffer0 OR push_bit 8 buffer1 OR push_bit 16 buffer2
      else buffer2 OR push_bit 8 buffer1 OR push_bit 16 buffer0))"

definition ReadFourBytes :: "ByteReader \<Rightarrow> memory \<Rightarrow> u64 \<Rightarrow> u64" where
  "ReadFourBytes r mem buffer =
     (let buffer0 = ucast (mem buffer) :: u32; buffer1 = ucast (mem (buffer + 1)); buffer2 = ucast (mem (buffer + 2));
          buffer3 = ucast (mem (buffer + 3)) in
      ucast (if endian r = ENDIANNESS_LITTLE
       then buffer0 OR push_bit 8 buffer1 OR push_bit 16 buffer2 OR push_bit 24 buffer3
       else buffer3 OR push_bit 8 buffer2 OR push_bit 16 buffer1 OR push_bit 24 buffer0))"

definition ReadEightBytes :: "ByteReader \<Rightarrow> memory \<Rightarrow> u64 \<Rightarrow> u64" where
  "ReadEightBytes r mem buffer =
     (let buffer0 = ucast (mem buffer); buffer1 = ucast (mem (buffer + 1)); buffer2 = ucast (mem (buffer + 2));
          buffer3 = ucast (mem (buffer + 3)); buffer4 = ucast (mem (buffer + 4)); buffer5 = ucast (mem (buffer + 5));
          buffer6 = ucast (mem (buffer + 6)); buffer7 = ucast (mem (buffer + 7)) in
      if endian r = ENDIANNESS_LITTLE
      then buffer0 OR push_bit 8 buffer1 OR push_bit 16 buffer2 OR push_bit 24 buffer3 OR
        push_bit 32 buffer4 OR push_bit 40 buffer5 OR push_bit 48 buffer6 OR push_bit 56 buffer7
      else buffer7 OR push_bit 8 buffer6 OR push_bit 16 buffer5 OR push_bit 24 buffer4 OR
        push_bit 32 buffer3 OR push_bit 40 buffer2 OR push_bit 48 buffer1 OR push_bit 56 buffer0)"

section \<open>LEB128 numbers\<close>

function read_uleb :: "memory \<Rightarrow> u64 \<Rightarrow> u64 \<Rightarrow> u64 \<Rightarrow> nat \<Rightarrow> (u64 \<times> u64) option" where
  "read_uleb mem buffer result num_read shift =
     (if 64 \<le> shift then None
      else
        let byte = mem buffer; num_read = num_read + 1;
            result = result OR push_bit shift (ucast (byte AND 0x7f)) in
        if byte AND 0x80 \<noteq> 0 then read_uleb mem (buffer + 1) result num_read (shift + 7)
        else Some (result, num_read))"
  by pat_completeness auto
termination
  by (relation "measure (\<lambda>(mem, buffer, result, num_read, shift). 64 - shift)") auto

declare read_uleb.simps [simp del]

definition ReadUnsignedLEB128 :: "memory \<Rightarrow> u64 \<Rightarrow> (u64 \<times> u64) option" where
  "ReadUnsignedLEB128 mem buffer = read_uleb mem buffer 0 0 0"

text \<open>The \<open>int64_t\<close> result is kept as the word with its bits.\<close>

function read_sleb :: "memory \<Rightarrow> u64 \<Rightarrow> u64 \<Rightarrow> u64 \<Rightarrow> nat \<Rightarrow> (u64 \<times> u64) option" where
  "read_sleb mem buffer result num_read shift =
     (if 64 \<le> shift then None
      else
        let byte = mem buffer; num_read = num_read + 1;
            result = result OR push_bit shift (ucast (byte AND 0x7f)); shift = shift + 7 in
        if byte AND 0x80 \<noteq> 0 then read_sleb mem (buffer + 1) result num_read shift
        else if shift < 64 \<and> byte AND 0x40 \<noteq> 0 then Some (result OR - push_bit shift 1, num_read)
        else Some (result, num_read))"
  by pat_completeness auto
termination
  by (relation "measure (\<lambda>(mem, buffer, result, num_read, shift). 64 - shift)") auto

declare read_sleb.simps [simp del]

definition ReadSignedLEB128 :: "memory \<Rightarrow> u64 \<Rightarrow> (u64 \<times> u64) option" where
  "ReadSignedLEB128 mem buffer = read_sleb mem buffer 0 0 0"

section \<open>Addresses, offsets and lengths\<close>

definition call_reader :: "AddressReader \<Rightarrow> ByteReader \<Rightarrow> memory \<Rightarrow> u64 \<Rightarrow> u64 option" where
  "call_reader f r mem buffer = (case f of
       NoReader \<Rightarrow> None
     | FourBytes \<Rightarrow> Some (ReadFourBytes r mem buffer)
     | EightBytes \<Rightarrow> Some (ReadEightBytes r mem buffer))"

definition ReadOffset :: "ByteReader \<Rightarrow> memory \<Rightarrow> u64 \<Rightarrow> u64 option" where
  "ReadOffset r mem buffer = call_reader (offset_reader r) r mem buffer"

definition ReadAddress :: "ByteReader \<Rightarrow> memory \<Rightarrow> u64 \<Rightarrow> u64 option" where
  "ReadAddress r mem buffer = call_reader (address_reader r) r mem buffer"

definition SetOffsetSize :: "u64 \<Rightarrow> ByteReader \<Rightarrow> ByteReader option" where
  "SetOffsetSize sz r =
     (if sz = 4 then Some (r\<lparr>offset_size := sz, offset_reader := FourBytes\<rparr>)
      else if sz = 8 then Some (r\<lparr>offset_size := sz, offset_reader := EightBytes\<rparr>)
      else None)"

definition SetAddressSize :: "u64 \<Rightarrow> ByteReader \<Rightarrow> ByteReader option" where
  "SetAddressSize sz r =
     (if sz = 4 then Some (r\<lparr>address_size := sz, address_reader := FourBytes\<rparr>)
      else if sz = 8 then Some (r\<lparr>address_size := sz, address_reader := EightBytes\<rparr>)
      else None)"

definition ReadInitialLength :: "memory \<Rightarrow> u64 \<Rightarrow> ByteReader \<Rightarrow> (u64 \<times> u64 \<times> ByteReader) option" where
  "ReadInitialLength mem start r =
     (let initial_length = ReadFourBytes r mem start; start = start + 4 in
      if initial_length = 0xffffffff then
        Option.bind (SetOffsetSize 8 r) (\<lambda>r. Option.bind (ReadOffset r mem start) (\<lambda>len. Some (len, 12, r)))
      else Option.bind (SetOffsetSize 4 r) (\<lambda>r. Some (initial_length, 4, r)))"

section \<open>Encoded pointers\<close>

abbreviation (input) DW_EH_PE_absptr :: u8 where "DW_EH_PE_absptr \<equiv> 0x00"
abbreviation (input) DW_EH_PE_omit :: u8 where "DW_EH_PE_omit \<equiv> 0xff"
abbreviation (input) DW_EH_PE_uleb128 :: u8 where "DW_EH_PE_uleb128 \<equiv> 0x01"
abbreviation (input) DW_EH_PE_udata2 :: u8 where "DW_EH_PE_udata2 \<equiv> 0x02"
abbreviation (input) DW_EH_PE_udata4 :: u8 where "DW_EH_PE_udata4 \<equiv> 0x03"
abbreviation (input) DW_EH_PE_udata8 :: u8 where "DW_EH_PE_udata8 \<equiv> 0x04"
abbreviation (input) DW_EH_PE_sleb128 :: u8 where "DW_EH_PE_sleb128 \<equiv> 0x09"
abbreviation (input) DW_EH_PE_sdata2 :: u8 where "DW_EH_PE_sdata2 \<equiv> 0x0a"
abbreviation (input) DW_EH_PE_sdata4 :: u8 where "DW_EH_PE_sdata4 \<equiv> 0x0b"
abbreviation (input) DW_EH_PE_sdata8 :: u8 where "DW_EH_PE_sdata8 \<equiv> 0x0c"
abbreviation (input) DW_EH_PE_pcrel :: u8 where "DW_EH_PE_pcrel \<equiv> 0x10"
abbreviation (input) DW_EH_PE_textrel :: u8 where "DW_EH_PE_textrel \<equiv> 0x20"
abbreviation (input) DW_EH_PE_datarel :: u8 where "DW_EH_PE_datarel \<equiv> 0x30"
abbreviation (input) DW_EH_PE_funcrel :: u8 where "DW_EH_PE_funcrel \<equiv> 0x40"
abbreviation (input) DW_EH_PE_aligned :: u8 where "DW_EH_PE_aligned \<equiv> 0x50"
abbreviation (input) DW_EH_PE_indirect :: u8 where "DW_EH_PE_indirect \<equiv> 0x80"

definition SetCFIDataBase :: "u64 \<Rightarrow> u64 \<Rightarrow> ByteReader \<Rightarrow> ByteReader" where
  "SetCFIDataBase base buf r = r\<lparr>section_base := base, buffer_base := buf, have_section_base := True\<rparr>"

definition SetTextBase :: "u64 \<Rightarrow> ByteReader \<Rightarrow> ByteReader" where
  "SetTextBase base r = r\<lparr>text_base := base, have_text_base := True\<rparr>"

definition SetDataBase :: "u64 \<Rightarrow> ByteReader \<Rightarrow> ByteReader" where
  "SetDataBase base r = r\<lparr>data_base := base, have_data_base := True\<rparr>"

definition SetFunctionBase :: "u64 \<Rightarrow> ByteReader \<Rightarrow> ByteReader" where
  "SetFunctionBase base r = r\<lparr>function_base := base, have_function_base := True\<rparr>"

definition ClearFunctionBase :: "ByteReader \<Rightarrow> ByteReader" where
  "ClearFunctionBase r = r\<lparr>have_function_base := False\<rparr>"

definition ValidEncoding :: "u8 \<Rightarrow> bool" where
  "ValidEncoding encoding =
     (if encoding = DW_EH_PE_omit then True
      else if encoding = DW_EH_PE_aligned then True
      else if encoding AND 0x7 > DW_EH_PE_udata8 then False
      else if encoding AND 0x70 > DW_EH_PE_funcrel then False
      else True)"

definition UsableEncoding :: "u8 \<Rightarrow> ByteReader \<Rightarrow> bool" where
  "UsableEncoding encoding r =
     (let base = encoding AND 0x70 in
      if base = DW_EH_PE_absptr then True
      else if base = DW_EH_PE_pcrel then have_section_base r
      else if base = DW_EH_PE_textrel then have_text_base r
      else if base = DW_EH_PE_datarel then have_data_base r
      else if base = DW_EH_PE_funcrel then have_function_base r
      else False)"

text \<open>The value in front of its base, with its length.\<close>

definition encoded_offset :: "ByteReader \<Rightarrow> memory \<Rightarrow> u64 \<Rightarrow> u8 \<Rightarrow> (u64 \<times> u64) option" where
  "encoded_offset r mem buffer encoding =
     (let format = encoding AND 0x0f in
      if format = DW_EH_PE_absptr then Option.bind (ReadAddress r mem buffer) (\<lambda>offset. Some (offset, address_size r))
      else if format = DW_EH_PE_uleb128 then ReadUnsignedLEB128 mem buffer
      else if format = DW_EH_PE_udata2 then Some (ucast (ReadTwoBytes r mem buffer), 2)
      else if format = DW_EH_PE_udata4 then Some (ReadFourBytes r mem buffer, 4)
      else if format = DW_EH_PE_udata8 then Some (ReadEightBytes r mem buffer, 8)
      else if format = DW_EH_PE_sleb128 then ReadSignedLEB128 mem buffer
      else if format = DW_EH_PE_sdata2 then Some ((ucast (ReadTwoBytes r mem buffer) XOR 0x8000) - 0x8000, 2)
      else if format = DW_EH_PE_sdata4 then Some ((ReadFourBytes r mem buffer XOR 0x80000000) - 0x80000000, 4)
      else if format = DW_EH_PE_sdata8 then Some (ReadEightBytes r mem buffer, 8)
      else None)"

definition encoding_base :: "ByteReader \<Rightarrow> u64 \<Rightarrow> u8 \<Rightarrow> u64 option" where
  "encoding_base r buffer encoding =
     (let base = encoding AND 0x70 in
      if base = DW_EH_PE_absptr then Some 0
      else if base = DW_EH_PE_pcrel then
        (if have_section_base r then Some (section_base r + (buffer - buffer_base r)) else None)
      else if base = DW_EH_PE_textrel then (if have_text_base r then Some (text_base r) else None)
      else if base = DW_EH_PE_datarel then (if have_data_base r then Some (data_base r) else None)
      else if base = DW_EH_PE_funcrel then (if have_function_base r then Some (function_base r) else None)
      else None)"

definition aligned_pointer :: "ByteReader \<Rightarrow> memory \<Rightarrow> u64 \<Rightarrow> (u64 \<times> u64) option" where
  "aligned_pointer r mem buffer =
     (if \<not> have_section_base r then None
      else
        let skew = section_base r AND (address_size r - 1);
            offset = skew + (buffer - buffer_base r);
            aligned = (offset + address_size r - 1) AND - address_size r;
            aligned_buffer = buffer_base r + (aligned - skew) in
        Option.bind (ReadAddress r mem aligned_buffer)
          (\<lambda>pointer. Some (pointer, aligned_buffer - buffer + address_size r)))"

definition ReadEncodedPointer :: "ByteReader \<Rightarrow> memory \<Rightarrow> u64 \<Rightarrow> u8 \<Rightarrow> (u64 \<times> u64) option" where
  "ReadEncodedPointer r mem buffer encoding =
     (if encoding = DW_EH_PE_omit then None
      else if encoding = DW_EH_PE_aligned then aligned_pointer r mem buffer
      else Option.bind (encoded_offset r mem buffer encoding) (\<lambda>(offset, len).
        Option.bind (encoding_base r buffer encoding) (\<lambda>base.
          let pointer = base + offset in
          if address_size r = 4 then Some (pointer AND 0xffffffff, len)
          else if address_size r = 8 then Some (pointer, len)
          else None)))"

end
