(* ===== verification/Dwarf_CFI.thy ===== *)
theory Dwarf_CFI
  imports Dwarf_Reader Ordered_Map
begin

text \<open>
  \<open>CallFrameInfo\<close> of common/dwarf/dwarf2reader.h and dwarf2reader.cc: the interpreter of the call
  frame instructions in .debug_frame and .eh_frame sections. It executes the instructions of an
  entry and reports every change of a rule to a handler, whose operations are a record of functions
  on the handler's state. \<open>None\<close> is a run without a result: a failed assertion or an abort, in the
  reader, in the interpreter or in the handler. What goes to the reporter is collected in a list.
  A \<open>long\<close> is kept as the word with its bits; products of offsets and alignment factors wrap.
\<close>

section \<open>Rules\<close>

abbreviation (input) kCFARegister :: int where "kCFARegister \<equiv> - 1"

datatype CFI_Rule =
    UndefinedRule
  | SameValueRule
  | OffsetRule int u64
  | ValOffsetRule int u64
  | RegisterRule int
  | ExpressionRule string
  | ValExpressionRule string

text \<open>The handler: each operation returns its new state and the boolean of the code.\<close>

record 'h CFI_Handler =
  on_Entry :: "u64 \<Rightarrow> u64 \<Rightarrow> u64 \<Rightarrow> u8 \<Rightarrow> string \<Rightarrow> u32 \<Rightarrow> 'h \<Rightarrow> ('h \<times> bool) option"
  on_UndefinedRule :: "u64 \<Rightarrow> int \<Rightarrow> 'h \<Rightarrow> ('h \<times> bool) option"
  on_SameValueRule :: "u64 \<Rightarrow> int \<Rightarrow> 'h \<Rightarrow> ('h \<times> bool) option"
  on_OffsetRule :: "u64 \<Rightarrow> int \<Rightarrow> int \<Rightarrow> u64 \<Rightarrow> 'h \<Rightarrow> ('h \<times> bool) option"
  on_ValOffsetRule :: "u64 \<Rightarrow> int \<Rightarrow> int \<Rightarrow> u64 \<Rightarrow> 'h \<Rightarrow> ('h \<times> bool) option"
  on_RegisterRule :: "u64 \<Rightarrow> int \<Rightarrow> int \<Rightarrow> 'h \<Rightarrow> ('h \<times> bool) option"
  on_ExpressionRule :: "u64 \<Rightarrow> int \<Rightarrow> string \<Rightarrow> 'h \<Rightarrow> ('h \<times> bool) option"
  on_ValExpressionRule :: "u64 \<Rightarrow> int \<Rightarrow> string \<Rightarrow> 'h \<Rightarrow> ('h \<times> bool) option"
  on_End :: "'h \<Rightarrow> ('h \<times> bool) option"
  on_Architecture :: "'h \<Rightarrow> string"
  on_PersonalityRoutine :: "u64 \<Rightarrow> bool \<Rightarrow> 'h \<Rightarrow> ('h \<times> bool) option"
  on_LanguageSpecificDataArea :: "u64 \<Rightarrow> bool \<Rightarrow> 'h \<Rightarrow> ('h \<times> bool) option"
  on_SignalHandler :: "'h \<Rightarrow> ('h \<times> bool) option"

fun Rule_Handle :: "'h CFI_Handler \<Rightarrow> u64 \<Rightarrow> int \<Rightarrow> CFI_Rule \<Rightarrow> 'h \<Rightarrow> ('h \<times> bool) option" where
  "Rule_Handle H address reg UndefinedRule h = on_UndefinedRule H address reg h"
| "Rule_Handle H address reg SameValueRule h = on_SameValueRule H address reg h"
| "Rule_Handle H address reg (OffsetRule base offset) h = on_OffsetRule H address reg base offset h"
| "Rule_Handle H address reg (ValOffsetRule base offset) h = on_ValOffsetRule H address reg base offset h"
| "Rule_Handle H address reg (RegisterRule base) h = on_RegisterRule H address reg base h"
| "Rule_Handle H address reg (ExpressionRule expression) h = on_ExpressionRule H address reg expression h"
| "Rule_Handle H address reg (ValExpressionRule expression) h = on_ValExpressionRule H address reg expression h"

fun SetBaseRegister :: "int \<Rightarrow> CFI_Rule \<Rightarrow> CFI_Rule" where
  "SetBaseRegister reg (ValOffsetRule base offset) = ValOffsetRule reg offset"
| "SetBaseRegister reg rule = rule"

fun SetOffset :: "u64 \<Rightarrow> CFI_Rule \<Rightarrow> CFI_Rule" where
  "SetOffset offset (ValOffsetRule base old) = ValOffsetRule base offset"
| "SetOffset offset rule = rule"

section \<open>Rule maps\<close>

record CFI_Rules =
  cfa_of :: "CFI_Rule option"
  regs_of :: "(int, CFI_Rule) omap"

definition CFI_Rules_new :: CFI_Rules where
  "CFI_Rules_new = \<lparr>cfa_of = None, regs_of = []\<rparr>"

definition RuleMap_SetCFARule :: "CFI_Rule \<Rightarrow> CFI_Rules \<Rightarrow> CFI_Rules" where
  "RuleMap_SetCFARule rule m = m\<lparr>cfa_of := Some rule\<rparr>"

text \<open>The outer option is the assertion on the register, the inner one the null pointer.\<close>

definition RuleMap_RegisterRule :: "int \<Rightarrow> CFI_Rules \<Rightarrow> CFI_Rule option option" where
  "RuleMap_RegisterRule reg m = (if reg = kCFARegister then None else Some (om_lookup (regs_of m) reg))"

definition RuleMap_SetRegisterRule :: "int \<Rightarrow> CFI_Rule \<Rightarrow> CFI_Rules \<Rightarrow> CFI_Rules option" where
  "RuleMap_SetRegisterRule reg rule m =
     (if reg = kCFARegister then None else Some (m\<lparr>regs_of := om_assign reg rule (regs_of m)\<rparr>))"

text \<open>Go on if the first operation returned true.\<close>

definition go_on :: "('s \<times> bool) option \<Rightarrow> ('s \<Rightarrow> ('s \<times> bool) option) \<Rightarrow> ('s \<times> bool) option" where
  "go_on r f = (case r of None \<Rightarrow> None | Some (s, ok) \<Rightarrow> if ok then f s else Some (s, False))"

fun transition_registers ::
  "'h CFI_Handler \<Rightarrow> u64 \<Rightarrow> (int, CFI_Rule) omap \<Rightarrow> (int, CFI_Rule) omap \<Rightarrow> 'h \<Rightarrow> ('h \<times> bool) option" where
  "transition_registers H address [] [] h = Some (h, True)"
| "transition_registers H address [] (new # news) h = None"
| "transition_registers H address (old # olds) [] h =
     go_on (on_SameValueRule H address (fst old) h) (transition_registers H address olds [])"
| "transition_registers H address (old # olds) (new # news) h =
     (if fst old < fst new then
        go_on (on_SameValueRule H address (fst old) h) (transition_registers H address olds (new # news))
      else if fst new < fst old then None
      else if snd old \<noteq> snd new then
        go_on (Rule_Handle H address (fst new) (snd new) h) (transition_registers H address olds news)
      else transition_registers H address olds news h)"

definition transition_cfa ::
  "'h CFI_Handler \<Rightarrow> u64 \<Rightarrow> CFI_Rule option \<Rightarrow> CFI_Rule option \<Rightarrow> 'h \<Rightarrow> ('h \<times> bool) option" where
  "transition_cfa H address old new h =
     (case (old, new) of
        (Some cfa, Some new_cfa) \<Rightarrow>
          if cfa \<noteq> new_cfa then Rule_Handle H address kCFARegister new_cfa h else Some (h, True)
      | (Some cfa, None) \<Rightarrow> Some (h, True)
      | (None, Some new_cfa) \<Rightarrow> None
      | (None, None) \<Rightarrow> Some (h, True))"

definition HandleTransitionTo :: "'h CFI_Handler \<Rightarrow> u64 \<Rightarrow> CFI_Rules \<Rightarrow> CFI_Rules \<Rightarrow> 'h \<Rightarrow> ('h \<times> bool) option" where
  "HandleTransitionTo H address m new_rules h =
     go_on (transition_cfa H address (cfa_of m) (cfa_of new_rules) h)
       (transition_registers H address (regs_of m) (regs_of new_rules))"

section \<open>Entries\<close>

datatype EntryKind = kUnknown | kCIE | kFDE | kTerminator

text \<open>Pointers are addresses, 0 the null pointer; the \<open>cie\<close> pointer is passed along instead.\<close>

record CFI_Entry =
  e_offset :: u64
  e_start :: u64
  e_kind :: EntryKind
  e_fields :: u64
  e_instructions :: u64
  e_end :: u64
  e_id :: u64

record CIE = CFI_Entry +
  cie_version :: u8
  augmentation :: string
  code_alignment_factor :: u64
  data_alignment_factor :: u32
  return_address_register :: u32
  has_z_augmentation :: bool
  has_z_lsda :: bool
  has_z_personality :: bool
  has_z_signal_frame :: bool
  lsda_encoding :: u8
  personality_encoding :: u8
  personality_address :: u64
  pointer_encoding :: u8
  cie_address_size :: u8
  segment_size :: u8

record FDE = CFI_Entry +
  fde_address :: u64
  fde_size :: u64
  lsda_address :: u64

datatype CFI_Report =
    Incomplete u64 EntryKind
  | EarlyEHTerminator u64
  | CIEPointerOutOfRange u64 u64
  | BadCIEId u64 u64
  | UnexpectedAddressSize u64 u8
  | UnexpectedSegmentSize u64 u8
  | UnrecognizedVersion u64 u8
  | UnrecognizedAugmentation u64 string
  | InvalidPointerEncoding u64 u8
  | UnusablePointerEncoding u64 u8
  | RestoreInCIE u64 u64
  | BadInstruction u64 EntryKind u64
  | NoCFARule u64 EntryKind u64
  | EmptyStateStack u64 EntryKind u64
  | ClearingCFARule u64 EntryKind u64

section \<open>The state of the interpreter\<close>

record 'h CFI_State =
  st_handler :: 'h
  st_reports :: "CFI_Report list"
  st_address :: u64
  st_cursor :: u64
  st_rules :: CFI_Rules
  st_cie_rules :: CFI_Rules
  st_saved :: "CFI_Rules list"

text \<open>
  What does not change while the instructions of an entry are executed. \<open>ev_uninit\<close> is what an
  operand holds before it is parsed.
\<close>

record 'h CFI_Env =
  ev_mem :: memory
  ev_reader :: ByteReader
  ev_handler :: "'h CFI_Handler"
  ev_entry :: CFI_Entry
  ev_cie :: CIE
  ev_uninit :: u64

definition CFI_State_new :: "u64 \<Rightarrow> 'h \<Rightarrow> CFI_Report list \<Rightarrow> 'h CFI_State" where
  "CFI_State_new address h reports = \<lparr>st_handler = h, st_reports = reports, st_address = address, st_cursor = 0,
     st_rules = CFI_Rules_new, st_cie_rules = CFI_Rules_new, st_saved = []\<rparr>"

definition CursorOffset :: "'h CFI_Env \<Rightarrow> 'h CFI_State \<Rightarrow> u64" where
  "CursorOffset env s = e_offset (ev_entry env) + (st_cursor s - e_start (ev_entry env))"

definition st_report :: "CFI_Report \<Rightarrow> 'h CFI_State \<Rightarrow> ('h CFI_State \<times> bool) option" where
  "st_report r s = Some (s\<lparr>st_reports := st_reports s @ [r]\<rparr>, False)"

definition report_here :: "(u64 \<Rightarrow> EntryKind \<Rightarrow> u64 \<Rightarrow> CFI_Report) \<Rightarrow> 'h CFI_Env \<Rightarrow> 'h CFI_State \<Rightarrow> ('h CFI_State \<times> bool) option" where
  "report_here f env s = st_report (f (e_offset (ev_entry env)) (e_kind (ev_entry env)) (CursorOffset env s)) s"

definition State_ReportIncomplete :: "'h CFI_Env \<Rightarrow> 'h CFI_State \<Rightarrow> ('h CFI_State \<times> bool) option" where
  "State_ReportIncomplete env s = st_report (Incomplete (e_offset (ev_entry env)) (e_kind (ev_entry env))) s"

text \<open>A call of the handler from the interpreter.\<close>

definition call_handler :: "('h \<Rightarrow> ('h \<times> bool) option) \<Rightarrow> 'h CFI_State \<Rightarrow> ('h CFI_State \<times> bool) option" where
  "call_handler f s = map_option (\<lambda>(h, ok). (s\<lparr>st_handler := h\<rparr>, ok)) (f (st_handler s))"

section \<open>Operands\<close>

record Operands =
  register_number :: u32
  op_offset :: u64
  signed_offset :: u64
  op_expression :: string

definition Operands_new :: "u64 \<Rightarrow> Operands" where
  "Operands_new junk = \<lparr>register_number = ucast junk, op_offset = junk, signed_offset = junk, op_expression = []\<rparr>"

text \<open>One operand: \<open>None\<close> inside is an operand that goes beyond the end of the entry.\<close>

definition parse_operand :: "'h CFI_Env \<Rightarrow> char \<Rightarrow> u64 \<Rightarrow> Operands \<Rightarrow> (u64 \<times> Operands) option option" where
  "parse_operand env c cursor ops =
     (let mem = ev_mem env; r = ev_reader env; bytes_left = e_end (ev_entry env) - cursor in
      if c = CHR ''r'' then
        map_option (\<lambda>(v, len). if len > bytes_left then None else Some (cursor + len, ops\<lparr>register_number := ucast v\<rparr>))
          (ReadUnsignedLEB128 mem cursor)
      else if c = CHR ''o'' then
        map_option (\<lambda>(v, len). if len > bytes_left then None else Some (cursor + len, ops\<lparr>op_offset := v\<rparr>))
          (ReadUnsignedLEB128 mem cursor)
      else if c = CHR ''s'' then
        map_option (\<lambda>(v, len). if len > bytes_left then None else Some (cursor + len, ops\<lparr>signed_offset := v\<rparr>))
          (ReadSignedLEB128 mem cursor)
      else if c = CHR ''a'' then
        map_option (\<lambda>(v, len). if len > bytes_left then None else Some (cursor + len, ops\<lparr>op_offset := v\<rparr>))
          (ReadEncodedPointer r mem cursor (pointer_encoding (ev_cie env)))
      else if c = CHR ''1'' then
        Some (if 1 > bytes_left then None else Some (cursor + 1, ops\<lparr>op_offset := ucast (mem cursor)\<rparr>))
      else if c = CHR ''2'' then
        Some (if 2 > bytes_left then None else Some (cursor + 2, ops\<lparr>op_offset := ucast (ReadTwoBytes r mem cursor)\<rparr>))
      else if c = CHR ''4'' then
        Some (if 4 > bytes_left then None else Some (cursor + 4, ops\<lparr>op_offset := ReadFourBytes r mem cursor\<rparr>))
      else if c = CHR ''8'' then
        Some (if 8 > bytes_left then None else Some (cursor + 8, ops\<lparr>op_offset := ReadEightBytes r mem cursor\<rparr>))
      else if c = CHR ''e'' then
        map_option (\<lambda>(expression_length, len).
            if len > bytes_left \<or> expression_length > bytes_left - len then None
            else Some (cursor + len + expression_length,
              ops\<lparr>op_expression := string_of (rd_bytes mem (cursor + len) (unat expression_length))\<rparr>))
          (ReadUnsignedLEB128 mem cursor)
      else None)"

fun ParseOperands :: "'h CFI_Env \<Rightarrow> string \<Rightarrow> 'h CFI_State \<Rightarrow> Operands \<Rightarrow> (('h CFI_State \<times> Operands) \<times> bool) option" where
  "ParseOperands env [] s ops = Some ((s, ops), True)"
| "ParseOperands env (operand # format) s ops =
     (case parse_operand env operand (st_cursor s) ops of
        None \<Rightarrow> None
      | Some None \<Rightarrow> map_option (\<lambda>(s, ok). ((s, ops), ok)) (State_ReportIncomplete env s)
      | Some (Some (cursor, ops)) \<Rightarrow> ParseOperands env format (s\<lparr>st_cursor := cursor\<rparr>) ops)"

definition with_operands ::
  "'h CFI_Env \<Rightarrow> string \<Rightarrow> 'h CFI_State \<Rightarrow> (Operands \<Rightarrow> 'h CFI_State \<Rightarrow> ('h CFI_State \<times> bool) option) \<Rightarrow> ('h CFI_State \<times> bool) option" where
  "with_operands env format s f =
     (case ParseOperands env format s (Operands_new (ev_uninit env)) of
        None \<Rightarrow> None
      | Some ((s, ops), ok) \<Rightarrow> if ok then f ops s else Some (s, False))"

section \<open>Instructions\<close>

abbreviation (input) DW_CFA_advance_loc :: u8 where "DW_CFA_advance_loc \<equiv> 0x40"
abbreviation (input) DW_CFA_offset :: u8 where "DW_CFA_offset \<equiv> 0x80"
abbreviation (input) DW_CFA_restore :: u8 where "DW_CFA_restore \<equiv> 0xc0"
abbreviation (input) DW_CFA_nop :: u8 where "DW_CFA_nop \<equiv> 0x00"
abbreviation (input) DW_CFA_set_loc :: u8 where "DW_CFA_set_loc \<equiv> 0x01"
abbreviation (input) DW_CFA_advance_loc1 :: u8 where "DW_CFA_advance_loc1 \<equiv> 0x02"
abbreviation (input) DW_CFA_advance_loc2 :: u8 where "DW_CFA_advance_loc2 \<equiv> 0x03"
abbreviation (input) DW_CFA_advance_loc4 :: u8 where "DW_CFA_advance_loc4 \<equiv> 0x04"
abbreviation (input) DW_CFA_offset_extended :: u8 where "DW_CFA_offset_extended \<equiv> 0x05"
abbreviation (input) DW_CFA_restore_extended :: u8 where "DW_CFA_restore_extended \<equiv> 0x06"
abbreviation (input) DW_CFA_undefined :: u8 where "DW_CFA_undefined \<equiv> 0x07"
abbreviation (input) DW_CFA_same_value :: u8 where "DW_CFA_same_value \<equiv> 0x08"
abbreviation (input) DW_CFA_register :: u8 where "DW_CFA_register \<equiv> 0x09"
abbreviation (input) DW_CFA_remember_state :: u8 where "DW_CFA_remember_state \<equiv> 0x0a"
abbreviation (input) DW_CFA_restore_state :: u8 where "DW_CFA_restore_state \<equiv> 0x0b"
abbreviation (input) DW_CFA_def_cfa :: u8 where "DW_CFA_def_cfa \<equiv> 0x0c"
abbreviation (input) DW_CFA_def_cfa_register :: u8 where "DW_CFA_def_cfa_register \<equiv> 0x0d"
abbreviation (input) DW_CFA_def_cfa_offset :: u8 where "DW_CFA_def_cfa_offset \<equiv> 0x0e"
abbreviation (input) DW_CFA_def_cfa_expression :: u8 where "DW_CFA_def_cfa_expression \<equiv> 0x0f"
abbreviation (input) DW_CFA_expression :: u8 where "DW_CFA_expression \<equiv> 0x10"
abbreviation (input) DW_CFA_offset_extended_sf :: u8 where "DW_CFA_offset_extended_sf \<equiv> 0x11"
abbreviation (input) DW_CFA_def_cfa_sf :: u8 where "DW_CFA_def_cfa_sf \<equiv> 0x12"
abbreviation (input) DW_CFA_def_cfa_offset_sf :: u8 where "DW_CFA_def_cfa_offset_sf \<equiv> 0x13"
abbreviation (input) DW_CFA_val_offset :: u8 where "DW_CFA_val_offset \<equiv> 0x14"
abbreviation (input) DW_CFA_val_offset_sf :: u8 where "DW_CFA_val_offset_sf \<equiv> 0x15"
abbreviation (input) DW_CFA_val_expression :: u8 where "DW_CFA_val_expression \<equiv> 0x16"
abbreviation (input) DW_CFA_MIPS_advance_loc8 :: u8 where "DW_CFA_MIPS_advance_loc8 \<equiv> 0x1d"
abbreviation (input) DW_CFA_GNU_window_save :: u8 where "DW_CFA_GNU_window_save \<equiv> 0x2d"
abbreviation (input) DW_CFA_GNU_args_size :: u8 where "DW_CFA_GNU_args_size \<equiv> 0x2e"
abbreviation (input) DW_CFA_GNU_negative_offset_extended :: u8 where "DW_CFA_GNU_negative_offset_extended \<equiv> 0x2f"

definition DoDefCFA :: "'h CFI_Env \<Rightarrow> u32 \<Rightarrow> u64 \<Rightarrow> 'h CFI_State \<Rightarrow> ('h CFI_State \<times> bool) option" where
  "DoDefCFA env base_register offset s =
     (let rule = ValOffsetRule (sint base_register) offset in
      call_handler (Rule_Handle (ev_handler env) (st_address s) kCFARegister rule)
        (s\<lparr>st_rules := RuleMap_SetCFARule rule (st_rules s)\<rparr>))"

definition DoDefCFAOffset :: "'h CFI_Env \<Rightarrow> u64 \<Rightarrow> 'h CFI_State \<Rightarrow> ('h CFI_State \<times> bool) option" where
  "DoDefCFAOffset env offset s =
     (case cfa_of (st_rules s) of
        None \<Rightarrow> report_here NoCFARule env s
      | Some cfa_rule \<Rightarrow>
          (let cfa_rule = SetOffset offset cfa_rule in
           call_handler (Rule_Handle (ev_handler env) (st_address s) kCFARegister cfa_rule)
             (s\<lparr>st_rules := RuleMap_SetCFARule cfa_rule (st_rules s)\<rparr>)))"

definition DoRule :: "'h CFI_Env \<Rightarrow> u32 \<Rightarrow> CFI_Rule \<Rightarrow> 'h CFI_State \<Rightarrow> ('h CFI_State \<times> bool) option" where
  "DoRule env reg rule s =
     (case RuleMap_SetRegisterRule (sint reg) rule (st_rules s) of
        None \<Rightarrow> None
      | Some rules \<Rightarrow>
          call_handler (Rule_Handle (ev_handler env) (st_address s) (sint reg) rule) (s\<lparr>st_rules := rules\<rparr>))"

definition DoOffset :: "'h CFI_Env \<Rightarrow> u32 \<Rightarrow> u64 \<Rightarrow> 'h CFI_State \<Rightarrow> ('h CFI_State \<times> bool) option" where
  "DoOffset env reg offset s =
     (if cfa_of (st_rules s) = None then report_here NoCFARule env s
      else DoRule env reg (OffsetRule kCFARegister offset) s)"

definition DoValOffset :: "'h CFI_Env \<Rightarrow> u32 \<Rightarrow> u64 \<Rightarrow> 'h CFI_State \<Rightarrow> ('h CFI_State \<times> bool) option" where
  "DoValOffset env reg offset s =
     (if cfa_of (st_rules s) = None then report_here NoCFARule env s
      else DoRule env reg (ValOffsetRule kCFARegister offset) s)"

definition DoRestore :: "'h CFI_Env \<Rightarrow> u32 \<Rightarrow> 'h CFI_State \<Rightarrow> ('h CFI_State \<times> bool) option" where
  "DoRestore env reg s =
     (if e_kind (ev_entry env) = kCIE then st_report (RestoreInCIE (e_offset (ev_entry env)) (CursorOffset env s)) s
      else case RuleMap_RegisterRule (sint reg) (st_cie_rules s) of
          None \<Rightarrow> None
        | Some None \<Rightarrow> DoRule env reg SameValueRule s
        | Some (Some rule) \<Rightarrow> DoRule env reg rule s)"

text \<open>Offsets scaled by the alignment factor, which is an \<open>int\<close>.\<close>

definition scaled :: "'h CFI_Env \<Rightarrow> u64 \<Rightarrow> u64" where
  "scaled env offset = offset * scast (data_alignment_factor (ev_cie env))"

definition advance :: "'h CFI_Env \<Rightarrow> u64 \<Rightarrow> 'h CFI_State \<Rightarrow> ('h CFI_State \<times> bool) option" where
  "advance env offset s = Some (s\<lparr>st_address := st_address s + offset * code_alignment_factor (ev_cie env)\<rparr>, True)"

definition do_primary :: "'h CFI_Env \<Rightarrow> u8 \<Rightarrow> 'h CFI_State \<Rightarrow> ('h CFI_State \<times> bool) option" where
  "do_primary env opcode s =
     (if opcode AND 0xc0 = DW_CFA_advance_loc then advance env (ucast (opcode AND 0x3f)) s
      else if opcode AND 0xc0 = DW_CFA_offset then
        with_operands env ''o'' s (\<lambda>ops. DoOffset env (ucast (opcode AND 0x3f)) (scaled env (op_offset ops)))
      else if opcode AND 0xc0 = DW_CFA_restore then DoRestore env (ucast (opcode AND 0x3f)) s
      else None)"

definition do_register_window :: "'h CFI_Env \<Rightarrow> (u32 \<times> CFI_Rule) list" where
  "do_register_window env =
     map (\<lambda>i. (of_nat i, RegisterRule (int i + 16))) [8..<16] @
     map (\<lambda>i. (of_nat i, OffsetRule kCFARegister (of_nat (i - 16) * address_size (ev_reader env)))) [16..<32]"

primrec do_rules :: "'h CFI_Env \<Rightarrow> (u32 \<times> CFI_Rule) list \<Rightarrow> 'h CFI_State \<Rightarrow> ('h CFI_State \<times> bool) option" where
  "do_rules env [] s = Some (s, True)"
| "do_rules env (r # rs) s = go_on (DoRule env (fst r) (snd r) s) (do_rules env rs)"

definition do_restore_state :: "'h CFI_Env \<Rightarrow> 'h CFI_State \<Rightarrow> ('h CFI_State \<times> bool) option" where
  "do_restore_state env s =
     (case st_saved s of
        [] \<Rightarrow> report_here EmptyStateStack env s
      | new_rules # saved \<Rightarrow>
          if cfa_of (st_rules s) \<noteq> None \<and> cfa_of new_rules = None then report_here ClearingCFARule env s
          else map_option (\<lambda>(s, ok). (s\<lparr>st_rules := new_rules, st_saved := saved\<rparr>, True))
            (call_handler (HandleTransitionTo (ev_handler env) (st_address s) (st_rules s) new_rules) s))"

text \<open>The second switch of \<open>DoInstruction\<close>, in four parts, each going on with the next.\<close>

definition do_state :: "'h CFI_Env \<Rightarrow> u8 \<Rightarrow> 'h CFI_State \<Rightarrow> ('h CFI_State \<times> bool) option" where
  "do_state env opcode s =
     (if opcode = DW_CFA_restore_extended then
        with_operands env ''r'' s (\<lambda>ops. DoRestore env (register_number ops))
      else if opcode = DW_CFA_remember_state then Some (s\<lparr>st_saved := st_rules s # st_saved s\<rparr>, True)
      else if opcode = DW_CFA_restore_state then do_restore_state env s
      else if opcode = DW_CFA_nop then Some (s, True)
      else if opcode = DW_CFA_GNU_window_save then
        (let architecture = on_Architecture (ev_handler env) (st_handler s) in
         if architecture = ''arm64'' then Some (s, True)
         else if architecture = ''sparc'' \<or> architecture = ''sparcv9'' then do_rules env (do_register_window env) s
         else Some (s, True))
      else if opcode = DW_CFA_GNU_args_size then with_operands env ''o'' s (\<lambda>ops s. Some (s, True))
      else report_here BadInstruction env s)"

definition do_register :: "'h CFI_Env \<Rightarrow> u8 \<Rightarrow> 'h CFI_State \<Rightarrow> ('h CFI_State \<times> bool) option" where
  "do_register env opcode s =
     (if opcode = DW_CFA_undefined then with_operands env ''r'' s (\<lambda>ops. DoRule env (register_number ops) UndefinedRule)
      else if opcode = DW_CFA_same_value then
        with_operands env ''r'' s (\<lambda>ops. DoRule env (register_number ops) SameValueRule)
      else if opcode = DW_CFA_offset_extended then
        with_operands env ''ro'' s (\<lambda>ops. DoOffset env (register_number ops) (scaled env (op_offset ops)))
      else if opcode = DW_CFA_offset_extended_sf then
        with_operands env ''rs'' s (\<lambda>ops. DoOffset env (register_number ops) (scaled env (signed_offset ops)))
      else if opcode = DW_CFA_GNU_negative_offset_extended then
        with_operands env ''ro'' s (\<lambda>ops. DoOffset env (register_number ops) (scaled env (- op_offset ops)))
      else if opcode = DW_CFA_val_offset then
        with_operands env ''ro'' s (\<lambda>ops. DoValOffset env (register_number ops) (scaled env (op_offset ops)))
      else if opcode = DW_CFA_val_offset_sf then
        with_operands env ''rs'' s (\<lambda>ops. DoValOffset env (register_number ops) (scaled env (signed_offset ops)))
      else if opcode = DW_CFA_register then
        with_operands env ''ro'' s
          (\<lambda>ops. DoRule env (register_number ops) (RegisterRule (sint (ucast (op_offset ops) :: u32))))
      else if opcode = DW_CFA_expression then
        with_operands env ''re'' s (\<lambda>ops. DoRule env (register_number ops) (ExpressionRule (op_expression ops)))
      else if opcode = DW_CFA_val_expression then
        with_operands env ''re'' s (\<lambda>ops. DoRule env (register_number ops) (ValExpressionRule (op_expression ops)))
      else do_state env opcode s)"

definition do_def_cfa_register :: "'h CFI_Env \<Rightarrow> Operands \<Rightarrow> 'h CFI_State \<Rightarrow> ('h CFI_State \<times> bool) option" where
  "do_def_cfa_register env ops s =
     (case cfa_of (st_rules s) of
        None \<Rightarrow> (case DoDefCFA env (register_number ops) (op_offset ops) s of
            None \<Rightarrow> None
          | Some (s, ok) \<Rightarrow> if ok then Some (s, True) else report_here NoCFARule env s)
      | Some cfa_rule \<Rightarrow>
          (let cfa_rule = SetBaseRegister (sint (register_number ops)) cfa_rule in
           call_handler (Rule_Handle (ev_handler env) (st_address s) kCFARegister cfa_rule)
             (s\<lparr>st_rules := RuleMap_SetCFARule cfa_rule (st_rules s)\<rparr>)))"

definition do_cfa :: "'h CFI_Env \<Rightarrow> u8 \<Rightarrow> 'h CFI_State \<Rightarrow> ('h CFI_State \<times> bool) option" where
  "do_cfa env opcode s =
     (if opcode = DW_CFA_def_cfa then with_operands env ''ro'' s (\<lambda>ops. DoDefCFA env (register_number ops) (op_offset ops))
      else if opcode = DW_CFA_def_cfa_sf then
        with_operands env ''rs'' s (\<lambda>ops. DoDefCFA env (register_number ops) (scaled env (signed_offset ops)))
      else if opcode = DW_CFA_def_cfa_register then with_operands env ''r'' s (do_def_cfa_register env)
      else if opcode = DW_CFA_def_cfa_offset then with_operands env ''o'' s (\<lambda>ops. DoDefCFAOffset env (op_offset ops))
      else if opcode = DW_CFA_def_cfa_offset_sf then
        with_operands env ''s'' s (\<lambda>ops. DoDefCFAOffset env (scaled env (signed_offset ops)))
      else if opcode = DW_CFA_def_cfa_expression then
        with_operands env ''e'' s (\<lambda>ops s.
          let rule = ValExpressionRule (op_expression ops) in
          call_handler (Rule_Handle (ev_handler env) (st_address s) kCFARegister rule)
            (s\<lparr>st_rules := RuleMap_SetCFARule rule (st_rules s)\<rparr>))
      else do_register env opcode s)"

definition do_location :: "'h CFI_Env \<Rightarrow> u8 \<Rightarrow> 'h CFI_State \<Rightarrow> ('h CFI_State \<times> bool) option" where
  "do_location env opcode s =
     (if opcode = DW_CFA_set_loc then
        with_operands env ''a'' s (\<lambda>ops s. Some (s\<lparr>st_address := op_offset ops\<rparr>, True))
      else if opcode = DW_CFA_advance_loc1 then with_operands env ''1'' s (\<lambda>ops. advance env (op_offset ops))
      else if opcode = DW_CFA_advance_loc2 then with_operands env ''2'' s (\<lambda>ops. advance env (op_offset ops))
      else if opcode = DW_CFA_advance_loc4 then with_operands env ''4'' s (\<lambda>ops. advance env (op_offset ops))
      else if opcode = DW_CFA_MIPS_advance_loc8 then with_operands env ''8'' s (\<lambda>ops. advance env (op_offset ops))
      else do_cfa env opcode s)"

definition DoInstruction :: "'h CFI_Env \<Rightarrow> 'h CFI_State \<Rightarrow> ('h CFI_State \<times> bool) option" where
  "DoInstruction env s =
     (if e_kind (ev_entry env) = kUnknown then None
      else if \<not> st_cursor s < e_end (ev_entry env) then None
      else
        let opcode = ev_mem env (st_cursor s); s = s\<lparr>st_cursor := st_cursor s + 1\<rparr> in
        if opcode AND 0xc0 \<noteq> 0 then do_primary env opcode s else do_location env opcode s)"

section \<open>What one instruction can do\<close>

text \<open>
  The effects of an instruction behind the parsing of its operands, as a relation between the state
  in front of it, with the cursor behind it, and the state after it, with the boolean result.
\<close>

inductive cfi_step :: "'h CFI_Env \<Rightarrow> 'h CFI_State \<Rightarrow> 'h CFI_State \<Rightarrow> bool \<Rightarrow> bool" for env where
  step_skip: "cfi_step env s s True"
| step_report: "cfi_step env s (s\<lparr>st_reports := reports\<rparr>) False"
| step_location: "cfi_step env s (s\<lparr>st_address := address\<rparr>) True"
| step_rule: "DoRule env reg rule s = Some (s', ok) \<Longrightarrow> cfi_step env s s' ok"
| step_cfa: "call_handler (Rule_Handle (ev_handler env) (st_address s) kCFARegister rule)
      (s\<lparr>st_rules := RuleMap_SetCFARule rule (st_rules s)\<rparr>) = Some (s', ok) \<Longrightarrow> cfi_step env s s' ok"
| step_remember: "cfi_step env s (s\<lparr>st_saved := st_rules s # st_saved s\<rparr>) True"
| step_restore: "st_saved s = new_rules # saved \<Longrightarrow> (cfa_of new_rules = None \<Longrightarrow> cfa_of (st_rules s) = None) \<Longrightarrow>
      call_handler (HandleTransitionTo (ev_handler env) (st_address s) (st_rules s) new_rules) s = Some (s', ok) \<Longrightarrow>
      cfi_step env s (s'\<lparr>st_rules := new_rules, st_saved := saved\<rparr>) True"
| step_seq: "DoRule env reg rule s = Some (s1, True) \<Longrightarrow> cfi_step env s1 s2 ok \<Longrightarrow> st_address s2 = st_address s \<Longrightarrow>
      cfi_step env s s2 ok"
| step_fail: "cfi_step env s s1 False \<Longrightarrow> cfi_step env s (s1\<lparr>st_reports := reports\<rparr>) False"

lemma report_here_step: "report_here f env s = Some (s', ok) \<Longrightarrow> cfi_step env s s' ok"
  by (auto simp: report_here_def st_report_def intro: step_report)

lemma DoDefCFA_step: "DoDefCFA env r v s = Some (s', ok) \<Longrightarrow> cfi_step env s s' ok"
  unfolding DoDefCFA_def Let_def by (rule step_cfa)

lemma DoDefCFAOffset_step: "DoDefCFAOffset env v s = Some (s', ok) \<Longrightarrow> cfi_step env s s' ok"
  by (auto simp: DoDefCFAOffset_def Let_def intro: step_cfa report_here_step split: option.splits)

lemma DoOffset_step: "DoOffset env r v s = Some (s', ok) \<Longrightarrow> cfi_step env s s' ok"
  by (auto simp: DoOffset_def intro: step_rule report_here_step split: if_splits)

lemma DoValOffset_step: "DoValOffset env r v s = Some (s', ok) \<Longrightarrow> cfi_step env s s' ok"
  by (auto simp: DoValOffset_def intro: step_rule report_here_step split: if_splits)

lemma DoRestore_step: "DoRestore env r s = Some (s', ok) \<Longrightarrow> cfi_step env s s' ok"
  by (auto simp: DoRestore_def st_report_def intro: step_rule step_report split: if_splits option.splits)

lemma advance_step: "advance env v s = Some (s', ok) \<Longrightarrow> cfi_step env s s' ok"
  by (auto simp: advance_def intro: step_location)

lemma call_handler_frame: "call_handler f s = Some (s', ok) \<Longrightarrow> s' = s\<lparr>st_handler := st_handler s'\<rparr>"
  by (auto simp: call_handler_def)

lemma DoRule_frame:
  "DoRule env reg rule s = Some (s', ok) \<Longrightarrow> s' = s\<lparr>st_handler := st_handler s', st_rules := st_rules s'\<rparr>"
  by (auto simp: DoRule_def call_handler_def split: option.splits)

lemma DoRule_address: "DoRule env reg rule s = Some (s', ok) \<Longrightarrow> st_address s' = st_address s"
  by (auto simp: DoRule_def call_handler_def split: option.splits)

lemma do_rules_address: "do_rules env rs s = Some (s', ok) \<Longrightarrow> st_address s' = st_address s"
  by (induction rs arbitrary: s) (auto simp: go_on_def split: option.splits if_splits dest: DoRule_address)

lemma do_rules_step: "do_rules env rs s = Some (s', ok) \<Longrightarrow> cfi_step env s s' ok"
proof (induction rs arbitrary: s)
  case (Cons r rs)
  then obtain t ok' where t: "DoRule env (fst r) (snd r) s = Some (t, ok')"
    by (auto simp: go_on_def split: option.splits)
  show ?case
  proof (cases ok')
    case True
    then have rest: "do_rules env rs t = Some (s', ok)"
      using Cons.prems t by (simp add: go_on_def)
    have "st_address s' = st_address s"
      using do_rules_address [OF rest] DoRule_address [OF t] by simp
    then show ?thesis
      using step_seq [OF _ Cons.IH [OF rest]] t True by auto
  qed (use Cons.prems t in \<open>auto simp: go_on_def intro: step_rule\<close>)
qed (auto intro: step_skip)

lemma do_restore_state_step: "do_restore_state env s = Some (s', ok) \<Longrightarrow> cfi_step env s s' ok"
proof (cases "st_saved s")
  case (Cons new_rules saved)
  assume r: "do_restore_state env s = Some (s', ok)"
  show ?thesis
  proof (cases "cfa_of (st_rules s) \<noteq> None \<and> cfa_of new_rules = None")
    case False
    then obtain t ok' where "call_handler (HandleTransitionTo (ev_handler env) (st_address s) (st_rules s) new_rules) s = Some (t, ok')"
        "s' = t\<lparr>st_rules := new_rules, st_saved := saved\<rparr>" "ok"
      using r Cons by (auto simp: do_restore_state_def)
    with False show ?thesis
      by (auto intro: step_restore [OF Cons])
  qed (use r Cons in \<open>auto simp: do_restore_state_def intro: report_here_step\<close>)
qed (auto simp: do_restore_state_def intro: report_here_step)

lemma do_def_cfa_register_step: "do_def_cfa_register env ops s = Some (s', ok) \<Longrightarrow> cfi_step env s s' ok"
  by (auto simp: do_def_cfa_register_def report_here_def st_report_def Let_def
      intro: step_cfa step_fail DoDefCFA_step split: option.splits prod.splits if_splits)

text \<open>Parsing operands moves the cursor forward, not beyond the end of the entry.\<close>

lemma cursor_add:
  assumes "(c::u64) \<le> e" "len \<le> e - c"
  shows "c \<le> c + len" "c + len \<le> e"
  using assms by uint_arith+

lemma parse_operand_cursor:
  assumes "parse_operand env c cursor ops = Some (Some (cursor', ops'))" "cursor \<le> e_end (ev_entry env)"
  shows "cursor \<le> cursor' \<and> cursor' \<le> e_end (ev_entry env)"
proof -
  let ?left = "e_end (ev_entry env) - cursor"
  consider len where "cursor' = cursor + len" "len \<le> ?left"
    | len el where "cursor' = cursor + len + el" "len \<le> ?left" "el \<le> ?left - len"
    | "cursor' = cursor + 1" "e_end (ev_entry env) \<noteq> cursor"
    using assms(1) by (auto simp: parse_operand_def Let_def not_less split: if_splits)
  then show ?thesis
  proof cases
    case 1
    then show ?thesis
      using cursor_add [OF assms(2)] by blast
  next
    case 2
    then have "len \<le> ?left" "cursor \<le> cursor + len" "cursor + len \<le> e_end (ev_entry env)"
      using cursor_add [OF assms(2)] by blast+
    moreover from this have "cursor + len \<le> cursor'" "cursor' \<le> e_end (ev_entry env)"
      unfolding 2(1) using cursor_add [of "cursor + len" "e_end (ev_entry env)" el] 2(3) by (simp_all add: diff_diff_eq)
    ultimately show ?thesis
      by (meson order_trans)
  next
    case 3
    then have "cursor < e_end (ev_entry env)"
      using assms(2) by simp
    then show ?thesis
      unfolding 3(1) by uint_arith
  qed
qed

lemma ParseOperands_cursor:
  assumes "ParseOperands env format s ops = Some ((s', ops'), ok)" "st_cursor s \<le> e_end (ev_entry env)"
  shows "\<exists>c reports. st_cursor s \<le> c \<and> c \<le> e_end (ev_entry env) \<and>
    s' = (if ok then s\<lparr>st_cursor := c\<rparr> else s\<lparr>st_cursor := c, st_reports := reports\<rparr>)"
  using assms
proof (induction env format s ops rule: ParseOperands.induct)
  case (1 env s ops)
  then have "ok \<and> s' = s\<lparr>st_cursor := st_cursor s\<rparr>"
    by simp
  with 1 show ?case
    by (metis order_refl)
next
  case (2 env operand format s ops)
  show ?case
  proof (cases "parse_operand env operand (st_cursor s) ops")
    case (Some r)
    show ?thesis
    proof (cases r)
      case None
      then have "\<not> ok \<and> s' = s\<lparr>st_cursor := st_cursor s, st_reports := st_reports s'\<rparr>"
        using 2 Some by (auto simp: State_ReportIncomplete_def st_report_def)
      with 2 show ?thesis
        by (metis order_refl)
    next
      case (Some cops)
      then obtain cursor ops1 where p: "parse_operand env operand (st_cursor s) ops = Some (Some (cursor, ops1))"
        using \<open>parse_operand env operand (st_cursor s) ops = Some r\<close> by (cases cops) auto
      note le = parse_operand_cursor [OF p 2(3)]
      have "ParseOperands env format (s\<lparr>st_cursor := cursor\<rparr>) ops1 = Some ((s', ops'), ok)"
        using 2(2) p by simp
      from 2(1) [OF _ refl refl this] p le
      obtain c reports where c: "cursor \<le> c" "c \<le> e_end (ev_entry env)"
          "s' = (if ok then s\<lparr>st_cursor := cursor, st_cursor := c\<rparr> else s\<lparr>st_cursor := cursor, st_cursor := c, st_reports := reports\<rparr>)"
        by auto
      have "s' = (if ok then s\<lparr>st_cursor := c\<rparr> else s\<lparr>st_cursor := c, st_reports := reports\<rparr>)"
        using c(3) by (cases ok) simp_all
      with le c(1,2) show ?thesis
        by (intro exI [of _ c] exI [of _ reports]) auto
    qed
  qed (use 2 in simp)
qed

lemma with_operands_step:
  assumes "with_operands env format s f = Some (s', ok)" "st_cursor s \<le> e_end (ev_entry env)"
    "\<And>ops t t' ok'. f ops t = Some (t', ok') \<Longrightarrow> cfi_step env t t' ok'"
  shows "\<exists>c. st_cursor s \<le> c \<and> c \<le> e_end (ev_entry env) \<and> cfi_step env (s\<lparr>st_cursor := c\<rparr>) s' ok"
proof -
  obtain t ops ok' where p: "ParseOperands env format s (Operands_new (ev_uninit env)) = Some ((t, ops), ok')"
    using assms(1) by (auto simp: with_operands_def split: option.splits)
  from ParseOperands_cursor [OF this assms(2)] obtain c reports where c: "st_cursor s \<le> c" "c \<le> e_end (ev_entry env)"
      "t = (if ok' then s\<lparr>st_cursor := c\<rparr> else s\<lparr>st_cursor := c, st_reports := reports\<rparr>)"
    by blast
  have "cfi_step env (s\<lparr>st_cursor := c\<rparr>) s' ok"
  proof (cases ok')
    case True
    then show ?thesis
      using assms(1,3) p c(3) by (auto simp: with_operands_def)
  next
    case False
    then have "s' = (s\<lparr>st_cursor := c\<rparr>)\<lparr>st_reports := reports\<rparr>" "\<not> ok"
      using assms(1) p c(3) by (auto simp: with_operands_def)
    then show ?thesis
      using step_report by metis
  qed
  with c show ?thesis
    by blast
qed

lemma same_cursor: "cfi_step env s s' ok \<Longrightarrow> st_cursor s \<le> e \<Longrightarrow> \<exists>c. st_cursor s \<le> c \<and> c \<le> e \<and> cfi_step env (s\<lparr>st_cursor := c\<rparr>) s' ok"
  by (rule exI [of _ "st_cursor s"]) simp

lemma if_eqE: "(if c then x else y) = z \<Longrightarrow> (c \<Longrightarrow> x = z \<Longrightarrow> P) \<Longrightarrow> (\<not> c \<Longrightarrow> y = z \<Longrightarrow> P) \<Longrightarrow> P"
  by (cases c) simp_all

lemma Some_step: "Some (s, True) = Some (s', ok) \<Longrightarrow> cfi_step env s s' ok"
  by (auto intro: step_skip)

lemma remember_step: "Some (s\<lparr>st_saved := st_rules s # st_saved s\<rparr>, True) = Some (s', ok) \<Longrightarrow> cfi_step env s s' ok"
  by (auto intro: step_remember)

lemma location_step: "Some (s\<lparr>st_address := a\<rparr>, True) = Some (s', ok) \<Longrightarrow> cfi_step env s s' ok"
  by (auto intro: step_location)

lemmas branch_steps = step_rule DoDefCFA_step DoDefCFAOffset_step DoOffset_step DoValOffset_step DoRestore_step
  advance_step do_rules_step do_restore_state_step do_def_cfa_register_step report_here_step Some_step remember_step
  location_step step_cfa

lemma do_state_step:
  assumes "do_state env opcode s = Some (s', ok)" "st_cursor s \<le> e_end (ev_entry env)"
  shows "\<exists>c. st_cursor s \<le> c \<and> c \<le> e_end (ev_entry env) \<and> cfi_step env (s\<lparr>st_cursor := c\<rparr>) s' ok"
  using assms(1) unfolding do_state_def Let_def
  by (elim if_eqE) (erule with_operands_step [OF _ assms(2)] | rule same_cursor [OF _ assms(2)] | erule branch_steps)+

lemma do_register_step:
  assumes "do_register env opcode s = Some (s', ok)" "st_cursor s \<le> e_end (ev_entry env)"
  shows "\<exists>c. st_cursor s \<le> c \<and> c \<le> e_end (ev_entry env) \<and> cfi_step env (s\<lparr>st_cursor := c\<rparr>) s' ok"
  using assms(1) unfolding do_register_def
  by (elim if_eqE) (erule with_operands_step [OF _ assms(2)] do_state_step [OF _ assms(2)] | erule branch_steps)+

lemma do_cfa_step:
  assumes "do_cfa env opcode s = Some (s', ok)" "st_cursor s \<le> e_end (ev_entry env)"
  shows "\<exists>c. st_cursor s \<le> c \<and> c \<le> e_end (ev_entry env) \<and> cfi_step env (s\<lparr>st_cursor := c\<rparr>) s' ok"
  using assms(1) unfolding do_cfa_def Let_def
  by (elim if_eqE) (erule with_operands_step [OF _ assms(2)] do_register_step [OF _ assms(2)] | erule branch_steps)+

lemma do_location_step:
  assumes "do_location env opcode s = Some (s', ok)" "st_cursor s \<le> e_end (ev_entry env)"
  shows "\<exists>c. st_cursor s \<le> c \<and> c \<le> e_end (ev_entry env) \<and> cfi_step env (s\<lparr>st_cursor := c\<rparr>) s' ok"
  using assms(1) unfolding do_location_def
  by (elim if_eqE) (erule with_operands_step [OF _ assms(2)] do_cfa_step [OF _ assms(2)] | erule branch_steps)+

lemma do_primary_step:
  assumes "do_primary env opcode s = Some (s', ok)" "st_cursor s \<le> e_end (ev_entry env)"
  shows "\<exists>c. st_cursor s \<le> c \<and> c \<le> e_end (ev_entry env) \<and> cfi_step env (s\<lparr>st_cursor := c\<rparr>) s' ok"
  using assms(1) unfolding do_primary_def
  by (elim if_eqE) (erule with_operands_step [OF _ assms(2)] | rule same_cursor [OF _ assms(2)] | erule branch_steps | simp)+

text \<open>Every instruction takes at least a byte and has one of the effects above.\<close>

lemma DoInstruction_step:
  assumes "DoInstruction env s = Some (s', ok)"
  shows "\<exists>c. st_cursor s < c \<and> c \<le> e_end (ev_entry env) \<and> cfi_step env (s\<lparr>st_cursor := c\<rparr>) s' ok"
proof -
  have lt: "st_cursor s < e_end (ev_entry env)"
    using assms by (auto simp: DoInstruction_def split: if_splits)
  then have le: "st_cursor s + 1 \<le> e_end (ev_entry env)" "st_cursor s < st_cursor s + 1"
    by uint_arith+
  let ?s = "s\<lparr>st_cursor := st_cursor s + 1\<rparr>" and ?op = "ev_mem env (st_cursor s)"
  have "do_primary env ?op ?s = Some (s', ok) \<or> do_location env ?op ?s = Some (s', ok)"
    using assms by (auto simp: DoInstruction_def Let_def split: if_splits)
  then obtain c where "st_cursor ?s \<le> c" "c \<le> e_end (ev_entry env)" "cfi_step env (?s\<lparr>st_cursor := c\<rparr>) s' ok"
    using do_primary_step [of env ?op ?s] do_location_step [of env ?op ?s] le(1) by fastforce
  then show ?thesis
    using le(2) by (intro exI [of _ c]) auto
qed

lemma cfi_step_frame: "cfi_step env s s' ok \<Longrightarrow> st_cursor s' = st_cursor s \<and> st_cie_rules s' = st_cie_rules s"
  by (induction rule: cfi_step.induct) (auto simp: DoRule_def call_handler_def split: option.splits)

text \<open>An effect that moves the address does not touch the handler.\<close>

lemma cfi_step_moves: "cfi_step env s s' ok \<Longrightarrow> st_address s' = st_address s \<or> st_handler s' = st_handler s"
  by (induction rule: cfi_step.induct) (auto simp: call_handler_def dest: DoRule_address)

lemma DoInstruction_cursor:
  assumes "DoInstruction env s = Some (s', ok)"
  shows "st_cursor s < st_cursor s'" "st_cursor s' \<le> e_end (ev_entry env)"
  using DoInstruction_step [OF assms] cfi_step_frame by fastforce+

section \<open>Interpreting an entry\<close>

function Interpret :: "'h CFI_Env \<Rightarrow> 'h CFI_State \<Rightarrow> ('h CFI_State \<times> bool) option" where
  "Interpret env s =
     (if st_cursor s < e_end (ev_entry env) then
        (case DoInstruction env s of
           None \<Rightarrow> None
         | Some (s', ok) \<Rightarrow> if ok then Interpret env s' else Some (s', False))
      else Some (s, True))"
  by pat_completeness auto
termination
proof (relation "measure (\<lambda>(env, s). unat (e_end (ev_entry env) - st_cursor s))", goal_cases)
  case (2 env s r s' ok)
  then have "DoInstruction env s = Some (s', ok)"
    by simp
  from DoInstruction_cursor [OF this] show ?case
    by (simp add: word_less_nat_alt [symmetric]) uint_arith
qed simp

declare Interpret.simps [simp del]

definition InterpretCIE :: "'h CFI_Env \<Rightarrow> 'h CFI_State \<Rightarrow> ('h CFI_State \<times> bool) option" where
  "InterpretCIE env s =
     go_on (Interpret env (s\<lparr>st_cursor := e_instructions (ev_entry env)\<rparr>))
       (\<lambda>s. Some (s\<lparr>st_cie_rules := st_rules s\<rparr>, True))"

definition InterpretFDE :: "'h CFI_Env \<Rightarrow> 'h CFI_State \<Rightarrow> ('h CFI_State \<times> bool) option" where
  "InterpretFDE env s = Interpret env (s\<lparr>st_cursor := e_instructions (ev_entry env)\<rparr>)"

end
