(* ===== verification/Dwarf_CFI_Reader.thy ===== *)
theory Dwarf_CFI_Reader
  imports Dwarf_CFI
begin

text \<open>
  The reader of call frame sections: \<open>CallFrameInfo::Start\<close>, the prologues of entries and the fields
  of CIEs and FDEs (common/dwarf/dwarf2reader.cc). A struct is updated in place, as its pointer is passed
  in the code. Fields that the code leaves uninitialised have an arbitrary value in the blank structs;
  they are read only where the code has set them.
\<close>

section \<open>The section and the state of its reader\<close>

record 'h CFI_Section =
  sec_mem :: memory
  sec_buffer :: u64
  sec_length :: u64
  sec_handler :: "'h CFI_Handler"
  sec_eh_frame :: bool
  sec_uninit :: u64

record 'h CFI_Parser =
  p_reader :: ByteReader
  p_handler :: 'h
  p_reports :: "CFI_Report list"

definition sec_end :: "'h CFI_Section \<Rightarrow> u64" where
  "sec_end sec = sec_buffer sec + sec_length sec"

definition p_report :: "CFI_Report \<Rightarrow> 'h CFI_Parser \<Rightarrow> 'h CFI_Parser" where
  "p_report r p = p\<lparr>p_reports := p_reports p @ [r]\<rparr>"

definition blank_Entry :: CFI_Entry where
  "blank_Entry = \<lparr>e_offset = 0, e_start = 0, e_kind = kUnknown, e_fields = 0, e_instructions = 0, e_end = 0, e_id = 0\<rparr>"

definition blank_CIE :: CIE where
  "blank_CIE = CFI_Entry.extend blank_Entry (CIE.fields 0 [] 0 0 0 False False False False 0 0 0 0 0 0)"

definition blank_FDE :: FDE where
  "blank_FDE = CFI_Entry.extend blank_Entry (FDE.fields 0 0 0)"

definition ReportIncomplete :: "'e CFI_Entry_scheme \<Rightarrow> 'h CFI_Parser \<Rightarrow> ('h CFI_Parser \<times> 'e CFI_Entry_scheme \<times> bool) option" where
  "ReportIncomplete entry p = Some (p_report (Incomplete (e_offset entry) (e_kind entry)) p, entry, False)"

definition entry_kind :: "'h CFI_Section \<Rightarrow> u64 \<Rightarrow> u64 \<Rightarrow> EntryKind" where
  "entry_kind sec offset_size' id' =
     (if sec_eh_frame sec then (if id' = 0 then kCIE else kFDE)
      else if offset_size' = 4 then (if id' = 0xffffffff then kCIE else kFDE)
      else (if id' = 0xffffffffffffffff then kCIE else kFDE))"

definition ReadEntryPrologue ::
  "'h CFI_Section \<Rightarrow> u64 \<Rightarrow> 'e CFI_Entry_scheme \<Rightarrow> 'h CFI_Parser \<Rightarrow> ('h CFI_Parser \<times> 'e CFI_Entry_scheme \<times> bool) option" where
  "ReadEntryPrologue sec cursor entry p =
     (let mem = sec_mem sec; buffer_end = sec_end sec;
          entry = entry\<lparr>e_offset := cursor - sec_buffer sec, e_start := cursor, e_kind := kUnknown, e_end := 0\<rparr> in
      case ReadInitialLength mem cursor (p_reader p) of
        None \<Rightarrow> None
      | Some (len, length_size, r) \<Rightarrow>
          let p = p\<lparr>p_reader := r\<rparr> in
          if length_size > buffer_end - cursor then ReportIncomplete entry p
          else
            let cursor = cursor + length_size in
            if len = 0 \<and> sec_eh_frame sec then Some (p, entry\<lparr>e_kind := kTerminator, e_end := cursor\<rparr>, True)
            else if len > buffer_end - cursor then ReportIncomplete entry p
            else
              let entry = entry\<lparr>e_end := cursor + len\<rparr>; offset_size' = offset_size r in
              if offset_size' > e_end entry - cursor then ReportIncomplete entry p
              else case ReadOffset r mem cursor of
                  None \<Rightarrow> None
                | Some id' \<Rightarrow>
                    let kind = entry_kind sec offset_size' id';
                        id' = (if sec_eh_frame sec \<and> id' \<noteq> 0 then (cursor - sec_buffer sec) - id' else id') in
                    Some (p, entry\<lparr>e_id := id', e_kind := kind, e_fields := cursor + offset_size'\<rparr>, True))"

section \<open>The fields of a CIE\<close>

text \<open>\<open>memchr\<close> for the terminator, in a number of bytes.\<close>

fun find_nul :: "memory \<Rightarrow> u64 \<Rightarrow> nat \<Rightarrow> u64 option" where
  "find_nul mem start 0 = None"
| "find_nul mem start (Suc n) = (if mem start = 0 then Some start else find_nul mem (start + 1) n)"

definition reject :: "CFI_Report \<Rightarrow> 'x \<Rightarrow> 'h CFI_Parser \<Rightarrow> ('h CFI_Parser \<times> 'x \<times> bool) option" where
  "reject r x p = Some (p_report r p, x, False)"

text \<open>Version, augmentation string and, from version 4 on, the sizes; the last component is the cursor behind them.\<close>

definition read_CIE_header :: "'h CFI_Section \<Rightarrow> CIE \<Rightarrow> 'h CFI_Parser \<Rightarrow> ('h CFI_Parser \<times> (CIE \<times> u64) \<times> bool) option" where
  "read_CIE_header sec cie p =
     (let mem = sec_mem sec; cursor = e_fields cie in
      if sint (e_end cie - cursor) < 1 then reject (Incomplete (e_offset cie) (e_kind cie)) (cie, cursor) p
      else
        let cie = cie\<lparr>cie_version := ReadOneByte mem cursor\<rparr>; cursor = cursor + 1 in
        if cie_version cie < 1 \<or> cie_version cie > 4 then
          reject (UnrecognizedVersion (e_offset cie) (cie_version cie)) (cie, cursor) p
        else case find_nul mem cursor (unat (e_end cie - cursor)) of
            None \<Rightarrow> reject (Incomplete (e_offset cie) (e_kind cie)) (cie, cursor) p
          | Some augmentation_end \<Rightarrow>
              let cie = cie\<lparr>augmentation := string_of (rd_bytes mem cursor (unat (augmentation_end - cursor)))\<rparr>;
                  cursor = augmentation_end + 1 in
              if augmentation cie \<noteq> [] \<and> hd (augmentation cie) \<noteq> CHR ''z'' then
                reject (UnrecognizedAugmentation (e_offset cie) (augmentation cie)) (cie, cursor) p
              else
                let cie = cie\<lparr>has_z_augmentation := augmentation cie \<noteq> []\<rparr> in
                if cie_version cie < 4 then Some (p, (cie, cursor), True)
                else
                  let cie = cie\<lparr>cie_address_size := mem cursor\<rparr> in
                  if cie_address_size cie \<noteq> 8 \<and> cie_address_size cie \<noteq> 4 then
                    reject (UnexpectedAddressSize (e_offset cie) (cie_address_size cie)) (cie, cursor) p
                  else
                    let cie = cie\<lparr>segment_size := mem (cursor + 1)\<rparr> in
                    if segment_size cie \<noteq> 0 then
                      reject (UnexpectedSegmentSize (e_offset cie) (segment_size cie)) (cie, cursor) p
                    else Some (p, (cie, cursor + 2), True))"

definition read_CIE_factors :: "'h CFI_Section \<Rightarrow> CIE \<Rightarrow> u64 \<Rightarrow> 'h CFI_Parser \<Rightarrow> ('h CFI_Parser \<times> (CIE \<times> u64) \<times> bool) option" where
  "read_CIE_factors sec cie cursor p =
     (let mem = sec_mem sec; incomplete = reject (Incomplete (e_offset cie) (e_kind cie)) in
      case ReadUnsignedLEB128 mem cursor of None \<Rightarrow> None | Some (code, len) \<Rightarrow>
      let cie = cie\<lparr>code_alignment_factor := code\<rparr> in
      if e_end cie - cursor < len then incomplete (cie, cursor) p
      else
        let cursor = cursor + len in
        case ReadSignedLEB128 mem cursor of None \<Rightarrow> None | Some (data, len) \<Rightarrow>
        let cie = cie\<lparr>data_alignment_factor := ucast data\<rparr> in
        if e_end cie - cursor < len then incomplete (cie, cursor) p
        else
          let cursor = cursor + len in
          if cie_version cie = 1 then
            (if cursor \<ge> e_end cie then incomplete (cie, cursor) p
             else Some (p, (cie\<lparr>return_address_register := ucast (mem cursor)\<rparr>, cursor + 1), True))
          else case ReadUnsignedLEB128 mem cursor of None \<Rightarrow> None | Some (ra, len) \<Rightarrow>
            let cie = cie\<lparr>return_address_register := ucast ra\<rparr> in
            if e_end cie - cursor < len then incomplete (cie, cursor) p
            else Some (p, (cie, cursor + len), True))"

text \<open>The encoding byte of an augmentation, checked for validity and, if asked, for usability.\<close>

definition check_encoding :: "bool \<Rightarrow> u8 \<Rightarrow> CIE \<Rightarrow> 'h CFI_Parser \<Rightarrow> CFI_Report option" where
  "check_encoding usable e cie p =
     (if \<not> ValidEncoding e then Some (InvalidPointerEncoding (e_offset cie) e)
      else if usable \<and> \<not> UsableEncoding e (p_reader p) then Some (UnusablePointerEncoding (e_offset cie) e)
      else None)"

text \<open>The walk over the augmentation string, with the pointers to the augmentation data and its end.\<close>

fun walk_augmentation ::
  "'h CFI_Section \<Rightarrow> string \<Rightarrow> u64 \<Rightarrow> u64 \<Rightarrow> CIE \<Rightarrow> 'h CFI_Parser \<Rightarrow> ('h CFI_Parser \<times> CIE \<times> bool) option" where
  "walk_augmentation sec [] data data_end cie p = Some (p, cie, True)"
| "walk_augmentation sec (c # cs) data data_end cie p =
     (let mem = sec_mem sec; e = mem data in
      if c = CHR ''L'' then
        let cie = cie\<lparr>has_z_lsda := True\<rparr> in
        if data \<ge> data_end then ReportIncomplete cie p
        else
          let cie = cie\<lparr>lsda_encoding := e\<rparr> in
          (case check_encoding False e cie p of
             Some r \<Rightarrow> reject r cie p
           | None \<Rightarrow> walk_augmentation sec cs (data + 1) data_end cie p)
      else if c = CHR ''P'' then
        let cie = cie\<lparr>has_z_personality := True\<rparr> in
        if data \<ge> data_end then ReportIncomplete cie p
        else
          let cie = cie\<lparr>personality_encoding := e\<rparr> in
          (case check_encoding True e cie p of
             Some r \<Rightarrow> reject r cie p
           | None \<Rightarrow>
               (case ReadEncodedPointer (p_reader p) mem (data + 1) e of
                  None \<Rightarrow> None
                | Some (address, len) \<Rightarrow>
                    let cie = cie\<lparr>personality_address := address\<rparr> in
                    if len > data_end - (data + 1) then ReportIncomplete cie p
                    else walk_augmentation sec cs (data + 1 + len) data_end cie p))
      else if c = CHR ''R'' then
        (if data \<ge> data_end then ReportIncomplete cie p
         else
          let cie = cie\<lparr>pointer_encoding := e\<rparr> in
          (case check_encoding True e cie p of
             Some r \<Rightarrow> reject r cie p
           | None \<Rightarrow> walk_augmentation sec cs (data + 1) data_end cie p))
      else if c = CHR ''S'' then walk_augmentation sec cs data data_end (cie\<lparr>has_z_signal_frame := True\<rparr>) p
      else reject (UnrecognizedAugmentation (e_offset cie) (augmentation cie)) cie p)"

definition read_CIE_augmentation :: "'h CFI_Section \<Rightarrow> CIE \<Rightarrow> u64 \<Rightarrow> 'h CFI_Parser \<Rightarrow> ('h CFI_Parser \<times> CIE \<times> bool) option" where
  "read_CIE_augmentation sec cie cursor p =
     (if \<not> has_z_augmentation cie then Some (p, cie\<lparr>e_instructions := cursor\<rparr>, True)
      else case ReadUnsignedLEB128 (sec_mem sec) cursor of
          None \<Rightarrow> None
        | Some (data_size, len) \<Rightarrow>
            if e_end cie - cursor < len + data_size then ReportIncomplete cie p
            else
              let data = cursor + len; cursor = data + data_size;
                  cie = cie\<lparr>has_z_lsda := False, has_z_personality := False, has_z_signal_frame := False\<rparr> in
              (case walk_augmentation sec (tl (augmentation cie)) data cursor cie p of
                 None \<Rightarrow> None
               | Some (p, cie, ok) \<Rightarrow> Some (p, if ok then cie\<lparr>e_instructions := cursor\<rparr> else cie, ok)))"

definition ReadCIEFields :: "'h CFI_Section \<Rightarrow> CIE \<Rightarrow> 'h CFI_Parser \<Rightarrow> ('h CFI_Parser \<times> CIE \<times> bool) option" where
  "ReadCIEFields sec cie p =
     (if e_kind cie \<noteq> kCIE then None
      else
        let cie = cie\<lparr>cie_version := 0, augmentation := [], code_alignment_factor := 0, data_alignment_factor := 0,
              return_address_register := 0, has_z_augmentation := False, pointer_encoding := DW_EH_PE_absptr, e_instructions := 0\<rparr> in
        case read_CIE_header sec cie p of
          None \<Rightarrow> None
        | Some (p, (cie, cursor), ok) \<Rightarrow>
            if \<not> ok then Some (p, cie, False)
            else case read_CIE_factors sec cie cursor p of
                None \<Rightarrow> None
              | Some (p, (cie, cursor), ok) \<Rightarrow>
                  if \<not> ok then Some (p, cie, False) else read_CIE_augmentation sec cie cursor p)"

section \<open>The fields of an FDE\<close>

definition read_FDE_augmentation :: "'h CFI_Section \<Rightarrow> CIE \<Rightarrow> FDE \<Rightarrow> u64 \<Rightarrow> 'h CFI_Parser \<Rightarrow> ('h CFI_Parser \<times> FDE \<times> bool) option" where
  "read_FDE_augmentation sec cie fde cursor p =
     (let mem = sec_mem sec in
      if \<not> has_z_augmentation cie then Some (p, fde\<lparr>e_instructions := cursor\<rparr>, True)
      else case ReadUnsignedLEB128 mem cursor of None \<Rightarrow> None | Some (data_size, sz) \<Rightarrow>
        if e_end fde - cursor < sz + data_size then ReportIncomplete fde p
        else
          let cursor = cursor + sz in
          if \<not> has_z_lsda cie then Some (p, fde\<lparr>e_instructions := cursor + data_size\<rparr>, True)
          else if \<not> UsableEncoding (lsda_encoding cie) (p_reader p) then
            reject (UnusablePointerEncoding (e_offset cie) (lsda_encoding cie)) fde p
          else case ReadEncodedPointer (p_reader p) mem cursor (lsda_encoding cie) of None \<Rightarrow> None | Some (address, sz) \<Rightarrow>
            let fde = fde\<lparr>lsda_address := address\<rparr> in
            if sz > data_size then ReportIncomplete fde p
            else Some (p, fde\<lparr>e_instructions := cursor + data_size\<rparr>, True))"

definition ReadFDEFields :: "'h CFI_Section \<Rightarrow> CIE \<Rightarrow> FDE \<Rightarrow> 'h CFI_Parser \<Rightarrow> ('h CFI_Parser \<times> FDE \<times> bool) option" where
  "ReadFDEFields sec cie fde p =
     (let mem = sec_mem sec; cursor = e_fields fde in
      case ReadEncodedPointer (p_reader p) mem cursor (pointer_encoding cie) of None \<Rightarrow> None | Some (address, sz) \<Rightarrow>
      let fde = fde\<lparr>fde_address := address\<rparr> in
      if sz > e_end fde - cursor then ReportIncomplete fde p
      else
        let cursor = cursor + sz; p = p\<lparr>p_reader := SetFunctionBase address (p_reader p)\<rparr> in
        case ReadEncodedPointer (p_reader p) mem cursor (pointer_encoding cie AND 0x0f) of None \<Rightarrow> None | Some (fsize, sz) \<Rightarrow>
        let fde = fde\<lparr>fde_size := fsize\<rparr> in
        if sz > e_end fde - cursor then ReportIncomplete fde p
        else read_FDE_augmentation sec cie fde (cursor + sz) p)"

section \<open>The walk over a section\<close>

definition IsIndirectEncoding :: "u8 \<Rightarrow> bool" where
  "IsIndirectEncoding encoding \<longleftrightarrow> encoding AND DW_EH_PE_indirect \<noteq> 0"

definition p_call :: "('h \<Rightarrow> ('h \<times> bool) option) \<Rightarrow> 'h CFI_Parser \<Rightarrow> ('h CFI_Parser \<times> bool) option" where
  "p_call f p = map_option (\<lambda>(h, ok). (p\<lparr>p_handler := h\<rparr>, ok)) (f (p_handler p))"

text \<open>What an augmentation says is reported; the boolean is false where the entry is given up.\<close>

definition report_augmentation :: "'h CFI_Section \<Rightarrow> CIE \<Rightarrow> FDE \<Rightarrow> 'h CFI_Parser \<Rightarrow> ('h CFI_Parser \<times> bool) option" where
  "report_augmentation sec cie fde p =
     (let H = sec_handler sec in
      if \<not> has_z_augmentation cie then Some (p, True)
      else
        go_on (if has_z_personality cie
            then p_call (on_PersonalityRoutine H (personality_address cie) (IsIndirectEncoding (personality_encoding cie))) p
            else Some (p, True)) (\<lambda>p.
        go_on (if has_z_lsda cie
            then p_call (on_LanguageSpecificDataArea H (lsda_address fde) (IsIndirectEncoding (lsda_encoding cie))) p
            else Some (p, True)) (\<lambda>p.
        if has_z_signal_frame cie then p_call (on_SignalHandler H) p else Some (p, True))))"

definition entry_env :: "'h CFI_Section \<Rightarrow> ByteReader \<Rightarrow> CFI_Entry \<Rightarrow> CIE \<Rightarrow> 'h CFI_Env" where
  "entry_env sec r entry cie = \<lparr>ev_mem = sec_mem sec, ev_reader = r, ev_handler = sec_handler sec, ev_entry = entry,
     ev_cie = cie, ev_uninit = sec_uninit sec\<rparr>"

definition run_instructions :: "'h CFI_Section \<Rightarrow> CIE \<Rightarrow> FDE \<Rightarrow> 'h CFI_Parser \<Rightarrow> ('h CFI_Parser \<times> bool) option" where
  "run_instructions sec cie fde p =
     map_option (\<lambda>(s, ok). (p\<lparr>p_handler := st_handler s, p_reports := st_reports s\<rparr>, ok))
       (go_on (InterpretCIE (entry_env sec (p_reader p) (CFI_Entry.truncate cie) cie)
            (CFI_State_new (fde_address fde) (p_handler p) (p_reports p)))
          (InterpretFDE (entry_env sec (p_reader p) (CFI_Entry.truncate fde) cie)))"

text \<open>An FDE whose fields are read: the handler is asked, told about the augmentation, and the instructions run.\<close>

definition process_fields :: "'h CFI_Section \<Rightarrow> CIE \<Rightarrow> FDE \<Rightarrow> 'h CFI_Parser \<Rightarrow> ('h CFI_Parser \<times> bool) option" where
  "process_fields sec cie fde p =
     (let H = sec_handler sec in
      case p_call (on_Entry H (e_offset fde) (fde_address fde) (fde_size fde) (cie_version cie) (augmentation cie)
          (return_address_register cie)) p of
        None \<Rightarrow> None
      | Some (p, interested) \<Rightarrow>
          if \<not> interested then Some (p, True)
          else go_on (report_augmentation sec cie fde p) (\<lambda>p.
            case run_instructions sec cie fde p of
              None \<Rightarrow> None
            | Some (p, ok) \<Rightarrow> map_option (\<lambda>(p, ended). (p, ok))
                (p_call (on_End H) (p\<lparr>p_reader := ClearFunctionBase (p_reader p)\<rparr>))))"

definition process_FDE :: "'h CFI_Section \<Rightarrow> FDE \<Rightarrow> 'h CFI_Parser \<Rightarrow> ('h CFI_Parser \<times> bool) option" where
  "process_FDE sec fde p =
     (if e_id fde > sec_length sec then Some (p_report (CIEPointerOutOfRange (e_offset fde) (e_id fde)) p, False)
      else case ReadEntryPrologue sec (sec_buffer sec + e_id fde) blank_CIE p of
          None \<Rightarrow> None
        | Some (p, cie, ok) \<Rightarrow>
            if \<not> ok then Some (p, False)
            else if e_kind cie \<noteq> kCIE then Some (p_report (BadCIEId (e_offset fde) (e_id fde)) p, False)
            else case ReadCIEFields sec cie p of
                None \<Rightarrow> None
              | Some (p, cie, ok) \<Rightarrow>
                  if \<not> ok then Some (p, False)
                  else case (if cie_version cie \<ge> 4 then SetAddressSize (ucast (cie_address_size cie)) (p_reader p)
                      else Some (p_reader p)) of
                      None \<Rightarrow> None
                    | Some r \<Rightarrow>
                        (case ReadFDEFields sec cie fde (p\<lparr>p_reader := r\<rparr>) of
                           None \<Rightarrow> None
                         | Some (p, fde, ok) \<Rightarrow> if \<not> ok then Some (p, False) else process_fields sec cie fde p))"

text \<open>The end of an entry lies behind its start and inside the section, so the walk ends.\<close>

lemma ReadInitialLength_size: "ReadInitialLength mem a r = Some (len, n, r') \<Longrightarrow> n = 4 \<or> n = 12"
  by (auto simp: ReadInitialLength_def Let_def SetOffsetSize_def split: if_splits bind_splits)

lemma ReadEntryPrologue_end:
  assumes "ReadEntryPrologue sec cursor entry p = Some (p', entry', ok)" "cursor < sec_end sec"
  shows "e_end entry' = 0 \<and> \<not> ok \<or> cursor < e_end entry' \<and> e_end entry' \<le> sec_end sec"
proof -
  obtain len n r where i: "ReadInitialLength (sec_mem sec) cursor (p_reader p) = Some (len, n, r)"
    using assms(1) by (auto simp: ReadEntryPrologue_def Let_def split: option.splits)
  then have n: "0 < n"
    using ReadInitialLength_size by fastforce
  show ?thesis
  proof (cases "n > sec_end sec - cursor")
    case False
    then have c: "cursor < cursor + n" "cursor + n \<le> sec_end sec"
      using n assms(2) by uint_arith+
    have "cursor + n \<le> cursor + n + len \<and> cursor + n + len \<le> sec_end sec" if "\<not> len > sec_end sec - (cursor + n)"
      using cursor_add [OF c(2), of len] that by simp
    then show ?thesis
      using assms(1) i False c
      by (auto simp: ReadEntryPrologue_def Let_def ReportIncomplete_def split: if_splits option.splits)
  qed (use assms(1) i in \<open>auto simp: ReadEntryPrologue_def Let_def ReportIncomplete_def split: if_splits\<close>)
qed

function Start_loop :: "'h CFI_Section \<Rightarrow> u64 \<Rightarrow> bool \<Rightarrow> 'h CFI_Parser \<Rightarrow> ('h CFI_Parser \<times> bool) option" where
  "Start_loop sec cursor all_ok p =
     (if cursor < sec_end sec then
        (case ReadEntryPrologue sec cursor blank_FDE p of
           None \<Rightarrow> None
         | Some (p1, fde, prologue_ok) \<Rightarrow>
             if \<not> prologue_ok then (if e_end fde = 0 then Some (p1, False) else Start_loop sec (e_end fde) False p1)
             else if e_kind fde = kTerminator then
               Some (if e_end fde < sec_end sec then p_report (EarlyEHTerminator (e_offset fde)) p1 else p1, all_ok)
             else if e_kind fde \<noteq> kFDE then Start_loop sec (e_end fde) all_ok p1
             else (case process_FDE sec fde p1 of
                 None \<Rightarrow> None
               | Some (p2, ok) \<Rightarrow> Start_loop sec (e_end fde) (all_ok \<and> ok) p2))
      else Some (p, all_ok))"
  by pat_completeness auto
termination
proof (relation "measure (\<lambda>(sec, cursor, all_ok, p). unat (sec_end sec - cursor))", goal_cases)
  case (2 sec cursor all_ok p r p1 x fde prologue_ok)
  then have "cursor < e_end fde" "e_end fde \<le> sec_end sec"
    using ReadEntryPrologue_end [of sec cursor blank_FDE p p1 fde prologue_ok] by auto
  then show ?case
    by (simp add: word_less_nat_alt [symmetric]) uint_arith
next
  case (3 sec cursor all_ok p r p1 x fde prologue_ok)
  then have "cursor < e_end fde" "e_end fde \<le> sec_end sec"
    using ReadEntryPrologue_end [of sec cursor blank_FDE p p1 fde prologue_ok] by auto
  then show ?case
    by (simp add: word_less_nat_alt [symmetric]) uint_arith
next
  case (4 sec cursor all_ok p r p1 x fde prologue_ok r2 p2 ok)
  then have "cursor < e_end fde" "e_end fde \<le> sec_end sec"
    using ReadEntryPrologue_end [of sec cursor blank_FDE p p1 fde prologue_ok] by auto
  then show ?case
    by (simp add: word_less_nat_alt [symmetric]) uint_arith
qed simp

declare Start_loop.simps [simp del]

definition CallFrameInfo_Start :: "'h CFI_Section \<Rightarrow> 'h CFI_Parser \<Rightarrow> ('h CFI_Parser \<times> bool) option" where
  "CallFrameInfo_Start sec p = Start_loop sec (sec_buffer sec) True p"

end
