(* ===== verification/Dwarf_CFI_Module.thy ===== *)
theory Dwarf_CFI_Module
  imports Dwarf_CFI_Reader Symbol_Writer
begin

text \<open>
  common/dwarf_cfi_to_module.h and .cc: the handler that turns the rules the interpreter of call frame
  instructions reports into the rules of the symbol file, as texts of postfix expressions. \<open>None\<close> is a
  failed assertion. The set of shared strings only saves memory: what is taken out of it is the string
  that was put in, so it has no part in the model.
\<close>

section \<open>Register names\<close>

definition RegisterNames_I386 :: "string list" where
  "RegisterNames_I386 = [
    ''$eax'', ''$ecx'', ''$edx'', ''$ebx'', ''$esp'', ''$ebp'', ''$esi'', ''$edi'', ''$eip'', ''$eflags'',
    ''$unused1'', ''$st0'', ''$st1'', ''$st2'', ''$st3'', ''$st4'', ''$st5'', ''$st6'', ''$st7'',
    ''$unused2'', ''$unused3'', ''$xmm0'', ''$xmm1'', ''$xmm2'', ''$xmm3'', ''$xmm4'', ''$xmm5'', ''$xmm6'',
    ''$xmm7'', ''$mm0'', ''$mm1'', ''$mm2'', ''$mm3'', ''$mm4'', ''$mm5'', ''$mm6'', ''$mm7'', ''$fcw'',
    ''$fsw'', ''$mxcsr'', ''$es'', ''$cs'', ''$ss'', ''$ds'', ''$fs'', ''$gs'', ''$unused4'', ''$unused5'',
    ''$tr'', ''$ldtr'']"

definition RegisterNames_X86_64 :: "string list" where
  "RegisterNames_X86_64 = [
    ''$rax'', ''$rdx'', ''$rcx'', ''$rbx'', ''$rsi'', ''$rdi'', ''$rbp'', ''$rsp'', ''$r8'', ''$r9'',
    ''$r10'', ''$r11'', ''$r12'', ''$r13'', ''$r14'', ''$r15'', ''$rip'', ''$xmm0'', ''$xmm1'', ''$xmm2'',
    ''$xmm3'', ''$xmm4'', ''$xmm5'', ''$xmm6'', ''$xmm7'', ''$xmm8'', ''$xmm9'', ''$xmm10'', ''$xmm11'',
    ''$xmm12'', ''$xmm13'', ''$xmm14'', ''$xmm15'', ''$st0'', ''$st1'', ''$st2'', ''$st3'', ''$st4'',
    ''$st5'', ''$st6'', ''$st7'', ''$mm0'', ''$mm1'', ''$mm2'', ''$mm3'', ''$mm4'', ''$mm5'', ''$mm6'',
    ''$mm7'', ''$rflags'', ''$es'', ''$cs'', ''$ss'', ''$ds'', ''$fs'', ''$gs'', ''$unused1'', ''$unused2'',
    ''$fs.base'', ''$gs.base'', ''$unused3'', ''$unused4'', ''$tr'', ''$ldtr'', ''$mxcsr'', ''$fcw'',
    ''$fsw'']"

definition RegisterNames_ARM :: "string list" where
  "RegisterNames_ARM = [
    ''r0'', ''r1'', ''r2'', ''r3'', ''r4'', ''r5'', ''r6'', ''r7'', ''r8'', ''r9'', ''r10'', ''r11'',
    ''r12'', ''sp'', ''lr'', ''pc'', ''f0'', ''f1'', ''f2'', ''f3'', ''f4'', ''f5'', ''f6'', ''f7'', ''fps'',
    ''cpsr'', '''', '''', '''', '''', '''', '''', '''', '''', '''', '''', '''', '''', '''', '''', '''', '''',
    '''', '''', '''', '''', '''', '''', '''', '''', '''', '''', '''', '''', '''', '''', '''', '''', '''',
    '''', '''', '''', '''', '''', ''s0'', ''s1'', ''s2'', ''s3'', ''s4'', ''s5'', ''s6'', ''s7'', ''s8'',
    ''s9'', ''s10'', ''s11'', ''s12'', ''s13'', ''s14'', ''s15'', ''s16'', ''s17'', ''s18'', ''s19'',
    ''s20'', ''s21'', ''s22'', ''s23'', ''s24'', ''s25'', ''s26'', ''s27'', ''s28'', ''s29'', ''s30'',
    ''s31'', ''f0'', ''f1'', ''f2'', ''f3'', ''f4'', ''f5'', ''f6'', ''f7'']"

definition RegisterNames_ARM64 :: "string list" where
  "RegisterNames_ARM64 = [
    ''x0'', ''x1'', ''x2'', ''x3'', ''x4'', ''x5'', ''x6'', ''x7'', ''x8'', ''x9'', ''x10'', ''x11'',
    ''x12'', ''x13'', ''x14'', ''x15'', ''x16'', ''x17'', ''x18'', ''x19'', ''x20'', ''x21'', ''x22'',
    ''x23'', ''x24'', ''x25'', ''x26'', ''x27'', ''x28'', ''x29'', ''x30'', ''sp'', '''', '''', '''', '''',
    '''', '''', '''', '''', '''', '''', '''', '''', '''', '''', '''', '''', '''', '''', '''', '''', '''',
    '''', '''', '''', '''', '''', '''', '''', '''', '''', '''', '''', ''v0'', ''v1'', ''v2'', ''v3'', ''v4'',
    ''v5'', ''v6'', ''v7'', ''v8'', ''v9'', ''v10'', ''v11'', ''v12'', ''v13'', ''v14'', ''v15'', ''v16'',
    ''v17'', ''v18'', ''v19'', ''v20'', ''v21'', ''v22'', ''v23'', ''v24'', ''v25'', ''v26'', ''v27'',
    ''v28'', ''v29'', ''v30'', ''v31'']"

definition RegisterNames_MIPS :: "string list" where
  "RegisterNames_MIPS = [
    ''$zero'', ''$at'', ''$v0'', ''$v1'', ''$a0'', ''$a1'', ''$a2'', ''$a3'', ''$t0'', ''$t1'', ''$t2'',
    ''$t3'', ''$t4'', ''$t5'', ''$t6'', ''$t7'', ''$s0'', ''$s1'', ''$s2'', ''$s3'', ''$s4'', ''$s5'',
    ''$s6'', ''$s7'', ''$t8'', ''$t9'', ''$k0'', ''$k1'', ''$gp'', ''$sp'', ''$fp'', ''$ra'', ''$lo'',
    ''$hi'', ''$pc'', ''$f0'', ''$f2'', ''$f3'', ''$f4'', ''$f5'', ''$f6'', ''$f7'', ''$f8'', ''$f9'',
    ''$f10'', ''$f11'', ''$f12'', ''$f13'', ''$f14'', ''$f15'', ''$f16'', ''$f17'', ''$f18'', ''$f19'',
    ''$f20'', ''$f21'', ''$f22'', ''$f23'', ''$f24'', ''$f25'', ''$f26'', ''$f27'', ''$f28'', ''$f29'',
    ''$f30'', ''$f31'', ''$fcsr'', ''$fir'']"

definition RegisterNames_RISCV :: "string list" where
  "RegisterNames_RISCV = [
    ''pc'', ''ra'', ''sp'', ''gp'', ''tp'', ''t0'', ''t1'', ''t2'', ''s0'', ''s1'', ''a0'', ''a1'', ''a2'',
    ''a3'', ''a4'', ''a5'', ''a6'', ''a7'', ''s2'', ''s3'', ''s4'', ''s5'', ''s6'', ''s7'', ''s8'', ''s9'',
    ''s10'', ''s11'', ''t3'', ''t4'', ''t5'', ''t6'', ''f0'', ''f1'', ''f2'', ''f3'', ''f4'', ''f5'', ''f6'',
    ''f7'', ''f8'', ''f9'', ''f10'', ''f11'', ''f12'', ''f13'', ''f14'', ''f15'', ''f16'', ''f17'', ''f18'',
    ''f19'', ''f20'', ''f21'', ''f22'', ''f23'', ''f24'', ''f25'', ''f26'', ''f27'', ''f28'', ''f29'',
    ''f30'', ''f31'', '''', '''', '''', '''', '''', '''', '''', '''', '''', '''', '''', '''', '''', '''',
    '''', '''', '''', '''', '''', '''', '''', '''', '''', '''', '''', '''', '''', '''', '''', '''', '''',
    '''', ''v0'', ''v1'', ''v2'', ''v3'', ''v4'', ''v5'', ''v6'', ''v7'', ''v8'', ''v9'', ''v10'', ''v11'',
    ''v12'', ''v13'', ''v14'', ''v15'', ''v16'', ''v17'', ''v18'', ''v19'', ''v20'', ''v21'', ''v22'',
    ''v23'', ''v24'', ''v25'', ''v26'', ''v27'', ''v28'', ''v29'', ''v30'', ''v31'']"

section \<open>State\<close>

datatype CFIToModule_Report =
    UnnamedRegister u64 int
  | UndefinedNotSupported u64 string
  | ExpressionsNotSupported u64 string

text \<open>\<open>cm_entry\<close> is the entry under construction, if there is one.\<close>

record CFIToModule =
  cm_module :: DumpModule
  cm_names :: "string list"
  cm_reports :: "CFIToModule_Report list"
  cm_entry :: "StackFrameEntry option"
  cm_entry_offset :: u64
  cm_return_address :: u32

definition CFIToModule_new :: "DumpModule \<Rightarrow> string list \<Rightarrow> CFIToModule" where
  "CFIToModule_new m names = \<lparr>cm_module = m, cm_names = names, cm_reports = [], cm_entry = None, cm_entry_offset = 0,
     cm_return_address = - 1\<rparr>"

definition cm_report :: "CFIToModule_Report \<Rightarrow> CFIToModule \<Rightarrow> CFIToModule" where
  "cm_report r h = h\<lparr>cm_reports := cm_reports h @ [r]\<rparr>"

section \<open>Operations\<close>

definition cm_Entry :: "u64 \<Rightarrow> u64 \<Rightarrow> u64 \<Rightarrow> u8 \<Rightarrow> string \<Rightarrow> u32 \<Rightarrow> CFIToModule \<Rightarrow> (CFIToModule \<times> bool) option" where
  "cm_Entry offset address len version aug return_address h =
     (if cm_entry h \<noteq> None then None
      else
        let initial = (if unat return_address < length (cm_names h)
              then om_assign ''.ra'' (cm_names h ! unat return_address) [] else []) in
        Some (h\<lparr>cm_entry := Some \<lparr>se_address = address, se_size = len, initial_rules = initial, rule_changes = []\<rparr>,
               cm_entry_offset := offset, cm_return_address := return_address\<rparr>, True))"

definition cm_RegisterName :: "int \<Rightarrow> CFIToModule \<Rightarrow> (CFIToModule \<times> string) option" where
  "cm_RegisterName i h =
     (if cm_entry h = None then None
      else if i < 0 then (if i = kCFARegister then Some (h, ''.cfa'') else None)
      else if (of_int i :: u32) = cm_return_address h then Some (h, ''.ra'')
      else if nat i < length (cm_names h) \<and> cm_names h ! nat i \<noteq> [] then Some (h, cm_names h ! nat i)
      else Some (cm_report (UnnamedRegister (cm_entry_offset h) i) h, ''unnamed_register'' @ show_nat (nat i)))"

text \<open>The entry with a rule filed under its address.\<close>

definition record_rule :: "u64 \<Rightarrow> string \<Rightarrow> string \<Rightarrow> StackFrameEntry \<Rightarrow> StackFrameEntry" where
  "record_rule address name rule e =
     (if address = se_address e then e\<lparr>initial_rules := om_assign name rule (initial_rules e)\<rparr>
      else e\<lparr>rule_changes := om_assign address
        (om_assign name rule (case om_lookup (rule_changes e) address of None \<Rightarrow> [] | Some rules \<Rightarrow> rules)) (rule_changes e)\<rparr>)"

definition cm_Record :: "u64 \<Rightarrow> int \<Rightarrow> string \<Rightarrow> CFIToModule \<Rightarrow> (CFIToModule \<times> bool) option" where
  "cm_Record address reg rule h =
     Option.bind (cm_RegisterName reg h) (\<lambda>(h, name).
       Some (h\<lparr>cm_entry := map_option (record_rule address name rule) (cm_entry h)\<rparr>, True))"

definition cm_UndefinedRule :: "u64 \<Rightarrow> int \<Rightarrow> CFIToModule \<Rightarrow> (CFIToModule \<times> bool) option" where
  "cm_UndefinedRule address reg h =
     Option.bind (cm_RegisterName reg h) (\<lambda>(h, name). Some (cm_report (UndefinedNotSupported (cm_entry_offset h) name) h, True))"

definition cm_SameValueRule :: "u64 \<Rightarrow> int \<Rightarrow> CFIToModule \<Rightarrow> (CFIToModule \<times> bool) option" where
  "cm_SameValueRule address reg h = Option.bind (cm_RegisterName reg h) (\<lambda>(h, s). cm_Record address reg s h)"

definition cm_OffsetRule :: "u64 \<Rightarrow> int \<Rightarrow> int \<Rightarrow> u64 \<Rightarrow> CFIToModule \<Rightarrow> (CFIToModule \<times> bool) option" where
  "cm_OffsetRule address reg base_register offset h =
     Option.bind (cm_RegisterName base_register h)
       (\<lambda>(h, s). cm_Record address reg (s @ '' '' @ show_int (sint offset) @ '' + ^'') h)"

definition cm_ValOffsetRule :: "u64 \<Rightarrow> int \<Rightarrow> int \<Rightarrow> u64 \<Rightarrow> CFIToModule \<Rightarrow> (CFIToModule \<times> bool) option" where
  "cm_ValOffsetRule address reg base_register offset h =
     Option.bind (cm_RegisterName base_register h)
       (\<lambda>(h, s). cm_Record address reg (s @ '' '' @ show_int (sint offset) @ '' +'') h)"

definition cm_RegisterRule :: "u64 \<Rightarrow> int \<Rightarrow> int \<Rightarrow> CFIToModule \<Rightarrow> (CFIToModule \<times> bool) option" where
  "cm_RegisterRule address reg base_register h =
     Option.bind (cm_RegisterName base_register h) (\<lambda>(h, s). cm_Record address reg s h)"

definition cm_ExpressionRule :: "u64 \<Rightarrow> int \<Rightarrow> string \<Rightarrow> CFIToModule \<Rightarrow> (CFIToModule \<times> bool) option" where
  "cm_ExpressionRule address reg expression h =
     Option.bind (cm_RegisterName reg h) (\<lambda>(h, name). Some (cm_report (ExpressionsNotSupported (cm_entry_offset h) name) h, True))"

definition cm_ValExpressionRule :: "u64 \<Rightarrow> int \<Rightarrow> string \<Rightarrow> CFIToModule \<Rightarrow> (CFIToModule \<times> bool) option" where
  "cm_ValExpressionRule address reg expression h =
     Option.bind (cm_RegisterName reg h) (\<lambda>(h, name). Some (cm_report (ExpressionsNotSupported (cm_entry_offset h) name) h, True))"

definition cm_End :: "CFIToModule \<Rightarrow> (CFIToModule \<times> bool) option" where
  "cm_End h = (case cm_entry h of
       None \<Rightarrow> None
     | Some e \<Rightarrow> Some (h\<lparr>cm_module := AddStackFrameEntry e (cm_module h), cm_entry := None\<rparr>, True))"

text \<open>The operations the class inherits do nothing and return true.\<close>

definition cm_handler :: "CFIToModule CFI_Handler" where
  "cm_handler = \<lparr>on_Entry = cm_Entry, on_UndefinedRule = cm_UndefinedRule, on_SameValueRule = cm_SameValueRule,
     on_OffsetRule = cm_OffsetRule, on_ValOffsetRule = cm_ValOffsetRule, on_RegisterRule = cm_RegisterRule,
     on_ExpressionRule = cm_ExpressionRule, on_ValExpressionRule = cm_ValExpressionRule, on_End = cm_End,
     on_Architecture = (\<lambda>h. dm_architecture (cm_module h)),
     on_PersonalityRoutine = (\<lambda>address indirect h. Some (h, True)),
     on_LanguageSpecificDataArea = (\<lambda>address indirect h. Some (h, True)),
     on_SignalHandler = (\<lambda>h. Some (h, True))\<rparr>"

end
