(* ===== verification/Dwarf_CFI_Invariant.thy ===== *)
theory Dwarf_CFI_Invariant
  imports Dwarf_CFI_Module
begin

text \<open>
  The contract between the reader of call frame sections and its handler, as a locale: between
  \<open>Entry\<close> and \<open>End\<close> the handler is active and takes rules, otherwise it is idle. Whatever bytes the
  section has, the reader keeps the protocol and leaves the handler idle. The handler that fills a
  module keeps the contract.
\<close>

section \<open>The contract\<close>

locale cfi_protocol =
  fixes H :: "'h CFI_Handler" and idle active :: "'h \<Rightarrow> bool"
  assumes entry_law: "idle h \<Longrightarrow> on_Entry H offset address len version aug ra h = Some (h', ok) \<Longrightarrow>
      (if ok then active h' else idle h')"
    and rule_law: "active h \<Longrightarrow> Rule_Handle H address reg rule h = Some (h', ok) \<Longrightarrow> active h'"
    and end_law: "active h \<Longrightarrow> on_End H h = Some (h', ok) \<Longrightarrow> idle h'"
    and personality_law: "active h \<Longrightarrow> on_PersonalityRoutine H address indirect h = Some (h', ok) \<Longrightarrow> active h' \<and> ok"
    and lsda_law: "active h \<Longrightarrow> on_LanguageSpecificDataArea H address indirect h = Some (h', ok) \<Longrightarrow> active h' \<and> ok"
    and signal_law: "active h \<Longrightarrow> on_SignalHandler H h = Some (h', ok) \<Longrightarrow> active h' \<and> ok"
begin

lemma same_value_law: "active h \<Longrightarrow> on_SameValueRule H address reg h = Some (h', ok) \<Longrightarrow> active h'"
  using rule_law [of h address reg SameValueRule] by simp

lemma transition_registers_active:
  "transition_registers H address olds news h = Some (h', ok) \<Longrightarrow> active h \<Longrightarrow> active h'"
proof (induction olds arbitrary: news h)
  case Nil
  then show ?case
    by (cases news) auto
next
  case (Cons old olds)
  then show ?case
    by (cases news) (auto simp: go_on_def split: option.splits if_splits dest: same_value_law rule_law)
qed

lemma HandleTransitionTo_active:
  assumes "HandleTransitionTo H address m news h = Some (h', ok)" "active h"
  shows "active h'"
proof -
  obtain h1 ok1 where t: "transition_cfa H address (cfa_of m) (cfa_of news) h = Some (h1, ok1)"
    using assms(1) by (auto simp: HandleTransitionTo_def go_on_def split: option.splits)
  then have "active h1"
    using assms(2) by (auto simp: transition_cfa_def split: option.splits if_splits dest: rule_law)
  then show ?thesis
    using assms(1) t by (auto simp: HandleTransitionTo_def go_on_def split: if_splits dest: transition_registers_active)
qed

lemma DoRule_active:
  "DoRule env reg rule s = Some (s', ok) \<Longrightarrow> ev_handler env = H \<Longrightarrow> active (st_handler s) \<Longrightarrow> active (st_handler s')"
  by (auto simp: DoRule_def call_handler_def split: option.splits dest: rule_law)

lemma cfi_step_active:
  assumes "cfi_step env s s' ok" and H: "ev_handler env = H" and "active (st_handler s)"
  shows "active (st_handler s')"
  using assms(1,3)
proof (induction rule: cfi_step.induct)
  case (step_rule reg rule s s' ok)
  then show ?case
    using DoRule_active [OF _ H] by blast
next
  case (step_cfa s rule s' ok)
  then show ?case
    unfolding H by (auto simp: call_handler_def dest: rule_law)
next
  case (step_restore s new_rules saved s' ok)
  then show ?case
    unfolding H by (auto simp: call_handler_def dest: HandleTransitionTo_active)
next
  case (step_seq reg rule s s1 s2 ok)
  then show ?case
    using DoRule_active [OF _ H] by blast
qed auto

lemma Interpret_active:
  "Interpret env s = Some (s', ok) \<Longrightarrow> ev_handler env = H \<Longrightarrow> active (st_handler s) \<Longrightarrow> active (st_handler s')"
proof (induction env s arbitrary: s' rule: Interpret.induct)
  case (1 env s)
  show ?case
  proof (cases "st_cursor s < e_end (ev_entry env)")
    case True
    then obtain t ok' where t: "DoInstruction env s = Some (t, ok')"
      using 1(2) by (auto simp: Interpret.simps [of env s] split: option.splits)
    then have a: "active (st_handler t)"
      using DoInstruction_step [OF t] cfi_step_active 1(3,4) by fastforce
    show ?thesis
    proof (cases ok')
      case ok: True
      then have "Interpret env t = Some (s', ok)"
        using 1(2) t True by (simp add: Interpret.simps [of env s])
      then show ?thesis
        using 1(1) [OF True t refl ok _ 1(3) a] by blast
    qed (use 1(2) t True a in \<open>auto simp: Interpret.simps [of env s]\<close>)
  qed (use 1 in \<open>auto simp: Interpret.simps [of env s]\<close>)
qed

lemma run_instructions_active:
  assumes "run_instructions sec cie fde p = Some (p', ok)" "sec_handler sec = H" "active (p_handler p)"
  shows "active (p_handler p')"
proof -
  let ?env1 = "entry_env sec (p_reader p) (CFI_Entry.truncate cie) cie"
    and ?env2 = "entry_env sec (p_reader p) (CFI_Entry.truncate fde) cie"
  have H: "ev_handler ?env1 = H" "ev_handler ?env2 = H"
    using assms(2) by (simp_all add: entry_env_def)
  obtain s ok' where s: "go_on (InterpretCIE ?env1 (CFI_State_new (fde_address fde) (p_handler p) (p_reports p)))
      (InterpretFDE ?env2) = Some (s, ok')" and p': "p_handler p' = st_handler s"
    using assms(1) by (auto simp: run_instructions_def)
  obtain s1 ok1 where s1: "Interpret ?env1 ((CFI_State_new (fde_address fde) (p_handler p) (p_reports p))
      \<lparr>st_cursor := e_instructions (ev_entry ?env1)\<rparr>) = Some (s1, ok1)"
    using s by (auto simp: InterpretCIE_def go_on_def split: option.splits)
  then have a1: "active (st_handler s1)"
    by (rule Interpret_active) (use H assms(3) in \<open>simp_all add: CFI_State_new_def\<close>)
  have "active (st_handler s)"
  proof (cases ok1)
    case True
    then have "Interpret ?env2 (s1\<lparr>st_cie_rules := st_rules s1, st_cursor := e_instructions (ev_entry ?env2)\<rparr>) = Some (s, ok')"
      using s s1 by (simp add: InterpretCIE_def InterpretFDE_def go_on_def)
    then show ?thesis
      by (rule Interpret_active) (use H a1 in simp_all)
  qed (use s s1 a1 in \<open>auto simp: InterpretCIE_def go_on_def\<close>)
  then show ?thesis
    by (simp add: p')
qed

lemma report_augmentation_active:
  assumes "report_augmentation sec cie fde p = Some (p', ok)" "sec_handler sec = H" "active (p_handler p)"
  shows "active (p_handler p') \<and> ok"
proof -
  let ?P = "if has_z_personality cie
      then p_call (on_PersonalityRoutine H (personality_address cie) (IsIndirectEncoding (personality_encoding cie))) p
      else Some (p, True)"
  show ?thesis
  proof (cases "has_z_augmentation cie")
    case True
    then obtain p1 ok1 where p1: "?P = Some (p1, ok1)"
      using assms(1) unfolding report_augmentation_def Let_def assms(2) go_on_def by (auto split: option.splits if_splits)
    then have a1: "active (p_handler p1) \<and> ok1"
      using assms(3) by (auto simp: p_call_def split: if_splits dest: personality_law)
    let ?L = "if has_z_lsda cie
        then p_call (on_LanguageSpecificDataArea H (lsda_address fde) (IsIndirectEncoding (lsda_encoding cie))) p1
        else Some (p1, True)"
    have r: "go_on ?L (\<lambda>p. if has_z_signal_frame cie then p_call (on_SignalHandler H) p else Some (p, True)) = Some (p', ok)"
      using assms(1) True a1 unfolding report_augmentation_def Let_def assms(2) p1 by (simp add: go_on_def)
    then obtain p2 ok2 where p2: "?L = Some (p2, ok2)"
      by (cases ?L) (auto simp: go_on_def)
    then have a2: "active (p_handler p2) \<and> ok2"
      using a1 by (auto simp: p_call_def split: if_splits dest: lsda_law)
    then show ?thesis
      using r unfolding p2 by (auto simp: go_on_def p_call_def split: if_splits dest: signal_law)
  qed (use assms in \<open>auto simp: report_augmentation_def\<close>)
qed

lemma process_fields_idle:
  assumes "process_fields sec cie fde p = Some (p', ok)" "sec_handler sec = H" "idle (p_handler p)"
  shows "idle (p_handler p')"
proof -
  obtain p1 ok1 where p1: "p_call (on_Entry H (e_offset fde) (fde_address fde) (fde_size fde) (cie_version cie) (augmentation cie)
      (return_address_register cie)) p = Some (p1, ok1)"
    using assms(1,2) by (auto simp: process_fields_def Let_def split: option.splits)
  then have e: "if ok1 then active (p_handler p1) else idle (p_handler p1)"
    using entry_law [OF assms(3)] by (auto simp: p_call_def)
  show ?thesis
  proof (cases ok1)
    case True
    then obtain p2 ok2 where p2: "report_augmentation sec cie fde p1 = Some (p2, ok2)"
      using assms(1,2) p1 by (auto simp: process_fields_def Let_def go_on_def split: option.splits)
    have a2: "active (p_handler p2)" "ok2"
      using report_augmentation_active [OF p2 assms(2)] e True by auto
    then obtain p3 ok3 where p3: "run_instructions sec cie fde p2 = Some (p3, ok3)"
      using assms(1,2) p1 p2 True by (auto simp: process_fields_def Let_def go_on_def split: option.splits)
    have "active (p_handler p3)"
      by (rule run_instructions_active [OF p3 assms(2) a2(1)])
    moreover obtain ended where "p_call (on_End H) (p3\<lparr>p_reader := ClearFunctionBase (p_reader p3)\<rparr>) = Some (p', ended)"
      using assms(1) p1 p2 p3 True a2(2) unfolding process_fields_def Let_def assms(2) by (auto simp: go_on_def)
    ultimately show ?thesis
      by (auto simp: p_call_def dest: end_law)
  qed (use assms(1,2) p1 e in \<open>auto simp: process_fields_def Let_def\<close>)
qed

end

text \<open>Reading entries does not touch the handler.\<close>

lemma ReadEntryPrologue_handler: "ReadEntryPrologue sec cursor entry p = Some (p', entry', ok) \<Longrightarrow> p_handler p' = p_handler p"
  by (auto simp: ReadEntryPrologue_def ReportIncomplete_def p_report_def Let_def split: option.splits if_splits)

lemma read_CIE_header_handler: "read_CIE_header sec cie p = Some (p', r, ok) \<Longrightarrow> p_handler p' = p_handler p"
  by (auto simp: read_CIE_header_def reject_def p_report_def Let_def split: option.splits if_splits)

lemma read_CIE_factors_handler: "read_CIE_factors sec cie cursor p = Some (p', r, ok) \<Longrightarrow> p_handler p' = p_handler p"
  by (auto simp: read_CIE_factors_def reject_def p_report_def Let_def split: option.splits if_splits)

lemma walk_augmentation_handler:
  "walk_augmentation sec cs data data_end cie p = Some (p', cie', ok) \<Longrightarrow> p_handler p' = p_handler p"
proof (induction cs arbitrary: data cie)
  case (Cons c cs)
  note defs = reject_def ReportIncomplete_def p_report_def
  show ?case
    using Cons.prems unfolding walk_augmentation.simps Let_def
    by (elim if_eqE) (auto simp: defs split: option.splits if_splits dest: Cons.IH)
qed simp

lemma read_CIE_augmentation_handler: "read_CIE_augmentation sec cie cursor p = Some (p', cie', ok) \<Longrightarrow> p_handler p' = p_handler p"
  by (auto simp: read_CIE_augmentation_def ReportIncomplete_def p_report_def Let_def split: option.splits if_splits
      dest: walk_augmentation_handler)

lemma ReadCIEFields_handler: "ReadCIEFields sec cie p = Some (p', cie', ok) \<Longrightarrow> p_handler p' = p_handler p"
  by (auto simp: ReadCIEFields_def Let_def split: option.splits if_splits
      dest!: read_CIE_header_handler read_CIE_factors_handler read_CIE_augmentation_handler)

lemma ReadFDEFields_handler: "ReadFDEFields sec cie fde p = Some (p', fde', ok) \<Longrightarrow> p_handler p' = p_handler p"
  by (auto simp: ReadFDEFields_def read_FDE_augmentation_def reject_def ReportIncomplete_def p_report_def Let_def
      split: option.splits if_splits)

context cfi_protocol
begin

lemma process_FDE_idle:
  assumes "process_FDE sec fde p = Some (p', ok)" "sec_handler sec = H" "idle (p_handler p)"
  shows "idle (p_handler p')"
proof -
  note handlers = ReadEntryPrologue_handler ReadCIEFields_handler ReadFDEFields_handler
  have pf: "idle (p_handler q')" if "process_fields sec cie f q = Some (q', b)" "p_handler q = p_handler p" for cie f q q' b
    using process_fields_idle [OF that(1) assms(2)] assms(3) that(2) by simp
  show ?thesis
    using assms(1,3) unfolding process_FDE_def
    by (elim if_eqE) (auto simp: p_report_def split: option.splits if_splits dest!: handlers, (erule (1) pf)+)
qed

lemma Start_loop_idle:
  "Start_loop sec cursor all_ok p = Some (p', ok) \<Longrightarrow> sec_handler sec = H \<Longrightarrow> idle (p_handler p) \<Longrightarrow> idle (p_handler p')"
proof (induction sec cursor all_ok p rule: Start_loop.induct)
  case (1 sec cursor all_ok p)
  show ?case
  proof (cases "cursor < sec_end sec")
    case True
    then obtain p1 fde pok where p1: "ReadEntryPrologue sec cursor blank_FDE p = Some (p1, fde, pok)"
      using 1(4) by (auto simp: Start_loop.simps [of sec cursor] split: option.splits)
    have h1: "idle (p_handler p1)"
      using ReadEntryPrologue_handler [OF p1] 1(6) by simp
    consider (failed) "\<not> pok" | (terminator) "pok" "e_kind fde = kTerminator" | (skip) "pok" "e_kind fde \<noteq> kTerminator" "e_kind fde \<noteq> kFDE"
      | (fde) "pok" "e_kind fde \<noteq> kTerminator" "e_kind fde = kFDE"
      by blast
    then show ?thesis
    proof cases
      case failed
      then show ?thesis
        using 1(1) [OF True p1 refl refl failed _ _ 1(5) h1] 1(4) True p1 h1
        by (auto simp: Start_loop.simps [of sec cursor] split: if_splits)
    next
      case terminator
      then show ?thesis
        using 1(4) True p1 h1 by (auto simp: Start_loop.simps [of sec cursor] p_report_def)
    next
      case skip
      then show ?thesis
        using 1(2) [OF True p1 refl refl _ _ _ _ 1(5) h1] 1(4) True p1
        by (auto simp: Start_loop.simps [of sec cursor])
    next
      case fde
      then obtain p2 ok2 where p2: "process_FDE sec fde p1 = Some (p2, ok2)"
        using 1(4) True p1 by (auto simp: Start_loop.simps [of sec cursor] split: option.splits)
      have "idle (p_handler p2)"
        by (rule process_FDE_idle [OF p2 1(5) h1])
      then show ?thesis
        using 1(3) [OF True p1 refl refl _ fde(2) _ p2 refl _ 1(5)] fde 1(4) True p1 p2
        by (auto simp: Start_loop.simps [of sec cursor])
    qed
  qed (use 1 in \<open>auto simp: Start_loop.simps [of sec cursor]\<close>)
qed

lemma Start_idle:
  "CallFrameInfo_Start sec p = Some (p', ok) \<Longrightarrow> sec_handler sec = H \<Longrightarrow> idle (p_handler p) \<Longrightarrow> idle (p_handler p')"
  unfolding CallFrameInfo_Start_def by (rule Start_loop_idle)

end

section \<open>The handler that fills a module\<close>

text \<open>Rule maps are sorted, and the changes are filed under other addresses than the start.\<close>

definition entry_ok :: "StackFrameEntry \<Rightarrow> bool" where
  "entry_ok e \<longleftrightarrow> om_sorted (initial_rules e) \<and> om_sorted (rule_changes e) \<and>
     (\<forall>p\<in>set (rule_changes e). om_sorted (snd p) \<and> fst p \<noteq> se_address e)"

definition cm_idle :: "CFIToModule \<Rightarrow> bool" where
  "cm_idle h \<longleftrightarrow> cm_entry h = None \<and> (\<forall>e\<in>set (stack_frame_entries (cm_module h)). entry_ok e)"

definition cm_active :: "CFIToModule \<Rightarrow> bool" where
  "cm_active h \<longleftrightarrow> (\<exists>e. cm_entry h = Some e \<and> entry_ok e) \<and> (\<forall>e\<in>set (stack_frame_entries (cm_module h)). entry_ok e)"

lemma record_rule_ok:
  assumes "entry_ok e"
  shows "entry_ok (record_rule address name rule e)"
proof -
  have c: "om_sorted (rule_changes e)" "\<And>p. p \<in> set (rule_changes e) \<Longrightarrow> om_sorted (snd p) \<and> fst p \<noteq> se_address e"
    using assms by (auto simp: entry_ok_def)
  let ?old = "case om_lookup (rule_changes e) address of None \<Rightarrow> [] | Some rules \<Rightarrow> rules"
  have old: "om_sorted ?old"
    using c by (auto simp: om_lookup_eq [OF c(1)] split: option.splits dest: map_of_SomeD)
  have "\<forall>p\<in>set (om_assign address (om_assign name rule ?old) (rule_changes e)). om_sorted (snd p) \<and> fst p \<noteq> se_address e"
    if "address \<noteq> se_address e"
    by (rule om_assign_all) (use that c(2) om_sorted_assign [OF old] in auto)
  then show ?thesis
    using assms by (auto simp: entry_ok_def record_rule_def om_sorted_assign)
qed

text \<open>The name of a register and the text of a rule; \<open>None\<close> is a rule the symbol file cannot express.\<close>

definition dwarf_name :: "string list \<Rightarrow> u32 \<Rightarrow> int \<Rightarrow> string" where
  "dwarf_name names ra i =
     (if i < 0 then ''.cfa''
      else if (of_int i :: u32) = ra then ''.ra''
      else if nat i < length names \<and> names ! nat i \<noteq> [] then names ! nat i
      else ''unnamed_register'' @ show_nat (nat i))"

fun dwarf_text :: "string list \<Rightarrow> u32 \<Rightarrow> int \<Rightarrow> CFI_Rule \<Rightarrow> string option" where
  "dwarf_text names ra reg SameValueRule = Some (dwarf_name names ra reg)"
| "dwarf_text names ra reg (OffsetRule base offset) = Some (dwarf_name names ra base @ '' '' @ show_int (sint offset) @ '' + ^'')"
| "dwarf_text names ra reg (ValOffsetRule base offset) = Some (dwarf_name names ra base @ '' '' @ show_int (sint offset) @ '' +'')"
| "dwarf_text names ra reg (RegisterRule base) = Some (dwarf_name names ra base)"
| "dwarf_text names ra reg UndefinedRule = None"
| "dwarf_text names ra reg (ExpressionRule e) = None"
| "dwarf_text names ra reg (ValExpressionRule e) = None"

lemma cm_RegisterName_eq:
  assumes "cm_RegisterName i h = Some (h', name)"
  shows "name = dwarf_name (cm_names h) (cm_return_address h) i" "h' = h\<lparr>cm_reports := cm_reports h'\<rparr>" "- 1 \<le> i"
    "cm_entry h \<noteq> None"
  using assms by (auto simp: cm_RegisterName_def cm_report_def dwarf_name_def split: if_splits)

definition filed :: "CFIToModule \<Rightarrow> u64 \<Rightarrow> int \<Rightarrow> CFI_Rule \<Rightarrow> StackFrameEntry option" where
  "filed h address reg rule = (case dwarf_text (cm_names h) (cm_return_address h) reg rule of
       None \<Rightarrow> cm_entry h
     | Some t \<Rightarrow> map_option (record_rule address (dwarf_name (cm_names h) (cm_return_address h) reg) t) (cm_entry h))"

lemma cm_Record_eq:
  assumes "cm_Record address reg t h = Some (h', ok)"
  shows "ok \<and> - 1 \<le> reg \<and> h' = h\<lparr>cm_reports := cm_reports h', cm_entry := map_option (record_rule address
      (dwarf_name (cm_names h) (cm_return_address h) reg) t) (cm_entry h)\<rparr>"
proof -
  obtain h1 name where n: "cm_RegisterName reg h = Some (h1, name)"
    using assms by (auto simp: cm_Record_def split: bind_splits)
  obtain r where "h1 = h\<lparr>cm_reports := r\<rparr>"
    using cm_RegisterName_eq(2) [OF n] by blast
  then show ?thesis
    using assms n cm_RegisterName_eq(1,3) [OF n] by (auto simp: cm_Record_def)
qed

lemma Rule_Handle_module:
  assumes "Rule_Handle cm_handler address reg rule h = Some (h', ok)"
  shows "ok \<and> - 1 \<le> reg \<and> cm_entry h \<noteq> None \<and> h' = h\<lparr>cm_reports := cm_reports h', cm_entry := filed h address reg rule\<rparr>"
proof -
  note defs = cm_handler_def cm_UndefinedRule_def cm_SameValueRule_def cm_OffsetRule_def cm_ValOffsetRule_def
    cm_RegisterRule_def cm_ExpressionRule_def cm_ValExpressionRule_def
  obtain i h1 name where n: "cm_RegisterName i h = Some (h1, name)"
      "rule = SameValueRule \<or> dwarf_text (cm_names h) (cm_return_address h) reg rule = None \<Longrightarrow> i = reg"
      "case rule of OffsetRule base offset \<Rightarrow> i = base | ValOffsetRule base offset \<Rightarrow> i = base | RegisterRule base \<Rightarrow> i = base | _ \<Rightarrow> i = reg"
    using assms by (cases rule) (auto simp: defs split: bind_splits)
  obtain r where h1: "h1 = h\<lparr>cm_reports := r\<rparr>"
    using cm_RegisterName_eq(2) [OF n(1)] by blast
  show ?thesis
  proof (cases "dwarf_text (cm_names h) (cm_return_address h) reg rule")
    case None
    then show ?thesis
      using assms n h1 cm_RegisterName_eq(3,4) [OF n(1)] by (cases rule) (auto simp: defs filed_def cm_report_def)
  next
    case (Some t)
    then have "cm_Record address reg t h1 = Some (h', ok)"
      using assms n cm_RegisterName_eq(1) [OF n(1)] by (cases rule) (auto simp: defs)
    from cm_Record_eq [OF this] show ?thesis
      using Some h1 cm_RegisterName_eq(4) [OF n(1)] by (auto simp: filed_def)
  qed
qed

lemma filed_ok: "cm_entry h = Some e \<Longrightarrow> entry_ok e \<Longrightarrow> \<exists>e'. filed h address reg rule = Some e' \<and> entry_ok e'"
  by (auto simp: filed_def record_rule_ok split: option.splits)

interpretation cfi_module: cfi_protocol cm_handler cm_idle cm_active
proof
  show "if ok then cm_active h' else cm_idle h'"
    if "cm_idle h" "on_Entry cm_handler offset address len version aug ra h = Some (h', ok)" for h h' offset address len version aug ra ok
    using that by (auto simp: cm_handler_def cm_Entry_def cm_idle_def cm_active_def entry_ok_def Let_def om_sorted_assign)
  show "cm_active h'" if act: "cm_active h" and handle: "Rule_Handle cm_handler address reg rule h = Some (h', ok)"
    for h h' address reg rule ok
  proof -
    obtain e where e: "cm_entry h = Some e" "entry_ok e" "\<forall>e\<in>set (stack_frame_entries (cm_module h)). entry_ok e"
      using act by (auto simp: cm_active_def)
    obtain r where "h' = h\<lparr>cm_reports := r, cm_entry := filed h address reg rule\<rparr>"
      using Rule_Handle_module [OF handle] by blast
    with filed_ok [OF e(1,2)] e(3) show ?thesis
      by (auto simp: cm_active_def)
  qed
  show "cm_idle h'" if "cm_active h" "on_End cm_handler h = Some (h', ok)" for h h' ok
    using that by (auto simp: cm_handler_def cm_End_def cm_idle_def cm_active_def AddStackFrameEntry_def split: option.splits if_splits)
qed (simp_all add: cm_handler_def)

end
