(* ===== verification/Dwarf_CFI_Translation.thy ===== *)
theory Dwarf_CFI_Translation
  imports Dwarf_CFI_Invariant
begin

text \<open>
  The translation of call frame instructions into the rules of a symbol file is faithful: while an
  entry is interpreted with ascending addresses, the rules filed for an address are, for every rule of
  the interpreter's row that a symbol file can express, the text of that rule.
\<close>

section \<open>The rules of an entry at an address\<close>

text \<open>What a reader of the symbol file makes of an entry: the initial rules, overridden by the changes up to the address.\<close>

definition rules_at :: "StackFrameEntry \<Rightarrow> u64 \<Rightarrow> string \<Rightarrow> string option" where
  "rules_at e a = fold (\<lambda>p m. m ++ map_of (snd p)) (filter (\<lambda>p. fst p \<le> a) (rule_changes e)) (map_of (initial_rules e))"

text \<open>All that is filed belongs to addresses from the start of the entry to the given one.\<close>

definition filed_up_to :: "u64 \<Rightarrow> StackFrameEntry \<Rightarrow> bool" where
  "filed_up_to a e \<longleftrightarrow> entry_ok e \<and> se_address e \<le> a \<and> (\<forall>p\<in>set (rule_changes e). se_address e < fst p \<and> fst p \<le> a)"

lemma rules_at_later: "filed_up_to a e \<Longrightarrow> a \<le> b \<Longrightarrow> rules_at e b = rules_at e a"
proof -
  assume "filed_up_to a e" "a \<le> b"
  then have "filter (\<lambda>p. fst p \<le> b) (rule_changes e) = filter (\<lambda>p. fst p \<le> a) (rule_changes e)"
    by (intro filter_cong) (auto simp: filed_up_to_def)
  then show ?thesis
    by (simp add: rules_at_def)
qed

lemma om_assign_snoc: "om_sorted (m @ [(k, old)]) \<Longrightarrow> om_assign k v (m @ [(k, old)]) = m @ [(k, v)]"
  by (induction m) auto

lemma fold_override: "fold (\<lambda>p m. m ++ map_of (snd p)) ps (m0 :: string \<rightharpoonup> string) = m0 ++ fold (\<lambda>p m. m ++ map_of (snd p)) ps Map.empty"
proof (induction ps arbitrary: m0)
  case (Cons p ps)
  show ?case
    using Cons [of "m0 ++ map_of (snd p)"] Cons [of "map_of (snd p)"] by (simp add: map_add_assoc)
qed simp

text \<open>Recording a rule at the last address sets exactly that rule, there and later, and nothing before.\<close>

lemma rules_at_record:
  assumes "filed_up_to a e"
  shows "rules_at (record_rule a name t e) a = (rules_at e a)(name \<mapsto> t)"
    and "se_address e \<le> b \<Longrightarrow> b < a \<Longrightarrow> rules_at (record_rule a name t e) b = rules_at e b"
    and "filed_up_to a (record_rule a name t e)"
proof -
  have ok: "entry_ok e" "om_sorted (rule_changes e)" "om_sorted (initial_rules e)"
      and le: "\<And>p. p \<in> set (rule_changes e) \<Longrightarrow> se_address e < fst p \<and> fst p \<le> a"
      and start: "se_address e \<le> a"
    using assms by (auto simp: filed_up_to_def entry_ok_def)
  show "filed_up_to a (record_rule a name t e)"
  proof -
    have "\<forall>p\<in>set (om_assign a rules (rule_changes e)). se_address e < fst p \<and> fst p \<le> a" if "a \<noteq> se_address e" for rules
      by (rule om_assign_all) (use le start that in \<open>auto simp: less_le\<close>)
    then show ?thesis
      using record_rule_ok [OF ok(1), of a name t] le start by (auto simp: filed_up_to_def record_rule_def)
  qed
  show "rules_at (record_rule a name t e) a = (rules_at e a)(name \<mapsto> t)"
  proof (cases "a = se_address e")
    case True
    then have "rule_changes e = []"
      using le by (cases "rule_changes e") (force dest: leD)+
    with True show ?thesis
      by (simp add: rules_at_def record_rule_def om_assign_map_of [OF ok(3)])
  next
    case False
    show ?thesis
    proof (cases "\<exists>m old. rule_changes e = m @ [(a, old)]")
      case True
      then obtain m old where m: "rule_changes e = m @ [(a, old)]"
        by blast
      have "(a, old) \<in> set (rule_changes e)"
        by (simp add: m)
      then have old: "om_lookup (rule_changes e) a = Some old" "om_sorted old"
        using ok(1) by (auto simp: om_lookup_eq [OF ok(2)] om_sorted_map_of [OF ok(2)] entry_ok_def)
      have "fst p \<le> a" if "p \<in> set m" for p
        using le [of p] m that by simp
      then have f: "filter (\<lambda>p. fst p \<le> a) m = m"
        by (simp add: filter_id_conv)
      have "om_assign a (om_assign name t old) (m @ [(a, old)]) = m @ [(a, om_assign name t old)]"
        by (rule om_assign_snoc) (use ok(2) m in simp)
      then show ?thesis
        using False old f by (simp add: rules_at_def record_rule_def m om_assign_map_of)
    next
      case new: False
      have lt: "\<forall>q\<in>set (rule_changes e). fst q < a"
      proof (cases "rule_changes e" rule: rev_cases)
        case (snoc m kv)
        then have k: "fst kv \<noteq> a" "fst kv \<le> a" "\<forall>q\<in>set m. fst q < fst kv"
          using new le [of kv] ok(2) by (cases kv; auto simp: om_sorted_append)+
        then show ?thesis
          using snoc by (auto intro: less_le_trans)
      qed simp
      then have "om_lookup (rule_changes e) a = None"
        by (auto simp: om_lookup_eq [OF ok(2)] map_of_eq_None_iff)
      moreover have "filter (\<lambda>p. fst p \<le> a) (rule_changes e) = rule_changes e"
        using le by (simp add: filter_id_conv)
      ultimately show ?thesis
        using False by (simp add: rules_at_def record_rule_def om_assign_last [OF lt])
    qed
  qed
  assume b: "se_address e \<le> b" "b < a"
  have "filter (\<lambda>p. fst p \<le> b) (om_assign a v m) = filter (\<lambda>p. fst p \<le> b) m" for v and m :: "(u64, (string, string) omap) omap"
    using b(2) by (induction a v m rule: om_assign.induct) auto
  then show "rules_at (record_rule a name t e) b = rules_at e b"
    using b by (auto simp: rules_at_def record_rule_def)
qed

section \<open>The handler between two addresses\<close>

definition handler_at :: "u64 \<Rightarrow> CFIToModule \<Rightarrow> (string \<rightharpoonup> string) \<Rightarrow> bool" where
  "handler_at a h row \<longleftrightarrow> (\<exists>e. cm_entry h = Some e \<and> filed_up_to a e \<and> rules_at e a = row)"

definition past_kept :: "u64 \<Rightarrow> CFIToModule \<Rightarrow> CFIToModule \<Rightarrow> bool" where
  "past_kept a h h' \<longleftrightarrow> cm_names h' = cm_names h \<and> cm_return_address h' = cm_return_address h \<and>
     (\<forall>e. cm_entry h = Some e \<longrightarrow> (\<exists>e'. cm_entry h' = Some e' \<and> se_address e' = se_address e \<and>
       (\<forall>b. se_address e \<le> b \<longrightarrow> b < a \<longrightarrow> rules_at e' b = rules_at e b)))"

lemma past_kept_refl [simp]: "past_kept a h h"
  by (simp add: past_kept_def)

lemma past_kept_trans:
  assumes "past_kept a h h1" "past_kept b h1 h2" "a \<le> b"
  shows "past_kept a h h2"
  unfolding past_kept_def
proof (intro conjI allI impI)
  fix e
  assume "cm_entry h = Some e"
  then obtain e1 where e1: "cm_entry h1 = Some e1" "se_address e1 = se_address e"
      "\<forall>x. se_address e \<le> x \<longrightarrow> x < a \<longrightarrow> rules_at e1 x = rules_at e x"
    using assms(1) by (auto simp: past_kept_def)
  then obtain e2 where "cm_entry h2 = Some e2" "se_address e2 = se_address e1"
      "\<forall>x. se_address e1 \<le> x \<longrightarrow> x < b \<longrightarrow> rules_at e2 x = rules_at e1 x"
    using assms(2) by (auto simp: past_kept_def)
  with e1 assms(3) show "\<exists>e'. cm_entry h2 = Some e' \<and> se_address e' = se_address e \<and>
      (\<forall>x. se_address e \<le> x \<longrightarrow> x < a \<longrightarrow> rules_at e' x = rules_at e x)"
    by (auto dest: less_le_trans)
qed (use assms in \<open>simp_all add: past_kept_def\<close>)

definition put_rule :: "CFIToModule \<Rightarrow> int \<Rightarrow> CFI_Rule \<Rightarrow> (string \<rightharpoonup> string) \<Rightarrow> (string \<rightharpoonup> string)" where
  "put_rule h reg rule row = (case dwarf_text (cm_names h) (cm_return_address h) reg rule of
       None \<Rightarrow> row
     | Some t \<Rightarrow> row(dwarf_name (cm_names h) (cm_return_address h) reg \<mapsto> t))"

lemma handle_files:
  assumes "handler_at a h row" "Rule_Handle cm_handler a reg rule h = Some (h', ok)"
  shows "ok" "handler_at a h' (put_rule h reg rule row)" "past_kept a h h'"
proof -
  obtain e where e: "cm_entry h = Some e" "filed_up_to a e" "rules_at e a = row"
    using assms(1) by (auto simp: handler_at_def)
  note h' = Rule_Handle_module [OF assms(2)]
  then show "ok" by simp
  obtain r where r: "h' = h\<lparr>cm_reports := r, cm_entry := filed h a reg rule\<rparr>"
    using h' by blast
  show "handler_at a h' (put_rule h reg rule row)"
    using e rules_at_record(1,3) [OF e(2)]
    by (auto simp: handler_at_def r filed_def put_rule_def split: option.splits)
  have "se_address (record_rule a n t e) = se_address e" for n t
    by (simp add: record_rule_def)
  then show "past_kept a h h'"
    using e rules_at_record(2) [OF e(2)] by (auto simp: past_kept_def r filed_def split: option.splits)
qed

section \<open>Names\<close>

abbreviation registers :: "int set" where
  "registers \<equiv> {- 1..<2 ^ 31}"

definition names_ok :: "string list \<Rightarrow> u32 \<Rightarrow> bool" where
  "names_ok names ra \<longleftrightarrow> inj_on (dwarf_name names ra) registers"

abbreviation name_of :: "CFIToModule \<Rightarrow> int \<Rightarrow> string" where
  "name_of h \<equiv> dwarf_name (cm_names h) (cm_return_address h)"

text \<open>A list of rules is in a row, as far as the rules have a text.\<close>

definition in_row :: "CFIToModule \<Rightarrow> (string \<rightharpoonup> string) \<Rightarrow> int \<times> CFI_Rule \<Rightarrow> bool" where
  "in_row h row r \<longleftrightarrow> (\<forall>t. dwarf_text (cm_names h) (cm_return_address h) (fst r) (snd r) = Some t \<longrightarrow> row (name_of h (fst r)) = Some t)"

lemma in_row_put: "in_row h (put_rule h reg rule row) (reg, rule)"
  by (auto simp: in_row_def put_rule_def)

lemma in_row_put_other:
  assumes "names_ok (cm_names h) (cm_return_address h)" "reg \<in> registers" "fst r \<in> registers" "fst r \<noteq> reg" "in_row h row r"
  shows "in_row h (put_rule h reg rule row) r"
proof -
  have "name_of h (fst r) \<noteq> name_of h reg"
    using assms(1-4) by (auto simp: names_ok_def inj_on_def)
  then show ?thesis
    using assms(5) by (auto simp: in_row_def put_rule_def split: option.splits)
qed

lemma in_row_cong: "past_kept a h h' \<Longrightarrow> in_row h' = in_row h"
  by (auto simp: in_row_def fun_eq_iff past_kept_def)

lemma put_rule_other: "n \<noteq> name_of h reg \<Longrightarrow> put_rule h reg rule row n = row n"
  by (auto simp: put_rule_def split: option.splits)

lemma transition_registers_files:
  assumes "transition_registers cm_handler a olds news h = Some (h', ok)" "handler_at a h row"
    "names_ok (cm_names h) (cm_return_address h)" "om_sorted olds" "om_sorted news"
    "\<forall>r\<in>set olds. fst r \<in> registers \<and> in_row h row r"
  shows "ok \<and> past_kept a h h' \<and> (\<exists>row'. handler_at a h' row' \<and> (\<forall>r\<in>set news. in_row h row' r) \<and>
    (\<forall>n. n \<notin> name_of h ` fst ` set olds \<longrightarrow> row' n = row n))"
  using assms
proof (induction olds arbitrary: news h row)
  case Nil
  then show ?case
    by (cases news) auto
next
  case (Cons old olds)
  have o: "fst old \<in> registers" "in_row h row old"
    using Cons.prems(6) by auto
  have own: "name_of h (fst old) \<notin> name_of h ` fst ` set olds"
  proof
    assume "name_of h (fst old) \<in> name_of h ` fst ` set olds"
    then obtain r where r: "r \<in> set olds" "name_of h (fst old) = name_of h (fst r)"
      by auto
    then have "fst old = fst r"
      using Cons.prems(3,6) o(1) by (auto simp: names_ok_def inj_on_def)
    then show False
      using r(1) Cons.prems(4) by auto
  qed
  text \<open>One rule is handled, then the rest.\<close>
  have step: ?case
    if handle: "Rule_Handle cm_handler a (fst old) rule h = Some (h1, ok1)"
      and rest: "transition_registers cm_handler a olds rest h1 = Some (h', ok)"
      and news: "om_sorted rest" "\<And>r. r \<in> set news \<Longrightarrow> r \<in> set rest \<or> r = (fst old, rule)" for rule h1 ok1 rest
  proof -
    note f = handle_files [OF Cons.prems(2) handle]
    have same: "cm_names h1 = cm_names h" "cm_return_address h1 = cm_return_address h"
      using f(3) by (simp_all add: past_kept_def)
    have "fst r \<in> registers \<and> in_row h1 (put_rule h (fst old) rule row) r" if "r \<in> set olds" for r
    proof -
      have "fst r \<noteq> fst old"
        using Cons.prems(4) that by auto
      then show ?thesis
        using in_row_put_other [OF Cons.prems(3) o(1), of r row rule] Cons.prems(6) that in_row_cong [OF f(3)] by auto
    qed
    with Cons.IH [OF rest f(2)] Cons.prems(3,4) news(1) same
    obtain row' where ih: "ok" "past_kept a h1 h'" "handler_at a h' row'" "\<forall>r\<in>set rest. in_row h row' r"
        "\<forall>n. n \<notin> name_of h ` fst ` set olds \<longrightarrow> row' n = put_rule h (fst old) rule row n"
      using in_row_cong [OF f(3)] by auto
    have "in_row h row' (fst old, rule)"
      using in_row_put [of h "fst old" rule row] ih(5) own by (auto simp: in_row_def)
    then have "\<forall>r\<in>set news. in_row h row' r"
      using news(2) ih(4) by blast
    moreover have "row' n = row n" if "n \<notin> name_of h ` fst ` set (old # olds)" for n
      using that ih(5) put_rule_other [of n h "fst old" rule row] by auto
    ultimately show ?thesis
      using ih(1-3) past_kept_trans [OF f(3) ih(2)] by auto
  qed
  show ?case
  proof (cases news)
    case Nil
    then obtain h1 ok1 where h: "Rule_Handle cm_handler a (fst old) SameValueRule h = Some (h1, ok1)"
      using Cons.prems(1) by (auto simp: go_on_def split: option.splits)
    then show ?thesis
      using step [OF h, of "[]"] handle_files(1) [OF Cons.prems(2) h] Cons.prems(1) Nil by (simp add: go_on_def)
  next
    case news: (Cons new news')
    consider "fst old < fst new" | "fst old = fst new" "snd old = snd new" | "fst old = fst new" "snd old \<noteq> snd new"
      using Cons.prems(1) news by (cases "fst old < fst new"; cases "fst new < fst old") auto
    then show ?thesis
    proof cases
      case 1
      then obtain h1 ok1 where h: "Rule_Handle cm_handler a (fst old) SameValueRule h = Some (h1, ok1)"
        using Cons.prems(1) news by (auto simp: go_on_def split: option.splits)
      then show ?thesis
        using step [OF h, of news] handle_files(1) [OF Cons.prems(2) h] Cons.prems(1,5) news 1 by (simp add: go_on_def)
    next
      case 3
      then obtain h1 ok1 where h: "Rule_Handle cm_handler a (fst old) (snd new) h = Some (h1, ok1)"
        using Cons.prems(1) news by (auto simp: go_on_def split: option.splits)
      have "om_sorted news'"
        using Cons.prems(5) news by simp
      moreover have "r \<in> set news' \<or> r = (fst old, snd new)" if "r \<in> set news" for r
        using that news 3(1) by auto
      moreover have "transition_registers cm_handler a olds news' h1 = Some (h', ok)"
        using handle_files(1) [OF Cons.prems(2) h] Cons.prems(1) news h 3 by (simp add: go_on_def)
      ultimately show ?thesis
        using step [OF h, of news'] by blast
    next
      case 2
      then have new: "new = old"
        by (simp add: prod_eq_iff)
      have "transition_registers cm_handler a olds news' h = Some (h', ok)"
        using Cons.prems(1) news new by simp
      from Cons.IH [OF this Cons.prems(2,3)] Cons.prems(4-6) news new
      obtain row' where ih: "ok" "past_kept a h h'" "handler_at a h' row'" "\<forall>r\<in>set news'. in_row h row' r"
          "\<forall>n. n \<notin> name_of h ` fst ` set olds \<longrightarrow> row' n = row n"
        by auto
      moreover have "in_row h row' old"
        using o(2) ih(5) own by (auto simp: in_row_def)
      ultimately show ?thesis
        using news new by auto
    qed
  qed
qed


section \<open>The rows of the interpreter\<close>

text \<open>The rules of a row, with the one for the CFA under its number.\<close>

definition all_rules :: "CFI_Rules \<Rightarrow> (int \<times> CFI_Rule) list" where
  "all_rules m = (case cfa_of m of None \<Rightarrow> [] | Some rule \<Rightarrow> [(kCFARegister, rule)]) @ regs_of m"

definition rules_ok :: "CFI_Rules \<Rightarrow> bool" where
  "rules_ok m \<longleftrightarrow> om_sorted (regs_of m) \<and> (\<forall>r\<in>set (regs_of m). 0 \<le> fst r \<and> fst r < 2 ^ 31)"

lemma all_rules_registers: "rules_ok m \<Longrightarrow> r \<in> set (all_rules m) \<Longrightarrow> fst r \<in> registers"
  by (auto simp: all_rules_def rules_ok_def split: option.splits)

lemma HandleTransitionTo_files:
  assumes "HandleTransitionTo cm_handler a old new h = Some (h', ok)" "handler_at a h row"
    "names_ok (cm_names h) (cm_return_address h)" "rules_ok old" "rules_ok new"
    "\<forall>r\<in>set (all_rules old). in_row h row r" "cfa_of new = None \<Longrightarrow> cfa_of old = None"
  shows "past_kept a h h' \<and> (\<exists>row'. handler_at a h' row' \<and> (\<forall>r\<in>set (all_rules new). in_row h' row' r))"
proof -
  obtain h1 ok1 where t: "transition_cfa cm_handler a (cfa_of old) (cfa_of new) h = Some (h1, ok1)"
    using assms(1) by (auto simp: HandleTransitionTo_def go_on_def split: option.splits)
  have old_regs: "fst r \<in> registers" "fst r \<noteq> kCFARegister" "in_row h row r" if "r \<in> set (regs_of old)" for r
    using that assms(4,6) by (auto simp: rules_ok_def all_rules_def)
  text \<open>The rule for the CFA.\<close>
  obtain row1 where r1: "ok1" "past_kept a h h1" "handler_at a h1 row1"
      "\<forall>r\<in>set (regs_of old). in_row h row1 r" "\<forall>c. cfa_of new = Some c \<longrightarrow> in_row h row1 (kCFARegister, c)"
  proof (cases "cfa_of new")
    case None
    then have "h1 = h" "ok1"
      using t assms(7) by (auto simp: transition_cfa_def split: option.splits)
    then show thesis
      using that [of row] None assms(2) old_regs(3) by simp
  next
    case (Some c)
    then obtain c0 where c0: "cfa_of old = Some c0"
      using t by (auto simp: transition_cfa_def split: option.splits)
    show thesis
    proof (cases "c0 = c")
      case True
      then have "h1 = h" "ok1"
        using t Some c0 by (auto simp: transition_cfa_def)
      then show thesis
        using that [of row] Some c0 True assms(2,6) old_regs(3) by (simp add: all_rules_def)
    next
      case False
      then have f: "Rule_Handle cm_handler a kCFARegister c h = Some (h1, ok1)"
        using t Some c0 by (auto simp: transition_cfa_def)
      show thesis
        using that [of "put_rule h kCFARegister c row"] handle_files [OF assms(2) f] Some in_row_put
          in_row_put_other [OF assms(3), of kCFARegister _ row c] old_regs by auto
    qed
  qed
  have same: "in_row h1 = in_row h" "cm_names h1 = cm_names h" "cm_return_address h1 = cm_return_address h"
    using r1(2) in_row_cong by (auto simp: past_kept_def)
  have tr: "transition_registers cm_handler a (regs_of old) (regs_of new) h1 = Some (h', ok)"
    using assms(1) t r1(1) by (simp add: HandleTransitionTo_def go_on_def)
  obtain row' where r': "past_kept a h1 h'" "handler_at a h' row'" "\<forall>r\<in>set (regs_of new). in_row h row' r"
      "\<forall>n. n \<notin> name_of h ` fst ` set (regs_of old) \<longrightarrow> row' n = row1 n"
    using transition_registers_files [OF tr r1(3)] assms(3-5) r1(4) old_regs(1) same by (auto simp: rules_ok_def)
  have "name_of h kCFARegister \<notin> name_of h ` fst ` set (regs_of old)"
  proof
    assume "name_of h kCFARegister \<in> name_of h ` fst ` set (regs_of old)"
    then obtain r where r: "r \<in> set (regs_of old)" "name_of h kCFARegister = name_of h (fst r)"
      by auto
    then have "kCFARegister = fst r"
      using assms(3) old_regs(1) [OF r(1)] unfolding names_ok_def by (auto dest: inj_onD)
    then show False
      using old_regs(2) [OF r(1)] by simp
  qed
  then have "\<forall>r\<in>set (all_rules new). in_row h row' r"
    using r'(3,4) r1(5) by (cases "cfa_of new") (auto simp: all_rules_def in_row_def)
  moreover have p: "past_kept a h h'"
    using past_kept_trans [OF r1(2) r'(1)] by simp
  ultimately show ?thesis
    using r'(2) in_row_cong [OF p] by auto
qed

text \<open>The invariant between instructions: the handler has filed the row of the interpreter.\<close>

definition translated :: "CFIToModule CFI_State \<Rightarrow> bool" where
  "translated s \<longleftrightarrow> names_ok (cm_names (st_handler s)) (cm_return_address (st_handler s)) \<and>
     (\<forall>m\<in>set (st_rules s # st_cie_rules s # st_saved s). rules_ok m) \<and>
     (\<exists>row. handler_at (st_address s) (st_handler s) row \<and> (\<forall>r\<in>set (all_rules (st_rules s)). in_row (st_handler s) row r))"


lemma translatedD:
  assumes "translated s"
  shows "\<exists>row. names_ok (cm_names (st_handler s)) (cm_return_address (st_handler s)) \<and> rules_ok (st_rules s) \<and>
    rules_ok (st_cie_rules s) \<and> (\<forall>m\<in>set (st_saved s). rules_ok m) \<and> handler_at (st_address s) (st_handler s) row \<and>
    (\<forall>r\<in>set (all_rules (st_rules s)). in_row (st_handler s) row r)"
  using assms by (simp add: translated_def)

lemma handler_at_later: "handler_at a h row \<Longrightarrow> a \<le> b \<Longrightarrow> handler_at b h row"
  unfolding handler_at_def filed_up_to_def using rules_at_later by (fastforce simp: filed_up_to_def)

text \<open>A rule that is set is filed.\<close>

lemma translated_rule:
  assumes "translated s" "DoRule env reg rule s = Some (s', ok)" "ev_handler env = cm_handler"
  shows "ok \<and> translated s' \<and> past_kept (st_address s) (st_handler s) (st_handler s') \<and> st_address s' = st_address s"
proof -
  from translatedD [OF assms(1)] obtain row where t: "names_ok (cm_names (st_handler s)) (cm_return_address (st_handler s))" "rules_ok (st_rules s)"
    "rules_ok (st_cie_rules s)" "\<forall>m\<in>set (st_saved s). rules_ok m"
    "handler_at (st_address s) (st_handler s) row" "\<forall>r\<in>set (all_rules (st_rules s)). in_row (st_handler s) row r"
    by (elim exE conjE) (rule that)
  obtain h' where h': "Rule_Handle cm_handler (st_address s) (sint reg) rule (st_handler s) = Some (h', ok)" "sint reg \<noteq> kCFARegister"
      "s' = s\<lparr>st_rules := (st_rules s)\<lparr>regs_of := om_assign (sint reg) rule (regs_of (st_rules s))\<rparr>, st_handler := h'\<rparr>"
    using assms(2,3) by (auto simp: DoRule_def RuleMap_SetRegisterRule_def call_handler_def split: if_splits)
  note f = handle_files [OF t(5) h'(1)]
  have "sint reg < 2 ^ 31"
    using sint_less [of reg] by simp
  then have reg: "0 \<le> sint reg" "sint reg < 2 ^ 31"
    using h'(2) Rule_Handle_module [OF h'(1)] by auto
  have sorted: "om_sorted (regs_of (st_rules s))"
    using t(2) by (simp add: rules_ok_def)
  let ?row = "put_rule (st_handler s) (sint reg) rule row"
  have "in_row (st_handler s) ?row r" if "r \<in> set (all_rules (st_rules s'))" for r
  proof (cases "fst r = sint reg")
    case True
    then have "r = (sint reg, rule)"
      using that h'(3) reg by (auto simp: all_rules_def set_om_assign [OF sorted] split: option.splits)
    then show ?thesis
      using in_row_put by simp
  next
    case False
    then have "r \<in> set (all_rules (st_rules s))"
      using that h'(3) by (auto simp: all_rules_def set_om_assign [OF sorted])
    then show ?thesis
      using in_row_put_other [OF t(1), of "sint reg" r] all_rules_registers [OF t(2)] t(6) False reg by auto
  qed
  moreover have "rules_ok (st_rules s')"
    using t(2) reg h'(3) by (auto simp: rules_ok_def om_sorted_assign set_om_assign)
  ultimately show ?thesis
    using f t(1,3,4) h'(3) in_row_cong [OF f(3)] by (auto simp: translated_def past_kept_def)
qed


lemma translated_cfa:
  assumes "translated s" "ev_handler env = cm_handler"
    "call_handler (Rule_Handle (ev_handler env) (st_address s) kCFARegister rule)
      (s\<lparr>st_rules := RuleMap_SetCFARule rule (st_rules s)\<rparr>) = Some (s', ok)"
  shows "ok \<and> translated s' \<and> past_kept (st_address s) (st_handler s) (st_handler s') \<and> st_address s' = st_address s"
proof -
  from translatedD [OF assms(1)] obtain row where t: "names_ok (cm_names (st_handler s)) (cm_return_address (st_handler s))" "rules_ok (st_rules s)"
    "rules_ok (st_cie_rules s)" "\<forall>m\<in>set (st_saved s). rules_ok m"
    "handler_at (st_address s) (st_handler s) row" "\<forall>r\<in>set (all_rules (st_rules s)). in_row (st_handler s) row r"
    by (elim exE conjE) (rule that)
  obtain h' where h': "Rule_Handle cm_handler (st_address s) kCFARegister rule (st_handler s) = Some (h', ok)"
      "s' = s\<lparr>st_rules := (st_rules s)\<lparr>cfa_of := Some rule\<rparr>, st_handler := h'\<rparr>"
    using assms(2,3) by (auto simp: call_handler_def RuleMap_SetCFARule_def)
  note f = handle_files [OF t(5) h'(1)]
  let ?row = "put_rule (st_handler s) kCFARegister rule row"
  have "in_row (st_handler s) ?row r" if r: "r \<in> set (all_rules (st_rules s'))" for r
  proof (cases "r \<in> set (regs_of (st_rules s))")
    case True
    then have "r \<in> set (all_rules (st_rules s))" "fst r \<noteq> kCFARegister"
      using t(2) by (auto simp: all_rules_def rules_ok_def)
    then show ?thesis
      using in_row_put_other [OF t(1), of kCFARegister r] all_rules_registers [OF t(2)] t(6) by auto
  next
    case False
    then have "r = (kCFARegister, rule)"
      using r h'(2) by (simp add: all_rules_def)
    then show ?thesis
      using in_row_put by simp
  qed
  moreover have "rules_ok (st_rules s')"
    using t(2) h'(2) by (simp add: rules_ok_def)
  ultimately show ?thesis
    using f t(1,3,4) h'(2) in_row_cong [OF f(3)] by (auto simp: translated_def past_kept_def)
qed

lemma translated_restore:
  assumes "translated s" "ev_handler env = cm_handler" "st_saved s = new_rules # saved"
    "cfa_of new_rules = None \<Longrightarrow> cfa_of (st_rules s) = None"
    "call_handler (HandleTransitionTo (ev_handler env) (st_address s) (st_rules s) new_rules) s = Some (s', ok)"
  shows "translated (s'\<lparr>st_rules := new_rules, st_saved := saved\<rparr>) \<and>
    past_kept (st_address s) (st_handler s) (st_handler s') \<and> st_address s' = st_address s"
proof -
  from translatedD [OF assms(1)] obtain row where t: "names_ok (cm_names (st_handler s)) (cm_return_address (st_handler s))" "rules_ok (st_rules s)"
    "rules_ok (st_cie_rules s)" "\<forall>m\<in>set (st_saved s). rules_ok m"
    "handler_at (st_address s) (st_handler s) row" "\<forall>r\<in>set (all_rules (st_rules s)). in_row (st_handler s) row r"
    by (elim exE conjE) (rule that)
  obtain h' where h': "HandleTransitionTo cm_handler (st_address s) (st_rules s) new_rules (st_handler s) = Some (h', ok)"
      "s' = s\<lparr>st_handler := h'\<rparr>"
    using assms(2,5) by (auto simp: call_handler_def)
  have "rules_ok new_rules"
    using t(4) assms(3) by simp
  from HandleTransitionTo_files [OF h'(1) t(5,1,2) this _ assms(4)] t(6)
  obtain row' where f: "past_kept (st_address s) (st_handler s) h'" "handler_at (st_address s) h' row'"
      "\<forall>r\<in>set (all_rules new_rules). in_row h' row' r"
    by blast
  then show ?thesis
    using t(1,3,4) h'(2) assms(3) by (auto simp: translated_def past_kept_def)
qed

text \<open>Every instruction that succeeds and does not go back keeps the invariant and what is filed in front of it.\<close>

lemma translated_step:
  assumes "cfi_step env s s' ok" "ev_handler env = cm_handler" "translated s" "st_address s \<le> st_address s'" "ok"
  shows "translated s' \<and> past_kept (st_address s) (st_handler s) (st_handler s')"
  using assms
proof (induction rule: cfi_step.induct)
  case (step_location s address)
  then show ?case
    using handler_at_later by (fastforce simp: translated_def)
next
  case (step_rule reg rule s s' ok)
  then show ?case
    using translated_rule by blast
next
  case (step_cfa s rule s' ok)
  then show ?case
    using translated_cfa by blast
next
  case (step_restore s new_rules saved s' ok)
  then show ?case
    using translated_restore [OF step_restore.prems(2,1) step_restore.hyps] by simp
next
  case (step_seq reg rule s s1 s2 ok)
  note r = translated_rule [OF step_seq.prems(2) step_seq.hyps(1) step_seq.prems(1)]
  have "translated s2 \<and> past_kept (st_address s1) (st_handler s1) (st_handler s2)"
    by (rule step_seq.IH) (use step_seq.prems r in auto)
  with r show ?case
    using past_kept_trans [of "st_address s" "st_handler s" "st_handler s1" "st_address s1" "st_handler s2"] by auto
qed (auto simp: translated_def)


section \<open>Runs\<close>

text \<open>Instructions that succeed, one after the other, at addresses that do not go back.\<close>

inductive cfi_run :: "'h CFI_Env \<Rightarrow> 'h CFI_State \<Rightarrow> 'h CFI_State \<Rightarrow> bool" for env where
  run_refl: "cfi_run env s s"
| run_step: "DoInstruction env s = Some (s1, True) \<Longrightarrow> st_address s \<le> st_address s1 \<Longrightarrow> cfi_run env s1 s2 \<Longrightarrow> cfi_run env s s2"

inductive_cases cfi_runE: "cfi_run env s s2"

lemma cfi_run_trans: "cfi_run env s s1 \<Longrightarrow> cfi_run env s1 s2 \<Longrightarrow> cfi_run env s s2"
  by (induction rule: cfi_run.induct) (auto intro: run_step)

lemma Interpret_run:
  "cfi_run env s s' \<Longrightarrow> e_end (ev_entry env) \<le> st_cursor s' \<Longrightarrow> Interpret env s = Some (s', True)"
proof (induction rule: cfi_run.induct)
  case (run_refl s)
  then show ?case
    by (simp add: Interpret.simps [of env s] leD)
next
  case (run_step s s1 s2)
  then have "st_cursor s < e_end (ev_entry env)"
    using DoInstruction_step by (fastforce dest: less_le_trans)
  with run_step show ?case
    by (simp add: Interpret.simps [of env s])
qed

lemma translated_instruction:
  assumes "DoInstruction env s = Some (s', True)" "ev_handler env = cm_handler" "translated s" "st_address s \<le> st_address s'"
  shows "translated s'" "past_kept (st_address s) (st_handler s) (st_handler s')"
proof -
  obtain c where "cfi_step env (s\<lparr>st_cursor := c\<rparr>) s' True"
    using DoInstruction_step [OF assms(1)] by blast
  moreover have "translated (s\<lparr>st_cursor := c\<rparr>)"
    using assms(3) by (simp add: translated_def)
  ultimately have "translated s' \<and> past_kept (st_address (s\<lparr>st_cursor := c\<rparr>)) (st_handler (s\<lparr>st_cursor := c\<rparr>)) (st_handler s')"
    by (rule translated_step [OF _ assms(2)]) (simp_all add: assms(4))
  then show "translated s'" "past_kept (st_address s) (st_handler s) (st_handler s')"
    by simp_all
qed

lemma translated_run:
  assumes "cfi_run env s s'" "ev_handler env = cm_handler" "translated s"
  shows "translated s' \<and> past_kept (st_address s) (st_handler s) (st_handler s') \<and> st_address s \<le> st_address s'"
  using assms
proof (induction rule: cfi_run.induct)
  case (run_step s s1 s2)
  note t = translated_instruction [OF run_step.hyps(1) run_step.prems run_step.hyps(2)]
  from run_step.IH [OF run_step.prems(1) t(1)] have rest: "translated s2" "past_kept (st_address s1) (st_handler s1) (st_handler s2)"
      "st_address s1 \<le> st_address s2"
    by simp_all
  then show ?case
    using past_kept_trans [OF t(2) rest(2) run_step.hyps(2)] run_step.hyps(2) by simp
qed simp

text \<open>The start of an entry.\<close>

lemma translated_start:
  assumes "cm_Entry offset a len version aug ra h0 = Some (h, ok)" "names_ok (cm_names h0) ra"
  shows "translated ((CFI_State_new a h reports)\<lparr>st_cursor := c\<rparr>)"
    "\<exists>e. cm_entry h = Some e \<and> se_address e = a"
    "cm_names h = cm_names h0" "cm_return_address h = ra" "ok"
proof -
  obtain e where e: "h = h0\<lparr>cm_entry := Some e, cm_entry_offset := offset, cm_return_address := ra\<rparr>" "ok"
      "se_address e = a" "entry_ok e" "rule_changes e = []"
    using assms(1) by (auto simp: cm_Entry_def entry_ok_def Let_def om_sorted_assign split: if_splits)
  then show "translated ((CFI_State_new a h reports)\<lparr>st_cursor := c\<rparr>)"
    using assms(2)
    by (auto simp: translated_def CFI_State_new_def CFI_Rules_new_def rules_ok_def all_rules_def handler_at_def filed_up_to_def)
  show "\<exists>e. cm_entry h = Some e \<and> se_address e = a" "cm_names h = cm_names h0" "cm_return_address h = ra" "ok"
    using e by simp_all
qed

text \<open>What the final entry says of the rules of a state the run has left, or ends with.\<close>

lemma translated_row:
  assumes "translated s" "cm_entry (st_handler s) = Some e" "r \<in> set (all_rules (st_rules s))" "st_address s \<le> b"
    "dwarf_text (cm_names (st_handler s)) (cm_return_address (st_handler s)) (fst r) (snd r) = Some t"
  shows "rules_at e b (name_of (st_handler s) (fst r)) = Some t"
proof -
  from translatedD [OF assms(1)] obtain row where t: "handler_at (st_address s) (st_handler s) row"
      "\<forall>r\<in>set (all_rules (st_rules s)). in_row (st_handler s) row r"
    by (elim exE conjE) (rule that)
  then have "rules_at e b = row"
    using assms(2,4) rules_at_later by (auto simp: handler_at_def)
  then show ?thesis
    using t(2) assms(3,5) by (simp add: in_row_def)
qed


section \<open>Register tables without ambiguous names\<close>

definition table_ok :: "string list \<Rightarrow> bool" where
  "table_ok names \<longleftrightarrow> (let ns = filter (\<lambda>n. n \<noteq> []) names in
     distinct ns \<and> list_all (\<lambda>n. n \<noteq> ''.ra'' \<and> n \<noteq> ''.cfa'' \<and> take 16 n \<noteq> ''unnamed_register'') ns)"

lemma distinct_filter_nth:
  "distinct (filter P xs) \<Longrightarrow> i < length xs \<Longrightarrow> j < length xs \<Longrightarrow> xs ! i = xs ! j \<Longrightarrow> P (xs ! i) \<Longrightarrow> i = j"
proof (induction xs arbitrary: i j)
  case (Cons x xs)
  then show ?case
    by (cases i; cases j) (auto split: if_splits)
qed simp

lemma show_nat_inj: "show_nat m = show_nat n \<Longrightarrow> m = n"
  using digits_val_show_nat by metis

lemma names_ok_table:
  assumes "table_ok names"
  shows "names_ok names ra"
  unfolding names_ok_def
proof (rule inj_onI)
  fix i j
  assume ij: "i \<in> registers" "j \<in> registers" and same: "dwarf_name names ra i = dwarf_name names ra j"
  have d: "distinct (filter (\<lambda>n. n \<noteq> []) names)"
    using assms by (simp add: table_ok_def Let_def)
  define kind where "kind k = (if k < 0 then 0 else if (of_int k :: u32) = ra then 1
      else if nat k < length names \<and> names ! nat k \<noteq> [] then 2 else 3 :: nat)" for k :: int
  have name: "kind k = 0 \<and> dwarf_name names ra k = ''.cfa'' \<or> kind k = 1 \<and> dwarf_name names ra k = ''.ra'' \<or>
      kind k = 2 \<and> dwarf_name names ra k = names ! nat k \<and> nat k < length names \<and> names ! nat k \<noteq> [] \<or>
      kind k = 3 \<and> dwarf_name names ra k = ''unnamed_register'' @ show_nat (nat k)" for k
    by (simp add: kind_def dwarf_name_def)
  have table: "n \<noteq> ''.ra'' \<and> n \<noteq> ''.cfa'' \<and> take 16 n \<noteq> ''unnamed_register''" if "n \<in> set names" "n \<noteq> []" for n
    using assms that by (auto simp: table_ok_def Let_def list_all_iff)
  have "kind k = (if dwarf_name names ra k = ''.cfa'' then 0 else if dwarf_name names ra k = ''.ra'' then 1
      else if take 16 (dwarf_name names ra k) = ''unnamed_register'' then 3 else 2)" for k
    using name [of k]
  proof (elim disjE conjE)
    assume k: "kind k = 2" "dwarf_name names ra k = names ! nat k" "nat k < length names" "names ! nat k \<noteq> []"
    then show ?thesis
      using table [OF nth_mem [OF k(3)] k(4)] by simp
  qed simp_all
  then have kinds: "kind i = kind j"
    using same by simp
  consider "kind i = 0" | "kind i = 1" | "kind i = 2" | "kind i = 3"
    using name [of i] by auto
  then show "i = j"
  proof cases
    case 1
    then show ?thesis
      using kinds ij by (simp add: kind_def split: if_splits)
  next
    case 2
    have ra: "(of_int k :: u32) = ra \<and> 0 \<le> k" if "kind k = 1" for k
      using that by (simp add: kind_def split: if_splits)
    have "(of_int i :: u32) = of_int j" "0 \<le> i" "0 \<le> j"
      using ra [of i] ra [of j] 2 kinds by simp_all
    then have "take_bit 32 i = take_bit 32 j"
      by (simp add: word_of_int_eq_iff)
    moreover have "take_bit 32 k = k" if "0 \<le> k" "k < 2 ^ 31" for k :: int
      using that by (intro take_bit_int_eq_self) simp_all
    ultimately show ?thesis
      using \<open>0 \<le> i\<close> \<open>0 \<le> j\<close> ij by simp
  next
    case 3
    then have "nat i = nat j" "0 \<le> i" "0 \<le> j"
      using kinds name [of i] name [of j] same distinct_filter_nth [OF d, of "nat i" "nat j"]
      by (auto simp: kind_def split: if_splits)
    then show ?thesis
      by simp
  next
    case 4
    then have "nat i = nat j" "0 \<le> i" "0 \<le> j"
      using kinds name [of i] name [of j] same show_nat_inj by (auto simp: kind_def split: if_splits)
    then show ?thesis
      by simp
  qed
qed

lemma register_tables: "table_ok RegisterNames_I386" "table_ok RegisterNames_X86_64" "table_ok RegisterNames_ARM64"
    "table_ok RegisterNames_MIPS" "table_ok RegisterNames_RISCV"
  by (simp_all add: table_ok_def RegisterNames_I386_def RegisterNames_X86_64_def RegisterNames_ARM64_def
      RegisterNames_MIPS_def RegisterNames_RISCV_def)

text \<open>The table for ARM has two numbers for \<open>f0\<close>.\<close>

lemma register_table_ARM: "\<not> names_ok RegisterNames_ARM (- 1)"
proof
  assume "names_ok RegisterNames_ARM (- 1)"
  moreover have "dwarf_name RegisterNames_ARM (- 1) 16 = dwarf_name RegisterNames_ARM (- 1) 96"
    by (simp add: dwarf_name_def RegisterNames_ARM_def)
  ultimately have "(16::int) = 96"
    unfolding names_ok_def by (rule inj_onD) simp_all
  then show False
    by simp
qed

end
