(* ===== verification/Dwarf_CFI_Properties.thy ===== *)
theory Dwarf_CFI_Properties
  imports Dwarf_CFI_Translation
begin

text \<open>
  What the reader of call frame information and the handler that fills a module do together.
\<close>

text \<open>C34. Whatever bytes a call frame section has, if the walk over it returns, the module it fills has
  only well-formed entries (sorted rule maps, changes filed under other addresses than the start) and no
  entry is left open.\<close>

theorem CFI_section_keeps_protocol:
  assumes "CallFrameInfo_Start sec p = Some (p', ok)" "sec_handler sec = cm_handler" "cm_idle (p_handler p)"
  shows "cm_idle (p_handler p')"
  by (rule cfi_module.Start_idle [OF assms])

text \<open>C35. The rows of the call frame table reach the symbol file, for a register table that gives different
  registers different names (as those for x86, AMD64, ARM64, MIPS and RISC-V do; that for ARM does not, and
  there the rules of two registers overwrite each other). An entry is opened, the instructions
  of its CIE run to their end, then those of the FDE, at addresses that do not go back. Then the code
  interprets both to the end, and in the entry it leaves behind, for every row the run has left and every
  address from the start of that row up to the next, each rule of the row that a symbol file can express
  is in force with its text; so is each rule of the last row from its start on.\<close>

theorem rows_are_filed:
  assumes entry: "cm_Entry offset a len version aug ra h0 = Some (h, ok)" and names: "names_ok (cm_names h0) ra"
    and handlers: "ev_handler cie_env = cm_handler" "ev_handler fde_env = cm_handler"
    and cie: "cfi_run cie_env ((CFI_State_new a h reports)\<lparr>st_cursor := e_instructions (ev_entry cie_env)\<rparr>) c"
      "e_end (ev_entry cie_env) \<le> st_cursor c"
    and fde: "cfi_run fde_env (c\<lparr>st_cie_rules := st_rules c, st_cursor := e_instructions (ev_entry fde_env)\<rparr>) s"
      "e_end (ev_entry fde_env) \<le> st_cursor s"
  shows "go_on (InterpretCIE cie_env (CFI_State_new a h reports)) (InterpretFDE fde_env) = Some (s, True) \<and>
    (\<exists>e. cm_entry (st_handler s) = Some e \<and> se_address e = a \<and>
      (\<forall>r t b. r \<in> set (all_rules (st_rules s)) \<longrightarrow> st_address s \<le> b \<longrightarrow> dwarf_text (cm_names h0) ra (fst r) (snd r) = Some t \<longrightarrow>
        rules_at e b (dwarf_name (cm_names h0) ra (fst r)) = Some t) \<and>
      (\<forall>s1 s2 r t b. cfi_run fde_env (c\<lparr>st_cie_rules := st_rules c, st_cursor := e_instructions (ev_entry fde_env)\<rparr>) s1 \<longrightarrow>
        DoInstruction fde_env s1 = Some (s2, True) \<longrightarrow> cfi_run fde_env s2 s \<longrightarrow>
        r \<in> set (all_rules (st_rules s1)) \<longrightarrow> st_address s1 \<le> b \<longrightarrow> b < st_address s2 \<longrightarrow>
        dwarf_text (cm_names h0) ra (fst r) (snd r) = Some t \<longrightarrow>
        rules_at e b (dwarf_name (cm_names h0) ra (fst r)) = Some t))"
proof -
  note start = translated_start [OF entry names]
  let ?s0 = "(CFI_State_new a h reports)\<lparr>st_cursor := e_instructions (ev_entry cie_env)\<rparr>"
    and ?f0 = "c\<lparr>st_cie_rules := st_rules c, st_cursor := e_instructions (ev_entry fde_env)\<rparr>"
  have c: "translated c" "past_kept a h (st_handler c)" "a \<le> st_address c"
    using translated_run [OF cie(1) handlers(1) start(1)] by (simp_all add: CFI_State_new_def)
  then have f0: "translated ?f0"
    by (simp add: translated_def)
  have run: "translated t" "past_kept a h (st_handler t)" "a \<le> st_address t" if "cfi_run fde_env ?f0 t" for t
  proof -
    have "translated t" "past_kept (st_address c) (st_handler c) (st_handler t)" "st_address c \<le> st_address t"
      using translated_run [OF that handlers(2) f0] by simp_all
    then show "translated t" "past_kept a h (st_handler t)" "a \<le> st_address t"
      using past_kept_trans [OF c(2)] c(3) by auto
  qed
  have texts: "cm_names (st_handler t) = cm_names h0" "cm_return_address (st_handler t) = ra"
      "\<exists>e. cm_entry (st_handler t) = Some e \<and> se_address e = a" if "past_kept a h (st_handler t)" for t :: "CFIToModule CFI_State"
    using that start(2-4) by (auto simp: past_kept_def)
  obtain e where e: "cm_entry (st_handler s) = Some e" "se_address e = a"
    using texts(3) [OF run(2) [OF fde(1)]] by blast
  have "InterpretCIE cie_env (CFI_State_new a h reports) = Some (c\<lparr>st_cie_rules := st_rules c\<rparr>, True)"
    using Interpret_run [OF cie] by (simp add: InterpretCIE_def go_on_def)
  moreover have "InterpretFDE fde_env (c\<lparr>st_cie_rules := st_rules c\<rparr>) = Some (s, True)"
    using Interpret_run [OF fde] by (simp add: InterpretFDE_def)
  moreover have "rules_at e b (dwarf_name (cm_names h0) ra (fst r)) = Some t"
    if "r \<in> set (all_rules (st_rules s))" "st_address s \<le> b" "dwarf_text (cm_names h0) ra (fst r) (snd r) = Some t" for r t b
    using translated_row [OF run(1) [OF fde(1)] e(1) that(1,2)] that(3) texts [OF run(2) [OF fde(1)]] by simp
  moreover have "rules_at e b (dwarf_name (cm_names h0) ra (fst r)) = Some t"
    if s1: "cfi_run fde_env ?f0 s1" and s2: "DoInstruction fde_env s1 = Some (s2, True)" "cfi_run fde_env s2 s"
      and r: "r \<in> set (all_rules (st_rules s1))" and b: "st_address s1 \<le> b" "b < st_address s2"
      and t: "dwarf_text (cm_names h0) ra (fst r) (snd r) = Some t" for s1 s2 r t b
  proof -
    obtain e1 where e1: "cm_entry (st_handler s1) = Some e1" "se_address e1 = a"
      using texts(3) [OF run(2) [OF s1]] by blast
    have le: "st_address s1 \<le> st_address s2"
      using b by simp
    note i = translated_instruction [OF s2(1) handlers(2) run(1) [OF s1] le]
    have row: "rules_at e1 b (dwarf_name (cm_names h0) ra (fst r)) = Some t"
      using translated_row [OF run(1) [OF s1] e1(1) r b(1)] t texts [OF run(2) [OF s1]] by simp
    have "past_kept (st_address s2) (st_handler s1) (st_handler s2)"
      using DoInstruction_step [OF s2(1)] cfi_step_moves b by fastforce
    moreover have "past_kept (st_address s2) (st_handler s2) (st_handler s)"
      using translated_run [OF s2(2) handlers(2) i(1)] by simp
    ultimately have "past_kept (st_address s2) (st_handler s1) (st_handler s)"
      by (rule past_kept_trans) simp
    then have "rules_at e b = rules_at e1 b"
      using e e1 b(2) run(3) [OF s1] b(1) by (auto simp: past_kept_def)
    with row show ?thesis
      by simp
  qed
  ultimately show ?thesis
    using e by (auto simp: go_on_def)
qed

section \<open>A small entry\<close>

text \<open>
  An entry at 0x1000 of x86-64 code: the CIE sets the CFA to rsp + 8 and finds the return address
  in front of it; the FDE advances by a byte and sets the CFA to rsp + 16.
\<close>

lemma uleb_byte: "mem a AND 0x80 = 0 \<Longrightarrow> ReadUnsignedLEB128 mem a = Some (ucast (mem a AND 0x7f), 1)"
  by (simp add: ReadUnsignedLEB128_def read_uleb.simps [of mem a])

definition demo_env :: "EntryKind \<Rightarrow> u64 \<Rightarrow> u8 list \<Rightarrow> CFIToModule CFI_Env" where
  "demo_env kind a code = \<lparr>ev_mem = (\<lambda>x. if unat (x - a) < length code then code ! unat (x - a) else 0),
     ev_reader = ByteReader_new ENDIANNESS_LITTLE, ev_handler = cm_handler,
     ev_entry = blank_Entry\<lparr>e_kind := kind, e_instructions := a, e_end := a + of_nat (length code)\<rparr>,
     ev_cie = blank_CIE\<lparr>code_alignment_factor := 1, data_alignment_factor := - 8\<rparr>, ev_uninit = 0\<rparr>"

definition demo_handler :: "(u64, (string, string) omap) omap \<Rightarrow> (string, string) omap \<Rightarrow> CFIToModule" where
  "demo_handler changes initial = (CFIToModule_new (DumpModule_new ''a'' ''Linux'' ''x86_64'' ''0'' '''' False False) RegisterNames_X86_64)
     \<lparr>cm_entry := Some \<lparr>se_address = 0x1000, se_size = 0x20, initial_rules = initial, rule_changes = changes\<rparr>,
      cm_return_address := 16\<rparr>"

lemmas demo_simps = demo_env_def demo_handler_def blank_Entry_def blank_CIE_def cm_handler_def CFIToModule_new_def
  CFI_Entry.extend_def CIE.fields_def RegisterNames_X86_64_def DoInstruction_def do_primary_def do_location_def do_cfa_def
  do_register_def do_state_def with_operands_def parse_operand_def Operands_new_def uleb_byte DoDefCFA_def DoDefCFAOffset_def
  RuleMap_SetCFARule_def DoOffset_def DoRule_def RuleMap_SetRegisterRule_def scaled_def advance_def call_handler_def
  cm_OffsetRule_def cm_ValOffsetRule_def cm_RegisterName_def cm_Record_def record_rule_def show_int_def show_nat.simps
  CFI_State_new_def CFI_Rules_new_def char_of_def bit_Suc_0_iff om_lookup_def om_find_def

definition demo_state :: "(u64, (string, string) omap) omap \<Rightarrow> (string, string) omap \<Rightarrow> u64 \<Rightarrow> u64 \<Rightarrow> CFI_Rules \<Rightarrow> CFI_Rules \<Rightarrow>
    CFIToModule CFI_State" where
  "demo_state changes initial address cursor rules cie_rules = (CFI_State_new address (demo_handler changes initial) [])
     \<lparr>st_cursor := cursor, st_rules := rules, st_cie_rules := cie_rules\<rparr>"

abbreviation "demo_cie \<equiv> demo_env kCIE 64 [0x0c, 7, 8, 0x90, 1]"
abbreviation "demo_fde \<equiv> demo_env kFDE 128 [0x41, 0x0e, 16]"
abbreviation "demo_row cfa \<equiv> \<lparr>cfa_of = Some (ValOffsetRule 7 cfa), regs_of = [(16, OffsetRule (- 1) (- 8))]\<rparr>"
abbreviation "demo_initial \<equiv> [(''.cfa'', ''$rsp 8 +''), (''.ra'', ''.cfa -8 + ^'')]"
abbreviation "demo_end \<equiv> demo_state [(0x1001, [(''.cfa'', ''$rsp 16 +'')])] demo_initial 0x1001 131 (demo_row 16) (demo_row 8)"

lemma demo_cie_1: "DoInstruction demo_cie (demo_state [] [(''.ra'', ''$rip'')] 0x1000 64 CFI_Rules_new CFI_Rules_new) =
    Some (demo_state [] [(''.cfa'', ''$rsp 8 +''), (''.ra'', ''$rip'')] 0x1000 67
      \<lparr>cfa_of = Some (ValOffsetRule 7 8), regs_of = []\<rparr> CFI_Rules_new, True)"
  by (simp add: demo_simps demo_state_def)

lemma demo_cie_2: "DoInstruction demo_cie (demo_state [] [(''.cfa'', ''$rsp 8 +''), (''.ra'', ''$rip'')] 0x1000 67
      \<lparr>cfa_of = Some (ValOffsetRule 7 8), regs_of = []\<rparr> CFI_Rules_new) =
    Some (demo_state [] demo_initial 0x1000 69 (demo_row 8) CFI_Rules_new, True)"
  by (simp add: demo_simps demo_state_def)

lemma demo_fde_1: "DoInstruction demo_fde (demo_state [] demo_initial 0x1000 128 (demo_row 8) (demo_row 8)) =
    Some (demo_state [] demo_initial 0x1001 129 (demo_row 8) (demo_row 8), True)"
  by (simp add: demo_simps demo_state_def)

lemma demo_fde_2: "DoInstruction demo_fde (demo_state [] demo_initial 0x1001 129 (demo_row 8) (demo_row 8)) = Some (demo_end, True)"
  by (simp add: demo_simps demo_state_def)

lemma demo_state_address: "st_address (demo_state changes initial address cursor rules cie_rules) = address"
  by (simp add: demo_state_def CFI_State_new_def)

lemma demo_cie_run: "cfi_run demo_cie (demo_state [] [(''.ra'', ''$rip'')] 0x1000 64 CFI_Rules_new CFI_Rules_new)
    (demo_state [] demo_initial 0x1000 69 (demo_row 8) CFI_Rules_new)"
  by (rule run_step [OF demo_cie_1 _ run_step [OF demo_cie_2 _ run_refl]]) (simp_all add: demo_state_address)

lemma demo_fde_run: "cfi_run demo_fde (demo_state [] demo_initial 0x1001 129 (demo_row 8) (demo_row 8)) demo_end"
  by (rule run_step [OF demo_fde_2 _ run_refl]) (simp add: demo_state_address)

lemma rows_are_filed_witness:
  "\<exists>e. go_on (InterpretCIE demo_cie (CFI_State_new 0x1000 (demo_handler [] [(''.ra'', ''$rip'')]) [])) (InterpretFDE demo_fde) =
      Some (demo_end, True) \<and> cm_entry (st_handler demo_end) = Some e \<and>
    rules_at e 0x1000 ''.cfa'' = Some ''$rsp 8 +'' \<and> rules_at e 0x1001 ''.cfa'' = Some ''$rsp 16 +''"
proof -
  let ?names = RegisterNames_X86_64 and ?h0 = "(demo_handler [] [])\<lparr>cm_entry := None\<rparr>"
  have names: "cm_names ?h0 = ?names"
    by (simp add: demo_handler_def CFIToModule_new_def)
  have entry: "cm_Entry 0 0x1000 0x20 1 '''' 16 ?h0 = Some (demo_handler [] [(''.ra'', ''$rip'')], True)"
    by (simp add: cm_Entry_def demo_handler_def CFIToModule_new_def RegisterNames_X86_64_def)
  have ok: "names_ok (cm_names ?h0) 16"
    unfolding names by (rule names_ok_table [OF register_tables(2)])
  have handlers: "ev_handler demo_cie = cm_handler" "ev_handler demo_fde = cm_handler"
    by (simp_all add: demo_env_def)
  have starts: "(CFI_State_new 0x1000 (demo_handler [] [(''.ra'', ''$rip'')]) [])\<lparr>st_cursor := e_instructions (ev_entry demo_cie)\<rparr> =
      demo_state [] [(''.ra'', ''$rip'')] 0x1000 64 CFI_Rules_new CFI_Rules_new"
    "(demo_state [] demo_initial 0x1000 69 (demo_row 8) CFI_Rules_new)\<lparr>st_cie_rules := st_rules
        (demo_state [] demo_initial 0x1000 69 (demo_row 8) CFI_Rules_new), st_cursor := e_instructions (ev_entry demo_fde)\<rparr> =
      demo_state [] demo_initial 0x1000 128 (demo_row 8) (demo_row 8)"
    by (simp_all add: demo_env_def demo_state_def CFI_State_new_def blank_Entry_def)
  have fde_run: "cfi_run demo_fde (demo_state [] demo_initial 0x1000 128 (demo_row 8) (demo_row 8)) demo_end"
    by (rule run_step [OF demo_fde_1 _ demo_fde_run]) (simp add: demo_state_address)
  have ends: "e_end (ev_entry demo_cie) \<le> st_cursor (demo_state [] demo_initial 0x1000 69 (demo_row 8) CFI_Rules_new)"
      "e_end (ev_entry demo_fde) \<le> st_cursor demo_end"
    by (simp_all add: demo_env_def demo_state_def)
  have texts: "dwarf_text ?names 16 (- 1) (ValOffsetRule 7 8) = Some ''$rsp 8 +''"
      "dwarf_text ?names 16 (- 1) (ValOffsetRule 7 16) = Some ''$rsp 16 +''" "dwarf_name ?names 16 (- 1) = ''.cfa''"
    by (simp_all add: dwarf_name_def RegisterNames_X86_64_def show_int_def show_nat.simps char_of_def bit_Suc_0_iff)
  note rows = rows_are_filed [where reports = "[]", OF entry ok handlers, unfolded starts names, OF demo_cie_run ends(1), unfolded starts,
      OF fde_run ends(2)]
  then obtain e where e: "cm_entry (st_handler demo_end) = Some e"
      "\<forall>r t b. r \<in> set (all_rules (st_rules demo_end)) \<longrightarrow> st_address demo_end \<le> b \<longrightarrow> dwarf_text ?names 16 (fst r) (snd r) = Some t \<longrightarrow>
        rules_at e b (dwarf_name ?names 16 (fst r)) = Some t"
      "\<forall>s1 s2 r t b. cfi_run demo_fde (demo_state [] demo_initial 0x1000 128 (demo_row 8) (demo_row 8)) s1 \<longrightarrow>
        DoInstruction demo_fde s1 = Some (s2, True) \<longrightarrow> cfi_run demo_fde s2 demo_end \<longrightarrow> r \<in> set (all_rules (st_rules s1)) \<longrightarrow>
        st_address s1 \<le> b \<longrightarrow> b < st_address s2 \<longrightarrow> dwarf_text ?names 16 (fst r) (snd r) = Some t \<longrightarrow>
        rules_at e b (dwarf_name ?names 16 (fst r)) = Some t"
    by (elim conjE exE) (rule that)
  have row: "(- 1, ValOffsetRule 7 cfa) \<in> set (all_rules (st_rules (demo_state changes initial address cursor (demo_row cfa) cie)))"
    for changes initial address cursor cfa cie
    by (simp add: all_rules_def demo_state_def)
  have "rules_at e 0x1001 ''.cfa'' = Some ''$rsp 16 +''"
    using e(2) [rule_format, OF row, of "0x1001" "''$rsp 16 +''"] texts(2,3) by (simp add: demo_state_address)
  moreover have "rules_at e 0x1000 ''.cfa'' = Some ''$rsp 8 +''"
    using e(3) [rule_format, OF run_refl demo_fde_1 demo_fde_run row, of "0x1000" "''$rsp 8 +''"] texts(1,3)
    by (simp add: demo_state_address)
  ultimately show ?thesis
    using rows e(1) by blast
qed

text \<open>The same entry as a whole section, with its CIE and FDE and their lengths.\<close>

definition demo_bytes :: "u8 list" where
  "demo_bytes = [14, 0, 0, 0, 0xff, 0xff, 0xff, 0xff, 1, 0, 1, 0x78, 16, 0x0c, 7, 8, 0x90, 1,
     23, 0, 0, 0, 0, 0, 0, 0, 0, 0x10, 0, 0, 0, 0, 0, 0, 0x20, 0, 0, 0, 0, 0, 0, 0, 0x41, 0x0e, 16]"

definition demo_section :: "CFIToModule CFI_Section" where
  "demo_section = \<lparr>sec_mem = (\<lambda>x. if unat (x - 64) < 45 then demo_bytes ! unat (x - 64) else 0), sec_buffer = 64, sec_length = 45,
     sec_handler = cm_handler, sec_eh_frame = False, sec_uninit = 0\<rparr>"

definition demo_module :: DumpModule where
  "demo_module = DumpModule_new ''a.out'' ''Linux'' ''x86_64'' ''0'' [] False False"

definition demo_parser :: "CFIToModule CFI_Parser" where
  "demo_parser = \<lparr>p_reader = the (SetAddressSize 8 (ByteReader_new ENDIANNESS_LITTLE)),
     p_handler = CFIToModule_new demo_module RegisterNames_X86_64, p_reports = []\<rparr>"

definition demo_entry :: StackFrameEntry where
  "demo_entry = \<lparr>se_address = 0x1000, se_size = 0x20, initial_rules = demo_initial, rule_changes = [(0x1001, [(''.cfa'', ''$rsp 16 +'')])]\<rparr>"

lemma demo_run:
  "map_option (\<lambda>(p, ok). (ok, p_reports p, cm_module (p_handler p))) (CallFrameInfo_Start demo_section demo_parser) =
    Some (True, [], AddStackFrameEntry demo_entry demo_module)"
  by code_simp

lemma CFI_section_keeps_protocol_witness:
  "\<exists>p'. CallFrameInfo_Start demo_section demo_parser = Some (p', True) \<and> cm_idle (p_handler p') \<and>
    cm_module (p_handler p') = AddStackFrameEntry demo_entry demo_module"
proof -
  obtain p' where p': "CallFrameInfo_Start demo_section demo_parser = Some (p', True)"
      "cm_module (p_handler p') = AddStackFrameEntry demo_entry demo_module"
    using demo_run by auto
  have "sec_handler demo_section = cm_handler" "cm_idle (p_handler demo_parser)"
    by (simp_all add: demo_section_def demo_parser_def cm_idle_def CFIToModule_new_def demo_module_def DumpModule_new_def)
  from CFI_section_keeps_protocol [OF p'(1) this] p' show ?thesis
    by blast
qed

end
