(* ===== verification/Dump_CFI.thy ===== *)
theory Dump_CFI
  imports Dump_Properties Dwarf_CFI_Properties
begin

text \<open>
  The call frame rules of a dumped module are found again: what the loader makes of the STACK CFI
  records, and what the lookup computes from them, is what the entries of the module say.
\<close>

section \<open>Rule sets\<close>

text \<open>A rule set as the map from names to expressions that it stands for.\<close>

definition cfi_value :: "CFIFrameInfo \<Rightarrow> string \<Rightarrow> string option" where
  "cfi_value c n = (if n = ''.cfa'' then (if cfa_rule c = [] then None else Some (cfa_rule c))
     else if n = ''.ra'' then (if ra_rule c = [] then None else Some (ra_rule c))
     else map_of (register_rules c) n)"

definition rules_wf :: "(string, string) omap \<Rightarrow> bool" where
  "rules_wf rs \<longleftrightarrow> om_sorted rs \<and> list_all (\<lambda>(n, e). is_rule_name n \<and> is_expression e) rs"

lemma Report_value:
  assumes "is_rule_name n" "is_expression e" "om_sorted (register_rules c)"
  shows "cfi_value (fst (Report n e c)) = (cfi_value c)(n \<mapsto> e)" "om_sorted (register_rules (fst (Report n e c)))"
  using assms by (auto simp: Report_def cfi_value_def fun_eq_iff SetCFARule_def SetRARule_def SetRegisterRule_def is_rule_name_def
      is_token_def is_expression_def om_assign_map_of om_sorted_assign)

lemma apply_rules_value:
  assumes "list_all (\<lambda>(n, e). is_rule_name n \<and> is_expression e) rs" "om_sorted (register_rules c)" "distinct (map fst rs)"
  shows "cfi_value (apply_rules rs c) = cfi_value c ++ map_of rs \<and> om_sorted (register_rules (apply_rules rs c))"
  using assms
proof (induction rs arbitrary: c)
  case (Cons r rs)
  have r: "is_rule_name (fst r)" "is_expression (snd r)"
    using Cons.prems(1) by auto
  note v = Report_value [OF r Cons.prems(2)]
  have "map_of rs (fst r) = None"
    using Cons.prems(3) by (simp add: map_of_eq_None_iff)
  then have eq: "(cfi_value c)(fst r \<mapsto> snd r) ++ map_of rs = cfi_value c ++ map_of (r # rs)"
    by (cases r) (auto simp: fun_eq_iff map_add_def split: option.splits)
  have "list_all (\<lambda>(n, e). is_rule_name n \<and> is_expression e) rs" "distinct (map fst rs)"
    using Cons.prems by simp_all
  from Cons.IH [OF this(1) v(2) this(2)] show ?case
    by (simp only: apply_rules.simps v(1) eq)
qed simp

lemma WriteRuleMap_join: "WriteRuleMap rs = join '' '' (map rule_text rs)"
proof (induction rs)
  case (Cons r rs)
  then show ?case
    by (cases rs) (simp_all add: rule_text_def)
qed simp

lemma parse_rule_map:
  assumes "list_all (\<lambda>(n, e). is_rule_name n \<and> is_expression e) rs"
  shows "ParseCFIRuleSet (WriteRuleMap rs) c = (apply_rules rs c, rs \<noteq> [])"
proof (cases rs)
  case (Cons r rs')
  have r: "is_rule_name (fst r)" "list_all is_component (tokens token_breaks (snd r))"
      "join '' '' (tokens token_breaks (snd r)) = snd r" "fst r \<noteq> []"
    using assms Cons by (auto simp: is_rule_name_def is_token_def is_expression_def)
  have names: "list_all (\<lambda>r. is_rule_name (fst r)) rs"
    using assms by (auto simp: list_all_iff)
  have "ParseCFIRuleSet (WriteRuleMap rs) c = parse_rules (concat (map rule_tokens rs)) [] [] c"
    by (simp add: ParseCFIRuleSet_def CFI_Parse_def WriteRuleMap_join tokens_rules [OF names])
  also have "\<dots> = parse_rules (concat (map rule_tokens rs')) (fst r) (snd r) c"
    using r(3,4) parse_components [OF r(2), of "concat (map rule_tokens rs')" "fst r" "[]" c] by (simp add: Cons rule_tokens_def)
  also have "\<dots> = (apply_rules rs c, True)"
    using parse_rules_tokens [of "fst r" "snd r" rs' c] assms by (simp add: Cons)
  finally show ?thesis
    by (simp add: Cons)
qed (simp add: ParseCFIRuleSet_def CFI_Parse_def Report_def)

section \<open>The records of call frame information\<close>

fun init_ranges :: "SymRecord list \<Rightarrow> (u64 \<times> u64 \<times> string) list" where
  "init_ranges [] = []"
| "init_ranges (RInit a s rules # rs) = (a, a + (s - 1), rules) # init_ranges rs"
| "init_ranges (r # rs) = init_ranges rs"

fun delta_updates :: "SymRecord list \<Rightarrow> (u64 \<times> string) list" where
  "delta_updates [] = []"
| "delta_updates (RDelta a rules # rs) = (a, rules) # delta_updates rs"
| "delta_updates (r # rs) = delta_updates rs"

definition known_rules :: "LoadState \<Rightarrow> (u64 \<times> u64 \<times> string) set" where
  "known_rules st = (\<lambda>p. (r_base (snd p), fst p, r_entry (snd p))) ` set (rm_map (m_cfi_initial_rules (ls_module st)))"

abbreviation known_deltas :: "LoadState \<Rightarrow> (u64, string) omap" where
  "known_deltas st \<equiv> m_cfi_delta_rules (ls_module st)"

definition ranges_apart :: "u64 \<times> u64 \<times> string \<Rightarrow> u64 \<times> u64 \<times> string \<Rightarrow> bool" where
  "ranges_apart x y \<longleftrightarrow> fst (snd x) < fst y \<or> fst (snd y) < fst x"

definition init_valid :: "SymRecord \<Rightarrow> bool" where
  "init_valid r \<longleftrightarrow> (case r of RInit a s _ \<Rightarrow> 0 < s \<and> a \<le> a + (s - 1) | _ \<Rightarrow> True)"

lemma init_ranges_Cons: "init_ranges (r # rs) = init_ranges [r] @ init_ranges rs"
  by (cases r) simp_all

lemma delta_updates_Cons: "delta_updates (r # rs) = delta_updates [r] @ delta_updates rs"
  by (cases r) simp_all

lemma init_stored:
  assumes st: "state_loaded st" and v: "valid_range a s high" and apart: "\<forall>x\<in>known_rules st. ranges_apart x (a, high, rules)"
    and store: "StoreRange (m_cfi_initial_rules (ls_module st)) a s rules = Some (m, ok)"
  shows "(\<lambda>p. (r_base (snd p), fst p, r_entry (snd p))) ` set (rm_map m) = insert (a, high, rules) (known_rules st)"
proof -
  let ?m = "m_cfi_initial_rules (ls_module st)"
  have ok: "ranges_ok (rm_map ?m)" "merge_strategy ?m = kExclusiveRanges"
    using state_loaded_maps [OF st] by (auto simp: maps_loaded_def)
  note run = StoreRange_cases [OF ok(1) store]
  have "acceptable kExclusiveRanges (rm_map ?m) a high"
    using apart by (fastforce simp: acceptable_def known_rules_def ranges_apart_def overlaps_def)
  then have "ok"
    using store_run_result [OF run(1)] v ok(2) by auto
  then have "set (rm_map m) = insert (high, \<lparr>r_base = a, r_delta = 0, r_entry = rules\<rparr>) (set (rm_map ?m))"
    using store_run_exclusive [OF run(1) ok(2)] valid_range_unique [OF v] by auto
  then show ?thesis
    by (simp add: known_rules_def)
qed

lemma replay_rules:
  assumes st: "state_loaded st" and rep: "replay junk r st = Some st'" and v: "init_valid r"
    and apart: "\<forall>x\<in>known_rules st. \<forall>y\<in>set (init_ranges [r]). ranges_apart x y"
  shows "known_rules st' = known_rules st \<union> set (init_ranges [r])"
    and "map_of (known_deltas st') = map_of (known_deltas st) ++ map_of (rev (delta_updates [r]))"
proof -
  have s: "om_sorted (known_deltas st)"
    using state_loaded_maps [OF st] by (simp add: maps_loaded_def)
  have "known_rules st' = known_rules st \<union> set (init_ranges [r]) \<and>
      map_of (known_deltas st') = map_of (known_deltas st) ++ map_of (rev (delta_updates [r]))"
  proof (cases r)
    case (RInit a s rules)
    obtain m ok where m: "StoreRange (m_cfi_initial_rules (ls_module st)) a s rules = Some (m, ok)"
        "st' = st\<lparr>ls_module := (ls_module st)\<lparr>m_cfi_initial_rules := m\<rparr>\<rparr>"
      using rep RInit by auto
    have "valid_range a s (a + (s - 1))"
      using v by (simp add: RInit init_valid_def valid_range_def)
    then show ?thesis
      using init_stored [OF st _ _ m(1)] apart RInit by (simp add: m(2) known_rules_def)
  next
    case (RDelta a rules)
    then show ?thesis
      using rep by (auto simp: known_rules_def om_assign_map_of [OF s])
  next
    case (RFunction multiple a s ps name)
    then show ?thesis
      using rep by (auto simp: known_rules_def add_function_def Let_def split: if_splits prod.splits)
  next
    case (RInline level ln fid oid rs)
    then show ?thesis
      using rep by (auto simp: known_rules_def update_heap_def split: option.splits)
  next
    case (RLine a s ln fid)
    then show ?thesis
      using rep by (auto simp: known_rules_def update_heap_def add_line_def LogParseError_def Let_def split: option.splits if_splits)
  next
    case (RPublic multiple a ps name)
    then show ?thesis
      using rep by (auto simp: known_rules_def check_parse_def LogParseError_def Let_def split: prod.splits if_splits)
  qed (use rep in \<open>auto simp: known_rules_def\<close>)
  then show "known_rules st' = known_rules st \<union> set (init_ranges [r])"
    and "map_of (known_deltas st') = map_of (known_deltas st) ++ map_of (rev (delta_updates [r]))"
    by simp_all
qed

lemma replay_all_rules:
  assumes "replay_all junk rs st = Some st'" "num_errors st' = 0" "state_loaded st" "records_valid rs"
    "\<forall>r\<in>set rs. init_valid r" "\<forall>x\<in>known_rules st. \<forall>y\<in>set (init_ranges rs). ranges_apart x y"
    "sorted_wrt ranges_apart (init_ranges rs)"
  shows "known_rules st' = known_rules st \<union> set (init_ranges rs) \<and>
    map_of (known_deltas st') = map_of (known_deltas st) ++ map_of (rev (delta_updates rs))"
  using assms
proof (induction rs arbitrary: st)
  case (Cons r rs)
  obtain st2 where st2: "replay junk r st = Some st2"
      "if kMaxErrorsBeforeBailing < num_errors st2 then st' = st2 else replay_all junk rs st2 = Some st'"
    using Cons.prems(1) by (auto split: option.splits if_splits)
  then have rest: "replay_all junk rs st2 = Some st'"
    using Cons.prems(2) by (auto simp: kMaxErrorsBeforeBailing_def split: if_splits)
  have valid: "records_valid rs" "record_ok r" "nul_free (record_text r)" "init_valid r" "\<forall>r\<in>set rs. init_valid r"
    using Cons.prems(4,5) by (simp_all add: records_valid_def)
  have l: "state_loaded st2"
    by (rule replay_loaded [OF valid(2,3) Cons.prems(3) st2(1)])
  have split: "init_ranges (r # rs) = init_ranges [r] @ init_ranges rs" "delta_updates (r # rs) = delta_updates [r] @ delta_updates rs"
    by (rule init_ranges_Cons delta_updates_Cons)+
  have apart: "\<forall>x\<in>known_rules st. \<forall>y\<in>set (init_ranges [r]). ranges_apart x y"
      "\<forall>x\<in>known_rules st. \<forall>y\<in>set (init_ranges rs). ranges_apart x y"
      "\<forall>x\<in>set (init_ranges [r]). \<forall>y\<in>set (init_ranges rs). ranges_apart x y" "sorted_wrt ranges_apart (init_ranges rs)"
    using Cons.prems(6,7) unfolding split by (auto simp: sorted_wrt_append)
  note step = replay_rules [OF Cons.prems(3) st2(1) valid(4) apart(1)]
  have "known_rules st' = known_rules st2 \<union> set (init_ranges rs) \<and>
      map_of (known_deltas st') = map_of (known_deltas st2) ++ map_of (rev (delta_updates rs))"
    by (rule Cons.IH [OF rest Cons.prems(2) l valid(1,5) _ apart(4)]) (use apart(2,3) in \<open>auto simp: step(1)\<close>)
  then show ?case
    unfolding split by (auto simp: step map_add_assoc)
qed simp

section \<open>The entries of a module\<close>

definition entry_end :: "StackFrameEntry \<Rightarrow> u64" where
  "entry_end e = se_address e + (se_size e - 1)"

text \<open>An entry that can be dumped: not empty, not below the load address, with changes inside its range and rules that are words.\<close>

definition dumpable :: "u64 \<Rightarrow> StackFrameEntry \<Rightarrow> bool" where
  "dumpable l e \<longleftrightarrow> 0 < se_size e \<and> l \<le> se_address e \<and> se_address e \<le> entry_end e \<and> filed_up_to (entry_end e) e \<and>
     initial_rules e \<noteq> [] \<and> rules_wf (initial_rules e) \<and> (\<forall>p\<in>set (rule_changes e). rules_wf (snd p))"

definition entries_apart :: "StackFrameEntry \<Rightarrow> StackFrameEntry \<Rightarrow> bool" where
  "entries_apart x y \<longleftrightarrow> entry_end x < se_address y \<or> entry_end y < se_address x"

definition changes_of :: "u64 \<Rightarrow> StackFrameEntry \<Rightarrow> (u64 \<times> string) list" where
  "changes_of l e = map (\<lambda>p. (fst p - l, WriteRuleMap (snd p))) (rule_changes e)"

lemma word_le_diff_iff: "(l::u64) \<le> a \<Longrightarrow> l \<le> b \<Longrightarrow> a - l \<le> b - l \<longleftrightarrow> a \<le> b"
  by uint_arith

lemma word_less_diff_iff: "(l::u64) \<le> a \<Longrightarrow> l \<le> b \<Longrightarrow> a - l < b - l \<longleftrightarrow> a < b"
  by uint_arith

lemma dumpable_end: "dumpable l e \<Longrightarrow> l \<le> entry_end e \<and> (se_address e - l) + (se_size e - 1) = entry_end e - l"
  by (auto simp: dumpable_def entry_end_def)

lemma init_ranges_append: "init_ranges (xs @ ys) = init_ranges xs @ init_ranges ys"
  by (induction xs rule: init_ranges.induct) simp_all

lemma delta_updates_append: "delta_updates (xs @ ys) = delta_updates xs @ delta_updates ys"
  by (induction xs rule: delta_updates.induct) simp_all

lemma init_ranges_entry: "init_ranges (entry_records m e) =
    [(se_address e - load_address m, (se_address e - load_address m) + (se_size e - 1), WriteRuleMap (initial_rules e))]"
proof -
  have "init_ranges (map (\<lambda>p. RDelta (fst p - load_address m) (WriteRuleMap (snd p))) ps) = []" for ps
    by (induction ps) simp_all
  then show ?thesis
    by (simp add: entry_records_def)
qed

lemma delta_updates_entry: "delta_updates (entry_records m e) = changes_of (load_address m) e"
proof -
  have "delta_updates (map (\<lambda>p. RDelta (fst p - load_address m) (WriteRuleMap (snd p))) ps) =
      map (\<lambda>p. (fst p - load_address m, WriteRuleMap (snd p))) ps" for ps
    by (induction ps) simp_all
  then show ?thesis
    by (simp add: entry_records_def changes_of_def)
qed

lemma concat_entries:
  "init_ranges (concat (map (entry_records m) es)) = map (\<lambda>e. (se_address e - load_address m,
      (se_address e - load_address m) + (se_size e - 1), WriteRuleMap (initial_rules e))) es"
  "delta_updates (concat (map (entry_records m) es)) = concat (map (changes_of (load_address m)) es)"
  by (induction es) (simp_all add: init_ranges_append delta_updates_append init_ranges_entry delta_updates_entry)

lemma no_rule_records:
  "\<forall>r\<in>set xs. case r of RInit _ _ _ \<Rightarrow> False | RDelta _ _ \<Rightarrow> False | _ \<Rightarrow> True \<Longrightarrow>
    init_ranges xs = [] \<and> delta_updates xs = [] \<and> (\<forall>r\<in>set xs. init_valid r)"
proof (induction xs)
  case (Cons r xs)
  then show ?case
    by (cases r) (simp_all add: init_valid_def)
qed simp

lemma range_records_no_rules:
  "r \<in> set (range_records m f ranges lines) \<Longrightarrow> case r of RInit _ _ _ \<Rightarrow> False | RDelta _ _ \<Rightarrow> False | _ \<Rightarrow> True"
  by (induction ranges arbitrary: lines) (auto simp: function_record_def inline_record_def line_record_def)

lemma dump_rules:
  assumes "and symbol_data CFI_DATA \<noteq> 0"
  shows "init_ranges (dump_records m symbol_data) = map (\<lambda>e. (se_address e - load_address m,
      (se_address e - load_address m) + (se_size e - 1), WriteRuleMap (initial_rules e))) (stack_frame_entries m)"
    and "delta_updates (dump_records m symbol_data) = concat (map (changes_of (load_address m)) (stack_frame_entries m))"
    and "\<forall>e\<in>set (stack_frame_entries m). dumpable (load_address m) e \<Longrightarrow> \<forall>r\<in>set (dump_records m symbol_data). init_valid r"
proof -
  let ?symbols = "if and symbol_data SYMBOLS_AND_FILES \<noteq> 0 then symbol_records (numbered m) (snd (CreateInlineOrigins m)) else []"
  have "\<forall>r\<in>set (header_records m @ ?symbols). case r of RInit _ _ _ \<Rightarrow> False | RDelta _ _ \<Rightarrow> False | _ \<Rightarrow> True"
    using range_records_no_rules by (auto simp: header_records_def symbol_records_def extern_record_def)
  note none = no_rule_records [OF this]
  have eq: "dump_records m symbol_data = (header_records m @ ?symbols) @ concat (map (entry_records m) (stack_frame_entries m))"
    using assms by (simp add: dump_records_def)
  show "init_ranges (dump_records m symbol_data) = map (\<lambda>e. (se_address e - load_address m,
      (se_address e - load_address m) + (se_size e - 1), WriteRuleMap (initial_rules e))) (stack_frame_entries m)"
    "delta_updates (dump_records m symbol_data) = concat (map (changes_of (load_address m)) (stack_frame_entries m))"
    unfolding eq init_ranges_append [of "header_records m @ _"] delta_updates_append [of "header_records m @ _"] concat_entries
    using none by simp_all
  show "\<forall>r\<in>set (dump_records m symbol_data). init_valid r" if "\<forall>e\<in>set (stack_frame_entries m). dumpable (load_address m) e"
  proof
    fix r
    assume "r \<in> set (dump_records m symbol_data)"
    then consider "r \<in> set (header_records m @ ?symbols)" | e where "e \<in> set (stack_frame_entries m)" "r \<in> set (entry_records m e)"
      unfolding eq by auto
    then show "init_valid r"
    proof cases
      case 2
      then have "dumpable (load_address m) e"
        using that by blast
      note d = this dumpable_end [OF this]
      then have "se_address e - load_address m \<le> entry_end e - load_address m"
        using word_le_diff_iff [of "load_address m" "se_address e" "entry_end e"] by (simp add: dumpable_def)
      then have "se_address e - load_address m \<le> (se_address e - load_address m) + (se_size e - 1)"
        unfolding conjunct2 [OF d(2)] .
      then show ?thesis
        using 2(2) d(1) by (auto simp: entry_records_def init_valid_def dumpable_def)
    qed (use none in blast)
  qed
qed

text \<open>The changes of all entries are about different addresses, each in the range of its entry.\<close>

lemma changes_in_range:
  assumes "dumpable l e" "p \<in> set (changes_of l e)"
  shows "se_address e - l \<le> fst p \<and> fst p \<le> entry_end e - l"
proof -
  obtain q where q: "q \<in> set (rule_changes e)" "fst p = fst q - l"
    using assms(2) by (auto simp: changes_of_def)
  then have "se_address e < fst q" "fst q \<le> entry_end e" "l \<le> se_address e"
    using assms(1) by (auto simp: dumpable_def filed_up_to_def)
  then show ?thesis
    using word_le_diff_iff [of l "se_address e" "fst q"] word_le_diff_iff [of l "fst q" "entry_end e"] q(2) by simp
qed

lemma om_sorted_shift: "om_sorted m \<Longrightarrow> \<forall>q\<in>set m. l \<le> fst q \<Longrightarrow> om_sorted (map (\<lambda>p. (fst p - (l::u64), f p)) m)"
  by (induction m) (auto simp: word_less_diff_iff)

lemma changes_sorted:
  assumes "dumpable l e"
  shows "om_sorted (changes_of l e)"
proof -
  have "l \<le> fst q" if "q \<in> set (rule_changes e)" for q
    using assms that by (fastforce simp: dumpable_def filed_up_to_def)
  moreover have "om_sorted (rule_changes e)"
    using assms by (simp add: dumpable_def filed_up_to_def entry_ok_def)
  ultimately show ?thesis
    unfolding changes_of_def by (intro om_sorted_shift) auto
qed

lemma apart_ranges:
  assumes "dumpable l x" "dumpable l y" "entries_apart x y" "se_address x - l \<le> a" "a \<le> entry_end x - l"
    "se_address y - l \<le> a" "a \<le> entry_end y - l"
  shows False
proof -
  have "l \<le> entry_end x" "l \<le> entry_end y" "l \<le> se_address x" "l \<le> se_address y"
    using assms(1,2) by (auto simp: dumpable_def)
  then have "entry_end x - l < se_address y - l \<or> entry_end y - l < se_address x - l"
    using assms(3) by (auto simp: entries_apart_def word_less_diff_iff)
  then show False
    using assms(4-7) by auto
qed

lemma changes_distinct:
  "\<forall>e\<in>set es. dumpable l e \<Longrightarrow> sorted_wrt entries_apart es \<Longrightarrow> distinct (map fst (concat (map (changes_of l) es)))"
proof (induction es)
  case (Cons e es)
  have "fst p \<noteq> fst q" if "p \<in> set (changes_of l e)" "x \<in> set es" "q \<in> set (changes_of l x)" for p q x
    using apart_ranges [of l e x "fst p"] changes_in_range [of l e p] changes_in_range [of l x q] that Cons.prems by auto
  then have "fst ` set (changes_of l e) \<inter> fst ` set (concat (map (changes_of l) es)) = {}"
    by fastforce
  then show ?case
    using Cons om_sorted_distinct [OF changes_sorted [of l e]] by simp
qed simp

section \<open>The lookup\<close>

lemma om_sorted_eqI:
  assumes "om_sorted m" "om_sorted m'" "\<And>k v. (k, v) \<in> set m \<longleftrightarrow> (k, v) \<in> set m'"
  shows "m = m'"
proof (rule map_sorted_distinct_set_unique [where f = fst])
  show "set m = set m'"
    using assms(3) by auto
  then show "inj_on fst (set m \<union> set m')"
    using om_sorted_inj [OF assms(1)] by (auto intro!: inj_onI)
  show "sorted (map fst m)" "sorted (map fst m')" "distinct (map fst m)" "distinct (map fst m')"
    using assms(1,2) om_sorted_distinct by (auto simp: om_sorted_def strict_sorted_iff)
qed

text \<open>The changes the lookup applies are those of the entry, up to the address.\<close>

lemma deltas_of_entry:
  assumes es: "\<forall>e\<in>set es. dumpable l e" "sorted_wrt entries_apart es" and e: "e \<in> set es"
    and ds: "om_sorted ds" "map_of ds = map_of (rev (concat (map (changes_of l) es)))"
    and a: "se_address e - l \<le> a" "a \<le> entry_end e - l"
  shows "deltas_between (se_address e - l) a ds = map (\<lambda>p. WriteRuleMap (snd p)) (filter (\<lambda>p. fst p \<le> l + a) (rule_changes e))"
proof -
  let ?U = "concat (map (changes_of l) es)"
  have d: "dumpable l e"
    using es(1) e by blast
  have dist: "distinct (map fst (rev ?U))"
    using changes_distinct [OF es] by (simp only: rev_map [symmetric] distinct_rev)
  have mem: "(k, v) \<in> set ds \<longleftrightarrow> (k, v) \<in> set ?U" for k v
    using om_sorted_map_of [OF ds(1), of k v] ds(2) map_of_eq_Some_iff [OF dist, of k v] by simp
  have own: "p \<in> set ?U \<and> se_address e - l \<le> fst p \<and> fst p \<le> a \<longleftrightarrow> p \<in> set (changes_of l e) \<and> fst p \<le> a" for p
  proof
    assume p: "p \<in> set ?U \<and> se_address e - l \<le> fst p \<and> fst p \<le> a"
    then obtain x where x: "x \<in> set es" "p \<in> set (changes_of l x)"
      by auto
    then have r: "se_address x - l \<le> fst p" "fst p \<le> entry_end x - l"
      using changes_in_range es(1) by blast+
    have "x = e"
    proof (rule ccontr)
      assume "x \<noteq> e"
      then have "entries_apart x e \<or> entries_apart e x"
        using es(2) x(1) e by (induction es) auto
      moreover have "fst p \<le> entry_end e - l"
        using p a(2) by (blast intro: order_trans)
      ultimately show False
        using apart_ranges [of l x e "fst p"] apart_ranges [of l e x "fst p"] es(1) x(1) e r p by auto
    qed
    then show "p \<in> set (changes_of l e) \<and> fst p \<le> a"
      using x p by simp
  next
    assume "p \<in> set (changes_of l e) \<and> fst p \<le> a"
    then show "p \<in> set ?U \<and> se_address e - l \<le> fst p \<and> fst p \<le> a"
      using changes_in_range [OF d] e by auto
  qed
  have "filter (\<lambda>p. se_address e - l \<le> fst p \<and> fst p \<le> a) ds = filter (\<lambda>p. fst p \<le> a) (changes_of l e)"
  proof (rule om_sorted_eqI)
    show "om_sorted (filter (\<lambda>p. se_address e - l \<le> fst p \<and> fst p \<le> a) ds)" "om_sorted (filter (\<lambda>p. fst p \<le> a) (changes_of l e))"
      by (rule om_sorted_filter [OF ds(1)] om_sorted_filter [OF changes_sorted [OF d]])+
    show "(k, v) \<in> set (filter (\<lambda>p. se_address e - l \<le> fst p \<and> fst p \<le> a) ds) \<longleftrightarrow>
        (k, v) \<in> set (filter (\<lambda>p. fst p \<le> a) (changes_of l e))" for k v
      using own [of "(k, v)"] by (auto simp: mem)
  qed
  moreover have "fst q - l \<le> a \<longleftrightarrow> fst q \<le> l + a" if "q \<in> set (rule_changes e)" for q
  proof -
    have "l \<le> se_address e" "se_address e \<le> entry_end e" "se_address e < fst q"
      using d that by (auto simp: dumpable_def filed_up_to_def)
    then show ?thesis
      using a by uint_arith
  qed
  ultimately show ?thesis
    by (simp add: deltas_between_def changes_of_def filter_map comp_def cong: filter_cong)
qed

lemma fold_rules_value:
  assumes "\<forall>p\<in>set ps. rules_wf (snd p)" "om_sorted (register_rules c)"
  shows "cfi_value (fold (\<lambda>s c. fst (ParseCFIRuleSet s c)) (map (\<lambda>p. WriteRuleMap (snd p)) ps) c) =
    fold (\<lambda>p m. m ++ map_of (snd p)) ps (cfi_value c)"
  using assms
proof (induction ps arbitrary: c)
  case (Cons p ps)
  have p: "list_all (\<lambda>(n, e). is_rule_name n \<and> is_expression e) (snd p)" "distinct (map fst (snd p))"
    using Cons.prems(1) om_sorted_distinct by (auto simp: rules_wf_def)
  note v = apply_rules_value [OF p(1) Cons.prems(2) p(2)]
  show ?case
    using Cons.IH [of "apply_rules (snd p) c"] Cons.prems(1) v by (simp add: parse_rule_map [OF p(1)])
qed simp

lemma dump_fits_all:
  assumes "externs_ok m" "records_valid (dump_records m symbol_data)" "sorted_wrt apart (extents m)"
  shows "records_fit (dump_records m symbol_data)"
proof (cases "and symbol_data SYMBOLS_AND_FILES = 0")
  case True
  have "\<forall>r\<in>set (dump_records m symbol_data). case r of RPublic _ _ _ _ \<Rightarrow> False | _ \<Rightarrow> True"
      "\<forall>r\<in>set (dump_records m symbol_data). case r of RFunction _ _ _ _ _ \<Rightarrow> False | _ \<Rightarrow> True"
    using True by (auto simp: dump_records_def header_records_def entry_records_def)
  then show ?thesis
    using assms(2) public_addresses_none function_ranges_none by (simp add: records_fit_def records_valid_def)
next
  case False
  then show ?thesis
    by (rule dump_fits [OF _ assms])
qed

lemma dumped_rules:
  assumes cfi: "and symbol_data CFI_DATA \<noteq> 0" and ok: "externs_ok m" "records_valid (dump_records m symbol_data)"
      "sorted_wrt apart (extents m)"
    and es: "\<forall>e\<in>set (stack_frame_entries m). dumpable (load_address m) e" "sorted_wrt entries_apart (stack_frame_entries m)"
  shows "\<exists>m'. LoadMapFromMemory junk (snd (Module_Write_symbols m symbol_data)) = Some m' \<and> \<not> m_is_corrupt m' \<and>
    (\<forall>e\<in>set (stack_frame_entries m). \<forall>frame. se_address e - load_address m \<le> relative_address frame \<and>
       relative_address frame \<le> entry_end e - load_address m \<longrightarrow>
       (\<exists>c. FindCFIFrameInfo m' frame = Some c \<and> cfi_value c = rules_at e (load_address m + relative_address frame)))"
proof -
  let ?rs = "dump_records m symbol_data" and ?l = "load_address m"
  note fit = dump_fits_all [OF ok]
  obtain st where st: "replay_all junk ?rs LoadState_new = Some st" "state_loaded st" "num_errors st = 0"
    using replay_all_known [OF LoadState_new_loaded _ _ fit, of junk] well_ordered_dump
    by (auto simp: LoadState_new_def Module_new_def known_functions_def RangeMap_new_def)
  have "LoadMapFromMemory junk (records_text ?rs) = map_option finish_load (replay_all junk ?rs LoadState_new)"
    by (rule LoadMapFromMemory_records)
      (use fit dump_not_Nil record_texts_nul_free in \<open>auto simp: records_fit_def\<close>)
  then have load: "LoadMapFromMemory junk (snd (Module_Write_symbols m symbol_data)) = Some (finish_load st)"
    by (simp add: Module_Write_records st(1))
  have init: "init_ranges ?rs = map (\<lambda>e. (se_address e - ?l, entry_end e - ?l, WriteRuleMap (initial_rules e))) (stack_frame_entries m)"
    unfolding dump_rules(1) [OF cfi] using es(1) conjunct2 [OF dumpable_end] by (intro map_cong) auto
  have "ranges_apart (se_address x - ?l, entry_end x - ?l, r) (se_address y - ?l, entry_end y - ?l, r')"
    if "entries_apart x y" "dumpable ?l x" "dumpable ?l y" for x y r r'
    using that dumpable_end [OF that(2)] dumpable_end [OF that(3)]
    by (auto simp: ranges_apart_def entries_apart_def dumpable_def word_less_diff_iff)
  then have apart: "sorted_wrt ranges_apart (init_ranges ?rs)"
    unfolding init sorted_wrt_map by (rule sorted_wrt_mono_rel [OF _ es(2)]) (use es(1) in auto)
  have new: "known_rules LoadState_new = {}" "known_deltas LoadState_new = []"
    by (simp_all add: known_rules_def LoadState_new_def Module_new_def RangeMap_new_def)
  have known: "known_rules st = set (init_ranges ?rs)"
      "map_of (known_deltas st) = map_of (rev (concat (map (changes_of ?l) (stack_frame_entries m))))"
    using replay_all_rules [OF st(1,3) LoadState_new_loaded ok(2) dump_rules(3) [OF cfi es(1)] _ apart] dump_rules(2) [OF cfi]
    by (simp_all add: new)
  have maps: "ranges_ok (rm_map (m_cfi_initial_rules (finish_load st)))" "om_sorted (m_cfi_delta_rules (finish_load st))"
      "m_cfi_initial_rules (finish_load st) = m_cfi_initial_rules (ls_module st)" "m_cfi_delta_rules (finish_load st) = known_deltas st"
    using state_loaded_maps [OF st(2)] by (auto simp: maps_loaded_def finish_load_def)
  have "\<exists>c. FindCFIFrameInfo (finish_load st) frame = Some c \<and> cfi_value c = rules_at e (?l + relative_address frame)"
    if e: "e \<in> set (stack_frame_entries m)" and a: "se_address e - ?l \<le> relative_address frame"
      "relative_address frame \<le> entry_end e - ?l" for e frame
  proof -
    have "(se_address e - ?l, entry_end e - ?l, WriteRuleMap (initial_rules e)) \<in> known_rules st"
      using e by (auto simp: known init)
    then obtain p where p: "p \<in> set (rm_map (m_cfi_initial_rules (finish_load st)))" "r_base (snd p) = se_address e - ?l"
        "fst p = entry_end e - ?l" "r_entry (snd p) = WriteRuleMap (initial_rules e)"
      by (auto simp: known_rules_def maps(3))
    have covers: "covers p (relative_address frame)"
      using a p(2,3) by (simp add: covers_def)
    have d: "dumpable ?l e"
      using es(1) e by blast
    then have wf: "list_all (\<lambda>(n, e). is_rule_name n \<and> is_expression e) (initial_rules e)" "distinct (map fst (initial_rules e))"
        "initial_rules e \<noteq> []" "\<forall>p\<in>set (rule_changes e). rules_wf (snd p)"
      using om_sorted_distinct by (auto simp: dumpable_def rules_wf_def)
    let ?c = "apply_rules (initial_rules e) CFIFrameInfo_new"
    let ?ps = "filter (\<lambda>p. fst p \<le> ?l + relative_address frame) (rule_changes e)"
    have v: "cfi_value ?c = map_of (initial_rules e)" "om_sorted (register_rules ?c)"
      using apply_rules_value [OF wf(1) _ wf(2), of CFIFrameInfo_new]
      by (simp_all add: CFIFrameInfo_new_def cfi_value_def fun_eq_iff map_add_def split: option.splits)
    have "FindCFIFrameInfo (finish_load st) frame =
        Some (fold (\<lambda>s c. fst (ParseCFIRuleSet s c)) (map (\<lambda>p. WriteRuleMap (snd p)) ?ps) ?c)"
      using FindCFIFrameInfo_at [OF maps(1,2) p(1) covers] wf(3)
        deltas_of_entry [OF es e _ known(2) a] maps(2,4)
      by (simp add: p(2,4) parse_rule_map [OF wf(1)])
    moreover have "cfi_value (fold (\<lambda>s c. fst (ParseCFIRuleSet s c)) (map (\<lambda>p. WriteRuleMap (snd p)) ?ps) ?c) =
        rules_at e (?l + relative_address frame)"
      using fold_rules_value [of ?ps ?c] wf(4) v by (simp add: rules_at_def)
    ultimately show ?thesis
      by blast
  qed
  then show ?thesis
    using load st(3) by (intro exI [of _ "finish_load st"]) (auto simp: finish_load_def)
qed

text \<open>C36. From the call frame rules of a dumped module to a lookup: the symbol file that is written for a
  module is loaded without errors, and for a frame anywhere in the range of one of its entries the
  resolver finds exactly the rules that the entry gives for that address, its initial rules overridden by
  the changes up to the address. The entries do not overlap, have their changes inside their ranges, and
  have rules that are words separated by single spaces.\<close>

theorem dumped_cfi_is_found:
  assumes "and symbol_data CFI_DATA \<noteq> 0" "dump_inv m" "records_valid (dump_records m symbol_data)" "sorted_wrt apart (extents m)"
    "\<forall>e\<in>set (stack_frame_entries m). dumpable (load_address m) e" "sorted_wrt entries_apart (stack_frame_entries m)"
  shows "\<exists>m'. LoadMapFromMemory junk (snd (Module_Write_symbols m symbol_data)) = Some m' \<and> \<not> m_is_corrupt m' \<and>
    (\<forall>e\<in>set (stack_frame_entries m). \<forall>frame. se_address e - load_address m \<le> relative_address frame \<and>
       relative_address frame \<le> entry_end e - load_address m \<longrightarrow>
       (\<exists>c. FindCFIFrameInfo m' frame = Some c \<and> cfi_value c = rules_at e (load_address m + relative_address frame)))"
  by (rule dumped_rules [OF assms(1) _ assms(3-6)]) (use assms(2) in \<open>simp add: dump_inv_def\<close>)

text \<open>The module filled from the bytes of the small call frame section.\<close>

lemma demo_rules_wf: "rules_wf (initial_rules demo_entry)" "\<forall>p\<in>set (rule_changes demo_entry). rules_wf (snd p)"
  by (simp_all add: rules_wf_def demo_entry_def is_rule_name_def is_expression_def is_component_def is_token_def token_breaks_def
      tokens.simps strtok_r_def)

lemma dumped_cfi_is_found_witness:
  "\<exists>p' m' c. CallFrameInfo_Start demo_section demo_parser = Some (p', True) \<and>
     LoadMapFromMemory 0 (snd (Module_Write_symbols (cm_module (p_handler p')) 2)) = Some m' \<and>
     FindCFIFrameInfo m' (StackFrame_new 0x6001 0x5000) = Some c \<and> cfi_value c ''.cfa'' = Some ''$rsp 16 +''"
proof -
  let ?m = "AddStackFrameEntry demo_entry demo_module"
  have m: "load_address ?m = 0" "stack_frame_entries ?m = [demo_entry]" "extents ?m = []"
    by (simp_all add: AddStackFrameEntry_def demo_module_def DumpModule_new_def extents_def AddressIsInModule_def)
  have "dump_records ?m 2 = [RModule ''Linux x86_64 0 a.out'', RInit 0x1000 0x20 ''.cfa: $rsp 8 + .ra: .cfa -8 + ^'',
      RDelta 0x1001 ''.cfa: $rsp 16 +'']"
    by (simp add: dump_records_def header_records_def demo_module_def DumpModule_new_def AddStackFrameEntry_def AddressIsInModule_def entry_records_def
        demo_entry_def SYMBOLS_AND_FILES_def CFI_DATA_def)
  then have valid: "records_valid (dump_records ?m 2)"
    by (simp add: records_valid_def range_valid_def newlines_def nul_free_def is_token_def)
  have inv: "dump_inv ?m"
    by (simp add: dump_inv_def externs_ok_def AddStackFrameEntry_def AddressIsInModule_def demo_module_def DumpModule_new_def)
  have "dumpable 0 demo_entry"
    using demo_rules_wf by (simp add: dumpable_def entry_end_def filed_up_to_def entry_ok_def demo_entry_def rules_wf_def)
  then have d: "\<forall>e\<in>set (stack_frame_entries ?m). dumpable (load_address ?m) e" "sorted_wrt entries_apart (stack_frame_entries ?m)"
    by (simp_all add: m)
  have "and (2::int) CFI_DATA \<noteq> 0"
    by (simp add: CFI_DATA_def)
  note found = dumped_cfi_is_found [OF this inv valid _ d, of 0]
  have ends: "se_address demo_entry = 0x1000" "entry_end demo_entry = 0x101f"
    by (simp_all add: entry_end_def demo_entry_def)
  from found
  obtain m' where m': "LoadMapFromMemory 0 (snd (Module_Write_symbols ?m 2)) = Some m'"
      "\<forall>frame. 0x1000 \<le> relative_address frame \<and> relative_address frame \<le> 0x101f \<longrightarrow>
        (\<exists>c. FindCFIFrameInfo m' frame = Some c \<and> cfi_value c = rules_at demo_entry (relative_address frame))"
    by (auto simp: m ends)
  have "relative_address (StackFrame_new 0x6001 0x5000) = 0x1001"
    by (simp add: relative_address_def StackFrame_new_def)
  then obtain c where c: "FindCFIFrameInfo m' (StackFrame_new 0x6001 0x5000) = Some c" "cfi_value c = rules_at demo_entry 0x1001"
    using m'(2) by force
  have "rules_at demo_entry 0x1001 ''.cfa'' = Some ''$rsp 16 +''"
    by (simp add: rules_at_def demo_entry_def)
  moreover obtain p' where "CallFrameInfo_Start demo_section demo_parser = Some (p', True)" "cm_module (p_handler p') = ?m"
    using demo_run by auto
  ultimately show ?thesis
    using m'(1) c by metis
qed

end
