(* ===== verification/Dump_Numbering.thy ===== *)
theory Dump_Numbering
  imports Dump_Load
begin

text \<open>
  The numbers that a write of a symbol file gives to files and to inline origins: a number is the rank of
  the name among the names that are used. \<open>InlineDFS\<close> is a traversal of the calls in their order.
\<close>

section \<open>Ranks in ordered maps\<close>





section \<open>Files\<close>



section \<open>Traversals\<close>












section \<open>Inline origins\<close>






section \<open>The numbers in a written file\<close>




end
