(* ===== verification/Static_Properties.thy ===== *)
theory Static_Properties
  imports Static_Contained_Range_Map
begin

text \<open>
  What the read-only maps promise, over any memory that holds the bytes the serializers write: the
  searches of a static map find what \<open>std::map\<close> finds, a validated map is strictly ascending, and
  the lookups of static range maps, address maps and nested range maps refine those of the maps that
  were serialized.
\<close>

lemma static_holds_store:
  assumes "region a (length (map_bytes K kvs))" "om_sorted kvs" "\<forall>kv\<in>set kvs. kvalid K (fst kv)"
  shows "static_holds K (store mem a (map_bytes K kvs)) a kvs"
proof -
  have "length (map_bytes K kvs) < 2 ^ 63"
    using assms(1) by (simp add: region_def)
  then show ?thesis
    using assms by (simp add: static_holds_def holds_store)
qed

lemma static_holds_store_u64:
  assumes "header_bytes key_u64 (length kvs) + length (concat (map snd kvs)) < 2 ^ 20" "om_sorted kvs"
  shows "static_holds key_u64 (store mem 4096 (map_bytes key_u64 kvs)) 4096 kvs"
  by (rule static_holds_store) (use assms in \<open>simp_all add: region_def key_u64.length_map_bytes\<close>)

lemma takeWhile_ascending:
  assumes "sorted (map fst kvs)" "\<And>x y. x \<le> y \<Longrightarrow> P y \<Longrightarrow> P x"
  shows "takeWhile (\<lambda>p. P (fst p)) kvs = filter (\<lambda>p. P (fst p)) kvs"
  using assms(1)
proof (induction kvs)
  case (Cons p kvs)
  have "filter (\<lambda>p. P (fst p)) kvs = []" if "\<not> P (fst p)"
    using that Cons.prems assms(2) by (auto simp: filter_empty_conv)
  then show ?case
    using Cons by auto
qed simp

lemma static_find_cases:
  assumes h: "static_holds key_u64 mem raw kvs"
  shows "it_neq (sm_find key_u64 mem (StaticMap_at mem raw) key) (sm_end mem (StaticMap_at mem raw)) \<longleftrightarrow> key \<in> fst ` set kvs"
    and "(key, v) \<in> set kvs \<Longrightarrow> it_GetKey key_u64 mem (sm_find key_u64 mem (StaticMap_at mem raw) key) = key \<and>
      lives mem (GetValueRawPtr mem (sm_find key_u64 mem (StaticMap_at mem raw) key)) v"
proof -
  have s: "om_sorted kvs"
    using h by (simp add: static_holds_def)
  note f = key_u64.static_lookups(3) [OF h, of key]
  show "it_neq (sm_find key_u64 mem (StaticMap_at mem raw) key) (sm_end mem (StaticMap_at mem raw)) \<longleftrightarrow> key \<in> fst ` set kvs"
    using om_find_iff [OF s, of key] om_find_cases [of kvs key]
    by (auto simp: f it_neq_def sm_end_def key_u64.IteratorAtIndex_simps [OF h] key_u64.static_holds_num_nodes [OF h])
  assume v: "(key, v) \<in> set kvs"
  then have i: "om_find kvs key < length kvs" "fst (kvs ! om_find kvs key) = key"
    using om_find_iff [OF s, of key] om_find_cases [of kvs key] by force+
  have "map_of kvs key = Some v"
    using s v by (simp add: om_sorted_def strict_sorted_iff)
  then have "snd (kvs ! om_find kvs key) = v"
    using om_lookup_eq [OF s, of key] i(1) by (simp add: om_lookup_def Let_def)
  then show "it_GetKey key_u64 mem (sm_find key_u64 mem (StaticMap_at mem raw) key) = key \<and>
      lives mem (GetValueRawPtr mem (sm_find key_u64 mem (StaticMap_at mem raw) key)) v"
    using key_u64.static_holds_GetKey [OF h, of "int (om_find kvs key)"]
      key_u64.static_holds_lives [OF h, of "int (om_find kvs key)"] i by (simp add: f)
qed

text \<open>C22. Over the bytes of a serialized map, \<open>find\<close> reaches the end exactly for the keys that are not in
  the map, and otherwise an iterator with the key and the address of the bytes of its value;
  \<open>lower_bound\<close> and \<open>upper_bound\<close> stop where those of \<open>std::map\<close> stop.\<close>

theorem StaticMap_searches:
  assumes "static_holds key_u64 mem raw kvs"
  shows "(it_neq (sm_find key_u64 mem (StaticMap_at mem raw) key) (sm_end mem (StaticMap_at mem raw)) \<longleftrightarrow> key \<in> fst ` set kvs) \<and>
    (\<forall>v. (key, v) \<in> set kvs \<longrightarrow> it_GetKey key_u64 mem (sm_find key_u64 mem (StaticMap_at mem raw) key) = key \<and>
      lives mem (GetValueRawPtr mem (sm_find key_u64 mem (StaticMap_at mem raw) key)) v) \<and>
    it_index (sm_lower_bound key_u64 mem (StaticMap_at mem raw) key) = int (length (filter (\<lambda>p. fst p < key) kvs)) \<and>
    it_index (sm_upper_bound key_u64 mem (StaticMap_at mem raw) key) = int (length (filter (\<lambda>p. fst p \<le> key) kvs))"
proof (intro conjI allI impI)
  have s: "sorted (map fst kvs)"
    using assms by (simp add: static_holds_def om_sorted_def strict_sorted_imp_sorted)
  have "takeWhile (\<lambda>p. fst p < key) kvs = filter (\<lambda>p. fst p < key) kvs"
    by (rule takeWhile_ascending [OF s, of "\<lambda>x. x < key"]) simp
  then show "it_index (sm_lower_bound key_u64 mem (StaticMap_at mem raw) key) = int (length (filter (\<lambda>p. fst p < key) kvs))"
    by (simp add: key_u64.static_lookups(1) [OF assms] key_u64.IteratorAtIndex_simps [OF assms] om_lower_bound_def)
  have "takeWhile (\<lambda>p. fst p \<le> key) kvs = filter (\<lambda>p. fst p \<le> key) kvs"
    by (rule takeWhile_ascending [OF s, of "\<lambda>x. x \<le> key"]) simp
  then show "it_index (sm_upper_bound key_u64 mem (StaticMap_at mem raw) key) = int (length (filter (\<lambda>p. fst p \<le> key) kvs))"
    by (simp add: key_u64.static_lookups(2) [OF assms] key_u64.IteratorAtIndex_simps [OF assms] om_upper_bound_def)
qed (use static_find_cases [OF assms] in auto)

definition example_kvs :: "(u64 \<times> u8 list) list" where
  "example_kvs = [(3, [1]), (7, [2, 2]), (9, [4])]"

lemma example_kvs_held: "static_holds key_u64 (store (\<lambda>_. 0) 4096 (map_bytes key_u64 example_kvs)) 4096 example_kvs"
  by (rule static_holds_store_u64) (simp_all add: example_kvs_def header_bytes_def om_sorted_def)

lemma StaticMap_searches_witness:
  "\<exists>mem. it_GetKey key_u64 mem (sm_find key_u64 mem (StaticMap_at mem 4096) 7) = 7 \<and>
     lives mem (GetValueRawPtr mem (sm_find key_u64 mem (StaticMap_at mem 4096) 7)) [2, 2] \<and>
     it_index (sm_lower_bound key_u64 mem (StaticMap_at mem 4096) 7) = 1"
  using StaticMap_searches [OF example_kvs_held, of 7]
  by (intro exI [of _ "store (\<lambda>_. 0) 4096 (map_bytes key_u64 example_kvs)"])
    (simp add: example_kvs_def)

text \<open>C23. \<open>ValidateInMemoryStructure\<close> accepts every serialized map with non-empty values and a header
  below four gigabytes, and in whatever memory it accepts, keys and offsets are strictly ascending.\<close>

theorem ValidateInMemoryStructure_correct:
  "(static_holds key_u64 mem raw kvs \<and> header_bytes key_u64 (length kvs) < 2 ^ 32 \<and> (\<forall>kv\<in>set kvs. snd kv \<noteq> []) \<longrightarrow>
      ValidateInMemoryStructure key_u64 mem (StaticMap_at mem raw)) \<and>
   (ValidateInMemoryStructure key_u64 mem m \<and> 0 \<le> i \<and> i < j \<and> j < num_nodes m \<longrightarrow>
      GetKeyAtIndex key_u64 mem m i < GetKeyAtIndex key_u64 mem m j \<and>
      rd_index mem (offsets_addr (raw_data m)) i < rd_index mem (offsets_addr (raw_data m)) j)"
  using key_u64.ValidateInMemoryStructure_accepts key_u64.ValidateInMemoryStructure_sorted by blast

lemma ValidateInMemoryStructure_correct_witness:
  "\<exists>mem. ValidateInMemoryStructure key_u64 mem (StaticMap_at mem 4096) \<and>
     GetKeyAtIndex key_u64 mem (StaticMap_at mem 4096) 0 < GetKeyAtIndex key_u64 mem (StaticMap_at mem 4096) 2"
proof -
  let ?mem = "store (\<lambda>_. 0) 4096 (map_bytes key_u64 example_kvs)"
  have "ValidateInMemoryStructure key_u64 ?mem (StaticMap_at ?mem 4096)"
    using ValidateInMemoryStructure_correct [of ?mem 4096 example_kvs] example_kvs_held
    by (simp add: example_kvs_def header_bytes_def)
  then show ?thesis
    using ValidateInMemoryStructure_correct [of ?mem 4096 example_kvs "StaticMap_at ?mem 4096" 0 2]
      key_u64.static_holds_num_nodes [OF example_kvs_held] by (auto simp: example_kvs_def)
qed

text \<open>C24. Over the bytes of a serialized range map, every lookup of \<open>StaticRangeMap\<close> succeeds exactly when
  that of the range map does, and gives the same base and size and the address of the bytes of the
  same entry; the lookup by index does so for every index that is not negative, and dereferences a null
  pointer for a negative one.\<close>

theorem StaticRangeMap_refines:
  assumes "static_holds key_u64 mem raw (range_bytes eb m)"
  shows "rel_option (same_lookup mem eb) (SRM_RetrieveRange mem (StaticMap_at mem raw) a) (RetrieveRange m a) \<and>
    rel_option (same_lookup mem eb) (SRM_RetrieveNearestRange mem (StaticMap_at mem raw) a) (RetrieveNearestRange m a) \<and>
    (\<forall>i\<ge>0. \<exists>result. SRM_RetrieveRangeAtIndex mem (StaticMap_at mem raw) i = Some result \<and>
       rel_option (same_lookup mem eb) result (RetrieveRangeAtIndex m i)) \<and>
    (\<forall>i<0. SRM_RetrieveRangeAtIndex mem (StaticMap_at mem raw) i = None) \<and>
    SRM_GetCount (StaticMap_at mem raw) = int (GetCount m)"
proof -
  have "SRM_GetCount (StaticMap_at mem raw) = int (GetCount m)"
    by (simp add: SRM_GetCount_def GetCount_def key_u64.static_holds_num_nodes [OF assms] range_bytes_def)
  then show ?thesis
    using SRM_RetrieveRange_refines [OF assms] SRM_RetrieveNearestRange_refines [OF assms]
      SRM_RetrieveRangeAtIndex_refines [OF assms] by blast
qed

definition example_ranges :: "(64, u8) range_omap" where
  "example_ranges = [(19, \<lparr>r_base = 16, r_delta = 0, r_entry = 5\<rparr>), (47, \<lparr>r_base = 32, r_delta = 0, r_entry = 6\<rparr>)]"

lemma StaticRangeMap_refines_witness:
  "\<exists>mem p. SRM_RetrieveRange mem (StaticMap_at mem 4096) 18 = Some (p, 16, 4) \<and> lives mem p [5]"
proof -
  let ?mem = "store (\<lambda>_. 0) 4096 (map_bytes key_u64 (range_bytes (\<lambda>e. [e]) example_ranges))"
  have "static_holds key_u64 ?mem 4096 (range_bytes (\<lambda>e. [e]) example_ranges)"
    by (rule static_holds_store_u64) (simp_all add: example_ranges_def range_bytes_def header_bytes_def om_sorted_def)
  from StaticRangeMap_refines [OF this, of 18]
  show ?thesis
    by (intro exI [of _ ?mem]) (auto simp: example_ranges_def RetrieveRange_def om_lower_bound_def range_result_def
      same_lookup_def option_rel_Some2)
qed

text \<open>Over the bytes of a serialized address map, \<open>StaticAddressMap::Retrieve\<close> gives the key that the
  address map gives, with the address of the bytes of its entry.\<close>

theorem StaticAddressMap_refines:
  assumes "static_holds key_u64 mem raw (map (\<lambda>p. (fst p, eb (snd p))) m)"
  shows "rel_option (\<lambda>(p, k) (e, k'). lives mem p (eb e) \<and> k = k')
    (SAM_Retrieve mem (StaticMap_at mem raw) a) (AddressMap_Retrieve m a)"
  by (rule SAM_Retrieve_refines [OF assms])

lemma StaticAddressMap_refines_witness:
  "\<exists>mem p. SAM_Retrieve mem (StaticMap_at mem 4096) 8 = Some (p, 7) \<and> lives mem p [2, 2]"
proof -
  let ?mem = "store (\<lambda>_. 0) 4096 (map_bytes key_u64 example_kvs)"
  have "static_holds key_u64 ?mem 4096 (map (\<lambda>p. (fst p, id (snd p))) example_kvs)"
    using example_kvs_held by simp
  from StaticAddressMap_refines [OF this, of 8]
  show ?thesis
    by (intro exI [of _ ?mem]) (auto simp: example_kvs_def AddressMap_Retrieve_def om_upper_bound_def option_rel_Some2)
qed

text \<open>C25. Over the bytes of a serialized tree of nested ranges, both retrievals return: the first gives
  the entry that the tree gives, the second all its entries, innermost first, each by the
  address of its bytes.\<close>

theorem StaticContainedRangeMap_refines:
  assumes "scrm_holds mem a eb t" "crm_ok allow t"
  shows "(\<exists>found. SCRM_RetrieveRange mem (SCRM_at mem a) address = Some found \<and>
      rel_option (entry_at mem eb) found (CRM_RetrieveRange t address)) \<and>
    (\<exists>ptrs. SCRM_RetrieveRanges mem (SCRM_at mem a) address = Some ptrs \<and>
      list_all2 (entry_at mem eb) ptrs (CRM_RetrieveRanges t address))"
  using SCRM_RetrieveRange_refines [OF assms] SCRM_RetrieveRanges_refines [OF assms] by blast

definition example_tree :: "(u64, u8) ContainedRangeMap" where
  "example_tree = CRM 0 0 [(31, CRM 16 1 [(23, CRM 20 2 [])])]"

lemma StaticContainedRangeMap_refines_witness:
  "\<exists>mem p q. SCRM_RetrieveRanges mem (SCRM_at mem 4096) 21 = Some [p, q] \<and> lives mem p [2] \<and> lives mem q [1]"
proof -
  let ?mem = "store (\<lambda>_. 0) 4096 (crm_bytes (\<lambda>e. [e]) example_tree)"
  have len: "length (crm_bytes (\<lambda>e. [e]) example_tree) < 2 ^ 20"
    by (simp add: example_tree_def crm_bytes.simps [of _ "CRM b e m" for b e m, simplified]
      key_u64.length_map_bytes header_bytes_def)
  then have "scrm_holds ?mem 4096 (\<lambda>e. [e]) example_tree"
    by (simp add: scrm_holds_def region_def holds_store)
  moreover have "crm_ok False example_tree"
    by (simp add: example_tree_def crm_ok_CRM crm_ranges_CRM disjoint_by_def range_within_def same_range_def)
  ultimately have "\<exists>ptrs. SCRM_RetrieveRanges ?mem (SCRM_at ?mem 4096) 21 = Some ptrs \<and>
      list_all2 (entry_at ?mem (\<lambda>e. [e])) ptrs (CRM_RetrieveRanges example_tree 21)"
    using StaticContainedRangeMap_refines by blast
  moreover have "CRM_RetrieveRanges example_tree 21 = [2, 1]"
    by (simp add: example_tree_def CRM_RetrieveRanges.simps Let_def om_lower_bound_def)
  ultimately show ?thesis
    by (auto simp: list_all2_Cons2 entry_at_def)
qed

end
