(* ===== verification/Dwarf_Line.thy ===== *)
theory Dwarf_Line
  imports Dwarf_Reader "HOL-Library.Monad_Syntax"
begin

text \<open>
  \<open>LineInfo\<close> of common/dwarf/dwarf2reader.h and dwarf2reader.cc: the reader of line number programs, with
  the state machine of common/dwarf/line_state_machine.h. The handler is a record of functions on its
  state. \<open>None\<close> is a run without a result: a failed assertion, a null pointer taken for a string, a
  division by zero, a read outside the arrays on the stack, or a loop that does not end. Messages to
  stderr are left out. A buffer pointer is an address of the memory, 0 the null pointer.
\<close>

section \<open>State\<close>

record 'h Line_Handler =
  on_DefineDir :: "string \<Rightarrow> u32 \<Rightarrow> 'h \<Rightarrow> 'h"
  on_DefineFile :: "string \<Rightarrow> int \<Rightarrow> u32 \<Rightarrow> u64 \<Rightarrow> u64 \<Rightarrow> 'h \<Rightarrow> 'h option"
  on_AddLine :: "u64 \<Rightarrow> u64 \<Rightarrow> u32 \<Rightarrow> u32 \<Rightarrow> u32 \<Rightarrow> 'h \<Rightarrow> 'h"

text \<open>\<open>line_base\<close> is an \<open>int8_t\<close>, kept as the word with its bits.\<close>

record LineInfoHeader =
  total_length :: u64
  lh_version :: u16
  prologue_length :: u64
  min_insn_length :: u8
  default_is_stmt :: bool
  line_base :: u8
  line_range :: u8
  opcode_base :: u8
  std_opcode_lengths :: "u8 list"

record LineStateMachine =
  lsm_file_num :: u32
  lsm_address :: u64
  lsm_line_num :: u32
  lsm_column_num :: u32
  lsm_is_stmt :: bool
  lsm_basic_block :: bool
  lsm_end_sequence :: bool

definition LSM_Reset :: "bool \<Rightarrow> LineStateMachine" where
  "LSM_Reset stmt = \<lparr>lsm_file_num = 1, lsm_address = 0, lsm_line_num = 1, lsm_column_num = 0, lsm_is_stmt = stmt,
     lsm_basic_block = False, lsm_end_sequence = False\<rparr>"

text \<open>
  What does not change while a line program is read. \<open>li_uninit\<close> is what the arrays and the counter for
  the columns of the tables of DWARF 5 hold before they are written.
\<close>

record 'h LineInfo =
  li_mem :: memory
  li_buffer :: u64
  li_buffer_length :: u64
  li_string_buffer :: u64
  li_string_buffer_length :: u64
  li_line_string_buffer :: u64
  li_line_string_buffer_length :: u64
  li_handler :: "'h Line_Handler"
  li_uninit :: u32

section \<open>Forms and columns\<close>

abbreviation (input) DW_FORM_data2 :: u32 where "DW_FORM_data2 \<equiv> 0x05"
abbreviation (input) DW_FORM_data4 :: u32 where "DW_FORM_data4 \<equiv> 0x06"
abbreviation (input) DW_FORM_data8 :: u32 where "DW_FORM_data8 \<equiv> 0x07"
abbreviation (input) DW_FORM_string :: u32 where "DW_FORM_string \<equiv> 0x08"
abbreviation (input) DW_FORM_data1 :: u32 where "DW_FORM_data1 \<equiv> 0x0b"
abbreviation (input) DW_FORM_strp :: u32 where "DW_FORM_strp \<equiv> 0x0e"
abbreviation (input) DW_FORM_udata :: u32 where "DW_FORM_udata \<equiv> 0x0f"
abbreviation (input) DW_FORM_line_strp :: u32 where "DW_FORM_line_strp \<equiv> 0x1f"

abbreviation (input) DW_LNCT_path :: u32 where "DW_LNCT_path \<equiv> 1"
abbreviation (input) DW_LNCT_directory_index :: u32 where "DW_LNCT_directory_index \<equiv> 2"
abbreviation (input) DW_LNCT_timestamp :: u32 where "DW_LNCT_timestamp \<equiv> 3"
abbreviation (input) DW_LNCT_size :: u32 where "DW_LNCT_size \<equiv> 4"
abbreviation (input) DW_LNCT_MD5 :: u32 where "DW_LNCT_MD5 \<equiv> 5"

primrec read_formats :: "memory \<Rightarrow> nat \<Rightarrow> u64 \<Rightarrow> (u64 \<times> (u32 \<times> u32) list) option" where
  "read_formats mem 0 lineptr = Some (lineptr, [])"
| "read_formats mem (Suc n) lineptr = do {
     (content_type, len) \<leftarrow> ReadUnsignedLEB128 mem lineptr;
     let lineptr = lineptr + len;
     (form, len) \<leftarrow> ReadUnsignedLEB128 mem lineptr;
     (lineptr, formats) \<leftarrow> read_formats mem n (lineptr + len);
     Some (lineptr, (ucast content_type, ucast form) # formats)
   }"

text \<open>The two arrays are one list of pairs; what is not written keeps its values.\<close>

definition ReadTypesAndForms ::
  "memory \<Rightarrow> u64 \<Rightarrow> (u32 \<times> u32) list \<Rightarrow> u32 \<Rightarrow> u32 \<Rightarrow> (u64 \<times> (u32 \<times> u32) list \<times> u32) option" where
  "ReadTypesAndForms mem lineptr formats max_types format_count = do {
     (c, len) \<leftarrow> ReadUnsignedLEB128 mem lineptr;
     let lineptr = lineptr + len;
     let count = (ucast c :: u32);
     if count < 1 \<or> count > max_types then Some (lineptr, formats, format_count)
     else do {
       (lineptr, new) \<leftarrow> read_formats mem (unat count) lineptr;
       Some (lineptr, new @ drop (unat count) formats, count)
     }
   }"

definition ReadStringForm :: "'h LineInfo \<Rightarrow> ByteReader \<Rightarrow> u32 \<Rightarrow> u64 \<Rightarrow> (u64 \<times> u64) option" where
  "ReadStringForm li r form lineptr =
     (let mem = li_mem li in
      if form = DW_FORM_string then map_option (\<lambda>n. (lineptr, lineptr + of_nat n + 1)) (strlen mem lineptr)
      else if form = DW_FORM_strp then do {
        offset \<leftarrow> ReadOffset r mem lineptr;
        if offset < li_string_buffer_length li \<and> li_string_buffer li \<noteq> 0
        then Some (li_string_buffer li + offset, lineptr + offset_size r) else None
      }
      else if form = DW_FORM_line_strp then do {
        offset \<leftarrow> ReadOffset r mem lineptr;
        if offset < li_line_string_buffer_length li \<and> li_line_string_buffer li \<noteq> 0
        then Some (li_line_string_buffer li + offset, lineptr + offset_size r) else None
      }
      else None)"

definition ReadUnsignedData :: "memory \<Rightarrow> ByteReader \<Rightarrow> u32 \<Rightarrow> u64 \<Rightarrow> (u64 \<times> u64) option" where
  "ReadUnsignedData mem r form lineptr =
     (if form = DW_FORM_data1 then Some (ucast (ReadOneByte mem lineptr), lineptr + 1)
      else if form = DW_FORM_data2 then Some (ucast (ReadTwoBytes r mem lineptr), lineptr + 2)
      else if form = DW_FORM_data4 then Some (ReadFourBytes r mem lineptr, lineptr + 4)
      else if form = DW_FORM_data8 then Some (ReadEightBytes r mem lineptr, lineptr + 8)
      else if form = DW_FORM_udata then map_option (\<lambda>(v, len). (v, lineptr + len)) (ReadUnsignedLEB128 mem lineptr)
      else Some (0, lineptr))"

text \<open>The values of a row of the file table; the name is a pointer, null until it is read.\<close>

record FileRow =
  fr_name :: "u64 option"
  fr_dirindex :: u64
  fr_mod_time :: u64
  fr_length :: u64

definition file_column :: "'h LineInfo \<Rightarrow> ByteReader \<Rightarrow> u32 \<times> u32 \<Rightarrow> u64 \<Rightarrow> FileRow \<Rightarrow> (u64 \<times> FileRow) option" where
  "file_column li r column lineptr row =
     (let (content_type, form) = column; mem = li_mem li in
      if content_type = DW_LNCT_path then
        map_option (\<lambda>(name, lineptr). (lineptr, row\<lparr>fr_name := Some name\<rparr>)) (ReadStringForm li r form lineptr)
      else if content_type = DW_LNCT_directory_index then
        map_option (\<lambda>(v, lineptr). (lineptr, row\<lparr>fr_dirindex := v\<rparr>)) (ReadUnsignedData mem r form lineptr)
      else if content_type = DW_LNCT_timestamp then
        map_option (\<lambda>(v, lineptr). (lineptr, row\<lparr>fr_mod_time := v\<rparr>)) (ReadUnsignedData mem r form lineptr)
      else if content_type = DW_LNCT_size then
        map_option (\<lambda>(v, lineptr). (lineptr, row\<lparr>fr_length := v\<rparr>)) (ReadUnsignedData mem r form lineptr)
      else if content_type = DW_LNCT_MD5 then Some (lineptr + 16, row)
      else None)"

primrec file_columns :: "'h LineInfo \<Rightarrow> ByteReader \<Rightarrow> (u32 \<times> u32) list \<Rightarrow> nat \<Rightarrow> nat \<Rightarrow> u64 \<Rightarrow> FileRow \<Rightarrow> (u64 \<times> FileRow) option" where
  "file_columns li r formats 0 col lineptr row = Some (lineptr, row)"
| "file_columns li r formats (Suc n) col lineptr row =
     (if length formats \<le> col then None
      else do {
        (lineptr, row) \<leftarrow> file_column li r (formats ! col) lineptr row;
        file_columns li r formats n (Suc col) lineptr row
      })"

definition ReadFileRow :: "'h LineInfo \<Rightarrow> ByteReader \<Rightarrow> (u32 \<times> u32) list \<Rightarrow> u32 \<Rightarrow> u32 \<Rightarrow> u64 \<Rightarrow> 'h \<Rightarrow> (u64 \<times> 'h) option" where
  "ReadFileRow li r formats row_num format_count lineptr h = do {
     (lineptr, row) \<leftarrow> file_columns li r formats (unat format_count) 0 lineptr
       \<lparr>fr_name = None, fr_dirindex = 0, fr_mod_time = 0, fr_length = 0\<rparr>;
     name \<leftarrow> fr_name row;
     filename \<leftarrow> rd_cstring (li_mem li) name;
     h \<leftarrow> on_DefineFile (li_handler li) filename (sint row_num) (ucast (fr_dirindex row)) (fr_mod_time row) (fr_length row) h;
     Some (lineptr, h)
   }"

text \<open>A row of the directory table: only the path is read.\<close>

primrec dir_columns :: "'h LineInfo \<Rightarrow> ByteReader \<Rightarrow> (u32 \<times> u32) list \<Rightarrow> nat \<Rightarrow> nat \<Rightarrow> u64 \<Rightarrow> u64 option \<Rightarrow> (u64 \<times> u64 option) option" where
  "dir_columns li r formats 0 col lineptr name = Some (lineptr, name)"
| "dir_columns li r formats (Suc n) col lineptr name =
     (if length formats \<le> col then None
      else if fst (formats ! col) = DW_LNCT_path then do {
        (name, lineptr) \<leftarrow> ReadStringForm li r (snd (formats ! col)) lineptr;
        dir_columns li r formats n (Suc col) lineptr (Some name)
      }
      else dir_columns li r formats n (Suc col) lineptr name)"

primrec read_dir_rows :: "'h LineInfo \<Rightarrow> ByteReader \<Rightarrow> (u32 \<times> u32) list \<Rightarrow> u32 \<Rightarrow> nat \<Rightarrow> u32 \<Rightarrow> u64 \<Rightarrow> 'h \<Rightarrow> (u64 \<times> 'h) option" where
  "read_dir_rows li r formats format_count 0 row lineptr h = Some (lineptr, h)"
| "read_dir_rows li r formats format_count (Suc n) row lineptr h = do {
     (lineptr, name) \<leftarrow> dir_columns li r formats (unat format_count) 0 lineptr None;
     name \<leftarrow> name;
     dirname \<leftarrow> rd_cstring (li_mem li) name;
     read_dir_rows li r formats format_count n (row + 1) lineptr (on_DefineDir (li_handler li) dirname row h)
   }"

primrec read_file_rows :: "'h LineInfo \<Rightarrow> ByteReader \<Rightarrow> (u32 \<times> u32) list \<Rightarrow> u32 \<Rightarrow> nat \<Rightarrow> u32 \<Rightarrow> u64 \<Rightarrow> 'h \<Rightarrow> (u64 \<times> 'h) option" where
  "read_file_rows li r formats format_count 0 row lineptr h = Some (lineptr, h)"
| "read_file_rows li r formats format_count (Suc n) row lineptr h = do {
     (lineptr, h) \<leftarrow> ReadFileRow li r formats row format_count lineptr h;
     read_file_rows li r formats format_count n (row + 1) lineptr h
   }"

section \<open>The header\<close>

text \<open>The tables of versions up to 4 end with an empty name; nothing else bounds these loops.\<close>

partial_function (option) read_dirs :: "'h LineInfo \<Rightarrow> u64 \<Rightarrow> u32 \<Rightarrow> 'h \<Rightarrow> (u64 \<times> 'h) option" where
  "read_dirs li lineptr dirindex h =
     (if li_mem li lineptr = 0 then Some (lineptr, h)
      else do {
        dirname \<leftarrow> rd_cstring (li_mem li) lineptr;
        read_dirs li (lineptr + of_nat (length dirname) + 1) (dirindex + 1) (on_DefineDir (li_handler li) dirname dirindex h)
      })"

definition read_file_entry :: "'h LineInfo \<Rightarrow> ByteReader \<Rightarrow> u64 \<Rightarrow> u32 \<Rightarrow> 'h \<Rightarrow> (u64 \<times> 'h) option" where
  "read_file_entry li r lineptr fileindex h = do {
     (name, lineptr) \<leftarrow> ReadStringForm li r DW_FORM_string lineptr;
     filename \<leftarrow> rd_cstring (li_mem li) name;
     (dirindex, len) \<leftarrow> ReadUnsignedLEB128 (li_mem li) lineptr;
     let lineptr = lineptr + len;
     (mod_time, len) \<leftarrow> ReadUnsignedLEB128 (li_mem li) lineptr;
     let lineptr = lineptr + len;
     (filelength, len) \<leftarrow> ReadUnsignedLEB128 (li_mem li) lineptr;
     h \<leftarrow> on_DefineFile (li_handler li) filename (sint fileindex) (ucast dirindex) mod_time filelength h;
     Some (lineptr + len, h)
   }"

partial_function (option) read_files :: "'h LineInfo \<Rightarrow> ByteReader \<Rightarrow> u64 \<Rightarrow> u32 \<Rightarrow> 'h \<Rightarrow> (u64 \<times> 'h) option" where
  "read_files li r lineptr fileindex h =
     (if li_mem li lineptr = 0 then Some (lineptr, h)
      else Option.bind (read_file_entry li r lineptr fileindex h)
        (\<lambda>p. read_files li r (fst p) (fileindex + 1) (snd p)))"

definition read_tables_4 :: "'h LineInfo \<Rightarrow> ByteReader \<Rightarrow> u64 \<Rightarrow> 'h \<Rightarrow> (u64 \<times> 'h) option" where
  "read_tables_4 li r lineptr h = do {
     (lineptr, h) \<leftarrow> read_dirs li lineptr 1 (on_DefineDir (li_handler li) [] 0 h);
     let lineptr = lineptr + 1;
     h \<leftarrow> on_DefineFile (li_handler li) [] 0 0 0 0 h;
     (lineptr, h) \<leftarrow> read_files li r lineptr 1 h;
     Some (lineptr + 1, h)
   }"

definition kMaxTypesAndForms :: nat where
  "kMaxTypesAndForms = 5"

definition read_tables_5 :: "'h LineInfo \<Rightarrow> ByteReader \<Rightarrow> u64 \<Rightarrow> 'h \<Rightarrow> (u64 \<times> 'h) option" where
  "read_tables_5 li r lineptr h = do {
     let mem = li_mem li;
     let formats = replicate kMaxTypesAndForms (li_uninit li, li_uninit li);
     (lineptr, formats, format_count) \<leftarrow> ReadTypesAndForms mem lineptr formats (of_nat kMaxTypesAndForms) (li_uninit li);
     (entry_count, len) \<leftarrow> ReadUnsignedLEB128 mem lineptr;
     (lineptr, h) \<leftarrow> read_dir_rows li r formats format_count (unat (ucast entry_count :: u32)) 0 (lineptr + len) h;
     (lineptr, formats, format_count) \<leftarrow> ReadTypesAndForms mem lineptr formats (of_nat kMaxTypesAndForms) format_count;
     (entry_count, len) \<leftarrow> ReadUnsignedLEB128 mem lineptr;
     read_file_rows li r formats format_count (unat (ucast entry_count :: u32)) 0 (lineptr + len) h
   }"

text \<open>The lengths of the standard opcodes: entry 0 is 0, and one entry behind the last stays 0.\<close>

definition read_opcode_lengths :: "memory \<Rightarrow> u64 \<Rightarrow> u8 \<Rightarrow> u8 list" where
  "read_opcode_lengths mem lineptr base =
     map (\<lambda>i. if 1 \<le> i \<and> i < unat base then mem (lineptr + of_nat (i - 1)) else 0) [0..<unat base + 1]"

text \<open>The address size of the header, from version 5 on; before, it is set by the compilation unit.\<close>

definition read_address_size :: "memory \<Rightarrow> u16 \<Rightarrow> u64 \<Rightarrow> ByteReader \<Rightarrow> (u64 \<times> ByteReader) option" where
  "read_address_size mem version lineptr r =
     (if version \<ge> 5 then map_option (\<lambda>r. (lineptr + 2, r)) (SetAddressSize (ucast (ReadOneByte mem lineptr)) r)
      else if address_size r = 0 then None else Some (lineptr, r))"

text \<open>The fixed fields, up to the lengths of the standard opcodes.\<close>

definition read_fields :: "'h LineInfo \<Rightarrow> ByteReader \<Rightarrow> (LineInfoHeader \<times> u64 \<times> ByteReader) option" where
  "read_fields li r = do {
     let mem = li_mem li;
     let lineptr = li_buffer li;
     (initial_length, initial_length_size, r) \<leftarrow> ReadInitialLength mem lineptr r;
     if \<not> li_buffer li + initial_length_size + initial_length \<le> li_buffer li + li_buffer_length li then None
     else do {
       let lineptr = lineptr + initial_length_size;
       let version = ReadTwoBytes r mem lineptr;
       (lineptr, r) \<leftarrow> read_address_size mem version (lineptr + 2) r;
       prologue \<leftarrow> ReadOffset r mem lineptr;
       let lineptr = lineptr + offset_size r;
       let min_length = ReadOneByte mem lineptr;
       let lineptr = lineptr + 1;
       if version \<ge> 4 \<and> ReadOneByte mem lineptr \<noteq> 1 then None
       else do {
         let lineptr = (if version \<ge> 4 then lineptr + 1 else lineptr);
         let base = ReadOneByte mem (lineptr + 3);
         Some (\<lparr>total_length = initial_length, lh_version = version, prologue_length = prologue, min_insn_length = min_length,
             default_is_stmt = (ReadOneByte mem lineptr \<noteq> 0), line_base = mem (lineptr + 1),
             line_range = ReadOneByte mem (lineptr + 2), opcode_base = base,
             std_opcode_lengths = read_opcode_lengths mem (lineptr + 4) base\<rparr>,
           lineptr + 4 + of_nat (unat base - 1), r)
       }
     }
   }"

definition LineInfo_ReadHeader :: "'h LineInfo \<Rightarrow> ByteReader \<Rightarrow> 'h \<Rightarrow> (LineInfoHeader \<times> u64 \<times> ByteReader \<times> 'h) option" where
  "LineInfo_ReadHeader li r h = do {
     (header, lineptr, r) \<leftarrow> read_fields li r;
     (after_header, h) \<leftarrow> (if lh_version header \<le> 4 then read_tables_4 li r lineptr h else read_tables_5 li r lineptr h);
     Some (header, after_header, r, h)
   }"

section \<open>Opcodes\<close>

abbreviation (input) DW_LNS_extended_op :: u8 where "DW_LNS_extended_op \<equiv> 0"
abbreviation (input) DW_LNS_copy :: u8 where "DW_LNS_copy \<equiv> 1"
abbreviation (input) DW_LNS_advance_pc :: u8 where "DW_LNS_advance_pc \<equiv> 2"
abbreviation (input) DW_LNS_advance_line :: u8 where "DW_LNS_advance_line \<equiv> 3"
abbreviation (input) DW_LNS_set_file :: u8 where "DW_LNS_set_file \<equiv> 4"
abbreviation (input) DW_LNS_set_column :: u8 where "DW_LNS_set_column \<equiv> 5"
abbreviation (input) DW_LNS_negate_stmt :: u8 where "DW_LNS_negate_stmt \<equiv> 6"
abbreviation (input) DW_LNS_set_basic_block :: u8 where "DW_LNS_set_basic_block \<equiv> 7"
abbreviation (input) DW_LNS_const_add_pc :: u8 where "DW_LNS_const_add_pc \<equiv> 8"
abbreviation (input) DW_LNS_fixed_advance_pc :: u8 where "DW_LNS_fixed_advance_pc \<equiv> 9"
abbreviation (input) DW_LNE_end_sequence :: u8 where "DW_LNE_end_sequence \<equiv> 1"
abbreviation (input) DW_LNE_set_address :: u8 where "DW_LNE_set_address \<equiv> 2"
abbreviation (input) DW_LNE_define_file :: u8 where "DW_LNE_define_file \<equiv> 3"

text \<open>
  The line machine, the handler's state, and the flag behind \<open>lsm_passes_pc\<close>, if the pointer is not null.
\<close>

record 'h LineState =
  ls_lsm :: LineStateMachine
  ls_handler :: 'h
  ls_passes :: "bool option"

definition advance_lsm :: "u64 \<Rightarrow> u64 \<Rightarrow> 'h LineState \<Rightarrow> 'h LineState" where
  "advance_lsm pc advance s =
     (let lsm = ls_lsm s; new = lsm_address lsm + advance in
      s\<lparr>ls_passes := map_option (\<lambda>b. b \<or> lsm_address lsm \<le> pc \<and> pc < new) (ls_passes s),
        ls_lsm := lsm\<lparr>lsm_address := new\<rparr>\<rparr>)"

definition special_opcode :: "LineInfoHeader \<Rightarrow> u8 \<Rightarrow> u64 \<Rightarrow> 'h LineState \<Rightarrow> 'h LineState option" where
  "special_opcode header op pc s =
     (if line_range header = 0 then None
      else
        let opcode = op - opcode_base header;
            advance_address = of_nat ((unat opcode div unat (line_range header)) * unat (min_insn_length header));
            advance_line = int (unat opcode mod unat (line_range header)) + sint (line_base header);
            s = advance_lsm pc advance_address s; lsm = ls_lsm s
        in Some (s\<lparr>ls_lsm := lsm\<lparr>lsm_line_num := lsm_line_num lsm + of_int advance_line, lsm_basic_block := True\<rparr>\<rparr>))"

text \<open>
  The extended opcodes: the new state, the length of the opcode and whether a row is added. The three
  numbers of a file are all read at the same place, behind its name.
\<close>

definition extended_opcode ::
  "ByteReader \<Rightarrow> memory \<Rightarrow> 'h Line_Handler option \<Rightarrow> u64 \<Rightarrow> 'h LineState \<Rightarrow> ('h LineState \<times> u64 \<times> bool) option" where
  "extended_opcode r mem handler start s = do {
     (extended_op_len, templen) \<leftarrow> ReadUnsignedLEB128 mem start;
     let start = start + templen;
     let oplen = 1 + templen + extended_op_len;
     let extended_op = ReadOneByte mem start;
     let start = start + 1;
     if extended_op = DW_LNE_end_sequence then Some (s\<lparr>ls_lsm := (ls_lsm s)\<lparr>lsm_end_sequence := True\<rparr>\<rparr>, oplen, True)
     else if extended_op = DW_LNE_set_address then
       map_option (\<lambda>a. (s\<lparr>ls_lsm := (ls_lsm s)\<lparr>lsm_address := a\<rparr>\<rparr>, oplen, False)) (ReadAddress r mem start)
     else if extended_op = DW_LNE_define_file then do {
       filename \<leftarrow> rd_cstring mem start;
       let start = start + of_nat (length filename) + 1;
       (dirindex, t1) \<leftarrow> ReadUnsignedLEB128 mem start;
       (mod_time, t2) \<leftarrow> ReadUnsignedLEB128 mem start;
       (filelength, t3) \<leftarrow> ReadUnsignedLEB128 mem start;
       h \<leftarrow> (case handler of None \<Rightarrow> Some (ls_handler s)
         | Some H \<Rightarrow> on_DefineFile H filename (- 1) (ucast dirindex) mod_time filelength (ls_handler s));
       Some (s\<lparr>ls_handler := h\<rparr>, oplen + t1 + t2 + t3, False)
     }
     else Some (s, oplen, False)
   }"

text \<open>The arguments of an opcode that is not known.\<close>

primrec skip_numbers :: "memory \<Rightarrow> nat \<Rightarrow> u64 \<Rightarrow> u64 \<Rightarrow> u64 option" where
  "skip_numbers mem 0 start oplen = Some oplen"
| "skip_numbers mem (Suc n) start oplen =
     Option.bind (ReadUnsignedLEB128 mem start) (\<lambda>(v, templen). skip_numbers mem n (start + templen) (oplen + templen))"

definition standard_opcode ::
  "ByteReader \<Rightarrow> memory \<Rightarrow> 'h Line_Handler option \<Rightarrow> LineInfoHeader \<Rightarrow> u8 \<Rightarrow> u64 \<Rightarrow> u64 \<Rightarrow> 'h LineState \<Rightarrow>
    ('h LineState \<times> u64 \<times> bool) option" where
  "standard_opcode r mem handler header opcode start pc s =
     (let lsm = ls_lsm s in
      if opcode = DW_LNS_copy then Some (s\<lparr>ls_lsm := lsm\<lparr>lsm_basic_block := False\<rparr>\<rparr>, 1, True)
      else if opcode = DW_LNS_advance_pc then
        map_option (\<lambda>(advance, templen). (advance_lsm pc (ucast (min_insn_length header) * advance) s, 1 + templen, False))
          (ReadUnsignedLEB128 mem start)
      else if opcode = DW_LNS_advance_line then
        map_option (\<lambda>(advance, templen).
            (s\<lparr>ls_lsm := lsm\<lparr>lsm_line_num := lsm_line_num lsm + ucast advance\<rparr>,
               ls_passes := map_option (\<lambda>b. b \<or> lsm_address lsm = pc) (ls_passes s)\<rparr>, 1 + templen, False))
          (ReadSignedLEB128 mem start)
      else if opcode = DW_LNS_set_file then
        map_option (\<lambda>(fileno, templen). (s\<lparr>ls_lsm := lsm\<lparr>lsm_file_num := ucast fileno\<rparr>\<rparr>, 1 + templen, False))
          (ReadUnsignedLEB128 mem start)
      else if opcode = DW_LNS_set_column then
        map_option (\<lambda>(colno, templen). (s\<lparr>ls_lsm := lsm\<lparr>lsm_column_num := ucast colno\<rparr>\<rparr>, 1 + templen, False))
          (ReadUnsignedLEB128 mem start)
      else if opcode = DW_LNS_negate_stmt then Some (s\<lparr>ls_lsm := lsm\<lparr>lsm_is_stmt := \<not> lsm_is_stmt lsm\<rparr>\<rparr>, 1, False)
      else if opcode = DW_LNS_set_basic_block then Some (s\<lparr>ls_lsm := lsm\<lparr>lsm_basic_block := True\<rparr>\<rparr>, 1, False)
      else if opcode = DW_LNS_fixed_advance_pc then Some (advance_lsm pc (ucast (ReadTwoBytes r mem start)) s, 3, False)
      else if opcode = DW_LNS_const_add_pc then
        (if line_range header = 0 then None
         else Some (advance_lsm pc (of_nat (unat (min_insn_length header) *
             ((255 - unat (opcode_base header)) div unat (line_range header)))) s, 1, False))
      else if opcode = DW_LNS_extended_op then extended_opcode r mem handler start s
      else map_option (\<lambda>oplen. (s, oplen, False)) (skip_numbers mem (unat (std_opcode_lengths header ! unat opcode)) start 1))"

definition ProcessOneOpcode ::
  "ByteReader \<Rightarrow> memory \<Rightarrow> 'h Line_Handler option \<Rightarrow> LineInfoHeader \<Rightarrow> u64 \<Rightarrow> u64 \<Rightarrow> 'h LineState \<Rightarrow>
    ('h LineState \<times> u64 \<times> bool) option" where
  "ProcessOneOpcode r mem handler header start pc s =
     (let opcode = ReadOneByte mem start; start = start + 1 in
      if opcode_base header \<le> opcode then map_option (\<lambda>s. (s, 1, True)) (special_opcode header opcode pc s)
      else standard_opcode r mem handler header opcode start pc s)"

section \<open>The line program\<close>

text \<open>A row whose length is not yet known: address, file, line and column.\<close>

type_synonym PendingLine = "(u64 \<times> u32 \<times> u32 \<times> u32) option"

definition add_row :: "'h Line_Handler \<Rightarrow> bool \<Rightarrow> 'h LineState \<Rightarrow> PendingLine \<Rightarrow> 'h LineState \<times> PendingLine" where
  "add_row H stmt s pending =
     (let lsm = ls_lsm s;
          h = (case pending of None \<Rightarrow> ls_handler s
            | Some (address, file, line, column) \<Rightarrow> on_AddLine H address (lsm_address lsm - address) file line column (ls_handler s))
      in if lsm_end_sequence lsm then (s\<lparr>ls_lsm := LSM_Reset stmt, ls_handler := h\<rparr>, None)
         else (s\<lparr>ls_handler := h\<rparr>, Some (lsm_address lsm, lsm_file_num lsm, lsm_line_num lsm, lsm_column_num lsm)))"

partial_function (option) read_lines ::
  "'h LineInfo \<Rightarrow> ByteReader \<Rightarrow> LineInfoHeader \<Rightarrow> u64 \<Rightarrow> u64 \<Rightarrow> 'h LineState \<Rightarrow> PendingLine \<Rightarrow> 'h LineState option" where
  "read_lines li r header lines_end lineptr s pending =
     (if lineptr < lines_end then
        Option.bind (ProcessOneOpcode r (li_mem li) (Some (li_handler li)) header lineptr (- 1) s) (\<lambda>res.
          let (s, oplength, row) = res;
              (s, pending) = (if row then add_row (li_handler li) (default_is_stmt header) s pending else (s, pending))
          in read_lines li r header lines_end (lineptr + oplength) s pending)
      else Some s)"

declare strlen.simps [code] read_dirs.simps [code] read_files.simps [code] read_lines.simps [code]

definition lines_end :: "'h LineInfo \<Rightarrow> ByteReader \<Rightarrow> LineInfoHeader \<Rightarrow> u64" where
  "lines_end li r header = li_buffer li + (if offset_size r = 8 then 12 else 4) + total_length header"

definition LineInfo_ReadLines :: "'h LineInfo \<Rightarrow> ByteReader \<Rightarrow> LineInfoHeader \<Rightarrow> u64 \<Rightarrow> 'h \<Rightarrow> ('h \<times> u64) option" where
  "LineInfo_ReadLines li r header after_header h =
     map_option (\<lambda>s. (ls_handler s, lines_end li r header))
       (read_lines li r header (lines_end li r header) after_header
         \<lparr>ls_lsm = LSM_Reset (default_is_stmt header), ls_handler = h, ls_passes = None\<rparr> None)"

definition LineInfo_Start :: "'h LineInfo \<Rightarrow> ByteReader \<Rightarrow> 'h \<Rightarrow> (u64 \<times> ByteReader \<times> 'h) option" where
  "LineInfo_Start li r h = do {
     (header, after_header, r, h) \<leftarrow> LineInfo_ReadHeader li r h;
     (h, after_header) \<leftarrow> LineInfo_ReadLines li r header after_header h;
     Some (after_header - li_buffer li, r, h)
   }"

end
