(* ===== verification/Dwarf_Line_Module.thy ===== *)
theory Dwarf_Line_Module
  imports Dwarf_Line Symbol_Writer
begin

text \<open>
  common/dwarf_line_to_module.h and .cc: the handler that collects the lines of a line program and finds
  their files in the module. A \<open>Module::File*\<close> is the name of the file, a null pointer \<open>None\<close>. \<open>None\<close> as
  the result of an operation is an overflow of the signed counter of file numbers.
\<close>

section \<open>Paths\<close>

definition PathIsAbsolute :: "string \<Rightarrow> bool" where
  "PathIsAbsolute path \<longleftrightarrow> path \<noteq> [] \<and> path ! 0 = CHR ''/''"

definition HasTrailingSlash :: "string \<Rightarrow> bool" where
  "HasTrailingSlash path \<longleftrightarrow> path \<noteq> [] \<and> path ! (length path - 1) = CHR ''/''"

definition ExpandPath :: "string \<Rightarrow> string \<Rightarrow> string" where
  "ExpandPath path base =
     (if PathIsAbsolute path \<or> base = [] then path
      else base @ (if HasTrailingSlash base then [] else ''/'') @ path)"

section \<open>State\<close>

record LineToModule =
  lt_module :: DumpModule
  lt_compilation_dir :: string
  lt_lines :: "ModLine list"
  lt_directories :: "(u32, string) omap"
  lt_files :: "(u32, string option) omap"
  lt_highest_file_number :: int
  lt_omitted_line_end :: u64
  lt_warned_bad_file_number :: bool
  lt_warned_bad_directory_number :: bool

definition LineToModule_new :: "DumpModule \<Rightarrow> string \<Rightarrow> ModLine list \<Rightarrow> (u32, string option) omap \<Rightarrow> LineToModule" where
  "LineToModule_new m compilation_dir lines files = \<lparr>lt_module = m, lt_compilation_dir = compilation_dir, lt_lines = lines,
     lt_directories = [], lt_files = files, lt_highest_file_number = - 1, lt_omitted_line_end = 0,
     lt_warned_bad_file_number = False, lt_warned_bad_directory_number = False\<rparr>"

section \<open>Operations\<close>

definition lt_DefineDir :: "string \<Rightarrow> u32 \<Rightarrow> LineToModule \<Rightarrow> LineToModule" where
  "lt_DefineDir name dir_num h =
     (if dir_num \<noteq> 0
      then h\<lparr>lt_directories := om_assign dir_num (ExpandPath name (lt_compilation_dir h)) (lt_directories h)\<rparr>
      else h)"

text \<open>The number of a file, which is the next one for the number -1.\<close>

definition take_file_number :: "int \<Rightarrow> LineToModule \<Rightarrow> (int \<times> LineToModule) option" where
  "take_file_number file_num h =
     (if file_num = - 1 then
        (if lt_highest_file_number h = 2 ^ 31 - 1 then None
         else let n = lt_highest_file_number h + 1 in Some (n, h\<lparr>lt_highest_file_number := n\<rparr>))
      else if file_num > lt_highest_file_number h then Some (file_num, h\<lparr>lt_highest_file_number := file_num\<rparr>)
      else Some (file_num, h))"

definition find_dir_name :: "u32 \<Rightarrow> LineToModule \<Rightarrow> string \<times> LineToModule" where
  "find_dir_name dir_num h =
     (if dir_num = 0 then (lt_compilation_dir h, h)
      else case om_lookup (lt_directories h) dir_num of
          Some dir \<Rightarrow> (dir, h)
        | None \<Rightarrow> ([], h\<lparr>lt_warned_bad_directory_number := True\<rparr>))"

definition lt_DefineFile :: "string \<Rightarrow> int \<Rightarrow> u32 \<Rightarrow> u64 \<Rightarrow> u64 \<Rightarrow> LineToModule \<Rightarrow> LineToModule option" where
  "lt_DefineFile name file_num dir_num mod_time len h =
     Option.bind (take_file_number file_num h) (\<lambda>(file_num, h).
       let (dir_name, h) = find_dir_name dir_num h;
           full_name = ExpandPath name dir_name;
           (m, file) = FindFile full_name (lt_module h)
       in Some (h\<lparr>lt_module := m, lt_files := om_assign (of_int file_num) (Some file) (lt_files h)\<rparr>))"

text \<open>A lookup in the file table puts a null pointer where there was no entry.\<close>

definition lookup_file :: "u32 \<Rightarrow> LineToModule \<Rightarrow> string option \<times> LineToModule" where
  "lookup_file file_num h =
     (case om_lookup (lt_files h) file_num of
        Some file \<Rightarrow> (file, h)
      | None \<Rightarrow> (None, h\<lparr>lt_files := om_assign file_num None (lt_files h)\<rparr>))"

definition lt_AddLine :: "u64 \<Rightarrow> u64 \<Rightarrow> u32 \<Rightarrow> u32 \<Rightarrow> u32 \<Rightarrow> LineToModule \<Rightarrow> LineToModule" where
  "lt_AddLine address len file_num line_num column_num h =
     (if len = 0 then h
      else
        let len = (if address + len < address then - address else len) in
        if address = 0 \<or> address = lt_omitted_line_end h then h\<lparr>lt_omitted_line_end := address + len\<rparr>
        else
          let h = h\<lparr>lt_omitted_line_end := 0\<rparr>; (file, h) = lookup_file file_num h in
          case file of
            None \<Rightarrow> h\<lparr>lt_warned_bad_file_number := True\<rparr>
          | Some file \<Rightarrow> h\<lparr>lt_lines := lt_lines h @
              [\<lparr>ml_address = address, ml_size = len, ml_file = file, ml_number = sint line_num\<rparr>]\<rparr>)"

definition lt_handler :: "LineToModule Line_Handler" where
  "lt_handler = \<lparr>on_DefineDir = lt_DefineDir, on_DefineFile = lt_DefineFile, on_AddLine = lt_AddLine\<rparr>"

end
