(* ===== verification/Dwarf_Line_Invariant.thy ===== *)
theory Dwarf_Line_Invariant
  imports Dwarf_Line_Module
begin

text \<open>
  The contract between the reader of line programs and its handler, as a locale: every call keeps an
  invariant of the handler. Whatever bytes the program has, the reader then keeps it, too. The handler that
  collects the lines of a module keeps the invariant that all of them can be dumped.
\<close>

section \<open>The contract\<close>

locale line_protocol =
  fixes H :: "'h Line_Handler" and inv :: "'h \<Rightarrow> bool"
  assumes dir_law: "inv h \<Longrightarrow> inv (on_DefineDir H name n h)"
    and file_law: "inv h \<Longrightarrow> on_DefineFile H name k dir mod_time len h = Some h' \<Longrightarrow> inv h'"
    and line_law: "inv h \<Longrightarrow> inv (on_AddLine H address len file line column h)"
begin

definition uses :: "'h LineInfo \<Rightarrow> bool" where
  "uses li \<longleftrightarrow> li_handler li = H"

lemma uses_handler [simp]: "uses li \<Longrightarrow> li_handler li = H"
  by (simp add: uses_def)

lemma file_step: "on_DefineFile H name k dir mod_time len h = Some h' \<Longrightarrow> inv h \<Longrightarrow> inv h'"
  by (rule file_law)

lemma read_dir_rows_inv:
  "read_dir_rows li r formats c n row lineptr h = Some (lineptr', h') \<Longrightarrow> uses li \<Longrightarrow> inv h \<Longrightarrow> inv h'"
  by (induction n arbitrary: row lineptr h) (auto split: bind_splits simp: dir_law)

lemma ReadFileRow_inv:
  "ReadFileRow li r formats row c lineptr h = Some (lineptr', h') \<Longrightarrow> uses li \<Longrightarrow> inv h \<Longrightarrow> inv h'"
  by (auto simp: ReadFileRow_def split: bind_splits dest: file_step)

lemma read_file_rows_inv:
  "read_file_rows li r formats c n row lineptr h = Some (lineptr', h') \<Longrightarrow> uses li \<Longrightarrow> inv h \<Longrightarrow> inv h'"
  by (induction n arbitrary: row lineptr h) (auto split: bind_splits dest: ReadFileRow_inv)

lemma read_tables_5_inv:
  "read_tables_5 li r lineptr h = Some (lineptr', h') \<Longrightarrow> uses li \<Longrightarrow> inv h \<Longrightarrow> inv h'"
  by (auto simp: read_tables_5_def Let_def split: bind_splits dest!: read_dir_rows_inv read_file_rows_inv)

lemma read_dirs_inv:
  "read_dirs li lineptr n h = Some p \<Longrightarrow> uses li \<Longrightarrow> inv h \<Longrightarrow> inv (snd p)"
proof (induction rule: read_dirs.raw_induct [rotated, consumes 1, case_names step])
  case (step read_dirs li lineptr n h p)
  then show ?case
    by (auto split: if_splits bind_splits simp: dir_law)
qed

lemma read_file_entry_inv:
  "read_file_entry li r lineptr n h = Some p \<Longrightarrow> uses li \<Longrightarrow> inv h \<Longrightarrow> inv (snd p)"
  by (auto simp: read_file_entry_def Let_def split: bind_splits, (erule (1) file_step)+)

lemma read_files_inv:
  "read_files li r lineptr n h = Some p \<Longrightarrow> uses li \<Longrightarrow> inv h \<Longrightarrow> inv (snd p)"
proof (induction rule: read_files.raw_induct [rotated, consumes 1, case_names step])
  case (step read_files li r lineptr n h p)
  show ?case
  proof (cases "li_mem li lineptr = 0")
    case False
    then obtain q where q: "read_file_entry li r lineptr n h = Some q" "read_files li r (fst q) (n + 1) (snd q) = Some p"
      using step(2) by (auto split: bind_splits)
    then show ?thesis
      using step(1) [OF q(2) step(3)] read_file_entry_inv [OF q(1) step(3,4)] by blast
  qed (use step(2,4) in auto)
qed

lemma read_tables_4_inv:
  assumes "read_tables_4 li r lineptr h = Some (lineptr', h')" "uses li" "inv h"
  shows "inv h'"
proof -
  obtain p h2 q where "read_dirs li lineptr 1 (on_DefineDir H [] 0 h) = Some p" "on_DefineFile H [] 0 0 0 0 (snd p) = Some h2"
      "read_files li r (fst p + 1) 1 h2 = Some q" "h' = snd q"
    using assms(1) by (auto simp: read_tables_4_def uses_handler [OF assms(2)] split: bind_splits)
  then show ?thesis
    using read_dirs_inv read_files_inv file_law dir_law assms(2,3) by metis
qed

lemma ReadHeader_inv:
  "LineInfo_ReadHeader li r h = Some (header, a, r', h') \<Longrightarrow> uses li \<Longrightarrow> inv h \<Longrightarrow> inv h'"
  by (auto simp: LineInfo_ReadHeader_def split: bind_splits if_splits dest: read_tables_4_inv read_tables_5_inv)

lemma extended_opcode_inv:
  "extended_opcode r mem (Some H) start s = Some (s', n, row) \<Longrightarrow> inv (ls_handler s) \<Longrightarrow> inv (ls_handler s')"
  by (auto simp: extended_opcode_def Let_def split: bind_splits if_splits, (erule (1) file_step)+)

lemma standard_opcode_inv:
  assumes "standard_opcode r mem (Some H) header opcode start pc s = Some (s', n, row)" "inv (ls_handler s)"
  shows "inv (ls_handler s')"
  using assms extended_opcode_inv by (auto simp: standard_opcode_def advance_lsm_def Let_def split: if_splits)

lemma ProcessOneOpcode_inv:
  assumes "ProcessOneOpcode r mem (Some H) header start pc s = Some (s', n, row)" "inv (ls_handler s)"
  shows "inv (ls_handler s')"
  using assms standard_opcode_inv
  by (auto simp: ProcessOneOpcode_def special_opcode_def advance_lsm_def Let_def split: if_splits)

lemma add_row_inv: "add_row H stmt s pending = (s', pending') \<Longrightarrow> inv (ls_handler s) \<Longrightarrow> inv (ls_handler s')"
  by (auto simp: add_row_def Let_def line_law split: option.splits if_splits)

lemma read_lines_inv:
  "read_lines li r header stop lineptr s pending = Some s' \<Longrightarrow> uses li \<Longrightarrow> inv (ls_handler s) \<Longrightarrow> inv (ls_handler s')"
proof (induction rule: read_lines.raw_induct [rotated, consumes 1, case_names step])
  case (step read_lines li r header stop lineptr s pending s')
  show ?case
  proof (cases "lineptr < stop")
    case True
    then obtain t n row where t: "ProcessOneOpcode r (li_mem li) (Some H) header lineptr (- 1) s = Some (t, n, row)"
      using step(2,3) by (auto split: bind_splits)
    obtain t2 pending2 where t2: "(if row then add_row H (default_is_stmt header) t pending else (t, pending)) = (t2, pending2)"
      by (meson surj_pair)
    have "inv (ls_handler t)"
      by (rule ProcessOneOpcode_inv [OF t step(4)])
    then have "inv (ls_handler t2)"
      using t2 add_row_inv [of "default_is_stmt header" t pending t2 pending2] by (auto split: if_splits)
    moreover have "read_lines li r header stop (lineptr + n) t2 pending2 = Some s'"
      using step(2) True t2 unfolding uses_handler [OF step(3)] by (simp add: t)
    ultimately show ?thesis
      using step(1) step(3) by blast
  qed (use step(2,4) in simp)
qed

lemma Start_inv:
  "LineInfo_Start li r h = Some (n, r', h') \<Longrightarrow> li_handler li = H \<Longrightarrow> inv h \<Longrightarrow> inv h'"
  unfolding uses_def [symmetric]
  by (auto simp: LineInfo_Start_def LineInfo_ReadLines_def split: bind_splits dest!: ReadHeader_inv read_lines_inv)

end

section \<open>The handler that collects lines\<close>

text \<open>A line that can be dumped: not empty, not at address 0, inside the address space, in a file of the module.\<close>

definition line_fits :: "DumpModule \<Rightarrow> ModLine \<Rightarrow> bool" where
  "line_fits m l \<longleftrightarrow> ml_size l \<noteq> 0 \<and> ml_address l \<noteq> 0 \<and> ml_address l \<le> ml_address l + (ml_size l - 1) \<and>
     ml_file l \<in> fst ` set (dm_files m)"

definition lt_ok :: "LineToModule \<Rightarrow> bool" where
  "lt_ok h \<longleftrightarrow> om_sorted (dm_files (lt_module h)) \<and> om_sorted (lt_files h) \<and> om_sorted (lt_directories h) \<and>
     (\<forall>p\<in>set (lt_files h). \<forall>fnum. snd p = Some fnum \<longrightarrow> fnum \<in> fst ` set (dm_files (lt_module h))) \<and>
     (\<forall>l\<in>set (lt_lines h). line_fits (lt_module h) l)"

lemma FindFile_files:
  assumes "FindFile name m = (m', fnum)" "om_sorted (dm_files m)"
  shows "fnum = name" "om_sorted (dm_files m')" "fst ` set (dm_files m') = insert name (fst ` set (dm_files m))"
proof -
  let ?i = "om_lower_bound (dm_files m) name"
  have key: "fst (dm_files m ! ?i) \<in> fst ` set (dm_files m)" if "?i \<noteq> length (dm_files m)"
    using that om_lower_bound_le [of "dm_files m" name] by (intro imageI nth_mem) (simp add: le_neq_implies_less)
  show "fnum = name"
    using assms(1) by (auto simp: FindFile_def Let_def split: if_splits)
  show "om_sorted (dm_files m')"
    using assms by (auto simp: FindFile_def Let_def om_sorted_insert split: if_splits)
  show "fst ` set (dm_files m') = insert name (fst ` set (dm_files m))"
  proof (cases "?i = length (dm_files m) \<or> fst (dm_files m ! ?i) \<noteq> name")
    case True
    have "name \<notin> fst ` set (dm_files m)"
    proof
      assume "name \<in> fst ` set (dm_files m)"
      then obtain p where p: "p \<in> set (dm_files m)" "fst p = name"
        by auto
      then have "?i \<noteq> length (dm_files m)"
        using om_lower_bound_end [of "dm_files m" name p] by (metis less_irrefl)
      then have "?i < length (dm_files m)"
        by (simp add: le_neq_implies_less)
      then show False
        using True om_lower_bound_at [of "dm_files m" name] om_lower_bound_least [OF assms(2) _ p(1), of name] p(2) by auto
    qed
    then show ?thesis
      using True assms by (auto simp: FindFile_def Let_def set_om_insert)
  next
    case False
    then show ?thesis
      using assms(1) key by (auto simp: FindFile_def Let_def)
  qed
qed

lemma lt_ok_module:
  assumes "lt_ok h" "om_sorted (dm_files m)" "fst ` set (dm_files (lt_module h)) \<subseteq> fst ` set (dm_files m)"
  shows "lt_ok (h\<lparr>lt_module := m\<rparr>)"
  using assms unfolding lt_ok_def line_fits_def by (simp add: subset_iff)

lemma lt_ok_files:
  assumes "lt_ok h" "\<forall>file_name. x = Some file_name \<longrightarrow> file_name \<in> fst ` set (dm_files (lt_module h))"
  shows "lt_ok (h\<lparr>lt_files := om_assign n x (lt_files h)\<rparr>)"
proof -
  have "om_sorted (lt_files h)"
    using assms(1) by (simp add: lt_ok_def)
  then show ?thesis
    using assms unfolding lt_ok_def by (simp add: om_sorted_assign set_om_assign) force
qed

lemma lt_ok_find_dir: "find_dir_name d h = (dir_name, h') \<Longrightarrow> lt_ok h \<Longrightarrow> lt_ok h'"
  by (auto simp: find_dir_name_def lt_ok_def split: if_splits option.splits)

lemma lt_ok_take_number: "take_file_number k h = Some (n, h') \<Longrightarrow> lt_ok h \<Longrightarrow> lt_ok h'"
  by (auto simp: take_file_number_def lt_ok_def Let_def split: if_splits)

interpretation line_module: line_protocol lt_handler lt_ok
proof
  show "lt_ok (on_DefineDir lt_handler name n h)" if "lt_ok h" for h name n
    using that by (simp add: lt_handler_def lt_DefineDir_def lt_ok_def om_sorted_assign)
  show "lt_ok h'" if ok: "lt_ok h" and def: "on_DefineFile lt_handler name k dir mod_time len h = Some h'" for h name k dir mod_time len h'
  proof -
    obtain n h1 dir_name h2 m fnum where f: "take_file_number k h = Some (n, h1)" "find_dir_name dir h1 = (dir_name, h2)"
        "FindFile (ExpandPath name dir_name) (lt_module h2) = (m, fnum)"
        "h' = h2\<lparr>lt_module := m, lt_files := om_assign (of_int n) (Some fnum) (lt_files h2)\<rparr>"
      using def by (auto simp: lt_handler_def lt_DefineFile_def Let_def split: bind_splits prod.splits)
    have h2: "lt_ok h2"
      using f(1,2) ok by (blast intro: lt_ok_find_dir lt_ok_take_number)
    then have "om_sorted (dm_files (lt_module h2))"
      by (simp add: lt_ok_def)
    note files = FindFile_files [OF f(3) this]
    have "lt_ok (h2\<lparr>lt_module := m\<rparr>)"
      by (rule lt_ok_module [OF h2 files(2)]) (use files(3) in blast)
    from lt_ok_files [OF this, of "Some fnum" "of_int n"] show ?thesis
      using files(1,3) by (simp add: f(4))
  qed
  show "lt_ok (on_AddLine lt_handler address len fnum line column h)" if "lt_ok h" for h address len fnum line column
  proof -
    let ?len = "if address + len < address then - address else len"
    have len: "?len \<noteq> 0 \<and> address \<le> address + (?len - 1)" if "len \<noteq> 0" "address \<noteq> 0"
      using that by (auto simp: not_less) uint_arith+
    obtain f h2 where f: "lookup_file fnum (h\<lparr>lt_omitted_line_end := 0\<rparr>) = (f, h2)"
      by (meson surj_pair)
    have ok: "lt_ok (h\<lparr>lt_omitted_line_end := 0\<rparr>)"
      using \<open>lt_ok h\<close> by (simp add: lt_ok_def)
    have ok2: "lt_ok h2" and lines: "lt_lines h2 = lt_lines h" and same: "lt_module h2 = lt_module h"
      using lt_ok_files [OF ok, of None fnum] ok f by (auto simp: lookup_file_def split: option.splits)
    have mem: "x \<in> fst ` set (dm_files (lt_module h))" if "f = Some x" for x
      using f that \<open>lt_ok h\<close>
      by (auto simp: lookup_file_def lt_ok_def om_lookup_eq split: option.splits dest!: map_of_SomeD)
    show ?thesis
      using \<open>lt_ok h\<close> ok2 len f mem
      by (auto simp: lt_handler_def lt_AddLine_def Let_def lt_ok_def line_fits_def lines same split: option.splits)
  qed
qed

end
