(* ===== verification/Dwarf_Numbers.thy ===== *)
theory Dwarf_Numbers
  imports Dwarf_Reader
begin

text \<open>
  What the byte reader reads: a number of fixed width is the value of its bytes in the given order,
  and the LEB128 readers invert the encodings that bytereader.h describes.
\<close>

section \<open>Fixed width\<close>

lemma or_push_bit:
  fixes a b :: "'a::len word"
  assumes "take_bit n a = a"
  shows "a OR push_bit n b = a + push_bit n b"
proof -
  have "\<not> bit a i \<or> \<not> bit (push_bit n b) i" for i
    using assms bit_take_bit_iff [of n a i] by (auto simp: bit_push_bit_iff)
  then show ?thesis
    by (rule disjunctive_add [symmetric])
qed

lemma byte_fits: "take_bit 8 (ucast (b::u8) :: 'a::len word) = ucast b"
  by (rule bit_eqI) (auto simp: bit_take_bit_iff bit_ucast_iff dest: bit_imp_le_length)

lemma or_byte: "ucast (b::u8) OR push_bit 8 w = (ucast b + 256 * w :: 'a::len word)"
  using or_push_bit [OF byte_fits, of b w] by (simp add: push_bit_eq_mult mult.commute)

lemma push_bit_split:
  "push_bit 16 w = push_bit 8 (push_bit 8 w)" "push_bit 24 w = push_bit 8 (push_bit 16 w)"
  "push_bit 32 w = push_bit 8 (push_bit 24 w)" "push_bit 40 w = push_bit 8 (push_bit 32 w)"
  "push_bit 48 w = push_bit 8 (push_bit 40 w)" "push_bit 56 w = push_bit 8 (push_bit 48 w)"
  for w :: "'a::len word"
  by simp_all

lemma of_nat_unat_u8: "of_nat (unat (b::u8)) = (ucast b :: 'a::len word)"
  by simp

definition byte_order :: "ByteReader \<Rightarrow> u8 list \<Rightarrow> u8 list" where
  "byte_order r bs = (if endian r = ENDIANNESS_LITTLE then bs else rev bs)"

lemma rd_bytes_numeral:
  "rd_bytes mem a 2 = [mem a, mem (a + 1)]"
  "rd_bytes mem a 3 = [mem a, mem (a + 1), mem (a + 2)]"
  "rd_bytes mem a 4 = [mem a, mem (a + 1), mem (a + 2), mem (a + 3)]"
  "rd_bytes mem a 8 = [mem a, mem (a + 1), mem (a + 2), mem (a + 3), mem (a + 4), mem (a + 5), mem (a + 6), mem (a + 7)]"
  by (simp_all add: rd_bytes_def upt_rec)

lemma ReadTwoBytes_eq: "ReadTwoBytes r mem a = of_nat (le_val (byte_order r (rd_bytes mem a 2)))"
  by (simp add: ReadTwoBytes_def Let_def or_byte byte_order_def rd_bytes_numeral)

lemma or_chain:
  "ucast (a::u8) OR push_bit 8 (ucast (b::u8)) OR push_bit 16 (ucast (c::u8)) = (of_nat (le_val [a, b, c]) :: 'a::len word)"
  "ucast a OR push_bit 8 (ucast b) OR push_bit 16 (ucast c) OR push_bit 24 (ucast (d::u8)) =
    (of_nat (le_val [a, b, c, d]) :: 'a::len word)"
  "ucast a OR push_bit 8 (ucast b) OR push_bit 16 (ucast c) OR push_bit 24 (ucast d) OR
    push_bit 32 (ucast (e::u8)) OR push_bit 40 (ucast (f::u8)) OR push_bit 48 (ucast (g::u8)) OR push_bit 56 (ucast (h::u8)) =
    (of_nat (le_val [a, b, c, d, e, f, g, h]) :: 'a::len word)"
proof -
  have "ucast a OR push_bit 8 (ucast b) OR push_bit 16 (ucast c) =
      (ucast a OR push_bit 8 (ucast b OR push_bit 8 (ucast c)) :: 'a word)"
    by (simp only: push_bit_or push_bit_push_bit) (simp add: or.assoc)
  then show "ucast a OR push_bit 8 (ucast b) OR push_bit 16 (ucast c) = (of_nat (le_val [a, b, c]) :: 'a word)"
    by (simp add: or_byte algebra_simps)
  have "ucast a OR push_bit 8 (ucast b) OR push_bit 16 (ucast c) OR push_bit 24 (ucast d) =
      (ucast a OR push_bit 8 (ucast b OR push_bit 8 (ucast c OR push_bit 8 (ucast d))) :: 'a word)"
    by (simp only: push_bit_or push_bit_push_bit) (simp add: or.assoc)
  then show "ucast a OR push_bit 8 (ucast b) OR push_bit 16 (ucast c) OR push_bit 24 (ucast d) =
      (of_nat (le_val [a, b, c, d]) :: 'a word)"
    by (simp add: or_byte algebra_simps)
  have "ucast a OR push_bit 8 (ucast b) OR push_bit 16 (ucast c) OR push_bit 24 (ucast d) OR
      push_bit 32 (ucast e) OR push_bit 40 (ucast f) OR push_bit 48 (ucast g) OR push_bit 56 (ucast h) =
      (ucast a OR push_bit 8 (ucast b OR push_bit 8 (ucast c OR push_bit 8 (ucast d OR push_bit 8 (ucast e OR
        push_bit 8 (ucast f OR push_bit 8 (ucast g OR push_bit 8 (ucast h))))))) :: 'a word)"
    by (simp only: push_bit_or push_bit_push_bit) (simp add: or.assoc)
  then show "ucast a OR push_bit 8 (ucast b) OR push_bit 16 (ucast c) OR push_bit 24 (ucast d) OR
      push_bit 32 (ucast e) OR push_bit 40 (ucast f) OR push_bit 48 (ucast g) OR push_bit 56 (ucast h) =
      (of_nat (le_val [a, b, c, d, e, f, g, h]) :: 'a word)"
    by (simp add: or_byte algebra_simps)
qed

lemma ReadThreeBytes_eq: "ReadThreeBytes r mem a = of_nat (le_val (byte_order r (rd_bytes mem a 3)))"
proof -
  have "ucast (of_nat (le_val [x, y, z]) :: u32) = (of_nat (le_val [x, y, z]) :: u64)" for x y z
    using le_val_bound [of "[x, y, z]"] by (intro ucast_u32_of_nat) simp
  then show ?thesis
    by (cases "endian r = ENDIANNESS_LITTLE")
      (simp_all only: ReadThreeBytes_def Let_def or_chain byte_order_def rd_bytes_numeral rev.simps append.simps if_True if_False refl)
qed

lemma ReadFourBytes_eq: "ReadFourBytes r mem a = of_nat (le_val (byte_order r (rd_bytes mem a 4)))"
proof -
  have "ucast (of_nat (le_val [x, y, z, w]) :: u32) = (of_nat (le_val [x, y, z, w]) :: u64)" for x y z w
    using le_val_bound [of "[x, y, z, w]"] by (intro ucast_u32_of_nat) simp
  then show ?thesis
    by (cases "endian r = ENDIANNESS_LITTLE")
      (simp_all only: ReadFourBytes_def Let_def or_chain byte_order_def rd_bytes_numeral rev.simps append.simps if_True if_False refl)
qed

lemma ReadEightBytes_eq: "ReadEightBytes r mem a = of_nat (le_val (byte_order r (rd_bytes mem a 8)))"
  by (cases "endian r = ENDIANNESS_LITTLE")
    (simp_all only: ReadEightBytes_def Let_def or_chain byte_order_def rd_bytes_numeral rev.simps append.simps if_True if_False refl)

section \<open>LEB128\<close>

text \<open>The encodings of the comments in bytereader.h.\<close>

function uleb_bytes :: "nat \<Rightarrow> u8 list" where
  "uleb_bytes n = (if n < 128 then [of_nat n] else of_nat (n mod 128 + 128) # uleb_bytes (n div 128))"
  by pat_completeness auto
termination
  by (relation "measure id") auto

declare uleb_bytes.simps [simp del]

function sleb_bytes :: "int \<Rightarrow> u8 list" where
  "sleb_bytes k = (if - 64 \<le> k \<and> k < 64 then [of_int (k mod 128)] else of_int (k mod 128 + 128) # sleb_bytes (k div 128))"
  by pat_completeness auto
termination
  by (relation "measure (\<lambda>k. nat (if k < 0 then - k else k))") (auto simp: div_le_dividend)

declare sleb_bytes.simps [simp del]

lemma leb_byte:
  assumes "n < 128"
  shows "(ucast ((of_nat n :: u8) AND 0x7f) :: u64) = of_nat n" "(of_nat n :: u8) AND 0x80 = 0"
    "(ucast ((of_nat (n + 128) :: u8) AND 0x7f) :: u64) = of_nat n" "(of_nat (n + 128) :: u8) AND 0x80 \<noteq> 0"
    "(of_nat n :: u8) AND 0x40 \<noteq> 0 \<longleftrightarrow> 64 \<le> n"
proof -
  have "n \<in> set [0..<128]"
    using assms by simp
  moreover have "list_all (\<lambda>n. (ucast ((of_nat n :: u8) AND 0x7f) :: u64) = of_nat n \<and> (of_nat n :: u8) AND 0x80 = 0 \<and>
      (ucast ((of_nat (n + 128) :: u8) AND 0x7f) :: u64) = of_nat n \<and> (of_nat (n + 128) :: u8) AND 0x80 \<noteq> 0 \<and>
      ((of_nat n :: u8) AND 0x40 \<noteq> 0 \<longleftrightarrow> 64 \<le> n)) [0..<128]"
    by code_simp
  ultimately show "(ucast ((of_nat n :: u8) AND 0x7f) :: u64) = of_nat n" "(of_nat n :: u8) AND 0x80 = 0"
    "(ucast ((of_nat (n + 128) :: u8) AND 0x7f) :: u64) = of_nat n" "(of_nat (n + 128) :: u8) AND 0x80 \<noteq> 0"
    "(of_nat n :: u8) AND 0x40 \<noteq> 0 \<longleftrightarrow> 64 \<le> n"
    unfolding list_all_iff by blast+
qed

lemma unat_plus_of_nat: "unat (w::u64) + x < 2 ^ 64 \<Longrightarrow> unat (w + of_nat x) = unat w + x"
  by (simp add: unat_add_lem [THEN iffD1] unat_of_nat)

lemma low_bits_add:
  assumes "unat result < 2 ^ shift"
  shows "result OR push_bit shift (of_nat x) = (result + of_nat (x * 2 ^ shift) :: u64)"
proof -
  have "take_bit shift result = result"
    using assms by (intro word_unat_eq_iff [THEN iffD2]) (simp add: unsigned_take_bit_eq take_bit_nat_eq_self)
  from or_push_bit [OF this, of "of_nat x"] show ?thesis
    by (simp add: push_bit_eq_mult)
qed

lemma digit_bound:
  assumes "r < (2::nat) ^ shift" "x < 128"
  shows "r + x * 2 ^ shift < 2 ^ (shift + 7)"
proof -
  have "r + x * 2 ^ shift < Suc x * 2 ^ shift"
    using assms(1) by simp
  also have "\<dots> \<le> 128 * 2 ^ shift"
    using assms(2) by (intro mult_le_mono1) simp
  finally show ?thesis
    by (simp add: power_add mult.commute)
qed

lemma read_uleb_bytes:
  assumes "holds mem a (uleb_bytes n)" "unat result < 2 ^ shift" "unat result + n * 2 ^ shift < 2 ^ 64" "shift < 64"
  shows "read_uleb mem a result num shift = Some (result + of_nat (n * 2 ^ shift), num + of_nat (length (uleb_bytes n)))"
  using assms
proof (induction n arbitrary: a result num shift rule: uleb_bytes.induct)
  case (1 n)
  show ?case
  proof (cases "n < 128")
    case True
    then show ?thesis
      using 1(2-) leb_byte [OF True]
      by (subst read_uleb.simps) (simp add: uleb_bytes.simps [of n] holds_Cons low_bits_add Let_def)
  next
    case False
    let ?r = "result + of_nat (n mod 128 * 2 ^ shift)"
    have m: "n mod 128 < 128"
      by simp
    have h: "mem a = of_nat (n mod 128 + 128)" "holds mem (a + 1) (uleb_bytes (n div 128))"
      using 1(2) False by (simp_all add: uleb_bytes.simps [of n] holds_Cons)
    have "n * 2 ^ shift = (n mod 128 + 128 * (n div 128)) * 2 ^ shift"
      by simp
    also have "\<dots> = n mod 128 * 2 ^ shift + n div 128 * 2 ^ (shift + 7)"
      by (simp only: distrib_right power_add) simp
    finally have n: "n * 2 ^ shift = n mod 128 * 2 ^ shift + n div 128 * 2 ^ (shift + 7)" .
    have sum: "unat result + n mod 128 * 2 ^ shift + n div 128 * 2 ^ (shift + 7) < 2 ^ 64"
      using 1(4) by (simp only: n add.assoc)
    then have u: "unat ?r = unat result + n mod 128 * 2 ^ shift"
      by (intro unat_plus_of_nat) linarith
    have lt: "unat ?r < 2 ^ (shift + 7)"
      unfolding u by (rule digit_bound [OF 1(3) m])
    have "0 < n div 128"
      using False by (simp add: div_greater_zero_iff)
    then have "2 ^ (shift + 7) \<le> n div 128 * 2 ^ (shift + 7)"
      by simp
    then have "(2::nat) ^ (shift + 7) < 2 ^ 64"
      using sum by linarith
    then have s: "shift + 7 < 64"
      by (simp only: power_strict_increasing_iff)
    have "read_uleb mem a result num shift = read_uleb mem (a + 1) ?r (num + 1) (shift + 7)"
      using 1(3,5) leb_byte(3,4) [OF m] by (subst read_uleb.simps) (simp add: Let_def h(1) low_bits_add del: of_nat_add of_nat_mult)
    also have "\<dots> = Some (?r + of_nat (n div 128 * 2 ^ (shift + 7)), num + 1 + of_nat (length (uleb_bytes (n div 128))))"
      by (rule 1(1) [OF False h(2) lt _ s]) (use sum in \<open>simp only: u\<close>)
    also have "?r + of_nat (n div 128 * 2 ^ (shift + 7)) = result + of_nat (n * 2 ^ shift)"
      by (simp only: n of_nat_add add.assoc)
    finally show ?thesis
      using False by (simp add: uleb_bytes.simps [of n] add.assoc)
  qed
qed

lemma ReadUnsignedLEB128_bytes:
  assumes "holds mem a (uleb_bytes n)" "n < 2 ^ 64"
  shows "ReadUnsignedLEB128 mem a = Some (of_nat n, of_nat (length (uleb_bytes n)))"
  using read_uleb_bytes [OF assms(1), of 0 0 0] assms(2) by (simp add: ReadUnsignedLEB128_def)

text \<open>The signed loop reads the same bits; the sign is or-ed in behind them.\<close>

lemma sleb_byte:
  assumes "- 64 \<le> k" "k < 64"
  shows "(of_int (k mod 128) :: u8) = of_nat (nat (k mod 128))" "64 \<le> nat (k mod 128) \<longleftrightarrow> k < 0"
    "k mod 128 = (if k < 0 then k + 128 else k)"
proof -
  show "(of_int (k mod 128) :: u8) = of_nat (nat (k mod 128))"
    by simp
  have "(k + 128) mod 128 = k + 128" if "k < 0"
    using that assms by (intro mod_pos_pos_trivial) simp_all
  then show "k mod 128 = (if k < 0 then k + 128 else k)"
    using assms by (simp add: mod_pos_pos_trivial)
  then show "64 \<le> nat (k mod 128) \<longleftrightarrow> k < 0"
    using assms by auto
qed

lemma take_bit_small: "unat (w::u64) < 2 ^ n \<Longrightarrow> take_bit n w = w"
  by (intro word_unat_eq_iff [THEN iffD2]) (simp add: unsigned_take_bit_eq take_bit_nat_eq_self)

lemma low_bits_sub:
  fixes w :: u64
  assumes "unat w < 2 ^ n"
  shows "w OR - push_bit n 1 = w - 2 ^ n"
proof -
  have m: "- push_bit n 1 = push_bit n (- 1 :: u64)"
    by (simp only: push_bit_eq_mult mult_1 mult_minus1)
  have "w OR - push_bit n 1 = w + push_bit n (- 1)"
    unfolding m by (rule or_push_bit [OF take_bit_small [OF assms]])
  also have "\<dots> = w - 2 ^ n"
    by (simp only: push_bit_eq_mult mult_minus1 add_uminus_conv_diff)
  finally show ?thesis .
qed

lemma read_sleb_step:
  assumes "mem a = of_nat (if fin then x else x + 128)" "x < 128" "unat result < 2 ^ shift" "shift < 64"
  shows "read_sleb mem a result num shift =
    (let r = result + of_nat (x * 2 ^ shift) in
     if \<not> fin then read_sleb mem (a + 1) r (num + 1) (shift + 7)
     else if shift + 7 < 64 \<and> 64 \<le> x then Some (r OR - push_bit (shift + 7) 1, num + 1) else Some (r, num + 1))"
  using assms(1) assms(4) leb_byte [OF assms(2)] low_bits_add [OF assms(3), of x]
  by (subst read_sleb.simps) (simp add: Let_def del: of_nat_add of_nat_mult)

lemma sleb_digit: "nat (k mod 128) < 128" "int (nat (k mod 128)) = k mod 128"
  by (simp_all add: nat_less_iff)

lemma if_Some_eq: "(if c then a else b) = v \<Longrightarrow> (if c then Some (a, n) else Some (b, n)) = Some (v, n)"
  by (cases c) simp_all

text \<open>The value is the bits read so far and the rest of the number above them.\<close>

lemma read_sleb_bytes:
  assumes "holds mem a (sleb_bytes k)" "unat result < 2 ^ shift" "shift < 64"
    "int (unat result) + k * 2 ^ shift = v" "- (2 ^ 63) \<le> v" "v < 2 ^ 63"
  shows "read_sleb mem a result num shift = Some (of_int v, num + of_nat (length (sleb_bytes k)))"
  using assms
proof (induction k arbitrary: a result num shift rule: sleb_bytes.induct)
  case (1 k)
  define x where "x = nat (k mod 128)"
  define r where "r = result + of_nat (x * 2 ^ shift)"
  have x: "x < 128" "int x = k mod 128"
    unfolding x_def by (rule sleb_digit)+
  have lt: "unat result + x * 2 ^ shift < 2 ^ (shift + 7)"
    by (rule digit_bound [OF 1(3) x(1)])
  have v: "of_int v = result + of_int (k * 2 ^ shift)"
    unfolding 1(5) [symmetric] of_int_add of_int_of_nat_eq by simp
  show ?case
  proof (cases "- 64 \<le> k \<and> k < 64")
    case True
    have k: "sleb_bytes k = [of_nat x]"
      using sleb_byte(1) [of k] True by (subst sleb_bytes.simps) (simp add: x_def)
    then have m: "mem a = of_nat (if True then x else x + 128)" "length (sleb_bytes k) = 1"
      using 1(2) by (simp_all add: holds_Cons)
    have neg: "64 \<le> x \<longleftrightarrow> k < 0"
      unfolding x_def by (rule sleb_byte(2)) (use True in simp_all)
    have step: "read_sleb mem a result num shift =
        (if shift + 7 < 64 \<and> k < 0 then Some (r OR - push_bit (shift + 7) 1, num + 1) else Some (r, num + 1))"
      unfolding read_sleb_step [where mem = mem and a = a and fin = True, OF m(1) x(1) 1(3,4)] by (simp only: r_def neg Let_def simp_thms if_False)
    have kx: "k = int x - (if k < 0 then 128 else 0)"
      using sleb_byte(3) [of k] True x(2) by simp
    have k2: "k * 2 ^ shift = int (x * 2 ^ shift) - (if k < 0 then 2 ^ (shift + 7) else 0)"
      by (subst kx) (simp add: algebra_simps power_add)
    have e: "of_int v = r - (if k < 0 then 2 ^ (shift + 7) else 0)"
      unfolding v k2 r_def by simp
    have res: "(if shift + 7 < 64 \<and> k < 0 then r OR - push_bit (shift + 7) 1 else r) = of_int v"
    proof (cases "k < 0 \<and> shift + 7 < 64")
      case True
      have "(2::nat) ^ (shift + 7) < 2 ^ 64"
        using True by (intro power_strict_increasing) simp_all
      then have "unat r < 2 ^ (shift + 7)"
        unfolding r_def using lt by (subst unat_plus_of_nat) linarith+
      then show ?thesis
        using True by (simp only: low_bits_sub e simp_thms if_True)
    next
      case False
      have "k < 0 \<Longrightarrow> (2::u64) ^ (shift + 7) = 0"
        using False by simp
      then have "r = of_int v"
        using e by (cases "k < 0") simp_all
      moreover have "\<not> (shift + 7 < 64 \<and> k < 0)"
        using False by blast
      ultimately show ?thesis
        by (simp only: if_False)
    qed
    show ?thesis
      unfolding step m(2) of_nat_1 by (rule if_Some_eq [OF res])
  next
    case False
    have k: "sleb_bytes k = of_nat (x + 128) # sleb_bytes (k div 128)"
      using False by (subst sleb_bytes.simps) (simp add: x_def)
    then have m: "mem a = of_nat (if False then x else x + 128)" "holds mem (a + 1) (sleb_bytes (k div 128))"
      using 1(2) by (simp_all add: holds_Cons)
    have "k * 2 ^ shift = (128 * (k div 128) + k mod 128) * 2 ^ shift"
      by simp
    also have "\<dots> = int (x * 2 ^ shift) + k div 128 * 2 ^ (shift + 7)"
      unfolding x(2) [symmetric] by (simp add: algebra_simps power_add)
    finally have k2: "k * 2 ^ shift = int (x * 2 ^ shift) + k div 128 * 2 ^ (shift + 7)" .
    have big: "2 ^ (shift + 6) < (2::int) ^ 63"
    proof (cases "64 \<le> k")
      case True
      then have "64 * 2 ^ shift \<le> k * 2 ^ shift"
        by (intro mult_right_mono) simp_all
      then have "64 * 2 ^ shift < (2::int) ^ 63"
        using 1(5,7) of_nat_0_le_iff [of "unat result", where ?'a = int] by linarith
      then show ?thesis
        by (simp add: power_add)
    next
      case k: False
      then have "k * 2 ^ shift \<le> - 65 * 2 ^ shift"
        using False by (intro mult_right_mono) simp_all
      moreover have "int (unat result) < 2 ^ shift"
        using 1(3) by (metis of_nat_less_iff of_nat_numeral of_nat_power)
      ultimately show ?thesis
        using 1(5,6) by (simp add: power_add)
    qed
    have "shift + 6 < 63"
      by (rule power_less_imp_less_exp [OF _ big]) simp
    then have s: "shift + 7 < 64"
      by simp
    have "(2::nat) ^ (shift + 7) < 2 ^ 64"
      using s by (intro power_strict_increasing) simp_all
    then have r: "unat r = unat result + x * 2 ^ shift"
      unfolding r_def using lt by (intro unat_plus_of_nat) linarith
    have "read_sleb mem a result num shift = read_sleb mem (a + 1) r (num + 1) (shift + 7)"
      unfolding read_sleb_step [where mem = mem and a = a and fin = False, OF m(1) x(1) 1(3,4)] by (simp only: r_def Let_def simp_thms if_True)
    also have "\<dots> = Some (of_int v, num + 1 + of_nat (length (sleb_bytes (k div 128))))"
      by (rule 1(1) [OF False m(2) _ s _ 1(6,7)]) (use r lt k2 1(5) in simp_all)
    finally show ?thesis
      by (simp add: k add.assoc)
  qed
qed

lemma ReadSignedLEB128_bytes:
  assumes "holds mem a (sleb_bytes k)" "- (2 ^ 63) \<le> k" "k < 2 ^ 63"
  shows "ReadSignedLEB128 mem a = Some (of_int k, of_nat (length (sleb_bytes k)))"
  using read_sleb_bytes [OF assms(1), of 0 0 k 0] assms(2,3) by (simp add: ReadSignedLEB128_def)

text \<open>C32. The LEB128 readers invert the encodings of bytereader.h: an unsigned number below $2^{64}$ and a
  signed one of 64 bits are read back from their encodings, together with the number of bytes.\<close>

theorem LEB128_roundtrip:
  "(holds mem a (uleb_bytes n) \<and> n < 2 ^ 64 \<longrightarrow>
      ReadUnsignedLEB128 mem a = Some (of_nat n, of_nat (length (uleb_bytes n)))) \<and>
   (holds mem a (sleb_bytes k) \<and> - (2 ^ 63) \<le> k \<and> k < 2 ^ 63 \<longrightarrow>
      ReadSignedLEB128 mem a = Some (of_int k, of_nat (length (sleb_bytes k))))"
  using ReadUnsignedLEB128_bytes ReadSignedLEB128_bytes by blast

lemma LEB128_roundtrip_witness:
  "ReadUnsignedLEB128 (store (\<lambda>_. 0) 64 [0xe5, 0x8e, 0x26]) 64 = Some (624485, 3) \<and>
   ReadSignedLEB128 (store (\<lambda>_. 0) 64 [0x80, 0x7f]) 64 = Some (- 128, 2)"
proof -
  have u: "uleb_bytes 624485 = [0xe5, 0x8e, 0x26]"
    by (simp add: uleb_bytes.simps)
  have s: "sleb_bytes (- 128) = [0x80, 0x7f]"
    by (simp add: sleb_bytes.simps)
  have "holds (store (\<lambda>_. 0) 64 [0xe5, 0x8e, 0x26]) 64 [0xe5, 0x8e, 0x26]"
      "holds (store (\<lambda>_. 0) 64 [0x80, 0x7f]) 64 [0x80, 0x7f]"
    by (rule holds_store, simp)+
  then show ?thesis
    using LEB128_roundtrip [of "store (\<lambda>_. 0) 64 [0xe5, 0x8e, 0x26]" 64 624485 0]
      LEB128_roundtrip [of "store (\<lambda>_. 0) 64 [0x80, 0x7f]" 64 0 "- 128"]
    by (simp add: u s del: store.simps)
qed

section \<open>Encoded pointers\<close>

text \<open>A reader whose address size is set.\<close>

definition addresses_ready :: "ByteReader \<Rightarrow> bool" where
  "addresses_ready r \<longleftrightarrow> address_size r = 4 \<and> address_reader r = FourBytes \<or> address_size r = 8 \<and> address_reader r = EightBytes"

lemma SetAddressSize_ready: "SetAddressSize sz r = Some r' \<Longrightarrow> addresses_ready r'"
  by (auto simp: SetAddressSize_def addresses_ready_def split: if_splits)

lemma usable_not_special: "UsableEncoding e r \<Longrightarrow> e \<noteq> DW_EH_PE_omit \<and> e \<noteq> DW_EH_PE_aligned"
  by (auto simp: UsableEncoding_def Let_def split: if_splits)

lemma valid_format:
  assumes "ValidEncoding e" "e \<noteq> DW_EH_PE_omit"
  shows "e AND 0x0f \<in> {0, 1, 2, 3, 4, 8, 9, 10, 11, 12}"
proof (cases "e = DW_EH_PE_aligned")
  case False
  define f where "f = e AND 0x0f"
  have "f AND 0x7 = e AND 0x7"
    by (simp add: f_def and.assoc)
  then have f: "\<not> f AND 0x7 > 4"
    using assms False by (auto simp: ValidEncoding_def split: if_splits)
  have "f \<le> 15"
    unfolding f_def by (rule word_and_le1)
  then have "unat f \<in> set [0..<16]"
    by (simp add: word_le_nat_alt)
  then have "of_nat (unat f) \<in> (of_nat :: nat \<Rightarrow> u8) ` set [0..<16]"
    by (rule imageI)
  then have "f \<in> {0, 1, 2, 3, 4, 5, 6, 7, 8, 9, 10, 11, 12, 13, 14, 15}"
    by (simp add: upt_rec)
  then show ?thesis
    unfolding f_def [symmetric] using f by auto
qed simp

lemma usable_base: "UsableEncoding e r \<Longrightarrow> \<exists>base. encoding_base r a e = Some base"
  by (auto simp: UsableEncoding_def encoding_base_def Let_def split: if_splits)

lemma ready_address: "addresses_ready r \<Longrightarrow> \<exists>v. ReadAddress r mem a = Some v"
  by (auto simp: addresses_ready_def ReadAddress_def call_reader_def)

lemma encoded_offset_None_iff:
  assumes "addresses_ready r" "ValidEncoding e" "e \<noteq> DW_EH_PE_omit"
  shows "encoded_offset r mem a e = None \<longleftrightarrow> e AND 0x0f = 8 \<or>
    e AND 0x0f = 1 \<and> ReadUnsignedLEB128 mem a = None \<or> e AND 0x0f = 9 \<and> ReadSignedLEB128 mem a = None"
  using valid_format [OF assms(2,3)] ready_address [OF assms(1), of mem a]
  by (auto simp: encoded_offset_def Let_def)

lemma encoded_pointer_eq:
  assumes "addresses_ready r" "UsableEncoding e r"
  shows "ReadEncodedPointer r mem a e = map_option (\<lambda>(offset, len).
    (let pointer = the (encoding_base r a e) + offset in if address_size r = 4 then pointer AND 0xffffffff else pointer, len))
    (encoded_offset r mem a e)"
proof -
  obtain base where "encoding_base r a e = Some base"
    using usable_base [OF assms(2)] by blast
  then show ?thesis
    using usable_not_special [OF assms(2)] assms(1)
    by (cases "encoded_offset r mem a e") (auto simp: ReadEncodedPointer_def Let_def addresses_ready_def)
qed

text \<open>C33. An encoded pointer in an encoding that passed the checks for validity and usability is the base
  plus the stored value, cut to the address size. The read aborts exactly for the encodings whose
  low four bits are 8, which the checks let through, and for LEB128 numbers of more than ten bytes.\<close>

theorem ReadEncodedPointer_correct:
  assumes "addresses_ready r" "ValidEncoding e" "UsableEncoding e r"
  shows "(ReadEncodedPointer r mem a e = None \<longleftrightarrow> e AND 0x0f = 8 \<or>
      e AND 0x0f = 1 \<and> ReadUnsignedLEB128 mem a = None \<or> e AND 0x0f = 9 \<and> ReadSignedLEB128 mem a = None) \<and>
    (\<forall>offset len. encoded_offset r mem a e = Some (offset, len) \<longrightarrow>
      ReadEncodedPointer r mem a e = Some (let pointer = the (encoding_base r a e) + offset in
        if address_size r = 4 then pointer AND 0xffffffff else pointer, len))"
  using encoded_offset_None_iff [OF assms(1,2), of mem a] usable_not_special [OF assms(3)]
  by (simp add: encoded_pointer_eq [OF assms(1,3)])

lemma ReadEncodedPointer_correct_witness:
  "\<exists>r. ReadEncodedPointer r (\<lambda>_. 0) 64 0x08 = None \<and> ReadEncodedPointer r (store (\<lambda>_. 0) 64 [2]) 64 0x1b = Some (0x1042, 4)"
proof -
  let ?r = "(ByteReader_new ENDIANNESS_LITTLE)\<lparr>address_size := 8, address_reader := EightBytes,
    section_base := 0x1000, have_section_base := True\<rparr>"
  have r: "addresses_ready ?r"
    by (simp add: addresses_ready_def)
  have "ReadEncodedPointer ?r (\<lambda>_. 0) 64 0x08 = None"
    using ReadEncodedPointer_correct [OF r, where e = 8 and mem = "\<lambda>_. 0" and a = 64]
    by (simp add: ValidEncoding_def UsableEncoding_def Let_def)
  moreover have "encoded_offset ?r (store (\<lambda>_. 0) 64 [2]) 64 0x1b = Some (2, 4)"
    by (simp add: encoded_offset_def Let_def ReadFourBytes_def ByteReader_new_def)
  then have "ReadEncodedPointer ?r (store (\<lambda>_. 0) 64 [2]) 64 0x1b = Some (0x1042, 4)"
    using ReadEncodedPointer_correct [OF r, where e = "0x1b" and mem = "store (\<lambda>_. 0) 64 [2]" and a = 64]
    by (simp add: ValidEncoding_def UsableEncoding_def encoding_base_def Let_def ByteReader_new_def)
  ultimately show ?thesis
    by blast
qed

end
