(* ===== verification/Dwarf_Line_Properties.thy ===== *)
theory Dwarf_Line_Properties
  imports Dwarf_Line_Invariant Dwarf_Numbers
begin

text \<open>
  What line number programs mean: instructions as data, their encoding, their effect on the line machine
  and the rows and lines they describe. Reading an encoded program reports exactly these lines.
\<close>

section \<open>Instructions\<close>

datatype LineOp =
    Special u8
  | Copy
  | AdvancePC u64
  | AdvanceLine int
  | SetFile u64
  | SetColumn u64
  | NegateStmt
  | SetBasicBlock
  | ConstAddPC
  | FixedAdvancePC u16
  | EndSequence
  | SetAddress u64
  | OtherExtended u8 "u8 list"
  | OtherStandard u8 "u64 list"

fun op_bytes :: "ByteReader \<Rightarrow> LineOp \<Rightarrow> u8 list" where
  "op_bytes r (Special opcode) = [opcode]"
| "op_bytes r Copy = [1]"
| "op_bytes r (AdvancePC n) = 2 # uleb_bytes (unat n)"
| "op_bytes r (AdvanceLine k) = 3 # sleb_bytes k"
| "op_bytes r (SetFile n) = 4 # uleb_bytes (unat n)"
| "op_bytes r (SetColumn n) = 5 # uleb_bytes (unat n)"
| "op_bytes r NegateStmt = [6]"
| "op_bytes r SetBasicBlock = [7]"
| "op_bytes r ConstAddPC = [8]"
| "op_bytes r (FixedAdvancePC n) = 9 # byte_order r (le_bytes 2 (unat n))"
| "op_bytes r EndSequence = [0, 1, 1]"
| "op_bytes r (SetAddress a) =
     0 # uleb_bytes (1 + unat (address_size r)) @ 2 # byte_order r (le_bytes (unat (address_size r)) (unat a))"
| "op_bytes r (OtherExtended opcode bs) = 0 # uleb_bytes (1 + length bs) @ opcode # bs"
| "op_bytes r (OtherStandard opcode args) = opcode # concat (map (\<lambda>n. uleb_bytes (unat n)) args)"

text \<open>The instructions a header allows; its opcode base is behind the opcodes that are known.\<close>

definition header_ok :: "LineInfoHeader \<Rightarrow> bool" where
  "header_ok header \<longleftrightarrow> 10 \<le> opcode_base header \<and> line_range header \<noteq> 0 \<and>
     length (std_opcode_lengths header) = unat (opcode_base header) + 1"

fun op_ok :: "ByteReader \<Rightarrow> LineInfoHeader \<Rightarrow> LineOp \<Rightarrow> bool" where
  "op_ok r header (Special opcode) \<longleftrightarrow> opcode_base header \<le> opcode"
| "op_ok r header (AdvanceLine k) \<longleftrightarrow> - (2 ^ 63) \<le> k \<and> k < 2 ^ 63"
| "op_ok r header (SetAddress a) \<longleftrightarrow> addresses_ready r \<and> unat a < 256 ^ unat (address_size r)"
| "op_ok r header (OtherExtended opcode bs) \<longleftrightarrow> opcode \<notin> {1, 2, 3} \<and> length bs < 2 ^ 63"
| "op_ok r header (OtherStandard opcode args) \<longleftrightarrow> 10 \<le> opcode \<and> opcode < opcode_base header \<and>
     length args = unat (std_opcode_lengths header ! unat opcode)"
| "op_ok r header _ \<longleftrightarrow> True"

section \<open>Rows and lines\<close>

fun op_effect :: "LineInfoHeader \<Rightarrow> LineOp \<Rightarrow> LineStateMachine \<Rightarrow> LineStateMachine" where
  "op_effect header (Special opcode) lsm =
     (let n = unat opcode - unat (opcode_base header); range = unat (line_range header) in
      lsm\<lparr>lsm_address := lsm_address lsm + of_nat (n div range * unat (min_insn_length header)),
          lsm_line_num := lsm_line_num lsm + of_int (int (n mod range) + sint (line_base header)), lsm_basic_block := True\<rparr>)"
| "op_effect header Copy lsm = lsm\<lparr>lsm_basic_block := False\<rparr>"
| "op_effect header (AdvancePC n) lsm = lsm\<lparr>lsm_address := lsm_address lsm + ucast (min_insn_length header) * n\<rparr>"
| "op_effect header (AdvanceLine k) lsm = lsm\<lparr>lsm_line_num := lsm_line_num lsm + of_int k\<rparr>"
| "op_effect header (SetFile n) lsm = lsm\<lparr>lsm_file_num := ucast n\<rparr>"
| "op_effect header (SetColumn n) lsm = lsm\<lparr>lsm_column_num := ucast n\<rparr>"
| "op_effect header NegateStmt lsm = lsm\<lparr>lsm_is_stmt := \<not> lsm_is_stmt lsm\<rparr>"
| "op_effect header SetBasicBlock lsm = lsm\<lparr>lsm_basic_block := True\<rparr>"
| "op_effect header ConstAddPC lsm = lsm\<lparr>lsm_address := lsm_address lsm +
     of_nat (unat (min_insn_length header) * ((255 - unat (opcode_base header)) div unat (line_range header)))\<rparr>"
| "op_effect header (FixedAdvancePC n) lsm = lsm\<lparr>lsm_address := lsm_address lsm + ucast n\<rparr>"
| "op_effect header EndSequence lsm = lsm\<lparr>lsm_end_sequence := True\<rparr>"
| "op_effect header (SetAddress a) lsm = lsm\<lparr>lsm_address := a\<rparr>"
| "op_effect header (OtherExtended opcode bs) lsm = lsm"
| "op_effect header (OtherStandard opcode args) lsm = lsm"

fun adds_row :: "LineOp \<Rightarrow> bool" where
  "adds_row (Special opcode) = True"
| "adds_row Copy = True"
| "adds_row EndSequence = True"
| "adds_row _ = False"

text \<open>The rows of the line table; the machine is reset behind the end of a sequence.\<close>

fun line_rows :: "LineInfoHeader \<Rightarrow> LineOp list \<Rightarrow> LineStateMachine \<Rightarrow> LineStateMachine list" where
  "line_rows header [] lsm = []"
| "line_rows header (op # ops) lsm =
     (let row = op_effect header op lsm in
      if adds_row op then row # line_rows header ops (if lsm_end_sequence row then LSM_Reset (default_is_stmt header) else row)
      else line_rows header ops row)"

text \<open>A line goes from a row to the next row of its sequence.\<close>

fun row_lines :: "LineStateMachine list \<Rightarrow> (u64 \<times> u64 \<times> u32 \<times> u32 \<times> u32) list" where
  "row_lines (x # y # rows) =
     (if lsm_end_sequence x then []
      else [(lsm_address x, lsm_address y - lsm_address x, lsm_file_num x, lsm_line_num x, lsm_column_num x)]) @ row_lines (y # rows)"
| "row_lines _ = []"

definition add_lines :: "'h Line_Handler \<Rightarrow> (u64 \<times> u64 \<times> u32 \<times> u32 \<times> u32) list \<Rightarrow> 'h \<Rightarrow> 'h" where
  "add_lines H lines h = fold (\<lambda>(address, len, file, line, column). on_AddLine H address len file line column) lines h"

section \<open>One instruction\<close>

lemma byte_order_twice: "byte_order r (byte_order r bs) = bs"
  by (simp add: byte_order_def)

lemma length_byte_order [simp]: "length (byte_order r bs) = length bs"
  by (simp add: byte_order_def)

lemma u16_mod: "unat (n::u16) mod 65536 = unat n"
  using unsigned_less [of n] by (intro mod_less) simp

lemma ucast_of_int_u64: "(ucast (of_int k :: u64) :: u32) = of_int k"
  by (rule bit_word_eqI) (simp add: bit_simps)

lemma ReadTwoBytes_holds: "holds mem a (byte_order r (le_bytes 2 (unat n))) \<Longrightarrow> ReadTwoBytes r mem a = n"
  by (simp add: ReadTwoBytes_eq holds_def byte_order_twice le_val_le_bytes u16_mod)

lemma ReadAddress_holds:
  assumes "addresses_ready r" "holds mem a (byte_order r (le_bytes (unat (address_size r)) (unat v)))" "unat v < 256 ^ unat (address_size r)"
  shows "ReadAddress r mem a = Some v"
  using assms(1) unfolding addresses_ready_def
proof (elim disjE conjE)
  assume r: "address_size r = 4" "address_reader r = FourBytes"
  then show ?thesis
    using assms(2,3) by (simp add: ReadAddress_def call_reader_def ReadFourBytes_eq holds_def byte_order_twice le_val_le_bytes)
next
  assume r: "address_size r = 8" "address_reader r = EightBytes"
  then show ?thesis
    using assms(2,3) by (simp add: ReadAddress_def call_reader_def ReadEightBytes_eq holds_def byte_order_twice le_val_le_bytes)
qed

lemma ReadUnsignedLEB128_word: "holds mem a (uleb_bytes (unat (n::u64))) \<Longrightarrow>
    ReadUnsignedLEB128 mem a = Some (n, of_nat (length (uleb_bytes (unat n))))"
  using ReadUnsignedLEB128_bytes [of mem a "unat n"] by simp

lemma skip_numbers_holds:
  "holds mem a (concat (map (\<lambda>n. uleb_bytes (unat n)) args)) \<Longrightarrow>
    skip_numbers mem (length args) a k = Some (k + of_nat (length (concat (map (\<lambda>n::u64. uleb_bytes (unat n)) args))))"
proof (induction args arbitrary: a k)
  case (Cons n args)
  then have "holds mem a (uleb_bytes (unat n))"
      "holds mem (a + of_nat (length (uleb_bytes (unat n)))) (concat (map (\<lambda>n. uleb_bytes (unat n)) args))"
    by (simp_all add: holds_append)
  with Cons.IH [OF this(2)] show ?case
    by (simp add: ReadUnsignedLEB128_word add.assoc)
qed simp

text \<open>What an instruction does to the state, beyond the line machine: nothing, if the null pointer is passed for the flag.\<close>

lemma ProcessOneOpcode_bytes:
  assumes "header_ok header" "op_ok r header op" "holds mem a (op_bytes r op)" "ls_passes s = None"
  shows "ProcessOneOpcode r mem handler header a pc s =
    Some (s\<lparr>ls_lsm := op_effect header op (ls_lsm s)\<rparr>, of_nat (length (op_bytes r op)), adds_row op)"
proof -
  have base: "\<not> opcode_base header \<le> n" if "n < 10" for n
    using assms(1) that by (auto simp: header_ok_def)
  have s: "s\<lparr>ls_passes := None\<rparr> = s" "s\<lparr>ls_lsm := x, ls_passes := None\<rparr> = s\<lparr>ls_lsm := x\<rparr>" for x
    using assms(4) by (cases s; simp)+
  note defs = ProcessOneOpcode_def standard_opcode_def ReadOneByte_def advance_lsm_def holds_Cons Let_def assms(4)
  show ?thesis
  proof (cases op)
    case (Special opcode)
    then have "unat (opcode - opcode_base header) = unat opcode - unat (opcode_base header)"
      using assms(2) by (simp add: unat_diff_le)
    then show ?thesis
      using Special assms(1-3) by (simp add: defs special_opcode_def header_ok_def s)
  next
    case (AdvancePC n)
    then show ?thesis
      using assms(3) base [of 2] ReadUnsignedLEB128_word [of mem "a + 1" n] by (simp add: defs s)
  next
    case (AdvanceLine k)
    then show ?thesis
      using assms(2,3) base [of 3] ReadSignedLEB128_bytes [of mem "a + 1" k] by (simp add: defs s ucast_of_int_u64)
  next
    case (SetFile n)
    then show ?thesis
      using assms(3) base [of 4] ReadUnsignedLEB128_word [of mem "a + 1" n] by (simp add: defs)
  next
    case (SetColumn n)
    then show ?thesis
      using assms(3) base [of 5] ReadUnsignedLEB128_word [of mem "a + 1" n] by (simp add: defs)
  next
    case ConstAddPC
    then show ?thesis
      using assms(1,3) base [of 8] by (simp add: defs s header_ok_def)
  next
    case (FixedAdvancePC n)
    then show ?thesis
      using assms(3) base [of 9] ReadTwoBytes_holds [of mem "a + 1" r n] by (simp add: defs s)
  next
    case EndSequence
    have "ReadUnsignedLEB128 mem (a + 1) = Some (1, 1)"
      using EndSequence assms(3) ReadUnsignedLEB128_bytes [of mem "a + 1" 1] by (simp add: holds_Cons uleb_bytes.simps)
    then show ?thesis
      using EndSequence assms(3) base [of 0] by (simp add: defs extended_opcode_def)
  next
    case (SetAddress v)
    let ?n = "1 + unat (address_size r)"
    have ok: "addresses_ready r" "unat v < 256 ^ unat (address_size r)"
      using assms(2) SetAddress by simp_all
    have h: "mem a = 0" "holds mem (a + 1) (uleb_bytes ?n)" "mem (a + 1 + of_nat (length (uleb_bytes ?n))) = 2"
        "holds mem (a + 1 + of_nat (length (uleb_bytes ?n)) + 1) (byte_order r (le_bytes (unat (address_size r)) (unat v)))"
      using assms(3) SetAddress by (simp_all add: holds_Cons holds_append)
    have "?n < 2 ^ 64"
      using ok(1) by (auto simp: addresses_ready_def)
    from ReadUnsignedLEB128_bytes [OF h(2) this] ReadAddress_holds [OF ok(1) h(4) ok(2)] h(3)
    have e: "extended_opcode r mem handler (a + 1) s = Some (s\<lparr>ls_lsm := (ls_lsm s)\<lparr>lsm_address := v\<rparr>\<rparr>,
        1 + of_nat (length (uleb_bytes ?n)) + of_nat ?n, False)"
      by (simp add: extended_opcode_def ReadOneByte_def)
    have "1 + of_nat (length (uleb_bytes ?n)) + of_nat ?n = (of_nat (length (op_bytes r op)) :: u64)"
      by (simp add: SetAddress)
    then show ?thesis
      using h(1) base [of 0] by (simp add: SetAddress defs e)
  next
    case (OtherExtended opcode bs)
    let ?n = "1 + length bs"
    have h: "mem a = 0" "holds mem (a + 1) (uleb_bytes ?n)" "mem (a + 1 + of_nat (length (uleb_bytes ?n))) = opcode"
      using assms(3) OtherExtended by (simp_all add: holds_Cons holds_append)
    have "?n < 2 ^ 64"
      using assms(2) OtherExtended by simp
    from ReadUnsignedLEB128_bytes [OF h(2) this] h(3) assms(2)
    have e: "extended_opcode r mem handler (a + 1) s = Some (s, 1 + of_nat (length (uleb_bytes ?n)) + of_nat ?n, False)"
      by (simp add: extended_opcode_def ReadOneByte_def OtherExtended)
    have "1 + of_nat (length (uleb_bytes ?n)) + of_nat ?n = (of_nat (length (op_bytes r op)) :: u64)"
      by (simp add: OtherExtended)
    then show ?thesis
      using h(1) base [of 0] by (simp add: OtherExtended defs e)
  next
    case (OtherStandard opcode args)
    have h: "mem a = opcode" "holds mem (a + 1) (concat (map (\<lambda>n. uleb_bytes (unat n)) args))"
      using assms(3) OtherStandard by (simp_all add: holds_Cons)
    have o: "10 \<le> opcode" "opcode < opcode_base header" "unat (std_opcode_lengths header ! unat opcode) = length args"
      using assms(2) OtherStandard by simp_all
    have "opcode \<noteq> n" if "n < 10" for n
      using o(1) that by auto
    then show ?thesis
      using skip_numbers_holds [OF h(2), of 1] h(1) o(2,3) by (simp add: OtherStandard defs not_le)
  qed (use assms(3) base in \<open>simp_all add: defs\<close>)
qed

section \<open>Programs\<close>

definition program_bytes :: "ByteReader \<Rightarrow> LineOp list \<Rightarrow> u8 list" where
  "program_bytes r ops = concat (map (op_bytes r) ops)"

text \<open>The lines of a table whose first row is in front of the rows, if there is one.\<close>

definition pending_lines :: "PendingLine \<Rightarrow> LineStateMachine list \<Rightarrow> (u64 \<times> u64 \<times> u32 \<times> u32 \<times> u32) list" where
  "pending_lines pending rows = (case (pending, rows) of
       (Some (address, file, line, column), y # ys) \<Rightarrow> (address, lsm_address y - address, file, line, column) # row_lines rows
     | _ \<Rightarrow> row_lines rows)"

lemma op_bytes_not_Nil: "op_bytes r op \<noteq> []"
  by (cases op) auto

lemma row_lines_end: "lsm_end_sequence x \<Longrightarrow> row_lines (x # rows) = row_lines rows"
  by (cases rows) simp_all

lemma add_row_lines:
  assumes "add_row H stmt s pending = (s', pending')"
  shows "ls_lsm s' = (if lsm_end_sequence (ls_lsm s) then LSM_Reset stmt else ls_lsm s)" "ls_passes s' = ls_passes s"
    and "add_lines H (pending_lines pending' rows) (ls_handler s') = add_lines H (pending_lines pending (ls_lsm s # rows)) (ls_handler s)"
  using assms
  by (auto simp: add_row_def add_lines_def pending_lines_def row_lines_end Let_def split: if_splits option.splits list.splits)

lemma read_lines_program:
  assumes "header_ok header" "\<forall>op\<in>set ops. op_ok r header op" "holds (li_mem li) a (program_bytes r ops)"
    "unat a + length (program_bytes r ops) < 2 ^ 64" "ls_passes s = None" "stop = a + of_nat (length (program_bytes r ops))"
  shows "\<exists>s'. read_lines li r header stop a s pending = Some s' \<and>
    ls_handler s' = add_lines (li_handler li) (pending_lines pending (line_rows header ops (ls_lsm s))) (ls_handler s)"
  using assms
proof (induction ops arbitrary: a s pending)
  case Nil
  then show ?case
    by (subst read_lines.simps) (simp add: program_bytes_def add_lines_def pending_lines_def split: option.splits)
next
  case (Cons op ops)
  let ?n = "length (op_bytes r op)" and ?H = "li_handler li"
  have bytes: "program_bytes r (op # ops) = op_bytes r op @ program_bytes r ops"
    by (simp add: program_bytes_def)
  have h: "holds (li_mem li) a (op_bytes r op)" "holds (li_mem li) (a + of_nat ?n) (program_bytes r ops)"
    using Cons.prems(3) by (simp_all add: bytes holds_append)
  have n: "0 < ?n" "unat a + ?n + length (program_bytes r ops) < 2 ^ 64"
    using op_bytes_not_Nil Cons.prems(4) by (simp_all add: bytes)
  then have "unat (a + of_nat ?n) = unat a + ?n"
    by (subst unat_add_lem [THEN iffD1]) (simp_all add: unat_of_nat)
  moreover have "unat stop = unat a + ?n + length (program_bytes r ops)"
    using n(2) Cons.prems(6) by (simp add: bytes unat_word_ariths unat_of_nat)
  ultimately have lt: "a < stop" "unat (a + of_nat ?n) + length (program_bytes r ops) < 2 ^ 64"
      "stop = (a + of_nat ?n) + of_nat (length (program_bytes r ops))"
    using n Cons.prems(6) by (simp_all add: word_less_nat_alt bytes algebra_simps)
  let ?s = "s\<lparr>ls_lsm := op_effect header op (ls_lsm s)\<rparr>"
  have step: "ProcessOneOpcode r (li_mem li) (Some ?H) header a (- 1) s = Some (?s, of_nat ?n, adds_row op)"
    by (rule ProcessOneOpcode_bytes [OF Cons.prems(1) _ h(1) Cons.prems(5)]) (use Cons.prems(2) in simp)
  obtain s2 pending2 where s2: "(if adds_row op then add_row ?H (default_is_stmt header) ?s pending else (?s, pending)) = (s2, pending2)"
    by (meson surj_pair)
  have "ls_passes s2 = None"
    using s2 add_row_lines(2) [of ?H "default_is_stmt header" ?s pending s2 pending2] Cons.prems(5) by (auto split: if_splits)
  from Cons.IH [OF Cons.prems(1) _ h(2) lt(2) this lt(3), of pending2] Cons.prems(2)
  obtain s' where s': "read_lines li r header stop (a + of_nat ?n) s2 pending2 = Some s'"
      "ls_handler s' = add_lines ?H (pending_lines pending2 (line_rows header ops (ls_lsm s2))) (ls_handler s2)"
    by auto
  have "read_lines li r header stop a s pending = Some s'"
    using lt(1) by (subst read_lines.simps) (simp add: step s2 s'(1))
  moreover have "ls_handler s' = add_lines ?H (pending_lines pending (line_rows header (op # ops) (ls_lsm s))) (ls_handler s)"
  proof (cases "adds_row op")
    case True
    then have row: "add_row ?H (default_is_stmt header) ?s pending = (s2, pending2)"
      using s2 by simp
    show ?thesis
      using s'(2) add_row_lines [OF row] True by (simp add: Let_def)
  qed (use s2 s'(2) in \<open>auto simp: Let_def\<close>)
  ultimately show ?case
    by blast
qed


section \<open>Properties\<close>

text \<open>C37. Reading a line program reports its lines. Where the bytes behind the header, up to the end of the
  unit, encode a list of instructions, reading them returns, reports to the handler exactly the lines
  between consecutive rows of the line table of these instructions, in their order, and ends at the end of
  the unit.\<close>

theorem line_program_executed:
  assumes "header_ok header" "\<forall>op\<in>set ops. op_ok r header op" "holds (li_mem li) after (program_bytes r ops)"
    "unat after + length (program_bytes r ops) < 2 ^ 64" "lines_end li r header = after + of_nat (length (program_bytes r ops))"
  shows "LineInfo_ReadLines li r header after h =
    Some (add_lines (li_handler li) (row_lines (line_rows header ops (LSM_Reset (default_is_stmt header)))) h,
      after + of_nat (length (program_bytes r ops)))"
proof -
  let ?s = "\<lparr>ls_lsm = LSM_Reset (default_is_stmt header), ls_handler = h, ls_passes = None\<rparr>"
  from read_lines_program [where s = ?s and pending = None, OF assms(1-4) _ assms(5)]
  obtain s' where "read_lines li r header (lines_end li r header) after ?s None = Some s'"
      "ls_handler s' = add_lines (li_handler li) (row_lines (line_rows header ops (LSM_Reset (default_is_stmt header)))) h"
    by (auto simp: pending_lines_def)
  then show ?thesis
    by (simp add: LineInfo_ReadLines_def assms(5))
qed

definition demo_line_header :: LineInfoHeader where
  "demo_line_header = \<lparr>total_length = 53, lh_version = 4, prologue_length = 27, min_insn_length = 1, default_is_stmt = True,
     line_base = 0xfb, line_range = 14, opcode_base = 13, std_opcode_lengths = [0, 0, 1, 1, 1, 1, 0, 0, 0, 1, 0, 0, 1, 0]\<rparr>"

definition demo_ops :: "LineOp list" where
  "demo_ops = [SetAddress 0x1000, AdvanceLine 9, Copy, Special 75, AdvancePC 2, EndSequence]"

text \<open>A unit of version 4 with the file a.c: its length, its header, and these instructions.\<close>

definition demo_line_unit :: "u8 list" where
  "demo_line_unit = [53, 0, 0, 0, 4, 0, 27, 0, 0, 0, 1, 1, 1, 0xfb, 14, 13, 0, 1, 1, 1, 1, 0, 0, 0, 1, 0, 0, 1, 0,
     0x61, 0x2e, 0x63, 0, 0, 0, 0, 0, 0, 9, 2, 0, 0x10, 0, 0, 0, 0, 0, 0, 3, 9, 1, 75, 2, 2, 0, 1, 1]"


abbreviation "demo_line_reader \<equiv> the (SetAddressSize 8 (ByteReader_new ENDIANNESS_LITTLE))"

definition demo_line_info :: "LineToModule LineInfo" where
  "demo_line_info = \<lparr>li_mem = (\<lambda>x. if unat (x - 100) < 57 then demo_line_unit ! unat (x - 100) else 0), li_buffer = 100,
     li_buffer_length = 57, li_string_buffer = 0, li_string_buffer_length = 0, li_line_string_buffer = 0,
     li_line_string_buffer_length = 0, li_handler = lt_handler, li_uninit = 0\<rparr>"

definition demo_lines_handler :: LineToModule where
  "demo_lines_handler = LineToModule_new (DumpModule_new ''a.out'' ''Linux'' ''x86_64'' ''0'' [] False False) ''/src'' [] []"

definition demo_lines :: "ModLine list" where
  "demo_lines = [\<lparr>ml_address = 0x1000, ml_size = 4, ml_file = ''/src/a.c'', ml_number = 10\<rparr>,
     \<lparr>ml_address = 0x1004, ml_size = 2, ml_file = ''/src/a.c'', ml_number = 11\<rparr>]"

text \<open>The handler behind the header of this unit.\<close>

definition demo_files_handler :: LineToModule where
  "demo_files_handler = demo_lines_handler\<lparr>lt_highest_file_number := 1, lt_files := [(0, Some ''/src/''), (1, Some ''/src/a.c'')],
     lt_module := (lt_module demo_lines_handler)\<lparr>dm_files := [(''/src/'', - 1), (''/src/a.c'', - 1)]\<rparr>\<rparr>"


lemma line_program_executed_witness:
  "\<exists>h. LineInfo_ReadLines demo_line_info demo_line_reader demo_line_header 137 demo_files_handler = Some (h, 157) \<and> lt_lines h = demo_lines"
proof -
  let ?rows = "row_lines (line_rows demo_line_header demo_ops (LSM_Reset (default_is_stmt demo_line_header)))"
  have n: "length (program_bytes demo_line_reader demo_ops) = 20"
    by code_simp
  have ops: "\<forall>op\<in>set demo_ops. op_ok demo_line_reader demo_line_header op"
    by (simp add: demo_ops_def demo_line_header_def addresses_ready_def SetAddressSize_def)
  have ok: "header_ok demo_line_header"
      "holds (li_mem demo_line_info) 137 (program_bytes demo_line_reader demo_ops)"
      "lines_end demo_line_info demo_line_reader demo_line_header = 157"
    by code_simp+
  have "lt_lines (add_lines lt_handler ?rows demo_files_handler) = demo_lines"
    by code_simp
  moreover have "li_handler demo_line_info = lt_handler"
    by (simp add: demo_line_info_def)
  ultimately show ?thesis
    using line_program_executed [OF ok(1) ops ok(2), of demo_files_handler] by (simp add: n ok(3))
qed

text \<open>C38. Whatever the bytes of a unit are, if reading its header and its line program returns, then every line
  that the handler has collected is one that can be dumped: it is not empty, it does not start at 0, its
  addresses do not wrap, and its file is in the file table of the module, which stays sorted.\<close>

theorem LineInfo_keeps_lines:
  assumes "LineInfo_Start li r h = Some (n, r', h')" "li_handler li = lt_handler" "lt_ok h"
  shows "lt_ok h'"
  using assms by (rule line_module.Start_inv)

lemma demo_line_run:
  "map_option (\<lambda>(n, r, h). (n, lt_lines h)) (LineInfo_Start demo_line_info demo_line_reader demo_lines_handler) = Some (57, demo_lines)"
  by code_simp

lemma LineInfo_keeps_lines_witness:
  "\<exists>r' h'. LineInfo_Start demo_line_info demo_line_reader demo_lines_handler = Some (57, r', h') \<and> lt_ok h' \<and> lt_lines h' = demo_lines"
proof -
  obtain r' h' where run: "LineInfo_Start demo_line_info demo_line_reader demo_lines_handler = Some (57, r', h')" "lt_lines h' = demo_lines"
    using demo_line_run by auto
  have "lt_ok demo_lines_handler" "li_handler demo_line_info = lt_handler"
    by (simp_all add: demo_lines_handler_def demo_line_info_def lt_ok_def LineToModule_new_def DumpModule_new_def)
  with LineInfo_keeps_lines [OF run(1)] run show ?thesis
    by blast
qed

section \<open>Two slips of the reader\<close>

text \<open>An opcode without length that does nothing is read again and again: the reader does not return.\<close>

lemma read_lines_stuck:
  assumes "ProcessOneOpcode r (li_mem li) (Some (li_handler li)) header a (- 1) s = Some (s, 0, False)" "a < stop"
  shows "read_lines li r header stop a s pending = None"
proof -
  have "read_lines li' r' header' stop' a' s' pending' = Some y \<Longrightarrow>
      (li', r', header', stop', a', s') \<noteq> (li, r, header, stop, a, s)" for li' r' header' stop' a' s' pending' y
  proof (induction rule: read_lines.raw_induct [rotated, consumes 1, case_names step])
    case (step read_lines li' r' header' stop' a' s' pending' y)
    then show ?case
      using assms by (auto split: bind_splits) blast+
  qed
  then show ?thesis
    by (cases "read_lines li r header stop a s pending") blast+
qed

text \<open>The length of an extended opcode is not checked, so its sum with the bytes in front of it can be 0.\<close>

lemma wrapped_opcode_hangs:
  assumes "header_ok header" "holds (li_mem li) a (0 # uleb_bytes (2 ^ 64 - 11) @ [0x80])" "a < stop"
  shows "read_lines li r header stop a s pending = None"
proof -
  have bytes: "uleb_bytes (2 ^ 64 - 11) = [0xf5, 0xff, 0xff, 0xff, 0xff, 0xff, 0xff, 0xff, 0xff, 1]"
    by (simp add: uleb_bytes.simps)
  have "holds (li_mem li) (a + 1) (uleb_bytes (2 ^ 64 - 11))"
    using assms(2) by (simp only: holds_Cons holds_append append_Cons)
  from ReadUnsignedLEB128_bytes [OF this]
  have len: "ReadUnsignedLEB128 (li_mem li) (a + 1) = Some (- 11, 10)"
    unfolding bytes by simp
  have "li_mem li a = 0" "li_mem li (a + 1 + 10) = 0x80"
    using assms(2) unfolding bytes by (simp_all add: holds_Cons)
  moreover have "opcode_base header \<noteq> 0"
    using assms(1) by (auto simp: header_ok_def)
  ultimately have "ProcessOneOpcode r (li_mem li) (Some (li_handler li)) header a (- 1) s = Some (s, 0, False)"
    using len \<open>opcode_base header \<noteq> 0\<close>
    by (simp add: ProcessOneOpcode_def standard_opcode_def extended_opcode_def ReadOneByte_def not_le Let_def)
  then show ?thesis
    using assms(3) by (rule read_lines_stuck)
qed

text \<open>
  The three numbers of a file that is defined within a program are read at one place: the first of them is
  the directory, the time and the length, and its bytes are counted three times, beyond the length that
  the opcode already has.
\<close>

lemma define_file_numbers:
  assumes "ReadUnsignedLEB128 mem start = Some (n, t1)" "mem (start + t1) = 3" "rd_cstring mem (start + t1 + 1) = Some name"
    "ReadUnsignedLEB128 mem (start + t1 + 1 + of_nat (length name) + 1) = Some (v, t)"
  shows "extended_opcode r mem (Some H) start s =
    map_option (\<lambda>h. (s\<lparr>ls_handler := h\<rparr>, 1 + t1 + n + 3 * t, False)) (on_DefineFile H name (- 1) (ucast v) v v (ls_handler s))"
  using assms
  by (cases "on_DefineFile H name (- 1) (ucast v) v v (ls_handler s)") (simp_all add: extended_opcode_def ReadOneByte_def)

end
