(* ===== verification/Dwarf_Ranges.thy ===== *)
theory Dwarf_Ranges
  imports Dwarf_Reader Symbol_Writer "HOL-Library.Monad_Syntax"
begin

text \<open>
  \<open>RangeListReader\<close> of common/dwarf/dwarf2reader.h and dwarf2reader.cc, the reader of .debug_ranges and
  .debug_rnglists, and common/dwarf_range_list_handler, which collects the ranges of a function. \<open>None\<close> is
  a run without a result: a failed assertion, a LEB128 number of more than ten bytes, or a list that has
  no end. The offset of .debug_rnglists can go round, so that list need not end.
\<close>

section \<open>State\<close>

record CURangesInfo =
  cu_version :: u16
  cu_base_address :: u64
  cu_ranges_base :: u64
  cu_buffer :: u64
  cu_size :: u64
  cu_addr_buffer :: u64
  cu_addr_buffer_size :: u64
  cu_addr_base :: u64

record 'h Range_Handler =
  on_AddRange :: "u64 \<Rightarrow> u64 \<Rightarrow> 'h \<Rightarrow> 'h"
  on_Finish :: "'h \<Rightarrow> 'h"

record 'h RangeListReader =
  rl_mem :: memory
  rl_reader :: ByteReader
  rl_handler :: "'h Range_Handler"

text \<open>The unit's information is updated in place; the handler has its own state.\<close>

record 'h RangeState =
  rs_info :: CURangesInfo
  rs_handler :: 'h

definition rl_ULEB :: "'h RangeListReader \<Rightarrow> 'h RangeState \<Rightarrow> u64 \<Rightarrow> (u64 \<times> u64) option" where
  "rl_ULEB R s offset = map_option (\<lambda>(v, len). (v, offset + len)) (ReadUnsignedLEB128 (rl_mem R) (cu_buffer (rs_info s) + offset))"

definition rl_Address :: "'h RangeListReader \<Rightarrow> 'h RangeState \<Rightarrow> u64 \<Rightarrow> (u64 \<times> u64) option" where
  "rl_Address R s offset = map_option (\<lambda>v. (v, offset + address_size (rl_reader R)))
     (ReadAddress (rl_reader R) (rl_mem R) (cu_buffer (rs_info s) + offset))"

definition GetAddressAtIndex :: "'h RangeListReader \<Rightarrow> 'h RangeState \<Rightarrow> u64 \<Rightarrow> u64 option" where
  "GetAddressAtIndex R s addr_index =
     (let cu = rs_info s; offset = cu_addr_base cu + addr_index * address_size (rl_reader R) in
      if cu_addr_buffer cu = 0 \<or> \<not> offset < cu_addr_buffer_size cu then None
      else ReadAddress (rl_reader R) (rl_mem R) (cu_addr_buffer cu + offset))"

definition add_range :: "'h RangeListReader \<Rightarrow> u64 \<Rightarrow> u64 \<Rightarrow> 'h RangeState \<Rightarrow> 'h RangeState" where
  "add_range R start stop s = s\<lparr>rs_handler := on_AddRange (rl_handler R) start stop (rs_handler s)\<rparr>"

definition set_base :: "u64 \<Rightarrow> 'h RangeState \<Rightarrow> 'h RangeState" where
  "set_base base s = s\<lparr>rs_info := (rs_info s)\<lparr>cu_base_address := base\<rparr>\<rparr>"

section \<open>.debug_ranges\<close>

definition max_address :: "ByteReader \<Rightarrow> u64" where
  "max_address r = (if address_size r = 4 then 0xffffffff else 0xffffffffffffffff)"

partial_function (option) ReadDebugRanges :: "'h RangeListReader \<Rightarrow> u64 \<Rightarrow> 'h RangeState \<Rightarrow> ('h RangeState \<times> bool) option" where
  "ReadDebugRanges R offset s =
     (let r = rl_reader R; cu = rs_info s; entry_size = address_size r * 2 in
      if offset > cu_size cu - entry_size then Some (s, False)
      else
        Option.bind (ReadAddress r (rl_mem R) (cu_buffer cu + offset)) (\<lambda>start_address.
        Option.bind (ReadAddress r (rl_mem R) (cu_buffer cu + offset + address_size r)) (\<lambda>end_address.
          if start_address = max_address r then ReadDebugRanges R (offset + entry_size) (set_base end_address s)
          else if start_address = 0 \<and> end_address = 0 then
            Some (s\<lparr>rs_handler := on_Finish (rl_handler R) (rs_handler s)\<rparr>, True)
          else ReadDebugRanges R (offset + entry_size)
            (add_range R (start_address + cu_base_address cu) (end_address + cu_base_address cu) s))))"

section \<open>.debug_rnglists\<close>

abbreviation (input) DW_RLE_end_of_list :: u8 where "DW_RLE_end_of_list \<equiv> 0"
abbreviation (input) DW_RLE_base_addressx :: u8 where "DW_RLE_base_addressx \<equiv> 1"
abbreviation (input) DW_RLE_startx_endx :: u8 where "DW_RLE_startx_endx \<equiv> 2"
abbreviation (input) DW_RLE_startx_length :: u8 where "DW_RLE_startx_length \<equiv> 3"
abbreviation (input) DW_RLE_offset_pair :: u8 where "DW_RLE_offset_pair \<equiv> 4"
abbreviation (input) DW_RLE_base_address :: u8 where "DW_RLE_base_address \<equiv> 5"
abbreviation (input) DW_RLE_start_end :: u8 where "DW_RLE_start_end \<equiv> 6"
abbreviation (input) DW_RLE_start_length :: u8 where "DW_RLE_start_length \<equiv> 7"

text \<open>One entry behind its type: the offset behind it and the new state.\<close>

definition range_entry :: "'h RangeListReader \<Rightarrow> u8 \<Rightarrow> u64 \<Rightarrow> 'h RangeState \<Rightarrow> (u64 \<times> 'h RangeState) option" where
  "range_entry R entry_type offset s =
     (if entry_type = DW_RLE_base_addressx then do {
        (index, offset) \<leftarrow> rl_ULEB R s offset;
        base \<leftarrow> GetAddressAtIndex R s index;
        Some (offset, set_base base s)
      }
      else if entry_type = DW_RLE_startx_endx then do {
        (index, offset) \<leftarrow> rl_ULEB R s offset;
        start \<leftarrow> GetAddressAtIndex R s index;
        (index, offset) \<leftarrow> rl_ULEB R s offset;
        stop \<leftarrow> GetAddressAtIndex R s index;
        Some (offset, add_range R start stop s)
      }
      else if entry_type = DW_RLE_startx_length then do {
        (index, offset) \<leftarrow> rl_ULEB R s offset;
        start \<leftarrow> GetAddressAtIndex R s index;
        (range_len, offset) \<leftarrow> rl_ULEB R s offset;
        Some (offset, add_range R start (start + range_len) s)
      }
      else if entry_type = DW_RLE_offset_pair then do {
        (start, offset) \<leftarrow> rl_ULEB R s offset;
        (stop, offset) \<leftarrow> rl_ULEB R s offset;
        Some (offset, add_range R (start + cu_base_address (rs_info s)) (stop + cu_base_address (rs_info s)) s)
      }
      else if entry_type = DW_RLE_base_address then do {
        (base, offset) \<leftarrow> rl_Address R s offset;
        Some (offset, set_base base s)
      }
      else if entry_type = DW_RLE_start_end then do {
        (start, offset) \<leftarrow> rl_Address R s offset;
        (stop, offset) \<leftarrow> rl_Address R s offset;
        Some (offset, add_range R start stop s)
      }
      else if entry_type = DW_RLE_start_length then do {
        (start, offset) \<leftarrow> rl_Address R s offset;
        (len, offset) \<leftarrow> rl_ULEB R s offset;
        Some (offset, add_range R start (start + len) s)
      }
      else Some (offset, s))"

partial_function (option) ReadDebugRngList :: "'h RangeListReader \<Rightarrow> u64 \<Rightarrow> 'h RangeState \<Rightarrow> ('h RangeState \<times> bool) option" where
  "ReadDebugRngList R offset s =
     (if offset < cu_size (rs_info s) then
        let entry_type = ReadOneByte (rl_mem R) (cu_buffer (rs_info s) + offset); offset = offset + 1 in
        if entry_type = DW_RLE_end_of_list then Some (s\<lparr>rs_handler := on_Finish (rl_handler R) (rs_handler s)\<rparr>, True)
        else Option.bind (range_entry R entry_type offset s) (\<lambda>p. ReadDebugRngList R (fst p) (snd p))
      else Some (s, False))"

datatype RangeForm = DW_FORM_sec_offset | DW_FORM_rnglistx | other_form

definition ReadRanges :: "'h RangeListReader \<Rightarrow> RangeForm \<Rightarrow> u64 \<Rightarrow> 'h RangeState \<Rightarrow> ('h RangeState \<times> bool) option" where
  "ReadRanges R form data s =
     (let r = rl_reader R; cu = rs_info s in
      case form of
        DW_FORM_sec_offset \<Rightarrow> if cu_version cu \<le> 4 then ReadDebugRanges R data s else ReadDebugRngList R data s
      | DW_FORM_rnglistx \<Rightarrow>
          let s = (if cu_ranges_base cu = 0
                then s\<lparr>rs_info := cu\<lparr>cu_ranges_base := (if offset_size r = 4 then 12 else 20)\<rparr>\<rparr> else s);
              offset_array = cu_ranges_base (rs_info s);
              index_offset = offset_size r * data
          in Option.bind (ReadOffset r (rl_mem R) (cu_buffer cu + offset_array + index_offset))
               (\<lambda>range_list_offset. ReadDebugRngList R (offset_array + range_list_offset) s)
      | other_form \<Rightarrow> Some (s, False))"

section \<open>The ranges of a function\<close>

text \<open>
  \<open>std::sort\<close> by the start of a range leaves the order of ranges that start at the same address open; the
  model is stable.
\<close>

definition rh_AddRange :: "u64 \<Rightarrow> u64 \<Rightarrow> ModRange list \<Rightarrow> ModRange list" where
  "rh_AddRange start stop ranges = ranges @ [\<lparr>rg_address = start, rg_size = stop - start\<rparr>]"

definition rh_Finish :: "ModRange list \<Rightarrow> ModRange list" where
  "rh_Finish ranges = sort_key rg_address ranges"

definition range_handler :: "ModRange list Range_Handler" where
  "range_handler = \<lparr>on_AddRange = rh_AddRange, on_Finish = rh_Finish\<rparr>"

end
