(* ===== verification/Dwarf_Range_Properties.thy ===== *)
theory Dwarf_Range_Properties
  imports Dwarf_Ranges Dwarf_Line_Properties
begin

text \<open>
  What range lists mean: entries as data, their encoding and the ranges they describe. Reading an
  encoded list hands exactly these ranges to the handler and finishes it, and the handler then holds
  them in the order of their starts.
\<close>

section \<open>Addresses\<close>

definition address_bytes :: "ByteReader \<Rightarrow> u64 \<Rightarrow> u8 list" where
  "address_bytes r v = byte_order r (le_bytes (unat (address_size r)) (unat v))"

definition address_fits :: "ByteReader \<Rightarrow> u64 \<Rightarrow> bool" where
  "address_fits r v \<longleftrightarrow> unat v < 256 ^ unat (address_size r)"

lemma length_address_bytes [simp]: "length (address_bytes r v) = unat (address_size r)"
  by (simp add: address_bytes_def)

lemma ReadAddress_bytes:
  "addresses_ready r \<Longrightarrow> holds mem a (address_bytes r v) \<Longrightarrow> address_fits r v \<Longrightarrow> ReadAddress r mem a = Some v"
  by (simp add: ReadAddress_holds address_bytes_def address_fits_def)

lemma address_fits_ends: "addresses_ready r \<Longrightarrow> address_fits r 0" "addresses_ready r \<Longrightarrow> address_fits r (max_address r)"
  by (auto simp: addresses_ready_def address_fits_def max_address_def)

section \<open>Entries\<close>

text \<open>Up to version 4 there are the first two; an index is one of the table of addresses.\<close>

datatype RangeEntry =
    BaseAddress u64
  | OffsetPair u64 u64
  | StartEnd u64 u64
  | StartLength u64 u64
  | BaseAddressX u64
  | StartXEndX u64 u64
  | StartXLength u64 u64

fun entry_bytes_4 :: "ByteReader \<Rightarrow> RangeEntry \<Rightarrow> u8 list" where
  "entry_bytes_4 r (BaseAddress base) = address_bytes r (max_address r) @ address_bytes r base"
| "entry_bytes_4 r (OffsetPair start stop) = address_bytes r start @ address_bytes r stop"
| "entry_bytes_4 r _ = []"

fun entry_fits_4 :: "ByteReader \<Rightarrow> RangeEntry \<Rightarrow> bool" where
  "entry_fits_4 r (BaseAddress base) \<longleftrightarrow> address_fits r base"
| "entry_fits_4 r (OffsetPair start stop) \<longleftrightarrow> address_fits r start \<and> address_fits r stop \<and> start \<noteq> max_address r \<and> (start, stop) \<noteq> (0, 0)"
| "entry_fits_4 r _ \<longleftrightarrow> False"

abbreviation uleb :: "u64 \<Rightarrow> u8 list" where
  "uleb n \<equiv> uleb_bytes (unat n)"

fun entry_bytes_5 :: "ByteReader \<Rightarrow> RangeEntry \<Rightarrow> u8 list" where
  "entry_bytes_5 r (BaseAddressX i) = 1 # uleb i"
| "entry_bytes_5 r (StartXEndX i j) = 2 # uleb i @ uleb j"
| "entry_bytes_5 r (StartXLength i n) = 3 # uleb i @ uleb n"
| "entry_bytes_5 r (OffsetPair start stop) = 4 # uleb start @ uleb stop"
| "entry_bytes_5 r (BaseAddress base) = 5 # address_bytes r base"
| "entry_bytes_5 r (StartEnd start stop) = 6 # address_bytes r start @ address_bytes r stop"
| "entry_bytes_5 r (StartLength start n) = 7 # address_bytes r start @ uleb n"

text \<open>\<open>at\<close> is the table of addresses.\<close>

fun entry_fits_5 :: "ByteReader \<Rightarrow> (u64 \<Rightarrow> u64 option) \<Rightarrow> RangeEntry \<Rightarrow> bool" where
  "entry_fits_5 r at (BaseAddressX i) \<longleftrightarrow> at i \<noteq> None"
| "entry_fits_5 r at (StartXEndX i j) \<longleftrightarrow> at i \<noteq> None \<and> at j \<noteq> None"
| "entry_fits_5 r at (StartXLength i n) \<longleftrightarrow> at i \<noteq> None"
| "entry_fits_5 r at (OffsetPair start stop) \<longleftrightarrow> True"
| "entry_fits_5 r at (BaseAddress base) \<longleftrightarrow> address_fits r base"
| "entry_fits_5 r at (StartEnd start stop) \<longleftrightarrow> address_fits r start \<and> address_fits r stop"
| "entry_fits_5 r at (StartLength start n) \<longleftrightarrow> address_fits r start"

text \<open>The base behind an entry, and the range that it adds.\<close>

fun entry_base :: "(u64 \<Rightarrow> u64 option) \<Rightarrow> RangeEntry \<Rightarrow> u64 \<Rightarrow> u64" where
  "entry_base at (BaseAddress b) base = b"
| "entry_base at (BaseAddressX i) base = the (at i)"
| "entry_base at _ base = base"

fun entry_ranges :: "(u64 \<Rightarrow> u64 option) \<Rightarrow> u64 \<Rightarrow> RangeEntry \<Rightarrow> (u64 \<times> u64) list" where
  "entry_ranges at base (OffsetPair start stop) = [(start + base, stop + base)]"
| "entry_ranges at base (StartEnd start stop) = [(start, stop)]"
| "entry_ranges at base (StartLength start n) = [(start, start + n)]"
| "entry_ranges at base (StartXEndX i j) = [(the (at i), the (at j))]"
| "entry_ranges at base (StartXLength i n) = [(the (at i), the (at i) + n)]"
| "entry_ranges at base _ = []"

fun list_ranges :: "(u64 \<Rightarrow> u64 option) \<Rightarrow> u64 \<Rightarrow> RangeEntry list \<Rightarrow> (u64 \<times> u64) list" where
  "list_ranges at base [] = []"
| "list_ranges at base (e # es) = entry_ranges at base e @ list_ranges at (entry_base at e base) es"

definition add_ranges :: "'h Range_Handler \<Rightarrow> (u64 \<times> u64) list \<Rightarrow> 'h \<Rightarrow> 'h" where
  "add_ranges H rs h = on_Finish H (fold (\<lambda>(start, stop). on_AddRange H start stop) rs h)"

section \<open>Lists of .debug_ranges\<close>

definition ranges_bytes :: "ByteReader \<Rightarrow> RangeEntry list \<Rightarrow> u8 list" where
  "ranges_bytes r es = concat (map (entry_bytes_4 r) es) @ address_bytes r 0 @ address_bytes r 0"

lemma u64_bound: "unat (w::u64) < 2 ^ 64"
  using unsigned_less [of w] by simp

lemma size_twice: "addresses_ready r \<Longrightarrow> unat (address_size r * 2) = 2 * unat (address_size r)"
  by (auto simp: addresses_ready_def)

lemma length_entry_bytes: "entry_fits_4 r e \<Longrightarrow> length (entry_bytes_4 r e) = 2 * unat (address_size r)"
  by (cases e) simp_all

lemma entry_not_last:
  assumes "addresses_ready r" "unat offset + 2 * unat (address_size r) \<le> unat sz"
  shows "\<not> offset > sz - address_size r * 2"
proof -
  have "unat (sz - address_size r * 2) = unat sz - 2 * unat (address_size r)"
    using assms by (subst unat_diff_le) (auto simp: word_le_nat_alt size_twice)
  then show ?thesis
    using assms(2) by (simp add: word_less_nat_alt)
qed

lemma ReadDebugRanges_list:
  assumes "addresses_ready (rl_reader R)" "\<forall>e\<in>set es. entry_fits_4 (rl_reader R) e"
    "holds (rl_mem R) (cu_buffer (rs_info s) + offset) (ranges_bytes (rl_reader R) es)"
    "unat offset + length (ranges_bytes (rl_reader R) es) \<le> unat (cu_size (rs_info s))"
  shows "\<exists>s'. ReadDebugRanges R offset s = Some (s', True) \<and>
    rs_handler s' = add_ranges (rl_handler R) (list_ranges at (cu_base_address (rs_info s)) es) (rs_handler s)"
  using assms(2-4)
proof (induction es arbitrary: offset s)
  case Nil
  let ?r = "rl_reader R"
  have "holds (rl_mem R) (cu_buffer (rs_info s) + offset) (address_bytes ?r 0)"
      "holds (rl_mem R) (cu_buffer (rs_info s) + offset + address_size ?r) (address_bytes ?r 0)"
    using Nil.prems(2) by (simp_all add: ranges_bytes_def holds_append)
  then have "ReadAddress ?r (rl_mem R) (cu_buffer (rs_info s) + offset) = Some 0"
      "ReadAddress ?r (rl_mem R) (cu_buffer (rs_info s) + offset + address_size ?r) = Some 0"
    using assms(1) by (simp_all add: ReadAddress_bytes address_fits_ends)
  moreover have "max_address ?r \<noteq> 0"
    by (simp add: max_address_def)
  ultimately show ?case
    using Nil.prems(3) entry_not_last [OF assms(1), of offset "cu_size (rs_info s)"]
    by (subst ReadDebugRanges.simps) (simp add: ranges_bytes_def add_ranges_def Let_def)
next
  case (Cons e es)
  let ?r = "rl_reader R" and ?cu = "rs_info s"
  let ?next = "offset + address_size ?r * 2"
  have bytes: "ranges_bytes ?r (e # es) = entry_bytes_4 ?r e @ ranges_bytes ?r es"
    by (simp add: ranges_bytes_def)
  have size: "of_nat (2 * unat (address_size ?r)) = address_size ?r * 2"
    by simp
  have fits: "\<forall>e\<in>set es. entry_fits_4 ?r e" "entry_fits_4 ?r e"
    using Cons.prems(1) by simp_all
  note n = length_entry_bytes [OF fits(2)]
  have h: "holds (rl_mem R) (cu_buffer ?cu + offset) (entry_bytes_4 ?r e)" "holds (rl_mem R) (cu_buffer ?cu + ?next) (ranges_bytes ?r es)"
    using Cons.prems(2) unfolding bytes holds_append n size by (simp_all add: add.assoc)
  have len: "unat offset + 2 * unat (address_size ?r) + length (ranges_bytes ?r es) \<le> unat (cu_size ?cu)"
    using Cons.prems(3) by (simp add: bytes n)
  have "unat offset + 2 * unat (address_size ?r) < 2 ^ 64"
    using len u64_bound [of "cu_size ?cu"] by linarith
  then have "unat ?next = unat offset + 2 * unat (address_size ?r)"
    using unat_plus_of_nat [of offset "2 * unat (address_size ?r)"] unfolding size by simp
  with len have next_len: "unat ?next + length (ranges_bytes ?r es) \<le> unat (cu_size ?cu)"
    by simp
  have enter: "\<not> offset > cu_size ?cu - address_size ?r * 2"
    using len by (intro entry_not_last [OF assms(1)]) simp
  show ?case
  proof (cases e)
    case (BaseAddress b)
    let ?s = "set_base b s"
    have "ReadAddress ?r (rl_mem R) (cu_buffer ?cu + offset) = Some (max_address ?r)"
        "ReadAddress ?r (rl_mem R) (cu_buffer ?cu + offset + address_size ?r) = Some b"
      using h(1) fits(2) assms(1) by (simp_all add: BaseAddress holds_append ReadAddress_bytes address_fits_ends)
    then have "ReadDebugRanges R offset s = ReadDebugRanges R ?next ?s"
      using enter by (subst ReadDebugRanges.simps) (simp add: Let_def)
    with Cons.IH [of ?s ?next] fits(1) h(2) next_len show ?thesis
      by (simp add: BaseAddress set_base_def)
  next
    case (OffsetPair start stop)
    let ?s = "add_range R (start + cu_base_address ?cu) (stop + cu_base_address ?cu) s"
    have "ReadAddress ?r (rl_mem R) (cu_buffer ?cu + offset) = Some start"
        "ReadAddress ?r (rl_mem R) (cu_buffer ?cu + offset + address_size ?r) = Some stop"
      using h(1) fits(2) assms(1) by (simp_all add: OffsetPair holds_append ReadAddress_bytes)
    then have "ReadDebugRanges R offset s = ReadDebugRanges R ?next ?s"
      using enter fits(2) by (subst ReadDebugRanges.simps) (auto simp: Let_def OffsetPair)
    with Cons.IH [of ?s ?next] fits(1) h(2) next_len show ?thesis
      by (simp add: OffsetPair add_range_def add_ranges_def)
  qed (use fits(2) in simp_all)
qed

section \<open>Lists of .debug_rnglists\<close>

definition rnglist_bytes :: "ByteReader \<Rightarrow> RangeEntry list \<Rightarrow> u8 list" where
  "rnglist_bytes r es = concat (map (entry_bytes_5 r) es) @ [0]"

lemma rl_ULEB_holds:
  "holds (rl_mem R) (cu_buffer (rs_info s) + offset) (uleb n) \<Longrightarrow> rl_ULEB R s offset = Some (n, offset + of_nat (length (uleb n)))"
  by (simp add: rl_ULEB_def ReadUnsignedLEB128_word)

lemma rl_Address_holds:
  "addresses_ready (rl_reader R) \<Longrightarrow> holds (rl_mem R) (cu_buffer (rs_info s) + offset) (address_bytes (rl_reader R) v) \<Longrightarrow>
    address_fits (rl_reader R) v \<Longrightarrow> rl_Address R s offset = Some (v, offset + address_size (rl_reader R))"
  by (simp add: rl_Address_def ReadAddress_bytes)

text \<open>What an entry does: it sets the base or it adds ranges.\<close>

definition apply_entry :: "'h RangeListReader \<Rightarrow> (u64 \<Rightarrow> u64 option) \<Rightarrow> RangeEntry \<Rightarrow> 'h RangeState \<Rightarrow> 'h RangeState" where
  "apply_entry R at e s =
     (let base = cu_base_address (rs_info s) in
      s\<lparr>rs_info := (rs_info s)\<lparr>cu_base_address := entry_base at e base\<rparr>,
        rs_handler := fold (\<lambda>(start, stop). on_AddRange (rl_handler R) start stop) (entry_ranges at base e) (rs_handler s)\<rparr>)"

lemma range_entry_bytes:
  assumes "addresses_ready (rl_reader R)" "entry_fits_5 (rl_reader R) (GetAddressAtIndex R s) e"
    "holds (rl_mem R) (cu_buffer (rs_info s) + offset) (entry_bytes_5 (rl_reader R) e)"
  shows "ReadOneByte (rl_mem R) (cu_buffer (rs_info s) + offset) \<noteq> 0"
    and "range_entry R (ReadOneByte (rl_mem R) (cu_buffer (rs_info s) + offset)) (offset + 1) s =
      Some (offset + of_nat (length (entry_bytes_5 (rl_reader R) e)), apply_entry R (GetAddressAtIndex R s) e s)"
proof -
  have h: "holds (rl_mem R) (cu_buffer (rs_info s) + offset) (b # bs) \<longleftrightarrow>
      rl_mem R (cu_buffer (rs_info s) + offset) = b \<and> holds (rl_mem R) (cu_buffer (rs_info s) + (offset + 1)) bs" for b bs
    by (simp add: holds_Cons add.assoc)
  have h2: "holds (rl_mem R) (cu_buffer (rs_info s) + a) (xs @ ys) \<longleftrightarrow> holds (rl_mem R) (cu_buffer (rs_info s) + a) xs \<and>
      holds (rl_mem R) (cu_buffer (rs_info s) + (a + of_nat (length xs))) ys" for a xs ys
    by (simp add: holds_append add.assoc)
  note defs = h h2 range_entry_def ReadOneByte_def rl_ULEB_holds rl_Address_holds assms(1) apply_entry_def set_base_def add_range_def
    add.assoc
  show "ReadOneByte (rl_mem R) (cu_buffer (rs_info s) + offset) \<noteq> 0"
    using assms(3) by (cases e) (simp_all add: h ReadOneByte_def)
  show "range_entry R (ReadOneByte (rl_mem R) (cu_buffer (rs_info s) + offset)) (offset + 1) s =
      Some (offset + of_nat (length (entry_bytes_5 (rl_reader R) e)), apply_entry R (GetAddressAtIndex R s) e s)"
    using assms(2,3) by (cases e) (auto simp: defs Let_def)
qed

lemma GetAddressAtIndex_apply: "GetAddressAtIndex R (apply_entry R at e s) = GetAddressAtIndex R s"
  by (simp add: GetAddressAtIndex_def apply_entry_def fun_eq_iff Let_def)

lemma ReadDebugRngList_list:
  assumes "addresses_ready (rl_reader R)" "\<forall>e\<in>set es. entry_fits_5 (rl_reader R) (GetAddressAtIndex R s) e"
    "holds (rl_mem R) (cu_buffer (rs_info s) + offset) (rnglist_bytes (rl_reader R) es)"
    "unat offset + length (rnglist_bytes (rl_reader R) es) \<le> unat (cu_size (rs_info s))"
  shows "\<exists>s'. ReadDebugRngList R offset s = Some (s', True) \<and>
    rs_handler s' = add_ranges (rl_handler R) (list_ranges (GetAddressAtIndex R s) (cu_base_address (rs_info s)) es) (rs_handler s)"
  using assms(2-4)
proof (induction es arbitrary: offset s)
  case Nil
  then have "offset < cu_size (rs_info s)" "ReadOneByte (rl_mem R) (cu_buffer (rs_info s) + offset) = 0"
    by (simp_all add: rnglist_bytes_def word_less_nat_alt holds_Cons ReadOneByte_def)
  then show ?case
    by (subst ReadDebugRngList.simps) (simp add: Let_def add_ranges_def)
next
  case (Cons e es)
  let ?r = "rl_reader R" and ?at = "GetAddressAtIndex R s"
  let ?n = "length (entry_bytes_5 ?r e)" and ?s = "apply_entry R ?at e s"
  have bytes: "rnglist_bytes ?r (e # es) = entry_bytes_5 ?r e @ rnglist_bytes ?r es"
    by (simp add: rnglist_bytes_def)
  have h: "holds (rl_mem R) (cu_buffer (rs_info s) + offset) (entry_bytes_5 ?r e)"
      "holds (rl_mem R) (cu_buffer (rs_info s) + (offset + of_nat ?n)) (rnglist_bytes ?r es)"
    using Cons.prems(2) by (simp_all add: bytes holds_append add.assoc)
  have len: "unat offset + ?n + length (rnglist_bytes ?r es) \<le> unat (cu_size (rs_info s))"
    using Cons.prems(3) by (simp add: bytes)
  have "0 < ?n"
    by (cases e) simp_all
  with len have "unat offset < unat (cu_size (rs_info s))"
    by linarith
  then have inside: "offset < cu_size (rs_info s)"
    by (simp add: word_less_nat_alt)
  have "unat (offset + of_nat ?n) = unat offset + ?n"
    using len u64_bound [of "cu_size (rs_info s)"] by (intro unat_plus_of_nat) linarith
  with len have next_len: "unat (offset + of_nat ?n) + length (rnglist_bytes ?r es) \<le> unat (cu_size (rs_info s))"
    by simp
  have "entry_fits_5 ?r ?at e"
    using Cons.prems(1) by simp
  note step = range_entry_bytes [OF assms(1) this h(1)]
  have "ReadDebugRngList R offset s = ReadDebugRngList R (offset + of_nat ?n) ?s"
    using inside step(1) by (subst ReadDebugRngList.simps) (simp add: Let_def step(2))
  moreover have same: "cu_buffer (rs_info ?s) = cu_buffer (rs_info s)" "cu_size (rs_info ?s) = cu_size (rs_info s)"
    by (simp_all add: apply_entry_def Let_def)
  have "\<forall>e\<in>set es. entry_fits_5 ?r (GetAddressAtIndex R ?s) e"
    using Cons.prems(1) by (simp add: GetAddressAtIndex_apply)
  from Cons.IH [where s = ?s and offset = "offset + of_nat ?n", unfolded same, OF this h(2) next_len]
  have "\<exists>s'. ReadDebugRngList R (offset + of_nat ?n) ?s = Some (s', True) \<and>
      rs_handler s' = add_ranges (rl_handler R) (list_ranges ?at (cu_base_address (rs_info s)) (e # es)) (rs_handler s)"
    by (simp add: GetAddressAtIndex_apply add_ranges_def) (simp add: apply_entry_def Let_def)
  ultimately show ?case
    by simp
qed

section \<open>The ranges of a function\<close>

lemma add_ranges_function:
  "add_ranges range_handler rs ranges = sort_key rg_address (ranges @ map (\<lambda>(start, stop). \<lparr>rg_address = start, rg_size = stop - start\<rparr>) rs)"
proof -
  have "fold (\<lambda>(start, stop). rh_AddRange start stop) rs ranges =
      ranges @ map (\<lambda>(start, stop). \<lparr>rg_address = start, rg_size = stop - start\<rparr>) rs"
    by (induction rs arbitrary: ranges) (auto simp: rh_AddRange_def)
  then show ?thesis
    by (simp add: add_ranges_def range_handler_def rh_Finish_def)
qed

section \<open>The property\<close>

definition list_bytes :: "u16 \<Rightarrow> ByteReader \<Rightarrow> RangeEntry list \<Rightarrow> u8 list" where
  "list_bytes version r es = (if version \<le> 4 then ranges_bytes r es else rnglist_bytes r es)"

definition entries_fit :: "u16 \<Rightarrow> ByteReader \<Rightarrow> (u64 \<Rightarrow> u64 option) \<Rightarrow> RangeEntry list \<Rightarrow> bool" where
  "entries_fit version r at es \<longleftrightarrow> (\<forall>e\<in>set es. if version \<le> 4 then entry_fits_4 r e else entry_fits_5 r at e)"

definition function_range :: "u64 \<times> u64 \<Rightarrow> ModRange" where
  "function_range p = \<lparr>rg_address = fst p, rg_size = snd p - fst p\<rparr>"

text \<open>C39. Reading the range list of a function: where the bytes at the offset that the function names
  encode a list of entries, in the form of its version of DWARF, reading them succeeds, and the ranges
  that the function gets are exactly those that the entries describe, with the bases and the address table
  of the unit, in the order of their starts.\<close>

theorem ReadRanges_correct:
  assumes "addresses_ready (rl_reader R)" "rl_handler R = range_handler"
    "entries_fit (cu_version (rs_info s)) (rl_reader R) (GetAddressAtIndex R s) es"
    "holds (rl_mem R) (cu_buffer (rs_info s) + offset) (list_bytes (cu_version (rs_info s)) (rl_reader R) es)"
    "unat offset + length (list_bytes (cu_version (rs_info s)) (rl_reader R) es) \<le> unat (cu_size (rs_info s))"
  shows "\<exists>s'. ReadRanges R DW_FORM_sec_offset offset s = Some (s', True) \<and> sorted (map rg_address (rs_handler s')) \<and>
    mset (rs_handler s') = mset (rs_handler s) +
      mset (map function_range (list_ranges (GetAddressAtIndex R s) (cu_base_address (rs_info s)) es))"
proof -
  have result: "\<exists>s'. ReadRanges R DW_FORM_sec_offset offset s = Some (s', True) \<and>
      rs_handler s' = add_ranges (rl_handler R) (list_ranges (GetAddressAtIndex R s) (cu_base_address (rs_info s)) es) (rs_handler s)"
  proof (cases "cu_version (rs_info s) \<le> 4")
    case True
    then show ?thesis
      using ReadDebugRanges_list [OF assms(1), of es s offset] assms(3-5)
      by (simp add: ReadRanges_def list_bytes_def entries_fit_def)
  next
    case False
    then show ?thesis
      using ReadDebugRngList_list [OF assms(1), of es s offset] assms(3-5)
      by (simp add: ReadRanges_def list_bytes_def entries_fit_def)
  qed
  have "function_range = (\<lambda>(start, stop). \<lparr>rg_address = start, rg_size = stop - start\<rparr>)"
    by (simp add: function_range_def fun_eq_iff)
  then show ?thesis
    using result by (auto simp: assms(2) add_ranges_function)
qed

definition demo_range_bytes :: "u8 list" where
  "demo_range_bytes = [5, 0, 0x20, 0, 0, 0, 0, 0, 0, 4, 0, 0x10, 7, 0, 0x10, 0, 0, 0, 0, 0, 0, 8, 3, 1, 2, 0,
     0, 0, 0, 0, 0, 0, 0, 0, 0, 0x30, 0, 0, 0, 0, 0, 0]"

definition demo_range_reader :: "ModRange list RangeListReader" where
  "demo_range_reader = \<lparr>rl_mem = (\<lambda>x. if unat (x - 100) < 42 then demo_range_bytes ! unat (x - 100) else 0),
     rl_reader = demo_line_reader, rl_handler = range_handler\<rparr>"

definition demo_range_state :: "ModRange list RangeState" where
  "demo_range_state = \<lparr>rs_info = \<lparr>cu_version = 5, cu_base_address = 0x400, cu_ranges_base = 0, cu_buffer = 100, cu_size = 26,
     cu_addr_buffer = 126, cu_addr_buffer_size = 16, cu_addr_base = 0\<rparr>, rs_handler = []\<rparr>"

text \<open>Two ranges in descending order and a third one whose start is the second address of the table.\<close>

lemma ReadRanges_correct_witness:
  "\<exists>s'. ReadRanges demo_range_reader DW_FORM_sec_offset 0 demo_range_state = Some (s', True) \<and>
    sorted (map rg_address (rs_handler s')) \<and> mset (rs_handler s') = {#\<lparr>rg_address = 0x2000, rg_size = 0x10\<rparr>,
      \<lparr>rg_address = 0x1000, rg_size = 8\<rparr>, \<lparr>rg_address = 0x3000, rg_size = 2\<rparr>#}"
proof -
  let ?es = "[BaseAddress 0x2000, OffsetPair 0 0x10, StartLength 0x1000 8, StartXLength 1 2]"
  have ready: "addresses_ready (rl_reader demo_range_reader)" "rl_handler demo_range_reader = range_handler"
    by (simp_all add: demo_range_reader_def addresses_ready_def SetAddressSize_def)
  have at: "GetAddressAtIndex demo_range_reader demo_range_state 1 = Some 0x3000"
    by code_simp
  have version: "cu_version (rs_info demo_range_state) = 5" "address_size (rl_reader demo_range_reader) = 8"
    by (simp_all add: demo_range_state_def demo_range_reader_def SetAddressSize_def)
  have fit: "entries_fit (cu_version (rs_info demo_range_state)) (rl_reader demo_range_reader)
      (GetAddressAtIndex demo_range_reader demo_range_state) ?es"
    by (simp add: at version entries_fit_def address_fits_def)
  have bytes: "holds (rl_mem demo_range_reader) (cu_buffer (rs_info demo_range_state) + 0)
      (list_bytes (cu_version (rs_info demo_range_state)) (rl_reader demo_range_reader) ?es)"
    "length (list_bytes (cu_version (rs_info demo_range_state)) (rl_reader demo_range_reader) ?es) = 26"
    by code_simp+
  have ranges: "map function_range (list_ranges (GetAddressAtIndex demo_range_reader demo_range_state)
      (cu_base_address (rs_info demo_range_state)) ?es) =
    [\<lparr>rg_address = 0x2000, rg_size = 0x10\<rparr>, \<lparr>rg_address = 0x1000, rg_size = 8\<rparr>, \<lparr>rg_address = 0x3000, rg_size = 2\<rparr>]"
    by (simp add: at function_range_def)
  have "cu_size (rs_info demo_range_state) = 26" "rs_handler demo_range_state = []"
    by (simp_all add: demo_range_state_def)
  with ReadRanges_correct [OF ready fit bytes(1)] show ?thesis
    unfolding bytes(2) ranges by simp
qed

end
