(* ===== verification/Code_Modules.thy ===== *)
theory Code_Modules
  imports Range_Map
begin

text \<open>
  google_breakpad/processor/code_module.h, processor/basic_code_module.h and basic_code_modules: the code
  modules of a crashed process and the map that finds the module of an address. A \<open>linked_ptr\<close> to a
  module is the module: they are not changed after they are stored. \<open>None\<close> is a store that does not return.
\<close>

section \<open>Modules\<close>

record CodeModule =
  base_address :: u64
  module_size :: u64
  shrink_down_delta :: u64
  code_file :: string
  code_id :: string
  debug_file :: string
  debug_id :: string
  module_version :: string
  is_unloaded :: bool

definition BasicCodeModule_new ::
  "u64 \<Rightarrow> u64 \<Rightarrow> string \<Rightarrow> string \<Rightarrow> string \<Rightarrow> string \<Rightarrow> string \<Rightarrow> bool \<Rightarrow> CodeModule" where
  "BasicCodeModule_new base sz cfile cid dfile did ver unloaded = \<lparr>base_address = base, module_size = sz,
     shrink_down_delta = 0, code_file = cfile, code_id = cid, debug_file = dfile, debug_id = did,
     module_version = ver, is_unloaded = unloaded\<rparr>"

definition SetShrinkDownDelta :: "u64 \<Rightarrow> CodeModule \<Rightarrow> CodeModule" where
  "SetShrinkDownDelta delta m = m\<lparr>shrink_down_delta := delta\<rparr>"

section \<open>The map of modules\<close>

record CodeModules =
  main_address :: u64
  module_map :: "(u64, CodeModule) RangeMap"
  shrunk_range_modules :: "CodeModule list"

definition CodeModules_new :: CodeModules where
  "CodeModules_new = \<lparr>main_address = 0, module_map = RangeMap_new, shrunk_range_modules = []\<rparr>"

text \<open>Modules that could not be stored are left out.\<close>

primrec store_modules :: "CodeModule list \<Rightarrow> (u64, CodeModule) RangeMap \<Rightarrow> (u64, CodeModule) RangeMap option" where
  "store_modules [] m = Some m"
| "store_modules (c # cs) m =
     Option.bind (StoreRange m (base_address c) (module_size c) c) (\<lambda>(m, ok). store_modules cs m)"

text \<open>The modules whose range was moved up, each with the distance.\<close>

primrec report_shrunk :: "(64, CodeModule) range_omap \<Rightarrow> CodeModule list \<Rightarrow> CodeModule list" where
  "report_shrunk m [] = []"
| "report_shrunk m (c # cs) =
     (case RetrieveRange m (base_address c + module_size c - 1) of
        Some (found, base, delta, sz) \<Rightarrow> (if delta > 0 then [SetShrinkDownDelta delta found] else [])
      | None \<Rightarrow> []) @ report_shrunk m cs"

definition BasicCodeModules_of :: "CodeModule option \<Rightarrow> CodeModule list \<Rightarrow> MergeRangeStrategy \<Rightarrow> CodeModules option" where
  "BasicCodeModules_of main_module cs strategy =
     map_option (\<lambda>m. \<lparr>main_address = (case main_module of None \<Rightarrow> 0 | Some c \<Rightarrow> base_address c), module_map = m,
         shrunk_range_modules = report_shrunk (rm_map m) cs\<rparr>)
       (store_modules cs (SetMergeStrategy strategy RangeMap_new))"

definition module_count :: "CodeModules \<Rightarrow> nat" where
  "module_count ms = GetCount (rm_map (module_map ms))"

definition GetModuleForAddress :: "CodeModules \<Rightarrow> u64 \<Rightarrow> CodeModule option" where
  "GetModuleForAddress ms address = map_option fst (RetrieveRange (rm_map (module_map ms)) address)"

definition GetMainModule :: "CodeModules \<Rightarrow> CodeModule option" where
  "GetMainModule ms = GetModuleForAddress ms (main_address ms)"

definition GetModuleAtSequence :: "CodeModules \<Rightarrow> u32 \<Rightarrow> CodeModule option" where
  "GetModuleAtSequence ms sequence = map_option fst (RetrieveRangeAtIndex (rm_map (module_map ms)) (uint sequence))"

definition GetModuleAtIndex :: "CodeModules \<Rightarrow> u32 \<Rightarrow> CodeModule option" where
  "GetModuleAtIndex ms index = GetModuleAtSequence ms index"

definition CodeModules_Copy :: "CodeModules \<Rightarrow> CodeModules option" where
  "CodeModules_Copy ms = BasicCodeModules_of (GetMainModule ms)
     (map (\<lambda>i. the (GetModuleAtIndex ms (of_nat i))) [0..<module_count ms]) (GetMergeStrategy (module_map ms))"

section \<open>Lookups\<close>

text \<open>A store adds no address to an entry but those of the range stored, whatever the strategy cuts.\<close>

definition holds_at :: "('w::len, 'e) range_omap \<Rightarrow> 'e \<Rightarrow> 'w word \<Rightarrow> bool" where
  "holds_at m e a \<longleftrightarrow> (\<exists>p\<in>set m. covers p a \<and> r_entry (snd p) = e)"

lemma holds_at_insert:
  "set m' = insert (h, \<lparr>r_base = b, r_delta = d, r_entry = e'\<rparr>) S \<Longrightarrow>
   holds_at m' e a \<longleftrightarrow> (e = e' \<and> b \<le> a \<and> a \<le> h) \<or> (\<exists>p\<in>S. covers p a \<and> r_entry (snd p) = e)"
  by (auto simp: holds_at_def)

lemma store_run_holds_at:
  assumes "store_run strat entry (m, base, delta, sz) (m', ok)" "holds_at m' e a"
  shows "holds_at m e a \<or> e = entry \<and> (\<exists>high. valid_range base sz high \<and> base \<le> a \<and> a \<le> high)"
proof (cases ok)
  case False
  then show ?thesis
    using store_run_result [OF assms(1)] assms(2) by simp
next
  case True
  have run: "store_run strat entry (m, base, delta, sz) (m', True)"
    using assms(1) True by simp
  have ok: "ranges_ok m"
    using store_run_ok [OF run] by simp
  show ?thesis
  proof (cases strat)
    case kExclusiveRanges
    show ?thesis
    proof -
      obtain high where v: "valid_range base sz high"
        and eq: "set m' = insert (high, \<lparr>r_base = base, r_delta = delta, r_entry = entry\<rparr>) (set m)"
        using store_run_exclusive [OF run kExclusiveRanges] by auto
      show ?thesis
        using assms(2) [unfolded holds_at_insert [OF eq]] v by (auto simp: holds_at_def)
    qed
  next
    case kTruncateLower
    then obtain high h where v: "valid_range base sz high" and h: "new_high m base high h"
      and eq: "set m' = insert (h, \<lparr>r_base = base, r_delta = delta, r_entry = entry\<rparr>) (cut_at base ` set m)"
      using store_run_lower [OF run kTruncateLower] by auto
    show ?thesis
      using assms(2) [unfolded holds_at_insert [OF eq]] v h
      by (auto simp: covers_cut_at [OF ok] holds_at_def new_high_def)
  next
    case kTruncateUpper
    then obtain high b where v: "valid_range base sz high" and b: "new_base m base high b"
      and eq: "set m' = insert (high, \<lparr>r_base = b, r_delta = delta + (b - base), r_entry = entry\<rparr>)
        (raise_above high ` set m)"
      using store_run_upper [OF run kTruncateUpper] by auto
    show ?thesis
      using assms(2) [unfolded holds_at_insert [OF eq]] v b
      by (auto simp: covers_raise_above holds_at_def new_base_def)
  qed
qed

lemma RetrieveRange_holds_at:
  "ranges_ok m \<Longrightarrow> map_option fst (RetrieveRange m a) = Some e \<longleftrightarrow> holds_at m e a"
  by (simp only: map_RetrieveRange_iff) (auto simp: holds_at_def range_result_def)

definition in_module :: "CodeModule \<Rightarrow> u64 \<Rightarrow> bool" where
  "in_module c a \<longleftrightarrow> base_address c \<le> a \<and> unat a < unat (base_address c) + unat (module_size c)"

lemma valid_range_in_module:
  "valid_range (base_address c) (module_size c) high \<Longrightarrow> base_address c \<le> a \<Longrightarrow> a \<le> high \<Longrightarrow> in_module c a"
  using valid_range_unat [of "base_address c" "module_size c" high]
  by (auto simp: in_module_def word_le_nat_alt)

lemma StoreRange_holds_at:
  assumes "ranges_ok (rm_map m)"
  obtains m' ok where "StoreRange m base sz entry = Some (m', ok)" "ranges_ok (rm_map m')"
    "\<And>e a. holds_at (rm_map m') e a \<Longrightarrow>
      holds_at (rm_map m) e a \<or> e = entry \<and> (\<exists>high. valid_range base sz high \<and> base \<le> a \<and> a \<le> high)"
proof -
  obtain m' ok where s: "StoreRange m base sz entry = Some (m', ok)"
    using StoreRangeInternal_run [OF assms, of "merge_strategy m" entry base 0 sz]
    by (auto simp: has_run_def StoreRange_def)
  note run = StoreRange_cases(1) [OF assms s]
  show ?thesis
  proof (rule that [OF s])
    show "ranges_ok (rm_map m')"
      using store_run_ok [OF run] by simp
  qed (rule store_run_holds_at [OF run])
qed

lemma store_modules_run:
  assumes "ranges_ok (rm_map m)"
  shows "\<exists>m'. store_modules cs m = Some m' \<and> ranges_ok (rm_map m') \<and>
    (\<forall>c a. holds_at (rm_map m') c a \<longrightarrow> holds_at (rm_map m) c a \<or> c \<in> set cs \<and> in_module c a)"
  using assms
proof (induction cs arbitrary: m)
  case (Cons c cs)
  obtain m1 ok where s: "StoreRange m (base_address c) (module_size c) c = Some (m1, ok)" "ranges_ok (rm_map m1)"
    and h: "\<And>e a. holds_at (rm_map m1) e a \<Longrightarrow> holds_at (rm_map m) e a \<or> e = c \<and>
      (\<exists>high. valid_range (base_address c) (module_size c) high \<and> base_address c \<le> a \<and> a \<le> high)"
    by (rule StoreRange_holds_at [OF Cons.prems, of "base_address c" "module_size c" c]) blast
  have "holds_at (rm_map m) e a \<or> e = c \<and> in_module c a" if "holds_at (rm_map m1) e a" for e a
    using h [OF that] valid_range_in_module by blast
  then show ?case
    using Cons.IH [OF s(2)] by (fastforce simp: s(1))
qed simp

lemma BasicCodeModules_of_run:
  obtains ms where "BasicCodeModules_of main_module cs strat = Some ms" "ranges_ok (rm_map (module_map ms))"
    "\<And>a c. GetModuleForAddress ms a = Some c \<Longrightarrow> c \<in> set cs \<and> in_module c a"
proof -
  have "ranges_ok (rm_map (SetMergeStrategy strat (RangeMap_new :: (u64, CodeModule) RangeMap)))"
    by (simp add: SetMergeStrategy_def RangeMap_new_def disjoint_by_def)
  then obtain m where m: "store_modules cs (SetMergeStrategy strat RangeMap_new) = Some m" "ranges_ok (rm_map m)"
    and h: "\<And>c a. holds_at (rm_map m) c a \<Longrightarrow> holds_at [] c a \<or> c \<in> set cs \<and> in_module c a"
    using store_modules_run [of "SetMergeStrategy strat RangeMap_new" cs]
    by (auto simp: SetMergeStrategy_def RangeMap_new_def)
  show ?thesis
  proof (rule that)
    show "BasicCodeModules_of main_module cs strat = Some
        \<lparr>main_address = (case main_module of None \<Rightarrow> 0 | Some c \<Rightarrow> base_address c), module_map = m,
         shrunk_range_modules = report_shrunk (rm_map m) cs\<rparr>"
      by (simp add: BasicCodeModules_of_def m(1))
    fix a c
    assume "GetModuleForAddress \<lparr>main_address = (case main_module of None \<Rightarrow> 0 | Some c \<Rightarrow> base_address c),
      module_map = m, shrunk_range_modules = report_shrunk (rm_map m) cs\<rparr> a = Some c"
    then show "c \<in> set cs \<and> in_module c a"
      using h [of c a] RetrieveRange_holds_at [OF m(2), of a c] by (simp add: GetModuleForAddress_def holds_at_def)
  qed (simp add: m(2))
qed

end
