(* ===== verification/Symbolizer.thy ===== *)
theory Symbolizer
  imports Code_Modules CFI_Lookup Symbol_Loader
begin

text \<open>
  processor/source_line_resolver_base.cc with the basic resolver's modules, and
  processor/stack_frame_symbolizer.cc: the symbols of the modules of a process, fetched from a symbol
  supplier when the first address in a module is looked up. A frame is a pair of its record and its
  module. \<open>None\<close> is a load that does not return or has undefined behaviour.
\<close>

section \<open>The resolver\<close>

text \<open>Names of modules are compared with \<open>strcmp\<close>, up to a terminator.\<close>

definition c_name :: "string \<Rightarrow> string" where
  "c_name s = takeWhile (\<lambda>c. c \<noteq> CHR 0x00) s"

record Resolver =
  rb_modules :: "string \<Rightarrow> Module option"
  rb_corrupt :: "string set"

definition Resolver_new :: Resolver where
  "Resolver_new = \<lparr>rb_modules = Map.empty, rb_corrupt = {}\<rparr>"

definition loaded_module :: "Resolver \<Rightarrow> CodeModule \<Rightarrow> Module option" where
  "loaded_module r c = rb_modules r (c_name (code_file c))"

text \<open>The result of the load itself is only logged: a corrupt module is added all the same.\<close>

definition LoadModuleUsingMemoryBuffer ::
  "int \<Rightarrow> CodeModule option \<Rightarrow> string \<Rightarrow> Resolver \<Rightarrow> (Resolver \<times> bool) option" where
  "LoadModuleUsingMemoryBuffer junk module memory_buffer r =
     (case module of
        None \<Rightarrow> Some (r, False)
      | Some c \<Rightarrow>
          if loaded_module r c \<noteq> None then Some (r, False)
          else map_option (\<lambda>basic_module.
              (r\<lparr>rb_modules := (rb_modules r)(c_name (code_file c) \<mapsto> basic_module),
                 rb_corrupt := (if m_is_corrupt basic_module then insert (c_name (code_file c)) (rb_corrupt r)
                   else rb_corrupt r)\<rparr>, True))
            (LoadMapFromMemory junk memory_buffer))"

text \<open>
  A map buffer is copied and ended with a terminator. The module is used in a log message before it is
  compared with the null pointer.
\<close>

definition LoadModuleUsingMapBuffer ::
  "int \<Rightarrow> CodeModule option \<Rightarrow> string \<Rightarrow> Resolver \<Rightarrow> (Resolver \<times> bool) option" where
  "LoadModuleUsingMapBuffer junk module map_buffer r =
     (case module of
        None \<Rightarrow> None
      | Some c \<Rightarrow>
          if loaded_module r c \<noteq> None then Some (r, False)
          else LoadModuleUsingMemoryBuffer junk module (map_buffer @ [CHR 0x00]) r)"

definition UnloadModule :: "CodeModule option \<Rightarrow> Resolver \<Rightarrow> Resolver" where
  "UnloadModule code_module r =
     (case code_module of
        None \<Rightarrow> r
      | Some c \<Rightarrow>
          if loaded_module r c \<noteq> None then
            r\<lparr>rb_modules := (rb_modules r)(c_name (code_file c) := None),
              rb_corrupt := rb_corrupt r - {c_name (code_file c)}\<rparr>
          else r)"

definition HasModule :: "Resolver \<Rightarrow> CodeModule option \<Rightarrow> bool" where
  "HasModule r module = (case module of None \<Rightarrow> False | Some c \<Rightarrow> loaded_module r c \<noteq> None)"

definition IsModuleCorrupt :: "Resolver \<Rightarrow> CodeModule option \<Rightarrow> bool" where
  "IsModuleCorrupt r module = (case module of None \<Rightarrow> False | Some c \<Rightarrow> c_name (code_file c) \<in> rb_corrupt r)"

type_synonym frame = "StackFrame \<times> CodeModule option"

definition frame_symbols :: "Resolver \<Rightarrow> frame \<Rightarrow> Module option" where
  "frame_symbols r frame = Option.bind (snd frame) (loaded_module r)"

definition Resolver_FillSourceLineInfo ::
  "Resolver \<Rightarrow> frame \<Rightarrow> StackFrame list option \<Rightarrow> frame \<times> StackFrame list option" where
  "Resolver_FillSourceLineInfo r frame inlined_frames =
     (case frame_symbols r frame of
        None \<Rightarrow> (frame, inlined_frames)
      | Some m \<Rightarrow>
          (let (f, inlined_frames) = LookupAddress m (fst frame) inlined_frames
           in ((f, snd frame), inlined_frames)))"

definition Resolver_FindWindowsFrameInfo :: "Resolver \<Rightarrow> frame \<Rightarrow> WindowsFrameInfo option" where
  "Resolver_FindWindowsFrameInfo r frame =
     Option.bind (frame_symbols r frame) (\<lambda>m. FindWindowsFrameInfo m (fst frame))"

definition Resolver_FindCFIFrameInfo :: "Resolver \<Rightarrow> frame \<Rightarrow> CFIFrameInfo option" where
  "Resolver_FindCFIFrameInfo r frame =
     Option.bind (frame_symbols r frame) (\<lambda>m. FindCFIFrameInfo m (fst frame))"

section \<open>The symbolizer\<close>

datatype SymbolResult = FOUND string | NOT_FOUND | INTERRUPT

datatype SymbolizerResult = kNoError | kError | kInterrupt | kWarningCorruptSymbols

text \<open>
  The supplier is code of the embedding program: its answer to each question may depend on the module
  and on how many questions it was asked before. \<open>sy_junk\<close> is what uninitialised variables of the
  loader hold.
\<close>

record Symbolizer =
  sy_supplier :: "(nat \<Rightarrow> CodeModule \<Rightarrow> SymbolResult) option"
  sy_asked :: nat
  sy_resolver :: "Resolver option"
  sy_junk :: int
  no_symbol_modules :: "string set"

definition Symbolizer_new ::
  "(nat \<Rightarrow> CodeModule \<Rightarrow> SymbolResult) option \<Rightarrow> Resolver option \<Rightarrow> int \<Rightarrow> Symbolizer" where
  "Symbolizer_new supplier resolver junk = \<lparr>sy_supplier = supplier, sy_asked = 0, sy_resolver = resolver,
     sy_junk = junk, no_symbol_modules = {}\<rparr>"

definition HasImplementation :: "Symbolizer \<Rightarrow> bool" where
  "HasImplementation sy \<longleftrightarrow> sy_resolver sy \<noteq> None \<and> sy_supplier sy \<noteq> None"

definition Symbolizer_Reset :: "Symbolizer \<Rightarrow> Symbolizer" where
  "Symbolizer_Reset sy = sy\<lparr>no_symbol_modules := {}\<rparr>"

text \<open>The module of an address, first among the loaded modules, then among those unloaded.\<close>

definition module_of :: "CodeModules option \<Rightarrow> CodeModules option \<Rightarrow> u64 \<Rightarrow> CodeModule option" where
  "module_of modules unloaded_modules address =
     (let module = Option.bind modules (\<lambda>ms. GetModuleForAddress ms address) in
      if module = None then Option.bind unloaded_modules (\<lambda>ms. GetModuleForAddress ms address) else module)"

definition set_module :: "frame \<Rightarrow> CodeModule \<Rightarrow> frame" where
  "set_module frame c = ((fst frame)\<lparr>module_base_address := base_address c\<rparr>, Some c)"

definition fill_from_resolver ::
  "Symbolizer \<Rightarrow> Resolver \<Rightarrow> frame \<Rightarrow> StackFrame list option \<Rightarrow>
   Symbolizer \<times> SymbolizerResult \<times> frame \<times> StackFrame list option" where
  "fill_from_resolver sy r frame inlined_frames =
     (let (frame', inlined_frames) = Resolver_FillSourceLineInfo r frame inlined_frames
      in (sy, if IsModuleCorrupt r (snd frame) then kWarningCorruptSymbols else kNoError, frame', inlined_frames))"

definition mark_no_symbols :: "CodeModule \<Rightarrow> Symbolizer \<Rightarrow> Symbolizer" where
  "mark_no_symbols c sy = sy\<lparr>no_symbol_modules := insert (code_file c) (no_symbol_modules sy)\<rparr>"

text \<open>The part that asks the supplier, for a module that has no symbols yet.\<close>

definition fetch_symbols ::
  "(nat \<Rightarrow> CodeModule \<Rightarrow> SymbolResult) \<Rightarrow> Symbolizer \<Rightarrow> Resolver \<Rightarrow> CodeModule \<Rightarrow> frame \<Rightarrow> StackFrame list option \<Rightarrow>
   (Symbolizer \<times> SymbolizerResult \<times> frame \<times> StackFrame list option) option" where
  "fetch_symbols supplier sy r module frame inlined_frames =
     (let answer = supplier (sy_asked sy) module; sy = sy\<lparr>sy_asked := sy_asked sy + 1\<rparr>
      in case answer of
        FOUND symbol_data \<Rightarrow>
          Option.bind (LoadModuleUsingMemoryBuffer (sy_junk sy) (Some module) symbol_data r) (\<lambda>(r, load_success).
            let sy = sy\<lparr>sy_resolver := Some r\<rparr> in
            if load_success then Some (fill_from_resolver sy r frame inlined_frames)
            else Some (mark_no_symbols module sy, kError, frame, inlined_frames))
      | NOT_FOUND \<Rightarrow> Some (mark_no_symbols module sy, kError, frame, inlined_frames)
      | INTERRUPT \<Rightarrow> Some (sy, kInterrupt, frame, inlined_frames))"

definition FillSourceLineInfo ::
  "CodeModules option \<Rightarrow> CodeModules option \<Rightarrow> frame \<Rightarrow> StackFrame list option \<Rightarrow> Symbolizer \<Rightarrow>
   (Symbolizer \<times> SymbolizerResult \<times> frame \<times> StackFrame list option) option" where
  "FillSourceLineInfo modules unloaded_modules frame inlined_frames sy =
     (case module_of modules unloaded_modules (instruction (fst frame)) of
        None \<Rightarrow> Some (sy, kError, frame, inlined_frames)
      | Some module \<Rightarrow>
          (let frame = set_module frame module in
           case sy_resolver sy of
             None \<Rightarrow> Some (sy, kError, frame, inlined_frames)
           | Some r \<Rightarrow>
               if code_file module \<in> no_symbol_modules sy then Some (sy, kError, frame, inlined_frames)
               else if HasModule r (Some module) then Some (fill_from_resolver sy r frame inlined_frames)
               else (case sy_supplier sy of
                   None \<Rightarrow> Some (sy, kError, frame, inlined_frames)
                 | Some supplier \<Rightarrow> fetch_symbols supplier sy r module frame inlined_frames)))"

definition Symbolizer_FindWindowsFrameInfo :: "Symbolizer \<Rightarrow> frame \<Rightarrow> WindowsFrameInfo option" where
  "Symbolizer_FindWindowsFrameInfo sy frame =
     Option.bind (sy_resolver sy) (\<lambda>r. Resolver_FindWindowsFrameInfo r frame)"

definition Symbolizer_FindCFIFrameInfo :: "Symbolizer \<Rightarrow> frame \<Rightarrow> CFIFrameInfo option" where
  "Symbolizer_FindCFIFrameInfo sy frame = Option.bind (sy_resolver sy) (\<lambda>r. Resolver_FindCFIFrameInfo r frame)"

section \<open>What symbolizing changes\<close>

text \<open>A module is known once its symbols are loaded, or known to be missing.\<close>

definition known_module :: "Symbolizer \<Rightarrow> CodeModule \<Rightarrow> bool" where
  "known_module sy c \<longleftrightarrow> code_file c \<in> no_symbol_modules sy \<or>
     (\<exists>r. sy_resolver sy = Some r \<and> loaded_module r c \<noteq> None)"

text \<open>The modules marked as corrupt are loaded.\<close>

definition resolver_ok :: "Resolver \<Rightarrow> bool" where
  "resolver_ok r \<longleftrightarrow> rb_corrupt r = {n. \<exists>m. rb_modules r n = Some m \<and> m_is_corrupt m}"

lemma LoadModuleUsingMemoryBuffer_cases:
  assumes "LoadModuleUsingMemoryBuffer junk c data r = Some (r', ok)"
  obtains (same) "r' = r" "\<not> ok" "HasModule r c \<or> c = None"
  | (new) c' m where "c = Some c'" "loaded_module r c' = None" "LoadMapFromMemory junk data = Some m" "ok"
      "rb_modules r' = (rb_modules r)(c_name (code_file c') \<mapsto> m)"
      "rb_corrupt r' = (if m_is_corrupt m then {c_name (code_file c')} else {}) \<union> rb_corrupt r"
proof (cases c)
  case (Some c')
  then show ?thesis
  proof (cases "loaded_module r c'")
    case None
    then obtain m where "LoadMapFromMemory junk data = Some m" "ok"
        "r' = r\<lparr>rb_modules := (rb_modules r)(c_name (code_file c') \<mapsto> m),
           rb_corrupt := (if m_is_corrupt m then insert (c_name (code_file c')) (rb_corrupt r) else rb_corrupt r)\<rparr>"
      using assms Some by (auto simp: LoadModuleUsingMemoryBuffer_def)
    then show ?thesis
      by (intro new [OF Some None]) auto
  qed (use assms Some same in \<open>simp add: LoadModuleUsingMemoryBuffer_def HasModule_def\<close>)
qed (use assms same in \<open>simp add: LoadModuleUsingMemoryBuffer_def\<close>)

lemma LoadModuleUsingMemoryBuffer_ok:
  "LoadModuleUsingMemoryBuffer junk c data r = Some (r', ok) \<Longrightarrow> resolver_ok r \<Longrightarrow> resolver_ok r'"
  by (elim LoadModuleUsingMemoryBuffer_cases) (auto simp: resolver_ok_def loaded_module_def)

lemma UnloadModule_ok: "resolver_ok r \<Longrightarrow> resolver_ok (UnloadModule c r)"
  by (auto simp: UnloadModule_def resolver_ok_def split: option.splits)

lemma Resolver_new_ok: "resolver_ok Resolver_new"
  by (simp add: resolver_ok_def Resolver_new_def)

lemma LookupAddress_instruction [simp]:
  "LookupAddress m f ins = (f', ins') \<Longrightarrow> instruction f' = instruction f \<and> trust f' = trust f"
  by (auto simp: LookupAddress_def Let_def fill_symbol_def fill_line_def ConstructInlineFrames_def update_sources_def
      split: option.splits if_splits prod.splits)

lemma Resolver_FillSourceLineInfo_keeps:
  "Resolver_FillSourceLineInfo r fr ins = (fr', ins') \<Longrightarrow>
     instruction (fst fr') = instruction (fst fr) \<and> trust (fst fr') = trust (fst fr) \<and> snd fr' = snd fr"
  by (auto simp: Resolver_FillSourceLineInfo_def split: option.splits prod.splits)

text \<open>The four ways a lookup goes: no symbols to be had, symbols loaded before, and the supplier's answers.\<close>

lemma FillSourceLineInfo_cases:
  assumes "FillSourceLineInfo ms us fr ins sy = Some (sy', res, fr', ins')"
  obtains (no_module) "module_of ms us (instruction (fst fr)) = None" "sy' = sy" "res = kError" "fr' = fr" "ins' = ins"
  | (no_symbols) c where "module_of ms us (instruction (fst fr)) = Some c" "sy' = sy" "res = kError"
      "fr' = set_module fr c" "ins' = ins"
      "sy_resolver sy = None \<or> code_file c \<in> no_symbol_modules sy \<or> sy_supplier sy = None \<and> \<not> known_module sy c"
  | (loaded) c r where "module_of ms us (instruction (fst fr)) = Some c" "sy' = sy" "sy_resolver sy = Some r"
      "loaded_module r c \<noteq> None" "code_file c \<notin> no_symbol_modules sy"
      "res = (if IsModuleCorrupt r (Some c) then kWarningCorruptSymbols else kNoError)"
      "Resolver_FillSourceLineInfo r (set_module fr c) ins = (fr', ins')"
  | (fetched) c r s symbol_data r' where "module_of ms us (instruction (fst fr)) = Some c" "sy_resolver sy = Some r"
      "\<not> known_module sy c" "sy_supplier sy = Some s" "s (sy_asked sy) c = FOUND symbol_data"
      "LoadModuleUsingMemoryBuffer (sy_junk sy) (Some c) symbol_data r = Some (r', True)"
      "sy' = sy\<lparr>sy_asked := sy_asked sy + 1, sy_resolver := Some r'\<rparr>"
      "res = (if IsModuleCorrupt r' (Some c) then kWarningCorruptSymbols else kNoError)"
      "Resolver_FillSourceLineInfo r' (set_module fr c) ins = (fr', ins')"
  | (missing) c r s where "module_of ms us (instruction (fst fr)) = Some c" "sy_resolver sy = Some r"
      "\<not> known_module sy c" "sy_supplier sy = Some s" "s (sy_asked sy) c = NOT_FOUND"
      "sy' = mark_no_symbols c (sy\<lparr>sy_asked := sy_asked sy + 1\<rparr>)" "res = kError" "fr' = set_module fr c" "ins' = ins"
  | (interrupted) c r s where "module_of ms us (instruction (fst fr)) = Some c" "sy_resolver sy = Some r"
      "\<not> known_module sy c" "sy_supplier sy = Some s" "s (sy_asked sy) c = INTERRUPT"
      "sy' = sy\<lparr>sy_asked := sy_asked sy + 1\<rparr>" "res = kInterrupt" "fr' = set_module fr c" "ins' = ins"
proof (cases "module_of ms us (instruction (fst fr))")
  case None
  show ?thesis
    by (rule no_module [OF None]) (use assms None in \<open>simp_all add: FillSourceLineInfo_def\<close>)
next
  case (Some c)
  note m = Some
  let ?none = "Some (sy, kError, set_module fr c, ins)"
  have fill: "FillSourceLineInfo ms us fr ins sy = (case sy_resolver sy of None \<Rightarrow> ?none
      | Some r \<Rightarrow> if code_file c \<in> no_symbol_modules sy then ?none
          else if HasModule r (Some c) then Some (fill_from_resolver sy r (set_module fr c) ins)
          else (case sy_supplier sy of None \<Rightarrow> ?none
            | Some s \<Rightarrow> fetch_symbols s sy r c (set_module fr c) ins))"
    unfolding FillSourceLineInfo_def m by (simp only: option.case Let_def)
  have none: thesis if "FillSourceLineInfo ms us fr ins sy = ?none"
    "sy_resolver sy = None \<or> code_file c \<in> no_symbol_modules sy \<or> sy_supplier sy = None \<and> \<not> known_module sy c"
    by (rule no_symbols [OF m _ _ _ _ that(2)]) (use assms that(1) in simp_all)
  show ?thesis
  proof (cases "sy_resolver sy")
    case None
    then show ?thesis
      using none fill by simp
  next
    case (Some r)
    note r = Some
    show ?thesis
    proof (cases "code_file c \<in> no_symbol_modules sy")
      case True
      then show ?thesis
        using none fill r by simp
    next
      case False
      note c = False
      show ?thesis
      proof (cases "loaded_module r c")
        case None
        have nk: "\<not> known_module sy c"
          using r c None by (simp add: known_module_def)
        show ?thesis
        proof (cases "sy_supplier sy")
          case None
          then show ?thesis
            using none fill r c \<open>loaded_module r c = None\<close> nk by (simp add: HasModule_def)
        next
          case (Some s)
          have f: "fetch_symbols s sy r c (set_module fr c) ins = Some (sy', res, fr', ins')"
            using assms fill r c \<open>loaded_module r c = None\<close> Some by (simp add: HasModule_def)
          show ?thesis
          proof (cases "s (sy_asked sy) c")
            case (FOUND symbol_data)
            obtain r' ok where l: "LoadModuleUsingMemoryBuffer (sy_junk sy) (Some c) symbol_data r = Some (r', ok)"
              using f FOUND by (cases "LoadModuleUsingMemoryBuffer (sy_junk sy) (Some c) symbol_data r")
                (auto simp: fetch_symbols_def Let_def)
            have ok
              by (rule LoadModuleUsingMemoryBuffer_cases [OF l])
                (use \<open>loaded_module r c = None\<close> in \<open>simp_all add: HasModule_def\<close>)
            then have l: "LoadModuleUsingMemoryBuffer (sy_junk sy) (Some c) symbol_data r = Some (r', True)"
              using l by simp
            have "fill_from_resolver (sy\<lparr>sy_asked := sy_asked sy + 1, sy_resolver := Some r'\<rparr>) r'
                (set_module fr c) ins = (sy', res, fr', ins')"
              using f l FOUND by (simp add: fetch_symbols_def)
            then show ?thesis
              by (intro fetched [OF m r nk Some FOUND l])
                (auto simp: fill_from_resolver_def set_module_def split: prod.splits)
          next
            case NOT_FOUND
            then show ?thesis
              using f by (intro missing [OF m r nk Some NOT_FOUND]) (simp_all add: fetch_symbols_def)
          next
            case INTERRUPT
            then show ?thesis
              using f by (intro interrupted [OF m r nk Some INTERRUPT]) (simp_all add: fetch_symbols_def)
          qed
        qed
      next
        case (Some x)
        then have "fill_from_resolver sy r (set_module fr c) ins = (sy', res, fr', ins')"
          using assms fill r c by (simp add: HasModule_def)
        then show ?thesis
          by (intro loaded [OF m _ r _ c])
            (auto simp: fill_from_resolver_def set_module_def Some split: prod.splits)
      qed
    qed
  qed
qed

lemma set_module_simps [simp]:
  "snd (set_module fr c) = Some c" "instruction (fst (set_module fr c)) = instruction (fst fr)"
  "trust (fst (set_module fr c)) = trust (fst fr)"
  by (simp_all add: set_module_def)

lemma mark_no_symbols_simps [simp]:
  "sy_asked (mark_no_symbols c sy) = sy_asked sy" "sy_resolver (mark_no_symbols c sy) = sy_resolver sy"
  "no_symbol_modules (mark_no_symbols c sy) = insert (code_file c) (no_symbol_modules sy)"
  "sy_supplier (mark_no_symbols c sy) = sy_supplier sy"
  by (simp_all add: mark_no_symbols_def)

text \<open>Filling keeps the address and the trust of a frame and gives it the module of the address.\<close>

lemma FillSourceLineInfo_frame:
  assumes "FillSourceLineInfo ms us fr ins sy = Some (sy', res, fr', ins')"
  shows "instruction (fst fr') = instruction (fst fr) \<and> trust (fst fr') = trust (fst fr) \<and>
    snd fr' = (case module_of ms us (instruction (fst fr)) of None \<Rightarrow> snd fr | Some c \<Rightarrow> Some c)"
  by (rule FillSourceLineInfo_cases [OF assms]) (auto dest: Resolver_FillSourceLineInfo_keeps)

definition symbols_ok :: "Symbolizer \<Rightarrow> bool" where
  "symbols_ok sy \<longleftrightarrow> (\<forall>r. sy_resolver sy = Some r \<longrightarrow> resolver_ok r)"

lemma loaded_after_load:
  assumes "LoadModuleUsingMemoryBuffer junk (Some c) data r = Some (r', True)"
  obtains m where "loaded_module r' c = Some m" "LoadMapFromMemory junk data = Some m"
    "\<And>d. loaded_module r d \<noteq> None \<Longrightarrow> loaded_module r' d \<noteq> None"
  using assms by (elim LoadModuleUsingMemoryBuffer_cases) (auto simp: loaded_module_def split: if_splits)

lemma known_module_mono:
  assumes "FillSourceLineInfo ms us fr ins sy = Some (sy', res, fr', ins')" "known_module sy d"
  shows "known_module sy' d"
proof (rule FillSourceLineInfo_cases [OF assms(1)])
  fix c r s data r'
  assume "LoadModuleUsingMemoryBuffer (sy_junk sy) (Some c) data r = Some (r', True)" "sy_resolver sy = Some r"
    "sy' = sy\<lparr>sy_asked := sy_asked sy + 1, sy_resolver := Some r'\<rparr>"
  then show ?thesis
    using assms(2) by (elim loaded_after_load) (auto simp: known_module_def)
qed (use assms(2) in \<open>auto simp: known_module_def\<close>)

lemma FillSourceLineInfo_symbols_ok:
  assumes "FillSourceLineInfo ms us fr ins sy = Some (sy', res, fr', ins')" "symbols_ok sy"
  shows "symbols_ok sy'"
  by (rule FillSourceLineInfo_cases [OF assms(1)])
    (use assms(2) in \<open>auto simp: symbols_ok_def dest: LoadModuleUsingMemoryBuffer_ok\<close>)

text \<open>The module of an address is loaded exactly when the outcome is no error, and says whether it is corrupt.\<close>

lemma IsModuleCorrupt_ok:
  "resolver_ok r \<Longrightarrow> loaded_module r c = Some m \<Longrightarrow> IsModuleCorrupt r (Some c) \<longleftrightarrow> m_is_corrupt m"
  by (simp add: resolver_ok_def IsModuleCorrupt_def loaded_module_def)

text \<open>C28. Symbols are asked for once. A lookup in a module whose symbols are loaded or known to be missing does
  not ask the supplier and changes nothing; in any other it asks once, and unless the supplier interrupts
  the module is known from then on, as is every module known before. Without an error the symbols of the
  module are loaded, and the outcome says whether they are corrupt.\<close>

theorem FillSourceLineInfo_asks_once:
  assumes "FillSourceLineInfo ms us fr ins sy = Some (sy', res, fr', ins')" "symbols_ok sy"
    "module_of ms us (instruction (fst fr)) = Some c" "HasImplementation sy"
  shows "sy_asked sy' = sy_asked sy + (if known_module sy c then 0 else 1) \<and> (known_module sy c \<longrightarrow> sy' = sy) \<and>
    (known_module sy' c \<longleftrightarrow> res \<noteq> kInterrupt) \<and> (\<forall>d. known_module sy d \<longrightarrow> known_module sy' d) \<and> symbols_ok sy' \<and>
    (res \<in> {kNoError, kWarningCorruptSymbols} \<longrightarrow>
      (\<exists>r m. sy_resolver sy' = Some r \<and> loaded_module r c = Some m \<and>
        res = (if m_is_corrupt m then kWarningCorruptSymbols else kNoError)))"
proof -
  have mono: "\<forall>d. known_module sy d \<longrightarrow> known_module sy' d" and ok: "symbols_ok sy'"
    using known_module_mono [OF assms(1)] FillSourceLineInfo_symbols_ok [OF assms(1,2)] by auto
  show ?thesis
  proof (rule FillSourceLineInfo_cases [OF assms(1)])
    fix d r
    assume d: "module_of ms us (instruction (fst fr)) = Some d" "sy' = sy" "sy_resolver sy = Some r"
      "loaded_module r d \<noteq> None" "res = (if IsModuleCorrupt r (Some d) then kWarningCorruptSymbols else kNoError)"
    then show ?thesis
      using assms(2,3) ok IsModuleCorrupt_ok [of r d] by (auto simp: known_module_def symbols_ok_def)
  next
    fix d r s data r'
    assume d: "module_of ms us (instruction (fst fr)) = Some d" "sy_resolver sy = Some r" "\<not> known_module sy d"
      "LoadModuleUsingMemoryBuffer (sy_junk sy) (Some d) data r = Some (r', True)"
      "sy' = sy\<lparr>sy_asked := sy_asked sy + 1, sy_resolver := Some r'\<rparr>"
      "res = (if IsModuleCorrupt r' (Some d) then kWarningCorruptSymbols else kNoError)"
    obtain m where m: "loaded_module r' d = Some m"
      by (rule loaded_after_load [OF d(4)])
    have "resolver_ok r'"
      using ok d(5) by (simp add: symbols_ok_def)
    then show ?thesis
      using d m mono ok assms(3) IsModuleCorrupt_ok [OF _ m] by (auto simp: known_module_def)
  qed (use assms(3,4) mono ok in \<open>auto simp: known_module_def HasImplementation_def\<close>)
qed

definition demo_module :: CodeModule where
  "demo_module = BasicCodeModule_new 0x400000 0x2000 ''libapp.so'' [] [] [] [] False"

definition demo_modules :: CodeModules where
  "demo_modules = \<lparr>main_address = 0, module_map = \<lparr>merge_strategy = kExclusiveRanges,
     rm_map = [(0x401fff, \<lparr>r_base = 0x400000, r_delta = 0, r_entry = demo_module\<rparr>)]\<rparr>, shrunk_range_modules = []\<rparr>"

lemma demo_modules_made: "BasicCodeModules_of None [demo_module] kExclusiveRanges = Some demo_modules"
  by (simp add: BasicCodeModules_of_def StoreRange_new demo_modules_def demo_module_def
    BasicCodeModule_new_def RetrieveRange_def om_lower_bound_def range_result_def)

lemma demo_modules_find [simp]: "GetModuleForAddress demo_modules a = (if 0x400000 \<le> a \<and> a \<le> 0x401fff then Some demo_module else None)"
  by (auto simp: GetModuleForAddress_def demo_modules_def RetrieveRange_def om_lower_bound_def range_result_def not_less)

lemma FillSourceLineInfo_asks_once_witness:
  "\<exists>sy'. FillSourceLineInfo (Some demo_modules) None (StackFrame_new 0x401000 0, None) None
      (Symbolizer_new (Some (\<lambda>_ _. NOT_FOUND)) (Some Resolver_new) 0) =
        Some (sy', kError, set_module (StackFrame_new 0x401000 0, None) demo_module, None) \<and>
     sy_asked sy' = 1 \<and> known_module sy' demo_module"
proof -
  let ?sy = "Symbolizer_new (Some (\<lambda>_ _. NOT_FOUND)) (Some Resolver_new) 0"
  have run: "FillSourceLineInfo (Some demo_modules) None (StackFrame_new 0x401000 0, None) None ?sy =
      Some (mark_no_symbols demo_module (?sy\<lparr>sy_asked := 1\<rparr>), kError, set_module (StackFrame_new 0x401000 0, None) demo_module, None)"
    by (simp add: FillSourceLineInfo_def module_of_def StackFrame_new_def Symbolizer_new_def Resolver_new_def
      HasModule_def loaded_module_def fetch_symbols_def)
  have new: "\<not> known_module ?sy demo_module" "symbols_ok ?sy" "HasImplementation ?sy"
    by (simp_all add: known_module_def Symbolizer_new_def Resolver_new_def loaded_module_def symbols_ok_def resolver_ok_def HasImplementation_def)
  show ?thesis
    using FillSourceLineInfo_asks_once [OF run new(2) _ new(3), of demo_module] new(1) run
    by (simp add: module_of_def StackFrame_new_def)
qed

end
