(* ===== verification/Memory_Region.thy ===== *)
theory Memory_Region
  imports Postfix_Evaluator Byte_Memory
begin

text \<open>
  The memory regions of processor/minidump.cc: a range of the crashed process's memory that a minidump
  holds, read one value at a time. The dump is the list of its bytes; reading past its end fails.
\<close>

section \<open>Regions\<close>

record MDMemoryDescriptor =
  start_of_memory_range :: u64
  memory_data_size :: u32
  memory_rva :: u32

record MinidumpMemoryRegion =
  region_descriptor :: "MDMemoryDescriptor option"
  region_valid :: bool
  dump_bytes :: "u8 list"
  dump_swap :: bool

definition MinidumpMemoryRegion_new :: "u8 list \<Rightarrow> bool \<Rightarrow> MinidumpMemoryRegion" where
  "MinidumpMemoryRegion_new bytes swap =
     \<lparr>region_descriptor = None, region_valid = False, dump_bytes = bytes, dump_swap = swap\<rparr>"

definition max_bytes :: u32 where
  "max_bytes = 64 * 1024 * 1024"

definition SetDescriptor :: "MDMemoryDescriptor option \<Rightarrow> MinidumpMemoryRegion \<Rightarrow> MinidumpMemoryRegion" where
  "SetDescriptor descriptor m = m\<lparr>region_descriptor := descriptor,
     region_valid := (case descriptor of None \<Rightarrow> False
       | Some d \<Rightarrow> ucast (memory_data_size d) \<le> (- 1 :: u64) - start_of_memory_range d)\<rparr>"

text \<open>A region is valid only with a descriptor. The bytes read are kept, so that reading again gives the same.\<close>

definition GetMemory :: "MinidumpMemoryRegion \<Rightarrow> u8 list option" where
  "GetMemory m =
     (case region_descriptor m of
        Some d \<Rightarrow>
          if \<not> region_valid m then None
          else if memory_data_size d = 0 then None
          else if max_bytes < memory_data_size d then None
          else if length (dump_bytes m) < unat (memory_rva d) + unat (memory_data_size d) then None
          else Some (take (unat (memory_data_size d)) (drop (unat (memory_rva d)) (dump_bytes m)))
      | None \<Rightarrow> None)"

definition GetBase :: "MinidumpMemoryRegion \<Rightarrow> u64" where
  "GetBase m = (case region_descriptor m of
       Some d \<Rightarrow> if \<not> region_valid m then - 1 else start_of_memory_range d
     | None \<Rightarrow> - 1)"

definition GetSize :: "MinidumpMemoryRegion \<Rightarrow> u32" where
  "GetSize m = (case region_descriptor m of
       Some d \<Rightarrow> if \<not> region_valid m then 0 else memory_data_size d
     | None \<Rightarrow> 0)"

text \<open>The value of the bytes at an address, least significant first unless the dump is of the other order.\<close>

definition host_value :: "bool \<Rightarrow> u8 list \<Rightarrow> 'w::len word" where
  "host_value swap bytes = of_nat (le_val (if swap then rev bytes else bytes))"

definition GetMemoryAtAddress :: "MinidumpMemoryRegion \<Rightarrow> 'w::len memory_region" where
  "GetMemoryAtAddress m address =
     (let n = LENGTH('w) div 8 in
      case region_descriptor m of
        None \<Rightarrow> None
      | Some d \<Rightarrow>
          if \<not> region_valid m then None
          else if address < start_of_memory_range d \<or> - 1 - address < of_nat n \<or>
            start_of_memory_range d + ucast (memory_data_size d) < address + of_nat n then None
          else map_option (\<lambda>memory. host_value (dump_swap m)
              (take n (drop (unat (address - start_of_memory_range d)) memory)))
            (GetMemory m))"

section \<open>What can be read\<close>

text \<open>
  What the stack walkers rely on: a value read does not reach over the end of the address space, and
  values that can be read lie close together.
\<close>

definition memory_ok :: "'w::len memory_region \<Rightarrow> bool" where
  "memory_ok mem \<longleftrightarrow> (\<forall>a. mem a \<noteq> None \<longrightarrow> unat a + LENGTH('w) div 8 < 2 ^ 64) \<and>
     (\<forall>a b. mem a \<noteq> None \<longrightarrow> mem b \<noteq> None \<longrightarrow> unat a \<le> unat b + unat max_bytes)"

lemma length_GetMemory:
  "GetMemory m = Some bytes \<Longrightarrow> region_descriptor m = Some d \<Longrightarrow>
     length bytes = unat (memory_data_size d) \<and> region_valid m \<and> memory_data_size d \<le> max_bytes"
  by (auto simp: GetMemory_def split: if_splits)

lemma unat_u64_le: "unat (a :: u64) \<le> 18446744073709551615"
proof -
  have "unat a < 2 ^ 64" "(2 :: nat) ^ 64 = 18446744073709551616"
    using unsigned_less [of a, where 'a = nat] by simp_all
  then show ?thesis
    by linarith
qed

lemma unat_ucast_u32 [simp]: "unat (ucast (a :: u32) :: u64) = unat a"
  by (simp add: unsigned_ucast_eq take_bit_nat_eq_self order.strict_trans2 [OF unsigned_less])

lemma unat_max_u64: "unat (- 1 :: u64) = 18446744073709551615"
proof -
  have "(- 1 :: u64) = 18446744073709551615" by simp
  then show ?thesis by (simp only: unat_numeral) simp
qed

lemma unat_max_minus [simp]: "unat (- 1 - a :: u64) = 18446744073709551615 - unat a"
  unfolding unat_sub [OF word_n1_ge [of a]] unat_max_u64 ..

lemma region_end:
  assumes "ucast (sz::u32) \<le> (- 1 :: u64) - start"
  shows "unat (start + ucast sz) = unat start + unat sz"
proof -
  have "unat (ucast sz :: u64) \<le> 2 ^ 64 - 1 - unat start"
    using assms by (simp add: word_le_nat_alt )
  then have "unat start + unat (ucast sz :: u64) < 2 ^ 64"
    using unat_u64_le [of start] by simp
  then show ?thesis
    by (simp add: unat_add_lem [THEN iffD1] unat_ucast_u32)
qed

text \<open>C27. A read returns a value exactly when the whole value lies inside the region, compared without wrapping,
  and then it is the value of the bytes there.\<close>

theorem GetMemoryAtAddress_correct:
  fixes start :: u64
  assumes "m = SetDescriptor (Some d) (MinidumpMemoryRegion_new dump swap)" "GetMemory m = Some bytes"
    "LENGTH('w::len) \<le> 512" "start = start_of_memory_range d"
  shows "(GetMemoryAtAddress m a :: 'w word option) =
    (if unat start \<le> unat a \<and> unat a + LENGTH('w) div 8 \<le> unat start + unat (memory_data_size d)
     then Some (host_value swap (take (LENGTH('w) div 8) (drop (unat a - unat start) bytes))) else None)"
proof -
  have d: "region_descriptor m = Some d" "dump_swap m = swap" "region_valid m"
    "ucast (memory_data_size d) \<le> (- 1 :: u64) - start"
    using assms(1,4) length_GetMemory [OF assms(2), of d] by (auto simp: SetDescriptor_def MinidumpMemoryRegion_new_def)
  let ?n = "LENGTH('w) div 8"
  have n: "unat (of_nat ?n :: u64) = ?n"
    using assms(3) by (simp add: unat_of_nat)
  have hi: "unat (start + ucast (memory_data_size d)) = unat start + unat (memory_data_size d)"
    by (rule region_end [OF d(4)])
  have lt: "unat start + unat (memory_data_size d) < 2 ^ 64"
    using hi unat_u64_le [of "start + ucast (memory_data_size d)"] by simp
  have fits: "(- 1 - a < of_nat ?n) \<longleftrightarrow> 2 ^ 64 \<le> unat a + ?n"
    using n unat_u64_le [of a] by (auto simp: word_less_nat_alt)
  show ?thesis
  proof (cases "unat a + ?n < 2 ^ 64")
    case True
    then have "unat (a + of_nat ?n) = unat a + ?n"
      using n by (simp add: unat_add_lem [THEN iffD1])
    then show ?thesis
      using True hi n d assms(2,4) fits
      by (auto simp: GetMemoryAtAddress_def Let_def word_less_nat_alt unat_sub not_less word_le_nat_alt)
  next
    case False
    then show ?thesis
      using d assms(4) fits lt by (auto simp: GetMemoryAtAddress_def Let_def)
  qed
qed

text \<open>A stack of 48 bytes at address 0x8000.\<close>

definition demo_stack :: "u8 list" where
  "demo_stack = [0x20, 0x80, 0, 0, 0, 0, 0, 0, 0x00, 0x12, 0x40, 0, 0, 0, 0, 0, 0, 0, 0, 0, 0, 0, 0, 0, 0, 0, 0, 0, 0, 0, 0, 0,
     0, 0, 0, 0, 0, 0, 0, 0, 0x00, 0x13, 0x40, 0, 0, 0, 0, 0]"

definition demo_region :: MinidumpMemoryRegion where
  "demo_region = SetDescriptor (Some \<lparr>start_of_memory_range = 0x8000, memory_data_size = 48, memory_rva = 0\<rparr>)
     (MinidumpMemoryRegion_new demo_stack False)"

lemma demo_region_bytes: "GetMemory demo_region = Some demo_stack"
  by (simp add: GetMemory_def demo_region_def SetDescriptor_def MinidumpMemoryRegion_new_def max_bytes_def demo_stack_def)

theorem GetMemoryAtAddress_correct_witness:
  "GetMemoryAtAddress demo_region 0x8008 = Some (0x401200 :: u64) \<and>
   GetMemoryAtAddress demo_region 0x8029 = (None :: u64 option) \<and> GetMemoryAtAddress demo_region 0x802c = Some (0 :: u32)"
  by (simp add: GetMemoryAtAddress_correct [OF demo_region_def demo_region_bytes _ refl])
    (simp add: demo_stack_def host_value_def)

lemma GetMemoryAtAddress_inside:
  assumes "GetMemoryAtAddress m a = Some (v :: 'w::len word)" "LENGTH('w) \<le> 512"
  obtains d where "region_descriptor m = Some d" "unat (start_of_memory_range d) \<le> unat a"
    "unat a + LENGTH('w) div 8 \<le> unat (start_of_memory_range d) + unat max_bytes"
    "unat a + LENGTH('w) div 8 < 2 ^ 64"
proof -
  have n: "unat (of_nat (LENGTH('w) div 8) :: u64) = LENGTH('w) div 8"
    using assms(2) by (simp add: unat_of_nat)
  obtain d bytes where d: "region_descriptor m = Some d" "start_of_memory_range d \<le> a" "GetMemory m = Some bytes"
    and fits: "\<not> - 1 - a < of_nat (LENGTH('w) div 8)"
    and inside: "a + of_nat (LENGTH('w) div 8) \<le> start_of_memory_range d + ucast (memory_data_size d)"
    using assms(1) by (auto simp: GetMemoryAtAddress_def Let_def not_less split: option.splits if_splits)
  have lt: "unat a + LENGTH('w) div 8 < 2 ^ 64"
    using fits n unat_u64_le [of a] by (auto simp: word_less_nat_alt)
  then have "unat (a + of_nat (LENGTH('w) div 8)) = unat a + LENGTH('w) div 8"
    using n by (simp add: unat_add_lem [THEN iffD1])
  moreover have "unat (start_of_memory_range d + ucast (memory_data_size d)) \<le>
      unat (start_of_memory_range d) + unat max_bytes"
    using length_GetMemory [OF d(3,1)]
    by (auto simp: unat_word_ariths word_le_nat_alt intro: le_trans [OF mod_less_eq_dividend])
  ultimately show ?thesis
    using that [OF d(1)] d(2) lt inside by (simp add: word_le_nat_alt)
qed

lemma GetMemoryAtAddress_ok:
  "LENGTH('w::len) \<le> 512 \<Longrightarrow> memory_ok (GetMemoryAtAddress m :: 'w memory_region)"
  unfolding memory_ok_def
  by (auto elim!: GetMemoryAtAddress_inside)

end
