(* ===== verification/Stackwalker.thy ===== *)
theory Stackwalker
  imports Symbolizer Memory_Region
begin

text \<open>
  processor/stackwalker.cc and the templates of google_breakpad/processor/stackwalker.h: the loop that walks
  a stack from its innermost frame to its callers, for any CPU. \<open>None\<close> is a walk that does not return.
  A register context is a map from register names or numbers \<open>'r\<close> to words \<open>'a\<close> of the CPU, and
  \<open>'b\<close> is the type of its validity bits.
\<close>

section \<open>Frames\<close>

record ('r, 'a, 'b) Frame =
  frame_info :: StackFrame
  frame_module :: "CodeModule option"
  cpu_context :: "'r \<Rightarrow> 'a"
  context_validity :: 'b

text \<open>A frame of an inlined function has no context.\<close>

datatype 'f CallFrame = InlineFrame StackFrame "CodeModule option" | CpuFrame 'f

text \<open>
  What a walk is given: the stack memory, the modules, the names of the operating system and the two limits
  on frames.
\<close>

record 'a WalkEnv =
  env_memory :: "(u64 \<Rightarrow> 'a option) option"
  env_modules :: "CodeModules option"
  env_unloaded_modules :: "CodeModules option"
  os_name :: string
  os_short :: string
  max_frames :: u32
  max_frames_scanned :: u32

definition default_max_frames :: u32 where "default_max_frames = push_bit 20 1"
definition default_max_frames_scanned :: u32 where "default_max_frames_scanned = push_bit 14 1"

text \<open>A walker checks that there is memory before it reads any.\<close>

definition read_memory :: "'w::len word WalkEnv \<Rightarrow> u64 \<Rightarrow> 'w word option" where
  "read_memory env address = Option.bind (env_memory env) (\<lambda>memory. memory address)"

section \<open>Helpers of the walkers\<close>

definition TerminateWalk :: "u64 \<Rightarrow> u64 \<Rightarrow> u64 \<Rightarrow> bool \<Rightarrow> bool" where
  "TerminateWalk caller_ip caller_sp callee_sp first_unwind =
     (if caller_ip < push_bit 12 1 then True
      else if (if first_unwind then caller_sp < callee_sp else caller_sp \<le> callee_sp) then True
      else False)"

definition InstructionAddressSeemsValid ::
  "'w::len word WalkEnv \<Rightarrow> u64 \<Rightarrow> Symbolizer \<Rightarrow> (Symbolizer \<times> bool) option" where
  "InstructionAddressSeemsValid env address sy =
     map_option (\<lambda>(sy, symbolizer_result, frame, _).
         (sy,
          if snd frame = None then False
          else if \<not> HasImplementation sy then True
          else if symbolizer_result \<noteq> kNoError \<and> symbolizer_result \<noteq> kWarningCorruptSymbols then True
          else function_name (fst frame) \<noteq> []))
       (FillSourceLineInfo (env_modules env) (env_unloaded_modules env) (StackFrame_new address 0, None) None sy)"

definition in_loaded_module :: "'w::len word WalkEnv \<Rightarrow> u64 \<Rightarrow> bool" where
  "in_loaded_module env address \<longleftrightarrow>
     Option.bind (env_modules env) (\<lambda>modules. GetModuleForAddress modules address) \<noteq> None"

text \<open>The size of a word of the CPU in bytes.\<close>

abbreviation word_size :: "'w::len itself \<Rightarrow> nat" where
  "word_size t \<equiv> LENGTH('w) div 8"

text \<open>
  The loop of \<open>ScanForReturnAddress\<close>. The location is a word of the CPU, but the end of the search is
  computed as a 64-bit number.
\<close>

partial_function (option) scan_from ::
  "'w::len word WalkEnv \<Rightarrow> u64 \<Rightarrow> 'w word \<Rightarrow> Symbolizer \<Rightarrow> (Symbolizer \<times> ('w word \<times> 'w word) option) option" where
  "scan_from env limit location sy =
    (if limit < ucast location then Some (sy, None)
     else case read_memory env (ucast location) of
       None \<Rightarrow> Some (sy, None)
     | Some ip \<Rightarrow>
         if in_loaded_module env (ucast (ip - 1)) then
           Option.bind (InstructionAddressSeemsValid env (ucast (ip - 1)) sy) (\<lambda>(sy, valid).
             if valid then Some (sy, Some (location, ip))
             else scan_from env limit (location + of_nat (word_size TYPE('w))) sy)
         else scan_from env limit (location + of_nat (word_size TYPE('w))) sy)"

declare scan_from.simps [code]

definition ScanForReturnAddress ::
  "'w::len word WalkEnv \<Rightarrow> 'w word \<Rightarrow> nat \<Rightarrow> Symbolizer \<Rightarrow> (Symbolizer \<times> ('w word \<times> 'w word) option) option" where
  "ScanForReturnAddress env location_start searchwords sy =
     scan_from env (ucast location_start + of_nat searchwords * of_nat (word_size TYPE('w))) location_start sy"

definition kRASearchWords :: nat where "kRASearchWords = 40"

definition ScanForReturnAddress_from ::
  "'w::len word WalkEnv \<Rightarrow> 'w word \<Rightarrow> bool \<Rightarrow> Symbolizer \<Rightarrow> (Symbolizer \<times> ('w word \<times> 'w word) option) option" where
  "ScanForReturnAddress_from env location_start is_context_frame sy =
     ScanForReturnAddress env location_start (if is_context_frame then kRASearchWords * 4 else kRASearchWords) sy"

section \<open>The walk\<close>

text \<open>Modules are told apart by their contents, where the code compares pointers.\<close>

definition InsertSpecialAttentionModule :: "CodeModule option \<Rightarrow> CodeModule list \<Rightarrow> CodeModule list" where
  "InsertSpecialAttentionModule module modules =
     (case module of None \<Rightarrow> modules
      | Some c \<Rightarrow> if c \<in> set modules then modules else modules @ [c])"

record 'f WalkState =
  ws_frames :: "'f CallFrame list"
  ws_symbolizer :: Symbolizer
  modules_without_symbols :: "CodeModule list"
  modules_with_corrupt_symbols :: "CodeModule list"
  scanned_frames :: u32

definition is_dubious :: "FrameTrust \<Rightarrow> bool" where
  "is_dubious t \<longleftrightarrow> t \<in> {FRAME_TRUST_NONE, FRAME_TRUST_SCAN, FRAME_TRUST_CFI_SCAN}"

text \<open>The two switches of the loop: what the symbolizer said of the module, and the count of dubious frames.\<close>

definition note_result :: "SymbolizerResult \<Rightarrow> CodeModule option \<Rightarrow> 'f WalkState \<Rightarrow> 'f WalkState" where
  "note_result symbolizer_result module st =
     (case symbolizer_result of
        kError \<Rightarrow> st\<lparr>modules_without_symbols := InsertSpecialAttentionModule module (modules_without_symbols st)\<rparr>
      | kWarningCorruptSymbols \<Rightarrow>
          st\<lparr>modules_with_corrupt_symbols := InsertSpecialAttentionModule module (modules_with_corrupt_symbols st)\<rparr>
      | _ \<Rightarrow> st)"

definition count_scanned :: "FrameTrust \<Rightarrow> 'f WalkState \<Rightarrow> 'f WalkState" where
  "count_scanned t st = (if is_dubious t then st\<lparr>scanned_frames := scanned_frames st + 1\<rparr> else st)"

text \<open>The body of the loop up to the test for the limit; the flag says that the walk goes on.\<close>

definition visit_frame ::
  "'w::len word WalkEnv \<Rightarrow> ('r, 'a, 'b, 'z) Frame_scheme \<Rightarrow> ('r, 'a, 'b, 'z) Frame_scheme WalkState \<Rightarrow>
   (('r, 'a, 'b, 'z) Frame_scheme WalkState \<times> bool) option" where
  "visit_frame env frame st =
     map_option (\<lambda>(sy, symbolizer_result, fr, inlined_frames).
       let st = st\<lparr>ws_symbolizer := sy\<rparr>; frame = frame\<lparr>frame_info := fst fr, frame_module := snd fr\<rparr> in
       if symbolizer_result = kInterrupt then (st, False)
       else
         let st = count_scanned (trust (fst fr)) (note_result symbolizer_result (snd fr) st)
         in (st\<lparr>ws_frames := ws_frames st @ map (\<lambda>f. InlineFrame f (snd fr)) (the inlined_frames) @ [CpuFrame frame]\<rparr>,
             True))
     (FillSourceLineInfo (env_modules env) (env_unloaded_modules env) (frame_info frame, frame_module frame) (Some [])
       (ws_symbolizer st))"

text \<open>
  A walker for a CPU: from the frames so far and whether scanning is allowed, the frames again, which it may
  correct, and the caller's frame if it finds one.
\<close>

type_synonym ('f, 'a) get_caller =
  "'a WalkEnv \<Rightarrow> 'f CallFrame list \<Rightarrow> bool \<Rightarrow> Symbolizer \<Rightarrow> (Symbolizer \<times> 'f CallFrame list \<times> 'f option) option"

partial_function (option) walk_loop ::
  "(('r, 'a, 'b, 'z) Frame_scheme, 'w word) get_caller \<Rightarrow> 'w::len word WalkEnv \<Rightarrow> ('r, 'a, 'b, 'z) Frame_scheme option \<Rightarrow>
   ('r, 'a, 'b, 'z) Frame_scheme WalkState \<Rightarrow> (('r, 'a, 'b, 'z) Frame_scheme WalkState \<times> bool) option" where
  "walk_loop get_caller env frame st =
    (case frame of
       None \<Rightarrow> Some (st, True)
     | Some f \<Rightarrow>
         Option.bind (visit_frame env f st) (\<lambda>(st, go_on).
           if \<not> go_on then Some (st, False)
           else if unat (max_frames env) < length (ws_frames st) then Some (st, True)
           else
             Option.bind (get_caller env (ws_frames st) (scanned_frames st < max_frames_scanned env) (ws_symbolizer st))
               (\<lambda>(sy, frames, caller). walk_loop get_caller env caller (st\<lparr>ws_symbolizer := sy, ws_frames := frames\<rparr>))))"

declare walk_loop.simps [code]

text \<open>The call stack is a new one, and the lists of modules are empty.\<close>

definition WalkState_new :: "Symbolizer \<Rightarrow> 'f WalkState" where
  "WalkState_new sy = \<lparr>ws_frames = [], ws_symbolizer = sy, modules_without_symbols = [],
     modules_with_corrupt_symbols = [], scanned_frames = 0\<rparr>"

definition Walk ::
  "('w word WalkEnv \<Rightarrow> ('r, 'a, 'b, 'z) Frame_scheme option) \<Rightarrow> (('r, 'a, 'b, 'z) Frame_scheme, 'w word) get_caller \<Rightarrow>
   'w::len word WalkEnv \<Rightarrow> Symbolizer \<Rightarrow> (('r, 'a, 'b, 'z) Frame_scheme WalkState \<times> bool) option" where
  "Walk get_context get_caller env sy = walk_loop get_caller env (get_context env) (WalkState_new sy)"

end
