(* ===== verification/Walk_Invariant.thy ===== *)
theory Walk_Invariant
  imports Stackwalker
begin

text \<open>
  What every walker for a CPU keeps to and what a walk that uses one guarantees: the locale
  \<open>cpu_walker\<close> states the laws of \<open>GetContextFrame\<close> and \<open>GetCallerFrame\<close>, and its lemmas are
  proved once for all walkers. \<open>safe_walker\<close> adds that a step returns, and so does the walk.
\<close>

section \<open>Scanning\<close>

text \<open>No load of the supplier's symbols crashes, and no call frame rules in them do.\<close>

definition safe_rules :: "'w::len itself \<Rightarrow> CFIFrameInfo \<Rightarrow> bool" where
  "safe_rules _ c \<longleftrightarrow> (\<forall>registers (mem :: 'w memory_region). FindCallerRegs c registers mem Map.empty \<noteq> None)"

definition safe_module :: "'w::len itself \<Rightarrow> Module \<Rightarrow> bool" where
  "safe_module t m \<longleftrightarrow> (\<forall>frame c. FindCFIFrameInfo m frame = Some c \<longrightarrow> safe_rules t c)"

definition safe_symbols :: "'w::len itself \<Rightarrow> Symbolizer \<Rightarrow> bool" where
  "safe_symbols t sy \<longleftrightarrow>
     (\<forall>r n m. sy_resolver sy = Some r \<longrightarrow> rb_modules r n = Some m \<longrightarrow> safe_module t m) \<and>
     (\<forall>s n c data. sy_supplier sy = Some s \<longrightarrow> s n c = FOUND data \<longrightarrow>
        (\<exists>m. LoadMapFromMemory (sy_junk sy) data = Some m \<and> safe_module t m))"

lemma FillSourceLineInfo_returns:
  assumes "safe_symbols t sy"
  shows "\<exists>res. FillSourceLineInfo ms us fr ins sy = Some res"
proof -
  have "\<exists>res. fetch_symbols s sy r c fr ins = Some res" if sup: "sy_supplier sy = Some s" for s r c fr
  proof (cases "s (sy_asked sy) c")
    case (FOUND data)
    then obtain m where "LoadMapFromMemory (sy_junk sy) data = Some m"
      using assms sup unfolding safe_symbols_def by blast
    then show ?thesis
      by (cases "loaded_module r c") (simp_all add: fetch_symbols_def FOUND LoadModuleUsingMemoryBuffer_def Let_def del: split_paired_Ex)
  qed (simp_all add: fetch_symbols_def)
  then show ?thesis
    by (simp add: FillSourceLineInfo_def Let_def del: split_paired_Ex split: option.splits)
qed

lemma FillSourceLineInfo_safe:
  assumes "FillSourceLineInfo ms us fr ins sy = Some (sy', res, fr', ins')" "safe_symbols t sy"
  shows "safe_symbols t sy'"
proof (rule FillSourceLineInfo_cases [OF assms(1)])
  fix c r s data r'
  assume a: "sy_resolver sy = Some r" "sy_supplier sy = Some s" "s (sy_asked sy) c = FOUND data"
    "LoadModuleUsingMemoryBuffer (sy_junk sy) (Some c) data r = Some (r', True)"
    "sy' = sy\<lparr>sy_asked := sy_asked sy + 1, sy_resolver := Some r'\<rparr>"
  obtain m where m: "LoadMapFromMemory (sy_junk sy) data = Some m" "safe_module t m"
    using assms(2) a(2,3) unfolding safe_symbols_def by blast
  have "safe_module t m'" if "rb_modules r' n = Some m'" for n m'
    using a(4)
  proof (cases rule: LoadModuleUsingMemoryBuffer_cases)
    case (new c' m0)
    then show ?thesis
      using that m assms(2) a(1) by (auto simp: safe_symbols_def split: if_splits)
  qed simp
  then show ?thesis
    using assms(2) a(5) by (simp add: safe_symbols_def)
qed (use assms(2) in \<open>auto simp: safe_symbols_def mark_no_symbols_def\<close>)

lemma InstructionAddressSeemsValid_safe:
  assumes "safe_symbols t sy"
  obtains sy' ok where "InstructionAddressSeemsValid env a sy = Some (sy', ok)" "safe_symbols t sy'"
proof -
  obtain sy' res fr' ins' where f:
    "FillSourceLineInfo (env_modules env) (env_unloaded_modules env) (StackFrame_new a 0, None) None sy =
       Some (sy', res, fr', ins')"
    using FillSourceLineInfo_returns [OF assms] by (metis prod_cases4)
  show ?thesis
    by (rule that [OF _ FillSourceLineInfo_safe [OF f assms]]) (simp add: InstructionAddressSeemsValid_def f)
qed

text \<open>What a scan finds: a readable word of the search range that points past an address in a module.\<close>

definition scan_result :: "'w::len word WalkEnv \<Rightarrow> u64 \<Rightarrow> 'w word \<times> 'w word \<Rightarrow> bool" where
  "scan_result env limit found = (case found of (location, ip) \<Rightarrow>
     ucast location \<le> limit \<and> read_memory env (ucast location) = Some ip \<and> in_loaded_module env (ucast (ip - 1)))"

lemma scan_from_found:
  "scan_from env limit location sy = Some res \<Longrightarrow> snd res = Some found \<Longrightarrow>
   (\<exists>k. fst found = location + of_nat k * of_nat (word_size TYPE('w))) \<and>
   scan_result (env :: 'w::len word WalkEnv) limit found"
proof (induction rule: scan_from.raw_induct [rotated, consumes 1, case_names step])
  case (step scan env limit location sy res)
  let ?next = "location + of_nat (word_size TYPE('w))"
  have more: "\<exists>k. l = location + of_nat k * of_nat (word_size TYPE('w))"
    if "l = ?next + of_nat k * of_nat (word_size TYPE('w))" for l k
    using that by (intro exI [of _ "Suc k"]) (simp add: algebra_simps)
  consider (here) ip where "found = (location, ip)" "ucast location \<le> limit"
      "read_memory env (ucast location) = Some ip" "in_loaded_module env (ucast (ip - 1))"
    | (later) sy1 where "scan env limit ?next sy1 = Some res"
    using step(2,3) by (auto simp: not_less split: if_splits option.splits bind_splits)
  then show ?case
  proof cases
    case here
    then show ?thesis
      by (auto simp: scan_result_def intro!: exI [of _ "0::nat"])
  next
    case later
    then show ?thesis
      using step(1) [OF later step(3)] more by blast
  qed
qed

text \<open>On the memory of a minidump a search ends, since the locations it reads do not wrap around.\<close>

lemma unat_ucast_u64 [simp]: "LENGTH('w::len) \<le> 64 \<Longrightarrow> unat (ucast (a :: 'w word) :: u64) = unat a"
proof -
  assume "LENGTH('w) \<le> 64"
  then have "(2::nat) ^ LENGTH('w) \<le> 2 ^ 64"
    by (rule power_increasing) simp
  then have "unat a < 2 ^ 64"
    using unsigned_less [of a, where 'a = nat] by (rule order.strict_trans2 [rotated])
  then show ?thesis
    by (simp add: unsigned_ucast_eq take_bit_nat_eq_self)
qed

lemma scan_next:
  fixes location :: "'w::len word"
  assumes "32 \<le> LENGTH('w)" "LENGTH('w) \<le> 64" "memory_ok mem" "mem (ucast location) \<noteq> None"
    "mem (ucast (location + of_nat (word_size TYPE('w)))) \<noteq> None"
  shows "unat (location + of_nat (word_size TYPE('w))) = unat location + word_size TYPE('w)"
proof (rule ccontr)
  let ?n = "word_size TYPE('w)"
  assume no: "unat (location + of_nat ?n) \<noteq> unat location + ?n"
  have big: "(2::nat) ^ 32 \<le> 2 ^ LENGTH('w)"
    using assms(1) by (intro power_increasing) auto
  then have n: "unat (of_nat ?n :: 'w word) = ?n"
    using assms(2) by (simp add: unat_of_nat)
  then have wrap: "2 ^ LENGTH('w) \<le> unat location + ?n"
    using no unat_add_lem [of location "of_nat ?n"] by (simp add: not_less)
  have "unat (location + of_nat ?n) \<le> ?n"
  proof -
    have "unat (location + of_nat ?n) = (unat location + ?n) mod 2 ^ LENGTH('w)"
      using n by (simp add: unat_word_ariths)
    also have "\<dots> = (unat location + ?n - 2 ^ LENGTH('w)) mod 2 ^ LENGTH('w)"
      by (rule le_mod_geq [OF wrap])
    also have "\<dots> \<le> unat location + ?n - 2 ^ LENGTH('w)"
      by (rule mod_less_eq_dividend)
    also have "\<dots> \<le> ?n"
      using unsigned_less [of location, where 'a = nat] by linarith
    finally show ?thesis .
  qed
  moreover have "unat location \<le> unat (location + of_nat ?n) + unat max_bytes"
    using assms(2-5) unfolding memory_ok_def by (metis unat_ucast_u64)
  moreover have "unat max_bytes = 67108864" "(2::nat) ^ 32 = 4294967296"
    by (simp_all add: max_bytes_def)
  moreover have "?n \<le> 8"
    using assms(2) by simp
  ultimately show False
    using wrap big by linarith
qed

lemma scan_from_returns:
  fixes env :: "'w::len word WalkEnv"
  assumes "32 \<le> LENGTH('w)" "LENGTH('w) \<le> 64" "env_memory env = Some mem" "memory_ok mem"
    "safe_symbols t sy"
  shows "\<exists>sy' found. scan_from env limit location sy = Some (sy', found) \<and> safe_symbols t sy'"
  using assms(5)
proof (induction "2 ^ LENGTH('w) - unat location" arbitrary: location sy rule: less_induct)
  case less
  let ?n = "word_size TYPE('w)"
  have go_on: "\<exists>sy' found. scan_from env limit (location + of_nat ?n) sy1 = Some (sy', found) \<and> safe_symbols t sy'"
    if "mem (ucast location) \<noteq> None" "safe_symbols t sy1" for sy1
  proof (cases "mem (ucast (location + of_nat ?n))")
    case None
    then show ?thesis
      using that(2) by (subst scan_from.simps) (simp add: read_memory_def assms(3))
  next
    case (Some v)
    then have "unat (location + of_nat ?n) = unat location + ?n"
      using scan_next [OF assms(1,2,4) that(1)] by simp
    then show ?thesis
      using assms(1) unsigned_less [of "location + of_nat ?n", where 'a = nat]
      by (intro less(1) [OF _ that(2)]) simp
  qed
  show ?case
  proof (cases "mem (ucast location)")
    case None
    then show ?thesis
      using less(2) by (subst scan_from.simps) (simp add: read_memory_def assms(3))
  next
    case (Some ip)
    obtain sy1 ok where ok: "InstructionAddressSeemsValid env (ucast (ip - 1)) sy = Some (sy1, ok)" "safe_symbols t sy1"
      by (rule InstructionAddressSeemsValid_safe [OF less(2)])
    show ?thesis
      using go_on [of sy] go_on [of sy1] Some less(2) ok
      by (subst scan_from.simps) (auto simp: read_memory_def assms(3))
  qed
qed

section \<open>The frames of a walk\<close>

primrec cpu_frames :: "'f CallFrame list \<Rightarrow> 'f list" where
  "cpu_frames [] = []"
| "cpu_frames (c # cs) = (case c of InlineFrame _ _ \<Rightarrow> cpu_frames cs | CpuFrame f \<Rightarrow> f # cpu_frames cs)"

lemma cpu_frames_append [simp]: "cpu_frames (xs @ ys) = cpu_frames xs @ cpu_frames ys"
  by (induction xs) (auto split: CallFrame.splits)

lemma cpu_frames_inline [simp]: "cpu_frames (map (\<lambda>f. InlineFrame f m) fs) = []"
  by (induction fs) auto

lemma cpu_frames_map: "cpu_frames (map (map_CallFrame g) cs) = map g (cpu_frames cs)"
  by (induction cs) (auto split: CallFrame.splits)

lemma length_cpu_frames: "length (cpu_frames cs) \<le> length cs"
  by (induction cs) (auto split: CallFrame.splits)

text \<open>Whether a frame may be the caller of another: no end of the stack, and a stack that grows.\<close>

definition may_call :: "u64 \<times> u64 \<times> FrameTrust \<Rightarrow> u64 \<times> u64 \<times> FrameTrust \<Rightarrow> bool" where
  "may_call callee caller = (case (callee, caller) of ((_, callee_sp, callee_trust), (caller_ip, caller_sp, caller_trust)) \<Rightarrow>
     4096 \<le> caller_ip \<and> caller_trust \<noteq> FRAME_TRUST_CONTEXT \<and>
     (if callee_trust = FRAME_TRUST_CONTEXT then callee_sp \<le> caller_sp else callee_sp < caller_sp))"

lemma TerminateWalk_iff:
  "\<not> TerminateWalk ip sp callee_sp first \<longleftrightarrow> 4096 \<le> ip \<and> (if first then callee_sp \<le> sp else callee_sp < sp)"
proof -
  have "push_bit 12 1 = (4096 :: u64)" by (simp add: push_bit_eq_mult)
  then show ?thesis
    by (auto simp: TerminateWalk_def not_less not_le)
qed

lemma unat_plus_one:
  assumes "x < (y :: 'w::len word)"
  shows "unat (x + 1) = unat x + 1"
proof -
  have "unat x + 1 < 2 ^ LENGTH('w)"
    using assms unsigned_less [of y, where 'a = nat] unfolding word_less_nat_alt by linarith
  then show ?thesis
    by (simp add: unat_word_ariths)
qed

lemma InsertSpecialAttentionModule_distinct [simp]:
  "distinct cs \<Longrightarrow> distinct (InsertSpecialAttentionModule m cs)"
  by (auto simp: InsertSpecialAttentionModule_def split: option.splits)

lemma note_result_simps [simp]:
  "ws_frames (note_result res m st) = ws_frames st" "scanned_frames (note_result res m st) = scanned_frames st"
  "ws_symbolizer (note_result res m st) = ws_symbolizer st"
  "distinct (modules_without_symbols st) \<Longrightarrow> distinct (modules_without_symbols (note_result res m st))"
  "distinct (modules_with_corrupt_symbols st) \<Longrightarrow> distinct (modules_with_corrupt_symbols (note_result res m st))"
  by (cases res; simp add: note_result_def)+

lemma count_scanned_simps [simp]:
  "ws_frames (count_scanned t st) = ws_frames st" "ws_symbolizer (count_scanned t st) = ws_symbolizer st"
  "scanned_frames (count_scanned t st) = scanned_frames st + (if is_dubious t then 1 else 0)"
  "modules_without_symbols (count_scanned t st) = modules_without_symbols st"
  "modules_with_corrupt_symbols (count_scanned t st) = modules_with_corrupt_symbols st"
  by (simp_all add: count_scanned_def)

lemma visit_frame_cases:
  assumes "visit_frame env f st = Some (st', go_on)"
  obtains (interrupted) "\<not> go_on" "ws_frames st' = ws_frames st" "modules_without_symbols st' = modules_without_symbols st"
      "modules_with_corrupt_symbols st' = modules_with_corrupt_symbols st" "scanned_frames st' = scanned_frames st"
  | (visited) inl f' where go_on "ws_frames st' = ws_frames st @ map (\<lambda>i. InlineFrame i (frame_module f')) inl @ [CpuFrame f']"
      "f' = f\<lparr>frame_info := frame_info f', frame_module := frame_module f'\<rparr>"
      "trust (frame_info f') = trust (frame_info f)" "instruction (frame_info f') = instruction (frame_info f)"
      "frame_module f' = (case module_of (env_modules env) (env_unloaded_modules env) (instruction (frame_info f)) of
         None \<Rightarrow> frame_module f | Some c \<Rightarrow> Some c)"
      "scanned_frames st' = scanned_frames st + (if is_dubious (trust (frame_info f)) then 1 else 0)"
      "distinct (modules_without_symbols st) \<Longrightarrow> distinct (modules_without_symbols st')"
      "distinct (modules_with_corrupt_symbols st) \<Longrightarrow> distinct (modules_with_corrupt_symbols st')"
proof -
  obtain sy res i m ins where fill: "FillSourceLineInfo (env_modules env) (env_unloaded_modules env)
      (frame_info f, frame_module f) (Some []) (ws_symbolizer st) = Some (sy, res, (i, m), ins)"
    using assms by (auto simp: visit_frame_def)
  note keeps = FillSourceLineInfo_frame [OF fill, unfolded fst_conv snd_conv]
  show ?thesis
  proof (cases "res = kInterrupt")
    case True
    then show ?thesis
      using assms by (intro interrupted) (auto simp: visit_frame_def fill Let_def)
  next
    case False
    then show ?thesis
      using assms keeps
      by (intro visited [of "f\<lparr>frame_info := i, frame_module := m\<rparr>" "the ins"]) (auto simp: visit_frame_def fill Let_def)
  qed
qed

text \<open>The symbolizer a visit leaves can be used as before.\<close>

lemma visit_frame_safe:
  assumes "safe_symbols t (ws_symbolizer st)"
  obtains st' go_on where "visit_frame env f st = Some (st', go_on)" "safe_symbols t (ws_symbolizer st')"
proof -
  obtain sy res fr ins where fill: "FillSourceLineInfo (env_modules env) (env_unloaded_modules env)
      (frame_info f, frame_module f) (Some []) (ws_symbolizer st) = Some (sy, res, fr, ins)"
    using FillSourceLineInfo_returns [OF assms] by (metis prod_cases4)
  show ?thesis
    using FillSourceLineInfo_safe [OF fill assms] that
    by (cases "res = kInterrupt") (auto simp: visit_frame_def fill Let_def)
qed

lemma walk_loop_step:
  assumes "visit_frame env f st = Some (st1, True)" "\<not> unat (max_frames env) < length (ws_frames st1)"
    "gc env (ws_frames st1) (scanned_frames st1 < max_frames_scanned env) (ws_symbolizer st1) = Some (sy, frames, caller)"
  shows "walk_loop gc env (Some f) st = walk_loop gc env caller (st1\<lparr>ws_symbolizer := sy, ws_frames := frames\<rparr>)"
  using assms by (subst walk_loop.simps) simp

lemma walk_loop_end: "walk_loop gc env None st = Some (st, True)"
  by (subst walk_loop.simps) simp

section \<open>The laws of a walker\<close>

text \<open>
  A walker may correct registers of the frames so far, other than their instruction and stack pointers, and
  returns a caller that the test for the end of the stack lets through. \<open>frame_ip\<close> and \<open>frame_sp\<close>
  read these pointers from the context of a frame.
\<close>

locale cpu_walker =
  fixes get_context :: "'w::len word WalkEnv \<Rightarrow> ('r, 'a, 'b, 'z) Frame_scheme option"
    and get_caller :: "(('r, 'a, 'b, 'z) Frame_scheme, 'w word) get_caller"
    and frame_ip :: "('r, 'a, 'b, 'z) Frame_scheme \<Rightarrow> u64"
    and frame_sp :: "('r, 'a, 'b, 'z) Frame_scheme \<Rightarrow> u64"
  assumes pointers: "frame_ip (f\<lparr>frame_info := i, frame_module := m\<rparr>) = frame_ip f"
      "frame_sp (f\<lparr>frame_info := i, frame_module := m\<rparr>) = frame_sp f"
    and context_frame: "get_context env = Some f \<Longrightarrow>
      trust (frame_info f) = FRAME_TRUST_CONTEXT \<and> frame_module f = None"
    and corrections: "get_caller env frames scan sy = Some (sy', frames', caller) \<Longrightarrow>
      map (map_CallFrame (\<lambda>f. (frame_ip f, frame_sp f, frame_info f, frame_module f))) frames' =
      map (map_CallFrame (\<lambda>f. (frame_ip f, frame_sp f, frame_info f, frame_module f))) frames"
    and caller_frame: "get_caller env (frames @ [CpuFrame callee]) scan sy = Some (sy', frames', Some f) \<Longrightarrow>
      may_call (frame_ip callee, frame_sp callee, trust (frame_info callee)) (frame_ip f, frame_sp f, trust (frame_info f)) \<and>
      frame_module f = None"
    and scan_allowed: "get_caller env frames False sy = Some (sy', frames', Some f) \<Longrightarrow> \<not> is_dubious (trust (frame_info f))"
begin

abbreviation summary :: "('r, 'a, 'b, 'z) Frame_scheme \<Rightarrow> u64 \<times> u64 \<times> FrameTrust" where
  "summary f \<equiv> (frame_ip f, frame_sp f, trust (frame_info f))"

definition frames_ok :: "'w word WalkEnv \<Rightarrow> ('r, 'a, 'b, 'z) Frame_scheme list \<Rightarrow> bool" where
  "frames_ok env fs \<longleftrightarrow> successively may_call (map summary fs) \<and>
     (fs \<noteq> [] \<longrightarrow> trust (frame_info (hd fs)) = FRAME_TRUST_CONTEXT) \<and>
     (\<forall>f\<in>set fs. frame_module f =
        module_of (env_modules env) (env_unloaded_modules env) (instruction (frame_info f)))"

definition dubious_count :: "('r, 'a, 'b, 'z) Frame_scheme list \<Rightarrow> nat" where
  "dubious_count fs = length (filter (\<lambda>f. is_dubious (trust (frame_info f))) fs)"

definition walk_ok :: "'w word WalkEnv \<Rightarrow> ('r, 'a, 'b, 'z) Frame_scheme WalkState \<Rightarrow> bool" where
  "walk_ok env st \<longleftrightarrow> frames_ok env (cpu_frames (ws_frames st)) \<and>
     unat (scanned_frames st) = dubious_count (cpu_frames (ws_frames st)) \<and>
     scanned_frames st \<le> max_frames_scanned env \<and>
     length (cpu_frames (ws_frames st)) \<le> unat (max_frames env) + 1 \<and>
     distinct (modules_without_symbols st) \<and> distinct (modules_with_corrupt_symbols st)"

text \<open>A frame that may be visited next.\<close>

definition next_ok :: "'w word WalkEnv \<Rightarrow> ('r, 'a, 'b, 'z) Frame_scheme WalkState \<Rightarrow> ('r, 'a, 'b, 'z) Frame_scheme \<Rightarrow> bool" where
  "next_ok env st f \<longleftrightarrow> frame_module f = None \<and> length (ws_frames st) \<le> unat (max_frames env) \<and>
     (if ws_frames st = [] then trust (frame_info f) = FRAME_TRUST_CONTEXT
      else (\<exists>fs callee. ws_frames st = fs @ [CpuFrame callee] \<and> may_call (summary callee) (summary f)) \<and>
       (is_dubious (trust (frame_info f)) \<longrightarrow> scanned_frames st < max_frames_scanned env))"

lemma visit_frame_ok:
  assumes "visit_frame env f st = Some (st', go_on)" "walk_ok env st" "next_ok env st f"
  shows "walk_ok env st' \<and> (go_on \<longrightarrow> (\<exists>fs f'. ws_frames st' = fs @ [CpuFrame f']))"
  using assms(1)
proof (cases rule: visit_frame_cases)
  case interrupted
  then show ?thesis
    using assms(2) by (auto simp: walk_ok_def)
next
  case (visited inl f')
  let ?fs = "cpu_frames (ws_frames st)"
  have cpu: "cpu_frames (ws_frames st') = ?fs @ [f']"
    by (simp add: visited(2))
  have sum: "summary f' = summary f"
    using pointers [where f = f and i = "frame_info f'" and m = "frame_module f'"] visited(3,4) by simp
  have not_dubious: "\<not> is_dubious FRAME_TRUST_CONTEXT"
    by (simp add: is_dubious_def)
  have chain: "successively may_call (map summary (?fs @ [f'])) \<and> trust (frame_info (hd (?fs @ [f']))) = FRAME_TRUST_CONTEXT"
  proof (cases "ws_frames st = []")
    case True
    then show ?thesis
      using assms(3) sum by (simp add: next_ok_def)
  next
    case False
    then obtain fs callee where "ws_frames st = fs @ [CpuFrame callee]" "may_call (summary callee) (summary f)"
      using assms(3) by (auto simp: next_ok_def)
    then show ?thesis
      using assms(2) sum by (auto simp: walk_ok_def frames_ok_def successively_append_iff hd_append)
  qed
  have "frame_module f' = module_of (env_modules env) (env_unloaded_modules env) (instruction (frame_info f'))"
    using visited(5,6) assms(3) by (simp add: next_ok_def split: option.splits)
  then have "frames_ok env (?fs @ [f'])"
    using chain assms(2) by (simp add: walk_ok_def frames_ok_def)
  moreover have "scanned_frames st < max_frames_scanned env" if "is_dubious (trust (frame_info f))"
    using assms(3) that not_dubious by (auto simp: next_ok_def split: if_splits)
  then have "unat (scanned_frames st') = unat (scanned_frames st) + (if is_dubious (trust (frame_info f)) then 1 else 0) \<and>
      scanned_frames st' \<le> max_frames_scanned env"
    using visited(7) assms(2) word_less_imp_plus_one_le [of "scanned_frames st" "max_frames_scanned env"]
      unat_plus_one [of "scanned_frames st" "max_frames_scanned env"] word_less_plus_one [of "scanned_frames st" "max_frames_scanned env"]
    by (auto simp: walk_ok_def)
  moreover have "length (?fs @ [f']) \<le> unat (max_frames env) + 1"
    using assms(3) length_cpu_frames [of "ws_frames st"] by (simp add: next_ok_def)
  ultimately show ?thesis
    using assms(2) visited(2,4,8,9) by (auto simp: walk_ok_def cpu dubious_count_def)
qed

abbreviation view where
  "view \<equiv> map_CallFrame (\<lambda>f. (frame_ip f, frame_sp f, frame_info f, frame_module f))"

abbreviation pointers_info where
  "pointers_info f \<equiv> (frame_ip f, frame_sp f, frame_info f, frame_module f)"

lemma frames_ok_alt: "frames_ok env fs \<longleftrightarrow>
    successively may_call (map (\<lambda>(ip, sp, i, m). (ip, sp, trust i)) (map pointers_info fs)) \<and>
    (map pointers_info fs \<noteq> [] \<longrightarrow> trust (fst (snd (snd (hd (map pointers_info fs))))) = FRAME_TRUST_CONTEXT) \<and>
    (\<forall>(ip, sp, i, m)\<in>set (map pointers_info fs).
       m = module_of (env_modules env) (env_unloaded_modules env) (instruction i))"
  by (cases fs) (simp_all add: frames_ok_def comp_def)

lemma dubious_count_alt:
  "dubious_count fs = length (filter (\<lambda>(ip, sp, i, m). is_dubious (trust i)) (map pointers_info fs))"
  by (simp add: dubious_count_def filter_map comp_def)

lemma frames_ok_view:
  assumes "map view frames' = map view frames"
  shows "frames_ok env (cpu_frames frames') = frames_ok env (cpu_frames frames)"
    and "dubious_count (cpu_frames frames') = dubious_count (cpu_frames frames)"
    and "length (cpu_frames frames') = length (cpu_frames frames)" "length frames' = length frames"
proof -
  have eq: "map pointers_info (cpu_frames frames') = map pointers_info (cpu_frames frames)"
    unfolding cpu_frames_map [symmetric] assms ..
  show "frames_ok env (cpu_frames frames') = frames_ok env (cpu_frames frames)"
    unfolding frames_ok_alt eq ..
  show "dubious_count (cpu_frames frames') = dubious_count (cpu_frames frames)"
    unfolding dubious_count_alt eq ..
  show "length (cpu_frames frames') = length (cpu_frames frames)"
    by (rule map_eq_imp_length_eq [OF eq])
  show "length frames' = length frames"
    by (rule map_eq_imp_length_eq [OF assms])
qed

lemma last_view:
  assumes "map view frames' = map view frames" "frames = fs @ [CpuFrame f]"
  obtains fs' f' where "frames' = fs' @ [CpuFrame f']" "summary f' = summary f"
proof -
  have "frames' \<noteq> []" "view (last frames') = view (CpuFrame f)"
    using assms by (auto simp: map_eq_append_conv)
  then show ?thesis
    using that [of "butlast frames'"] append_butlast_last_id [of frames']
    by (cases "last frames'") (auto, metis)
qed

lemma get_caller_next:
  assumes "walk_ok env st" "ws_frames st = fs @ [CpuFrame callee]" "length (ws_frames st) \<le> unat (max_frames env)"
    "get_caller env (ws_frames st) (scanned_frames st < max_frames_scanned env) (ws_symbolizer st) = Some (sy, frames, caller)"
  shows "walk_ok env (st\<lparr>ws_symbolizer := sy, ws_frames := frames\<rparr>) \<and>
    (\<forall>f. caller = Some f \<longrightarrow> next_ok env (st\<lparr>ws_symbolizer := sy, ws_frames := frames\<rparr>) f)"
proof -
  note view = corrections [OF assms(4)]
  note same = frames_ok_view [OF view]
  have "next_ok env (st\<lparr>ws_symbolizer := sy, ws_frames := frames\<rparr>) f" if f: "caller = Some f" for f
  proof -
    obtain fs' callee' where last: "frames = fs' @ [CpuFrame callee']" "summary callee' = summary callee"
      by (rule last_view [OF view assms(2)])
    have "may_call (summary callee) (summary f) \<and> frame_module f = None"
      using caller_frame assms(2,4) f by metis
    moreover have "is_dubious (trust (frame_info f)) \<longrightarrow> scanned_frames st < max_frames_scanned env"
      using scan_allowed assms(4) f by (cases "scanned_frames st < max_frames_scanned env") auto
    ultimately show ?thesis
      using last same(4) assms(3) by (auto simp: next_ok_def)
  qed
  then show ?thesis
    using assms(1) same(1-3) by (simp add: walk_ok_def)
qed

lemma walk_loop_ok:
  "walk_loop gc env frame st = Some res \<Longrightarrow> gc = get_caller \<Longrightarrow> walk_ok env st \<Longrightarrow>
   \<forall>f. frame = Some f \<longrightarrow> next_ok env st f \<Longrightarrow> walk_ok env (fst res)"
proof (induction rule: walk_loop.raw_induct [rotated, consumes 1, case_names step])
  case (step loop gc env frame st res)
  show ?case
  proof (cases frame)
    case None
    then show ?thesis
      using step(2,4) by auto
  next
    case (Some f)
    obtain st1 go_on where v: "visit_frame env f st = Some (st1, go_on)"
      using step(2) Some by (auto split: bind_splits)
    note ok = visit_frame_ok [OF v step(4)]
    show ?thesis
    proof (cases "go_on \<and> \<not> unat (max_frames env) < length (ws_frames st1)")
      case True
      then obtain sy frames caller where
        c: "get_caller env (ws_frames st1) (scanned_frames st1 < max_frames_scanned env) (ws_symbolizer st1) =
          Some (sy, frames, caller)" and
        l: "loop get_caller env caller (st1\<lparr>ws_symbolizer := sy, ws_frames := frames\<rparr>) = Some res"
        using step(2,3) Some v by (auto split: bind_splits)
      then show ?thesis
        using step(1) [OF l refl] ok True step(5) Some get_caller_next [OF _ _ _ c] by (auto simp: not_less)
    next
      case False
      then show ?thesis
        using step(2,5) Some v ok by (auto split: if_splits)
    qed
  qed
qed

lemma WalkState_new_ok: "walk_ok env (WalkState_new sy)"
  by (simp add: walk_ok_def WalkState_new_def frames_ok_def dubious_count_def)

lemma Walk_ok:
  assumes "Walk get_context get_caller env sy = Some (st, ok)"
  shows "walk_ok env st"
proof -
  have "\<forall>f. get_context env = Some f \<longrightarrow> next_ok env (WalkState_new sy) f"
    using context_frame by (auto simp: next_ok_def WalkState_new_def)
  then show ?thesis
    using walk_loop_ok [OF assms [unfolded Walk_def] refl WalkState_new_ok] by simp
qed

end

section \<open>Walks that return\<close>

text \<open>A walker whose steps return on the memory of a minidump, with symbols that do not crash.\<close>

locale safe_walker = cpu_walker get_context get_caller frame_ip frame_sp
  for get_context :: "'w::len word WalkEnv \<Rightarrow> ('r, 'a, 'b, 'z) Frame_scheme option"
    and get_caller :: "(('r, 'a, 'b, 'z) Frame_scheme, 'w word) get_caller"
    and frame_ip :: "('r, 'a, 'b, 'z) Frame_scheme \<Rightarrow> u64"
    and frame_sp :: "('r, 'a, 'b, 'z) Frame_scheme \<Rightarrow> u64" +
  assumes returns: "\<forall>mem. env_memory env = Some mem \<longrightarrow> memory_ok mem \<Longrightarrow> safe_symbols TYPE('w) sy \<Longrightarrow>
    \<exists>sy' frames' caller. get_caller env (frames @ [CpuFrame callee]) scan sy = Some (sy', frames', caller) \<and>
      safe_symbols TYPE('w) sy'"
begin

lemma walk_loop_returns:
  assumes "\<forall>mem. env_memory env = Some mem \<longrightarrow> memory_ok mem" "safe_symbols TYPE('w) (ws_symbolizer st)"
    "walk_ok env st" "\<forall>f. frame = Some f \<longrightarrow> next_ok env st f"
  shows "\<exists>res. walk_loop get_caller env frame st = Some res"
  using assms(2-)
proof (induction "Suc (unat (max_frames env)) - length (ws_frames st)" arbitrary: frame st rule: less_induct)
  case less
  show ?case
  proof (cases frame)
    case None
    then show ?thesis
      by (subst walk_loop.simps) auto
  next
    case (Some f)
    then have f: "next_ok env st f"
      using less(4) by simp
    obtain st1 go_on where v: "visit_frame env f st = Some (st1, go_on)" "safe_symbols TYPE('w) (ws_symbolizer st1)"
      by (rule visit_frame_safe [OF less(2)])
    note ok = visit_frame_ok [OF v(1) less(3) f]
    show ?thesis
    proof (cases "go_on \<and> \<not> unat (max_frames env) < length (ws_frames st1)")
      case True
      then obtain fs callee where fs: "ws_frames st1 = fs @ [CpuFrame callee]"
        using ok by auto
      obtain sy frames caller where
        c: "get_caller env (ws_frames st1) (scanned_frames st1 < max_frames_scanned env) (ws_symbolizer st1) =
          Some (sy, frames, caller)" "safe_symbols TYPE('w) sy"
        using returns [OF assms(1) v(2)] fs by metis
      note go = get_caller_next [OF conjunct1 [OF ok] fs _ c(1)]
      have "length (ws_frames st) < length (ws_frames st1)"
        using v(1) True by (cases rule: visit_frame_cases) auto
      moreover have "length frames = length (ws_frames st1)"
        by (rule frames_ok_view(4) [OF corrections [OF c(1)]])
      ultimately have "\<exists>res. walk_loop get_caller env caller (st1\<lparr>ws_symbolizer := sy, ws_frames := frames\<rparr>) = Some res"
        using go True c(2) f by (intro less(1)) (auto simp: next_ok_def)
      then show ?thesis
        using Some v(1) True c(1) by (subst walk_loop.simps) simp
    next
      case False
      then show ?thesis
        using Some v(1) by (subst walk_loop.simps) auto
    qed
  qed
qed

lemma Walk_returns:
  assumes "\<forall>mem. env_memory env = Some mem \<longrightarrow> memory_ok mem" "safe_symbols TYPE('w) sy"
  shows "\<exists>st ok. Walk get_context get_caller env sy = Some (st, ok) \<and> walk_ok env st"
proof -
  have "\<forall>f. get_context env = Some f \<longrightarrow> next_ok env (WalkState_new sy) f"
    using context_frame by (auto simp: next_ok_def WalkState_new_def)
  then have "\<exists>res. walk_loop get_caller env (get_context env) (WalkState_new sy) = Some res"
    using assms WalkState_new_ok by (intro walk_loop_returns) (simp_all add: WalkState_new_def)
  then show ?thesis
    using Walk_ok by (fastforce simp: Walk_def)
qed

end

end
