(* ===== verification/Walker_Common.thy ===== *)
theory Walker_Common
  imports Walk_Invariant
begin

text \<open>
  What the walkers for the CPUs have in common: the last frame, new frames, the end of a step, and the use
  of call frame rules where registers are numbered by their validity bits.
\<close>

section \<open>Frames of a step\<close>

text \<open>\<open>frames.back()\<close>, cast to the frame type of the CPU; the cast is wrong for an inlined frame.\<close>

definition back_frame :: "'f CallFrame list \<Rightarrow> 'f option" where
  "back_frame frames = (if frames = [] then None
     else case last frames of InlineFrame _ _ \<Rightarrow> None | CpuFrame f \<Rightarrow> Some f)"

definition replace_back :: "'f CallFrame list \<Rightarrow> 'f \<Rightarrow> 'f CallFrame list" where
  "replace_back frames f = butlast frames @ [CpuFrame f]"

definition new_info :: "FrameTrust \<Rightarrow> StackFrame" where
  "new_info t = (StackFrame_new 0 0)\<lparr>trust := t\<rparr>"

definition new_frame :: "FrameTrust \<Rightarrow> ('r \<Rightarrow> 'a) \<Rightarrow> 'b \<Rightarrow> ('r, 'a, 'b) Frame" where
  "new_frame t context validity =
     \<lparr>frame_info = new_info t, frame_module = None, cpu_context = context, context_validity = validity\<rparr>"

definition is_context_frame :: "('r, 'a, 'b, 'z) Frame_scheme \<Rightarrow> bool" where
  "is_context_frame f \<longleftrightarrow> trust (frame_info f) = FRAME_TRUST_CONTEXT"

definition set_instruction :: "u64 \<Rightarrow> ('r, 'a, 'b, 'z) Frame_scheme \<Rightarrow> ('r, 'a, 'b, 'z) Frame_scheme" where
  "set_instruction i f = f\<lparr>frame_info := (frame_info f)\<lparr>instruction := i\<rparr>\<rparr>"

text \<open>
  The end of every step: the test for the end of the stack, and the address of the call, which lies before
  the return address.
\<close>

definition finish_frame ::
  "(('r, 'a, 'b, 'z) Frame_scheme \<Rightarrow> u64) \<Rightarrow> (('r, 'a, 'b, 'z) Frame_scheme \<Rightarrow> u64) \<Rightarrow>
   (('r, 'a, 'b, 'z) Frame_scheme \<Rightarrow> u64) \<Rightarrow> ('r, 'a, 'b, 'z) Frame_scheme \<Rightarrow> ('r, 'a, 'b, 'z) Frame_scheme \<Rightarrow>
   ('r, 'a, 'b, 'z) Frame_scheme option" where
  "finish_frame ip sp call_address last_frame frame =
     (if TerminateWalk (ip frame) (sp frame) (sp last_frame) (is_context_frame last_frame) then None
      else Some (set_instruction (call_address frame) frame))"

section \<open>Call frame rules with numbered registers\<close>

definition register_flag :: "nat \<Rightarrow> 'b::len word" where
  "register_flag i = push_bit i 1"

definition has_flag :: "'b::len word \<Rightarrow> nat \<Rightarrow> bool" where
  "has_flag validity i \<longleftrightarrow> validity AND register_flag i \<noteq> 0"

definition callee_dictionary ::
  "string list \<Rightarrow> (nat \<Rightarrow> 'a) \<Rightarrow> 'b::len word \<Rightarrow> 'a RegisterValueMap" where
  "callee_dictionary register_names context validity =
     fold (\<lambda>(i, name) callee_registers. if has_flag validity i then callee_registers(name \<mapsto> context i) else callee_registers)
       (enumerate 0 register_names) Map.empty"

text \<open>
  A register of the caller: as the rules give it, else as in the callee where the callee has to save it.
\<close>

definition recover_register ::
  "'a RegisterValueMap \<Rightarrow> (nat \<Rightarrow> bool) \<Rightarrow> (nat \<Rightarrow> 'a) \<Rightarrow> 'b::len word \<Rightarrow> nat \<times> string \<Rightarrow> (nat \<Rightarrow> 'a) \<times> 'b word \<Rightarrow>
   (nat \<Rightarrow> 'a) \<times> 'b word" where
  "recover_register caller_registers preserved last_context last_validity r frame =
     (case (r, frame) of ((i, name), (context, validity)) \<Rightarrow>
        (case caller_registers name of
           Some v \<Rightarrow> (context(i := v), validity OR register_flag i)
         | None \<Rightarrow>
             if preserved i \<and> has_flag last_validity i then
               (context(i := last_context i), validity OR register_flag i)
             else (context, validity)))"

definition recover_registers ::
  "string list \<Rightarrow> 'a RegisterValueMap \<Rightarrow> (nat \<Rightarrow> bool) \<Rightarrow> (nat \<Rightarrow> 'a::zero) \<Rightarrow> 'b::len word \<Rightarrow> (nat \<Rightarrow> 'a) \<times> 'b word" where
  "recover_registers register_names caller_registers preserved last_context last_validity =
     fold (recover_register caller_registers preserved last_context last_validity)
       (enumerate 0 register_names) (\<lambda>_. 0, 0)"

text \<open>A register that was not recovered takes the value of a special rule.\<close>

definition recover_from ::
  "'a RegisterValueMap \<Rightarrow> nat \<Rightarrow> string \<Rightarrow> (nat \<Rightarrow> 'a) \<times> 'b::len word \<Rightarrow> (nat \<Rightarrow> 'a) \<times> 'b word" where
  "recover_from caller_registers i name frame =
     (case frame of (context, validity) \<Rightarrow>
        if has_flag validity i then (context, validity)
        else (case caller_registers name of
            Some v \<Rightarrow> (context(i := v), validity OR register_flag i)
          | None \<Rightarrow> (context, validity)))"

text \<open>The caller's registers, unless the rules do not apply or give no instruction or stack pointer.\<close>

definition cfi_registers ::
  "string list \<Rightarrow> (nat \<Rightarrow> bool) \<Rightarrow> nat \<Rightarrow> nat \<Rightarrow> 'w::len word WalkEnv \<Rightarrow> (nat \<Rightarrow> 'w word) \<Rightarrow> 'b::len word \<Rightarrow>
   CFIFrameInfo \<Rightarrow> ((nat \<Rightarrow> 'w word) \<times> 'b word) option option" where
  "cfi_registers register_names preserved pc sp env last_context last_validity cfi_frame_info =
     map_option (\<lambda>(caller_registers, ok).
         if \<not> ok then None
         else
           let (context, validity) = recover_from caller_registers sp ''.cfa'' (recover_from caller_registers pc ''.ra''
               (recover_registers register_names caller_registers preserved last_context last_validity));
             essentials = register_flag sp OR register_flag pc
           in if validity AND essentials \<noteq> essentials then None else Some (context, validity))
       (FindCallerRegs cfi_frame_info (callee_dictionary register_names last_context last_validity)
         (read_memory env) Map.empty)"

section \<open>What the rules recover\<close>

lemma has_flag_bit: "has_flag v i \<longleftrightarrow> bit v i"
  by (simp add: has_flag_def register_flag_def push_bit_eq_mult and_exp_eq_0_iff_not_bit)

lemma bit_register_flag [simp]: "i < LENGTH('b) \<Longrightarrow> bit (register_flag i :: 'b::len word) j \<longleftrightarrow> i = j"
  by (auto simp: register_flag_def bit_simps)

text \<open>The value a register of the caller gets, if any.\<close>

definition recovered ::
  "'a RegisterValueMap \<Rightarrow> (nat \<Rightarrow> bool) \<Rightarrow> (nat \<Rightarrow> 'a) \<Rightarrow> 'b::len word \<Rightarrow> nat \<Rightarrow> string \<Rightarrow> 'a option" where
  "recovered caller_registers preserved last_context last_validity i name =
     (case caller_registers name of
        Some v \<Rightarrow> Some v
      | None \<Rightarrow> if preserved i \<and> has_flag last_validity i then Some (last_context i) else None)"

lemma recover_register_eq:
  "recover_register cr saves lc lv (i, name) (ctx, validity) =
     (case recovered cr saves lc lv i name of
        Some v \<Rightarrow> (ctx(i := v), validity OR register_flag i) | None \<Rightarrow> (ctx, validity))"
  by (auto simp: recover_register_def recovered_def split: option.splits)

lemma recover_fold:
  assumes "fold (recover_register cr saves lc lv) (enumerate n names) (ctx, validity) = (ctx', validity')"
    "n + length names \<le> LENGTH('b)"
  shows "bit (validity' :: 'b::len word) j \<longleftrightarrow> (if n \<le> j \<and> j < n + length names
       then bit validity j \<or> recovered cr saves lc lv j (names ! (j - n)) \<noteq> None else bit validity j)"
    and "ctx' j = (if n \<le> j \<and> j < n + length names
       then (case recovered cr saves lc lv j (names ! (j - n)) of Some v \<Rightarrow> v | None \<Rightarrow> ctx j) else ctx j)"
  using assms
proof (induction names arbitrary: n ctx validity)
  case (Cons name names)
  { case 1
    then show ?case
      using Cons(1) [where n = "Suc n"]
      by (cases "recovered cr saves lc lv n name")
        (auto simp: recover_register_eq bit_simps Suc_le_eq nth_Cons' le_less)
  next
    case 2
    then show ?case
      using Cons(2) [where n = "Suc n"]
      by (cases "recovered cr saves lc lv n name")
        (auto simp: recover_register_eq Suc_le_eq nth_Cons' le_less split: option.splits)
  }
qed auto

lemma recover_registers_correct:
  assumes "recover_registers names cr saves lc lv = (ctx, validity :: 'b::len word)" "length names \<le> LENGTH('b)"
  shows "bit validity j \<longleftrightarrow> j < length names \<and> recovered cr saves lc lv j (names ! j) \<noteq> None"
    and "ctx j = (if j < length names then (case recovered cr saves lc lv j (names ! j) of Some v \<Rightarrow> v | None \<Rightarrow> 0) else 0)"
  using recover_fold [of cr saves lc lv 0 names "\<lambda>_. 0" 0 ctx validity j] assms
  by (auto simp: recover_registers_def)

section \<open>Laws of a step\<close>

lemma set_instruction_simps [simp]:
  "cpu_context (set_instruction i f) = cpu_context f" "trust (frame_info (set_instruction i f)) = trust (frame_info f)"
  "frame_module (set_instruction i f) = frame_module f"
  by (simp_all add: set_instruction_def)

lemma new_frame_simps [simp]:
  "cpu_context (new_frame t c v) = c" "trust (frame_info (new_frame t c v)) = t" "frame_module (new_frame t c v) = None"
  by (simp_all add: new_frame_def new_info_def)

lemma finish_frame_may_call:
  assumes "finish_frame ip sp call_address last_frame frame = Some f" "trust (frame_info frame) \<noteq> FRAME_TRUST_CONTEXT"
    "\<And>i g. ip (set_instruction i g) = ip g" "\<And>i g. sp (set_instruction i g) = sp g"
  shows "may_call (ip last_frame, sp last_frame, trust (frame_info last_frame)) (ip f, sp f, trust (frame_info f)) \<and>
    frame_module f = frame_module frame \<and> trust (frame_info f) = trust (frame_info frame)"
  using assms(1,2)
  by (auto simp: finish_frame_def may_call_def TerminateWalk_iff is_context_frame_def assms(3,4) split: if_splits)

lemma back_frame_snoc [simp]: "back_frame (frames @ [CpuFrame f]) = Some f"
  by (simp add: back_frame_def)

lemma back_frame_Some: "back_frame frames = Some f \<longleftrightarrow> (\<exists>fs. frames = fs @ [CpuFrame f])"
  by (cases frames rule: rev_cases) (auto simp: back_frame_def split: CallFrame.splits)

lemma FindCFIFrameInfo_safe:
  assumes "safe_symbols t sy" "Symbolizer_FindCFIFrameInfo sy fr = Some c"
  shows "safe_rules t c"
  using assms
  by (auto simp: safe_symbols_def safe_module_def Symbolizer_FindCFIFrameInfo_def Resolver_FindCFIFrameInfo_def
      frame_symbols_def loaded_module_def split: bind_splits)

lemma cfi_registers_safe:
  "safe_rules TYPE('w) c \<Longrightarrow> \<exists>res. cfi_registers names saves pc sp (env :: 'w::len word WalkEnv) ctx validity c = Some res"
proof -
  assume "safe_rules TYPE('w) c"
  then obtain p where "FindCallerRegs c (callee_dictionary names ctx validity) (read_memory env) Map.empty = Some p"
    unfolding safe_rules_def by blast
  then show ?thesis
    by (auto simp: cfi_registers_def)
qed

lemma ScanForReturnAddress_safe:
  fixes env :: "'w::len word WalkEnv"
  assumes "32 \<le> LENGTH('w)" "LENGTH('w) \<le> 64" "env_memory env = Some mem" "memory_ok mem" "safe_symbols t sy"
  obtains sy' found where "ScanForReturnAddress_from env start first sy = Some (sy', found)" "safe_symbols t sy'"
  using scan_from_returns [OF assms] unfolding ScanForReturnAddress_from_def ScanForReturnAddress_def by blast

section \<open>The frame of a step\<close>

text \<open>
  What \<open>GetCallerFrame\<close> is for the CPUs that leave the frames so far alone: it needs memory, recovers
  a frame in the ways of the CPU, and finishes it.
\<close>

definition caller_step ::
  "(('r, 'a, 'b, 'z) Frame_scheme \<Rightarrow> u64) \<Rightarrow> (('r, 'a, 'b, 'z) Frame_scheme \<Rightarrow> u64) \<Rightarrow>
   (('r, 'a, 'b, 'z) Frame_scheme \<Rightarrow> u64) \<Rightarrow>
   ('w::len word WalkEnv \<Rightarrow> ('r, 'a, 'b, 'z) Frame_scheme CallFrame list \<Rightarrow> ('r, 'a, 'b, 'z) Frame_scheme \<Rightarrow> bool \<Rightarrow>
      Symbolizer \<Rightarrow> (Symbolizer \<times> ('r, 'a, 'b, 'z) Frame_scheme option) option) \<Rightarrow>
   (('r, 'a, 'b, 'z) Frame_scheme, 'w word) get_caller" where
  "caller_step ip sp call_address recover env frames stack_scan_allowed sy =
     (if env_memory env = None then Some (sy, frames, None)
      else Option.bind (back_frame frames) (\<lambda>last_frame.
        map_option (\<lambda>(sy, frame). (sy, frames, Option.bind frame (finish_frame ip sp call_address last_frame)))
          (recover env frames last_frame stack_scan_allowed sy)))"

text \<open>The ways of a CPU to recover a frame are tried in turn: each one if it applies and those before it failed.\<close>

type_synonym 'f attempt = "(Symbolizer \<times> 'f option) option"

definition try_next :: "bool \<Rightarrow> (Symbolizer \<Rightarrow> 'f attempt) \<Rightarrow> 'f attempt \<Rightarrow> 'f attempt" where
  "try_next applies recover attempt =
     Option.bind attempt (\<lambda>(sy, frame). if applies \<and> frame = None then recover sy else Some (sy, frame))"

definition try_cfi ::
  "('r, 'a, 'b, 'z) Frame_scheme \<Rightarrow> (CFIFrameInfo \<Rightarrow> ('r, 'a, 'b, 'z) Frame_scheme option option) \<Rightarrow> Symbolizer \<Rightarrow>
   ('r, 'a, 'b, 'z) Frame_scheme attempt" where
  "try_cfi last_frame recover sy =
     (case Symbolizer_FindCFIFrameInfo sy (frame_info last_frame, frame_module last_frame) of
        None \<Rightarrow> Some (sy, None)
      | Some cfi_frame_info \<Rightarrow> map_option (Pair sy) (recover cfi_frame_info))"

text \<open>What holds of a recovered frame, and that an attempt returns.\<close>

definition fresh_frame :: "bool \<Rightarrow> ('r, 'a, 'b, 'z) Frame_scheme \<Rightarrow> bool" where
  "fresh_frame scan f \<longleftrightarrow> trust (frame_info f) \<noteq> FRAME_TRUST_CONTEXT \<and> frame_module f = None \<and>
     (is_dubious (trust (frame_info f)) \<longrightarrow> scan)"

definition yields :: "('f \<Rightarrow> bool) \<Rightarrow> 'f attempt \<Rightarrow> bool" where
  "yields P attempt \<longleftrightarrow> (\<forall>sy f. attempt = Some (sy, Some f) \<longrightarrow> P f)"

definition returns_safe :: "'w::len itself \<Rightarrow> 'f attempt \<Rightarrow> bool" where
  "returns_safe t attempt \<longleftrightarrow> (\<exists>sy frame. attempt = Some (sy, frame) \<and> safe_symbols t sy)"

definition stack_ok :: "'w::len word WalkEnv \<Rightarrow> bool" where
  "stack_ok env \<longleftrightarrow> (\<exists>mem. env_memory env = Some mem \<and> memory_ok mem)"

named_theorems attempts

lemma fresh_new_frame [simp]:
  "fresh_frame scan (new_frame t c v) \<longleftrightarrow> t \<noteq> FRAME_TRUST_CONTEXT \<and> (is_dubious t \<longrightarrow> scan)"
  by (simp add: fresh_frame_def)

lemma yields_try_next [attempts]:
  "yields P attempt \<Longrightarrow> (\<And>sy. applies \<Longrightarrow> yields P (recover sy)) \<Longrightarrow> yields P (try_next applies recover attempt)"
  by (auto simp: yields_def try_next_def Option.bind_eq_Some_conv split: if_splits)

lemma yields_try_cfi [attempts]:
  "(\<And>c f. recover c = Some (Some f) \<Longrightarrow> P f) \<Longrightarrow> yields P (try_cfi last_frame recover sy)"
  by (auto simp: yields_def try_cfi_def split: option.splits)

lemma yields_Some [attempts]: "(\<And>f. frame = Some f \<Longrightarrow> P f) \<Longrightarrow> yields P (Some (sy, frame))"
  by (simp add: yields_def)

lemma yields_map_scan [attempts]:
  "(\<And>found. P (g found)) \<Longrightarrow> yields P (map_option (\<lambda>(sy, found). (sy, map_option g found)) attempt)"
  by (auto simp: yields_def)

lemma returns_try_next [attempts]:
  "returns_safe t attempt \<Longrightarrow> (\<And>sy. applies \<Longrightarrow> safe_symbols t sy \<Longrightarrow> returns_safe t (recover sy)) \<Longrightarrow>
   returns_safe t (try_next applies recover attempt)"
  by (auto simp: returns_safe_def try_next_def)

lemma returns_try_cfi [attempts]:
  "safe_symbols t sy \<Longrightarrow> (\<And>c. safe_rules t c \<Longrightarrow> recover c \<noteq> None) \<Longrightarrow> returns_safe t (try_cfi last_frame recover sy)"
  using FindCFIFrameInfo_safe [of t sy]
  by (auto simp: returns_safe_def try_cfi_def split: option.splits)

lemma returns_Some [attempts]: "safe_symbols t sy \<Longrightarrow> returns_safe t (Some (sy, frame))"
  by (simp add: returns_safe_def)

lemma returns_map_scan [attempts]:
  fixes env :: "'w::len word WalkEnv"
  assumes "32 \<le> LENGTH('w)" "LENGTH('w) \<le> 64" "stack_ok env" "safe_symbols t sy"
  shows "returns_safe t (map_option (\<lambda>(sy, found). (sy, map_option g found)) (ScanForReturnAddress env start n sy))"
    and "returns_safe t (map_option (\<lambda>(sy, found). (sy, map_option g found)) (ScanForReturnAddress_from env start first sy))"
proof -
  obtain mem where "env_memory env = Some mem" "memory_ok mem"
    using assms(3) by (auto simp: stack_ok_def)
  note returns = scan_from_returns [OF assms(1,2) this assms(4)]
  show "returns_safe t (map_option (\<lambda>(sy, found). (sy, map_option g found)) (ScanForReturnAddress env start n sy))"
    "returns_safe t (map_option (\<lambda>(sy, found). (sy, map_option g found)) (ScanForReturnAddress_from env start first sy))"
    using returns by (fastforce simp: returns_safe_def ScanForReturnAddress_from_def ScanForReturnAddress_def)+
qed

lemma caller_step_Some:
  assumes "caller_step ip sp ca recover env frames scan sy = Some (sy', frames', caller)"
  shows "frames' = frames \<and> (\<forall>f. caller = Some f \<longrightarrow> (\<exists>fs last_frame frame. frames = fs @ [CpuFrame last_frame] \<and>
    recover env frames last_frame scan sy = Some (sy', Some frame) \<and> finish_frame ip sp ca last_frame frame = Some f))"
  using assms by (auto simp: caller_step_def back_frame_Some split: if_splits bind_splits)

text \<open>The laws of a walker that is such a step.\<close>

lemma caller_step_walker:
  fixes recover :: "'w::len word WalkEnv \<Rightarrow> ('r, 'a, 'b, 'z) Frame_scheme CallFrame list \<Rightarrow>
    ('r, 'a, 'b, 'z) Frame_scheme \<Rightarrow> bool \<Rightarrow> Symbolizer \<Rightarrow>
    (Symbolizer \<times> ('r, 'a, 'b, 'z) Frame_scheme option) option"
  assumes ip: "\<And>f i m. ip (f\<lparr>frame_info := i, frame_module := m\<rparr>) = ip f"
    and sp: "\<And>f i m. sp (f\<lparr>frame_info := i, frame_module := m\<rparr>) = sp f"
    and first: "\<And>env f. get_context env = Some f \<Longrightarrow> trust (frame_info f) = FRAME_TRUST_CONTEXT \<and> frame_module f = None"
    and recover: "\<And>env frames last_frame scan sy. yields (fresh_frame scan) (recover env frames last_frame scan sy)"
  shows "cpu_walker get_context (caller_step ip sp ca recover) ip sp"
proof
  fix env f i m frames frames' caller callee scan sy sy'
  have inst: "ip (set_instruction j g) = ip g" "sp (set_instruction j g) = sp g" for j g
    using ip [where f = g and m = "frame_module g"] sp [where f = g and m = "frame_module g"]
    by (simp_all add: set_instruction_def)
  show "ip (f\<lparr>frame_info := i, frame_module := m\<rparr>) = ip f" "sp (f\<lparr>frame_info := i, frame_module := m\<rparr>) = sp f"
    by (rule ip sp)+
  show "trust (frame_info f) = FRAME_TRUST_CONTEXT \<and> frame_module f = None" if "get_context env = Some f"
    by (rule first [OF that])
  show "map (map_CallFrame (\<lambda>f. (ip f, sp f, frame_info f, frame_module f))) frames' =
      map (map_CallFrame (\<lambda>f. (ip f, sp f, frame_info f, frame_module f))) frames"
    if "caller_step ip sp ca recover env frames scan sy = Some (sy', frames', caller)"
    using caller_step_Some [OF that] by simp
  show "may_call (ip callee, sp callee, trust (frame_info callee)) (ip f, sp f, trust (frame_info f)) \<and> frame_module f = None"
    if st: "caller_step ip sp ca recover env (frames @ [CpuFrame callee]) scan sy = Some (sy', frames', Some f)"
  proof -
    obtain frame where r: "recover env (frames @ [CpuFrame callee]) callee scan sy = Some (sy', Some frame)"
      "finish_frame ip sp ca callee frame = Some f"
      using caller_step_Some [OF st] by auto
    show ?thesis
      using finish_frame_may_call [OF r(2) _ inst] recover r(1) by (fastforce simp: yields_def fresh_frame_def)
  qed
  show "\<not> is_dubious (trust (frame_info f))"
    if st: "caller_step ip sp ca recover env frames False sy = Some (sy', frames', Some f)"
  proof -
    obtain last_frame frame where r: "recover env frames last_frame False sy = Some (sy', Some frame)"
      "finish_frame ip sp ca last_frame frame = Some f"
      using caller_step_Some [OF st] by auto
    show ?thesis
      using finish_frame_may_call [OF r(2) _ inst] recover r(1) by (fastforce simp: yields_def fresh_frame_def)
  qed
qed

lemma caller_step_safe_walker:
  fixes recover :: "'w::len word WalkEnv \<Rightarrow> ('r, 'a, 'b, 'z) Frame_scheme CallFrame list \<Rightarrow>
    ('r, 'a, 'b, 'z) Frame_scheme \<Rightarrow> bool \<Rightarrow> Symbolizer \<Rightarrow>
    (Symbolizer \<times> ('r, 'a, 'b, 'z) Frame_scheme option) option"
  assumes "cpu_walker get_context (caller_step ip sp ca recover) ip sp"
    and returns: "\<And>env frames last_frame scan sy. stack_ok env \<Longrightarrow>
      safe_symbols TYPE('w) sy \<Longrightarrow> returns_safe TYPE('w) (recover env frames last_frame scan sy)"
  shows "safe_walker get_context (caller_step ip sp ca recover) ip sp"
proof (intro safe_walker.intro safe_walker_axioms.intro assms(1))
  fix env :: "'w word WalkEnv" and frames callee scan sy
  assume env: "\<forall>mem. env_memory env = Some mem \<longrightarrow> memory_ok mem" and sy: "safe_symbols TYPE('w) sy"
  show "\<exists>sy' frames' caller. caller_step ip sp ca recover env (frames @ [CpuFrame callee]) scan sy =
      Some (sy', frames', caller) \<and> safe_symbols TYPE('w) sy'"
  proof (cases "env_memory env")
    case None
    then show ?thesis
      using sy by (simp add: caller_step_def)
  next
    case (Some mem)
    then obtain sy' frame where "recover env (frames @ [CpuFrame callee]) callee scan sy = Some (sy', frame)"
        "safe_symbols TYPE('w) sy'"
      using returns [OF _ sy, of env "frames @ [CpuFrame callee]" callee scan] env Some
      unfolding returns_safe_def stack_ok_def by blast
    then show ?thesis
      using Some by (simp add: caller_step_def)
  qed
qed

end
