(* ===== verification/Walker_AMD64.thy ===== *)
theory Walker_AMD64
  imports Walker_Common
begin

text \<open>
  processor/stackwalker_amd64.cc: the walker for x86-64.
\<close>

datatype RegAMD64 =
    RAX | RDX | RCX | RBX | RSI | RDI | RBP | RSP | R8 | R9 | R10 | R11 | R12 | R13 | R14 | R15 | RIP

type_synonym FrameAMD64 = "(RegAMD64, u64, u32) Frame"

definition amd64_reg ::
  "string \<Rightarrow> string option \<Rightarrow> bool \<Rightarrow> nat \<Rightarrow> RegAMD64 \<Rightarrow> RegAMD64 RegisterSet" where
  "amd64_reg name alternate saves i member = \<lparr>reg_name = name, alternate_name = alternate, callee_saves = saves,
     validity_flag = register_flag i, context_member = member\<rparr>"

definition amd64_cfi_register_map :: "RegAMD64 RegisterSet list" where
  "amd64_cfi_register_map =
     [amd64_reg ''$rax'' None False 0 RAX, amd64_reg ''$rdx'' None False 1 RDX, amd64_reg ''$rcx'' None False 2 RCX,
      amd64_reg ''$rbx'' None True 3 RBX, amd64_reg ''$rsi'' None False 4 RSI, amd64_reg ''$rdi'' None False 5 RDI,
      amd64_reg ''$rbp'' None True 6 RBP, amd64_reg ''$rsp'' (Some ''.cfa'') False 7 RSP,
      amd64_reg ''$r8'' None False 8 R8, amd64_reg ''$r9'' None False 9 R9, amd64_reg ''$r10'' None False 10 R10,
      amd64_reg ''$r11'' None False 11 R11, amd64_reg ''$r12'' None True 12 R12, amd64_reg ''$r13'' None True 13 R13,
      amd64_reg ''$r14'' None True 14 R14, amd64_reg ''$r15'' None True 15 R15,
      amd64_reg ''$rip'' (Some ''.ra'') False 16 RIP]"

abbreviation VALID_RBP :: u32 where "VALID_RBP \<equiv> register_flag 6"
abbreviation VALID_RSP :: u32 where "VALID_RSP \<equiv> register_flag 7"
abbreviation VALID_RIP :: u32 where "VALID_RIP \<equiv> register_flag 16"

definition amd64_GetContextFrame :: "(RegAMD64 \<Rightarrow> u64) option \<Rightarrow> u64 WalkEnv \<Rightarrow> FrameAMD64 option" where
  "amd64_GetContextFrame context env =
     map_option (\<lambda>c. set_instruction (c RIP) (new_frame FRAME_TRUST_CONTEXT c (- 1))) context"

definition amd64_essentials :: "(RegAMD64 \<Rightarrow> u64) \<times> u32 \<Rightarrow> FrameAMD64 option" where
  "amd64_essentials found =
     (let essentials = VALID_RIP OR VALID_RSP in
      if snd found AND essentials \<noteq> essentials then None
      else if fst found RIP = 0 \<or> fst found RSP = 0 then None
      else Some (new_frame FRAME_TRUST_CFI (fst found) (snd found)))"

definition amd64_GetCallerByCFIFrameInfo ::
  "u64 WalkEnv \<Rightarrow> FrameAMD64 \<Rightarrow> CFIFrameInfo \<Rightarrow> FrameAMD64 option option" where
  "amd64_GetCallerByCFIFrameInfo env last_frame cfi_frame_info =
     map_option (\<lambda>found. Option.bind found amd64_essentials)
       (FindCallerRegisters amd64_cfi_register_map (read_memory env) cfi_frame_info
         (cpu_context last_frame) (context_validity last_frame))"

definition is_non_canonical :: "u64 \<Rightarrow> bool" where
  "is_non_canonical ptr \<longleftrightarrow> 0x7FFFFFFFFFFF < ptr \<and> ptr < 0xFFFF800000000000"

definition amd64_GetCallerByFramePointerRecovery :: "u64 WalkEnv \<Rightarrow> FrameAMD64 \<Rightarrow> FrameAMD64 option" where
  "amd64_GetCallerByFramePointerRecovery env last_frame =
     (let last_rbp = cpu_context last_frame RBP in
      if last_rbp mod 8 \<noteq> 0 then None
      else Option.bind (read_memory env (last_rbp + 8)) (\<lambda>caller_rip.
        Option.bind (read_memory env last_rbp) (\<lambda>caller_rbp.
          let caller_rsp = last_rbp + 16 in
          if is_non_canonical caller_rip then None
          else if caller_rsp \<le> last_rbp \<or> caller_rbp < caller_rsp then None
          else if read_memory env caller_rbp = None then None
          else Some (new_frame FRAME_TRUST_FP
            ((cpu_context last_frame)(RIP := caller_rip, RSP := caller_rsp, RBP := caller_rbp))
            (VALID_RIP OR VALID_RSP OR VALID_RBP)))))"

definition amd64_GetCallerBySimulatingReturn ::
  "u64 WalkEnv \<Rightarrow> FrameAMD64 \<Rightarrow> Symbolizer \<Rightarrow> FrameAMD64 attempt" where
  "amd64_GetCallerBySimulatingReturn env last_frame sy =
     map_option (\<lambda>(sy, found). (sy, map_option (\<lambda>(caller_rip_address, caller_rip).
         new_frame FRAME_TRUST_LEAF
           ((cpu_context last_frame)(RIP := caller_rip, RSP := caller_rip_address + 8))
           (context_validity last_frame)) found))
       (ScanForReturnAddress env (cpu_context last_frame RSP) 1 sy)"

text \<open>The frame pointer a scan passes on, if it is plausible.\<close>

definition amd64_scanned_rbp :: "u64 WalkEnv \<Rightarrow> FrameAMD64 \<Rightarrow> u64 \<Rightarrow> u64 option" where
  "amd64_scanned_rbp env last_frame caller_rip_address =
     (let last_rbp = cpu_context last_frame RBP in
      if context_validity last_frame AND VALID_RBP = 0 then None
      else if caller_rip_address - 8 = last_rbp then
        (case read_memory env last_rbp of
           Some caller_rbp \<Rightarrow> if caller_rip_address < caller_rbp then Some caller_rbp else None
         | None \<Rightarrow> None)
      else if caller_rip_address + 8 \<le> last_rbp then Some last_rbp
      else None)"

definition amd64_GetCallerByStackScan ::
  "u64 WalkEnv \<Rightarrow> FrameAMD64 \<Rightarrow> Symbolizer \<Rightarrow> FrameAMD64 attempt" where
  "amd64_GetCallerByStackScan env last_frame sy =
     map_option (\<lambda>(sy, found). (sy, map_option (\<lambda>(caller_rip_address, caller_rip).
         let context = (cpu_context last_frame)(RIP := caller_rip, RSP := caller_rip_address + 8);
             validity = VALID_RIP OR VALID_RSP
         in case amd64_scanned_rbp env last_frame caller_rip_address of
              None \<Rightarrow> new_frame FRAME_TRUST_SCAN context validity
            | Some rbp \<Rightarrow> new_frame FRAME_TRUST_SCAN (context(RBP := rbp)) (validity OR VALID_RBP)) found))
       (ScanForReturnAddress_from env (cpu_context last_frame RSP) (is_context_frame last_frame) sy)"

text \<open>Native Client keeps its sandbox base in the upper half of these registers.\<close>

definition amd64_nacl :: "u64 WalkEnv \<Rightarrow> FrameAMD64 \<Rightarrow> FrameAMD64" where
  "amd64_nacl env f =
     (if os_short env = ''nacl'' then
        f\<lparr>cpu_context := (cpu_context f)
          (RIP := cpu_context f RIP AND 0xFFFFFFFF, RSP := cpu_context f RSP AND 0xFFFFFFFF,
           RBP := cpu_context f RBP AND 0xFFFFFFFF)\<rparr>
      else f)"

text \<open>The ways to find a caller, each tried when those before it failed.\<close>

definition amd64_recover ::
  "u64 WalkEnv \<Rightarrow> FrameAMD64 CallFrame list \<Rightarrow> FrameAMD64 \<Rightarrow> bool \<Rightarrow> Symbolizer \<Rightarrow> FrameAMD64 attempt" where
  "amd64_recover env frames last_frame stack_scan_allowed sy =
     map_option (\<lambda>(sy, new_frame). (sy, map_option (amd64_nacl env) new_frame))
       (try_next stack_scan_allowed (amd64_GetCallerByStackScan env last_frame)
         (try_next (os_short env \<noteq> ''windows'') (\<lambda>sy. Some (sy, amd64_GetCallerByFramePointerRecovery env last_frame))
           (try_next (is_context_frame last_frame \<and> os_short env = ''windows'')
             (amd64_GetCallerBySimulatingReturn env last_frame)
             (try_cfi last_frame (amd64_GetCallerByCFIFrameInfo env last_frame) sy))))"

definition amd64_ip :: "FrameAMD64 \<Rightarrow> u64" where "amd64_ip f = cpu_context f RIP"
definition amd64_sp :: "FrameAMD64 \<Rightarrow> u64" where "amd64_sp f = cpu_context f RSP"

definition amd64_GetCallerFrame :: "(FrameAMD64, u64) get_caller" where
  "amd64_GetCallerFrame = caller_step amd64_ip amd64_sp (\<lambda>f. amd64_ip f - 1) amd64_recover"

section \<open>The laws of the walker\<close>

lemma amd64_register_map_ok: "register_map_ok amd64_cfi_register_map"
  by (simp add: register_map_ok_def amd64_cfi_register_map_def amd64_reg_def register_flag_def)

lemma amd64_nacl_simps [simp]:
  "trust (frame_info (amd64_nacl env f)) = trust (frame_info f)" "frame_module (amd64_nacl env f) = frame_module f"
  by (simp_all add: amd64_nacl_def)

lemma FindCallerRegisters_safe:
  assumes "safe_rules TYPE('w::len) c"
  shows "\<exists>res. FindCallerRegisters rs (mem :: 'w memory_region) c ctx validity = Some res"
proof -
  obtain p where "FindCallerRegs c (populate_callee rs ctx validity Map.empty) mem Map.empty = Some p"
    using assms unfolding safe_rules_def by blast
  then show ?thesis
    by (cases p) (simp add: FindCallerRegisters_def)
qed

lemma amd64_recover_yields: "yields (fresh_frame scan) (amd64_recover env frames last_frame scan sy)"
proof -
  have cfi: "fresh_frame scan f" if "amd64_GetCallerByCFIFrameInfo env last_frame c = Some (Some f)" for c f
    using that by (auto simp: amd64_GetCallerByCFIFrameInfo_def Option.bind_eq_Some_conv amd64_essentials_def Let_def
        is_dubious_def split: if_split_asm)
  have fp: "fresh_frame scan f" if "amd64_GetCallerByFramePointerRecovery env last_frame = Some f" for f
    using that by (auto simp: amd64_GetCallerByFramePointerRecovery_def Option.bind_eq_Some_conv Let_def is_dubious_def
        split: if_split_asm)
  have "yields (fresh_frame scan) (try_next scan (amd64_GetCallerByStackScan env last_frame)
         (try_next (os_short env \<noteq> ''windows'') (\<lambda>sy. Some (sy, amd64_GetCallerByFramePointerRecovery env last_frame))
           (try_next (is_context_frame last_frame \<and> os_short env = ''windows'')
             (amd64_GetCallerBySimulatingReturn env last_frame)
             (try_cfi last_frame (amd64_GetCallerByCFIFrameInfo env last_frame) sy))))"
    unfolding amd64_GetCallerByStackScan_def amd64_GetCallerBySimulatingReturn_def
    by (intro attempts) (auto simp: is_dubious_def Let_def split: option.splits prod.splits dest: cfi fp)
  then show ?thesis
    by (auto simp: amd64_recover_def yields_def fresh_frame_def)
qed

lemma amd64_recover_returns:
  assumes "stack_ok env" "safe_symbols TYPE(64) sy"
  shows "returns_safe TYPE(64) (amd64_recover env frames last_frame scan sy)"
proof -
  have cfi: "amd64_GetCallerByCFIFrameInfo env last_frame c \<noteq> None" if "safe_rules TYPE(64) c" for c
    using FindCallerRegisters_safe [OF that] by (fastforce simp: amd64_GetCallerByCFIFrameInfo_def)
  have "returns_safe TYPE(64) (try_next scan (amd64_GetCallerByStackScan env last_frame)
         (try_next (os_short env \<noteq> ''windows'') (\<lambda>sy. Some (sy, amd64_GetCallerByFramePointerRecovery env last_frame))
           (try_next (is_context_frame last_frame \<and> os_short env = ''windows'')
             (amd64_GetCallerBySimulatingReturn env last_frame)
             (try_cfi last_frame (amd64_GetCallerByCFIFrameInfo env last_frame) sy))))"
    unfolding amd64_GetCallerByStackScan_def amd64_GetCallerBySimulatingReturn_def
    by (intro attempts cfi assms) simp_all
  then show ?thesis
    by (auto simp: amd64_recover_def returns_safe_def)
qed

lemma amd64_context_frame:
  "amd64_GetContextFrame regs env = Some f \<Longrightarrow> trust (frame_info f) = FRAME_TRUST_CONTEXT \<and> frame_module f = None"
  by (auto simp: amd64_GetContextFrame_def)

interpretation amd64: safe_walker "amd64_GetContextFrame regs" amd64_GetCallerFrame amd64_ip amd64_sp
  for regs
  unfolding amd64_GetCallerFrame_def
  by (rule caller_step_safe_walker, rule caller_step_walker)
    (simp add: amd64_ip_def, simp add: amd64_sp_def, erule amd64_context_frame, rule amd64_recover_yields,
      erule (1) amd64_recover_returns)

end
