(* ===== verification/Walker_ARM.thy ===== *)
theory Walker_ARM
  imports Walker_Common
begin

text \<open>
  processor/stackwalker_arm.cc: the walker for 32-bit ARM. The number of the frame pointer register is a
  parameter, -1 where there is none.
\<close>

type_synonym FrameARM = "(nat, u32, u32) Frame"

abbreviation arm_SP :: nat where "arm_SP \<equiv> 13"
abbreviation arm_LR :: nat where "arm_LR \<equiv> 14"
abbreviation arm_PC :: nat where "arm_PC \<equiv> 15"

definition arm_GetContextFrame :: "(nat \<Rightarrow> u32) option \<Rightarrow> u32 WalkEnv \<Rightarrow> FrameARM option" where
  "arm_GetContextFrame context env =
     map_option (\<lambda>c. set_instruction (ucast (c arm_PC)) (new_frame FRAME_TRUST_CONTEXT c (- 1))) context"

text \<open>
  The names of the 16 registers of the array \<open>iregs\<close>, and those that follow in the same table. These
  have no validity flag, so they are never given to the rules, but a rule that yields one of them writes
  past the end of the array.
\<close>

definition arm_register_names :: "string list" where
  "arm_register_names =
     [''r0'', ''r1'', ''r2'', ''r3'', ''r4'', ''r5'', ''r6'', ''r7'', ''r8'', ''r9'', ''r10'', ''r11'', ''r12'',
      ''sp'', ''lr'', ''pc'']"

definition arm_names_past_end :: "string list" where
  "arm_names_past_end =
     [''f0'', ''f1'', ''f2'', ''f3'', ''f4'', ''f5'', ''f6'', ''f7'', ''fps'', ''cpsr'']"

text \<open>On iOS the rules give the link register, and the caller's address is in the callee's.\<close>

definition arm_recover_pc ::
  "int \<Rightarrow> u32 RegisterValueMap \<Rightarrow> (nat \<Rightarrow> u32) \<Rightarrow> (nat \<Rightarrow> u32) \<times> u32 \<Rightarrow> (nat \<Rightarrow> u32) \<times> u32" where
  "arm_recover_pc fp_register caller_registers last_iregs frame =
     (case frame of (iregs, validity) \<Rightarrow>
        if has_flag validity arm_PC then (iregs, validity)
        else (case caller_registers ''.ra'' of
            None \<Rightarrow> (iregs, validity)
          | Some ra \<Rightarrow>
              if fp_register = - 1 then (iregs(arm_PC := ra), validity OR register_flag arm_PC)
              else (iregs(arm_LR := ra, arm_PC := last_iregs arm_LR),
                    validity OR register_flag arm_PC OR register_flag arm_LR)))"

definition arm_cfi_frame ::
  "int \<Rightarrow> u32 RegisterValueMap \<Rightarrow> FrameARM \<Rightarrow> FrameARM option" where
  "arm_cfi_frame fp_register caller_registers last_frame =
     (let frame = recover_registers arm_register_names caller_registers (\<lambda>i. 4 \<le> i \<and> i \<le> 11)
            (cpu_context last_frame) (context_validity last_frame);
          frame = arm_recover_pc fp_register caller_registers (cpu_context last_frame) frame;
          (iregs, validity) = recover_from caller_registers arm_SP ''.cfa'' frame;
          essentials = register_flag arm_SP OR register_flag arm_PC
      in if validity AND essentials \<noteq> essentials then None else Some (new_frame FRAME_TRUST_CFI iregs validity))"

definition arm_GetCallerByCFIFrameInfo ::
  "int \<Rightarrow> u32 WalkEnv \<Rightarrow> FrameARM \<Rightarrow> CFIFrameInfo \<Rightarrow> FrameARM option option" where
  "arm_GetCallerByCFIFrameInfo fp_register env last_frame cfi_frame_info =
     Option.bind (FindCallerRegs cfi_frame_info
         (callee_dictionary arm_register_names (cpu_context last_frame) (context_validity last_frame))
         (read_memory env) Map.empty)
       (\<lambda>(caller_registers, ok).
         if \<not> ok then Some None
         else if list_ex (\<lambda>name. caller_registers name \<noteq> None) arm_names_past_end then None
         else Some (arm_cfi_frame fp_register caller_registers last_frame))"

definition arm_GetCallerByStackScan :: "u32 WalkEnv \<Rightarrow> FrameARM \<Rightarrow> Symbolizer \<Rightarrow> FrameARM attempt" where
  "arm_GetCallerByStackScan env last_frame sy =
     map_option (\<lambda>(sy, found). (sy, map_option (\<lambda>(caller_sp, caller_pc).
         new_frame FRAME_TRUST_SCAN
           ((cpu_context last_frame)(arm_PC := caller_pc, arm_SP := caller_sp + 4))
           (register_flag arm_PC OR register_flag arm_SP)) found))
       (ScanForReturnAddress_from env (cpu_context last_frame arm_SP) (is_context_frame last_frame) sy)"

definition arm_GetCallerByFramePointer :: "int \<Rightarrow> u32 WalkEnv \<Rightarrow> FrameARM \<Rightarrow> FrameARM option" where
  "arm_GetCallerByFramePointer fp_register env last_frame =
     (let fp = nat fp_register in
      if \<not> (0 \<le> fp_register \<and> fp_register \<le> 15 \<and> has_flag (context_validity last_frame) fp) then None
      else
        let last_fp = cpu_context last_frame fp;
            read = (\<lambda>a :: u32. if last_fp \<noteq> 0 then read_memory env (ucast a) else Some 0)
        in Option.bind (read last_fp) (\<lambda>caller_fp.
           Option.bind (read (last_fp + 4)) (\<lambda>caller_lr.
             let caller_sp = (if last_fp \<noteq> 0 then last_fp + 8 else cpu_context last_frame arm_SP)
             in Some (new_frame FRAME_TRUST_FP
               ((cpu_context last_frame)
                 (fp := caller_fp, arm_SP := caller_sp, arm_PC := cpu_context last_frame arm_LR, arm_LR := caller_lr))
               (register_flag arm_PC OR register_flag arm_LR OR register_flag fp OR register_flag arm_SP)))))"

definition arm_recover ::
  "int \<Rightarrow> u32 WalkEnv \<Rightarrow> FrameARM CallFrame list \<Rightarrow> FrameARM \<Rightarrow> bool \<Rightarrow> Symbolizer \<Rightarrow> FrameARM attempt" where
  "arm_recover fp_register env frames last_frame stack_scan_allowed sy =
     try_next stack_scan_allowed (arm_GetCallerByStackScan env last_frame)
       (try_next (0 \<le> fp_register) (\<lambda>sy. Some (sy, arm_GetCallerByFramePointer fp_register env last_frame))
         (if os_name env \<noteq> ''iOS'' then try_cfi last_frame (arm_GetCallerByCFIFrameInfo fp_register env last_frame) sy
          else Some (sy, None)))"

definition arm_ip :: "FrameARM \<Rightarrow> u64" where "arm_ip f = ucast (cpu_context f arm_PC)"
definition arm_sp :: "FrameARM \<Rightarrow> u64" where "arm_sp f = ucast (cpu_context f arm_SP)"

definition arm_GetCallerFrame :: "int \<Rightarrow> (FrameARM, u32) get_caller" where
  "arm_GetCallerFrame fp_register =
     caller_step arm_ip arm_sp (\<lambda>f. ucast (cpu_context f arm_PC - 2)) (arm_recover fp_register)"

section \<open>The laws of the walker\<close>

lemma arm_cfi_fresh:
  "arm_GetCallerByCFIFrameInfo fp_register env last_frame c = Some (Some f) \<Longrightarrow> fresh_frame scan f"
  by (auto simp: arm_GetCallerByCFIFrameInfo_def arm_cfi_frame_def Option.bind_eq_Some_conv Let_def is_dubious_def
      split: if_split_asm prod.split_asm)

lemma arm_fp_fresh: "arm_GetCallerByFramePointer fp_register env last_frame = Some f \<Longrightarrow> fresh_frame scan f"
  by (auto simp: arm_GetCallerByFramePointer_def Option.bind_eq_Some_conv Let_def is_dubious_def split: if_split_asm)

lemma arm_recover_yields: "yields (fresh_frame scan) (arm_recover fp_register env frames last_frame scan sy)"
proof -
  have "yields (fresh_frame scan) (if os_name env \<noteq> ''iOS''
      then try_cfi last_frame (arm_GetCallerByCFIFrameInfo fp_register env last_frame) sy else Some (sy, None))"
    using arm_cfi_fresh by (cases "os_name env = ''iOS''") (auto intro: attempts)
  then show ?thesis
    unfolding arm_recover_def arm_GetCallerByStackScan_def
    by (intro attempts) (auto simp: is_dubious_def dest: arm_fp_fresh)
qed

lemma arm_context_frame:
  "arm_GetContextFrame regs env = Some f \<Longrightarrow> trust (frame_info f) = FRAME_TRUST_CONTEXT \<and> frame_module f = None"
  by (auto simp: arm_GetContextFrame_def)

interpretation arm: cpu_walker "arm_GetContextFrame regs" "arm_GetCallerFrame fp_register" arm_ip arm_sp
  for regs fp_register
  unfolding arm_GetCallerFrame_def
  by (rule caller_step_walker)
    (simp add: arm_ip_def, simp add: arm_sp_def, erule arm_context_frame, rule arm_recover_yields)

text \<open>A rule for a register past the end of the array is undefined behaviour.\<close>

lemma arm_rule_past_end:
  assumes "env_memory env = Some mem" "os_name env \<noteq> ''iOS''"
    "Symbolizer_FindCFIFrameInfo sy (frame_info last_frame, frame_module last_frame) = Some c"
    "FindCallerRegs c (callee_dictionary arm_register_names (cpu_context last_frame) (context_validity last_frame))
       (read_memory env) Map.empty = Some (caller_registers, True)"
    "caller_registers ''f0'' \<noteq> None"
  shows "arm_GetCallerFrame fp_register env (frames @ [CpuFrame last_frame]) scan sy = None"
  using assms
  by (simp add: arm_GetCallerFrame_def caller_step_def arm_recover_def try_cfi_def try_next_def
      arm_GetCallerByCFIFrameInfo_def arm_names_past_end_def)

end
