(* ===== verification/Walker_ARM64.thy ===== *)
theory Walker_ARM64
  imports Walker_Common
begin

text \<open>
  processor/stackwalker_arm64.cc: the walker for 64-bit ARM. A context is the array of its integer
  registers: \<open>x0\<close> to \<open>x30\<close>, the stack pointer and the program counter.
\<close>

type_synonym FrameARM64 = "(nat, u64, u64) Frame"

abbreviation arm64_FP :: nat where "arm64_FP \<equiv> 29"
abbreviation arm64_LR :: nat where "arm64_LR \<equiv> 30"
abbreviation arm64_SP :: nat where "arm64_SP \<equiv> 31"
abbreviation arm64_PC :: nat where "arm64_PC \<equiv> 32"

text \<open>
  The highest address of a module, filled with ones below its highest one: the bits of an address that are
  not an authentication code.
\<close>

definition arm64_address_range_mask :: "CodeModules option \<Rightarrow> u64" where
  "arm64_address_range_mask modules =
     (case modules of
        None \<Rightarrow> 0xffffffffffffffff
      | Some ms \<Rightarrow>
          if module_count ms > 0 then
            let high_module = the (GetModuleAtSequence ms (of_nat (module_count ms) - 1));
                mask = base_address high_module + module_size high_module;
                mask = mask OR drop_bit 1 mask; mask = mask OR drop_bit 2 mask; mask = mask OR drop_bit 4 mask;
                mask = mask OR drop_bit 8 mask; mask = mask OR drop_bit 16 mask; mask = mask OR drop_bit 32 mask
            in mask
          else 0xffffffffffffffff)"

definition PtrauthStrip :: "u64 WalkEnv \<Rightarrow> u64 \<Rightarrow> u64" where
  "PtrauthStrip env ptr =
     (let stripped = ptr AND arm64_address_range_mask (env_modules env)
      in if in_loaded_module env stripped then stripped else ptr)"

definition arm64_GetContextFrame :: "(nat \<Rightarrow> u64) option \<Rightarrow> u64 WalkEnv \<Rightarrow> FrameARM64 option" where
  "arm64_GetContextFrame context env =
     map_option (\<lambda>iregs. set_instruction (iregs arm64_PC)
         (new_frame FRAME_TRUST_CONTEXT (iregs(arm64_LR := PtrauthStrip env (iregs arm64_LR))) (- 1)))
       context"

definition arm64_register_names :: "string list" where
  "arm64_register_names =
     [''x0'', ''x1'', ''x2'', ''x3'', ''x4'', ''x5'', ''x6'', ''x7'', ''x8'', ''x9'', ''x10'', ''x11'', ''x12'',
      ''x13'', ''x14'', ''x15'', ''x16'', ''x17'', ''x18'', ''x19'', ''x20'', ''x21'', ''x22'', ''x23'', ''x24'',
      ''x25'', ''x26'', ''x27'', ''x28'', ''x29'', ''x30'', ''sp'', ''pc'']"

definition arm64_GetCallerByCFIFrameInfo ::
  "u64 WalkEnv \<Rightarrow> FrameARM64 \<Rightarrow> CFIFrameInfo \<Rightarrow> FrameARM64 option option" where
  "arm64_GetCallerByCFIFrameInfo env last_frame cfi_frame_info =
     map_option (map_option (\<lambda>(iregs, validity).
         new_frame FRAME_TRUST_CFI (iregs(arm64_PC := PtrauthStrip env (iregs arm64_PC))) validity))
       (cfi_registers arm64_register_names (\<lambda>i. 19 \<le> i \<and> i \<le> 29) arm64_PC arm64_SP env
         (cpu_context last_frame) (context_validity last_frame) cfi_frame_info)"

definition arm64_GetCallerByStackScan ::
  "u64 WalkEnv \<Rightarrow> FrameARM64 \<Rightarrow> Symbolizer \<Rightarrow> (Symbolizer \<times> FrameARM64 option) option" where
  "arm64_GetCallerByStackScan env last_frame sy =
     map_option (\<lambda>(sy, found). (sy, map_option (\<lambda>(caller_sp, caller_pc).
         new_frame FRAME_TRUST_SCAN
           ((cpu_context last_frame)(arm64_PC := caller_pc, arm64_SP := caller_sp + 8))
           (register_flag arm64_PC OR register_flag arm64_SP)) found))
       (ScanForReturnAddress_from env (cpu_context last_frame arm64_SP) (is_context_frame last_frame) sy)"

text \<open>The closest frame before the last that was not inlined.\<close>

definition callee_of_last :: "'f CallFrame list \<Rightarrow> 'f option" where
  "callee_of_last frames =
     (case dropWhile (\<lambda>c. case c of InlineFrame _ _ \<Rightarrow> True | CpuFrame _ \<Rightarrow> False) (rev (butlast frames)) of
        CpuFrame f # _ \<Rightarrow> Some f
      | _ \<Rightarrow> None)"

text \<open>The link register of the last frame, as its callee saved it, if the frame pointers agree.\<close>

definition saved_lr :: "u64 WalkEnv \<Rightarrow> FrameARM64 CallFrame list \<Rightarrow> FrameARM64 \<Rightarrow> u64 option" where
  "saved_lr env frames last_frame =
     (if length frames < 2 \<or> cpu_context last_frame arm64_FP \<le> cpu_context last_frame arm64_SP then None
      else Option.bind (callee_of_last frames) (\<lambda>last_frame_callee.
        let last_frame_callee_fp = cpu_context last_frame_callee arm64_FP;
            read = (\<lambda>a. if last_frame_callee_fp \<noteq> 0 then read_memory env a else Some 0)
        in Option.bind (read last_frame_callee_fp) (\<lambda>last_fp.
             if cpu_context last_frame arm64_FP \<noteq> last_fp then None
             else map_option (PtrauthStrip env) (read (last_frame_callee_fp + 8)))))"

definition CorrectRegLRByFramePointer :: "u64 WalkEnv \<Rightarrow> FrameARM64 CallFrame list \<Rightarrow> FrameARM64 \<Rightarrow> FrameARM64" where
  "CorrectRegLRByFramePointer env frames last_frame =
     (case saved_lr env frames last_frame of
        None \<Rightarrow> last_frame
      | Some last_lr \<Rightarrow> last_frame\<lparr>cpu_context := (cpu_context last_frame)(arm64_LR := last_lr)\<rparr>)"

text \<open>The frames with the last one corrected, and the caller.\<close>

definition arm64_GetCallerByFramePointer ::
  "u64 WalkEnv \<Rightarrow> FrameARM64 CallFrame list \<Rightarrow> FrameARM64 \<Rightarrow> FrameARM64 \<times> FrameARM64 option" where
  "arm64_GetCallerByFramePointer env frames last_frame =
     (let last_frame = (if has_flag (context_validity last_frame) arm64_LR then last_frame
            else CorrectRegLRByFramePointer env frames last_frame);
          last_fp = cpu_context last_frame arm64_FP;
          read = (\<lambda>a. if last_fp \<noteq> 0 then read_memory env a else Some 0)
      in case read last_fp of
           None \<Rightarrow> (last_frame, None)
         | Some caller_fp \<Rightarrow>
             (case read (last_fp + 8) of
                None \<Rightarrow> (last_frame, None)
              | Some caller_lr \<Rightarrow>
                  (last_frame, Some (new_frame FRAME_TRUST_FP
                    ((cpu_context last_frame)
                      (arm64_FP := caller_fp,
                       arm64_SP := if last_fp \<noteq> 0 then last_fp + 16 else cpu_context last_frame arm64_SP,
                       arm64_PC := cpu_context last_frame arm64_LR,
                       arm64_LR := PtrauthStrip env caller_lr))
                    (register_flag arm64_PC OR register_flag arm64_LR OR register_flag arm64_FP OR register_flag arm64_SP)))))"

definition arm64_ip :: "FrameARM64 \<Rightarrow> u64" where "arm64_ip f = cpu_context f arm64_PC"
definition arm64_sp :: "FrameARM64 \<Rightarrow> u64" where "arm64_sp f = cpu_context f arm64_SP"

definition arm64_GetCallerFrame :: "(FrameARM64, u64) get_caller" where
  "arm64_GetCallerFrame env frames stack_scan_allowed sy =
     (if env_memory env = None then Some (sy, frames, None)
      else Option.bind (back_frame frames) (\<lambda>last_frame.
        Option.bind
          (case Symbolizer_FindCFIFrameInfo sy (frame_info last_frame, frame_module last_frame) of
             None \<Rightarrow> Some None
           | Some cfi_frame_info \<Rightarrow> arm64_GetCallerByCFIFrameInfo env last_frame cfi_frame_info) (\<lambda>frame.
        let (last_frame, frame) = (case frame of
               Some f \<Rightarrow> (last_frame, Some f)
             | None \<Rightarrow> arm64_GetCallerByFramePointer env frames last_frame);
            frames = replace_back frames last_frame
        in Option.bind
          (if stack_scan_allowed \<and> frame = None then arm64_GetCallerByStackScan env last_frame sy else Some (sy, frame))
          (\<lambda>(sy, frame). Some (sy, frames,
             Option.bind frame (finish_frame arm64_ip arm64_sp (\<lambda>f. arm64_ip f - 4) last_frame))))))"

section \<open>The laws of the walker\<close>

lemma CorrectRegLR_changes:
  "\<exists>lr. CorrectRegLRByFramePointer env frames f = f\<lparr>cpu_context := (cpu_context f)(arm64_LR := lr)\<rparr>"
proof (cases "saved_lr env frames f")
  case None
  then show ?thesis
    by (intro exI [of _ "cpu_context f arm64_LR"]) (simp add: CorrectRegLRByFramePointer_def)
next
  case (Some lr)
  then show ?thesis
    by (intro exI [of _ lr]) (simp add: CorrectRegLRByFramePointer_def)
qed

text \<open>With a link register and the two words at the frame pointer, the caller is found.\<close>

lemma arm64_follows_frame_pointer:
  assumes "has_flag (context_validity f) arm64_LR" "fp = cpu_context f arm64_FP"
    "(if fp \<noteq> 0 then read_memory env fp else Some 0) = Some fp'"
    "(if fp \<noteq> 0 then read_memory env (fp + 8) else Some 0) = Some lr'"
  shows "arm64_GetCallerByFramePointer env frames f = (f, Some (new_frame FRAME_TRUST_FP
     ((cpu_context f)(arm64_FP := fp', arm64_SP := if fp \<noteq> 0 then fp + 16 else cpu_context f arm64_SP,
        arm64_PC := cpu_context f arm64_LR, arm64_LR := PtrauthStrip env lr'))
     (register_flag arm64_PC OR register_flag arm64_LR OR register_flag arm64_FP OR register_flag arm64_SP)))"
  using assms by (cases "fp = 0") (simp_all add: arm64_GetCallerByFramePointer_def)

lemma arm64_FramePointer_changes:
  assumes "arm64_GetCallerByFramePointer env frames last_frame = (last_frame', frame)"
  obtains lr where "last_frame' = last_frame\<lparr>cpu_context := (cpu_context last_frame)(arm64_LR := lr)\<rparr>"
    "\<forall>f. frame = Some f \<longrightarrow> trust (frame_info f) = FRAME_TRUST_FP \<and> frame_module f = None"
proof -
  define corrected where "corrected = (if has_flag (context_validity last_frame) arm64_LR then last_frame
    else CorrectRegLRByFramePointer env frames last_frame)"
  have same: "last_frame = last_frame\<lparr>cpu_context := (cpu_context last_frame)(arm64_LR := cpu_context last_frame arm64_LR)\<rparr>"
    by simp
  obtain lr where "corrected = last_frame\<lparr>cpu_context := (cpu_context last_frame)(arm64_LR := lr)\<rparr>"
    using CorrectRegLR_changes [of env frames last_frame] same unfolding corrected_def by metis
  moreover have "last_frame' = corrected"
    using assms unfolding arm64_GetCallerByFramePointer_def corrected_def [symmetric]
    by (auto simp: Let_def split: option.splits)
  moreover have "\<forall>f. frame = Some f \<longrightarrow> trust (frame_info f) = FRAME_TRUST_FP \<and> frame_module f = None"
    using assms unfolding arm64_GetCallerByFramePointer_def corrected_def [symmetric]
    by (auto simp: Let_def split: option.splits)
  ultimately show ?thesis
    using that by simp
qed

lemma arm64_GetCallerFrame_cases:
  assumes "arm64_GetCallerFrame env frames scan sy = Some (sy', frames', caller)"
  obtains (no_memory) "env_memory env = None" "frames' = frames" "caller = None"
  | (step) fs last_frame lr where "frames = fs @ [CpuFrame last_frame]"
      "frames' = fs @ [CpuFrame (last_frame\<lparr>cpu_context := (cpu_context last_frame)(arm64_LR := lr)\<rparr>)]"
      "\<forall>f. caller = Some f \<longrightarrow> (\<exists>frame.
         finish_frame arm64_ip arm64_sp (\<lambda>f. arm64_ip f - 4)
           (last_frame\<lparr>cpu_context := (cpu_context last_frame)(arm64_LR := lr)\<rparr>) frame = Some f \<and>
         trust (frame_info frame) \<in> {FRAME_TRUST_CFI, FRAME_TRUST_FP} \<union> (if scan then {FRAME_TRUST_SCAN} else {}) \<and>
         frame_module frame = None)"
proof (cases "env_memory env")
  case None
  then show ?thesis
    using assms no_memory by (simp add: arm64_GetCallerFrame_def)
next
  case (Some mem)
  note env = Some
  obtain last_frame where last: "back_frame frames = Some last_frame"
    using assms Some by (auto simp: arm64_GetCallerFrame_def split: bind_splits)
  then obtain fs where fs: "frames = fs @ [CpuFrame last_frame]"
    by (auto simp: back_frame_Some)
  have same: "last_frame = last_frame\<lparr>cpu_context := (cpu_context last_frame)(arm64_LR := cpu_context last_frame arm64_LR)\<rparr>"
    by simp
  obtain cfi where cfi: "(case Symbolizer_FindCFIFrameInfo sy (frame_info last_frame, frame_module last_frame) of
             None \<Rightarrow> Some None
           | Some cfi_frame_info \<Rightarrow> arm64_GetCallerByCFIFrameInfo env last_frame cfi_frame_info) = Some cfi"
    using assms Some last by (auto simp: arm64_GetCallerFrame_def split: bind_splits)
  have cfi_trust: "\<forall>f. cfi = Some f \<longrightarrow> trust (frame_info f) = FRAME_TRUST_CFI \<and> frame_module f = None"
    using cfi by (auto simp: arm64_GetCallerByCFIFrameInfo_def split: option.splits)
  obtain last' frame where found: "(case cfi of Some f \<Rightarrow> (last_frame, Some f)
      | None \<Rightarrow> arm64_GetCallerByFramePointer env frames last_frame) = (last', frame)"
    by (meson surj_pair)
  obtain lr where lr: "last' = last_frame\<lparr>cpu_context := (cpu_context last_frame)(arm64_LR := lr)\<rparr>"
    and frame: "\<forall>f. frame = Some f \<longrightarrow> trust (frame_info f) \<in> {FRAME_TRUST_CFI, FRAME_TRUST_FP} \<and> frame_module f = None"
  proof (cases cfi)
    case None
    then show ?thesis
      using found that by (auto elim: arm64_FramePointer_changes)
  next
    case (Some f)
    then show ?thesis
      using found cfi_trust that [OF trans [OF _ same]] by auto
  qed
  define scanned where "scanned = (if scan \<and> frame = None then arm64_GetCallerByStackScan env last' sy else Some (sy, frame))"
  obtain frame2 where res: "scanned = Some (sy', frame2)" "frames' = replace_back frames last'"
    "caller = Option.bind frame2 (finish_frame arm64_ip arm64_sp (\<lambda>f. arm64_ip f - 4) last')"
    using assms env last cfi found unfolding arm64_GetCallerFrame_def scanned_def by (auto split: bind_splits)
  have "\<forall>f. frame2 = Some f \<longrightarrow> trust (frame_info f) \<in> {FRAME_TRUST_CFI, FRAME_TRUST_FP} \<union>
      (if scan then {FRAME_TRUST_SCAN} else {}) \<and> frame_module f = None"
    using res(1) frame unfolding scanned_def by (auto simp: arm64_GetCallerByStackScan_def split: if_splits)
  then show ?thesis
    using res(2,3) lr fs by (intro step [of fs last_frame lr]) (auto simp: replace_back_def split: bind_splits)
qed

lemma arm64_set_instruction [simp]: "arm64_ip (set_instruction i f) = arm64_ip f" "arm64_sp (set_instruction i f) = arm64_sp f"
  by (simp_all add: arm64_ip_def arm64_sp_def)

lemma arm64_returns:
  assumes "\<forall>mem. env_memory env = Some mem \<longrightarrow> memory_ok mem" "safe_symbols TYPE(64) sy"
  shows "\<exists>sy' frames' caller. arm64_GetCallerFrame env (frames @ [CpuFrame callee]) scan sy = Some (sy', frames', caller) \<and>
      safe_symbols TYPE(64) sy'"
proof (cases "env_memory env")
  case None
  then show ?thesis
    using assms(2) by (simp add: arm64_GetCallerFrame_def)
next
  case (Some mem)
  obtain cfi where cfi: "(case Symbolizer_FindCFIFrameInfo sy (frame_info callee, frame_module callee) of
             None \<Rightarrow> Some None
           | Some cfi_frame_info \<Rightarrow> arm64_GetCallerByCFIFrameInfo env callee cfi_frame_info) = Some cfi"
  proof (cases "Symbolizer_FindCFIFrameInfo sy (frame_info callee, frame_module callee)")
    case (Some c)
    then show ?thesis
      using cfi_registers_safe [OF FindCFIFrameInfo_safe [OF assms(2) Some]] that
      by (fastforce simp: arm64_GetCallerByCFIFrameInfo_def)
  qed (use that in simp)
  obtain last' frame where found: "(case cfi of Some f \<Rightarrow> (callee, Some f)
      | None \<Rightarrow> arm64_GetCallerByFramePointer env (frames @ [CpuFrame callee]) callee) = (last', frame)"
    by (meson surj_pair)
  obtain sy' res where "ScanForReturnAddress_from env (cpu_context last' arm64_SP) (is_context_frame last') sy = Some (sy', res)"
    "safe_symbols TYPE(64) sy'"
    by (rule ScanForReturnAddress_safe [OF _ _ Some _ assms(2)]) (use assms(1) Some in auto)
  then show ?thesis
    using Some cfi found assms(2) by (simp add: arm64_GetCallerFrame_def arm64_GetCallerByStackScan_def Let_def)
qed

interpretation arm64: safe_walker "arm64_GetContextFrame regs" arm64_GetCallerFrame arm64_ip arm64_sp
  for regs
proof
  fix env :: "u64 WalkEnv" and f g :: FrameARM64 and i m frames frames' caller callee scan sy sy'
  show "arm64_ip (f\<lparr>frame_info := i, frame_module := m\<rparr>) = arm64_ip f"
    "arm64_sp (f\<lparr>frame_info := i, frame_module := m\<rparr>) = arm64_sp f"
    by (simp_all add: arm64_ip_def arm64_sp_def)
  show "trust (frame_info f) = FRAME_TRUST_CONTEXT \<and> frame_module f = None"
    if "arm64_GetContextFrame regs env = Some f"
    using that by (auto simp: arm64_GetContextFrame_def)
  let ?view = "map_CallFrame (\<lambda>f. (arm64_ip f, arm64_sp f, frame_info f, frame_module f))"
  show "map ?view frames' = map ?view frames" if "arm64_GetCallerFrame env frames scan sy = Some (sy', frames', caller)"
    using that by (cases rule: arm64_GetCallerFrame_cases) (auto simp: arm64_ip_def arm64_sp_def)
  show "may_call (arm64_ip callee, arm64_sp callee, trust (frame_info callee)) (arm64_ip f, arm64_sp f, trust (frame_info f)) \<and>
      frame_module f = None"
    if "arm64_GetCallerFrame env (frames @ [CpuFrame callee]) scan sy = Some (sy', frames', Some f)"
    using that
  proof (cases rule: arm64_GetCallerFrame_cases)
    case (step fs last_frame lr)
    then show ?thesis
      by (auto dest!: finish_frame_may_call simp: arm64_ip_def arm64_sp_def split: if_splits)
  qed simp
  show "\<not> is_dubious (trust (frame_info f))"
    if "arm64_GetCallerFrame env frames False sy = Some (sy', frames', Some f)"
    using that
  proof (cases rule: arm64_GetCallerFrame_cases)
    case (step fs last_frame lr)
    then show ?thesis
      by (auto dest!: finish_frame_may_call simp: arm64_ip_def arm64_sp_def is_dubious_def)
  qed simp
  show "\<exists>sy' frames' caller. arm64_GetCallerFrame env (frames @ [CpuFrame callee]) scan sy = Some (sy', frames', caller) \<and>
      safe_symbols TYPE(64) sy'"
    if "\<forall>mem. env_memory env = Some mem \<longrightarrow> memory_ok mem" "safe_symbols TYPE(64) sy"
    by (rule arm64_returns [OF that])
qed

end
