(* ===== verification/Walker_MIPS.thy ===== *)
theory Walker_MIPS
  imports Walker_Common
begin

text \<open>
  processor/stackwalker_mips.cc: the walker for MIPS. It has one branch for words of 32 bits and one for
  words of 64 bits, which differ in the points marked below; the width of the words read from the stack
  chooses the branch. The registers of a context are 64 bits wide in both: the array of 32 integer
  registers, and the program counter under the number 34.
\<close>

type_synonym FrameMIPS = "(nat, u64, u32) Frame"

abbreviation mips_GP :: nat where "mips_GP \<equiv> 28"
abbreviation mips_SP :: nat where "mips_SP \<equiv> 29"
abbreviation mips_FP :: nat where "mips_FP \<equiv> 30"
abbreviation mips_RA :: nat where "mips_RA \<equiv> 31"
abbreviation mips_EPC :: nat where "mips_EPC \<equiv> 34"

definition mips_flag :: "nat \<Rightarrow> u32" where
  "mips_flag n =
     (if 16 \<le> n \<and> n \<le> 23 then register_flag (n - 16)
      else if 28 \<le> n \<and> n \<le> 31 then register_flag (n - 28 + 8)
      else if n = 34 then register_flag 12
      else 0)"

text \<open>
  The stack region is dropped when it reaches over the addresses of the CPU. For 32 bits the difference is
  computed with 64-bit numbers, so that a region that starts above them passes.
\<close>

definition mips_memory_64 :: "MinidumpMemoryRegion \<Rightarrow> 64 memory_region option" where
  "mips_memory_64 rg =
     (if 0xffffffffffffffff - GetBase rg < ucast (GetSize rg - 1) then None else Some (GetMemoryAtAddress rg))"

definition mips_memory_32 :: "MinidumpMemoryRegion \<Rightarrow> 32 memory_region option" where
  "mips_memory_32 rg =
     (if 0xffffffff - GetBase rg < ucast (GetSize rg - 1) then None else Some (GetMemoryAtAddress rg))"

definition mips_GetContextFrame :: "(nat \<Rightarrow> u64) option \<Rightarrow> 'w::len word WalkEnv \<Rightarrow> FrameMIPS option" where
  "mips_GetContextFrame context env =
     map_option (\<lambda>c. set_instruction (c mips_EPC) (new_frame FRAME_TRUST_CONTEXT c (- 1))) context"

definition mips_register_names :: "string list" where
  "mips_register_names =
     [''$zero'', ''$at'', ''$v0'', ''$v1'', ''$a0'', ''$a1'', ''$a2'', ''$a3'', ''$to'', ''$t1'', ''$t2'', ''$t3'',
      ''$t4'', ''$t5'', ''$t6'', ''$t7'', ''$s0'', ''$s1'', ''$s2'', ''$s3'', ''$s4'', ''$s5'', ''$s6'', ''$s7'',
      ''$t8'', ''$t9'', ''$k0'', ''$k1'', ''$gp'', ''$sp'', ''$fp'', ''$ra'']"

text \<open>All registers of the callee are given to the rules, valid or not.\<close>

definition mips_callee_registers :: "(nat \<Rightarrow> u64) \<Rightarrow> 'w::len word RegisterValueMap" where
  "mips_callee_registers iregs =
     fold (\<lambda>(i, name) m. m(name \<mapsto> ucast (iregs i))) (enumerate 0 mips_register_names) Map.empty"

text \<open>The 64-bit branch also keeps the global pointer.\<close>

definition mips_callee_saves :: "'w::len itself \<Rightarrow> nat \<Rightarrow> bool" where
  "mips_callee_saves t i \<longleftrightarrow> (16 \<le> i \<and> i \<le> 23) \<or>
     ((if LENGTH('w) = 32 then mips_GP < i else mips_GP \<le> i) \<and> i < mips_RA)"

definition mips_recover_register ::
  "'w::len word RegisterValueMap \<Rightarrow> FrameMIPS \<Rightarrow> nat \<times> string \<Rightarrow> (nat \<Rightarrow> u64) \<times> u32 \<Rightarrow> (nat \<Rightarrow> u64) \<times> u32" where
  "mips_recover_register caller_registers last_frame r frame =
     (case (r, frame) of ((i, name), (iregs, validity)) \<Rightarrow>
        (case caller_registers name of
           Some v \<Rightarrow> (iregs(i := ucast v), validity OR mips_flag i)
         | None \<Rightarrow>
             if mips_callee_saves TYPE('w) i \<and> context_validity last_frame AND mips_flag i \<noteq> 0 then
               (iregs(i := cpu_context last_frame i), validity OR mips_flag i)
             else (iregs, validity)))"

text \<open>The program counter is put two words before the return address.\<close>

definition mips_cfi_frame :: "'w::len word RegisterValueMap \<Rightarrow> FrameMIPS \<Rightarrow> FrameMIPS" where
  "mips_cfi_frame caller_registers last_frame =
     (let caller_registers = (case caller_registers ''.cfa'' of
             Some v \<Rightarrow> caller_registers(''$sp'' \<mapsto> v) | None \<Rightarrow> caller_registers);
          (caller_registers, pc) = (case caller_registers ''.ra'' of
             Some v \<Rightarrow> (caller_registers(''$ra'' \<mapsto> v), v - 2 * of_nat (word_size TYPE('w)))
           | None \<Rightarrow> (caller_registers, 0));
          (iregs, validity) = fold (mips_recover_register caller_registers last_frame)
            (enumerate 0 mips_register_names) (\<lambda>_. 0, 0);
          ra = (case caller_registers ''$ra'' of Some v \<Rightarrow> v | None \<Rightarrow> 0)
      in set_instruction (ucast pc) (new_frame FRAME_TRUST_CFI
           (iregs(mips_EPC := ucast pc, mips_RA := ucast ra)) (validity OR mips_flag mips_EPC OR mips_flag mips_RA)))"

definition mips_GetCallerByCFIFrameInfo ::
  "'w::len word WalkEnv \<Rightarrow> FrameMIPS \<Rightarrow> CFIFrameInfo \<Rightarrow> FrameMIPS option option" where
  "mips_GetCallerByCFIFrameInfo env last_frame cfi_frame_info =
     (let callee_registers = mips_callee_registers (cpu_context last_frame) in
      map_option (\<lambda>(caller_registers, ok). if ok then Some (mips_cfi_frame caller_registers last_frame) else None)
        (FindCallerRegs cfi_frame_info callee_registers (read_memory env) callee_registers))"

definition kMaxFrameStackSize :: nat where "kMaxFrameStackSize = 1024"
definition kMinArgsOnStack :: nat where "kMinArgsOnStack = 4"

text \<open>
  The loop of the scan: a return address counts only if the word below it is close above as a frame
  pointer. Of the words searched, those where an address was found are not counted.
\<close>

partial_function (option) mips_scan_loop ::
  "'w::len word WalkEnv \<Rightarrow> 'w word \<Rightarrow> int \<Rightarrow> Symbolizer \<Rightarrow> (Symbolizer \<times> ('w word \<times> 'w word \<times> 'w word) option) option" where
  "mips_scan_loop env last_sp words sy =
     Option.bind (ScanForReturnAddress env last_sp (nat words) sy) (\<lambda>(sy, found).
       case found of
         None \<Rightarrow> Some (sy, None)
       | Some (caller_sp, caller_pc) \<Rightarrow>
           (case read_memory env (ucast caller_sp - of_nat (word_size TYPE('w))) of
              None \<Rightarrow> Some (sy, None)
            | Some caller_fp \<Rightarrow>
                if of_nat kMaxFrameStackSize \<le> caller_fp - caller_sp \<and>
                   0 < words - uint (caller_sp - last_sp) div int (word_size TYPE('w))
                then mips_scan_loop env (caller_sp + of_nat (word_size TYPE('w)))
                  (words - uint (caller_sp - last_sp) div int (word_size TYPE('w))) sy
                else if words - uint (caller_sp - last_sp) div int (word_size TYPE('w)) = 0 then Some (sy, None)
                else Some (sy, Some (caller_sp, caller_pc, caller_fp))))"

declare mips_scan_loop.simps [code]

text \<open>
  Only the 32-bit branch skips the words for arguments, in frames that are not the first of the list, which
  may be one of a function inlined in the context frame.
\<close>

definition mips_scan_start ::
  "FrameMIPS CallFrame list \<Rightarrow> FrameMIPS \<Rightarrow> 'w::len word \<times> int" where
  "mips_scan_start frames last_frame =
     (let n = word_size TYPE('w); last_sp = ucast (cpu_context last_frame mips_SP);
          words = int (kMaxFrameStackSize div n)
      in if LENGTH('w) = 32 \<and> length frames > 1 then
           (last_sp + of_nat (kMinArgsOnStack * n), words - int kMinArgsOnStack)
         else (last_sp, words))"

definition mips_scanned_frame :: "FrameMIPS \<Rightarrow> 'w::len word \<times> 'w word \<times> 'w word \<Rightarrow> FrameMIPS" where
  "mips_scanned_frame last_frame found =
     (case found of (caller_sp, caller_pc, caller_fp) \<Rightarrow>
        let n = of_nat (word_size TYPE('w)); caller_pc = caller_pc - 2 * n
        in set_instruction (ucast caller_pc) (new_frame FRAME_TRUST_SCAN
             ((cpu_context last_frame)
               (mips_EPC := ucast caller_pc, mips_SP := ucast (caller_sp + n), mips_FP := ucast caller_fp,
                mips_RA := ucast caller_pc + 2 * of_nat (word_size TYPE('w))))
             (mips_flag mips_EPC OR mips_flag mips_SP OR mips_flag mips_FP OR mips_flag mips_RA)))"

definition mips_GetCallerByStackScan ::
  "'w::len word WalkEnv \<Rightarrow> FrameMIPS CallFrame list \<Rightarrow> FrameMIPS \<Rightarrow> Symbolizer \<Rightarrow> FrameMIPS attempt" where
  "mips_GetCallerByStackScan env frames last_frame sy =
     (let (last_sp, words) = mips_scan_start frames last_frame
      in map_option (\<lambda>(sy, found). (sy, map_option (mips_scanned_frame last_frame) found))
        (mips_scan_loop env last_sp words sy))"

definition mips_recover ::
  "'w::len word WalkEnv \<Rightarrow> FrameMIPS CallFrame list \<Rightarrow> FrameMIPS \<Rightarrow> bool \<Rightarrow> Symbolizer \<Rightarrow> FrameMIPS attempt" where
  "mips_recover env frames last_frame stack_scan_allowed sy =
     try_next stack_scan_allowed (mips_GetCallerByStackScan env frames last_frame)
       (try_cfi last_frame (mips_GetCallerByCFIFrameInfo env last_frame) sy)"

definition mips_ip :: "FrameMIPS \<Rightarrow> u64" where "mips_ip f = cpu_context f mips_EPC"
definition mips_sp :: "FrameMIPS \<Rightarrow> u64" where "mips_sp f = cpu_context f mips_SP"

definition mips_GetCallerFrame :: "(FrameMIPS, 'w::len word) get_caller" where
  "mips_GetCallerFrame = caller_step mips_ip mips_sp mips_ip mips_recover"

section \<open>The laws of the walker\<close>

lemma fresh_set_instruction [simp]: "fresh_frame scan (set_instruction i f) = fresh_frame scan f"
  by (simp add: fresh_frame_def)

lemma mips_recover_yields: "yields (fresh_frame scan) (mips_recover env frames last_frame scan sy)"
proof -
  have cfi: "fresh_frame scan f" if "mips_GetCallerByCFIFrameInfo env last_frame c = Some (Some f)" for c f
    using that by (auto simp: mips_GetCallerByCFIFrameInfo_def mips_cfi_frame_def Let_def is_dubious_def
        split: prod.splits if_split_asm)
  show ?thesis
    unfolding mips_recover_def mips_GetCallerByStackScan_def case_prod_unfold Let_def
    by (intro attempts) (auto simp: yields_def mips_scanned_frame_def Let_def is_dubious_def dest: cfi)
qed

lemma mips_context_frame:
  "mips_GetContextFrame regs env = Some f \<Longrightarrow> trust (frame_info f) = FRAME_TRUST_CONTEXT \<and> frame_module f = None"
  by (auto simp: mips_GetContextFrame_def)

text \<open>The scans of one loop move up the stack, so the loop ends where the stack does.\<close>

lemma scan_from_above:
  "scan_from env limit location sy = Some res \<Longrightarrow> snd res = Some found \<Longrightarrow> 32 \<le> LENGTH('w) \<Longrightarrow> LENGTH('w) \<le> 64 \<Longrightarrow>
   env_memory env = Some mem \<Longrightarrow> memory_ok mem \<Longrightarrow>
   unat (location :: 'w::len word) \<le> unat (fst found) \<and> mem (ucast (fst found)) \<noteq> None \<and> mem (ucast location) \<noteq> None"
proof (induction rule: scan_from.raw_induct [rotated, consumes 1, case_names step])
  case (step scan env limit location sy res)
  let ?next = "location + of_nat (word_size TYPE('w))"
  consider (here) ip where "found = (location, ip)" "mem (ucast location) = Some ip"
    | (later) sy1 ip where "scan env limit ?next sy1 = Some res" "mem (ucast location) = Some ip"
    using step(2,3,6) by (auto simp: read_memory_def split: if_splits option.splits bind_splits)
  then show ?case
  proof cases
    case later
    note above = step(1) [OF later(1) step(3-7)]
    then have "unat ?next = unat location + word_size TYPE('w)"
      using scan_next [OF step(4,5,7)] later(2) by simp
    then show ?thesis
      using above later(2) by simp
  qed simp
qed

lemma mips_scan_loop_returns:
  fixes env :: "'w::len word WalkEnv"
  assumes "32 \<le> LENGTH('w)" "LENGTH('w) \<le> 64" "env_memory env = Some mem" "memory_ok mem" "safe_symbols t sy"
  shows "\<exists>sy' found. mips_scan_loop env last_sp words sy = Some (sy', found) \<and> safe_symbols t sy'"
  using assms(5)
proof (induction "2 ^ LENGTH('w) - unat last_sp" arbitrary: last_sp words sy rule: less_induct)
  case less
  let ?n = "word_size TYPE('w)"
  obtain sy1 found where s: "ScanForReturnAddress env last_sp (nat words) sy = Some (sy1, found)" "safe_symbols t sy1"
    using scan_from_returns [OF assms(1-4) less(2)] unfolding ScanForReturnAddress_def by blast
  show ?case
  proof (cases found)
    case None
    then show ?thesis
      using s by (subst mips_scan_loop.simps) simp
  next
    case (Some p)
    obtain caller_sp caller_pc where p: "p = (caller_sp, caller_pc)" by (cases p)
    have above: "unat last_sp \<le> unat caller_sp" "mem (ucast caller_sp) \<noteq> None"
      using scan_from_above [OF s(1) [unfolded ScanForReturnAddress_def], of p mem] Some p assms(1-4) by auto
    have "\<exists>sy' found. mips_scan_loop env (caller_sp + of_nat ?n) words' sy1 = Some (sy', found) \<and> safe_symbols t sy'"
      for words'
    proof (cases "mem (ucast (caller_sp + of_nat ?n))")
      case None
      then have "ScanForReturnAddress env (caller_sp + of_nat ?n) (nat words') sy1 = Some (sy1, None)"
        unfolding ScanForReturnAddress_def by (subst scan_from.simps) (simp add: read_memory_def assms(3))
      then show ?thesis
        using s(2) by (subst mips_scan_loop.simps) simp
    next
      case (Some v)
      then have "unat (caller_sp + of_nat ?n) = unat caller_sp + ?n"
        using scan_next [OF assms(1,2,4) above(2)] by simp
      then show ?thesis
        using assms(1) unsigned_less [of "caller_sp + of_nat ?n", where 'a = nat] above(1)
        by (intro less(1) [OF _ s(2)]) simp
    qed
    then show ?thesis
      using s Some p by (subst mips_scan_loop.simps) (auto split: option.splits)
  qed
qed

text \<open>The rules are applied to an empty map of the caller's registers or one that is not, and fail alike.\<close>

lemma mips_cfi_returns:
  fixes env :: "'w::len word WalkEnv"
  assumes "safe_rules TYPE('w) c"
  shows "mips_GetCallerByCFIFrameInfo env last_frame c \<noteq> None"
proof -
  obtain p where "FindCallerRegs c (mips_callee_registers (cpu_context last_frame)) (read_memory env) Map.empty = Some p"
    using assms unfolding safe_rules_def by blast
  then have "FindCallerRegs c (mips_callee_registers (cpu_context last_frame)) (read_memory env)
      (mips_callee_registers (cpu_context last_frame)) \<noteq> None"
    by (auto simp: FindCallerRegs_def split: if_splits)
  then show ?thesis
    by (auto simp: mips_GetCallerByCFIFrameInfo_def)
qed

lemma mips_recover_returns:
  fixes env :: "'w::len word WalkEnv"
  assumes "32 \<le> LENGTH('w)" "LENGTH('w) \<le> 64" "stack_ok env" "safe_symbols TYPE('w) sy"
  shows "returns_safe TYPE('w) (mips_recover env frames last_frame scan sy)"
proof -
  obtain mem where mem: "env_memory env = Some mem" "memory_ok mem"
    using assms(3) by (auto simp: stack_ok_def)
  have scanned: "returns_safe TYPE('w) (mips_GetCallerByStackScan env frames last_frame sy1)"
    if "safe_symbols TYPE('w) sy1" for sy1
    using mips_scan_loop_returns [OF assms(1,2) mem that]
    by (fastforce simp: returns_safe_def mips_GetCallerByStackScan_def split: prod.splits)
  have cfi: "mips_GetCallerByCFIFrameInfo env last_frame c \<noteq> None" if "safe_rules TYPE('w) c" for c
    using mips_cfi_returns [OF that] .
  show ?thesis
    unfolding mips_recover_def by (intro attempts cfi scanned assms)
qed

lemma mips_walker: "cpu_walker (mips_GetContextFrame regs) mips_GetCallerFrame mips_ip mips_sp"
  unfolding mips_GetCallerFrame_def
  by (rule caller_step_walker)
    (simp add: mips_ip_def, simp add: mips_sp_def, erule mips_context_frame, rule mips_recover_yields)

interpretation mips: safe_walker "mips_GetContextFrame regs :: u32 WalkEnv \<Rightarrow> _" mips_GetCallerFrame mips_ip mips_sp
  for regs
  unfolding mips_GetCallerFrame_def
  by (rule caller_step_safe_walker, rule mips_walker [unfolded mips_GetCallerFrame_def])
    (rule mips_recover_returns, simp_all)

interpretation mips64: safe_walker "mips_GetContextFrame regs :: u64 WalkEnv \<Rightarrow> _" mips_GetCallerFrame mips_ip mips_sp
  for regs
  unfolding mips_GetCallerFrame_def
  by (rule caller_step_safe_walker, rule mips_walker [unfolded mips_GetCallerFrame_def])
    (rule mips_recover_returns, simp_all)

end
