(* ===== verification/Walker_PPC.thy ===== *)
theory Walker_PPC
  imports Walker_Common
begin

text \<open>
  processor/stackwalker_ppc.cc, stackwalker_ppc64.cc and stackwalker_sparc.cc: the walkers that follow the
  chain of stack pointers. The two PowerPC walkers are the same code for words of 32 and 64 bits, but for
  the place of the return address and the size of an instruction.
\<close>

section \<open>PowerPC\<close>

datatype RegPPC = SRR0 | GPR nat

type_synonym 'w FramePPC = "(RegPPC, 'w word, u32) Frame"

abbreviation VALID_SRR0 :: u32 where "VALID_SRR0 \<equiv> register_flag 0"
abbreviation VALID_GPR1 :: u32 where "VALID_GPR1 \<equiv> register_flag 1"

text \<open>
  The 32-bit walkers drop a stack region that reaches over the addresses of the CPU, when they are made.
\<close>

definition memory_32 :: "MinidumpMemoryRegion \<Rightarrow> 32 memory_region option" where
  "memory_32 rg =
     (if 0xffffffff < GetBase rg + ucast (GetSize rg) - 1 then None else Some (GetMemoryAtAddress rg))"

definition ppc_GetContextFrame :: "(RegPPC \<Rightarrow> 'w::len word) option \<Rightarrow> 'w word WalkEnv \<Rightarrow> 'w FramePPC option" where
  "ppc_GetContextFrame context env =
     map_option (\<lambda>c. set_instruction (ucast (c SRR0)) (new_frame FRAME_TRUST_CONTEXT c (- 1))) context"

definition ppc_recover ::
  "'w::len word WalkEnv \<Rightarrow> 'w FramePPC CallFrame list \<Rightarrow> 'w FramePPC \<Rightarrow> bool \<Rightarrow> Symbolizer \<Rightarrow> 'w FramePPC attempt" where
  "ppc_recover env frames last_frame stack_scan_allowed sy = Some (sy,
     (case read_memory env (ucast (cpu_context last_frame (GPR 1))) of
        None \<Rightarrow> None
      | Some stack_pointer \<Rightarrow>
          if stack_pointer \<le> cpu_context last_frame (GPR 1) then None
          else case read_memory env (ucast (stack_pointer + 2 * of_nat (word_size TYPE('w)))) of
            None \<Rightarrow> None
          | Some instr \<Rightarrow>
              if instr \<le> 1 then None
              else Some (new_frame FRAME_TRUST_FP
                ((cpu_context last_frame)(SRR0 := instr, GPR 1 := stack_pointer)) (VALID_SRR0 OR VALID_GPR1))))"

definition ppc_ip :: "'w::len FramePPC \<Rightarrow> u64" where "ppc_ip f = ucast (cpu_context f SRR0)"
definition ppc_sp :: "'w::len FramePPC \<Rightarrow> u64" where "ppc_sp f = ucast (cpu_context f (GPR 1))"

text \<open>The call lies a word before the return address, also on the 64-bit CPU.\<close>

definition ppc_GetCallerFrame :: "('w::len FramePPC, 'w word) get_caller" where
  "ppc_GetCallerFrame =
     caller_step ppc_ip ppc_sp (\<lambda>f. ucast (cpu_context f SRR0 - of_nat (word_size TYPE('w)))) ppc_recover"

lemma ppc_recover_yields: "yields (fresh_frame scan) (ppc_recover env frames last_frame scan sy)"
  unfolding ppc_recover_def by (rule yields_Some) (auto simp: is_dubious_def split: option.splits if_split_asm)

lemma ppc_context_frame:
  "ppc_GetContextFrame regs env = Some f \<Longrightarrow> trust (frame_info f) = FRAME_TRUST_CONTEXT \<and> frame_module f = None"
  by (auto simp: ppc_GetContextFrame_def)

interpretation ppc: safe_walker "ppc_GetContextFrame regs" ppc_GetCallerFrame ppc_ip ppc_sp
  for regs
  unfolding ppc_GetCallerFrame_def
  by (rule caller_step_safe_walker, rule caller_step_walker)
    (simp add: ppc_ip_def, simp add: ppc_sp_def, erule ppc_context_frame, rule ppc_recover_yields,
      simp add: ppc_recover_def returns_Some)

section \<open>SPARC\<close>

text \<open>The registers are 64 bits wide, the words read from the stack 32.\<close>

datatype RegSPARC = SPARC_PC | G_R nat

type_synonym FrameSPARC = "(RegSPARC, u64, u32) Frame"

definition sparc_GetContextFrame :: "(RegSPARC \<Rightarrow> u64) option \<Rightarrow> u32 WalkEnv \<Rightarrow> FrameSPARC option" where
  "sparc_GetContextFrame context env =
     map_option (\<lambda>c. set_instruction (c SPARC_PC) (new_frame FRAME_TRUST_CONTEXT c (- 1))) context"

definition sparc_recover ::
  "u32 WalkEnv \<Rightarrow> FrameSPARC CallFrame list \<Rightarrow> FrameSPARC \<Rightarrow> bool \<Rightarrow> Symbolizer \<Rightarrow> FrameSPARC attempt" where
  "sparc_recover env frames last_frame stack_scan_allowed sy = Some (sy,
     (let stack_pointer = cpu_context last_frame (G_R 30) in
      if stack_pointer \<le> cpu_context last_frame (G_R 14) then None
      else case read_memory env (stack_pointer + 60) of
        None \<Rightarrow> None
      | Some instr \<Rightarrow>
          if instr \<le> 1 then None
          else case read_memory env (stack_pointer + 56) of
            None \<Rightarrow> None
          | Some stack_base \<Rightarrow>
              if stack_base \<le> 1 then None
              else Some (new_frame FRAME_TRUST_FP
                ((cpu_context last_frame)
                  (G_R 14 := stack_pointer, G_R 30 := ucast stack_base, SPARC_PC := ucast (instr + 8)))
                (register_flag 0 OR register_flag 1 OR register_flag 2))))"

text \<open>The call is the word read from the stack, two instructions before the program counter.\<close>

definition sparc_ip :: "FrameSPARC \<Rightarrow> u64" where
  "sparc_ip f = ucast ((ucast (cpu_context f SPARC_PC) :: u32) - 8)"
definition sparc_sp :: "FrameSPARC \<Rightarrow> u64" where "sparc_sp f = cpu_context f (G_R 14)"

definition sparc_GetCallerFrame :: "(FrameSPARC, u32) get_caller" where
  "sparc_GetCallerFrame = caller_step sparc_ip sparc_sp sparc_ip sparc_recover"

lemma sparc_recover_yields: "yields (fresh_frame scan) (sparc_recover env frames last_frame scan sy)"
  unfolding sparc_recover_def
  by (rule yields_Some) (auto simp: is_dubious_def Let_def split: option.splits if_split_asm)

lemma sparc_context_frame:
  "sparc_GetContextFrame regs env = Some f \<Longrightarrow> trust (frame_info f) = FRAME_TRUST_CONTEXT \<and> frame_module f = None"
  by (auto simp: sparc_GetContextFrame_def)

interpretation sparc: safe_walker "sparc_GetContextFrame regs" sparc_GetCallerFrame sparc_ip sparc_sp
  for regs
  unfolding sparc_GetCallerFrame_def
  by (rule caller_step_safe_walker, rule caller_step_walker)
    (simp add: sparc_ip_def, simp add: sparc_sp_def, erule sparc_context_frame, rule sparc_recover_yields,
      simp add: sparc_recover_def returns_Some)

end
