(* ===== verification/Walker_RISCV.thy ===== *)
theory Walker_RISCV
  imports Walker_Common
begin

text \<open>
  processor/stackwalker_riscv.cc and stackwalker_riscv64.cc, which are the same code for words of 32 and 64
  bits. Registers are numbered by their validity bits: the program counter, then \<open>ra\<close>,
  \<open>sp\<close> and so on.
\<close>

type_synonym 'w FrameRISCV = "(nat, 'w word, u32) Frame"

abbreviation riscv_PC :: nat where "riscv_PC \<equiv> 0"
abbreviation riscv_RA :: nat where "riscv_RA \<equiv> 1"
abbreviation riscv_SP :: nat where "riscv_SP \<equiv> 2"
abbreviation riscv_S0 :: nat where "riscv_S0 \<equiv> 8"

definition riscv_GetContextFrame ::
  "(nat \<Rightarrow> 'w::len word) option \<Rightarrow> 'w word WalkEnv \<Rightarrow> 'w FrameRISCV option" where
  "riscv_GetContextFrame context env =
     map_option (\<lambda>c. set_instruction (ucast (c riscv_PC)) (new_frame FRAME_TRUST_CONTEXT c (- 1))) context"

definition riscv_register_names :: "string list" where
  "riscv_register_names =
     [''pc'', ''ra'', ''sp'', ''gp'', ''tp'', ''t0'', ''t1'', ''t2'', ''s0'', ''s1'', ''a0'', ''a1'', ''a2'', ''a3'',
      ''a4'', ''a5'', ''a6'', ''a7'', ''s2'', ''s3'', ''s4'', ''s5'', ''s6'', ''s7'', ''s8'', ''s9'', ''s10'', ''s11'',
      ''t3'', ''t4'', ''t5'', ''t6'']"

text \<open>\<open>s0\<close>, \<open>s1\<close> and \<open>s2\<close> to \<open>s11\<close> are saved by the callee.\<close>

definition riscv_callee_saves :: "nat \<Rightarrow> bool" where
  "riscv_callee_saves i \<longleftrightarrow> i \<in> {8, 9} \<union> {18..27}"

definition riscv_GetCallerByCFIFrameInfo ::
  "'w::len word WalkEnv \<Rightarrow> 'w FrameRISCV \<Rightarrow> CFIFrameInfo \<Rightarrow> 'w FrameRISCV option option" where
  "riscv_GetCallerByCFIFrameInfo env last_frame cfi_frame_info =
     map_option (map_option (\<lambda>(context, validity). new_frame FRAME_TRUST_CFI context validity))
       (cfi_registers riscv_register_names riscv_callee_saves riscv_PC riscv_SP env
         (cpu_context last_frame) (context_validity last_frame) cfi_frame_info)"

definition riscv_GetCallerByStackScan ::
  "'w::len word WalkEnv \<Rightarrow> 'w FrameRISCV \<Rightarrow> Symbolizer \<Rightarrow> 'w FrameRISCV attempt" where
  "riscv_GetCallerByStackScan env last_frame sy =
     map_option (\<lambda>(sy, found). (sy, map_option (\<lambda>(caller_sp, caller_pc).
         new_frame FRAME_TRUST_SCAN
           ((cpu_context last_frame)(riscv_PC := caller_pc, riscv_SP := caller_sp + of_nat (word_size TYPE('w))))
           (register_flag riscv_PC OR register_flag riscv_SP)) found))
       (ScanForReturnAddress_from env (cpu_context last_frame riscv_SP) (is_context_frame last_frame) sy)"

text \<open>Without a frame pointer the stack pointer is taken from \<open>s0\<close>, which is then 0.\<close>

definition riscv_GetCallerByFramePointer ::
  "'w::len word WalkEnv \<Rightarrow> 'w FrameRISCV \<Rightarrow> 'w FrameRISCV option" where
  "riscv_GetCallerByFramePointer env last_frame =
     (let last_fp = cpu_context last_frame riscv_S0;
          n = of_nat (word_size TYPE('w));
          read = (\<lambda>a. if last_fp \<noteq> 0 then read_memory env (ucast a) else Some 0)
      in Option.bind (read last_fp) (\<lambda>caller_fp.
         Option.bind (read (last_fp + n)) (\<lambda>caller_ra.
           let caller_sp = (if last_fp \<noteq> 0 then last_fp + 2 * n else cpu_context last_frame riscv_S0)
           in Some (new_frame FRAME_TRUST_FP
             ((cpu_context last_frame)
               (riscv_S0 := caller_fp, riscv_SP := caller_sp, riscv_PC := cpu_context last_frame riscv_RA,
                riscv_RA := caller_ra))
             (register_flag riscv_PC OR register_flag riscv_RA OR register_flag riscv_S0 OR register_flag riscv_SP)))))"

definition riscv_recover ::
  "'w::len word WalkEnv \<Rightarrow> 'w FrameRISCV CallFrame list \<Rightarrow> 'w FrameRISCV \<Rightarrow> bool \<Rightarrow> Symbolizer \<Rightarrow> 'w FrameRISCV attempt" where
  "riscv_recover env frames last_frame stack_scan_allowed sy =
     try_next stack_scan_allowed (riscv_GetCallerByStackScan env last_frame)
       (try_next True (\<lambda>sy. Some (sy, riscv_GetCallerByFramePointer env last_frame))
         (try_cfi last_frame (riscv_GetCallerByCFIFrameInfo env last_frame) sy))"

definition riscv_ip :: "'w::len FrameRISCV \<Rightarrow> u64" where "riscv_ip f = ucast (cpu_context f riscv_PC)"
definition riscv_sp :: "'w::len FrameRISCV \<Rightarrow> u64" where "riscv_sp f = ucast (cpu_context f riscv_SP)"

definition riscv_GetCallerFrame :: "('w::len FrameRISCV, 'w word) get_caller" where
  "riscv_GetCallerFrame =
     caller_step riscv_ip riscv_sp (\<lambda>f. ucast (cpu_context f riscv_PC - 4)) riscv_recover"

section \<open>The laws of the walker\<close>

lemma riscv_recover_yields: "yields (fresh_frame scan) (riscv_recover env frames last_frame scan sy)"
proof -
  have cfi: "fresh_frame scan f" if "riscv_GetCallerByCFIFrameInfo env last_frame c = Some (Some f)" for c f
    using that by (auto simp: riscv_GetCallerByCFIFrameInfo_def is_dubious_def)
  have fp: "fresh_frame scan f" if "riscv_GetCallerByFramePointer env last_frame = Some f" for f
    using that by (auto simp: riscv_GetCallerByFramePointer_def Option.bind_eq_Some_conv Let_def is_dubious_def)
  show ?thesis
    unfolding riscv_recover_def riscv_GetCallerByStackScan_def
    by (intro attempts) (auto simp: is_dubious_def dest: cfi fp)
qed

lemma riscv_recover_returns:
  fixes env :: "'w::len word WalkEnv"
  assumes "32 \<le> LENGTH('w)" "LENGTH('w) \<le> 64" "stack_ok env" "safe_symbols TYPE('w) sy"
  shows "returns_safe TYPE('w) (riscv_recover env frames last_frame scan sy)"
proof -
  have cfi: "riscv_GetCallerByCFIFrameInfo env last_frame c \<noteq> None" if "safe_rules TYPE('w) c" for c
    using cfi_registers_safe [OF that] by (fastforce simp: riscv_GetCallerByCFIFrameInfo_def)
  show ?thesis
    unfolding riscv_recover_def riscv_GetCallerByStackScan_def
    by (intro attempts cfi assms) simp_all
qed

lemma riscv_context_frame:
  "riscv_GetContextFrame regs env = Some f \<Longrightarrow> trust (frame_info f) = FRAME_TRUST_CONTEXT \<and> frame_module f = None"
  by (auto simp: riscv_GetContextFrame_def)

lemma riscv_walker: "cpu_walker (riscv_GetContextFrame regs) riscv_GetCallerFrame riscv_ip riscv_sp"
  unfolding riscv_GetCallerFrame_def
  by (rule caller_step_walker)
    (simp add: riscv_ip_def, simp add: riscv_sp_def, erule riscv_context_frame, rule riscv_recover_yields)

interpretation riscv: safe_walker "riscv_GetContextFrame regs :: u32 WalkEnv \<Rightarrow> _" riscv_GetCallerFrame riscv_ip riscv_sp
  for regs
  unfolding riscv_GetCallerFrame_def
  by (rule caller_step_safe_walker, rule riscv_walker [unfolded riscv_GetCallerFrame_def])
    (rule riscv_recover_returns, simp_all)

interpretation riscv64: safe_walker "riscv_GetContextFrame regs :: u64 WalkEnv \<Rightarrow> _" riscv_GetCallerFrame riscv_ip riscv_sp
  for regs
  unfolding riscv_GetCallerFrame_def
  by (rule caller_step_safe_walker, rule riscv_walker [unfolded riscv_GetCallerFrame_def])
    (rule riscv_recover_returns, simp_all)

text \<open>A frame without a frame pointer ends the walk, even where the stack could be scanned.\<close>

lemma riscv_no_frame_pointer:
  assumes "Symbolizer_FindCFIFrameInfo sy (frame_info last_frame, frame_module last_frame) = None"
    "cpu_context last_frame riscv_S0 = 0" "cpu_context last_frame riscv_SP \<noteq> 0" "LENGTH('w::len) \<le> 64"
    "env_memory (env :: 'w word WalkEnv) \<noteq> None"
  shows "riscv_GetCallerFrame env (frames @ [CpuFrame last_frame]) scan sy =
    Some (sy, frames @ [CpuFrame last_frame], None)"
proof -
  have "ucast (cpu_context last_frame riscv_SP) \<noteq> (0 :: u64)"
    using assms(3,4) by (metis unat_eq_zero unat_ucast_u64)
  then have "0 < (ucast (cpu_context last_frame riscv_SP) :: u64)"
    by (simp add: word_gt_0)
  then show ?thesis
    using assms(1,2,5)
    by (auto simp: riscv_GetCallerFrame_def caller_step_def riscv_recover_def try_cfi_def try_next_def
        riscv_GetCallerByFramePointer_def finish_frame_def TerminateWalk_def riscv_sp_def)
qed

end
