(* ===== verification/Walker_X86.thy ===== *)
theory Walker_X86
  imports Walker_Common
begin

text \<open>
  processor/stackwalker_x86.cc: the walker for x86. Its frames keep the stack walking information that was
  found for them, which later frames use.
\<close>

section \<open>Frames\<close>

datatype RegX86 = EIP | ESP | EBP | EAX | EBX | ECX | EDX | ESI | EDI

record X86_Frame = "(RegX86, u32, u32) Frame" +
  frame_windows_info :: "WindowsFrameInfo option"
  frame_cfi_info :: "CFIFrameInfo option"

abbreviation x86_VALID :: "nat \<Rightarrow> u32" where "x86_VALID i \<equiv> register_flag i"

definition x86_reg :: "string \<Rightarrow> string option \<Rightarrow> bool \<Rightarrow> nat \<Rightarrow> RegX86 \<Rightarrow> RegX86 RegisterSet" where
  "x86_reg name alternate saves i member = \<lparr>reg_name = name, alternate_name = alternate, callee_saves = saves,
     validity_flag = register_flag i, context_member = member\<rparr>"

definition x86_cfi_register_map :: "RegX86 RegisterSet list" where
  "x86_cfi_register_map =
     [x86_reg ''$eip'' (Some ''.ra'') False 0 EIP, x86_reg ''$esp'' (Some ''.cfa'') False 1 ESP,
      x86_reg ''$ebp'' None True 2 EBP, x86_reg ''$eax'' None False 3 EAX, x86_reg ''$ebx'' None True 4 EBX,
      x86_reg ''$ecx'' None False 5 ECX, x86_reg ''$edx'' None False 6 EDX, x86_reg ''$esi'' None True 7 ESI,
      x86_reg ''$edi'' None True 8 EDI]"

definition x86_frame :: "FrameTrust \<Rightarrow> (RegX86 \<Rightarrow> u32) \<Rightarrow> u32 \<Rightarrow> X86_Frame" where
  "x86_frame t context validity = \<lparr>frame_info = new_info t, frame_module = None, cpu_context = context,
     context_validity = validity, frame_windows_info = None, frame_cfi_info = None\<rparr>"

definition x86_GetContextFrame :: "(RegX86 \<Rightarrow> u32) option \<Rightarrow> u32 WalkEnv \<Rightarrow> X86_Frame option" where
  "x86_GetContextFrame context env =
     map_option (\<lambda>c. set_instruction (ucast (c EIP)) (x86_frame FRAME_TRUST_CONTEXT c (- 1))) context"

section \<open>Windows frame information\<close>

text \<open>
  The size of the parameters of the callee. The loop goes on after it has found one, so that the innermost
  frame that knows a size decides.
\<close>

definition x86_callee_parameter_size :: "X86_Frame CallFrame list \<Rightarrow> u32" where
  "x86_callee_parameter_size frames =
     fold (\<lambda>c sz. case c of
           InlineFrame _ _ \<Rightarrow> sz
         | CpuFrame f \<Rightarrow>
             (case frame_windows_info f of
                None \<Rightarrow> sz
              | Some info \<Rightarrow> if and (w_valid info) VALID_PARAMETER_SIZE \<noteq> 0 then w_parameter_size info else sz))
       (rev (butlast frames)) 0"

text \<open>The scan for the return address above the saved registers and local variables.\<close>

definition x86_ra_search ::
  "u32 WalkEnv \<Rightarrow> X86_Frame \<Rightarrow> WindowsFrameInfo \<Rightarrow> u32 \<Rightarrow> Symbolizer \<Rightarrow> (Symbolizer \<times> u32) option" where
  "x86_ra_search env last_frame info callee_parameter_size sy =
     (let raSearchStart = cpu_context last_frame ESP + callee_parameter_size + local_size info + saved_register_size info
      in Option.bind (ScanForReturnAddress env raSearchStart 3 sy) (\<lambda>(sy, found).
        case found of
          None \<Rightarrow> Some (sy, raSearchStart)
        | Some (location, ip) \<Rightarrow>
            if is_context_frame last_frame \<and> w_type info = STACK_INFO_FPO \<and> raSearchStart = location \<and>
               ip = cpu_context last_frame EIP
            then map_option (\<lambda>(sy, found). (sy, case found of None \<Rightarrow> location + 4 | Some (location, _) \<Rightarrow> location))
              (ScanForReturnAddress env (location + 4) 3 sy)
            else Some (sy, location)))"

text \<open>The program, and whether the saved frame pointer is looked for afterwards.\<close>

definition x86_program :: "X86_Frame \<Rightarrow> WindowsFrameInfo \<Rightarrow> string \<times> bool" where
  "x86_program last_frame info =
     (if program_string info \<noteq> [] then (program_string info, True)
      else if allocates_base_pointer info then
        (''$eip .raSearchStart ^ = $ebp $esp .cbCalleeParams + .cbSavedRegs + 8 - ^ = $esp .raSearchStart 4 + ='', True)
      else
        (''$eip .raSearchStart ^ = $esp .raSearchStart 4 + ='' @
           (if context_validity last_frame AND x86_VALID 4 \<noteq> 0 then '' $ebx $ebx ='' else []), False))"

definition x86_dictionary :: "X86_Frame \<Rightarrow> WindowsFrameInfo \<Rightarrow> u32 \<Rightarrow> u32 \<Rightarrow> string \<Rightarrow> u32 option" where
  "x86_dictionary last_frame info callee_parameter_size raSearchStart =
     (let dict = [''$ebp'' \<mapsto> cpu_context last_frame EBP, ''$esp'' \<mapsto> cpu_context last_frame ESP];
          dict = (if context_validity last_frame AND x86_VALID 4 \<noteq> 0
            then dict(''$ebx'' \<mapsto> cpu_context last_frame EBX) else dict)
      in dict(''.cbCalleeParams'' \<mapsto> callee_parameter_size, ''.cbSavedRegs'' \<mapsto> saved_register_size info,
           ''.cbLocals'' \<mapsto> local_size info, ''.cbParams'' \<mapsto> w_parameter_size info,
           ''.raSearchStart'' \<mapsto> raSearchStart, ''.raSearch'' \<mapsto> raSearchStart))"

text \<open>\<open>operator[]\<close> of a dict.\<close>

definition dict_get :: "(string \<Rightarrow> u32 option) \<Rightarrow> string \<Rightarrow> u32" where
  "dict_get dict name = (case dict name of Some v \<Rightarrow> v | None \<Rightarrow> 0)"

text \<open>
  What the program gives, or a scan from the stack pointer when it fails: the dict, the names it
  assigned and the trust.
\<close>

definition x86_evaluate ::
  "u32 WalkEnv \<Rightarrow> X86_Frame \<Rightarrow> string \<Rightarrow> (string \<Rightarrow> u32 option) \<Rightarrow> bool \<Rightarrow> Symbolizer \<Rightarrow>
   (Symbolizer \<times> ((string \<Rightarrow> u32 option) \<times> (string \<Rightarrow> bool) \<times> FrameTrust) option) option" where
  "x86_evaluate env last_frame prog dictionary0 stack_scan_allowed sy =
     Option.bind (Evaluate (env_memory env) prog \<lparr>dictionary = dictionary0, assigned = Some Map.empty, stack = []\<rparr>)
       (\<lambda>(st, ok).
         let validity = (\<lambda>name. case assigned st of Some a \<Rightarrow> a name \<noteq> None | None \<Rightarrow> False) in
         if ok \<and> validity ''$eip'' \<and> validity ''$esp'' then Some (sy, Some (dictionary st, validity, FRAME_TRUST_CFI))
         else if \<not> stack_scan_allowed then Some (sy, None)
         else map_option (\<lambda>(sy, found). (sy, map_option (\<lambda>(location, eip).
               ((dictionary st)(''$eip'' \<mapsto> eip, ''$esp'' \<mapsto> location + 4), validity, FRAME_TRUST_SCAN)) found))
           (ScanForReturnAddress_from env (cpu_context last_frame ESP) (is_context_frame last_frame) sy))"

text \<open>A better return address, if the one found is in no module; with the distance it was found at.\<close>

definition x86_better_eip ::
  "u32 WalkEnv \<Rightarrow> X86_Frame \<Rightarrow> bool \<Rightarrow> (string \<Rightarrow> u32 option) \<Rightarrow> FrameTrust \<Rightarrow> Symbolizer \<Rightarrow>
   (Symbolizer \<times> (string \<Rightarrow> u32 option) \<times> FrameTrust \<times> u32) option" where
  "x86_better_eip env last_frame stack_scan_allowed dict t sy =
     (if env_modules env \<noteq> None \<and> \<not> in_loaded_module env (ucast (dict_get dict ''$eip'')) \<and> stack_scan_allowed then
        (let location_start = dict_get dict ''.raSearchStart'' + 4 in
         map_option (\<lambda>(sy, found). (sy, case found of
               None \<Rightarrow> (dict, t, 0)
             | Some (location, eip) \<Rightarrow>
                 (dict(''$eip'' \<mapsto> eip, ''$esp'' \<mapsto> location + 4), FRAME_TRUST_CFI_SCAN, location - location_start)))
           (ScanForReturnAddress_from env location_start (is_context_frame last_frame) sy))
      else Some (sy, dict, t, 0))"

text \<open>The scan for the saved frame pointer, from the highest address down.\<close>

partial_function (option) x86_scan_ebp ::
  "u32 WalkEnv \<Rightarrow> u32 \<Rightarrow> u32 \<Rightarrow> u32 option option" where
  "x86_scan_ebp env location location_end =
     (if location < location_end then Some None
      else case read_memory env (ucast location) of
        None \<Rightarrow> Some None
      | Some ebp \<Rightarrow>
          if read_memory env (ucast ebp) \<noteq> None then Some (Some ebp)
          else x86_scan_ebp env (location - 4) location_end)"

declare x86_scan_ebp.simps [code]

definition x86_better_ebp ::
  "u32 WalkEnv \<Rightarrow> X86_Frame \<Rightarrow> WindowsFrameInfo \<Rightarrow> u32 \<Rightarrow> u32 \<Rightarrow> (string \<Rightarrow> u32 option) \<Rightarrow> FrameTrust \<Rightarrow> u32 \<Rightarrow>
   (string \<Rightarrow> u32 option) option" where
  "x86_better_ebp env last_frame info callee_parameter_size raSearchStart dict t offset =
     (let ebp = dict_get dict ''$ebp'';
          has_skipped_frames = (t \<noteq> FRAME_TRUST_CFI \<and> ebp \<le> raSearchStart + offset)
      in if has_skipped_frames \<or> read_memory env (ucast ebp) = None then
           let fp_search_bytes = saved_register_size info + offset;
               location_end = cpu_context last_frame ESP + callee_parameter_size
           in map_option (\<lambda>found. case found of None \<Rightarrow> dict | Some ebp \<Rightarrow> dict(''$ebp'' \<mapsto> ebp))
                (x86_scan_ebp env (location_end + fp_search_bytes) location_end)
         else Some dict)"

definition x86_windows_frame ::
  "X86_Frame \<Rightarrow> (string \<Rightarrow> u32 option) \<Rightarrow> (string \<Rightarrow> bool) \<Rightarrow> FrameTrust \<Rightarrow> X86_Frame" where
  "x86_windows_frame last_frame dict validity t =
     (let context = (cpu_context last_frame)(EIP := dict_get dict ''$eip'', ESP := dict_get dict ''$esp'',
            EBP := dict_get dict ''$ebp'');
          set = (\<lambda>name reg i (context, valid). if validity name
            then (context(reg := dict_get dict name), valid OR x86_VALID i) else (context, valid));
          (context, valid) = set ''$edi'' EDI 8 (set ''$esi'' ESI 7 (set ''$ebx'' EBX 4
            (context, x86_VALID 0 OR x86_VALID 1 OR x86_VALID 2)))
      in x86_frame t context valid)"

definition x86_GetCallerByWindowsFrameInfo ::
  "u32 WalkEnv \<Rightarrow> X86_Frame CallFrame list \<Rightarrow> X86_Frame \<Rightarrow> WindowsFrameInfo \<Rightarrow> bool \<Rightarrow> Symbolizer \<Rightarrow> X86_Frame attempt" where
  "x86_GetCallerByWindowsFrameInfo env frames last_frame info stack_scan_allowed sy =
     (if w_valid info \<noteq> VALID_ALL then Some (sy, None)
      else
        let callee_parameter_size = x86_callee_parameter_size frames in
        Option.bind (x86_ra_search env last_frame info callee_parameter_size sy) (\<lambda>(sy, raSearchStart).
        let (prog, recover_ebp) = x86_program last_frame info;
            raSearchStart = (if context_validity last_frame AND x86_VALID 2 \<noteq> 0 \<and> CHR ''@'' \<in> set prog
              then cpu_context last_frame EBP + 4 else raSearchStart)
        in Option.bind (x86_evaluate env last_frame prog
             (x86_dictionary last_frame info callee_parameter_size raSearchStart) stack_scan_allowed sy) (\<lambda>(sy, res).
           case res of
             None \<Rightarrow> Some (sy, None)
           | Some (dict, validity, t) \<Rightarrow>
               if dict_get dict ''$eip'' \<noteq> 0 \<or> dict_get dict ''$ebp'' \<noteq> 0 then
                 Option.bind (x86_better_eip env last_frame stack_scan_allowed dict t sy)
                   (\<lambda>(sy, dict, t, offset).
                     map_option (\<lambda>dict. (sy, Some (x86_windows_frame last_frame dict validity t)))
                       (if recover_ebp
                        then x86_better_ebp env last_frame info callee_parameter_size raSearchStart dict t offset
                        else Some dict))
               else Some (sy, Some (x86_windows_frame last_frame dict validity t)))))"

section \<open>The other ways\<close>

definition x86_essentials :: "(RegX86 \<Rightarrow> u32) \<times> u32 \<Rightarrow> X86_Frame option" where
  "x86_essentials found =
     (let essentials = x86_VALID 0 OR x86_VALID 1 OR x86_VALID 2 in
      if snd found AND essentials \<noteq> essentials then None
      else Some (x86_frame FRAME_TRUST_CFI (fst found) (snd found)))"

definition x86_GetCallerByCFIFrameInfo ::
  "u32 WalkEnv \<Rightarrow> X86_Frame \<Rightarrow> CFIFrameInfo \<Rightarrow> X86_Frame option option" where
  "x86_GetCallerByCFIFrameInfo env last_frame cfi_frame_info =
     map_option (\<lambda>found. Option.bind found x86_essentials)
       (FindCallerRegisters x86_cfi_register_map (read_memory env) cfi_frame_info
         (cpu_context last_frame) (context_validity last_frame))"

definition kMaxReasonableGapBetweenFrames :: u32 where "kMaxReasonableGapBetweenFrames = 128 * 1024"

definition x86_restored_ebp :: "u32 WalkEnv \<Rightarrow> u32 \<Rightarrow> u32 \<Rightarrow> u32" where
  "x86_restored_ebp env restored_ebp_chain last_ebp =
     (case read_memory env (ucast restored_ebp_chain) of
        None \<Rightarrow> last_ebp
      | Some caller_ebp \<Rightarrow>
          if caller_ebp \<le> restored_ebp_chain \<or> kMaxReasonableGapBetweenFrames < caller_ebp - restored_ebp_chain
          then last_ebp else caller_ebp)"

definition x86_GetCallerByEBPAtBase ::
  "u32 WalkEnv \<Rightarrow> X86_Frame \<Rightarrow> bool \<Rightarrow> Symbolizer \<Rightarrow> X86_Frame attempt" where
  "x86_GetCallerByEBPAtBase env last_frame stack_scan_allowed sy =
     (let last_esp = cpu_context last_frame ESP;
          last_ebp = cpu_context last_frame EBP;
          valid = x86_VALID 0 OR x86_VALID 1 OR x86_VALID 2;
          frame = (\<lambda>t eip esp ebp. x86_frame t ((cpu_context last_frame)(EIP := eip, ESP := esp, EBP := ebp)) valid)
      in case (read_memory env (ucast (last_ebp + 4)), read_memory env (ucast last_ebp)) of
           (Some caller_eip, Some caller_ebp) \<Rightarrow> Some (sy, Some (frame FRAME_TRUST_FP caller_eip (last_ebp + 8) caller_ebp))
         | _ \<Rightarrow>
             if \<not> stack_scan_allowed then Some (sy, None)
             else map_option (\<lambda>(sy, found). (sy, map_option (\<lambda>(location, caller_eip).
                   let caller_esp = location + 4
                   in frame FRAME_TRUST_SCAN caller_eip caller_esp (x86_restored_ebp env (caller_esp - 8) last_ebp)) found))
               (ScanForReturnAddress_from env last_esp (is_context_frame last_frame) sy))"

section \<open>GetCallerFrame\<close>

definition x86_ip :: "X86_Frame \<Rightarrow> u64" where "x86_ip f = ucast (cpu_context f EIP)"
definition x86_sp :: "X86_Frame \<Rightarrow> u64" where "x86_sp f = ucast (cpu_context f ESP)"

definition x86_GetCallerFrame :: "(X86_Frame, u32) get_caller" where
  "x86_GetCallerFrame env frames stack_scan_allowed sy =
     (if env_memory env = None then Some (sy, frames, None)
      else Option.bind (back_frame frames) (\<lambda>last_frame.
        let at_frame = (frame_info last_frame, frame_module last_frame);
            (last_frame, attempt) = (case Symbolizer_FindWindowsFrameInfo sy at_frame of
               None \<Rightarrow> (last_frame, Some (sy, None))
             | Some info \<Rightarrow>
                 (let last_frame = last_frame\<lparr>frame_windows_info := Some info\<rparr>
                  in (last_frame, x86_GetCallerByWindowsFrameInfo env (replace_back frames last_frame) last_frame info
                        stack_scan_allowed sy)))
        in Option.bind attempt (\<lambda>(sy, frame).
           let cfi = (if frame = None then Symbolizer_FindCFIFrameInfo sy at_frame else None);
               last_frame = (case cfi of None \<Rightarrow> last_frame | Some c \<Rightarrow> last_frame\<lparr>frame_cfi_info := Some c\<rparr>)
           in Option.bind (try_next True (x86_GetCallerByEBPAtBase env last_frame stack_scan_allowed)
                 (case cfi of
                    None \<Rightarrow> Some (sy, frame)
                  | Some c \<Rightarrow> map_option (Pair sy) (x86_GetCallerByCFIFrameInfo env last_frame c)))
              (\<lambda>(sy, frame). Some (sy, replace_back frames last_frame,
                 Option.bind frame
                   (finish_frame x86_ip x86_sp (\<lambda>f. ucast (cpu_context f EIP - 1)) last_frame))))))"

section \<open>The laws of the walker\<close>

lemma x86_frame_simps [simp]:
  "trust (frame_info (x86_frame t c v)) = t" "frame_module (x86_frame t c v) = None" "cpu_context (x86_frame t c v) = c"
  by (simp_all add: x86_frame_def new_info_def)

lemma fresh_x86_frame [simp]:
  "fresh_frame scan (x86_frame t c v) \<longleftrightarrow> t \<noteq> FRAME_TRUST_CONTEXT \<and> (is_dubious t \<longrightarrow> scan)"
  by (simp add: fresh_frame_def)

lemma fresh_windows_frame [simp]:
  "fresh_frame scan (x86_windows_frame f dict validity t) \<longleftrightarrow> t \<noteq> FRAME_TRUST_CONTEXT \<and> (is_dubious t \<longrightarrow> scan)"
  by (simp add: x86_windows_frame_def Let_def split: prod.splits)

text \<open>How a frame that rests on Windows frame information was found.\<close>

lemma x86_evaluate_trust:
  "x86_evaluate env last_frame prog d scan sy = Some (sy', Some (dict, validity, t)) \<Longrightarrow>
   t = FRAME_TRUST_CFI \<or> (t = FRAME_TRUST_SCAN \<and> scan)"
  by (auto simp: x86_evaluate_def Let_def Option.bind_eq_Some_conv split: if_splits)

lemma x86_better_eip_trust:
  "x86_better_eip env last_frame scan dict t sy = Some (sy', dict', t', offset) \<Longrightarrow>
   t' = t \<or> (t' = FRAME_TRUST_CFI_SCAN \<and> scan)"
  by (auto simp: x86_better_eip_def Let_def split: if_splits option.splits)

lemma yields_bind: "(\<And>x. a = Some x \<Longrightarrow> yields P (g x)) \<Longrightarrow> yields P (Option.bind a g)"
  by (auto simp: yields_def Option.bind_eq_Some_conv)

lemma yields_map: "(\<And>x. P (g x)) \<Longrightarrow> yields P (map_option (\<lambda>x. (sy, Some (g x))) a)"
  by (auto simp: yields_def)

lemma x86_recovered_yields:
  assumes "t = FRAME_TRUST_CFI \<or> (t = FRAME_TRUST_SCAN \<and> scan)"
  shows "yields (fresh_frame scan) (Option.bind (x86_better_eip env last_frame scan dict t sy)
     (\<lambda>(sy, dict, t, offset). map_option (\<lambda>dict. (sy, Some (x86_windows_frame last_frame dict validity t))) (ebp dict t offset)))"
proof (rule yields_bind)
  fix x
  assume "x86_better_eip env last_frame scan dict t sy = Some x"
  then show "yields (fresh_frame scan) (case x of (sy, dict, t, offset) \<Rightarrow>
      map_option (\<lambda>dict. (sy, Some (x86_windows_frame last_frame dict validity t))) (ebp dict t offset))"
    using assms by (cases x) (auto dest!: x86_better_eip_trust intro!: yields_map simp: is_dubious_def)
qed

lemma x86_windows_yields:
  "yields (fresh_frame scan) (x86_GetCallerByWindowsFrameInfo env frames last_frame info scan sy)"
proof -
  obtain prog recover_ebp where program: "x86_program last_frame info = (prog, recover_ebp)"
    by fastforce
  have evaluated: "yields (fresh_frame scan) (case res of None \<Rightarrow> Some (sy, None)
      | Some (dict, validity, t) \<Rightarrow>
          if dict_get dict ''$eip'' \<noteq> 0 \<or> dict_get dict ''$ebp'' \<noteq> 0 then
            Option.bind (x86_better_eip env last_frame scan dict t sy)
              (\<lambda>(sy, dict, t, offset).
                map_option (\<lambda>dict. (sy, Some (x86_windows_frame last_frame dict validity t)))
                  (if recover_ebp then x86_better_ebp env last_frame info cps start dict t offset else Some dict))
          else Some (sy, Some (x86_windows_frame last_frame dict validity t)))"
    if "x86_evaluate env last_frame prog d scan sy' = Some (sy, res)" for d sy' sy res cps start
    using x86_evaluate_trust [of env last_frame prog d scan sy' sy] that
    by (auto simp: yields_def is_dubious_def split: option.splits if_splits
        dest!: x86_recovered_yields [where env = env and last_frame = last_frame and scan = scan, unfolded yields_def, rule_format, rotated])
  show ?thesis
    unfolding x86_GetCallerByWindowsFrameInfo_def Let_def program prod.case
    by (auto simp del: disj_not1 intro!: yields_bind evaluated yields_Some split: prod.split)
qed

lemma x86_cfi_fresh:
  "x86_GetCallerByCFIFrameInfo env last_frame c = Some (Some f) \<Longrightarrow> fresh_frame scan f"
  by (auto simp: x86_GetCallerByCFIFrameInfo_def x86_essentials_def Let_def is_dubious_def
      Option.bind_eq_Some_conv split: if_splits)

lemma x86_EBPAtBase_yields: "yields (fresh_frame scan) (x86_GetCallerByEBPAtBase env last_frame scan sy)"
  unfolding x86_GetCallerByEBPAtBase_def Let_def
  by (auto split: option.splits intro!: attempts simp: is_dubious_def)

text \<open>
  A step changes no more of the frames so far than the walking information of the last one, and the frame it
  finds is as fresh as the ways of finding it allow.
\<close>

lemma x86_GetCallerFrame_cases:
  assumes "x86_GetCallerFrame env frames scan sy = Some (sy', frames', caller)"
  obtains (no_memory) "frames' = frames" "caller = None"
  | (step) fs last_frame w c where "frames = fs @ [CpuFrame last_frame]"
      "frames' = fs @ [CpuFrame (last_frame\<lparr>frame_windows_info := w, frame_cfi_info := c\<rparr>)]"
      "\<forall>f. caller = Some f \<longrightarrow> (\<exists>frame. fresh_frame scan frame \<and>
         finish_frame x86_ip x86_sp (\<lambda>f. ucast (cpu_context f EIP - 1))
           (last_frame\<lparr>frame_windows_info := w, frame_cfi_info := c\<rparr>) frame = Some f)"
proof (cases "env_memory env")
  case None
  then show ?thesis
    using assms no_memory by (simp add: x86_GetCallerFrame_def)
next
  case (Some mem)
  obtain last_frame where last: "back_frame frames = Some last_frame"
    using assms Some by (auto simp: x86_GetCallerFrame_def split: bind_splits)
  then obtain fs where fs: "frames = fs @ [CpuFrame last_frame]"
    by (auto simp: back_frame_Some)
  define at_frame where "at_frame = (frame_info last_frame, frame_module last_frame)"
  obtain last1 attempt where windows: "(case Symbolizer_FindWindowsFrameInfo sy at_frame of
       None \<Rightarrow> (last_frame, Some (sy, None))
     | Some info \<Rightarrow> (let last_frame = last_frame\<lparr>frame_windows_info := Some info\<rparr>
         in (last_frame, x86_GetCallerByWindowsFrameInfo env (replace_back frames last_frame) last_frame info scan sy))) =
     (last1, attempt)"
    by (meson surj_pair)
  then have attempt: "yields (fresh_frame scan) attempt" and last1: "\<exists>w. last1 = last_frame\<lparr>frame_windows_info := w\<rparr>"
    using x86_windows_yields
    by (auto simp: Let_def yields_def intro: exI [of _ "frame_windows_info last_frame"] split: option.splits)
  obtain sy1 frame where frame: "attempt = Some (sy1, frame)"
    using assms Some last windows by (auto simp: x86_GetCallerFrame_def at_frame_def [symmetric] split: bind_splits)
  define cfi where "cfi = (if frame = None then Symbolizer_FindCFIFrameInfo sy1 at_frame else None)"
  define last2 where "last2 = (case cfi of None \<Rightarrow> last1 | Some c \<Rightarrow> last1\<lparr>frame_cfi_info := Some c\<rparr>)"
  define attempt2 where "attempt2 = try_next True (x86_GetCallerByEBPAtBase env last2 scan)
     (case cfi of None \<Rightarrow> Some (sy1, frame) | Some c \<Rightarrow> map_option (Pair sy1) (x86_GetCallerByCFIFrameInfo env last2 c))"
  have fresh: "yields (fresh_frame scan) attempt2"
    unfolding attempt2_def using attempt frame x86_cfi_fresh
    by (intro yields_try_next x86_EBPAtBase_yields) (auto simp: yields_def split: option.splits)
  obtain w c where last2: "last2 = last_frame\<lparr>frame_windows_info := w, frame_cfi_info := c\<rparr>"
  proof -
    obtain w where w: "last1 = last_frame\<lparr>frame_windows_info := w\<rparr>"
      using last1 by blast
    show ?thesis
    proof (cases cfi)
      case None
      then show ?thesis
        using w that [of "frame_cfi_info last_frame" w] by (simp add: last2_def)
    qed (use w that in \<open>simp add: last2_def\<close>)
  qed
  have "x86_GetCallerFrame env frames scan sy = Option.bind attempt2 (\<lambda>(sy, frame). Some (sy, replace_back frames last2,
      Option.bind frame (finish_frame x86_ip x86_sp (\<lambda>f. ucast (cpu_context f EIP - 1)) last2)))"
    using Some last windows frame unfolding x86_GetCallerFrame_def attempt2_def last2_def cfi_def at_frame_def Let_def
    by simp
  then obtain frame2 where found: "attempt2 = Some (sy', frame2)" "frames' = replace_back frames last2"
    "caller = Option.bind frame2 (finish_frame x86_ip x86_sp (\<lambda>f. ucast (cpu_context f EIP - 1)) last2)"
    using assms by (cases attempt2) auto
  have "\<exists>frame. fresh_frame scan frame \<and>
      finish_frame x86_ip x86_sp (\<lambda>f. ucast (cpu_context f EIP - 1)) last2 frame = Some f" if "caller = Some f" for f
    using fresh found that by (cases frame2) (auto simp: yields_def)
  then show ?thesis
    using fs last2 found(2) by (intro step [of fs last_frame c w]) (simp_all add: replace_back_def)
qed

lemma x86_set_instruction [simp]: "x86_ip (set_instruction i f) = x86_ip f" "x86_sp (set_instruction i f) = x86_sp f"
  by (simp_all add: x86_ip_def x86_sp_def)

interpretation x86: cpu_walker "x86_GetContextFrame regs" x86_GetCallerFrame x86_ip x86_sp
  for regs
proof
  fix env :: "u32 WalkEnv" and f :: X86_Frame and i m frames frames' caller callee scan sy sy'
  show "x86_ip (f\<lparr>frame_info := i, frame_module := m\<rparr>) = x86_ip f"
    "x86_sp (f\<lparr>frame_info := i, frame_module := m\<rparr>) = x86_sp f"
    by (simp_all add: x86_ip_def x86_sp_def)
  show "trust (frame_info f) = FRAME_TRUST_CONTEXT \<and> frame_module f = None"
    if "x86_GetContextFrame regs env = Some f"
    using that by (auto simp: x86_GetContextFrame_def)
  let ?view = "map_CallFrame (\<lambda>f. (x86_ip f, x86_sp f, frame_info f, frame_module f))"
  show "map ?view frames' = map ?view frames" if "x86_GetCallerFrame env frames scan sy = Some (sy', frames', caller)"
    using that by (cases rule: x86_GetCallerFrame_cases) (auto simp: x86_ip_def x86_sp_def)
  show "may_call (x86_ip callee, x86_sp callee, trust (frame_info callee)) (x86_ip f, x86_sp f, trust (frame_info f)) \<and>
      frame_module f = None"
    if "x86_GetCallerFrame env (frames @ [CpuFrame callee]) scan sy = Some (sy', frames', Some f)"
    using that
  proof (cases rule: x86_GetCallerFrame_cases)
    case (step fs last_frame w c)
    then show ?thesis
      by (auto dest!: finish_frame_may_call simp: fresh_frame_def x86_ip_def x86_sp_def)
  qed simp
  show "\<not> is_dubious (trust (frame_info f))"
    if "x86_GetCallerFrame env frames False sy = Some (sy', frames', Some f)"
    using that
  proof (cases rule: x86_GetCallerFrame_cases)
    case (step fs last_frame w c)
    then show ?thesis
      by (auto dest!: finish_frame_may_call simp: fresh_frame_def x86_ip_def x86_sp_def)
  qed simp
qed

text \<open>The frame at the top of the stack decides the size of the parameters, not the callee of the last frame.\<close>

lemma x86_innermost_parameter_size:
  assumes "frame_windows_info f = Some info" "and (w_valid info) VALID_PARAMETER_SIZE \<noteq> 0" "frames \<noteq> []"
  shows "x86_callee_parameter_size (CpuFrame f # frames) = w_parameter_size info"
  using assms by (simp add: x86_callee_parameter_size_def)

end
