(* ===== verification/Stackwalker_CPU.thy ===== *)
theory Stackwalker_CPU
  imports Walker_AMD64 Walker_ARM Walker_ARM64 Walker_MIPS Walker_PPC Walker_RISCV Walker_X86
begin

text \<open>
  The register context of a dump (processor/dump_context.cc) and the choice of the walker for its CPU
  (\<open>StackwalkerForCPU\<close> in processor/stackwalker.cc), with the walk of the walker that was chosen.
\<close>

section \<open>Contexts\<close>

text \<open>The union of the contexts of the CPUs. Who makes a context sets its flags to match.\<close>

datatype RawContext =
  RawX86 "RegX86 \<Rightarrow> u32"
| RawPPC "RegPPC \<Rightarrow> u32"
| RawPPC64 "RegPPC \<Rightarrow> u64"
| RawAMD64 "RegAMD64 \<Rightarrow> u64"
| RawSPARC "RegSPARC \<Rightarrow> u64"
| RawARM "nat \<Rightarrow> u32"
| RawARM64 "nat \<Rightarrow> u64"
| RawMIPS "nat \<Rightarrow> u64"
| RawRISCV "nat \<Rightarrow> u32"
| RawRISCV64 "nat \<Rightarrow> u64"

record DumpContext =
  dc_valid :: bool
  context_flags :: u32
  raw_context :: RawContext

definition MD_CONTEXT_CPU_MASK :: u32 where "MD_CONTEXT_CPU_MASK = 0xffffff00"
definition MD_CONTEXT_X86 :: u32 where "MD_CONTEXT_X86 = 0x00010000"
definition MD_CONTEXT_PPC :: u32 where "MD_CONTEXT_PPC = 0x20000000"
definition MD_CONTEXT_PPC64 :: u32 where "MD_CONTEXT_PPC64 = 0x01000000"
definition MD_CONTEXT_AMD64 :: u32 where "MD_CONTEXT_AMD64 = 0x00100000"
definition MD_CONTEXT_SPARC :: u32 where "MD_CONTEXT_SPARC = 0x10000000"
definition MD_CONTEXT_ARM :: u32 where "MD_CONTEXT_ARM = 0x40000000"
definition MD_CONTEXT_ARM64 :: u32 where "MD_CONTEXT_ARM64 = 0x00400000"
definition MD_CONTEXT_MIPS :: u32 where "MD_CONTEXT_MIPS = 0x00040000"
definition MD_CONTEXT_MIPS64 :: u32 where "MD_CONTEXT_MIPS64 = 0x00080000"
definition MD_CONTEXT_RISCV :: u32 where "MD_CONTEXT_RISCV = 0x00800000"
definition MD_CONTEXT_RISCV64 :: u32 where "MD_CONTEXT_RISCV64 = 0x08000000"

lemmas context_cpu_defs = MD_CONTEXT_X86_def MD_CONTEXT_PPC_def MD_CONTEXT_PPC64_def MD_CONTEXT_AMD64_def
  MD_CONTEXT_SPARC_def MD_CONTEXT_ARM_def MD_CONTEXT_ARM64_def MD_CONTEXT_MIPS_def MD_CONTEXT_MIPS64_def
  MD_CONTEXT_RISCV_def MD_CONTEXT_RISCV64_def

definition GetContextCPU :: "DumpContext \<Rightarrow> u32" where
  "GetContextCPU c = (if \<not> dc_valid c then 0 else context_flags c AND MD_CONTEXT_CPU_MASK)"

definition GetContextX86 :: "DumpContext \<Rightarrow> (RegX86 \<Rightarrow> u32) option" where
  "GetContextX86 c = (if GetContextCPU c \<noteq> MD_CONTEXT_X86 then None
     else case raw_context c of RawX86 r \<Rightarrow> Some r | _ \<Rightarrow> None)"

definition GetContextPPC :: "DumpContext \<Rightarrow> (RegPPC \<Rightarrow> u32) option" where
  "GetContextPPC c = (if GetContextCPU c \<noteq> MD_CONTEXT_PPC then None
     else case raw_context c of RawPPC r \<Rightarrow> Some r | _ \<Rightarrow> None)"

definition GetContextPPC64 :: "DumpContext \<Rightarrow> (RegPPC \<Rightarrow> u64) option" where
  "GetContextPPC64 c = (if GetContextCPU c \<noteq> MD_CONTEXT_PPC64 then None
     else case raw_context c of RawPPC64 r \<Rightarrow> Some r | _ \<Rightarrow> None)"

definition GetContextAMD64 :: "DumpContext \<Rightarrow> (RegAMD64 \<Rightarrow> u64) option" where
  "GetContextAMD64 c = (if GetContextCPU c \<noteq> MD_CONTEXT_AMD64 then None
     else case raw_context c of RawAMD64 r \<Rightarrow> Some r | _ \<Rightarrow> None)"

definition GetContextSPARC :: "DumpContext \<Rightarrow> (RegSPARC \<Rightarrow> u64) option" where
  "GetContextSPARC c = (if GetContextCPU c \<noteq> MD_CONTEXT_SPARC then None
     else case raw_context c of RawSPARC r \<Rightarrow> Some r | _ \<Rightarrow> None)"

definition GetContextARM :: "DumpContext \<Rightarrow> (nat \<Rightarrow> u32) option" where
  "GetContextARM c = (if GetContextCPU c \<noteq> MD_CONTEXT_ARM then None
     else case raw_context c of RawARM r \<Rightarrow> Some r | _ \<Rightarrow> None)"

definition GetContextARM64 :: "DumpContext \<Rightarrow> (nat \<Rightarrow> u64) option" where
  "GetContextARM64 c = (if GetContextCPU c \<noteq> MD_CONTEXT_ARM64 then None
     else case raw_context c of RawARM64 r \<Rightarrow> Some r | _ \<Rightarrow> None)"

definition GetContextMIPS :: "DumpContext \<Rightarrow> (nat \<Rightarrow> u64) option" where
  "GetContextMIPS c = (if GetContextCPU c \<noteq> MD_CONTEXT_MIPS \<and> GetContextCPU c \<noteq> MD_CONTEXT_MIPS64 then None
     else case raw_context c of RawMIPS r \<Rightarrow> Some r | _ \<Rightarrow> None)"

definition GetContextRISCV :: "DumpContext \<Rightarrow> (nat \<Rightarrow> u32) option" where
  "GetContextRISCV c = (if GetContextCPU c \<noteq> MD_CONTEXT_RISCV then None
     else case raw_context c of RawRISCV r \<Rightarrow> Some r | _ \<Rightarrow> None)"

definition GetContextRISCV64 :: "DumpContext \<Rightarrow> (nat \<Rightarrow> u64) option" where
  "GetContextRISCV64 c = (if GetContextCPU c \<noteq> MD_CONTEXT_RISCV64 then None
     else case raw_context c of RawRISCV64 r \<Rightarrow> Some r | _ \<Rightarrow> None)"

text \<open>The switch of the next two: what is read from the context of each CPU.\<close>

definition read_context ::
  "DumpContext \<Rightarrow> RegX86 \<Rightarrow> RegPPC \<Rightarrow> RegAMD64 \<Rightarrow> RegSPARC \<Rightarrow> nat \<Rightarrow> nat \<Rightarrow> nat \<Rightarrow> nat \<Rightarrow> u64 option" where
  "read_context c x86 ppc amd64 sparc arm arm64 mips riscv =
     (let cpu = GetContextCPU c in
      if \<not> dc_valid c then None
      else if cpu = MD_CONTEXT_AMD64 then map_option (\<lambda>r. r amd64) (GetContextAMD64 c)
      else if cpu = MD_CONTEXT_ARM then map_option (\<lambda>r. ucast (r arm)) (GetContextARM c)
      else if cpu = MD_CONTEXT_ARM64 then map_option (\<lambda>r. r arm64) (GetContextARM64 c)
      else if cpu = MD_CONTEXT_PPC then map_option (\<lambda>r. ucast (r ppc)) (GetContextPPC c)
      else if cpu = MD_CONTEXT_PPC64 then map_option (\<lambda>r. r ppc) (GetContextPPC64 c)
      else if cpu = MD_CONTEXT_SPARC then map_option (\<lambda>r. r sparc) (GetContextSPARC c)
      else if cpu = MD_CONTEXT_X86 then map_option (\<lambda>r. ucast (r x86)) (GetContextX86 c)
      else if cpu = MD_CONTEXT_MIPS \<or> cpu = MD_CONTEXT_MIPS64 then map_option (\<lambda>r. r mips) (GetContextMIPS c)
      else if cpu = MD_CONTEXT_RISCV then map_option (\<lambda>r. ucast (r riscv)) (GetContextRISCV c)
      else if cpu = MD_CONTEXT_RISCV64 then map_option (\<lambda>r. r riscv) (GetContextRISCV64 c)
      else None)"

definition GetInstructionPointer :: "DumpContext \<Rightarrow> u64 option" where
  "GetInstructionPointer c = read_context c EIP SRR0 RIP SPARC_PC arm_PC arm64_PC mips_EPC riscv_PC"

definition GetStackPointer :: "DumpContext \<Rightarrow> u64 option" where
  "GetStackPointer c = read_context c ESP (GPR 1) RSP (G_R 14) arm_SP arm64_SP mips_SP riscv_SP"

section \<open>The choice of a walker\<close>

text \<open>
  A walker with its context and what it is given. For MIPS the constructor takes the place of the flags of
  the context that the walker looks at, for ARM the number is that of the frame pointer.
\<close>

datatype Stackwalker =
  StackwalkerX86 "(RegX86 \<Rightarrow> u32) option" "u32 WalkEnv"
| StackwalkerPPC "(RegPPC \<Rightarrow> u32) option" "u32 WalkEnv"
| StackwalkerPPC64 "(RegPPC \<Rightarrow> u64) option" "u64 WalkEnv"
| StackwalkerAMD64 "(RegAMD64 \<Rightarrow> u64) option" "u64 WalkEnv"
| StackwalkerSPARC "(RegSPARC \<Rightarrow> u64) option" "u32 WalkEnv"
| StackwalkerMIPS "(nat \<Rightarrow> u64) option" "u32 WalkEnv"
| StackwalkerMIPS64 "(nat \<Rightarrow> u64) option" "u64 WalkEnv"
| StackwalkerARM "(nat \<Rightarrow> u32) option" int "u32 WalkEnv"
| StackwalkerARM64 "(nat \<Rightarrow> u64) option" "u64 WalkEnv"
| StackwalkerRISCV "(nat \<Rightarrow> u32) option" "u32 WalkEnv"
| StackwalkerRISCV64 "(nat \<Rightarrow> u64) option" "u64 WalkEnv"

record SystemInfo =
  os :: string
  os_short_name :: string

record WalkLimits =
  limit_frames :: u32
  limit_scanned :: u32

text \<open>The constructor of the base class: it keeps what it is given and the two static limits.\<close>

definition Stackwalker_new ::
  "SystemInfo \<Rightarrow> 'w::len memory_region option \<Rightarrow> CodeModules option \<Rightarrow> CodeModules option \<Rightarrow> WalkLimits \<Rightarrow> 'w word WalkEnv" where
  "Stackwalker_new system_info memory modules unloaded_modules limits =
     \<lparr>env_memory = memory, env_modules = modules, env_unloaded_modules = unloaded_modules, os_name = os system_info,
      os_short = os_short_name system_info, max_frames = limit_frames limits, max_frames_scanned = limit_scanned limits\<rparr>"

abbreviation IOS_FP :: int where "IOS_FP \<equiv> 7"

definition StackwalkerForCPU ::
  "SystemInfo \<Rightarrow> DumpContext option \<Rightarrow> MinidumpMemoryRegion option \<Rightarrow> CodeModules option \<Rightarrow> CodeModules option \<Rightarrow>
   WalkLimits \<Rightarrow> Stackwalker option" where
  "StackwalkerForCPU system_info context memory modules unloaded_modules limits =
     (case context of
        None \<Rightarrow> None
      | Some c \<Rightarrow>
          (let cpu = GetContextCPU c;
               m32 = Option.bind memory memory_32;
               words_32 = map_option (\<lambda>m. GetMemoryAtAddress m :: 32 memory_region) memory;
               words_64 = map_option (\<lambda>m. GetMemoryAtAddress m :: 64 memory_region) memory
           in if cpu = MD_CONTEXT_X86 then
                Some (StackwalkerX86 (GetContextX86 c) (Stackwalker_new system_info m32 modules unloaded_modules limits))
              else if cpu = MD_CONTEXT_PPC then
                Some (StackwalkerPPC (GetContextPPC c) (Stackwalker_new system_info m32 modules unloaded_modules limits))
              else if cpu = MD_CONTEXT_PPC64 then
                Some (StackwalkerPPC64 (GetContextPPC64 c)
                  (Stackwalker_new system_info words_64 modules unloaded_modules limits))
              else if cpu = MD_CONTEXT_AMD64 then
                Some (StackwalkerAMD64 (GetContextAMD64 c)
                  (Stackwalker_new system_info words_64 modules unloaded_modules limits))
              else if cpu = MD_CONTEXT_SPARC then
                Some (StackwalkerSPARC (GetContextSPARC c)
                  (Stackwalker_new system_info words_32 modules unloaded_modules limits))
              else if cpu = MD_CONTEXT_MIPS then
                Some (StackwalkerMIPS (GetContextMIPS c)
                  (Stackwalker_new system_info (Option.bind memory mips_memory_32) modules unloaded_modules limits))
              else if cpu = MD_CONTEXT_MIPS64 then
                Some (StackwalkerMIPS64 (GetContextMIPS c)
                  (Stackwalker_new system_info (Option.bind memory mips_memory_64) modules unloaded_modules limits))
              else if cpu = MD_CONTEXT_ARM then
                Some (StackwalkerARM (GetContextARM c)
                  (if os_short_name system_info = ''ios'' then IOS_FP else - 1)
                  (Stackwalker_new system_info words_32 modules unloaded_modules limits))
              else if cpu = MD_CONTEXT_ARM64 then
                Some (StackwalkerARM64 (GetContextARM64 c)
                  (Stackwalker_new system_info words_64 modules unloaded_modules limits))
              else if cpu = MD_CONTEXT_RISCV then
                Some (StackwalkerRISCV (GetContextRISCV c)
                  (Stackwalker_new system_info words_32 modules unloaded_modules limits))
              else if cpu = MD_CONTEXT_RISCV64 then
                Some (StackwalkerRISCV64 (GetContextRISCV64 c)
                  (Stackwalker_new system_info words_64 modules unloaded_modules limits))
              else None))"

section \<open>Its walk\<close>

text \<open>
  A frame of any CPU: its instruction and stack pointers, its record and its module.
\<close>

type_synonym AnyFrame = "u64 \<times> u64 \<times> StackFrame \<times> CodeModule option"

definition any_frame ::
  "(('r, 'a, 'b, 'z) Frame_scheme \<Rightarrow> u64) \<Rightarrow> (('r, 'a, 'b, 'z) Frame_scheme \<Rightarrow> u64) \<Rightarrow> ('r, 'a, 'b, 'z) Frame_scheme \<Rightarrow> AnyFrame" where
  "any_frame ip sp f = (ip f, sp f, frame_info f, frame_module f)"

definition any_walk ::
  "(('r, 'a, 'b, 'z) Frame_scheme \<Rightarrow> u64) \<Rightarrow> (('r, 'a, 'b, 'z) Frame_scheme \<Rightarrow> u64) \<Rightarrow>
   ('w word WalkEnv \<Rightarrow> ('r, 'a, 'b, 'z) Frame_scheme option) \<Rightarrow> (('r, 'a, 'b, 'z) Frame_scheme, 'w word) get_caller \<Rightarrow>
   'w::len word WalkEnv \<Rightarrow> Symbolizer \<Rightarrow> (AnyFrame WalkState \<times> bool) option" where
  "any_walk ip sp get_context get_caller env sy =
     map_option (\<lambda>(st, ok). (\<lparr>ws_frames = map (map_CallFrame (any_frame ip sp)) (ws_frames st),
         ws_symbolizer = ws_symbolizer st, modules_without_symbols = modules_without_symbols st,
         modules_with_corrupt_symbols = modules_with_corrupt_symbols st, scanned_frames = scanned_frames st\<rparr>, ok))
       (Walk get_context get_caller env sy)"

primrec Stackwalker_Walk :: "Stackwalker \<Rightarrow> Symbolizer \<Rightarrow> (AnyFrame WalkState \<times> bool) option" where
  "Stackwalker_Walk (StackwalkerX86 regs env) = any_walk x86_ip x86_sp (x86_GetContextFrame regs) x86_GetCallerFrame env"
| "Stackwalker_Walk (StackwalkerPPC regs env) = any_walk ppc_ip ppc_sp (ppc_GetContextFrame regs) ppc_GetCallerFrame env"
| "Stackwalker_Walk (StackwalkerPPC64 regs env) = any_walk ppc_ip ppc_sp (ppc_GetContextFrame regs) ppc_GetCallerFrame env"
| "Stackwalker_Walk (StackwalkerAMD64 regs env) =
     any_walk amd64_ip amd64_sp (amd64_GetContextFrame regs) amd64_GetCallerFrame env"
| "Stackwalker_Walk (StackwalkerSPARC regs env) =
     any_walk sparc_ip sparc_sp (sparc_GetContextFrame regs) sparc_GetCallerFrame env"
| "Stackwalker_Walk (StackwalkerMIPS regs env) = any_walk mips_ip mips_sp (mips_GetContextFrame regs) mips_GetCallerFrame env"
| "Stackwalker_Walk (StackwalkerMIPS64 regs env) = any_walk mips_ip mips_sp (mips_GetContextFrame regs) mips_GetCallerFrame env"
| "Stackwalker_Walk (StackwalkerARM regs fp env) =
     any_walk arm_ip arm_sp (arm_GetContextFrame regs) (arm_GetCallerFrame fp) env"
| "Stackwalker_Walk (StackwalkerARM64 regs env) =
     any_walk arm64_ip arm64_sp (arm64_GetContextFrame regs) arm64_GetCallerFrame env"
| "Stackwalker_Walk (StackwalkerRISCV regs env) =
     any_walk riscv_ip riscv_sp (riscv_GetContextFrame regs) riscv_GetCallerFrame env"
| "Stackwalker_Walk (StackwalkerRISCV64 regs env) =
     any_walk riscv_ip riscv_sp (riscv_GetContextFrame regs) riscv_GetCallerFrame env"

end
