(* ===== verification/Walk_Properties.thy ===== *)
theory Walk_Properties
  imports Stackwalker_CPU
begin

text \<open>
  What a walk over the stack of a dump guarantees, for every CPU: the laws of the walkers, proved once in
  the locales \<open>cpu_walker\<close> and \<open>safe_walker\<close>, put together over \<open>StackwalkerForCPU\<close>.
\<close>

section \<open>Walks of every CPU\<close>

text \<open>
  The first frame is that of the context. Each later one lies above its callee on the stack (or at the same
  place, for the caller of the context frame), and its instruction pointer is not in the first page. Every
  frame has the module of its instruction. Scanned frames are counted and stay within their limit. The
  frames may be one more than the limit for all frames, because it is tested behind the push. No module is
  reported twice.
\<close>

definition well_walked :: "CodeModules option \<Rightarrow> CodeModules option \<Rightarrow> WalkLimits \<Rightarrow> AnyFrame WalkState \<Rightarrow> bool" where
  "well_walked modules unloaded_modules limits st \<longleftrightarrow>
     (let fs = cpu_frames (ws_frames st) in
      successively may_call (map (\<lambda>(ip, sp, i, m). (ip, sp, trust i)) fs) \<and>
      (fs \<noteq> [] \<longrightarrow> (case hd fs of (ip, sp, i, m) \<Rightarrow> trust i = FRAME_TRUST_CONTEXT)) \<and>
      (\<forall>(ip, sp, i, m)\<in>set fs. m = module_of modules unloaded_modules (instruction i)) \<and>
      length (filter (\<lambda>(ip, sp, i, m). is_dubious (trust i)) fs) = unat (scanned_frames st) \<and>
      scanned_frames st \<le> limit_scanned limits \<and> length fs \<le> unat (limit_frames limits) + 1 \<and>
      distinct (modules_without_symbols st) \<and> distinct (modules_with_corrupt_symbols st))"

lemma any_walk_well_walked:
  assumes "cpu_walker get_context get_caller ip sp"
    "any_walk ip sp get_context get_caller (Stackwalker_new sinfo mem ms us limits) sy = Some (st, ok)"
  shows "well_walked ms us limits st"
proof -
  obtain st0 where walk: "Walk get_context get_caller (Stackwalker_new sinfo mem ms us limits) sy = Some (st0, ok)"
    and st: "st = \<lparr>ws_frames = map (map_CallFrame (any_frame ip sp)) (ws_frames st0),
       ws_symbolizer = ws_symbolizer st0, modules_without_symbols = modules_without_symbols st0,
       modules_with_corrupt_symbols = modules_with_corrupt_symbols st0, scanned_frames = scanned_frames st0\<rparr>"
    using assms(2) by (auto simp: any_walk_def)
  have "cpu_walker.walk_ok ip sp (Stackwalker_new sinfo mem ms us limits) st0"
    by (rule cpu_walker.Walk_ok [OF assms(1) walk])
  then show ?thesis
    unfolding cpu_walker.walk_ok_def [OF assms(1)] cpu_walker.frames_ok_def [OF assms(1)]
      cpu_walker.dubious_count_def [OF assms(1)] well_walked_def Let_def
    by (simp add: st cpu_frames_map any_frame_def Stackwalker_new_def comp_def filter_map hd_map)
qed

lemmas walkers = x86.cpu_walker_axioms ppc.cpu_walker_axioms amd64.cpu_walker_axioms sparc.cpu_walker_axioms
  mips.cpu_walker_axioms mips64.cpu_walker_axioms arm.cpu_walker_axioms arm64.cpu_walker_axioms
  riscv.cpu_walker_axioms riscv64.cpu_walker_axioms

lemma StackwalkerForCPU_walks:
  assumes "StackwalkerForCPU sinfo c mem ms us limits = Some w" "Stackwalker_Walk w sy = Some (st, ok)"
  shows "well_walked ms us limits st"
proof -
  have "\<forall>st ok. Stackwalker_Walk w sy = Some (st, ok) \<longrightarrow> well_walked ms us limits st"
    using assms(1)
    by (cases c) (auto simp: StackwalkerForCPU_def Let_def split: if_splits dest: walkers [THEN any_walk_well_walked])
  then show ?thesis
    using assms(2) by blast
qed

text \<open>The memory a walker is given is the memory of the dump, if any.\<close>

definition dump_memory :: "'w::len memory_region option \<Rightarrow> bool" where
  "dump_memory memory \<longleftrightarrow> (\<forall>mem. memory = Some mem \<longrightarrow> (\<exists>m. mem = GetMemoryAtAddress m))"

lemma any_walk_returns:
  assumes "safe_walker get_context get_caller ip sp" "dump_memory (mem :: 'w::len memory_region option)"
    "LENGTH('w) \<le> 512" "safe_symbols TYPE('w) sy"
  shows "\<exists>st ok. any_walk ip sp get_context get_caller (Stackwalker_new sinfo mem ms us limits) sy = Some (st, ok)"
proof -
  have "\<forall>m. env_memory (Stackwalker_new sinfo mem ms us limits) = Some m \<longrightarrow> memory_ok m"
    using assms(2,3) GetMemoryAtAddress_ok by (auto simp: dump_memory_def Stackwalker_new_def)
  then show ?thesis
    using safe_walker.Walk_returns [OF assms(1) _ assms(4)] by (fastforce simp: any_walk_def)
qed

lemma dump_memory_made [simp]:
  "dump_memory (map_option GetMemoryAtAddress memory)" "dump_memory (Option.bind memory memory_32)"
  "dump_memory (Option.bind memory mips_memory_32)" "dump_memory (Option.bind memory mips_memory_64)"
  by (cases memory; auto simp: dump_memory_def memory_32_def mips_memory_32_def mips_memory_64_def)+

lemmas safe_walkers = ppc.safe_walker_axioms amd64.safe_walker_axioms sparc.safe_walker_axioms
  mips.safe_walker_axioms mips64.safe_walker_axioms arm64.safe_walker_axioms riscv.safe_walker_axioms
  riscv64.safe_walker_axioms

lemma StackwalkerForCPU_returns:
  assumes "StackwalkerForCPU sinfo (Some c) mem ms us limits = Some w" "GetContextCPU c \<notin> {MD_CONTEXT_X86, MD_CONTEXT_ARM}"
    "safe_symbols TYPE(32) sy" "safe_symbols TYPE(64) sy"
  shows "\<exists>st ok. Stackwalker_Walk w sy = Some (st, ok)"
  using assms
  by (auto simp: StackwalkerForCPU_def Let_def split: if_splits intro!: safe_walkers [THEN any_walk_returns])

section \<open>The first frame\<close>

context cpu_walker
begin

definition starts_with :: "('r, 'a, 'b, 'z) Frame_scheme \<Rightarrow> ('r, 'a, 'b, 'z) Frame_scheme list \<Rightarrow> bool" where
  "starts_with f fs \<longleftrightarrow> (case fs of [] \<Rightarrow> True
     | g # _ \<Rightarrow> frame_sp g = frame_sp f \<and> instruction (frame_info g) = instruction (frame_info f))"

lemma starts_with_view:
  assumes "map view frames' = map view frames"
  shows "starts_with f (cpu_frames frames') = starts_with f (cpu_frames frames)"
proof -
  have "map pointers_info (cpu_frames frames') = map pointers_info (cpu_frames frames)"
    unfolding cpu_frames_map [symmetric] assms ..
  then show ?thesis
    by (cases "cpu_frames frames"; cases "cpu_frames frames'") (auto simp: starts_with_def)
qed

lemma visit_frame_starts:
  assumes "visit_frame env g st = Some (st', go_on)" "starts_with f (cpu_frames (ws_frames st))"
    "cpu_frames (ws_frames st) = [] \<longrightarrow> g = f"
  shows "starts_with f (cpu_frames (ws_frames st')) \<and> (go_on \<longrightarrow> cpu_frames (ws_frames st') \<noteq> [])"
  using assms(1)
proof (cases rule: visit_frame_cases)
  case interrupted
  then show ?thesis
    using assms(2) by simp
next
  case (visited inl g')
  have "frame_sp g' = frame_sp g"
    using pointers(2) [where f = g and i = "frame_info g'" and m = "frame_module g'"] visited(3) by simp
  then show ?thesis
    using visited(2,5) assms(2,3)
    by (cases "cpu_frames (ws_frames st)") (auto simp: starts_with_def)
qed

lemma walk_loop_starts:
  "walk_loop gc env frame st = Some res \<Longrightarrow> gc = get_caller \<Longrightarrow> starts_with f (cpu_frames (ws_frames st)) \<Longrightarrow>
   cpu_frames (ws_frames st) = [] \<longrightarrow> frame \<in> {None, Some f} \<Longrightarrow> starts_with f (cpu_frames (ws_frames (fst res)))"
proof (induction rule: walk_loop.raw_induct [rotated, consumes 1, case_names step])
  case (step loop gc env frame st res)
  show ?case
  proof (cases frame)
    case None
    then show ?thesis
      using step(2,4) by auto
  next
    case (Some g)
    obtain st1 go_on where v: "visit_frame env g st = Some (st1, go_on)"
      using step(2) Some by (auto split: bind_splits)
    have starts: "starts_with f (cpu_frames (ws_frames st1)) \<and> (go_on \<longrightarrow> cpu_frames (ws_frames st1) \<noteq> [])"
      using visit_frame_starts [OF v step(4)] step(5) Some by auto
    show ?thesis
    proof (cases "go_on \<and> \<not> unat (max_frames env) < length (ws_frames st1)")
      case True
      then obtain sy frames caller where
        c: "get_caller env (ws_frames st1) (scanned_frames st1 < max_frames_scanned env) (ws_symbolizer st1) =
          Some (sy, frames, caller)" and
        l: "loop get_caller env caller (st1\<lparr>ws_symbolizer := sy, ws_frames := frames\<rparr>) = Some res"
        using step(2,3) Some v by (auto split: bind_splits)
      note same = starts_with_view [OF corrections [OF c]] frames_ok_view(3) [OF corrections [OF c]]
      have "cpu_frames frames \<noteq> []"
        using same(2) starts True by auto
      then show ?thesis
        using step(1) [OF l refl] same(1) starts by auto
    next
      case False
      then show ?thesis
        using step(2) Some v starts by (auto split: if_splits)
    qed
  qed
qed

lemma Walk_starts:
  assumes "Walk get_context get_caller env sy = Some (st, ok)" "cpu_frames (ws_frames st) = g # fs"
  obtains f where "get_context env = Some f" "frame_sp g = frame_sp f" "instruction (frame_info g) = instruction (frame_info f)"
proof (cases "get_context env")
  case None
  then show ?thesis
    using assms by (auto simp: Walk_def walk_loop.simps WalkState_new_def)
next
  case (Some f)
  have "starts_with f (cpu_frames (ws_frames st))"
    using walk_loop_starts [OF assms(1) [unfolded Walk_def] refl, of f] Some by (simp add: WalkState_new_def starts_with_def)
  then show ?thesis
    using that [OF Some] assms(2) by (simp add: starts_with_def)
qed

end

lemma any_walk_starts:
  assumes "cpu_walker get_context get_caller ip sp"
    "any_walk ip sp get_context get_caller env sy = Some (st, ok)" "cpu_frames (ws_frames st) = (i, s, info, m) # fs"
  obtains f where "get_context env = Some f" "s = sp f" "instruction info = instruction (frame_info f)"
proof -
  obtain st0 where walk: "Walk get_context get_caller env sy = Some (st0, ok)"
    and st: "ws_frames st = map (map_CallFrame (any_frame ip sp)) (ws_frames st0)"
    using assms(2) by (auto simp: any_walk_def)
  obtain g gs where g: "cpu_frames (ws_frames st0) = g # gs" "s = sp g" "info = frame_info g"
    using assms(3) by (auto simp: st cpu_frames_map any_frame_def)
  obtain f where "get_context env = Some f" "sp g = sp f" "instruction (frame_info g) = instruction (frame_info f)"
    by (rule cpu_walker.Walk_starts [OF assms(1) walk g(1)])
  then show ?thesis
    using that g(2,3) by simp
qed

definition starts_at_context :: "DumpContext \<Rightarrow> AnyFrame WalkState \<Rightarrow> bool" where
  "starts_at_context c st \<longleftrightarrow> (case cpu_frames (ws_frames st) of
      [] \<Rightarrow> True
    | (ip, sp, info, m) # fs \<Rightarrow>
        GetInstructionPointer c = Some (instruction info) \<and> GetStackPointer c = Some sp)"

lemma first_frame_of_context:
  assumes "cpu_walker get_context get_caller ip sp" "any_walk ip sp get_context get_caller env sy = Some (st, ok)"
    "\<And>f. get_context env = Some f \<Longrightarrow>
      GetInstructionPointer c = Some (instruction (frame_info f)) \<and> GetStackPointer c = Some (sp f)"
  shows "starts_at_context c st"
proof (cases "cpu_frames (ws_frames st)")
  case (Cons g fs)
  then obtain i s info m where "cpu_frames (ws_frames st) = (i, s, info, m) # fs"
    by (cases g) auto
  then show ?thesis
    unfolding starts_at_context_def using assms(3)
    by (auto elim: any_walk_starts [OF assms(1,2)])
qed (simp add: starts_at_context_def)

lemmas context_frame_defs = x86_GetContextFrame_def ppc_GetContextFrame_def amd64_GetContextFrame_def
  sparc_GetContextFrame_def mips_GetContextFrame_def arm_GetContextFrame_def arm64_GetContextFrame_def
  riscv_GetContextFrame_def

lemmas stack_pointer_defs = x86_sp_def ppc_sp_def amd64_sp_def sparc_sp_def mips_sp_def arm_sp_def arm64_sp_def
  riscv_sp_def

lemma instruction_set [simp]: "instruction (frame_info (set_instruction i f)) = i"
  by (simp add: set_instruction_def)

lemma GetContextCPU_valid: "GetContextCPU c \<noteq> 0 \<Longrightarrow> dc_valid c"
  by (auto simp: GetContextCPU_def split: if_splits)

lemma StackwalkerForCPU_starts:
  assumes "StackwalkerForCPU sinfo (Some c) mem ms us limits = Some w" "Stackwalker_Walk w sy = Some (st, ok)"
  shows "starts_at_context c st"
proof -
  have "dc_valid c"
    using assms(1) by (intro GetContextCPU_valid) (auto simp: StackwalkerForCPU_def context_cpu_defs)
  then have "\<forall>st ok. Stackwalker_Walk w sy = Some (st, ok) \<longrightarrow> starts_at_context c st"
    using assms(1)
    by (auto simp: StackwalkerForCPU_def Let_def split: if_splits)
      (erule walkers [THEN first_frame_of_context],
        auto simp: GetInstructionPointer_def GetStackPointer_def read_context_def context_frame_defs
          stack_pointer_defs context_cpu_defs)+
  then show ?thesis
    using assms(2) by blast
qed

section \<open>Walks that scan\<close>

text \<open>All words before the one found can be read, and in the memory of a dump they follow each other.\<close>

lemma scan_from_range:
  "scan_from env limit location sy = Some res \<Longrightarrow> snd res = Some found \<Longrightarrow>
   \<exists>k. fst found = location + of_nat k * of_nat (word_size TYPE('w)) \<and>
     (\<forall>j\<le>k. read_memory (env :: 'w::len word WalkEnv) (ucast (location + of_nat j * of_nat (word_size TYPE('w)))) \<noteq> None)"
proof (induction rule: scan_from.raw_induct [rotated, consumes 1, case_names step])
  case (step scan env limit location sy res)
  let ?n = "of_nat (word_size TYPE('w)) :: 'w word"
  consider (here) ip where "found = (location, ip)" "read_memory env (ucast location) = Some ip"
    | (later) sy1 ip where "scan env limit (location + ?n) sy1 = Some res" "read_memory env (ucast location) = Some ip"
    using step(2,3) by (auto simp: not_less split: if_splits option.splits bind_splits)
  then show ?case
  proof cases
    case here
    then show ?thesis
      by (intro exI [of _ 0]) simp
  next
    case later
    obtain k where k: "fst found = location + ?n + of_nat k * ?n"
      "\<forall>j\<le>k. read_memory env (ucast (location + ?n + of_nat j * ?n)) \<noteq> None"
      using step(1) [OF later(1) step(3)] by blast
    have "read_memory env (ucast (location + of_nat j * ?n)) \<noteq> None" if "j \<le> Suc k" for j
      using k(2) later(2) that by (cases j) (auto simp: algebra_simps)
    then show ?thesis
      using k(1) by (intro exI [of _ "Suc k"]) (simp add: algebra_simps)
  qed
qed

lemma unat_scan_steps:
  fixes location :: "'w::len word"
  assumes "32 \<le> LENGTH('w)" "LENGTH('w) \<le> 64" "env_memory env = Some mem" "memory_ok mem"
    "\<forall>j\<le>k. read_memory env (ucast (location + of_nat j * of_nat (word_size TYPE('w)))) \<noteq> None"
  shows "unat (location + of_nat k * of_nat (word_size TYPE('w))) = unat location + k * word_size TYPE('w)"
  using assms(5)
proof (induction k)
  case (Suc k)
  let ?n = "of_nat (word_size TYPE('w)) :: 'w word" and ?l = "location + of_nat k * of_nat (word_size TYPE('w))"
  have next_word: "location + of_nat (Suc k) * ?n = ?l + ?n"
    by (simp add: algebra_simps)
  have "mem (ucast ?l) \<noteq> None" "mem (ucast (?l + ?n)) \<noteq> None"
    using Suc(2) [rule_format, of k] Suc(2) [rule_format, of "Suc k"] assms(3)
    by (simp_all add: read_memory_def next_word del: of_nat_Suc)
  then have "unat (?l + ?n) = unat ?l + word_size TYPE('w)"
    by (rule scan_next [OF assms(1,2,4)])
  then show ?case
    using Suc by (simp add: next_word del: of_nat_Suc)
qed simp

lemma scan_found:
  fixes env :: "'w::len word WalkEnv"
  assumes "32 \<le> LENGTH('w)" "LENGTH('w) \<le> 64" "env_memory env = Some (GetMemoryAtAddress m)"
    "unat start + n * word_size TYPE('w) < 2 ^ 64"
    "ScanForReturnAddress env start n sy = Some (sy', Some (location, ip))"
  shows "read_memory env (ucast location) = Some ip \<and> in_loaded_module env (ucast (ip - 1)) \<and>
    (\<exists>k\<le>n. unat location = unat start + k * word_size TYPE('w))"
proof -
  have mem: "memory_ok (GetMemoryAtAddress m :: 'w memory_region)"
    using assms(2) by (intro GetMemoryAtAddress_ok) simp
  note scan = assms(5) [unfolded ScanForReturnAddress_def]
  have found: "scan_result env (ucast start + of_nat n * of_nat (word_size TYPE('w))) (location, ip)"
    using scan_from_found [OF scan, of "(location, ip)"] by simp
  obtain k where k: "location = start + of_nat k * of_nat (word_size TYPE('w))"
    "\<forall>j\<le>k. read_memory env (ucast (start + of_nat j * of_nat (word_size TYPE('w)))) \<noteq> None"
    using scan_from_range [OF scan, of "(location, ip)"] by auto
  have at: "unat location = unat start + k * word_size TYPE('w)"
    unfolding k(1) by (rule unat_scan_steps [OF assms(1-3) mem k(2)])
  have "unat (ucast start + of_nat n * of_nat (word_size TYPE('w)) :: u64) = unat start + n * word_size TYPE('w)"
  proof -
    have "unat (of_nat (n * word_size TYPE('w)) :: u64) = n * word_size TYPE('w)"
      using assms(4) by (simp only: unat_of_nat take_bit_nat_def) simp
    then show ?thesis
      using assms(2,4) unat_add_lem [of "ucast start :: u64" "of_nat (n * word_size TYPE('w))"] by simp
  qed
  then have "unat location \<le> unat start + n * word_size TYPE('w)"
    using found assms(2) by (simp add: scan_result_def word_le_nat_alt)
  then have "k \<le> n"
    using at assms(1) by simp
  then show ?thesis
    using at found by (auto simp: scan_result_def)
qed

section \<open>A walk on ARM64\<close>

text \<open>A stack with two frame records: the walk finds the caller and its caller, and stops at the frame pointer 0.\<close>

definition demo_context :: DumpContext where
  "demo_context = \<lparr>dc_valid = True, context_flags = 0x00400002,
     raw_context = RawARM64 ((\<lambda>_. 0)(arm64_PC := 0x401000, arm64_SP := 0x8000, arm64_FP := 0x8000, arm64_LR := 0x401100))\<rparr>"

definition demo_limits :: WalkLimits where "demo_limits = \<lparr>limit_frames = 2, limit_scanned = 3\<rparr>"
definition demo_system :: SystemInfo where "demo_system = \<lparr>os = ''Linux'', os_short_name = ''linux''\<rparr>"

definition demo_env :: "u64 WalkEnv" where
  "demo_env = Stackwalker_new demo_system (Some (GetMemoryAtAddress demo_region)) None None demo_limits"

lemma demo_region_unfold: "region_descriptor demo_region = Some \<lparr>start_of_memory_range = 0x8000, memory_data_size = 48, memory_rva = 0\<rparr>"
  "region_valid demo_region" "\<not> dump_swap demo_region"
  by (simp_all add: demo_region_def SetDescriptor_def MinidumpMemoryRegion_new_def)

lemma demo_reads:
  "read_memory demo_env 0x8000 = Some 0x8020" "read_memory demo_env 0x8008 = Some 0x401200"
  "read_memory demo_env 0x8020 = Some 0" "read_memory demo_env 0x8028 = Some 0x401300"
  by (simp_all add: read_memory_def demo_env_def Stackwalker_new_def GetMemoryAtAddress_def demo_region_bytes demo_region_unfold,
     simp_all add: demo_stack_def host_value_def)


lemma demo_simps:
  "max_frames demo_env = 2" "max_frames_scanned demo_env = 3" "env_modules demo_env = None" "env_unloaded_modules demo_env = None"
  "env_memory demo_env \<noteq> None"
  by (simp_all add: demo_env_def Stackwalker_new_def demo_limits_def)

definition demo_frame :: "FrameTrust \<Rightarrow> u64 \<Rightarrow> u64 \<Rightarrow> u64 \<Rightarrow> u64 \<Rightarrow> u64 \<Rightarrow> FrameARM64" where
  "demo_frame t pc sp fp lr ins = \<lparr>frame_info = (StackFrame_new 0 0)\<lparr>trust := t, instruction := ins\<rparr>, frame_module = None,
     cpu_context = (\<lambda>_. 0)(arm64_PC := pc, arm64_SP := sp, arm64_FP := fp, arm64_LR := lr),
     context_validity = if t = FRAME_TRUST_CONTEXT then - 1 
       else (register_flag arm64_PC OR register_flag arm64_LR OR register_flag arm64_FP OR register_flag arm64_SP)\<rparr>"

abbreviation demo_symbols where "demo_symbols \<equiv> Symbolizer_new None None 0"

lemma demo_visit:
  "ws_symbolizer st = demo_symbols \<Longrightarrow> \<not> is_dubious t \<Longrightarrow> visit_frame demo_env (demo_frame t pc sp fp lr ins) st =
   Some (st\<lparr>ws_frames := ws_frames st @ [CpuFrame (demo_frame t pc sp fp lr ins)]\<rparr>, True)"
  by (cases st) (simp add: visit_frame_def FillSourceLineInfo_def demo_simps module_of_def note_result_def count_scanned_def
      InsertSpecialAttentionModule_def demo_frame_def)

lemma demo_strip: "PtrauthStrip demo_env p = p"
  by (simp add: PtrauthStrip_def in_loaded_module_def demo_simps)

lemma demo_frame_simps:
  "cpu_context (demo_frame t pc sp fp lr ins) = (\<lambda>_. 0)(arm64_PC := pc, arm64_SP := sp, arm64_FP := fp, arm64_LR := lr)"
  "frame_info (demo_frame t pc sp fp lr ins) = (new_info t)\<lparr>instruction := ins\<rparr>"
  "has_flag (context_validity (demo_frame t pc sp fp lr ins)) arm64_LR"
  by (auto simp: demo_frame_def new_info_def has_flag_bit register_flag_def bit_simps)

lemma demo_recover:
  assumes "(if fp \<noteq> 0 then read_memory demo_env fp else Some 0) = Some fp'"
    "(if fp \<noteq> 0 then read_memory demo_env (fp + 8) else Some 0) = Some lr'" "sp' = (if fp \<noteq> 0 then fp + 16 else sp)"
  shows "arm64_GetCallerByFramePointer demo_env frames (demo_frame t lr0 sp fp lr ins) =
    (demo_frame t lr0 sp fp lr ins, Some (demo_frame FRAME_TRUST_FP lr sp' fp' lr' 0))"
proof -
  have "((\<lambda>_. 0)(arm64_PC := lr0, arm64_SP := sp, arm64_FP := fp, arm64_LR := lr))
      (arm64_FP := fp', arm64_SP := sp', arm64_PC := lr, arm64_LR := lr') =
    (\<lambda>_. 0)(arm64_PC := lr, arm64_SP := sp', arm64_FP := fp', arm64_LR := lr')"
    by (auto simp: fun_eq_iff)
  moreover have "demo_frame FRAME_TRUST_FP lr sp' fp' lr' 0 = new_frame FRAME_TRUST_FP
     ((\<lambda>_. 0)(arm64_PC := lr, arm64_SP := sp', arm64_FP := fp', arm64_LR := lr'))
     (register_flag arm64_PC OR register_flag arm64_LR OR register_flag arm64_FP OR register_flag arm64_SP)"
    by (simp add: demo_frame_def new_frame_def new_info_def StackFrame_new_def)
  moreover note arm64_follows_frame_pointer [OF demo_frame_simps(3) _ assms(1,2)]
  ultimately show ?thesis
    by (cases "fp = 0") (simp_all add: demo_frame_simps(1) demo_strip assms(3))
qed

lemma demo_step:
  assumes "(if fp \<noteq> 0 then read_memory demo_env fp else Some 0) = Some fp'"
    "(if fp \<noteq> 0 then read_memory demo_env (fp + 8) else Some 0) = Some lr'" "sp' = (if fp \<noteq> 0 then fp + 16 else sp)"
    "t \<noteq> FRAME_TRUST_NONE"
  shows "arm64_GetCallerFrame demo_env (frames @ [CpuFrame (demo_frame t lr0 sp fp lr ins)]) scan demo_symbols =
    Some (demo_symbols, frames @ [CpuFrame (demo_frame t lr0 sp fp lr ins)],
      if TerminateWalk lr sp' sp (t = FRAME_TRUST_CONTEXT) then None
      else Some (demo_frame FRAME_TRUST_FP lr sp' fp' lr' (lr - 4)))"
  using demo_recover [OF assms(1-3)]
  by (simp add: arm64_GetCallerFrame_def demo_simps Symbolizer_FindCFIFrameInfo_def Symbolizer_new_def replace_back_def
    finish_frame_def arm64_ip_def arm64_sp_def demo_frame_simps is_context_frame_def new_info_def set_instruction_def)
   (simp add: demo_frame_def)

definition demo_frames :: "FrameARM64 list" where
  "demo_frames = [demo_frame FRAME_TRUST_CONTEXT 0x401000 0x8000 0x8000 0x401100 0x401000,
     demo_frame FRAME_TRUST_FP 0x401100 0x8010 0x8020 0x401200 0x4010fc,
     demo_frame FRAME_TRUST_FP 0x401200 0x8030 0 0x401300 0x4011fc]"

definition demo_state :: "FrameARM64 list \<Rightarrow> FrameARM64 WalkState" where
  "demo_state fs = (WalkState_new demo_symbols)\<lparr>ws_frames := map CpuFrame fs\<rparr>"

lemma demo_state_step:
  assumes "\<not> is_dubious t" "length fs < 2"
    "arm64_GetCallerFrame demo_env (map CpuFrame fs @ [CpuFrame (demo_frame t pc sp fp lr ins)]) True demo_symbols =
       Some (demo_symbols, map CpuFrame fs @ [CpuFrame (demo_frame t pc sp fp lr ins)], caller)"
  shows "walk_loop arm64_GetCallerFrame demo_env (Some (demo_frame t pc sp fp lr ins)) (demo_state fs) =
    walk_loop arm64_GetCallerFrame demo_env caller (demo_state (fs @ [demo_frame t pc sp fp lr ins]))"
  using assms
  by (subst walk_loop_step [OF demo_visit]) (simp_all add: demo_state_def WalkState_new_def demo_simps)

text \<open>The frame that exceeds the limit is kept, and ends the walk.\<close>

lemma walk_loop_limit:
  assumes "visit_frame env f st = Some (st1, True)" "unat (max_frames env) < length (ws_frames st1)"
  shows "walk_loop gc env (Some f) st = Some (st1, True)"
  using assms by (subst walk_loop.simps) simp

lemma demo_state_limit:
  assumes "\<not> is_dubious t" "length fs = 2"
  shows "walk_loop arm64_GetCallerFrame demo_env (Some (demo_frame t pc sp fp lr ins)) (demo_state fs) =
    Some (demo_state (fs @ [demo_frame t pc sp fp lr ins]), True)"
  using assms by (subst walk_loop_limit [OF demo_visit]) (simp_all add: demo_state_def WalkState_new_def demo_simps)

lemma demo_Walk:
  "Walk (arm64_GetContextFrame (GetContextARM64 demo_context)) arm64_GetCallerFrame demo_env demo_symbols =
     Some (demo_state demo_frames, True)"
proof -
  have "arm64_GetContextFrame (GetContextARM64 demo_context) demo_env = Some (demo_frames ! 0)"
    by (simp add: arm64_GetContextFrame_def GetContextARM64_def GetContextCPU_def demo_context_def MD_CONTEXT_CPU_MASK_def
        context_cpu_defs demo_frames_def demo_frame_def demo_strip set_instruction_def new_frame_def new_info_def fun_eq_iff)
  moreover have "WalkState_new demo_symbols = demo_state []"
    by (simp add: demo_state_def WalkState_new_def)
  ultimately show ?thesis
    unfolding Walk_def demo_frames_def
    by (simp add: demo_state_step demo_state_limit demo_step [OF _ _ refl] demo_reads is_dubious_def TerminateWalk_def
       demo_step [OF _ _ refl, where frames = "[]", simplified] demo_step [OF _ _ refl, where frames = "[_]", simplified]
       demo_step [OF _ _ refl, where frames = "[_, _]", simplified])
qed

definition demo_walker :: Stackwalker where
  "demo_walker = StackwalkerARM64 (GetContextARM64 demo_context) demo_env"

lemma demo_walker_made:
  "StackwalkerForCPU demo_system (Some demo_context) (Some demo_region) None None demo_limits = Some demo_walker"
  by (simp add: StackwalkerForCPU_def GetContextCPU_def demo_context_def MD_CONTEXT_CPU_MASK_def context_cpu_defs
      demo_walker_def demo_env_def)

lemma demo_walker_walks:
  "Stackwalker_Walk demo_walker demo_symbols = Some ((WalkState_new demo_symbols)\<lparr>ws_frames :=
     map (\<lambda>f. CpuFrame (any_frame arm64_ip arm64_sp f)) demo_frames\<rparr>, True)"
  by (simp add: demo_walker_def any_walk_def demo_Walk demo_state_def WalkState_new_def)

section \<open>Walks over a dump\<close>

text \<open>C29. Whatever walker the context of a dump selects, when its walk returns: the first frame is that of the context,
  with the context's instruction and stack pointers; each later frame lies higher on the stack than its
  callee, its instruction pointer is not in the first page, and it has the module of its instruction; the
  frames found by scanning are counted and within their limit; the frames of functions that are not inlined
  are at most one more than the limit on frames, which is tested when a frame has been added; and no
  module is reported twice.\<close>

theorem dump_walk_well_walked:
  assumes "StackwalkerForCPU sinfo (Some c) mem ms us limits = Some w" "Stackwalker_Walk w sy = Some (st, ok)"
  shows "well_walked ms us limits st \<and> starts_at_context c st"
  by (rule conjI [OF StackwalkerForCPU_walks [OF assms] StackwalkerForCPU_starts [OF assms]])

theorem dump_walk_well_walked_witness:
  "\<exists>st. Stackwalker_Walk demo_walker demo_symbols = Some (st, True) \<and>
     map (\<lambda>(ip, sp, i, m). (ip, sp, instruction i, trust i)) (cpu_frames (ws_frames st)) =
       [(0x401000, 0x8000, 0x401000, FRAME_TRUST_CONTEXT), (0x401100, 0x8010, 0x4010fc, FRAME_TRUST_FP),
        (0x401200, 0x8030, 0x4011fc, FRAME_TRUST_FP)] \<and> limit_frames demo_limits = 2 \<and>
     well_walked None None demo_limits st \<and> starts_at_context demo_context st"
  using demo_walker_walks dump_walk_well_walked [OF demo_walker_made demo_walker_walks]
  by (simp add: demo_frames_def any_frame_def arm64_ip_def arm64_sp_def demo_frame_simps new_info_def demo_limits_def)

text \<open>C30. Every walk returns, but on x86 and ARM, if the symbols that are loaded do not crash the program: the
  searches and scans of a step end in the memory of any dump, and the stack pointers that rise and the limit
  on frames end the walk.\<close>

theorem dump_walk_returns:
  assumes "StackwalkerForCPU sinfo (Some c) mem ms us limits = Some w" "GetContextCPU c \<notin> {MD_CONTEXT_X86, MD_CONTEXT_ARM}"
    "safe_symbols TYPE(32) sy" "safe_symbols TYPE(64) sy"
  shows "\<exists>st ok. Stackwalker_Walk w sy = Some (st, ok)"
  by (rule StackwalkerForCPU_returns [OF assms])

theorem dump_walk_returns_witness:
  "\<exists>st ok. Stackwalker_Walk demo_walker (Symbolizer_new (Some (\<lambda>_ _. NOT_FOUND)) (Some Resolver_new) 0) = Some (st, ok)"
  by (rule dump_walk_returns [OF demo_walker_made])
    (simp_all add: GetContextCPU_def demo_context_def MD_CONTEXT_CPU_MASK_def context_cpu_defs safe_symbols_def
      Symbolizer_new_def Resolver_new_def)

text \<open>C31. What a scan finds. The word found can be read, it points just past an address in a module, and it is one of
  the words from the start of the scan up to the word after the searched ones.\<close>

theorem ScanForReturnAddress_found:
  fixes env :: "'w::len word WalkEnv"
  assumes "32 \<le> LENGTH('w)" "LENGTH('w) \<le> 64" "env_memory env = Some (GetMemoryAtAddress m)"
    "unat start + n * word_size TYPE('w) < 2 ^ 64"
    "ScanForReturnAddress env start n sy = Some (sy', Some (location, ip))"
  shows "read_memory env (ucast location) = Some ip \<and> in_loaded_module env (ucast (ip - 1)) \<and>
    (\<exists>k\<le>n. unat location = unat start + k * word_size TYPE('w))"
  by (rule scan_found [OF assms])

text \<open>The same stack with a module: a scan skips the saved frame pointer and finds the return address.\<close>

definition demo_scan_env :: "u64 WalkEnv" where
  "demo_scan_env = Stackwalker_new demo_system (Some (GetMemoryAtAddress demo_region)) (Some demo_modules) None demo_limits"

lemma demo_scan:
  "\<exists>sy. ScanForReturnAddress demo_scan_env 0x8000 40 demo_symbols = Some (sy, Some (0x8008, 0x401200))"
proof -
  have env: "env_modules demo_scan_env = Some demo_modules" "env_unloaded_modules demo_scan_env = None"
    and reads: "read_memory demo_scan_env = read_memory demo_env"
    by (simp_all add: demo_scan_env_def demo_env_def Stackwalker_new_def read_memory_def fun_eq_iff)
  show ?thesis
    unfolding ScanForReturnAddress_def
    by (subst scan_from.simps, simp add: reads demo_reads in_loaded_module_def env, subst scan_from.simps)
      (simp add: reads demo_reads in_loaded_module_def env InstructionAddressSeemsValid_def FillSourceLineInfo_def
        module_of_def StackFrame_new_def Symbolizer_new_def HasImplementation_def set_module_def)
qed

theorem ScanForReturnAddress_found_witness:
  "\<exists>k\<le>40. unat (0x8008 :: u64) = unat (0x8000 :: u64) + k * 8 \<and> read_memory demo_scan_env 0x8008 = Some 0x401200 \<and>
     in_loaded_module demo_scan_env 0x4011ff"
proof -
  obtain sy where "ScanForReturnAddress demo_scan_env 0x8000 40 demo_symbols = Some (sy, Some (0x8008, 0x401200))"
    using demo_scan by blast
  then show ?thesis
    using ScanForReturnAddress_found [of demo_scan_env demo_region "0x8000" 40 demo_symbols sy "0x8008" "0x401200"]
    by (simp add: demo_scan_env_def Stackwalker_new_def) 
qed

end
