(* ===== verification/Spec2Isabelle.thy ===== *)
theory Spec2Isabelle
  imports Dump_CFI Dump_Numbering Static_Properties Dwarf_Line_Properties Dwarf_Range_Properties Walk_Properties
begin

text \<open>
  Verification of the symbol and stack processing core of Breakpad, the crash reporter that the app
  vendors under src/app/src/main/cpp/breakpad/src. File names below are relative to that directory.

  \<^bold>\<open>The program.\<close> A dump tool reads the debugging information of a binary and collects functions,
  lines, inlined calls, public symbols and call frame rules in a \<open>Module\<close>, which it writes as a symbol
  file, a text of one record a line. When a crash is processed, a resolver loads the symbol file of each
  module into range maps and answers, for the address of a frame: the function, source line and inlined
  calls there, and the rules to recover the registers of the caller. The rules are programs in postfix
  notation, which an evaluator runs over the registers and the memory of the crashed thread. A stack walker
  for the CPU of the dump goes from the frame of the register context to its callers, with these rules,
  with frame pointers or by scanning the stack, while a symbolizer fetches the symbols of each module it
  meets. A loaded module can be serialized into one block of bytes; the fast resolver answers the same lookups directly
  from such a block, with read-only maps over raw memory.

  \<^bold>\<open>Which theory models what.\<close>

  \<^item> \<^theory_text>\<open>BP_Prelude\<close> (common/safe_math.h), \<^theory_text>\<open>Ordered_Map\<close> (the part of \<open>std::map\<close> in use, as a sorted
    association list), \<^theory_text>\<open>C_Strings\<close> (the C string and number functions), \<^theory_text>\<open>Byte_Memory\<close> (memory as a
    function from 64-bit addresses to bytes): what all components share.
  \<^item> \<^theory_text>\<open>Disjoint_Ranges\<close>, \<^theory_text>\<open>Range_Map\<close>, \<^theory_text>\<open>Contained_Range_Map\<close>, \<^theory_text>\<open>Address_Map\<close>: processor/range_map,
    contained_range_map and address_map, with every merge strategy. A \<open>std::map\<close> keyed by the high
    address of a range is the association list; the recursion of \<open>StoreRange\<close> is a partial function
    that is proved to return on every well-formed map.
  \<^item> \<^theory_text>\<open>Static_Map\<close>, \<^theory_text>\<open>Static_Range_Map\<close>, \<^theory_text>\<open>Static_Contained_Range_Map\<close>: processor/static_map,
    static_map_iterator, static_range_map, static_address_map and static_contained_range_map: the
    read-only maps over bytes, their iterators, searches and validation. \<^theory_text>\<open>Static_Properties\<close> has
    their refinement theorems.
  \<^item> \<^theory_text>\<open>Symbol_Types\<close>: the records of a symbol file and the stack frame. \<^theory_text>\<open>Symbol_Records\<close>, \<^theory_text>\<open>Symbol_Loader\<close>:
    tokenizer, record parsers and loader (processor/tokenize.cc, basic_source_line_resolver.cc,
    windows_frame_info.h). \<^theory_text>\<open>Basic_Lookup\<close>, \<^theory_text>\<open>CFI_Lookup\<close>: the lookups of a loaded module.
  \<^item> \<^theory_text>\<open>Simple_Serializers\<close>, \<^theory_text>\<open>Map_Serializers\<close>, \<^theory_text>\<open>Module_Serializer\<close>: processor/simple_serializer,
    map_serializers and module_serializer. \<^theory_text>\<open>Fast_Resolver\<close>: processor/fast_source_line_resolver.
  \<^item> \<^theory_text>\<open>Postfix_Evaluator\<close>, \<^theory_text>\<open>CFI_Frame_Info\<close>: processor/postfix_evaluator and cfi_frame_info.
  \<^item> \<^theory_text>\<open>Symbol_Writer\<close>: common/module.h and module.cc. \<^theory_text>\<open>Dwarf_Reader\<close>, \<^theory_text>\<open>Dwarf_Numbers\<close>: common/dwarf/bytereader.
  \<^item> \<^theory_text>\<open>Dwarf_CFI\<close>, \<^theory_text>\<open>Dwarf_CFI_Reader\<close>: \<open>CallFrameInfo\<close> of common/dwarf/dwarf2reader, the interpreter of call
    frame instructions and the reader of the sections they lie in. \<^theory_text>\<open>Dwarf_CFI_Module\<close>:
    common/dwarf_cfi_to_module, the handler that turns their rules into rules of the symbol file.
  \<^item> \<^theory_text>\<open>Dwarf_Line\<close>: \<open>LineInfo\<close> of dwarf2reader and line_state_machine.h, the reader of line programs.
    \<^theory_text>\<open>Dwarf_Line_Module\<close>: common/dwarf_line_to_module, which collects the lines. \<^theory_text>\<open>Dwarf_Ranges\<close>:
    \<open>RangeListReader\<close> of dwarf2reader and common/dwarf_range_list_handler, the ranges of functions.
  \<^item> \<^theory_text>\<open>Code_Modules\<close>: processor/basic_code_module and basic_code_modules. \<^theory_text>\<open>Symbolizer\<close>:
    processor/source_line_resolver_base and stack_frame_symbolizer. \<^theory_text>\<open>Memory_Region\<close>: the memory regions of
    processor/minidump.cc.
  \<^item> \<^theory_text>\<open>Stackwalker\<close>: processor/stackwalker.cc and the scans of google_breakpad/processor/stackwalker.h.
    \<^theory_text>\<open>Walker_Common\<close> and \<^theory_text>\<open>Walker_ARM64\<close>, \<^theory_text>\<open>Walker_AMD64\<close>, \<^theory_text>\<open>Walker_X86\<close>, \<^theory_text>\<open>Walker_ARM\<close>,
    \<^theory_text>\<open>Walker_MIPS\<close>, \<^theory_text>\<open>Walker_PPC\<close> (with SPARC) and \<^theory_text>\<open>Walker_RISCV\<close>: the walkers for the CPUs.
    A register context is a function from registers to words; a frame of the call stack is that of an
    inlined function or one with a context. \<^theory_text>\<open>Stackwalker_CPU\<close>: processor/dump_context.cc and
    \<open>StackwalkerForCPU\<close>, the choice of the walker.

  \<^bold>\<open>What the lemmas show.\<close> \<^theory_text>\<open>Range_Map\<close> to \<^theory_text>\<open>Address_Map\<close>: every store keeps the invariant (ranges
  disjoint, or nested) and every retrieval finds exactly what covers the address. \<^theory_text>\<open>Token_Facts\<close>,
  \<^theory_text>\<open>Loader_Invariant\<close>: whatever bytes a symbol file has, the module loaded from it is well formed.
  \<^theory_text>\<open>Number_Text\<close>, \<^theory_text>\<open>Symbol_Roundtrip\<close>, \<^theory_text>\<open>Symbol_Properties\<close>: each record that is written is read back
  as it was. \<^theory_text>\<open>Dump_Load\<close>, \<^theory_text>\<open>Dump_Properties\<close>: the functions of a dumped module are found again by the
  lookups of the module loaded from its file. \<^theory_text>\<open>Dump_Numbering\<close>: the numbers of files and inline origins
  in a written file are ranks of their names. \<^theory_text>\<open>Fast_Refinement\<close>: on the serialized bytes of a module whose inline
  records have at most one range the fast resolver gives the answers of the basic resolver, and writing takes
  exactly the bytes that were computed. \<^theory_text>\<open>Postfix_Evaluator\<close>, \<^theory_text>\<open>CFI_Frame_Info\<close>: the evaluator computes the value of postfix
  expressions, rule sets survive printing and parsing, and the walk recovers what the rules denote.
  \<^theory_text>\<open>Dwarf_Numbers\<close>: the numbers and pointers of DWARF are decoded as they are encoded. \<^theory_text>\<open>Dwarf_CFI_Invariant\<close>,
  \<^theory_text>\<open>Dwarf_CFI_Translation\<close>, \<^theory_text>\<open>Dwarf_CFI_Properties\<close>: the reader keeps the protocol of its handler on any bytes,
  and the rows of the call frame table are what the handler files, address by address. \<^theory_text>\<open>Dump_CFI\<close>: the
  rules of a dumped module are found again by the lookup in the module loaded from its file, so that the
  bytes of a call frame section are followed to the rules of an address. \<^theory_text>\<open>Dwarf_Line_Invariant\<close>,
  \<^theory_text>\<open>Dwarf_Line_Properties\<close>: a program that encodes instructions reports the lines of their line table, and
  on any bytes the collected lines can be dumped. \<^theory_text>\<open>Dwarf_Range_Properties\<close>: a function gets exactly the
  ranges of its list. \<^theory_text>\<open>Code_Modules\<close>: a module that is found contains the address, whatever ranges were cut.
  \<^theory_text>\<open>Walk_Invariant\<close>, \<^theory_text>\<open>Walk_Properties\<close>: on the memory of any dump the walk of every CPU starts at the context,
  only goes up the stack, keeps the limit on scanned frames and exceeds that on all frames by one at most, scans find return addresses inside modules, and the walks that
  cannot meet a crashing program return. The theories of properties also hold small concrete inputs (\<open>demo_\<close>).

  \<^bold>\<open>Conventions.\<close> Machine integers are words where wrap-around matters and integers with explicit bounds
  otherwise. \<open>None\<close> as the result of an operation that returns something in the code is a run without a
  result: a crash, a failed assertion, undefined behaviour, or a loop that does not end; the header of
  each theory says which. Loops are structural recursions, recursions on a measure, or partial functions
  (\<open>option\<close>) where nothing in the code bounds them, with the proofs that they return; no fuel is used.
  Logging is counted, not printed. Uninitialised values the code reads are arguments (\<open>junk\<close>).

  \<^bold>\<open>Interfaces.\<close> The locale \<open>key_type\<close> is the contract of a key template argument, interpreted for 64-bit
  addresses and for 32-bit ids; \<open>serializer\<close>, \<open>entry_serializer\<close> and \<open>map_serializer\<close> are the contracts of
  the serializer templates, interpreted for every record and map of a module. \<open>cfi_protocol\<close> is the contract between the reader of call
  frame sections and its handler, interpreted for the handler that fills a module; \<open>line_protocol\<close> is the same for line programs and the handler
  that collects lines. \<open>cpu_walker\<close> is the contract between the walk and the walkers for the CPUs, and \<open>safe_walker\<close>,
  which extends it, that of a walker whose steps return: the invariant and the termination of the walk
  are proved in them once, and they are interpreted for every walker (x86 and ARM, whose steps can
  crash, only for the first).

  \<^bold>\<open>Not modelled.\<close> The streams of the minidump reader and the processor that walks all threads of a dump, the
  file access of the symbol suppliers, the handlers and writers that run inside the crashed process, the readers of ELF, Mach-O, PE and stabs, the
  DWARF reader for compilation units and its handlers, uploading, and command line tools: they are mostly file and system input and
  output around the core above, and are listed one by one in the manifest. Tests and third_party are
  left out.
\<close>

end
